(* ===== verification/Prelude.thy ===== *)
theory Prelude
  imports Main "HOL-Library.Sublist"
begin

text \<open>
  Shared vocabulary of the development.

  \<^item> The functions of Go's \<^verbatim>\<open>strings\<close> and \<^verbatim>\<open>slices\<close> packages that the modelled
    code calls, on lists of bytes: a Go string is a byte sequence and is modelled as
    \<open>string\<close> (a list of 8-bit characters). Case folding and white space are those of
    ASCII; on ASCII text they agree with Go's Unicode aware functions.
  \<^item> Instants: \<^verbatim>\<open>time.Time\<close> is an \<open>int\<close>, the nanoseconds since the Unix epoch;
    a \<^verbatim>\<open>time.Duration\<close> is an \<open>int\<close> number of nanoseconds.
  \<^item> Results: a Go function that returns a value and an error returns \<open>'e + 'a\<close>,
    \<open>Inl\<close> for a non-nil error.
  \<^item> Generic lemmas on lists used by several components.
\<close>

named_theorems go_string \<open>characterisations of the string functions\<close>

section \<open>Results\<close>

definition bindR :: "'e + 'a \<Rightarrow> ('a \<Rightarrow> 'e + 'b) \<Rightarrow> 'e + 'b" where
  "bindR r f = (case r of Inl e \<Rightarrow> Inl e | Inr a \<Rightarrow> f a)"

lemma bindR_simps [simp]:
  "bindR (Inl e) f = Inl e"
  "bindR (Inr a) f = f a"
  by (simp_all add: bindR_def)

lemma bindR_Inr_iff: "bindR r f = Inr b \<longleftrightarrow> (\<exists>a. r = Inr a \<and> f a = Inr b)"
  by (cases r) auto

lemma bindR_Inl_iff: "bindR r f = Inl e \<longleftrightarrow> r = Inl e \<or> (\<exists>a. r = Inr a \<and> f a = Inl e)"
  by (cases r) auto

section \<open>Instants\<close>

type_synonym go_time = int
type_synonym go_duration = int

definition millisecond :: go_duration where "millisecond = 1000000"
definition second :: go_duration where "second = 1000 * millisecond"
definition minute :: go_duration where "minute = 60 * second"
definition hour :: go_duration where "hour = 60 * minute"

lemmas duration_defs = millisecond_def second_def minute_def hour_def

text \<open>
  \<^verbatim>\<open>Time.UnixMilli\<close> rounds towards the past, \<^verbatim>\<open>time.UnixMilli\<close> reads the
  count back. The zero \<^verbatim>\<open>time.Time\<close> is the first of January of year 1.
\<close>

definition unix_milli :: "go_time \<Rightarrow> int" where
  "unix_milli t = t div millisecond"

definition from_unix_milli :: "int \<Rightarrow> go_time" where
  "from_unix_milli ms = ms * millisecond"

definition zero_time :: go_time where
  "zero_time = - 62135596800 * second"

definition trunc_ms :: "go_time \<Rightarrow> go_time" where
  "trunc_ms t = from_unix_milli (unix_milli t)"

lemma unix_milli_from_unix_milli [simp]: "unix_milli (from_unix_milli ms) = ms"
  by (simp add: unix_milli_def from_unix_milli_def millisecond_def)

lemma trunc_ms_le: "trunc_ms t \<le> t"
  by (simp add: trunc_ms_def unix_milli_def from_unix_milli_def millisecond_def)

lemma trunc_ms_gt: "t < trunc_ms t + millisecond"
  unfolding trunc_ms_def unix_milli_def from_unix_milli_def millisecond_def by presburger

lemma trunc_ms_idem [simp]: "trunc_ms (trunc_ms t) = trunc_ms t"
  by (simp add: trunc_ms_def)

lemma unix_milli_mono: "s \<le> t \<Longrightarrow> unix_milli s \<le> unix_milli t"
  by (simp add: unix_milli_def millisecond_def zdiv_mono1)

section \<open>Strings\<close>

definition HasPrefix :: "string \<Rightarrow> string \<Rightarrow> bool" where
  "HasPrefix s p = prefix p s"

definition HasSuffix :: "string \<Rightarrow> string \<Rightarrow> bool" where
  "HasSuffix s p = suffix p s"

definition Contains :: "string \<Rightarrow> string \<Rightarrow> bool" where
  "Contains s sub = sublist sub s"

definition TrimPrefix :: "string \<Rightarrow> string \<Rightarrow> string" where
  "TrimPrefix s p = (if prefix p s then drop (length p) s else s)"

definition TrimSuffix :: "string \<Rightarrow> string \<Rightarrow> string" where
  "TrimSuffix s p = (if suffix p s then take (length s - length p) s else s)"

text \<open>\<^verbatim>\<open>strings.IndexByte\<close>, with \<open>None\<close> for Go's -1.\<close>

fun IndexByte :: "'a list \<Rightarrow> 'a \<Rightarrow> nat option" where
  "IndexByte [] c = None"
| "IndexByte (x # xs) c = (if x = c then Some 0 else map_option Suc (IndexByte xs c))"

text \<open>\<^verbatim>\<open>strings.ReplaceAll\<close> for a non-empty \<open>old\<close>: the matches are taken from the left and do not overlap.\<close>

function ReplaceAll :: "'a list \<Rightarrow> 'a list \<Rightarrow> 'a list \<Rightarrow> 'a list" where
  "ReplaceAll s old new =
     (if s = [] then []
      else if old \<noteq> [] \<and> prefix old s then new @ ReplaceAll (drop (length old) s) old new
      else hd s # ReplaceAll (tl s) old new)"
  by pat_completeness auto
termination
  by (relation "measure (\<lambda>(s, old, new). length s)")
     (auto simp: diff_less_mono2 length_greater_0_conv)

declare ReplaceAll.simps [simp del]

text \<open>\<^verbatim>\<open>strings.Cut\<close> at a one byte separator.\<close>

fun CutByte :: "string \<Rightarrow> char \<Rightarrow> (string \<times> string) option" where
  "CutByte [] c = None"
| "CutByte (x # xs) c =
     (if x = c then Some ([], xs)
      else map_option (\<lambda>(b, a). (x # b, a)) (CutByte xs c))"

text \<open>\<^verbatim>\<open>strings.Split\<close> at a one byte separator; the result is never empty.\<close>

fun SplitByte :: "string \<Rightarrow> char \<Rightarrow> string list" where
  "SplitByte [] c = [[]]"
| "SplitByte (x # xs) c =
     (if x = c then [] # SplitByte xs c
      else (case SplitByte xs c of [] \<Rightarrow> [[x]] | w # ws \<Rightarrow> (x # w) # ws))"

definition is_space :: "char \<Rightarrow> bool" where
  "is_space c \<longleftrightarrow> c \<in> set [CHR 0x09, CHR 0x0A, CHR 0x0B, CHR 0x0C, CHR 0x0D, CHR '' '']"

definition TrimLeftFunc :: "('a \<Rightarrow> bool) \<Rightarrow> 'a list \<Rightarrow> 'a list" where
  "TrimLeftFunc p s = dropWhile p s"

definition TrimRightFunc :: "('a \<Rightarrow> bool) \<Rightarrow> 'a list \<Rightarrow> 'a list" where
  "TrimRightFunc p s = rev (dropWhile p (rev s))"

definition TrimSpace :: "string \<Rightarrow> string" where
  "TrimSpace s = TrimRightFunc is_space (TrimLeftFunc is_space s)"

definition TrimByte :: "string \<Rightarrow> char \<Rightarrow> string" where
  "TrimByte s c = TrimRightFunc (\<lambda>x. x = c) (TrimLeftFunc (\<lambda>x. x = c) s)"

definition TrimRightByte :: "string \<Rightarrow> char \<Rightarrow> string" where
  "TrimRightByte s c = TrimRightFunc (\<lambda>x. x = c) s"

definition to_lower_char :: "char \<Rightarrow> char" where
  "to_lower_char c =
     (if 65 \<le> (of_char c :: nat) \<and> (of_char c :: nat) \<le> 90 then char_of ((of_char c :: nat) + 32) else c)"

definition ToLower :: "string \<Rightarrow> string" where
  "ToLower s = map to_lower_char s"

text \<open>\<^verbatim>\<open>strings.FieldsFunc\<close>: the maximal runs of bytes that are not separators.\<close>

function FieldsFunc :: "string \<Rightarrow> (char \<Rightarrow> bool) \<Rightarrow> string list" where
  "FieldsFunc s p =
     (let r = dropWhile p s
      in if r = [] then []
         else takeWhile (\<lambda>c. \<not> p c) r # FieldsFunc (dropWhile (\<lambda>c. \<not> p c) r) p)"
  by pat_completeness auto
termination
proof (relation "measure (\<lambda>(s, p). length s)", simp)
  fix s :: string and p r
  assume r: "r = dropWhile p s" and ne: "r \<noteq> []"
  then obtain x xs where xs: "r = x # xs" and nx: "\<not> p x"
    by (metis hd_dropWhile list.collapse)
  have "length (dropWhile (\<lambda>c. \<not> p c) r) \<le> length xs"
    using xs nx by (simp add: length_dropWhile_le)
  also have "\<dots> < length r" using xs by simp
  also have "\<dots> \<le> length s" using r by (simp add: length_dropWhile_le)
  finally show "((dropWhile (\<lambda>c. \<not> p c) r, p), (s, p)) \<in> measure (\<lambda>(s, p). length s)"
    by simp
qed

declare FieldsFunc.simps [simp del]

text \<open>Decimal rendering: \<^verbatim>\<open>strconv.FormatInt\<close> in base 10 and \<^verbatim>\<open>strconv.Itoa\<close>.\<close>

fun nat_digits :: "nat \<Rightarrow> string" where
  "nat_digits n = (if n < 10 then [char_of (48 + n)] else nat_digits (n div 10) @ [char_of (48 + n mod 10)])"

declare nat_digits.simps [simp del]

definition itoa :: "int \<Rightarrow> string" where
  "itoa i = (if i < 0 then CHR ''-'' # nat_digits (nat (- i)) else nat_digits (nat i))"

section \<open>Lemmas on the string functions\<close>

lemma ReplaceAll_Nil [simp]: "ReplaceAll [] old new = []"
  by (simp add: ReplaceAll.simps)

lemma ReplaceAll_match: "old \<noteq> [] \<Longrightarrow> ReplaceAll (old @ s) old new = new @ ReplaceAll s old new"
  by (simp add: ReplaceAll.simps [of "old @ s"])

lemma ReplaceAll_skip:
  "\<not> prefix old (c # s) \<Longrightarrow> ReplaceAll (c # s) old new = c # ReplaceAll s old new"
  by (simp add: ReplaceAll.simps [of "c # s"])

lemma IndexByte_None [go_string]: "IndexByte s c = None \<longleftrightarrow> c \<notin> set s"
  by (induction s) auto

lemma IndexByte_Some:
  "IndexByte s c = Some i \<longleftrightarrow> i < length s \<and> s ! i = c \<and> c \<notin> set (take i s)"
proof (induction s arbitrary: i)
  case (Cons x xs)
  then show ?case by (cases i) auto
qed simp

lemma CutByte_None [go_string]: "CutByte s c = None \<longleftrightarrow> c \<notin> set s"
  by (induction s) auto

lemma CutByte_Some [go_string]:
  "CutByte s c = Some (b, a) \<longleftrightarrow> s = b @ c # a \<and> c \<notin> set b"
proof (induction s arbitrary: b a)
  case (Cons x xs)
  show ?case
    by (cases b) (auto simp: Cons.IH)
qed simp

lemma SplitByte_not_Nil [simp]: "SplitByte s c \<noteq> []"
  by (induction s) (auto split: list.splits)

lemma SplitByte_no_sep: "w \<in> set (SplitByte s c) \<Longrightarrow> c \<notin> set w"
proof (induction s arbitrary: w)
  case (Cons x xs)
  then show ?case by (auto split: if_splits list.splits)
qed simp

lemma ToLower_idem [simp]: "ToLower (ToLower s) = ToLower s"
proof -
  have "to_lower_char (to_lower_char c) = to_lower_char c" for c
    by (auto simp: to_lower_char_def)
  then show ?thesis by (simp add: ToLower_def)
qed

lemma TrimSpace_ends: "TrimSpace s = [] \<or> \<not> is_space (hd (TrimSpace s)) \<and> \<not> is_space (last (TrimSpace s))"
proof (cases "TrimSpace s = []")
  case False
  let ?l = "dropWhile is_space s"
  have t: "TrimSpace s = rev (dropWhile is_space (rev ?l))"
    by (simp add: TrimSpace_def TrimRightFunc_def TrimLeftFunc_def)
  with False have ne: "dropWhile is_space (rev ?l) \<noteq> []" by simp
  from hd_dropWhile [OF this] have "\<not> is_space (last (TrimSpace s))" unfolding t by (simp add: last_rev ne)
  moreover obtain u where u: "rev ?l = u @ dropWhile is_space (rev ?l)" by (metis takeWhile_dropWhile_id)
  then have "?l = TrimSpace s @ rev u" unfolding t by (metis rev_append rev_rev_ident)
  with False have hd: "hd ?l = hd (TrimSpace s)" by (metis hd_append2)
  have "?l \<noteq> []" using \<open>?l = TrimSpace s @ rev u\<close> False by (metis append_is_Nil_conv)
  from hd_dropWhile [OF this] hd have "\<not> is_space (hd (TrimSpace s))" by simp
  ultimately show ?thesis by simp
qed simp

lemma TrimSpace_id: "s = [] \<or> \<not> is_space (hd s) \<and> \<not> is_space (last s) \<Longrightarrow> TrimSpace s = s"
  by (auto simp: TrimSpace_def TrimRightFunc_def TrimLeftFunc_def dropWhile_eq_self_iff [THEN iffD2] hd_rev)

lemma TrimSpace_idem [simp]: "TrimSpace (TrimSpace s) = TrimSpace s"
  by (rule TrimSpace_id) (rule TrimSpace_ends)

lemma TrimSpace_Nil [simp]: "TrimSpace [] = []"
  by (simp add: TrimSpace_def TrimLeftFunc_def TrimRightFunc_def)

lemma nat_digits_not_Nil [simp]: "nat_digits n \<noteq> []" "[] \<noteq> nat_digits n"
  by (subst nat_digits.simps, simp)+

lemma nat_digits_range: "c \<in> set (nat_digits n) \<Longrightarrow> 48 \<le> (of_char c :: nat) \<and> (of_char c :: nat) \<le> 57"
proof (induction n rule: nat_digits.induct)
  case (1 n)
  show ?case
  proof (cases "n < 10")
    case True
    with 1 have "c = char_of (48 + n)" by (simp add: nat_digits.simps [of n])
    with True show ?thesis by (simp add: of_char_of)
  next
    case False
    with "1.prems" have "c \<in> set (nat_digits (n div 10)) \<or> c = char_of (48 + n mod 10)"
      by (auto simp: nat_digits.simps [of n])
    then show ?thesis
    proof
      assume "c = char_of (48 + n mod 10)"
      then have "(of_char c :: nat) = (48 + n mod 10) mod 256" by (simp add: of_char_of)
      then show ?thesis using mod_less_divisor [of 10 n] by simp
    qed (use 1 False in blast)
  qed
qed

lemma nat_digits_inj: "nat_digits m = nat_digits n \<Longrightarrow> m = n"
proof (induction m arbitrary: n rule: nat_digits.induct)
  case (1 m)
  have digit: "a < 10 \<Longrightarrow> b < 10 \<Longrightarrow> (char_of (48 + a) :: char) = char_of (48 + b) \<Longrightarrow> a = b" for a b :: nat
  proof -
    assume "a < 10" "b < 10" and eq: "(char_of (48 + a) :: char) = char_of (48 + b)"
    from eq have "(of_char (char_of (48 + a) :: char) :: nat) = of_char (char_of (48 + b) :: char)" by simp
    with \<open>a < 10\<close> \<open>b < 10\<close> show "a = b" by (simp add: of_char_of)
  qed
  consider "m < 10" "n < 10" | "m < 10" "\<not> n < 10" | "\<not> m < 10" "n < 10" | "\<not> m < 10" "\<not> n < 10"
    by blast
  then show ?case
  proof cases
    case 1
    then show ?thesis using "1.prems" digit [of m n] by (simp add: nat_digits.simps [of m] nat_digits.simps [of n])
  next
    case 2
    then show ?thesis using "1.prems" by (simp add: nat_digits.simps [of m] nat_digits.simps [of n])
  next
    case 3
    then show ?thesis using "1.prems" by (simp add: nat_digits.simps [of m] nat_digits.simps [of n])
  next
    case 4
    then have "nat_digits (m div 10) = nat_digits (n div 10)" "(char_of (48 + m mod 10) :: char) = char_of (48 + n mod 10)"
      using "1.prems" by (simp_all add: nat_digits.simps [of m] nat_digits.simps [of n])
    with "1.IH" 4 digit [of "m mod 10" "n mod 10"] have "m div 10 = n div 10" "m mod 10 = n mod 10" by auto
    then show ?thesis by (metis div_mult_mod_eq)
  qed
qed

lemma itoa_not_Nil [simp]: "itoa i \<noteq> []"
  by (simp add: itoa_def)

lemma itoa_inj: "itoa i = itoa j \<Longrightarrow> i = j"
proof -
  assume eq: "itoa i = itoa j"
  have minus: "CHR ''-'' \<notin> set (nat_digits n)" for n
    using nat_digits_range [of "CHR ''-''" n] by auto
  from eq show "i = j"
  proof (cases "i < 0"; cases "j < 0")
    assume "i < 0" "j < 0"
    with eq have "nat (- i) = nat (- j)" by (intro nat_digits_inj) (simp add: itoa_def)
    with \<open>i < 0\<close> \<open>j < 0\<close> show ?thesis by simp
  next
    assume "i < 0" "\<not> j < 0"
    with eq minus [of "nat j"] show ?thesis by (metis itoa_def list.set_intros(1))
  next
    assume "\<not> i < 0" "j < 0"
    with eq minus [of "nat i"] show ?thesis by (metis itoa_def list.set_intros(1))
  next
    assume "\<not> i < 0" "\<not> j < 0"
    with eq have "nat i = nat j" by (intro nat_digits_inj) (simp add: itoa_def)
    with \<open>\<not> i < 0\<close> \<open>\<not> j < 0\<close> show ?thesis by simp
  qed
qed

lemma itoa_no_slash: "CHR ''/'' \<notin> set (itoa i)"
  using nat_digits_range [of "CHR ''/''"] by (auto simp: itoa_def)

lemma find_SomeD: "find p xs = Some x \<Longrightarrow> x \<in> set xs \<and> p x"
  by (induction xs) (auto split: if_splits)

lemma dropWhile_hd: "dropWhile p s \<noteq> [] \<Longrightarrow> \<not> p (hd (dropWhile p s))"
  by (rule hd_dropWhile)

section \<open>Reading numbers\<close>

definition digits_value :: "nat \<Rightarrow> string \<Rightarrow> nat" where
  "digits_value a s = foldl (\<lambda>a c. 10 * a + (of_char c - 48)) a s"

lemma digits_value_append [simp]: "digits_value a (s @ t) = digits_value (digits_value a s) t"
  by (simp add: digits_value_def)

lemma digits_value_digits: "digits_value 0 (nat_digits n) = n"
proof (induction n rule: nat_digits.induct)
  case (1 n)
  then show ?case
    by (cases "n < 10") (simp_all add: nat_digits.simps [of n] digits_value_def of_char_of)
qed

lemma digits_value_zeros: "digits_value 0 (replicate k (CHR ''0'')) = 0"
  by (induction k) (simp_all add: digits_value_def)

text \<open>\<^verbatim>\<open>strconv.ParseInt\<close> in base 10 at 64 bits, which \<^verbatim>\<open>strconv.Atoi\<close> is on the platforms of the server.\<close>

definition int64_range :: "int \<Rightarrow> bool" where
  "int64_range i \<longleftrightarrow> - (2 ^ 63) \<le> i \<and> i < 2 ^ 63"

definition is_digit :: "char \<Rightarrow> bool" where
  "is_digit c \<longleftrightarrow> 48 \<le> (of_char c :: nat) \<and> (of_char c :: nat) \<le> 57"

definition ParseInt64 :: "string \<Rightarrow> int option" where
  "ParseInt64 s =
     (let sign = (case s of [] \<Rightarrow> None | c # _ \<Rightarrow> if c = CHR ''+'' \<or> c = CHR ''-'' then Some c else None);
          ds = (if sign = None then s else tl s);
          n = (if sign = Some (CHR ''-'') then - int (digits_value 0 ds) else int (digits_value 0 ds))
      in if ds = [] \<or> \<not> list_all is_digit ds \<or> \<not> int64_range n then None else Some n)"

lemma digits_all [simp]: "list_all is_digit (nat_digits n)"
  using nat_digits_range by (auto simp: list_all_iff is_digit_def)

lemma ParseInt64_itoa [simp]: "int64_range i \<Longrightarrow> ParseInt64 (itoa i) = Some i"
proof (cases "i < 0")
  case True
  assume "int64_range i"
  with True show ?thesis by (simp add: ParseInt64_def itoa_def Let_def digits_value_digits)
next
  case False
  obtain c w where w: "nat_digits (nat i) = c # w" by (cases "nat_digits (nat i)") auto
  have "is_digit c" using digits_all [of "nat i"] w by simp
  then have "c \<noteq> CHR ''+''" "c \<noteq> CHR ''-''" by (auto simp: is_digit_def)
  moreover assume "int64_range i"
  moreover have "list_all is_digit (c # w)" "digits_value 0 (c # w) = nat i"
    using digits_all [of "nat i"] digits_value_digits [of "nat i"] by (simp_all add: w)
  ultimately show ?thesis using False by (simp add: ParseInt64_def itoa_def Let_def w)
qed

lemma sum_list_update_nat:
  "g < length xs \<Longrightarrow> sum_list (map f (xs[g := y])) + f (xs ! g) = sum_list (map f xs) + (f y :: nat)"
  by (induction xs arbitrary: g) (auto split: nat.splits)

end
