(* ===== verification/Models.thy ===== *)
theory Models
  imports Prelude "HOL-Library.Word"
begin

text \<open>
  The data of \<^verbatim>\<open>internal/stores/models.go\<close> and the enumerations of
  \<^verbatim>\<open>internal/stores/enums.go\<close>. Every Go enumeration is a string type whose zero value
  is the empty string; a datatype has that zero value as the constructor ending in
  \<open>Unset\<close>. A Go pointer is an \<open>option\<close>, \<open>None\<close> for nil. Field names carry the initial
  of their struct, since two records of one theory cannot share a field name.
\<close>

unbundle bit_operations_syntax

section \<open>Identifiers\<close>

type_synonym uuid = "128 word"

text \<open>\<^verbatim>\<open>uuid.Nil()\<close> and the canonical 8-4-4-4-12 rendering of \<^verbatim>\<open>UUID.String\<close>.\<close>

definition uuid_Nil :: uuid where "uuid_Nil = 0"

definition hex_digit :: "nat \<Rightarrow> char" where
  "hex_digit n = (if n < 10 then char_of (48 + n) else char_of (87 + n))"

definition nibble :: "uuid \<Rightarrow> nat \<Rightarrow> nat" where
  "nibble u i = unat (drop_bit (4 * (31 - i)) u AND 15)"

definition uuid_hex :: "uuid \<Rightarrow> string" where
  "uuid_hex u = map (\<lambda>i. hex_digit (nibble u i)) [0..<32]"

definition uuid_String :: "uuid \<Rightarrow> string" where
  "uuid_String u =
     (let h = uuid_hex u
      in take 8 h @ ''-'' @ take 4 (drop 8 h) @ ''-'' @ take 4 (drop 12 h) @ ''-'' @
         take 4 (drop 16 h) @ ''-'' @ drop 20 h)"

lemma hex_digit_inj: "m < 16 \<Longrightarrow> n < 16 \<Longrightarrow> hex_digit m = hex_digit n \<Longrightarrow> m = n"
proof -
  assume m: "m < 16" and n: "n < 16" and eq: "hex_digit m = hex_digit n"
  have code: "k < 16 \<Longrightarrow> of_char (hex_digit k) = (if k < 10 then 48 + k else 87 + k)" for k
    by (simp add: hex_digit_def of_char_of)
  from eq have "(of_char (hex_digit m) :: nat) = of_char (hex_digit n)" by simp
  with m n show "m = n" by (simp add: code split: if_splits)
qed

lemma nibble_less: "nibble u i < 16"
proof -
  have "drop_bit (4 * (31 - i)) u AND 15 = take_bit 4 (drop_bit (4 * (31 - i)) u)"
    by (simp add: take_bit_eq_mask mask_eq_exp_minus_1)
  then show ?thesis
    unfolding nibble_def by (simp add: unsigned_take_bit_eq) (simp add: take_bit_eq_mod)
qed

lemma bit_nibble: "j < 4 \<Longrightarrow> bit (nibble u i) j = bit u (4 * (31 - i) + j)"
proof -
  assume j: "j < 4"
  have "drop_bit (4 * (31 - i)) u AND 15 = take_bit 4 (drop_bit (4 * (31 - i)) u)"
    by (simp add: take_bit_eq_mask mask_eq_exp_minus_1)
  then show ?thesis
    using j unfolding nibble_def
    by (simp add: bit_unsigned_iff bit_take_bit_iff bit_drop_bit_eq possible_bit_word)
qed

lemma uuid_hex_inj: "uuid_hex u = uuid_hex v \<Longrightarrow> u = v"
proof -
  assume eq: "uuid_hex u = uuid_hex v"
  have nib: "nibble u i = nibble v i" if "i < 32" for i
  proof -
    from eq that have "hex_digit (nibble u i) = hex_digit (nibble v i)"
      by (auto simp: uuid_hex_def)
    then show ?thesis by (intro hex_digit_inj nibble_less)
  qed
  show "u = v"
  proof (rule bit_word_eqI)
    fix n assume "n < LENGTH(128)"
    then have n: "n < 128" by simp
    define i where "i = 31 - n div 4"
    define j where "j = n mod 4"
    have i: "i < 32" and j: "j < 4" and nij: "4 * (31 - i) + j = n"
      using n by (auto simp: i_def j_def)
    from bit_nibble [OF j, of u i] bit_nibble [OF j, of v i] nib [OF i]
    show "bit u n \<longleftrightarrow> bit v n" by (simp add: nij)
  qed
qed

lemma length_uuid_hex [simp]: "length (uuid_hex u) = 32"
  by (simp add: uuid_hex_def)

lemma length_uuid_String [simp]: "length (uuid_String u) = 36"
  by (simp add: uuid_String_def Let_def)

lemma uuid_String_inj: "uuid_String u = uuid_String v \<Longrightarrow> u = v"
proof -
  have rebuild: "h = take 8 h @ take 4 (drop 8 h) @ take 4 (drop 12 h) @ take 4 (drop 16 h) @ drop 20 h"
    for h :: string
  proof -
    have "drop 16 h = take 4 (drop 16 h) @ drop 20 h"
      using append_take_drop_id [of 4 "drop 16 h"] by simp
    moreover have "drop 12 h = take 4 (drop 12 h) @ drop 16 h"
      using append_take_drop_id [of 4 "drop 12 h"] by simp
    moreover have "drop 8 h = take 4 (drop 8 h) @ drop 12 h"
      using append_take_drop_id [of 4 "drop 8 h"] by simp
    ultimately show ?thesis
      using append_take_drop_id [of 8 h] by metis
  qed
  assume "uuid_String u = uuid_String v"
  then have "take 8 (uuid_hex u) = take 8 (uuid_hex v)"
    "take 4 (drop 8 (uuid_hex u)) = take 4 (drop 8 (uuid_hex v))"
    "take 4 (drop 12 (uuid_hex u)) = take 4 (drop 12 (uuid_hex v))"
    "take 4 (drop 16 (uuid_hex u)) = take 4 (drop 16 (uuid_hex v))"
    "drop 20 (uuid_hex u) = drop 20 (uuid_hex v)"
    by (simp_all add: uuid_String_def Let_def)
  then have "uuid_hex u = uuid_hex v"
    using rebuild [of "uuid_hex u"] rebuild [of "uuid_hex v"] by simp
  then show "u = v" by (rule uuid_hex_inj)
qed

lemma uuid_String_eq_iff [simp]: "uuid_String u = uuid_String v \<longleftrightarrow> u = v"
  using uuid_String_inj by auto

section \<open>Enumerations\<close>

datatype provider = ProviderGithub | ProviderGitlab | ProviderGeneric | ProviderOther string

datatype auth_type = AuthTypeNone | AuthTypeToken | AuthTypeSsh | AuthTypeOther string

datatype status =
    StatusUnset | StatusPending | StatusRunning | StatusSuccess | StatusFailed | StatusCanceled

datatype trigger =
    TriggerUnset | TriggerManual | TriggerWebhook | TriggerCron | TriggerRebuild | TriggerRetry

datatype step_status =
    StepStatusUnset | StepStatusPending | StepStatusRunning | StepStatusSuccess
  | StepStatusFailed | StepStatusSkipped | StepStatusCanceled

datatype source = SourceUnset | SourceGit | SourceSnapshot

fun ParseProvider :: "string \<Rightarrow> provider option" where
  "ParseProvider s =
     (if s = ''github'' then Some ProviderGithub
      else if s = ''gitlab'' then Some ProviderGitlab
      else if s = ''generic'' then Some ProviderGeneric
      else None)"

fun ParseAuthType :: "string \<Rightarrow> auth_type option" where
  "ParseAuthType s =
     (if s = ''none'' then Some AuthTypeNone
      else if s = ''token'' then Some AuthTypeToken
      else if s = ''ssh'' then Some AuthTypeSsh
      else None)"

fun ParseStatus :: "string \<Rightarrow> status option" where
  "ParseStatus s =
     (if s = ''pending'' then Some StatusPending
      else if s = ''running'' then Some StatusRunning
      else if s = ''success'' then Some StatusSuccess
      else if s = ''failed'' then Some StatusFailed
      else if s = ''canceled'' then Some StatusCanceled
      else None)"

fun ParseStepStatus :: "string \<Rightarrow> step_status option" where
  "ParseStepStatus s =
     (if s = ''pending'' then Some StepStatusPending
      else if s = ''running'' then Some StepStatusRunning
      else if s = ''success'' then Some StepStatusSuccess
      else if s = ''failed'' then Some StepStatusFailed
      else if s = ''skipped'' then Some StepStatusSkipped
      else if s = ''canceled'' then Some StepStatusCanceled
      else None)"

fun ParseTrigger :: "string \<Rightarrow> trigger option" where
  "ParseTrigger s =
     (if s = ''manual'' then Some TriggerManual
      else if s = ''webhook'' then Some TriggerWebhook
      else if s = ''cron'' then Some TriggerCron
      else if s = ''rebuild'' then Some TriggerRebuild
      else if s = ''retry'' then Some TriggerRetry
      else None)"

fun ParseSource :: "string \<Rightarrow> source option" where
  "ParseSource s =
     (if s = ''git'' then Some SourceGit
      else if s = ''snapshot'' then Some SourceSnapshot
      else None)"

fun provider_String :: "provider \<Rightarrow> string" where
  "provider_String ProviderGithub = ''github''"
| "provider_String ProviderGitlab = ''gitlab''"
| "provider_String ProviderGeneric = ''generic''"
| "provider_String (ProviderOther s) = s"

fun auth_type_String :: "auth_type \<Rightarrow> string" where
  "auth_type_String AuthTypeNone = ''none''"
| "auth_type_String AuthTypeToken = ''token''"
| "auth_type_String AuthTypeSsh = ''ssh''"
| "auth_type_String (AuthTypeOther s) = s"

fun status_String :: "status \<Rightarrow> string" where
  "status_String StatusUnset = ''''"
| "status_String StatusPending = ''pending''"
| "status_String StatusRunning = ''running''"
| "status_String StatusSuccess = ''success''"
| "status_String StatusFailed = ''failed''"
| "status_String StatusCanceled = ''canceled''"

fun step_status_String :: "step_status \<Rightarrow> string" where
  "step_status_String StepStatusUnset = ''''"
| "step_status_String StepStatusPending = ''pending''"
| "step_status_String StepStatusRunning = ''running''"
| "step_status_String StepStatusSuccess = ''success''"
| "step_status_String StepStatusFailed = ''failed''"
| "step_status_String StepStatusSkipped = ''skipped''"
| "step_status_String StepStatusCanceled = ''canceled''"

fun trigger_String :: "trigger \<Rightarrow> string" where
  "trigger_String TriggerUnset = ''''"
| "trigger_String TriggerManual = ''manual''"
| "trigger_String TriggerWebhook = ''webhook''"
| "trigger_String TriggerCron = ''cron''"
| "trigger_String TriggerRebuild = ''rebuild''"
| "trigger_String TriggerRetry = ''retry''"

fun source_String :: "source \<Rightarrow> string" where
  "source_String SourceUnset = ''''"
| "source_String SourceGit = ''git''"
| "source_String SourceSnapshot = ''snapshot''"

definition provider_IsValid :: "provider \<Rightarrow> bool" where
  "provider_IsValid p = (ParseProvider (provider_String p) \<noteq> None)"

definition auth_type_IsValid :: "auth_type \<Rightarrow> bool" where
  "auth_type_IsValid a = (ParseAuthType (auth_type_String a) \<noteq> None)"

lemma ParseStatus_String: "st \<noteq> StatusUnset \<Longrightarrow> ParseStatus (status_String st) = Some st"
  by (cases st) simp_all

lemma ParseStepStatus_String:
  "st \<noteq> StepStatusUnset \<Longrightarrow> ParseStepStatus (step_status_String st) = Some st"
  by (cases st) simp_all

lemma ParseTrigger_String: "t \<noteq> TriggerUnset \<Longrightarrow> ParseTrigger (trigger_String t) = Some t"
  by (cases t) simp_all

lemma ParseSource_String: "s \<noteq> SourceUnset \<Longrightarrow> ParseSource (source_String s) = Some s"
  by (cases s) simp_all

lemma provider_IsValid_simps [simp]:
  "provider_IsValid ProviderGithub" "provider_IsValid ProviderGitlab" "provider_IsValid ProviderGeneric"
  by (simp_all add: provider_IsValid_def)

lemma auth_type_IsValid_simps [simp]:
  "auth_type_IsValid AuthTypeNone" "auth_type_IsValid AuthTypeToken" "auth_type_IsValid AuthTypeSsh"
  by (simp_all add: auth_type_IsValid_def)

text \<open>The terminal statuses: no attempt leaves them.\<close>

definition status_terminal :: "status \<Rightarrow> bool" where
  "status_terminal st \<longleftrightarrow> st = StatusSuccess \<or> st = StatusFailed \<or> st = StatusCanceled"

definition status_active :: "status \<Rightarrow> bool" where
  "status_active st \<longleftrightarrow> st = StatusPending \<or> st = StatusRunning"

section \<open>Records\<close>

record user =
  u_ID :: uuid
  u_Provider :: string
  u_ProviderUserID :: string
  u_Login :: string
  u_Name :: string
  u_AvatarURL :: string
  u_OAuthAccessToken :: string
  u_OAuthRefreshToken :: string
  u_OAuthExpiresAt :: "go_time option"
  u_CreatedAt :: go_time
  u_LastLoginAt :: go_time
  u_LastOrgCheckAt :: "go_time option"
  u_DisabledAt :: "go_time option"

definition WithoutOAuthTokens :: "user \<Rightarrow> user" where
  "WithoutOAuthTokens u =
     u\<lparr>u_OAuthAccessToken := [], u_OAuthRefreshToken := [], u_OAuthExpiresAt := None\<rparr>"

record session =
  s_ID :: string
  s_UserID :: uuid
  s_CSRFToken :: string
  s_CreatedAt :: go_time
  s_LastSeenAt :: go_time
  s_ExpiresAt :: go_time
  s_UserAgent :: string

record api_token =
  t_ID :: uuid
  t_UserID :: uuid
  t_Name :: string
  t_Prefix :: string
  t_TokenHash :: string
  t_CreatedAt :: go_time
  t_LastUsedAt :: "go_time option"
  t_ExpiresAt :: "go_time option"

record project =
  p_ID :: uuid
  p_Name :: string
  p_RepoURL :: string
  p_Provider :: provider
  p_AuthType :: auth_type
  p_AuthUser :: string
  p_AuthSecret :: string
  p_WebhookSecret :: string
  p_DefaultBranch :: string
  p_CreatedAt :: go_time
  p_UpdatedAt :: go_time

record variable =
  v_ProjectID :: "uuid option"
  v_Key :: string
  v_Value :: string
  v_Secret :: bool

record step_result =
  r_Name :: string
  r_Status :: step_status
  r_StartedAt :: "go_time option"
  r_FinishedAt :: "go_time option"
  r_Timeout :: go_duration
  r_ExitCode :: int
  r_Error :: string
  r_Env :: "string list"

definition StepResult :: "string \<Rightarrow> step_status \<Rightarrow> step_result" where
  \<comment> \<open>a \<^verbatim>\<open>StepResult\<close> literal that sets the name and the status only\<close>
  "StepResult n st =
     \<lparr>r_Name = n, r_Status = st, r_StartedAt = None, r_FinishedAt = None, r_Timeout = 0,
      r_ExitCode = 0, r_Error = [], r_Env = []\<rparr>"

lemma StepResult_simps [simp]:
  "r_Name (StepResult n st) = n" "r_Status (StepResult n st) = st"
  "r_Error (StepResult n st) = []" "r_Env (StepResult n st) = []"
  "r_StartedAt (StepResult n st) = None" "r_FinishedAt (StepResult n st) = None"
  by (simp_all add: StepResult_def)

record execution =
  e_ID :: int
  e_ExecutionID :: int
  e_Attempt :: int
  e_AttemptsCount :: int
  e_ProjectID :: uuid
  e_Project :: string
  e_Workflow :: string
  e_Ref :: string
  e_CommitSHA :: string
  e_Status :: status
  e_Trigger :: trigger
  e_Source :: source
  e_Steps :: "step_result list"
  e_Error :: string
  e_CreatedAt :: go_time
  e_AttemptCreatedAt :: go_time
  e_StartedAt :: "go_time option"
  e_SetupFinishedAt :: "go_time option"
  e_FinishedAt :: "go_time option"
  e_ClaimedBy :: string
  e_CancelRequested :: bool
  e_ConcurrencyGroup :: string
  e_ParentID :: "int option"
  e_PreviousAttemptID :: "int option"
  e_WorkspaceID :: "int option"
  e_SnapshotID :: "uuid option"
  e_CheckRunID :: int
  e_CreatedBy :: "uuid option"
  e_CreatedByLogin :: string

text \<open>The zero value of \<^verbatim>\<open>stores.Execution\<close>; a Go literal updates the fields it names.\<close>

definition Execution0 :: execution where
  "Execution0 =
     \<lparr>e_ID = 0, e_ExecutionID = 0, e_Attempt = 0, e_AttemptsCount = 0, e_ProjectID = uuid_Nil,
      e_Project = [], e_Workflow = [], e_Ref = [], e_CommitSHA = [], e_Status = StatusUnset,
      e_Trigger = TriggerUnset, e_Source = SourceUnset, e_Steps = [], e_Error = [],
      e_CreatedAt = zero_time, e_AttemptCreatedAt = zero_time, e_StartedAt = None,
      e_SetupFinishedAt = None, e_FinishedAt = None, e_ClaimedBy = [], e_CancelRequested = False,
      e_ConcurrencyGroup = [], e_ParentID = None, e_PreviousAttemptID = None, e_WorkspaceID = None,
      e_SnapshotID = None, e_CheckRunID = 0, e_CreatedBy = None, e_CreatedByLogin = []\<rparr>"

record attempt =
  a_Number :: int
  a_Status :: status
  a_Trigger :: trigger
  a_Error :: string
  a_CreatedAt :: go_time
  a_StartedAt :: "go_time option"
  a_FinishedAt :: "go_time option"
  a_CreatedBy :: "uuid option"
  a_CreatedByLogin :: string

definition AttemptSummary :: "execution \<Rightarrow> attempt" where
  "AttemptSummary e =
     \<lparr>a_Number = e_Attempt e, a_Status = e_Status e, a_Trigger = e_Trigger e, a_Error = e_Error e,
      a_CreatedAt = e_CreatedAt e, a_StartedAt = e_StartedAt e, a_FinishedAt = e_FinishedAt e,
      a_CreatedBy = e_CreatedBy e, a_CreatedByLogin = e_CreatedByLogin e\<rparr>"

record schedule =
  c_ProjectID :: uuid
  c_Workflow :: string
  c_CronExpr :: string
  c_NextRunAt :: go_time

section \<open>Store errors\<close>

text \<open>
  What a store method returns as its error: \<^verbatim>\<open>stores.ErrNotFound\<close>, a raw
  \<^verbatim>\<open>sql.ErrNoRows\<close>, a violated constraint of the schema, or a failure of the database
  itself (connection, timeout, cancelled context), which only an environment can produce.
\<close>

datatype store_error = ErrNotFound | ErrNoRows | ErrConstraint string | ErrDatabase string

end
