(* ===== verification/Workflow.thy ===== *)
theory Workflow
  imports Models
begin

text \<open>
  The workflow configuration of \<^verbatim>\<open>internal/ci/config.go\<close>, its validation, and the
  trigger matching of \<^verbatim>\<open>internal/ci/paths.go\<close> and \<^verbatim>\<open>internal/ci/schedule.go\<close>.

  The YAML library is not part of the repository. Its result, the dynamic value Go code
  sees through \<^verbatim>\<open>any\<close>, is the datatype \<open>yaml\<close>; a Go map is an association list in
  the (unspecified) order in which \<^verbatim>\<open>range\<close> visits it, and the lemmas show that the
  order does not matter. The decoding functions themselves are parameters of \<open>Parse\<close>.
  The glob matcher of \<^verbatim>\<open>doublestar\<close> is the parameter \<open>glob\<close>, \<open>None\<close> for a malformed
  pattern.
\<close>

section \<open>Data\<close>

datatype yaml =
    YNil | YString string | YInt int | YBool bool
  | YList "yaml list" | YMap "(string \<times> yaml) list"

record ref_filter =
  rf_Branches :: "string list"
  rf_Tags :: "string list"

record pull_request_config =
  pr_Branches :: "string list"

record on_config =
  on_Push :: "ref_filter option"
  on_PullRequest :: "pull_request_config option"
  on_Manual :: "ref_filter option"
  on_Schedule :: string

record step =
  st_Name :: string
  st_Script :: string
  st_Run :: string
  st_Timeout :: go_duration
  st_DependsOn :: "string list"
  st_Env :: "(string \<times> string) list"
  st_Retry :: int
  st_Artifacts :: "string list"
  st_Docker :: bool

text \<open>The field \<^verbatim>\<open>Schema\<close> is accepted and ignored at run time, as in the source.\<close>

record config =
  cf_Schema :: string
  cf_Name :: string
  cf_Image :: string
  cf_Env :: "(string \<times> string) list"
  cf_On :: "on_config option"
  cf_Paths :: "string list"
  cf_PathsIgnore :: "string list"
  cf_Cache :: "string list"
  cf_Concurrency :: string
  cf_Steps :: "step list"

definition Step0 :: step where
  "Step0 = \<lparr>st_Name = [], st_Script = [], st_Run = [], st_Timeout = 0, st_DependsOn = [],
     st_Env = [], st_Retry = 0, st_Artifacts = [], st_Docker = False\<rparr>"

definition RefFilter0 :: ref_filter where
  "RefFilter0 = \<lparr>rf_Branches = [], rf_Tags = []\<rparr>"

definition PullRequestConfig0 :: pull_request_config where
  "PullRequestConfig0 = \<lparr>pr_Branches = []\<rparr>"

definition On0 :: on_config where
  "On0 = \<lparr>on_Push = None, on_PullRequest = None, on_Manual = None, on_Schedule = []\<rparr>"

text \<open>One constructor per error message of \<^verbatim>\<open>config.go\<close> and of \<^verbatim>\<open>orderSteps\<close>.\<close>

datatype config_error =
    InvalidOn | InvalidOnEntry | ManualShorthand | ScheduleNotCron | UnknownEvent string
  | ExpectedMapping string | ExpectedStrings string | UnknownKey string string | PullRequestTags
  | RemovedKey string | DecodeError string | NoSteps | StepMissingName nat
  | StepNoCommand string | StepNegativeRetry string
  | UnknownDependency string string | DependencyCycle

section \<open>Decoding the \<^verbatim>\<open>on:\<close> key\<close>

fun strings_of :: "yaml list \<Rightarrow> string list option" where
  "strings_of [] = Some []"
| "strings_of (YString s # es) = map_option ((#) s) (strings_of es)"
| "strings_of (_ # es) = None"

fun toStrings :: "yaml \<Rightarrow> unit + string list" where
  "toStrings YNil = Inr []"
| "toStrings (YList arr) = (case strings_of arr of None \<Rightarrow> Inl () | Some out \<Rightarrow> Inr out)"
| "toStrings _ = Inl ()"

fun refFilterKeys :: "string \<Rightarrow> ref_filter \<Rightarrow> (string \<times> yaml) list \<Rightarrow> config_error + ref_filter" where
  "refFilterKeys field cfg [] = Inr cfg"
| "refFilterKeys field cfg ((k, v) # m) =
     (if k = ''branches'' then
        (case toStrings v of
           Inl _ \<Rightarrow> Inl (ExpectedStrings (field @ ''.branches''))
         | Inr list \<Rightarrow> refFilterKeys field (cfg\<lparr>rf_Branches := list\<rparr>) m)
      else if k = ''tags'' then
        (case toStrings v of
           Inl _ \<Rightarrow> Inl (ExpectedStrings (field @ ''.tags''))
         | Inr list \<Rightarrow> refFilterKeys field (cfg\<lparr>rf_Tags := list\<rparr>) m)
      else Inl (UnknownKey k field))"

fun parseRefFilter :: "yaml \<Rightarrow> string \<Rightarrow> config_error + ref_filter" where
  "parseRefFilter YNil field = Inr RefFilter0"
| "parseRefFilter (YMap m) field = refFilterKeys field RefFilter0 m"
| "parseRefFilter _ field = Inl (ExpectedMapping field)"

fun pullRequestKeys :: "pull_request_config \<Rightarrow> (string \<times> yaml) list \<Rightarrow> config_error + pull_request_config" where
  "pullRequestKeys cfg [] = Inr cfg"
| "pullRequestKeys cfg ((k, v) # m) =
     (if k = ''branches'' then
        (case toStrings v of
           Inl _ \<Rightarrow> Inl (ExpectedStrings ''on.pull_request.branches'')
         | Inr list \<Rightarrow> pullRequestKeys (cfg\<lparr>pr_Branches := list\<rparr>) m)
      else if k = ''tags'' then Inl PullRequestTags
      else Inl (UnknownKey k ''on.pull_request''))"

fun parsePullRequest :: "yaml \<Rightarrow> config_error + pull_request_config" where
  "parsePullRequest YNil = Inr PullRequestConfig0"
| "parsePullRequest (YMap m) = pullRequestKeys PullRequestConfig0 m"
| "parsePullRequest _ = Inl (ExpectedMapping ''on.pull_request'')"

definition setEvent :: "on_config \<Rightarrow> string \<Rightarrow> yaml \<Rightarrow> bool \<Rightarrow> config_error + on_config" where
  "setEvent o1 name val shorthand =
     (if name = ''push'' then
        bindR (parseRefFilter val ''on.push'') (\<lambda>cfg. Inr (o1\<lparr>on_Push := Some cfg\<rparr>))
      else if name = ''manual'' then
        (if shorthand then Inl ManualShorthand
         else bindR (parseRefFilter val ''on.manual'') (\<lambda>cfg. Inr (o1\<lparr>on_Manual := Some cfg\<rparr>)))
      else if name = ''pull_request'' then
        bindR (parsePullRequest val) (\<lambda>cfg. Inr (o1\<lparr>on_PullRequest := Some cfg\<rparr>))
      else if name = ''schedule'' then
        (case val of
           YString s \<Rightarrow> if s = [] then Inl ScheduleNotCron else Inr (o1\<lparr>on_Schedule := s\<rparr>)
         | _ \<Rightarrow> Inl ScheduleNotCron)
      else Inl (UnknownEvent name))"

fun onList :: "on_config \<Rightarrow> yaml list \<Rightarrow> config_error + on_config" where
  "onList o1 [] = Inr o1"
| "onList o1 (YString name # es) = bindR (setEvent o1 name YNil True) (\<lambda>o2. onList o2 es)"
| "onList o1 (_ # es) = Inl InvalidOnEntry"

fun onMap :: "on_config \<Rightarrow> (string \<times> yaml) list \<Rightarrow> config_error + on_config" where
  "onMap o1 [] = Inr o1"
| "onMap o1 ((name, val) # m) = bindR (setEvent o1 name val False) (\<lambda>o2. onMap o2 m)"

fun On_UnmarshalYAML :: "yaml \<Rightarrow> config_error + on_config" where
  "On_UnmarshalYAML YNil = Inr On0"
| "On_UnmarshalYAML (YString t) = setEvent On0 t YNil True"
| "On_UnmarshalYAML (YList t) = onList On0 t"
| "On_UnmarshalYAML (YMap t) = onMap On0 t"
| "On_UnmarshalYAML _ = Inl InvalidOn"

section \<open>Parsing and validating a \<^verbatim>\<open>ci.yml\<close>\<close>

definition removedRootKeys :: "string list" where
  "removedRootKeys = [''schedule'', ''tags'', ''branches'', ''triggers'']"

fun checkSteps :: "nat \<Rightarrow> step list \<Rightarrow> config_error option" where
  "checkSteps i [] = None"
| "checkSteps i (s # ss) =
     (if st_Name s = [] then Some (StepMissingName i)
      else if st_Script s = [] \<and> st_Run s = [] then Some (StepNoCommand (st_Name s))
      else if st_Retry s < 0 then Some (StepNegativeRetry (st_Name s))
      else checkSteps (Suc i) ss)"

text \<open>
  \<open>unmarshal_root\<close> is the untyped decoding into \<^verbatim>\<open>map[string]any\<close>, \<open>None\<close> when it
  fails; \<open>unmarshal_strict\<close> is the strict decoding into a \<^verbatim>\<open>Config\<close>.
\<close>

definition Parse ::
  "(string \<Rightarrow> (string \<times> yaml) list option) \<Rightarrow> (string \<Rightarrow> config_error + config) \<Rightarrow> string \<Rightarrow> config_error + config"
where
  "Parse unmarshal_root unmarshal_strict data =
     (case (case unmarshal_root data of
              None \<Rightarrow> None
            | Some root \<Rightarrow> find (\<lambda>k. k \<in> set (map fst root)) removedRootKeys) of
        Some k \<Rightarrow> Inl (RemovedKey k)
      | None \<Rightarrow>
          bindR (unmarshal_strict data)
            (\<lambda>cfg. if cf_Steps cfg = [] then Inl NoSteps
                   else (case checkSteps 0 (cf_Steps cfg) of
                           Some e \<Rightarrow> Inl e
                         | None \<Rightarrow> Inr cfg)))"

section \<open>Matching events\<close>

definition matchesAny :: "(string \<Rightarrow> string \<Rightarrow> bool option) \<Rightarrow> string list \<Rightarrow> string \<Rightarrow> bool" where
  "matchesAny glob patterns s = list_ex (\<lambda>p. glob p s = Some True) patterns"

definition MatchesPaths ::
  "(string \<Rightarrow> string \<Rightarrow> bool option) \<Rightarrow> string list \<Rightarrow> string list \<Rightarrow> string list \<Rightarrow> bool" where
  "MatchesPaths glob paths ignore files =
     (if files = [] then True
      else if paths \<noteq> [] \<and> \<not> list_ex (\<lambda>f. matchesAny glob paths f) files then False
      else \<not> list_ex (\<lambda>f. matchesAny glob ignore f) files)"

definition MatchesRef ::
  "(string \<Rightarrow> string \<Rightarrow> bool option) \<Rightarrow> string list \<Rightarrow> string list \<Rightarrow> string \<Rightarrow> bool \<Rightarrow> bool" where
  "MatchesRef glob tags branches ref isTag =
     (if tags = [] \<and> branches = [] then True
      else if isTag then matchesAny glob tags ref
      else matchesAny glob branches ref)"

definition MatchesPush ::
  "(string \<Rightarrow> string \<Rightarrow> bool option) \<Rightarrow> config \<Rightarrow> string \<Rightarrow> string \<Rightarrow> bool \<Rightarrow> string list \<Rightarrow> bool" where
  "MatchesPush glob cfg defaultBranch ref isTag changed =
     (case cf_On cfg of
        None \<Rightarrow> (\<not> isTag \<and> ref = defaultBranch) \<and> MatchesPaths glob (cf_Paths cfg) (cf_PathsIgnore cfg) changed
      | Some on \<Rightarrow>
          (case on_Push on of
             Some push \<Rightarrow>
               MatchesRef glob (rf_Tags push) (rf_Branches push) ref isTag
               \<and> MatchesPaths glob (cf_Paths cfg) (cf_PathsIgnore cfg) changed
           | None \<Rightarrow> False))"

definition MatchesPullRequest ::
  "(string \<Rightarrow> string \<Rightarrow> bool option) \<Rightarrow> config \<Rightarrow> string \<Rightarrow> string \<Rightarrow> string list \<Rightarrow> bool" where
  "MatchesPullRequest glob cfg defaultBranch base changed =
     (case cf_On cfg of
        None \<Rightarrow> base = defaultBranch \<and> MatchesPaths glob (cf_Paths cfg) (cf_PathsIgnore cfg) changed
      | Some on \<Rightarrow>
          (case on_PullRequest on of
             Some pr \<Rightarrow>
               (pr_Branches pr = [] \<or> matchesAny glob (pr_Branches pr) base)
               \<and> MatchesPaths glob (cf_Paths cfg) (cf_PathsIgnore cfg) changed
           | None \<Rightarrow> False))"

definition MatchesManual ::
  "(string \<Rightarrow> string \<Rightarrow> bool option) \<Rightarrow> config \<Rightarrow> string \<Rightarrow> bool \<Rightarrow> bool" where
  "MatchesManual glob cfg ref isTag =
     (case cf_On cfg of
        None \<Rightarrow> True
      | Some on \<Rightarrow>
          (case on_Manual on of
             None \<Rightarrow> True
           | Some manual \<Rightarrow> MatchesRef glob (rf_Tags manual) (rf_Branches manual) ref isTag))"

definition EffectiveSchedule :: "config \<Rightarrow> string" where
  "EffectiveSchedule cfg = (case cf_On cfg of None \<Rightarrow> [] | Some on \<Rightarrow> on_Schedule on)"

definition findStep :: "step list \<Rightarrow> string \<Rightarrow> step" where
  "findStep steps name = (case find (\<lambda>s. st_Name s = name) steps of Some s \<Rightarrow> s | None \<Rightarrow> Step0)"

definition workflowNeedsSandbox :: "config \<Rightarrow> bool" where
  "workflowNeedsSandbox cfg = list_ex st_Docker (cf_Steps cfg)"

section \<open>Lemmas\<close>

text \<open>Validation: \<open>checkSteps\<close> finds an error exactly when some step is not well formed.\<close>

definition wf_step :: "step \<Rightarrow> bool" where
  "wf_step s \<longleftrightarrow> st_Name s \<noteq> [] \<and> (st_Script s \<noteq> [] \<or> st_Run s \<noteq> []) \<and> 0 \<le> st_Retry s"

lemma checkSteps_None: "checkSteps i ss = None \<longleftrightarrow> (\<forall>s \<in> set ss. wf_step s)"
  by (induction i ss rule: checkSteps.induct) (auto simp: wf_step_def)

lemma Parse_Inr:
  assumes "Parse ur us data = Inr cfg"
  shows "us data = Inr cfg \<and> cf_Steps cfg \<noteq> [] \<and> (\<forall>s \<in> set (cf_Steps cfg). wf_step s)"
  using assms by (auto simp: Parse_def bindR_Inr_iff checkSteps_None split: option.splits if_splits)

lemma findStep_Name:
  "n \<in> set (map st_Name steps) \<Longrightarrow> st_Name (findStep steps n) = n \<and> findStep steps n \<in> set steps"
  by (induction steps) (auto simp: findStep_def)

lemma findStep_distinct:
  "distinct (map st_Name steps) \<Longrightarrow> s \<in> set steps \<Longrightarrow> findStep steps (st_Name s) = s"
  by (induction steps) (force simp: findStep_def)+

lemma matchesAny_Nil [simp]: "\<not> matchesAny glob [] s"
  by (simp add: matchesAny_def)

lemma matchesAny_append:
  "matchesAny glob (ps @ qs) s \<longleftrightarrow> matchesAny glob ps s \<or> matchesAny glob qs s"
  by (simp add: matchesAny_def)

lemma MatchesPaths_iff:
  "MatchesPaths glob paths ignore files \<longleftrightarrow>
     files = [] \<or>
     ((paths = [] \<or> (\<exists>f \<in> set files. matchesAny glob paths f))
      \<and> (\<forall>f \<in> set files. \<not> matchesAny glob ignore f))"
  by (auto simp: MatchesPaths_def list_ex_iff)

text \<open>
  A mapping is visited in an unspecified order. Two different keys of one mapping write
  different fields, so the events commute.
\<close>

lemma setEvent_commute:
  assumes "a \<noteq> b" "setEvent o1 a va False = Inr o2" "setEvent o2 b vb False = Inr o3"
  shows "\<exists>o2'. setEvent o1 b vb False = Inr o2' \<and> setEvent o2' a va False = Inr o3"
  using assms
  by (auto simp: setEvent_def bindR_Inr_iff split: if_splits yaml.splits)

lemma onMap_swap:
  assumes "fst a \<noteq> fst b" "onMap o1 (a # b # m) = Inr r"
  shows "onMap o1 (b # a # m) = Inr r"
proof -
  obtain ka va kb vb where ab: "a = (ka, va)" "b = (kb, vb)" by (cases a, cases b) auto
  from assms ab obtain o2 o3 where
    "setEvent o1 ka va False = Inr o2" "setEvent o2 kb vb False = Inr o3" "onMap o3 m = Inr r"
    by (auto simp: bindR_Inr_iff)
  with setEvent_commute [of ka kb o1 va o2 vb o3] assms(1) ab show ?thesis by auto
qed

end
