(* ===== verification/StepOrder.thy ===== *)
theory StepOrder
  imports Workflow "HOL-Library.AList"
begin

text \<open>
  The dependency order of a workflow's steps: \<^verbatim>\<open>orderSteps\<close> of
  \<^verbatim>\<open>internal/ci/step.go\<close>, Kahn's algorithm over the step names. The Go maps
  \<^verbatim>\<open>inDegree\<close> and \<^verbatim>\<open>adj\<close> are association lists read with Go's zero value for a
  missing key. The loop ends for every input: each iteration removes a name from the
  queue, and a name enters it only when its in-degree drops from one to zero.

  The lemmas show that a returned order is a topological order of exactly the declared
  steps, and that the function fails precisely on an unknown dependency or on a cycle.
\<close>

section \<open>The algorithm\<close>

type_synonym degrees = "(string \<times> int) list"
type_synonym adjacency = "(string \<times> string list) list"

definition deg :: "degrees \<Rightarrow> string \<Rightarrow> int" where
  "deg inDegree m = (case map_of inDegree m of None \<Rightarrow> 0 | Some k \<Rightarrow> k)"

definition adj_of :: "adjacency \<Rightarrow> string \<Rightarrow> string list" where
  "adj_of adj n = (case map_of adj n of None \<Rightarrow> [] | Some ms \<Rightarrow> ms)"

fun orderDeps :: "string set \<Rightarrow> string \<Rightarrow> string list \<Rightarrow> degrees \<times> adjacency \<Rightarrow> config_error + degrees \<times> adjacency" where
  "orderDeps names n [] (inDegree, adj) = Inr (inDegree, adj)"
| "orderDeps names n (d # ds) (inDegree, adj) =
     (if d \<notin> names then Inl (UnknownDependency n d)
      else orderDeps names n ds
             (AList.update n (deg inDegree n + 1) inDegree,
              AList.update d (adj_of adj d @ [n]) adj))"

fun orderGraph :: "string set \<Rightarrow> step list \<Rightarrow> degrees \<times> adjacency \<Rightarrow> config_error + degrees \<times> adjacency" where
  "orderGraph names [] g = Inr g"
| "orderGraph names (s # ss) (inDegree, adj) =
     bindR (orderDeps names (st_Name s) (st_DependsOn s) (AList.update (st_Name s) 0 inDegree, adj))
       (\<lambda>g. orderGraph names ss g)"

text \<open>The inner loop: decrement every successor, queue the ones that reach zero.\<close>

fun relax :: "string list \<Rightarrow> degrees \<times> string list \<Rightarrow> degrees \<times> string list" where
  "relax [] (inDegree, queue) = (inDegree, queue)"
| "relax (m # ms) (inDegree, queue) =
     (let k = deg inDegree m - 1
      in relax ms (AList.update m k inDegree, if k = 0 then queue @ [m] else queue))"

definition pending_degrees :: "degrees \<Rightarrow> nat" where
  "pending_degrees inDegree = card {m \<in> set (map fst inDegree). 0 < deg inDegree m}"

lemma deg_update: "deg (AList.update n k inDegree) m = (if m = n then k else deg inDegree m)"
  by (simp add: deg_def update_conv)

lemma deg_not_key: "m \<notin> set (map fst inDegree) \<Longrightarrow> deg inDegree m = 0"
  by (simp add: deg_def map_of_eq_None_iff [THEN iffD2])

lemma pending_degrees_eq: "pending_degrees inDegree = card {m. 0 < deg inDegree m}"
proof -
  have "{m \<in> set (map fst inDegree). 0 < deg inDegree m} = {m. 0 < deg inDegree m}"
    using deg_not_key by fastforce
  then show ?thesis by (simp add: pending_degrees_def)
qed

lemma finite_pending: "finite {m. 0 < deg inDegree m}"
proof (rule finite_subset)
  show "{m. 0 < deg inDegree m} \<subseteq> set (map fst inDegree)"
    using deg_not_key by fastforce
qed simp

lemma relax_measure:
  "relax ms (inDegree, queue) = (inDegree', queue') \<Longrightarrow>
     length queue' + pending_degrees inDegree' = length queue + pending_degrees inDegree"
proof (induction ms arbitrary: inDegree queue)
  case (Cons m ms)
  let ?k = "deg inDegree m - 1"
  let ?d = "AList.update m ?k inDegree"
  have step: "length (if ?k = 0 then queue @ [m] else queue) + pending_degrees ?d
      = length queue + pending_degrees inDegree"
  proof (cases "?k = 0")
    case True
    then have "{x. 0 < deg ?d x} = {x. 0 < deg inDegree x} - {m}" and "m \<in> {x. 0 < deg inDegree x}"
      by (auto simp: deg_update)
    then have "pending_degrees inDegree = Suc (pending_degrees ?d)"
      unfolding pending_degrees_eq using card_Suc_Diff1 [OF finite_pending [of inDegree], of m] by simp
    with True show ?thesis by simp
  next
    case False
    then have "{x. 0 < deg ?d x} = {x. 0 < deg inDegree x}"
      by (auto simp: deg_update)
    with False show ?thesis by (simp add: pending_degrees_eq)
  qed
  from Cons.prems have "relax ms (?d, if ?k = 0 then queue @ [m] else queue) = (inDegree', queue')"
    by (simp add: Let_def)
  from Cons.IH [OF this] step show ?case by simp
qed simp

function kahn :: "adjacency \<Rightarrow> degrees \<Rightarrow> string list \<Rightarrow> string list \<Rightarrow> string list" where
  "kahn adj inDegree [] order = order"
| "kahn adj inDegree (n # queue) order =
     (let (inDegree', queue') = relax (adj_of adj n) (inDegree, queue)
      in kahn adj inDegree' queue' (order @ [n]))"
  by pat_completeness auto
termination
proof (relation "measure (\<lambda>(adj, inDegree, queue, order). length queue + pending_degrees inDegree)", simp)
  fix adj :: adjacency and inDegree :: degrees and n and queue order :: "string list"
    and x inDegree' queue'
  assume "x = relax (adj_of adj n) (inDegree, queue)" and "(inDegree', queue') = x"
  then have "length queue' + pending_degrees inDegree' = length queue + pending_degrees inDegree"
    using relax_measure by metis
  then show "((adj, inDegree', queue', order @ [n]), adj, inDegree, n # queue, order)
      \<in> measure (\<lambda>(adj, inDegree, queue, order). length queue + pending_degrees inDegree)"
    by simp
qed

definition orderSteps :: "step list \<Rightarrow> config_error + string list" where
  "orderSteps steps =
     (let names = set (map st_Name steps)
      in bindR (orderGraph names steps ([], []))
           (\<lambda>(inDegree, adj).
              let queue = filter (\<lambda>n. deg inDegree n = 0) (map st_Name steps);
                  order = kahn adj inDegree queue []
              in if length order \<noteq> length steps then Inl DependencyCycle else Inr order))"

section \<open>The graph\<close>

text \<open>
  For distinct names, the built maps are the in-degrees and the reversed edges of the
  declared dependencies, with multiplicity.
\<close>

definition deps :: "step list \<Rightarrow> string \<Rightarrow> string list" where
  "deps steps n = (case find (\<lambda>s. st_Name s = n) steps of None \<Rightarrow> [] | Some s \<Rightarrow> st_DependsOn s)"

definition known_deps :: "step list \<Rightarrow> bool" where
  "known_deps steps \<longleftrightarrow>
     (\<forall>s \<in> set steps. \<forall>d \<in> set (st_DependsOn s). d \<in> set (map st_Name steps))"

definition dep_rel :: "step list \<Rightarrow> (string \<times> string) set" where
  "dep_rel steps = {(d, n). n \<in> set (map st_Name steps) \<and> d \<in> set (deps steps n)}"

lemma deps_in: "distinct (map st_Name steps) \<Longrightarrow> s \<in> set steps \<Longrightarrow> deps steps (st_Name s) = st_DependsOn s"
  by (induction steps) (force simp: deps_def)+

lemma deps_findStep: "n \<in> set (map st_Name steps) \<Longrightarrow> deps steps n = st_DependsOn (findStep steps n)"
  by (induction steps) (auto simp: deps_def findStep_def)

lemma deps_not_in: "n \<notin> set (map st_Name steps) \<Longrightarrow> deps steps n = []"
  by (induction steps) (auto simp: deps_def)

lemma known_deps_deps:
  "known_deps steps \<Longrightarrow> d \<in> set (deps steps n) \<Longrightarrow> d \<in> set (map st_Name steps)"
proof -
  assume known: "known_deps steps" and d: "d \<in> set (deps steps n)"
  from d obtain s where "find (\<lambda>s. st_Name s = n) steps = Some s" and ds: "d \<in> set (st_DependsOn s)"
    by (cases "find (\<lambda>s. st_Name s = n) steps") (simp_all add: deps_def)
  then have "s \<in> set steps" by (auto simp: find_Some_iff)
  with known ds show ?thesis by (auto simp: known_deps_def)
qed

lemma adj_of_update: "adj_of (AList.update n ms adj) m = (if m = n then ms else adj_of adj m)"
  by (simp add: adj_of_def update_conv)

lemma orderDeps_Inr:
  "orderDeps names n ds (i, a) = Inr (i', a') \<Longrightarrow>
     (\<forall>m. deg i' m = deg i m + (if m = n then int (length ds) else 0))
     \<and> (\<forall>d. adj_of a' d = adj_of a d @ replicate (count_list ds d) n)"
proof (induction ds arbitrary: i a)
  case (Cons d ds)
  from Cons.prems have "orderDeps names n ds
      (AList.update n (deg i n + 1) i, AList.update d (adj_of a d @ [n]) a) = Inr (i', a')"
    by (simp split: if_splits)
  from Cons.IH [OF this] show ?case
    by (auto simp: deg_update adj_of_update)
qed simp

lemma orderDeps_Inl_iff:
  "(\<exists>e. orderDeps names n ds g = Inl e) \<longleftrightarrow> (\<exists>d \<in> set ds. d \<notin> names)"
  by (induction names n ds g rule: orderDeps.induct) auto

lemma orderDeps_error:
  "orderDeps names n ds g = Inl e \<Longrightarrow> \<exists>d \<in> set ds. d \<notin> names \<and> e = UnknownDependency n d"
  by (induction names n ds g rule: orderDeps.induct) (auto split: if_splits)

lemma orderGraph_error:
  "orderGraph names ss g = Inl e \<Longrightarrow>
     \<exists>s \<in> set ss. \<exists>d \<in> set (st_DependsOn s). d \<notin> names \<and> e = UnknownDependency (st_Name s) d"
  by (induction names ss g rule: orderGraph.induct)
     (auto simp: bindR_Inl_iff dest!: orderDeps_error)

lemma orderGraph_known:
  "\<forall>s \<in> set ss. \<forall>d \<in> set (st_DependsOn s). d \<in> names \<Longrightarrow> \<exists>g'. orderGraph names ss g = Inr g'"
proof -
  assume "\<forall>s \<in> set ss. \<forall>d \<in> set (st_DependsOn s). d \<in> names"
  then have "orderGraph names ss g \<noteq> Inl e" for e
    using orderGraph_error by blast
  then show ?thesis by (cases "orderGraph names ss g") auto
qed

lemma orderGraph_unknown:
  "orderGraph names ss g = Inr g' \<Longrightarrow> \<forall>s \<in> set ss. \<forall>d \<in> set (st_DependsOn s). d \<in> names"
proof (induction names ss g rule: orderGraph.induct)
  case (2 names s ss i a)
  then obtain g1 where g1: "orderDeps names (st_Name s) (st_DependsOn s) (AList.update (st_Name s) 0 i, a) = Inr g1"
    and rest: "orderGraph names ss g1 = Inr g'"
    by (auto simp: bindR_Inr_iff)
  with orderDeps_Inl_iff [of names "st_Name s" "st_DependsOn s"] have "\<forall>d \<in> set (st_DependsOn s). d \<in> names"
    by (metis Inl_Inr_False)
  with "2.IH" [OF rest] show ?case by auto
qed simp

lemma deps_Cons:
  "st_Name s \<noteq> n \<Longrightarrow> deps (s # ss) n = deps ss n"
  "deps (s # ss) (st_Name s) = st_DependsOn s"
  by (simp_all add: deps_def)

definition graph_edges :: "step list \<Rightarrow> string \<Rightarrow> string list" where
  "graph_edges ss d = concat (map (\<lambda>s. replicate (count_list (st_DependsOn s) d) (st_Name s)) ss)"

lemma orderGraph_Inr:
  "orderGraph names ss (i, a) = Inr (i', a') \<Longrightarrow> distinct (map st_Name ss) \<Longrightarrow>
     (\<forall>n. deg i' n = (if n \<in> set (map st_Name ss) then int (length (deps ss n)) else deg i n))
     \<and> (\<forall>d. adj_of a' d = adj_of a d @ graph_edges ss d)"
proof (induction ss arbitrary: i a)
  case Nil
  then show ?case by (simp add: graph_edges_def)
next
  case (Cons s ss)
  then obtain i1 a1 where
    1: "orderDeps names (st_Name s) (st_DependsOn s) (AList.update (st_Name s) 0 i, a) = Inr (i1, a1)"
    and 2: "orderGraph names ss (i1, a1) = Inr (i', a')"
    by (auto simp: bindR_Inr_iff)
  from orderDeps_Inr [OF 1] have
    d1: "\<And>m. deg i1 m = deg (AList.update (st_Name s) 0 i) m + (if m = st_Name s then int (length (st_DependsOn s)) else 0)"
    and a1: "\<And>d. adj_of a1 d = adj_of a d @ replicate (count_list (st_DependsOn s) d) (st_Name s)"
    by auto
  from Cons.prems have dist: "distinct (map st_Name ss)" and notin: "st_Name s \<notin> set (map st_Name ss)"
    by auto
  from Cons.IH [OF 2 dist] have
    d2: "\<And>n. deg i' n = (if n \<in> set (map st_Name ss) then int (length (deps ss n)) else deg i1 n)"
    and a2: "\<And>d. adj_of a' d = adj_of a1 d @ graph_edges ss d" by auto
  show ?case
  proof (intro conjI allI)
    fix n
    show "deg i' n = (if n \<in> set (map st_Name (s # ss)) then int (length (deps (s # ss) n)) else deg i n)"
      using d1 d2 notin by (cases "n = st_Name s") (auto simp: deps_Cons deg_update)
    show "adj_of a' n = adj_of a n @ graph_edges (s # ss) n"
      by (simp add: a1 a2 graph_edges_def)
  qed
qed

lemma count_graph_edges:
  "distinct (map st_Name ss) \<Longrightarrow>
     count_list (graph_edges ss d) n = count_list (deps ss n) d"
proof (induction ss)
  case Nil
  then show ?case by (simp add: graph_edges_def deps_def)
next
  case (Cons s ss)
  have rep: "count_list (replicate k x) y = (if x = y then k else 0)" for k and x y :: string
    by (induction k) auto
  from Cons show ?case
    by (cases "n = st_Name s") (auto simp: graph_edges_def deps_Cons rep deps_not_in)
qed

section \<open>The loop\<close>

lemma relax_spec:
  "relax ms (i, q) = (i', q') \<Longrightarrow>
     (\<forall>m. deg i' m = deg i m - int (count_list ms m))
     \<and> (\<exists>new. q' = q @ new \<and> distinct new
          \<and> set new = {m. 0 < deg i m \<and> deg i m \<le> int (count_list ms m)})"
proof (induction ms arbitrary: i q)
  case Nil
  then show ?case by (auto intro!: exI [of _ "[]"])
next
  case (Cons m ms)
  let ?k = "deg i m - 1" and ?i = "AList.update m (deg i m - 1) i"
  let ?q = "if deg i m - 1 = 0 then q @ [m] else q"
  from Cons.prems have "relax ms (?i, ?q) = (i', q')" by (simp add: Let_def)
  from Cons.IH [OF this] obtain new where
    d: "\<forall>x. deg i' x = deg ?i x - int (count_list ms x)"
    and q': "q' = ?q @ new" and dist: "distinct new"
    and new: "set new = {x. 0 < deg ?i x \<and> deg ?i x \<le> int (count_list ms x)}"
    by blast
  have degs: "\<forall>x. deg i' x = deg i x - int (count_list (m # ms) x)"
    using d by (simp add: deg_update)
  have rest: "0 < deg ?i x \<and> deg ?i x \<le> int (count_list ms x) \<longleftrightarrow>
      x \<noteq> m \<and> 0 < deg i x \<and> deg i x \<le> int (count_list (m # ms) x)
      \<or> x = m \<and> ?k \<noteq> 0 \<and> 0 < deg i m \<and> deg i m \<le> int (count_list (m # ms) m)" for x
    by (cases "x = m") (auto simp: deg_update)
  have first: "?k = 0 \<Longrightarrow> 0 < deg i m \<and> deg i m \<le> int (count_list (m # ms) m)" by simp
  show ?case
  proof (cases "?k = 0")
    case True
    have "m \<notin> set new" using new True by (simp add: deg_update)
    moreover have "set (m # new) = {x. 0 < deg i x \<and> deg i x \<le> int (count_list (m # ms) x)}"
      unfolding list.set(2) new using rest True first by blast
    ultimately have "q' = q @ m # new \<and> distinct (m # new)
        \<and> set (m # new) = {x. 0 < deg i x \<and> deg i x \<le> int (count_list (m # ms) x)}"
      using q' dist True by simp
    with degs show ?thesis by blast
  next
    case False
    have "set new = {x. 0 < deg i x \<and> deg i x \<le> int (count_list (m # ms) x)}"
      unfolding new using rest False by blast
    with q' dist False have "q' = q @ new \<and> distinct new
        \<and> set new = {x. 0 < deg i x \<and> deg i x \<le> int (count_list (m # ms) x)}"
      by simp
    with degs show ?thesis by blast
  qed
qed

definition topo_sorted :: "step list \<Rightarrow> string list \<Rightarrow> bool" where
  "topo_sorted steps order \<longleftrightarrow>
     (\<forall>i < length order. \<forall>d \<in> set (deps steps (order ! i)). d \<in> set (take i order))"

definition remaining :: "step list \<Rightarrow> string list \<Rightarrow> string \<Rightarrow> string list" where
  "remaining steps order n = filter (\<lambda>d. d \<notin> set order) (deps steps n)"

definition kahn_inv :: "step list \<Rightarrow> degrees \<Rightarrow> string list \<Rightarrow> string list \<Rightarrow> bool" where
  "kahn_inv steps inDegree queue order \<longleftrightarrow>
     distinct (order @ queue)
     \<and> (\<forall>n. deg inDegree n = int (length (remaining steps order n)))
     \<and> set (order @ queue) = {n \<in> set (map st_Name steps). remaining steps order n = []}
     \<and> topo_sorted steps order"

lemma topo_sorted_snoc:
  "topo_sorted steps order \<Longrightarrow> remaining steps order n = [] \<Longrightarrow> topo_sorted steps (order @ [n])"
  by (auto simp: topo_sorted_def remaining_def nth_append filter_empty_conv less_Suc_eq)

lemma length_remaining_snoc:
  "n \<notin> set order \<Longrightarrow>
     length (remaining steps order m) = length (remaining steps (order @ [n]) m) + count_list (deps steps m) n"
proof -
  assume n: "n \<notin> set order"
  have "length (filter (\<lambda>d. d \<notin> set order) ds)
      = length (filter (\<lambda>d. d \<notin> set (order @ [n])) ds) + count_list ds n" for ds
    using n by (induction ds) auto
  then show ?thesis by (simp add: remaining_def)
qed

lemma kahn_inv_step:
  assumes inv: "kahn_inv steps i (n # q) order"
    and dist: "distinct (map st_Name steps)"
    and adj: "\<And>d. adj_of adj d = graph_edges steps d"
    and rel: "relax (adj_of adj n) (i, q) = (i', q')"
  shows "kahn_inv steps i' q' (order @ [n])"
proof -
  from inv have d0: "distinct (order @ n # q)"
    and deg0: "\<And>m. deg i m = int (length (remaining steps order m))"
    and set0: "set (order @ n # q) = {m \<in> set (map st_Name steps). remaining steps order m = []}"
    and topo: "topo_sorted steps order"
    by (auto simp: kahn_inv_def)
  have cnt: "count_list (adj_of adj n) m = count_list (deps steps m) n" for m
    using adj count_graph_edges [OF dist] by simp
  from relax_spec [OF rel] obtain new where
    deg1: "\<And>m. deg i' m = deg i m - int (count_list (deps steps m) n)"
    and q': "q' = q @ new" and dnew: "distinct new"
    and new: "set new = {m. 0 < deg i m \<and> deg i m \<le> int (count_list (deps steps m) n)}"
    by (auto simp: cnt)
  have n: "n \<notin> set order" using d0 by simp
  have rem: "length (remaining steps order m) = length (remaining steps (order @ [n]) m) + count_list (deps steps m) n" for m
    by (rule length_remaining_snoc [OF n])
  have deg': "deg i' m = int (length (remaining steps (order @ [n]) m))" for m
    using deg1 deg0 rem [of m] by simp
  have new': "set new = {m. remaining steps order m \<noteq> [] \<and> remaining steps (order @ [n]) m = []}"
  proof -
    have "0 < deg i m \<and> deg i m \<le> int (count_list (deps steps m) n) \<longleftrightarrow>
        remaining steps order m \<noteq> [] \<and> remaining steps (order @ [n]) m = []" for m
      using rem [of m] deg0 [of m] by (auto simp flip: length_greater_0_conv length_0_conv)
    then show ?thesis using new by auto
  qed
  have names: "m \<in> set (map st_Name steps)" if "remaining steps order m \<noteq> []" for m
    using that deps_not_in [of m steps] by (cases "m \<in> set (map st_Name steps)") (simp_all add: remaining_def)
  have mono: "remaining steps (order @ [n]) m = []" if "remaining steps order m = []" for m
    using that rem [of m] by simp
  have dist': "distinct ((order @ [n]) @ q')"
    using d0 dnew new' set0 q' by auto
  have "set ((order @ [n]) @ q') = {m \<in> set (map st_Name steps). remaining steps (order @ [n]) m = []}"
  proof -
    have "set ((order @ [n]) @ q') = set (order @ n # q) \<union> set new"
      by (auto simp: q')
    also have "\<dots> = {m \<in> set (map st_Name steps). remaining steps (order @ [n]) m = []}"
      using set0 new' names mono by blast
    finally show ?thesis .
  qed
  moreover have "remaining steps order n = []" using set0 by auto
  ultimately show ?thesis
    using dist' deg' topo by (simp add: kahn_inv_def topo_sorted_snoc)
qed

lemma kahn_result:
  assumes "kahn_inv steps i q order" "distinct (map st_Name steps)"
    and "\<And>d. adj_of adj d = graph_edges steps d"
  shows "\<exists>i'. kahn_inv steps i' [] (kahn adj i q order)"
  using assms
proof (induction adj i q order rule: kahn.induct)
  case (1 adj i order)
  then show ?case by auto
next
  case (2 adj i n q order)
  obtain i' q' where rel: "relax (adj_of adj n) (i, q) = (i', q')" by fastforce
  from kahn_inv_step [OF "2.prems"(1,2,3) rel] have "kahn_inv steps i' q' (order @ [n])" .
  from "2.IH" [OF rel [symmetric] refl this "2.prems"(2,3)] rel show ?case by simp
qed

lemma kahn_inv_init:
  assumes "\<And>n. deg i n = int (length (deps steps n))" "distinct (map st_Name steps)"
  shows "kahn_inv steps i (filter (\<lambda>n. deg i n = 0) (map st_Name steps)) []"
  using assms by (auto simp: kahn_inv_def remaining_def topo_sorted_def)

section \<open>Correctness of \<^verbatim>\<open>orderSteps\<close>\<close>

text \<open>When the graph is built, the order before the length test satisfies the invariant.\<close>

lemma orderSteps_graph:
  assumes dist: "distinct (map st_Name steps)" and known: "known_deps steps"
  obtains order i where
    "orderSteps steps = (if length order \<noteq> length steps then Inl DependencyCycle else Inr order)"
    "kahn_inv steps i [] order"
proof -
  let ?names = "set (map st_Name steps)"
  obtain i adj where g: "orderGraph ?names steps ([], []) = Inr (i, adj)"
    using orderGraph_known [of steps ?names "([], [])"] known by (auto simp: known_deps_def)
  from orderGraph_Inr [OF g dist] have
    degs: "\<And>n. deg i n = int (length (deps steps n))"
    and adjs: "\<And>d. adj_of adj d = graph_edges steps d"
    by (auto simp: adj_of_def deg_def deps_not_in)
  let ?order = "kahn adj i (filter (\<lambda>n. deg i n = 0) (map st_Name steps)) []"
  have "\<exists>i'. kahn_inv steps i' [] ?order"
    by (rule kahn_result [OF kahn_inv_init [OF degs dist] dist adjs])
  then obtain i' where "kahn_inv steps i' [] ?order" by blast
  moreover have "orderSteps steps = (if length ?order \<noteq> length steps then Inl DependencyCycle else Inr ?order)"
    using g by (simp add: orderSteps_def Let_def)
  ultimately show thesis by (rule that [rotated])
qed

lemma kahn_inv_complete:
  assumes "kahn_inv steps i [] order" "distinct (map st_Name steps)"
  shows "length order = length steps \<longleftrightarrow> set order = set (map st_Name steps)"
proof -
  from assms have sub: "set order \<subseteq> set (map st_Name steps)" and d: "distinct order"
    by (auto simp: kahn_inv_def)
  have "length order = card (set order)" "length steps = card (set (map st_Name steps))"
    using d assms(2) distinct_card by fastforce+
  with sub show ?thesis by (metis List.finite_set card_subset_eq)
qed

lemma orderSteps_topological:
  assumes ok: "orderSteps steps = Inr order" and dist: "distinct (map st_Name steps)"
  shows "distinct order" "set order = set (map st_Name steps)" "topo_sorted steps order"
    "length order = length steps"
proof -
  have known: "known_deps steps"
    using ok orderGraph_unknown [of "set (map st_Name steps)" steps "([], [])"]
    unfolding known_deps_def orderSteps_def Let_def bindR_Inr_iff by fastforce
  obtain o1 i where o1: "orderSteps steps = (if length o1 \<noteq> length steps then Inl DependencyCycle else Inr o1)"
    and inv: "kahn_inv steps i [] o1"
    using orderSteps_graph [OF dist known] .
  from o1 ok have eq: "o1 = order" "length order = length steps" by (auto split: if_splits)
  show "distinct order" "topo_sorted steps order" using inv eq by (auto simp: kahn_inv_def)
  show "set order = set (map st_Name steps)"
    using kahn_inv_complete [OF inv dist] eq by simp
  show "length order = length steps" by (rule eq(2))
qed

lemma topo_sorted_dep_before:
  assumes topo: "topo_sorted steps order" and "distinct order"
    and "i < length order" "j < length order" "order ! j \<in> set (deps steps (order ! i))"
  shows "j < i"
proof -
  from topo assms(3,5) have "order ! j \<in> set (take i order)" by (auto simp: topo_sorted_def)
  then obtain k where "k < i" "k < length order" "order ! k = order ! j"
    by (auto simp: in_set_conv_nth)
  with assms(2,4) show ?thesis by (metis nth_eq_iff_index_eq)
qed

lemma topo_sorted_acyclic:
  assumes topo: "topo_sorted steps order" and d: "distinct order"
    and names: "set order = set (map st_Name steps)" and known: "known_deps steps"
  shows "acyclic (dep_rel steps)"
proof -
  define idx where "idx n = (THE i. i < length order \<and> order ! i = n)" for n
  have idx: "idx (order ! i) = i" if "i < length order" for i
    unfolding idx_def using that d by (intro the_equality) (auto simp: nth_eq_iff_index_eq)
  have "dep_rel steps \<subseteq> measure idx"
  proof
    fix x assume "x \<in> dep_rel steps"
    then obtain a n where x: "x = (a, n)" and n: "n \<in> set order" and a: "a \<in> set (deps steps n)"
      using names by (auto simp: dep_rel_def)
    with known_deps_deps [OF known a] names have "a \<in> set order" by simp
    then obtain i j where ij: "i < length order" "order ! i = n" "j < length order" "order ! j = a"
      using n by (auto simp: in_set_conv_nth)
    with topo_sorted_dep_before [OF topo d, of i j] a have "j < i" by simp
    with ij idx x show "x \<in> measure idx" by auto
  qed
  then show ?thesis using wf_measure wf_subset wf_acyclic by blast
qed

lemma acyclic_order_complete:
  assumes inv: "kahn_inv steps i [] order" and acyc: "acyclic (dep_rel steps)" and known: "known_deps steps"
  shows "set order = set (map st_Name steps)"
proof (rule ccontr)
  let ?names = "set (map st_Name steps)"
  from inv have o: "set order = {n \<in> ?names. remaining steps order n = []}" by (simp add: kahn_inv_def)
  assume "set order \<noteq> ?names"
  then have ne: "?names - set order \<noteq> {}" using o by auto
  have "finite (dep_rel steps)"
    by (rule finite_subset [of _ "?names \<times> ?names"])
       (use known_deps_deps [OF known] in \<open>auto simp: dep_rel_def\<close>)
  then have wf: "wf (dep_rel steps)" using acyc finite_acyclic_wf by blast
  obtain z where z: "z \<in> ?names - set order"
    and min: "\<And>y. (y, z) \<in> dep_rel steps \<Longrightarrow> y \<notin> ?names - set order"
    using wfE_min [OF wf] ne by (metis all_not_in_conv)
  from z o have "remaining steps order z \<noteq> []" by auto
  then obtain d where "d \<in> set (deps steps z)" "d \<notin> set order"
    by (auto simp: remaining_def filter_empty_conv)
  with z min [of d] known_deps_deps [OF known] show False by (auto simp: dep_rel_def)
qed

section \<open>Properties\<close>

text \<open>
  C9. A returned order lists every declared step exactly once, and every step comes after
  all the steps it depends on.
\<close>

theorem orderSteps_correct:
  assumes "distinct (map st_Name steps)" and "orderSteps steps = Inr order"
  shows "distinct order \<and> set order = set (map st_Name steps)
    \<and> (\<forall>i < length order. \<forall>d \<in> set (deps steps (order ! i)). \<exists>j < i. order ! j = d)"
proof -
  note topo = orderSteps_topological [OF assms(2,1)]
  have "\<exists>j < i. order ! j = d" if "i < length order" "d \<in> set (deps steps (order ! i))" for i d
  proof -
    from topo(3) that have "d \<in> set (take i order)" by (auto simp: topo_sorted_def)
    with that(1) show ?thesis by (auto simp: in_set_conv_nth)
  qed
  with topo(1,2) show ?thesis by blast
qed

definition sample_step :: "string \<Rightarrow> string list \<Rightarrow> step" where
  "sample_step n ds = Step0\<lparr>st_Name := n, st_Run := ''true'', st_DependsOn := ds\<rparr>"

definition sample_diamond :: "step list" where
  "sample_diamond =
     [sample_step ''d'' [''b'', ''c''], sample_step ''b'' [''a''], sample_step ''c'' [''a''],
      sample_step ''a'' []]"

lemma sample_diamond_order: "orderSteps sample_diamond = Inr [''a'', ''b'', ''c'', ''d'']"
  by code_simp

lemma sample_diamond_distinct: "distinct (map st_Name sample_diamond)"
  by code_simp

theorem orderSteps_correct_witness:
  "orderSteps sample_diamond = Inr [''a'', ''b'', ''c'', ''d'']
   \<and> set [''a'', ''b'', ''c'', ''d''] = set (map st_Name sample_diamond)"
  using orderSteps_correct [OF sample_diamond_distinct sample_diamond_order] sample_diamond_order
  by blast

text \<open>
  C10. \<^verbatim>\<open>orderSteps\<close> succeeds exactly on acyclic graphs whose dependencies all exist: it
  reports an unknown dependency only when a step names one, and a cycle only when the
  dependency relation has one.
\<close>

theorem orderSteps_complete:
  assumes "distinct (map st_Name steps)"
  shows "case orderSteps steps of
      Inr order \<Rightarrow> known_deps steps \<and> acyclic (dep_rel steps)
    | Inl e \<Rightarrow>
        (e = DependencyCycle \<and> known_deps steps \<and> \<not> acyclic (dep_rel steps))
        \<or> (\<exists>s \<in> set steps. \<exists>d \<in> set (st_DependsOn s).
              d \<notin> set (map st_Name steps) \<and> e = UnknownDependency (st_Name s) d)"
proof (cases "known_deps steps")
  case True
  obtain order i where o: "orderSteps steps = (if length order \<noteq> length steps then Inl DependencyCycle else Inr order)"
    and inv: "kahn_inv steps i [] order"
    using orderSteps_graph [OF assms True] .
  note complete = kahn_inv_complete [OF inv assms]
  show ?thesis
  proof (cases "length order = length steps")
    case l: True
    have "acyclic (dep_rel steps)"
      using topo_sorted_acyclic [of steps order] inv complete l True by (simp add: kahn_inv_def)
    with l True o show ?thesis by simp
  next
    case False
    with complete acyclic_order_complete [OF inv _ True] have "\<not> acyclic (dep_rel steps)" by blast
    with False True o show ?thesis by simp
  qed
next
  case False
  then have "\<nexists>g. orderGraph (set (map st_Name steps)) steps ([], []) = Inr g"
    using orderGraph_unknown [of "set (map st_Name steps)" steps "([], [])"] by (auto simp: known_deps_def)
  then obtain e where e: "orderGraph (set (map st_Name steps)) steps ([], []) = Inl e"
    by (cases "orderGraph (set (map st_Name steps)) steps ([], [])") auto
  then have "orderSteps steps = Inl e" by (simp add: orderSteps_def Let_def)
  with orderGraph_error [OF e] show ?thesis by auto
qed

definition sample_cycle :: "step list" where
  "sample_cycle = [sample_step ''a'' [''b''], sample_step ''b'' [''a'']]"

lemma sample_cycle_order: "orderSteps sample_cycle = Inl DependencyCycle"
  by code_simp

theorem orderSteps_complete_witness:
  "known_deps sample_diamond \<and> acyclic (dep_rel sample_diamond)
   \<and> orderSteps sample_cycle = Inl DependencyCycle \<and> \<not> acyclic (dep_rel sample_cycle)"
proof -
  have d: "distinct (map st_Name sample_cycle)" by code_simp
  show ?thesis
    using orderSteps_complete [OF sample_diamond_distinct] orderSteps_complete [OF d]
    by (simp add: sample_diamond_order sample_cycle_order)
qed

end
