(* ===== verification/Mask.thy ===== *)
theory Mask
  imports Prelude
begin

text \<open>
  The secret masking log writer of \<^verbatim>\<open>internal/mask/mask.go\<close>. The wrapped
  \<^verbatim>\<open>io.Writer\<close> is a state \<open>'w\<close> with a write operation that returns the new state and
  an error; \<open>file_write\<close> is a writer that never fails and keeps the written chunks.
  \<open>Write\<close> loops until no newline is left in the buffer, and each turn shortens it.

  The lemmas show that the output does not depend on how the process chunks its writes, and
  which secrets can no longer occur in it.
\<close>

section \<open>Redaction\<close>

definition replacement :: string where "replacement = ''***''"

fun Redact :: "string \<Rightarrow> string list \<Rightarrow> string" where
  "Redact s [] = s"
| "Redact s (sec # secrets) =
     (if sec = [] then Redact s secrets else Redact (ReplaceAll s sec replacement) secrets)"

section \<open>The writer\<close>

record 'w mask_writer =
  mw_w :: 'w
  mw_secrets :: "string list"
  mw_buf :: string

type_synonym 'w write_op = "'w \<Rightarrow> string \<Rightarrow> 'w \<times> string option"

definition NewWriter :: "'w \<Rightarrow> string list \<Rightarrow> 'w mask_writer" where
  "NewWriter w secrets = \<lparr>mw_w = w, mw_secrets = filter (\<lambda>s. s \<noteq> []) secrets, mw_buf = []\<rparr>"

definition redact :: "'w mask_writer \<Rightarrow> string \<Rightarrow> string" where
  "redact m line = Redact line (mw_secrets m)"

function writeLines :: "'w write_op \<Rightarrow> 'w mask_writer \<Rightarrow> 'w mask_writer \<times> string option" where
  "writeLines wr m =
     (case IndexByte (mw_buf m) (CHR 0x0A) of
        None \<Rightarrow> (m, None)
      | Some idx \<Rightarrow>
          (let line = take (idx + 1) (mw_buf m);
               m1 = m\<lparr>mw_buf := drop (idx + 1) (mw_buf m)\<rparr>;
               r = wr (mw_w m1) (redact m1 line)
           in case snd r of
                Some e \<Rightarrow> (m1\<lparr>mw_w := fst r\<rparr>, Some e)
              | None \<Rightarrow> writeLines wr (m1\<lparr>mw_w := fst r\<rparr>)))"
  by pat_completeness auto
termination
  by (relation "measure (\<lambda>(wr, m). length (mw_buf m))") (auto simp: IndexByte_Some)

declare writeLines.simps [simp del]

text \<open>\<^verbatim>\<open>Write\<close> reports the length of its argument in both branches.\<close>

definition Write :: "'w write_op \<Rightarrow> 'w mask_writer \<Rightarrow> string \<Rightarrow> 'w mask_writer \<times> nat \<times> string option" where
  "Write wr m p =
     (let r = writeLines wr (m\<lparr>mw_buf := mw_buf m @ p\<rparr>) in (fst r, length p, snd r))"

definition Flush :: "'w write_op \<Rightarrow> 'w mask_writer \<Rightarrow> 'w mask_writer \<times> string option" where
  "Flush wr m =
     (if mw_buf m = [] then (m, None)
      else (let r = wr (mw_w m) (redact m (mw_buf m))
            in (m\<lparr>mw_w := fst r, mw_buf := []\<rparr>, snd r)))"

text \<open>A writer that keeps the bytes, and a process that writes chunks and closes its log.\<close>

definition file_write :: "string write_op" where
  "file_write out p = (out @ p, None)"

definition write_chunks :: "string mask_writer \<Rightarrow> string list \<Rightarrow> string mask_writer" where
  "write_chunks m chunks = foldl (\<lambda>m p. fst (Write file_write m p)) m chunks"

definition masked_log :: "string list \<Rightarrow> string list \<Rightarrow> string" where
  "masked_log secrets chunks =
     mw_w (fst (Flush file_write (write_chunks (NewWriter [] secrets) chunks)))"

section \<open>Line by line masking as the specification\<close>

fun split_lines :: "string \<Rightarrow> string list" where
  "split_lines [] = []"
| "split_lines (c # s) =
     (if c = CHR 0x0A then [c] # split_lines s
      else (case split_lines s of [] \<Rightarrow> [[c]] | l # ls \<Rightarrow> (c # l) # ls))"

definition mask_lines :: "string list \<Rightarrow> string \<Rightarrow> string" where
  "mask_lines secrets s = concat (map (\<lambda>l. Redact l secrets) (split_lines s))"

lemma concat_split_lines [simp]: "concat (split_lines s) = s"
  by (induction s) (auto split: list.splits)

lemma split_lines_line:
  "CHR 0x0A \<notin> set l \<Longrightarrow> split_lines (l @ CHR 0x0A # s) = (l @ [CHR 0x0A]) # split_lines s"
  by (induction l) auto

lemma split_lines_last: "CHR 0x0A \<notin> set l \<Longrightarrow> l \<noteq> [] \<Longrightarrow> split_lines l = [l]"
proof (induction l)
  case (Cons c l)
  then show ?case by (cases "l = []") auto
qed simp

lemma mask_lines_line:
  "CHR 0x0A \<notin> set l \<Longrightarrow>
     mask_lines secrets (l @ CHR 0x0A # s) = Redact (l @ [CHR 0x0A]) secrets @ mask_lines secrets s"
  by (simp add: mask_lines_def split_lines_line)

lemma Redact_nonempty: "Redact s (filter (\<lambda>s. s \<noteq> []) secrets) = Redact s secrets"
  by (induction s secrets rule: Redact.induct) auto

lemma mask_lines_nonempty: "mask_lines (filter (\<lambda>s. s \<noteq> []) secrets) s = mask_lines secrets s"
  by (simp add: mask_lines_def Redact_nonempty)

text \<open>
  What has been written, together with what the buffer still masks to, is the masking of
  everything received: the invariant of \<open>Write\<close>.
\<close>

lemma writeLines_file:
  "\<exists>m'. writeLines file_write m = (m', None)
     \<and> mw_secrets m' = mw_secrets m \<and> CHR 0x0A \<notin> set (mw_buf m')
     \<and> (\<forall>rest. mw_w m' @ mask_lines (mw_secrets m) (mw_buf m' @ rest)
              = mw_w m @ mask_lines (mw_secrets m) (mw_buf m @ rest))"
proof (induction "length (mw_buf m)" arbitrary: m rule: less_induct)
  case less
  show ?case
  proof (cases "IndexByte (mw_buf m) (CHR 0x0A)")
    case None
    then have "CHR 0x0A \<notin> set (mw_buf m)" by (simp add: IndexByte_None)
    then show ?thesis using None by (subst writeLines.simps) simp
  next
    case (Some idx)
    let ?line = "take (idx + 1) (mw_buf m)"
    let ?m1 = "m\<lparr>mw_buf := drop (idx + 1) (mw_buf m), mw_w := mw_w m @ redact m ?line\<rparr>"
    from Some have idx: "idx < length (mw_buf m)" "mw_buf m ! idx = CHR 0x0A"
      "CHR 0x0A \<notin> set (take idx (mw_buf m))"
      by (auto simp: IndexByte_Some)
    have line: "?line = take idx (mw_buf m) @ [CHR 0x0A]"
      using idx by (simp add: take_Suc_conv_app_nth)
    have "mw_buf m @ rest = take idx (mw_buf m) @ CHR 0x0A # (drop (idx + 1) (mw_buf m) @ rest)" for rest
      using id_take_nth_drop [OF idx(1)] idx(2)
      by (metis Suc_eq_plus1 append.assoc append_Cons)
    then have buf: "mask_lines (mw_secrets m) (mw_buf m @ rest)
        = Redact ?line (mw_secrets m) @ mask_lines (mw_secrets m) (drop (idx + 1) (mw_buf m) @ rest)" for rest
      by (simp only: mask_lines_line [OF idx(3)] line)
    have "writeLines file_write m = writeLines file_write ?m1"
      using Some by (subst writeLines.simps) (simp add: file_write_def Let_def redact_def)
    moreover have "length (mw_buf ?m1) < length (mw_buf m)" using idx by simp
    ultimately show ?thesis
      using less [of ?m1] buf by (auto simp: redact_def simp del: take_Suc_conv_app_nth)
  qed
qed

lemma Write_file:
  "\<exists>m'. Write file_write m p = (m', length p, None)
     \<and> mw_secrets m' = mw_secrets m \<and> CHR 0x0A \<notin> set (mw_buf m')
     \<and> (\<forall>rest. mw_w m' @ mask_lines (mw_secrets m) (mw_buf m' @ rest)
              = mw_w m @ mask_lines (mw_secrets m) (mw_buf m @ p @ rest))"
  using writeLines_file [of "m\<lparr>mw_buf := mw_buf m @ p\<rparr>"] by (auto simp: Write_def Let_def)

lemma write_chunks_spec:
  assumes "CHR 0x0A \<notin> set (mw_buf m)"
  shows "mw_secrets (write_chunks m chunks) = mw_secrets m
    \<and> CHR 0x0A \<notin> set (mw_buf (write_chunks m chunks))
    \<and> mw_w (write_chunks m chunks) @ mask_lines (mw_secrets m) (mw_buf (write_chunks m chunks))
      = mw_w m @ mask_lines (mw_secrets m) (mw_buf m @ concat chunks)"
  using assms
proof (induction chunks arbitrary: m)
  case Nil
  then show ?case by (simp add: write_chunks_def)
next
  case (Cons p chunks)
  from Write_file [of m p] obtain m' where m': "fst (Write file_write m p) = m'"
    "mw_secrets m' = mw_secrets m" "CHR 0x0A \<notin> set (mw_buf m')"
    "\<And>rest. mw_w m' @ mask_lines (mw_secrets m) (mw_buf m' @ rest)
        = mw_w m @ mask_lines (mw_secrets m) (mw_buf m @ p @ rest)" by auto
  have "write_chunks m (p # chunks) = write_chunks m' chunks"
    using m'(1) by (simp add: write_chunks_def)
  with Cons.IH [OF m'(3)] m'(2,4) show ?case by simp
qed

lemma masked_log_eq: "masked_log secrets chunks = mask_lines secrets (concat chunks)"
proof -
  let ?m = "write_chunks (NewWriter [] secrets) chunks"
  from write_chunks_spec [of "NewWriter [] secrets" chunks]
  have sec: "mw_secrets ?m = filter (\<lambda>s. s \<noteq> []) secrets" and nl: "CHR 0x0A \<notin> set (mw_buf ?m)"
    and out: "mw_w ?m @ mask_lines (mw_secrets ?m) (mw_buf ?m)
        = mask_lines (mw_secrets ?m) (concat chunks)"
    by (auto simp: NewWriter_def)
  have "masked_log secrets chunks = mw_w ?m @ mask_lines (mw_secrets ?m) (mw_buf ?m)"
  proof (cases "mw_buf ?m = []")
    case True
    then show ?thesis by (simp add: masked_log_def Flush_def mask_lines_def)
  next
    case False
    with nl have "mask_lines (mw_secrets ?m) (mw_buf ?m) = Redact (mw_buf ?m) (mw_secrets ?m)"
      by (simp add: mask_lines_def split_lines_last)
    with False show ?thesis
      by (simp add: masked_log_def Flush_def Let_def file_write_def redact_def)
  qed
  with out sec mask_lines_nonempty show ?thesis by metis
qed

section \<open>What redaction removes\<close>

lemma sublist_Cons_cases: "sublist t (c # s) \<longleftrightarrow> prefix t (c # s) \<or> sublist t s"
  by (simp add: sublist_Cons_right)

text \<open>
  A text without a mark that straddles a mark lies on one side of it.
\<close>

lemma sublist_separated:
  assumes "sublist t (a @ x # b)" and "x \<notin> set t"
  shows "sublist t a \<or> sublist t b"
  using assms(1)
proof (induction a)
  case Nil
  then show ?case using assms(2) by (cases t) (auto simp: sublist_Cons_right)
next
  case (Cons c a)
  then consider "prefix t (c # a @ x # b)" | "sublist t (a @ x # b)"
    by (auto simp: sublist_Cons_right)
  then show ?case
  proof cases
    case 1
    then obtain z where z: "t @ z = (c # a) @ x # b" by (auto simp: prefix_def)
    have "prefix t (c # a)"
    proof (cases "length t \<le> length (c # a)")
      case True
      with z have "t = take (length t) (c # a)"
        by (metis append_eq_append_conv_if)
      then show ?thesis by (metis take_is_prefix)
    next
      case False
      then have "t ! length (c # a) = x" and "length (c # a) < length t"
        using z by (metis linorder_not_le nth_append nth_append_length)+
      then have "x \<in> set t" by (metis nth_mem)
      with assms(2) show ?thesis by simp
    qed
    then show ?thesis by (auto simp: sublist_Cons_right)
  next
    case 2
    with Cons.IH show ?thesis by (auto simp: sublist_Cons_right)
  qed
qed

lemma sublist_star_append:
  assumes "sublist t (replacement @ s)" and "CHR ''*'' \<notin> set t" and "t \<noteq> []"
  shows "sublist t s"
  using sublist_separated [of t "''**''" "CHR ''*''" s] assms
  by (cases t) (auto simp: replacement_def sublist_Cons_right)

lemma ReplaceAll_no_new:
  assumes "CHR ''*'' \<notin> set t" "t \<noteq> []"
  shows "(prefix t (ReplaceAll s old replacement) \<longrightarrow> prefix t s)
       \<and> (sublist t (ReplaceAll s old replacement) \<longrightarrow> sublist t s)"
  using assms
proof (induction s arbitrary: t rule: length_induct)
  case (1 s)
  show ?case
  proof (cases s)
    case Nil
    then show ?thesis by simp
  next
    case (Cons c s')
    show ?thesis
    proof (cases "old \<noteq> [] \<and> prefix old s")
      case True
      then obtain r where r: "s = old @ r" by (auto simp: prefix_def)
      have np: "\<not> prefix t (replacement @ ReplaceAll r old replacement)"
        using "1.prems" by (cases t) (auto simp: replacement_def)
      have "sublist t (ReplaceAll r old replacement) \<longrightarrow> sublist t r"
        using "1.IH" [rule_format, of r t] "1.prems" r True by simp
      moreover have eq: "ReplaceAll s old replacement = replacement @ ReplaceAll r old replacement"
        using True r by (simp add: ReplaceAll_match)
      moreover have "sublist t r \<Longrightarrow> sublist t s"
        using r by (auto simp: sublist_append)
      ultimately show ?thesis
        using np sublist_star_append [OF _ "1.prems"] by metis
    next
      case False
      then have eq: "ReplaceAll s old replacement = c # ReplaceAll s' old replacement"
        using Cons by (subst ReplaceAll.simps) auto
      have pre: "prefix t s" if p: "prefix t (c # ReplaceAll s' old replacement)"
      proof (cases t)
        case (Cons x t')
        then have "x = c" "t' \<noteq> [] \<longrightarrow> prefix t' s'"
          using p "1.IH" "1.prems" \<open>s = c # s'\<close> by auto
        with Cons \<open>s = c # s'\<close> show ?thesis by (cases t') auto
      qed simp
      moreover have "sublist t (ReplaceAll s' old replacement) \<longrightarrow> sublist t s'"
        using "1.IH" "1.prems" Cons by simp
      ultimately show ?thesis
        using eq Cons by (auto simp: sublist_Cons_right)
    qed
  qed
qed

lemma ReplaceAll_removes:
  assumes "CHR ''*'' \<notin> set old" "old \<noteq> []"
  shows "\<not> sublist old (ReplaceAll s old replacement)"
proof (induction s rule: length_induct)
  case (1 s)
  show ?case
  proof (cases s)
    case Nil
    then show ?thesis using assms by simp
  next
    case (Cons c s')
    show ?thesis
    proof (cases "prefix old s")
      case True
      then obtain r where r: "s = old @ r" by (auto simp: prefix_def)
      then have "\<not> sublist old (ReplaceAll r old replacement)" using 1 assms by simp
      then show ?thesis
        using r ReplaceAll_match [of old r replacement] sublist_star_append assms by metis
    next
      case False
      then have eq: "ReplaceAll s old replacement = c # ReplaceAll s' old replacement"
        using Cons by (subst ReplaceAll.simps) auto
      then show ?thesis
        using False ReplaceAll_no_new [OF assms, of s old] 1 Cons
        by (auto simp: sublist_Cons_right)
    qed
  qed
qed

lemma Redact_no_new:
  "CHR ''*'' \<notin> set t \<Longrightarrow> t \<noteq> [] \<Longrightarrow> sublist t (Redact s secrets) \<Longrightarrow> sublist t s"
proof (induction s secrets rule: Redact.induct)
  case (2 s sec secrets)
  then show ?case using ReplaceAll_no_new [of t s sec] by (auto split: if_splits)
qed simp

lemma Redact_removes:
  "sec \<in> set secrets \<Longrightarrow> CHR ''*'' \<notin> set sec \<Longrightarrow> sec \<noteq> [] \<Longrightarrow> \<not> sublist sec (Redact s secrets)"
proof (induction s secrets rule: Redact.induct)
  case (2 s x secrets)
  show ?case
  proof (cases "sec = x")
    case True
    with 2 show ?thesis
      using Redact_no_new [of sec "ReplaceAll s sec replacement" secrets] ReplaceAll_removes [of sec s] by auto
  next
    case False
    with 2 show ?thesis by auto
  qed
qed simp

text \<open>A redacted line still ends in its newline or in a mark.\<close>

definition ends_apart :: "string \<Rightarrow> bool" where
  "ends_apart l \<longleftrightarrow> l \<noteq> [] \<and> (last l = CHR 0x0A \<or> last l = CHR ''*'')"

lemma ReplaceAll_Nil_iff: "ReplaceAll s old replacement = [] \<longleftrightarrow> s = []"
  by (cases s) (simp_all add: ReplaceAll.simps [of "_ # _"] replacement_def)

lemma ReplaceAll_ends_apart: "ends_apart s \<Longrightarrow> ends_apart (ReplaceAll s old replacement)"
proof (induction s rule: length_induct)
  case (1 s)
  then obtain c s' where s: "s = c # s'" by (cases s) (auto simp: ends_apart_def)
  show ?case
  proof (cases "old \<noteq> [] \<and> prefix old s")
    case True
    then obtain r where r: "s = old @ r" by (auto simp: prefix_def)
    show ?thesis
    proof (cases "r = []")
      case False
      then have "ends_apart r" using 1 r by (simp add: ends_apart_def)
      then have "ends_apart (ReplaceAll r old replacement)" using 1 r True by simp
      then show ?thesis using r True ReplaceAll_match [of old r] by (simp add: ends_apart_def)
    qed (use r True ReplaceAll_match [of old "[]"] in \<open>simp add: ends_apart_def replacement_def\<close>)
  next
    case False
    then have eq: "ReplaceAll s old replacement = c # ReplaceAll s' old replacement"
      using s by (subst ReplaceAll.simps) auto
    show ?thesis
    proof (cases "s' = []")
      case False
      then have "ends_apart s'" using 1 s by (simp add: ends_apart_def)
      then have "ends_apart (ReplaceAll s' old replacement)" using 1 s by simp
      then show ?thesis using eq by (simp add: ends_apart_def)
    qed (use eq s 1 in \<open>simp add: ends_apart_def\<close>)
  qed
qed

lemma Redact_ends_apart: "ends_apart s \<Longrightarrow> ends_apart (Redact s secrets)"
  by (induction s secrets rule: Redact.induct) (auto simp: ReplaceAll_ends_apart)

lemma mask_lines_removes:
  assumes sec: "sec \<in> set secrets" "sec \<noteq> []" "CHR 0x0A \<notin> set sec" "CHR ''*'' \<notin> set sec"
  shows "\<not> sublist sec (mask_lines secrets s)"
proof (induction s rule: length_induct)
  case (1 s)
  show ?case
  proof (cases "CutByte s (CHR 0x0A)")
    case None
    then have "CHR 0x0A \<notin> set s" by (simp add: CutByte_None)
    then show ?thesis
      using Redact_removes [OF sec(1,4,2)] sec(2) by (cases "s = []") (auto simp: mask_lines_def split_lines_last)
  next
    case (Some p)
    then obtain l r where s: "s = l @ CHR 0x0A # r" and l: "CHR 0x0A \<notin> set l"
      by (cases p) (auto simp: CutByte_Some)
    let ?L = "Redact (l @ [CHR 0x0A]) secrets"
    have "ends_apart ?L" by (rule Redact_ends_apart) (simp add: ends_apart_def)
    then obtain x where L: "?L = butlast ?L @ [x]" and x: "x = CHR 0x0A \<or> x = CHR ''*''"
      unfolding ends_apart_def by (metis append_butlast_last_id)
    then have "x \<notin> set sec" using sec by auto
    moreover have "\<not> sublist sec (butlast ?L)"
      using Redact_removes [OF sec(1,4,2), of "l @ [CHR 0x0A]"] L
      by (metis sublist_appendI sublist_order.order.trans append_Nil)
    moreover have "\<not> sublist sec (mask_lines secrets r)" using 1 s by simp
    moreover have "mask_lines secrets s = butlast ?L @ x # mask_lines secrets r"
      using L by (metis mask_lines_line [OF l] s append.assoc append_Cons append_Nil)
    ultimately show ?thesis using sublist_separated by metis
  qed
qed

text \<open>A secret with a newline before its last byte never occurs in one line.\<close>

lemma ReplaceAll_absent: "\<not> sublist old s \<Longrightarrow> ReplaceAll s old new = s"
proof (induction s)
  case (Cons c s)
  then show ?case by (auto simp: ReplaceAll_skip sublist_Cons_right)
qed simp

definition spans_lines :: "string \<Rightarrow> bool" where
  "spans_lines sec \<longleftrightarrow> CHR 0x0A \<in> set (butlast sec)"

lemma split_lines_butlast: "l \<in> set (split_lines s) \<Longrightarrow> CHR 0x0A \<notin> set (butlast l)"
  by (induction s arbitrary: l) (auto split: if_splits list.splits)

lemma sublist_butlast: "sublist t l \<Longrightarrow> set (butlast t) \<subseteq> set (butlast l)"
proof -
  assume "sublist t l"
  then obtain a b where l: "l = a @ t @ b" by (auto simp: sublist_def)
  show ?thesis unfolding l
    by (cases "b = []"; cases "t = []") (auto simp: butlast_append dest: in_set_butlastD)
qed

lemma Redact_spans_lines:
  "\<forall>sec \<in> set secrets. spans_lines sec \<Longrightarrow> CHR 0x0A \<notin> set (butlast l) \<Longrightarrow> Redact l secrets = l"
proof (induction l secrets rule: Redact.induct)
  case (2 s sec secrets)
  then have "\<not> sublist sec s" using sublist_butlast [of sec s] by (auto simp: spans_lines_def)
  with 2 show ?case by (auto simp: ReplaceAll_absent)
qed simp

section \<open>Properties\<close>

text \<open>
  C14. The log a step produces is its output masked line by line, whatever the sizes of the
  chunks in which the process writes it, and no write fails when the file does not.
\<close>

theorem masked_log_chunks:
  "masked_log secrets chunks = mask_lines secrets (concat chunks)
   \<and> (\<forall>m p. \<exists>m'. Write file_write m p = (m', length p, None))"
  using masked_log_eq Write_file by blast

text \<open>
  C6. A non-empty secret without newline and without \<open>*\<close> does not occur in the log, whatever
  the other secrets are and however the output was chunked.
\<close>

theorem masked_log_hides:
  assumes "sec \<in> set secrets" "sec \<noteq> []" "CHR 0x0A \<notin> set sec" "CHR ''*'' \<notin> set sec"
  shows "\<not> Contains (masked_log secrets chunks) sec"
  using mask_lines_removes [OF assms] by (simp add: masked_log_eq Contains_def)

theorem masked_log_hides_witness:
  "masked_log [''hunter2''] [''pw=hun'', ''ter2 ok''] = ''pw=*** ok''
   \<and> \<not> Contains (masked_log [''hunter2''] [''pw=hun'', ''ter2 ok'']) ''hunter2''"
proof -
  have "masked_log [''hunter2''] [''pw=hun'', ''ter2 ok''] = ''pw=*** ok''"
    by code_simp
  moreover have "\<not> Contains (masked_log [''hunter2''] [''pw=hun'', ''ter2 ok'']) ''hunter2''"
    by (rule masked_log_hides) simp_all
  ultimately show ?thesis by blast
qed

text \<open>
  Masking works line by line, so a secret with a newline inside (a private key, for
  example) is not masked at all: when every secret has one, the log is the raw output.
\<close>

theorem masked_log_multiline_leak:
  assumes "\<forall>sec \<in> set secrets. CHR 0x0A \<in> set (butlast sec)"
  shows "masked_log secrets chunks = concat chunks"
proof -
  have "map (\<lambda>l. Redact l secrets) (split_lines (concat chunks)) = split_lines (concat chunks)"
    using assms Redact_spans_lines split_lines_butlast
    by (intro map_idI) (auto simp: spans_lines_def)
  then show ?thesis by (simp add: masked_log_eq mask_lines_def)
qed

theorem masked_log_multiline_leak_witness:
  "masked_log [''key'' @ [CHR 0x0A] @ ''body''] [''key'' @ [CHR 0x0A], ''body''] = ''key'' @ [CHR 0x0A] @ ''body''"
  using masked_log_multiline_leak [of "[''key'' @ [CHR 0x0A] @ ''body'']" "[''key'' @ [CHR 0x0A], ''body'']"] by simp

end
