(* ===== verification/Paths.thy ===== *)
theory Paths
  imports Prelude
begin

text \<open>
  Slash separated paths: the functions of Go's \<^verbatim>\<open>path/filepath\<close> (on Unix) that the
  workspace, the archive extraction and the runner build on. A path is a string; its cleaned
  form is the rendering of its components after dropping empty and \<open>.\<close> components and resolving
  \<open>..\<close> lexically.
\<close>

section \<open>Functions\<close>

definition path_parts :: "string \<Rightarrow> string list" where
  "path_parts s = filter (\<lambda>w. w \<noteq> [] \<and> w \<noteq> ''.'') (SplitByte s (CHR ''/''))"

fun JoinByte :: "string list \<Rightarrow> char \<Rightarrow> string" where
  "JoinByte [] c = []"
| "JoinByte [w] c = w"
| "JoinByte (w # ws) c = w @ c # JoinByte ws c"

text \<open>One component against the reversed stack of those already kept.\<close>

definition clean_step :: "bool \<Rightarrow> string list \<Rightarrow> string \<Rightarrow> string list" where
  "clean_step rooted acc w =
     (if w = ''..'' then
        (case acc of
           [] \<Rightarrow> if rooted then [] else [''..'']
         | a # as \<Rightarrow> if a = ''..'' then ''..'' # acc else as)
      else w # acc)"

definition clean_stack :: "bool \<Rightarrow> string list \<Rightarrow> string list \<Rightarrow> string list" where
  "clean_stack rooted ps ws = rev (foldl (clean_step rooted) (rev ps) ws)"

definition render_path :: "bool \<Rightarrow> string list \<Rightarrow> string" where
  "render_path rooted ps =
     (if rooted then CHR ''/'' # JoinByte ps (CHR ''/'')
      else if ps = [] then ''.'' else JoinByte ps (CHR ''/''))"

definition IsAbs :: "string \<Rightarrow> bool" where
  "IsAbs s = prefix ''/'' s"

definition Clean :: "string \<Rightarrow> string" where
  "Clean s = render_path (IsAbs s) (clean_stack (IsAbs s) [] (path_parts s))"

definition Join :: "string list \<Rightarrow> string" where
  "Join elems =
     (let ne = filter (\<lambda>w. w \<noteq> []) elems in if ne = [] then [] else Clean (JoinByte ne (CHR ''/'')))"

definition Base :: "string \<Rightarrow> string" where
  "Base s =
     (if s = [] then ''.''
      else (let t = TrimRightByte s (CHR ''/'')
            in if t = [] then ''/'' else last (SplitByte t (CHR ''/''))))"

definition Dir :: "string \<Rightarrow> string" where
  "Dir s = Clean (JoinByte (butlast (SplitByte s (CHR ''/'')) @ [[]]) (CHR ''/''))"

definition Ext :: "string \<Rightarrow> string" where
  "Ext s =
     (let b = last (SplitByte s (CHR ''/''))
      in if CHR ''.'' \<in> set b then CHR ''.'' # rev (takeWhile (\<lambda>c. c \<noteq> CHR ''.'') (rev b)) else [])"

definition IsLocal :: "string \<Rightarrow> bool" where
  "IsLocal s =
     (if IsAbs s \<or> s = [] then False
      else (let dots = list_ex (\<lambda>w. w = ''.'' \<or> w = ''..'') (SplitByte s (CHR ''/''));
                t = (if dots then Clean s else s)
            in \<not> (t = ''..'' \<or> HasPrefix t ''../'')))"

section \<open>Components\<close>

text \<open>A plain component is a file name: not empty, without a slash, neither \<open>.\<close> nor \<open>..\<close>.\<close>

definition plain :: "string \<Rightarrow> bool" where
  "plain w \<longleftrightarrow> w \<noteq> [] \<and> w \<noteq> ''.'' \<and> w \<noteq> ''..'' \<and> CHR ''/'' \<notin> set w"

lemma plainD:
  "plain w \<Longrightarrow> w \<noteq> []" "plain w \<Longrightarrow> w \<noteq> ''.''" "plain w \<Longrightarrow> w \<noteq> ''..''" "plain w \<Longrightarrow> CHR ''/'' \<notin> set w"
  by (auto simp: plain_def)

lemma SplitByte_no: "c \<notin> set w \<Longrightarrow> SplitByte w c = [w]"
  by (induction w) auto

lemma SplitByte_append: "SplitByte (u @ c # v) c = SplitByte u c @ SplitByte v c"
proof (induction u)
  case (Cons x u)
  then show ?case by (cases "SplitByte u c") auto
qed simp

lemma SplitByte_JoinByte:
  "ws \<noteq> [] \<Longrightarrow> \<forall>w \<in> set ws. c \<notin> set w \<Longrightarrow> SplitByte (JoinByte ws c) c = ws"
proof (induction ws c rule: JoinByte.induct)
  case (3 w v vs c)
  then show ?case by (simp add: SplitByte_append SplitByte_no)
qed (simp_all add: SplitByte_no)

lemma SplitByte_Cons_sep [simp]: "SplitByte (c # s) c = [] # SplitByte s c"
  by simp

lemma path_parts_append [simp]:
  "path_parts (u @ CHR ''/'' # v) = path_parts u @ path_parts v"
  by (simp add: path_parts_def SplitByte_append)

lemma path_parts_Cons_slash [simp]: "path_parts (CHR ''/'' # v) = path_parts v"
  by (simp add: path_parts_def)

lemma path_parts_Nil [simp]: "path_parts [] = []"
  by (simp add: path_parts_def)

lemma path_parts_plain: "plain w \<Longrightarrow> path_parts w = [w]"
  by (auto simp: path_parts_def SplitByte_no plain_def)

lemma path_parts_JoinByte:
  "\<forall>w \<in> set ws. plain w \<or> w = ''..'' \<Longrightarrow> path_parts (JoinByte ws (CHR ''/'')) = ws"
proof (cases "ws = []")
  case False
  assume ws: "\<forall>w \<in> set ws. plain w \<or> w = ''..''"
  have "CHR ''/'' \<notin> set w" if "w \<in> set ws" for w
  proof -
    from ws that have "plain w \<or> w = ''..''" by blast
    then show ?thesis by (cases "w = ''..''") (simp_all add: plain_def)
  qed
  then have "\<forall>w \<in> set ws. CHR ''/'' \<notin> set w" by blast
  with False have "SplitByte (JoinByte ws (CHR ''/'')) (CHR ''/'') = ws"
    by (rule SplitByte_JoinByte)
  moreover have "filter (\<lambda>w. w \<noteq> [] \<and> w \<noteq> ''.'') ws = ws"
    using ws by (intro filter_True) (metis plainD(1,2) list.distinct(1) list.inject not_Cons_self2)
  ultimately show ?thesis by (simp add: path_parts_def)
qed simp

lemma path_parts_no_slash: "w \<in> set (path_parts s) \<Longrightarrow> plain w \<or> w = ''..''"
  by (auto simp: path_parts_def plain_def dest: SplitByte_no_sep)

lemma path_parts_JoinByte_concat:
  "path_parts (JoinByte elems (CHR ''/'')) = concat (map path_parts elems)"
proof (induction elems)
  case (Cons e es)
  then show ?case by (cases es) simp_all
qed simp

lemma concat_path_parts_nonempty: "concat (map path_parts (filter (\<lambda>w. w \<noteq> []) es)) = concat (map path_parts es)"
  by (induction es) auto

section \<open>The cleaned stack\<close>

lemma clean_stack_Nil [simp]: "clean_stack r ps [] = ps"
  by (simp add: clean_stack_def)

lemma clean_stack_append: "clean_stack r ps (us @ vs) = clean_stack r (clean_stack r ps us) vs"
  by (simp add: clean_stack_def)

lemma clean_stack_plain: "\<forall>w \<in> set ws. plain w \<Longrightarrow> clean_stack r ps ws = ps @ ws"
proof (induction ws arbitrary: ps)
  case (Cons w ws)
  have "clean_stack r ps (w # ws) = clean_stack r (clean_stack r ps [w]) ws"
    using clean_stack_append [of r ps "[w]" ws] by simp
  also have "clean_stack r ps [w] = ps @ [w]"
    using Cons.prems by (auto simp: clean_stack_def clean_step_def plain_def)
  finally show ?case using Cons by simp
qed simp

lemma clean_stack_dotdot: "clean_stack r (ps @ [p]) (''..'' # ws) = (if p = ''..'' then clean_stack r (ps @ [p, p]) ws else clean_stack r ps ws)"
  by (simp add: clean_stack_def clean_step_def)

text \<open>A rooted stack holds plain components only; an unrooted one may start with \<open>..\<close> components.\<close>

lemma clean_step_plain:
  "\<forall>p \<in> set acc. plain p \<Longrightarrow> plain w \<or> w = ''..'' \<Longrightarrow> \<forall>p \<in> set (clean_step True acc w). plain p"
  by (auto simp: clean_step_def split: list.splits if_splits)

lemma clean_stack_rooted_plain:
  assumes "\<forall>p \<in> set ps. plain p" "\<forall>w \<in> set ws. plain w \<or> w = ''..''"
  shows "\<forall>p \<in> set (clean_stack True ps ws). plain p"
proof -
  have "\<forall>p \<in> set (foldl (clean_step True) acc ws). plain p" if "\<forall>p \<in> set acc. plain p" for acc
    using assms(2) that
  proof (induction ws arbitrary: acc)
    case (Cons w ws)
    then have "\<forall>p \<in> set (clean_step True acc w). plain p"
      by (intro clean_step_plain) auto
    with Cons show ?case by simp
  qed simp
  from this [of "rev ps"] show ?thesis using assms(1) by (simp add: clean_stack_def)
qed

lemma IsAbs_render [simp]: "IsAbs (render_path True ps)"
  by (simp add: IsAbs_def render_path_def)

lemma IsAbs_append: "s \<noteq> [] \<Longrightarrow> IsAbs (s @ t) = IsAbs s"
  by (cases s) (simp_all add: IsAbs_def)

lemma path_parts_render:
  "\<forall>w \<in> set ps. plain w \<Longrightarrow> path_parts (render_path True ps) = ps"
  using path_parts_JoinByte [of ps] by (simp add: render_path_def)

lemma Clean_render: "\<forall>w \<in> set ps. plain w \<Longrightarrow> Clean (render_path True ps) = render_path True ps"
  by (simp add: Clean_def path_parts_render clean_stack_plain)

lemma Clean_rooted: "IsAbs s \<Longrightarrow> Clean s = render_path True (clean_stack True [] (path_parts s))"
  by (simp add: Clean_def)

lemma Clean_idem_rooted: "IsAbs s \<Longrightarrow> Clean (Clean s) = Clean s"
proof -
  assume abs: "IsAbs s"
  have "\<forall>p \<in> set (clean_stack True [] (path_parts s)). plain p"
    by (rule clean_stack_rooted_plain) (auto dest: path_parts_no_slash)
  from Clean_render [OF this] show ?thesis using abs by (simp add: Clean_rooted [of s])
qed

text \<open>Joining below an absolute path runs the remaining components on its stack.\<close>

lemma JoinByte_nonempty: "w \<noteq> [] \<Longrightarrow> JoinByte (w # ws) c = w @ (if ws = [] then [] else c # JoinByte ws c)"
  by (cases ws) simp_all

lemma Join_render:
  assumes "\<forall>p \<in> set ps. plain p"
  shows "Join (render_path True ps # es) = render_path True (clean_stack True ps (concat (map path_parts es)))"
proof -
  let ?r = "render_path True ps" and ?es = "filter (\<lambda>w. w \<noteq> []) es"
  have ne: "?r \<noteq> []" by (simp add: render_path_def)
  have "Join (?r # es) = Clean (JoinByte (?r # ?es) (CHR ''/''))"
    using ne by (simp add: Join_def)
  moreover have "IsAbs (JoinByte (?r # ?es) (CHR ''/''))"
    using ne by (simp add: JoinByte_nonempty IsAbs_append)
  moreover have "path_parts (JoinByte (?r # ?es) (CHR ''/'')) = ps @ concat (map path_parts es)"
    using assms by (simp add: path_parts_JoinByte_concat path_parts_render concat_path_parts_nonempty)
  moreover have "clean_stack True [] (ps @ concat (map path_parts es)) = clean_stack True ps (concat (map path_parts es))"
    using assms by (simp add: clean_stack_append clean_stack_plain)
  ultimately show ?thesis by (simp add: Clean_rooted)
qed

lemma Join_render_plain:
  assumes "\<forall>p \<in> set ps. plain p" "\<forall>e \<in> set es. plain e"
  shows "Join (render_path True ps # es) = render_path True (ps @ es)"
proof -
  have "concat (map path_parts es) = es"
    using assms(2) by (induction es) (auto simp: path_parts_plain)
  then show ?thesis using assms by (simp add: Join_render clean_stack_plain)
qed

section \<open>Containment\<close>

lemma JoinByte_append:
  "us \<noteq> [] \<Longrightarrow> vs \<noteq> [] \<Longrightarrow> JoinByte (us @ vs) c = JoinByte us c @ c # JoinByte vs c"
proof (induction us c rule: JoinByte.induct)
  case (2 w c)
  then show ?case by (cases vs) simp_all
qed simp_all

lemma JoinByte_inj:
  "\<forall>w \<in> set us. plain w \<Longrightarrow> \<forall>w \<in> set vs. plain w \<Longrightarrow> JoinByte us (CHR ''/'') = JoinByte vs (CHR ''/'') \<Longrightarrow> us = vs"
  using path_parts_JoinByte by metis

lemma render_path_inj:
  "\<forall>w \<in> set us. plain w \<Longrightarrow> \<forall>w \<in> set vs. plain w \<Longrightarrow> render_path True us = render_path True vs \<Longrightarrow> us = vs"
  by (auto simp: render_path_def intro: JoinByte_inj)

text \<open>
  The test \<open>HasPrefix full (dir @ ''/'')\<close> that the code uses is a comparison of components.
\<close>

lemma HasPrefix_render:
  assumes ps: "\<forall>w \<in> set ps. plain w" "ps \<noteq> []" and xs: "\<forall>w \<in> set xs. plain w"
  shows "HasPrefix (render_path True xs) (render_path True ps @ ''/'') \<longleftrightarrow> (\<exists>qs. qs \<noteq> [] \<and> xs = ps @ qs)"
proof
  assume "HasPrefix (render_path True xs) (render_path True ps @ ''/'')"
  then obtain t where t: "render_path True xs = render_path True ps @ CHR ''/'' # t"
    by (auto simp: HasPrefix_def prefix_def)
  then have "JoinByte xs (CHR ''/'') = JoinByte ps (CHR ''/'') @ CHR ''/'' # t"
    by (simp add: render_path_def)
  moreover have nx: "xs \<noteq> []" using calculation by auto
  ultimately have "SplitByte (JoinByte xs (CHR ''/'')) (CHR ''/'') = SplitByte (JoinByte ps (CHR ''/'')) (CHR ''/'') @ SplitByte t (CHR ''/'')"
    by (simp add: SplitByte_append)
  moreover have "SplitByte (JoinByte xs (CHR ''/'')) (CHR ''/'') = xs" "SplitByte (JoinByte ps (CHR ''/'')) (CHR ''/'') = ps"
    using ps xs nx plainD(4) by (metis SplitByte_JoinByte)+
  ultimately show "\<exists>qs. qs \<noteq> [] \<and> xs = ps @ qs" by auto
next
  assume "\<exists>qs. qs \<noteq> [] \<and> xs = ps @ qs"
  then show "HasPrefix (render_path True xs) (render_path True ps @ ''/'')"
    using ps(2) by (auto simp: HasPrefix_def prefix_def render_path_def JoinByte_append)
qed

lemma Base_render: "\<forall>w \<in> set ps. plain w \<Longrightarrow> plain p \<Longrightarrow> Base (render_path True (ps @ [p])) = p"
proof -
  assume ps: "\<forall>w \<in> set ps. plain w" and p: "plain p"
  let ?s = "render_path True (ps @ [p])"
  have s: "?s = (CHR ''/'' # (if ps = [] then [] else JoinByte ps (CHR ''/'') @ ''/'')) @ p"
    by (simp add: render_path_def JoinByte_append)
  have "last ?s \<noteq> CHR ''/''" using p unfolding s by (auto simp: plain_def dest: last_in_set)
  then have trim: "TrimRightByte ?s (CHR ''/'') = ?s"
    unfolding TrimRightByte_def TrimRightFunc_def
    by (cases ?s rule: rev_cases) auto
  have "SplitByte ?s (CHR ''/'') = [] # ps @ [p]"
    using SplitByte_JoinByte [of "ps @ [p]" "CHR ''/''"] ps p by (auto simp: render_path_def plain_def)
  then show ?thesis using trim by (simp add: Base_def Let_def render_path_def)
qed

lemma Dir_render: "\<forall>w \<in> set ps. plain w \<Longrightarrow> plain p \<Longrightarrow> Dir (render_path True (ps @ [p])) = render_path True ps"
proof -
  assume ps: "\<forall>w \<in> set ps. plain w" and p: "plain p"
  have "SplitByte (render_path True (ps @ [p])) (CHR ''/'') = [] # ps @ [p]"
    using SplitByte_JoinByte [of "ps @ [p]" "CHR ''/''"] ps p by (auto simp: render_path_def plain_def)
  then have "Dir (render_path True (ps @ [p])) = Clean (JoinByte (([] # ps) @ [[]]) (CHR ''/''))"
    by (simp add: Dir_def butlast_append)
  also have "JoinByte (([] # ps) @ [[]]) (CHR ''/'') = JoinByte ([] # ps) (CHR ''/'') @ ''/''"
    by (subst JoinByte_append) auto
  also have "Clean \<dots> = render_path True ps"
  proof (cases "ps = []")
    case True
    then show ?thesis by (simp add: Clean_def IsAbs_def path_parts_def)
  next
    case False
    then have j: "JoinByte ([] # ps) (CHR ''/'') @ ''/'' = render_path True ps @ ''/''"
      by (cases ps) (simp_all add: render_path_def)
    have "path_parts (render_path True ps @ ''/'') = ps"
      using path_parts_append [of "render_path True ps" "[]"] ps by (simp add: path_parts_render)
    moreover have "IsAbs (render_path True ps @ ''/'')"
      by (subst IsAbs_append) (simp_all add: render_path_def IsAbs_def)
    ultimately show ?thesis using j ps by (simp add: Clean_rooted clean_stack_plain)
  qed
  finally show ?thesis .
qed

text \<open>A local path that is not absolute has no component that leaves its base directory.\<close>

lemma foldl_clean_step_False_dots:
  "\<forall>w \<in> set ws. plain w \<Longrightarrow> foldl (clean_step False) acc ws = rev ws @ acc"
  by (induction ws arbitrary: acc) (auto simp: clean_step_def plain_def)

end
