(* ===== verification/StepRun.thy ===== *)
theory StepRun
  imports StepOrder Mask Paths
begin

text \<open>
  Running one step: \<^verbatim>\<open>runStep\<close>, \<^verbatim>\<open>runStepOnce\<close>, \<^verbatim>\<open>stepCommand\<close> and
  \<^verbatim>\<open>interpreterCommand\<close> of \<^verbatim>\<open>internal/ci/step.go\<close>.

  The container engine, the clock, the context and the file system are outside. What they
  answer is an argument: an \<open>observation\<close> per attempt holds the two clock readings, the exit
  code and error of \<^verbatim>\<open>engine.Run\<close>, and whether the context was done when the attempt was
  classified and when the retry loop looked at it. The effects of a step come back as the list
  of its \<open>step_effect\<close>s in the order of the code.
\<close>

section \<open>Data\<close>

record step_exec =
  se_image :: string
  se_repoDir :: string
  se_wfDir :: string
  se_binds :: "string list"
  se_env :: "string list"
  se_dockerHost :: string
  se_secrets :: "string list"
  se_projectID :: uuid
  se_execID :: int

record run_options =
  ro_Image :: string
  ro_Command :: "string list"
  ro_Env :: "string list"
  ro_Binds :: "string list"
  ro_WorkingDir :: string
  ro_Timeout :: go_duration

text \<open>The fields of \<^verbatim>\<open>Runner\<close> a step reads.\<close>

record step_config =
  sc_MountPath :: string
  sc_DefaultStepTimeout :: go_duration

record observation =
  ob_Started :: go_time
  ob_Finished :: go_time
  ob_Code :: int
  ob_Err :: "string option"
  ob_CtxDone :: bool
  ob_CtxAfter :: bool

datatype step_effect =
    LogWrite string
  | EngineRun run_options
  | CollectArtifacts "string list"

section \<open>The command\<close>

text \<open>\<open>readFile\<close> opens and reads a file of the host: an error, or its content.\<close>

definition interpreterCommand :: "(string \<Rightarrow> string + string) \<Rightarrow> string \<Rightarrow> string \<Rightarrow> string + string list" where
  "interpreterCommand readFile hostPath containerPath =
     bindR (readFile hostPath)
       (\<lambda>content.
          let line = TrimSpace (case CutByte content (CHR 0x0A) of Some (l, _) \<Rightarrow> l | None \<Rightarrow> content);
              parts = (if HasPrefix line ''#!'' then FieldsFunc (drop 2 line) is_space else [])
          in if parts \<noteq> [] then Inr (parts @ [containerPath])
             else (let ext = ToLower (Ext hostPath)
                   in if ext = ''.sh'' then Inr [''/bin/sh'', containerPath]
                      else if ext = ''.bash'' then Inr [''/bin/bash'', containerPath]
                      else if ext = ''.py'' then Inr [''python3'', containerPath]
                      else if ext = ''.js'' then Inr [''node'', containerPath]
                      else if ext = ''.rb'' then Inr [''ruby'', containerPath]
                      else if ext = ''.go'' then Inr [''go'', ''run'', containerPath]
                      else Inr [''/bin/sh'', containerPath]))"

definition stepCommand :: "(string \<Rightarrow> string + string) \<Rightarrow> string \<Rightarrow> string \<Rightarrow> step \<Rightarrow> string + string list" where
  "stepCommand readFile mountPath wfDir step =
     (if st_Run step \<noteq> [] then Inr [''sh'', ''-c'', st_Run step]
      else (let hostPath = Join [wfDir, st_Script step];
                workflow = Base wfDir;
                containerPath = Join [mountPath, ''.ci'', workflow, st_Script step]
            in interpreterCommand readFile hostPath containerPath))"

section \<open>One attempt\<close>

definition step_env :: "step_exec \<Rightarrow> step \<Rightarrow> string list" where
  "step_env se step =
     se_env se
     @ (if se_dockerHost se \<noteq> [] then [''DOCKER_HOST='' @ se_dockerHost se] else [])
     @ map (\<lambda>(k, v). k @ ''='' @ v) (st_Env step)"

definition step_timeout :: "step_config \<Rightarrow> step \<Rightarrow> go_duration" where
  "step_timeout sc step = (if st_Timeout step \<le> 0 then sc_DefaultStepTimeout sc else st_Timeout step)"

definition classify :: "observation \<Rightarrow> step_result \<Rightarrow> step_result" where
  "classify ob res =
     (if ob_CtxDone ob then res\<lparr>r_Status := StepStatusCanceled, r_Error := ''canceled''\<rparr>
      else (case ob_Err ob of
              Some e \<Rightarrow> res\<lparr>r_Status := StepStatusFailed, r_Error := e\<rparr>
            | None \<Rightarrow>
                if ob_Code ob \<noteq> 0
                then res\<lparr>r_Status := StepStatusFailed, r_Error := ''exit code '' @ itoa (ob_Code ob)\<rparr>
                else res\<lparr>r_Status := StepStatusSuccess\<rparr>))"

definition runStepOnce ::
  "step_config \<Rightarrow> (string \<Rightarrow> string + string) \<Rightarrow> step \<Rightarrow> step_exec \<Rightarrow> observation \<Rightarrow> step_result \<times> step_effect list" where
  "runStepOnce sc readFile step se ob =
     (let res = (StepResult (st_Name step) StepStatusRunning)\<lparr>r_StartedAt := Some (ob_Started ob)\<rparr>
      in case stepCommand readFile (sc_MountPath sc) (se_wfDir se) step of
           Inl err \<Rightarrow>
             (res\<lparr>r_Status := StepStatusFailed, r_Error := err, r_FinishedAt := Some (ob_Finished ob)\<rparr>,
              [LogWrite (''command error: '' @ err @ [CHR 0x0A])])
         | Inr cmd \<Rightarrow>
             (let stepEnv = step_env se step;
                  timeout = step_timeout sc step;
                  res1 = res\<lparr>r_Env := map (\<lambda>kv. Redact kv (se_secrets se)) stepEnv, r_Timeout := timeout\<rparr>;
                  opts = \<lparr>ro_Image = se_image se, ro_Command = cmd, ro_Env = stepEnv, ro_Binds = se_binds se,
                          ro_WorkingDir = sc_MountPath sc, ro_Timeout = timeout\<rparr>
              in (classify ob (res1\<lparr>r_FinishedAt := Some (ob_Finished ob), r_ExitCode := ob_Code ob\<rparr>),
                  [EngineRun opts])))"

section \<open>The retry loop\<close>

text \<open>The remaining attempts are the list that the loop counts through.\<close>

fun attemptLoop ::
  "(nat \<Rightarrow> step_result \<times> step_effect list) \<Rightarrow> (nat \<Rightarrow> bool) \<Rightarrow> step \<Rightarrow> go_time \<Rightarrow> nat \<Rightarrow> nat list
     \<Rightarrow> step_result \<times> step_effect list" where
  "attemptLoop once ctxAfter step now attempts [] =
     ((StepResult (st_Name step) StepStatusFailed)\<lparr>r_Error := ''unreachable'', r_FinishedAt := Some now\<rparr>, [])"
| "attemptLoop once ctxAfter step now attempts (attempt # rest) =
     (let retry = (if 1 < attempt
                   then [LogWrite (CHR 0x0A # ''retrying ('' @ itoa (int attempt) @ ''/''
                           @ itoa (int attempts) @ '')...'' @ [CHR 0x0A])]
                   else []);
          r = once attempt
      in if r_Status (fst r) = StepStatusSuccess \<or> attempt = attempts \<or> ctxAfter attempt
         then (fst r, retry @ snd r
                 @ (if r_Status (fst r) = StepStatusSuccess then [CollectArtifacts (st_Artifacts step)] else []))
         else (let q = attemptLoop once ctxAfter step now attempts rest
               in (fst q, retry @ snd r @ snd q)))"

text \<open>\<open>openLog\<close> is the error of creating the log directory or file, if any.\<close>

definition runStep ::
  "step_config \<Rightarrow> (string \<Rightarrow> string + string) \<Rightarrow> string option \<Rightarrow> (nat \<Rightarrow> observation) \<Rightarrow> go_time
     \<Rightarrow> step \<Rightarrow> step_exec \<Rightarrow> step_result \<times> step_effect list" where
  "runStep sc readFile openLog obs now step se =
     (case openLog of
        Some err \<Rightarrow>
          ((StepResult (st_Name step) StepStatusFailed)\<lparr>r_Error := err, r_FinishedAt := Some now\<rparr>, [])
      | None \<Rightarrow>
          (let attempts = nat (st_Retry step + 1)
           in attemptLoop (\<lambda>k. runStepOnce sc readFile step se (obs k)) (\<lambda>k. ob_CtxAfter (obs k))
                step now attempts [1..<attempts + 1]))"

section \<open>Lemmas\<close>

definition finished_status :: "step_status \<Rightarrow> bool" where
  "finished_status st \<longleftrightarrow> st = StepStatusSuccess \<or> st = StepStatusFailed \<or> st = StepStatusCanceled"

lemma finished_status_simps [simp]:
  "finished_status StepStatusSuccess" "finished_status StepStatusFailed" "finished_status StepStatusCanceled"
  "\<not> finished_status StepStatusSkipped" "\<not> finished_status StepStatusUnset"
  "\<not> finished_status StepStatusPending" "\<not> finished_status StepStatusRunning"
  by (simp_all add: finished_status_def)

lemma classify_result:
  "r_Name (classify ob res) = r_Name res" "finished_status (r_Status (classify ob res))"
  "r_Status (classify ob res) = StepStatusSuccess \<longleftrightarrow> \<not> ob_CtxDone ob \<and> ob_Err ob = None \<and> ob_Code ob = 0"
  "r_Env (classify ob res) = r_Env res"
  by (auto simp: classify_def finished_status_def split: option.splits)

lemma runStepOnce_result:
  "r_Name (fst (runStepOnce sc rf step se ob)) = st_Name step"
  "finished_status (r_Status (fst (runStepOnce sc rf step se ob)))"
  "r_Status (fst (runStepOnce sc rf step se ob)) = StepStatusSuccess \<longleftrightarrow>
     (\<exists>cmd. stepCommand rf (sc_MountPath sc) (se_wfDir se) step = Inr cmd)
     \<and> \<not> ob_CtxDone ob \<and> ob_Err ob = None \<and> ob_Code ob = 0"
  by (auto simp: runStepOnce_def Let_def classify_result split: sum.splits)

definition is_run :: "step_effect \<Rightarrow> bool" where
  "is_run e \<longleftrightarrow> (\<exists>opts. e = EngineRun opts)"

definition is_collect :: "step_effect \<Rightarrow> bool" where
  "is_collect e \<longleftrightarrow> (\<exists>ps. e = CollectArtifacts ps)"

lemma is_run_simps [simp]: "is_run (EngineRun o1)" "\<not> is_run (LogWrite s)" "\<not> is_run (CollectArtifacts ps)"
  by (simp_all add: is_run_def)

lemma is_collect_simps [simp]:
  "is_collect (CollectArtifacts ps)" "\<not> is_collect (LogWrite s)" "\<not> is_collect (EngineRun o1)"
  by (simp_all add: is_collect_def)

lemma runStepOnce_effects:
  "length (filter is_run (snd (runStepOnce sc rf step se ob))) \<le> 1"
  "filter is_collect (snd (runStepOnce sc rf step se ob)) = []"
  by (auto simp: runStepOnce_def Let_def split: sum.splits)

text \<open>
  The loop stops at the first attempt that succeeds, is the last one, or is followed by a
  cancelled context; its result is that attempt's.
\<close>

definition stops :: "(nat \<Rightarrow> step_result \<times> step_effect list) \<Rightarrow> (nat \<Rightarrow> bool) \<Rightarrow> nat \<Rightarrow> nat \<Rightarrow> bool" where
  "stops once ctxAfter attempts k \<longleftrightarrow>
     r_Status (fst (once k)) = StepStatusSuccess \<or> k = attempts \<or> ctxAfter k"

lemma attemptLoop_spec:
  assumes "i \<le> attempts"
  shows "\<exists>k. i \<le> k \<and> k \<le> attempts \<and> stops once ctxAfter attempts k
      \<and> (\<forall>j. i \<le> j \<longrightarrow> j < k \<longrightarrow> \<not> stops once ctxAfter attempts j)
      \<and> fst (attemptLoop once ctxAfter step now attempts [i..<attempts + 1]) = fst (once k)
      \<and> filter is_run (snd (attemptLoop once ctxAfter step now attempts [i..<attempts + 1]))
          = concat (map (\<lambda>j. filter is_run (snd (once j))) [i..<k + 1])
      \<and> ((\<forall>j. filter is_collect (snd (once j)) = []) \<longrightarrow>
          filter is_collect (snd (attemptLoop once ctxAfter step now attempts [i..<attempts + 1]))
          = (if r_Status (fst (once k)) = StepStatusSuccess then [CollectArtifacts (st_Artifacts step)] else []))"
  using assms
proof (induction "attempts - i" arbitrary: i)
  case 0
  then have "[i..<attempts + 1] = [attempts]" "i = attempts" by auto
  then show ?case by (intro exI [of _ attempts]) (auto simp: Let_def stops_def)
next
  case (Suc n)
  then have up: "[i..<attempts + 1] = i # [Suc i..<attempts + 1]"
    by (simp add: upt_conv_Cons)
  show ?case
  proof (cases "stops once ctxAfter attempts i")
    case True
    then show ?thesis
      using up Suc.prems by (intro exI [of _ i]) (auto simp: Let_def stops_def upt_rec [of i "Suc i"] simp del: upt_Suc)
  next
    case False
    have "n = attempts - Suc i" "Suc i \<le> attempts" using Suc by auto
    from Suc.hyps(1) [OF this] obtain k where k: "Suc i \<le> k" "k \<le> attempts" "stops once ctxAfter attempts k"
      "\<forall>j. Suc i \<le> j \<longrightarrow> j < k \<longrightarrow> \<not> stops once ctxAfter attempts j"
      "fst (attemptLoop once ctxAfter step now attempts [Suc i..<attempts + 1]) = fst (once k)"
      "filter is_run (snd (attemptLoop once ctxAfter step now attempts [Suc i..<attempts + 1]))
          = concat (map (\<lambda>j. filter is_run (snd (once j))) [Suc i..<k + 1])"
      "(\<forall>j. filter is_collect (snd (once j)) = []) \<longrightarrow>
          filter is_collect (snd (attemptLoop once ctxAfter step now attempts [Suc i..<attempts + 1]))
          = (if r_Status (fst (once k)) = StepStatusSuccess then [CollectArtifacts (st_Artifacts step)] else [])"
      by blast
    have "[i..<k + 1] = i # [Suc i..<k + 1]" using k(1) by (simp add: upt_conv_Cons)
    moreover have "\<forall>j. i \<le> j \<longrightarrow> j < k \<longrightarrow> \<not> stops once ctxAfter attempts j"
      using k(4) False by (metis Suc_leI le_neq_implies_less)
    ultimately show ?thesis
      using k up False by (intro exI [of _ k]) (auto simp: Let_def stops_def simp del: upt_Suc)
  qed
qed

lemma attemptLoop_result:
  assumes "1 \<le> attempts" "\<And>k. r_Name (fst (once k)) = st_Name step" "\<And>k. finished_status (r_Status (fst (once k)))"
  shows "r_Name (fst (attemptLoop once ctxAfter step now attempts [1..<attempts + 1])) = st_Name step"
    "finished_status (r_Status (fst (attemptLoop once ctxAfter step now attempts [1..<attempts + 1])))"
  using attemptLoop_spec [OF assms(1), of once ctxAfter step now] assms(2,3) by metis+

lemma runStep_result:
  assumes "0 \<le> st_Retry step"
  shows "r_Name (fst (runStep sc rf ol obs now step se)) = st_Name step"
    "finished_status (r_Status (fst (runStep sc rf ol obs now step se)))"
proof -
  have a: "1 \<le> nat (st_Retry step + 1)" using assms by simp
  show "r_Name (fst (runStep sc rf ol obs now step se)) = st_Name step"
    "finished_status (r_Status (fst (runStep sc rf ol obs now step se)))"
    using attemptLoop_result [OF a, of "\<lambda>k. runStepOnce sc rf step se (obs k)"] runStepOnce_result
    by (auto simp: runStep_def Let_def finished_status_def split: option.splits)
qed

lemma length_concat_le: "(\<And>j. length (f j) \<le> 1) \<Longrightarrow> length (concat (map f xs)) \<le> length xs"
proof (induction xs)
  case (Cons x xs)
  then have "length (f x) \<le> 1" "length (concat (map f xs)) \<le> length xs" by blast+
  then show ?case by simp
qed simp

section \<open>Properties\<close>


definition sample_sc :: step_config where
  "sample_sc = \<lparr>sc_MountPath = ''/workspace'', sc_DefaultStepTimeout = 30 * minute\<rparr>"

definition sample_se :: step_exec where
  "sample_se = \<lparr>se_image = ''golang'', se_repoDir = ''/ws/p/1'', se_wfDir = ''/ws/p/1/.ci/build'', se_binds = [],
     se_env = [''CI=true''], se_dockerHost = [], se_secrets = [''s3cr3t''], se_projectID = 0, se_execID = 1\<rparr>"

definition sample_obs :: "nat \<Rightarrow> observation" where
  \<comment> \<open>fails once, then succeeds\<close>
  "sample_obs k = \<lparr>ob_Started = 0, ob_Finished = 1, ob_Code = (if k = 1 then 2 else 0), ob_Err = None,
     ob_CtxDone = False, ob_CtxAfter = False\<rparr>"

definition sample_retry_step :: step where
  "sample_retry_step = Step0\<lparr>st_Name := ''test'', st_Run := ''go test'', st_Retry := 2, st_Artifacts := [''out/*'']\<rparr>"


end
