(* ===== verification/Executor.thy ===== *)
theory Executor
  imports StepRun
begin

text \<open>
  The concurrent execution of a workflow's steps: \<^verbatim>\<open>executeSteps\<close> of
  \<^verbatim>\<open>internal/ci/step.go\<close>. The shared variables of the function are the record
  \<open>exec_state\<close>. A goroutine is a step name and the point it has reached (\<open>phase\<close>); the loop that
  launches the first steps runs beside the goroutines it starts, as in the source. Each
  \<open>sched_event\<close> is one atomic section: the sections that the code runs under its mutex, a send on
  the semaphore, one call of \<open>onUpdate\<close>, one launch, one turn of the main loop, or a
  cancellation of the context by the environment. \<open>fire\<close> is the transition function.

  The results of \<^verbatim>\<open>runStep\<close> are whatever the predicate \<open>run\<close> admits for a step; the
  interface \<open>step_runner\<close> states what the executor relies on, and the model of \<^verbatim>\<open>runStep\<close>
  satisfies it.
\<close>

section \<open>State\<close>

definition maxParallelSteps :: nat where "maxParallelSteps = 8"

record exec_setup =
  xs_steps :: "step list"
  xs_order :: "string list"
  xs_carry :: "string \<Rightarrow> step_result option"
  xs_timeout :: go_duration

datatype phase =
    Waiting
  | Acquired
  | Starting "step_result list"
  | Running
  | Finished step_result
  | Published "step_result list" "string list"
  | Launching "string list"
  | Exited

record exec_state =
  x_results :: "step_result list"
  x_statuses :: "step_status list"
  x_progress :: "step_result list"
  x_failed :: bool
  x_canceled :: bool
  x_ctxDone :: bool
  x_gos :: "(string \<times> phase) list"
  x_main :: "step list"
  x_updates :: "step_result list list"

datatype sched_event =
    Acquire nat
  | Decide nat go_time
  | Notify nat
  | Complete nat step_result
  | Publish nat
  | Launch nat
  | Exit nat
  | MainNext
  | CancelCtx

text \<open>The maps \<^verbatim>\<open>pos\<close>, \<^verbatim>\<open>depsByName\<close> and \<^verbatim>\<open>children\<close>; a later entry overwrites an earlier one.\<close>

definition pos :: "string list \<Rightarrow> string \<Rightarrow> nat" where
  "pos order n = (case find (\<lambda>i. order ! i = n) (rev [0..<length order]) of None \<Rightarrow> 0 | Some i \<Rightarrow> i)"

definition depsByName :: "step list \<Rightarrow> string \<Rightarrow> string list" where
  "depsByName steps n =
     (case find (\<lambda>s. st_Name s = n) (rev steps) of None \<Rightarrow> [] | Some s \<Rightarrow> st_DependsOn s)"

definition children :: "step list \<Rightarrow> string \<Rightarrow> string list" where
  "children steps d =
     concat (map (\<lambda>s. concat (map (\<lambda>x. if x = d then [st_Name s] else []) (st_DependsOn s))) steps)"

definition carried_result :: "string \<Rightarrow> step_result \<Rightarrow> step_result" where
  "carried_result n res =
     res\<lparr>r_Name := n,
         r_Status := (if r_Status res = StepStatusUnset then StepStatusSuccess else r_Status res)\<rparr>"

definition initial_result :: "exec_setup \<Rightarrow> string \<Rightarrow> step_result" where
  "initial_result su n =
     (case xs_carry su n of None \<Rightarrow> StepResult [] StepStatusUnset | Some res \<Rightarrow> carried_result n res)"

definition initial_state :: "exec_setup \<Rightarrow> exec_state" where
  "initial_state su =
     (let results = map (initial_result su) (xs_order su);
          progress = map (\<lambda>n. case xs_carry su n of
                                None \<Rightarrow> StepResult n StepStatusPending
                              | Some res \<Rightarrow> carried_result n res) (xs_order su)
      in \<lparr>x_results = results, x_statuses = map r_Status results, x_progress = progress,
          x_failed = False, x_canceled = False, x_ctxDone = False,
          x_gos = [], x_main = xs_steps su, x_updates = [progress]\<rparr>)"

definition status_of :: "exec_setup \<Rightarrow> exec_state \<Rightarrow> string \<Rightarrow> step_status" where
  "status_of su s n = x_statuses s ! pos (xs_order su) n"

definition all_done :: "exec_setup \<Rightarrow> exec_state \<Rightarrow> string list \<Rightarrow> bool" where
  "all_done su s ds = list_all (\<lambda>d. status_of su s d \<noteq> StepStatusUnset) ds"

definition goroutine :: "exec_state \<Rightarrow> nat \<Rightarrow> (string \<times> phase) option" where
  "goroutine s g = (if g < length (x_gos s) then Some (x_gos s ! g) else None)"

definition set_phase :: "nat \<Rightarrow> phase \<Rightarrow> exec_state \<Rightarrow> exec_state" where
  "set_phase g ph s = s\<lparr>x_gos := (x_gos s)[g := (fst (x_gos s ! g), ph)]\<rparr>"

definition launch :: "string \<Rightarrow> exec_state \<Rightarrow> exec_state" where
  "launch n s = s\<lparr>x_gos := x_gos s @ [(n, Waiting)]\<rparr>"

definition holding :: "phase \<Rightarrow> bool" where
  "holding ph \<longleftrightarrow> ph \<noteq> Waiting \<and> ph \<noteq> Exited"

definition in_flight :: "exec_state \<Rightarrow> nat" where
  "in_flight s = length (filter (\<lambda>g. holding (snd g)) (x_gos s))"

section \<open>Transitions\<close>

text \<open>The first critical section of a goroutine: skip, give up, or mark the step as running.\<close>

definition decide :: "exec_setup \<Rightarrow> nat \<Rightarrow> string \<Rightarrow> go_time \<Rightarrow> exec_state \<Rightarrow> exec_state" where
  "decide su g n now s =
     (if \<not> list_all (\<lambda>d. status_of su s d = StepStatusSuccess) (depsByName (xs_steps su) n)
      then set_phase g (Finished (StepResult n StepStatusSkipped)) s
      else if x_ctxDone s
      then set_phase g (Finished ((StepResult n StepStatusCanceled)\<lparr>r_Error := ''canceled''\<rparr>)) s
      else (let step = findStep (xs_steps su) n;
                timeout = (if st_Timeout step \<le> 0 then xs_timeout su else st_Timeout step);
                progress = (x_progress s)[pos (xs_order su) n :=
                    (StepResult n StepStatusRunning)\<lparr>r_StartedAt := Some now, r_Timeout := timeout\<rparr>]
            in set_phase g (Starting progress) (s\<lparr>x_progress := progress\<rparr>)))"

text \<open>The second critical section: record the result and find the children that are ready.\<close>

definition publish :: "exec_setup \<Rightarrow> nat \<Rightarrow> string \<Rightarrow> step_result \<Rightarrow> exec_state \<Rightarrow> exec_state" where
  "publish su g n res s =
     (let i = pos (xs_order su) n;
          s1 = s\<lparr>x_results := (x_results s)[i := res],
                 x_statuses := (x_statuses s)[i := r_Status res],
                 x_progress := (x_progress s)[i := res],
                 x_failed := x_failed s \<or> r_Status res = StepStatusFailed,
                 x_canceled := x_canceled s \<or> r_Status res = StepStatusCanceled\<rparr>;
          ready = filter (\<lambda>c. all_done su s1 (depsByName (xs_steps su) c)) (children (xs_steps su) n)
      in set_phase g (Published (x_progress s1) ready) s1)"

definition main_next :: "exec_setup \<Rightarrow> exec_state \<Rightarrow> exec_state option" where
  "main_next su s =
     (case x_main s of
        [] \<Rightarrow> None
      | step # rest \<Rightarrow>
          (let s1 = s\<lparr>x_main := rest\<rparr>
           in if xs_carry su (st_Name step) \<noteq> None then Some s1
              else if all_done su s (st_DependsOn step) then Some (launch (st_Name step) s1)
              else Some s1))"

fun fire ::
  "(step \<Rightarrow> nat \<Rightarrow> step_result \<Rightarrow> bool) \<Rightarrow> exec_setup \<Rightarrow> sched_event \<Rightarrow> exec_state \<Rightarrow> exec_state option" where
  "fire run su (Acquire g) s =
     (case goroutine s g of
        Some (n, Waiting) \<Rightarrow> if in_flight s < maxParallelSteps then Some (set_phase g Acquired s) else None
      | _ \<Rightarrow> None)"
| "fire run su (Decide g now) s =
     (case goroutine s g of Some (n, Acquired) \<Rightarrow> Some (decide su g n now s) | _ \<Rightarrow> None)"
| "fire run su (Notify g) s =
     (case goroutine s g of
        Some (n, Starting snapshot) \<Rightarrow>
          Some (set_phase g Running (s\<lparr>x_updates := x_updates s @ [snapshot]\<rparr>))
      | Some (n, Published snapshot ready) \<Rightarrow>
          Some (set_phase g (Launching ready) (s\<lparr>x_updates := x_updates s @ [snapshot]\<rparr>))
      | _ \<Rightarrow> None)"
| "fire run su (Complete g res) s =
     (case goroutine s g of
        Some (n, Running) \<Rightarrow>
          if run (findStep (xs_steps su) n) (pos (xs_order su) n) res
          then Some (set_phase g (Finished res) s) else None
      | _ \<Rightarrow> None)"
| "fire run su (Publish g) s =
     (case goroutine s g of Some (n, Finished res) \<Rightarrow> Some (publish su g n res s) | _ \<Rightarrow> None)"
| "fire run su (Launch g) s =
     (case goroutine s g of
        Some (n, Launching (c # cs)) \<Rightarrow> Some (launch c (set_phase g (Launching cs) s))
      | _ \<Rightarrow> None)"
| "fire run su (Exit g) s =
     (case goroutine s g of Some (n, Launching []) \<Rightarrow> Some (set_phase g Exited s) | _ \<Rightarrow> None)"
| "fire run su MainNext s = main_next su s"
| "fire run su CancelCtx s = (if x_ctxDone s then None else Some (s\<lparr>x_ctxDone := True\<rparr>))"

fun fires ::
  "(step \<Rightarrow> nat \<Rightarrow> step_result \<Rightarrow> bool) \<Rightarrow> exec_setup \<Rightarrow> sched_event list \<Rightarrow> exec_state \<Rightarrow> exec_state option" where
  "fires run su [] s = Some s"
| "fires run su (e # es) s = Option.bind (fire run su e s) (fires run su es)"

text \<open>\<^verbatim>\<open>wg.Wait\<close> returns: the loop is done and no goroutine is left.\<close>

definition quiescent :: "exec_state \<Rightarrow> bool" where
  "quiescent s \<longleftrightarrow> x_main s = [] \<and> list_all (\<lambda>g. snd g = Exited) (x_gos s)"

definition outcome :: "exec_setup \<Rightarrow> exec_state \<Rightarrow> step_result list \<times> bool \<times> bool" where
  "outcome su s =
     (map (\<lambda>n. x_results s ! pos (xs_order su) n) (xs_order su), x_failed s, x_canceled s)"

text \<open>
  The whole function: an order error is reported as a failed pseudo step; otherwise any
  complete run of the events yields a result. \<open>errText\<close> renders the error of \<^verbatim>\<open>orderSteps\<close>.
\<close>

inductive executeSteps ::
  "(step \<Rightarrow> nat \<Rightarrow> step_result \<Rightarrow> bool) \<Rightarrow> (config_error \<Rightarrow> string) \<Rightarrow> go_duration \<Rightarrow> config
     \<Rightarrow> (string \<Rightarrow> step_result option) \<Rightarrow> step_result list \<times> bool \<times> bool \<Rightarrow> bool"
  for run errText timeout cfg carry where
  order_error: "orderSteps (cf_Steps cfg) = Inl e \<Longrightarrow>
     executeSteps run errText timeout cfg carry
       ([(StepResult ''workflow'' StepStatusFailed)\<lparr>r_Error := errText e\<rparr>], True, False)"
| ran: "orderSteps (cf_Steps cfg) = Inr order \<Longrightarrow>
     su = \<lparr>xs_steps = cf_Steps cfg, xs_order = order, xs_carry = carry, xs_timeout = timeout\<rparr> \<Longrightarrow>
     fires run su es (initial_state su) = Some s \<Longrightarrow> quiescent s \<Longrightarrow>
     executeSteps run errText timeout cfg carry (outcome su s)"

inductive_cases executeSteps_cases: "executeSteps run errText timeout cfg carry r"

section \<open>The order and its maps\<close>

definition setup_ok :: "exec_setup \<Rightarrow> bool" where
  "setup_ok su \<longleftrightarrow>
     distinct (map st_Name (xs_steps su)) \<and> orderSteps (xs_steps su) = Inr (xs_order su)
     \<and> (\<forall>s \<in> set (xs_steps su). 0 \<le> st_Retry s)"

lemma pos_nth: "distinct order \<Longrightarrow> i < length order \<Longrightarrow> pos order (order ! i) = i"
proof -
  assume d: "distinct order" and i: "i < length order"
  have "find (\<lambda>j. order ! j = order ! i) (rev [0..<length order]) = Some i"
  proof -
    have "find (\<lambda>j. order ! j = order ! i) (rev [0..<length order]) \<noteq> None"
      using i by (auto simp: find_None_iff)
    then obtain j where j: "find (\<lambda>j. order ! j = order ! i) (rev [0..<length order]) = Some j" by blast
    then have "j < length order" "order ! j = order ! i"
      by (auto simp: find_Some_iff) (metis diff_less_Suc less_trans_Suc rev_nth length_upt nth_mem set_rev set_upt atLeastLessThan_iff minus_nat.diff_0 length_rev)
    with d i j show ?thesis by (simp add: nth_eq_iff_index_eq)
  qed
  then show ?thesis by (simp add: pos_def)
qed

lemma pos_in: "distinct order \<Longrightarrow> n \<in> set order \<Longrightarrow> pos order n < length order \<and> order ! pos order n = n"
  by (metis in_set_conv_nth pos_nth)

lemma find_rev_distinct:
  fixes steps :: "step list"
  shows "distinct (map st_Name steps) \<Longrightarrow> find (\<lambda>s. st_Name s = n) (rev steps) = find (\<lambda>s. st_Name s = n) steps"
proof (induction steps)
  case (Cons s steps)
  have app: "find P (xs @ ys) = (case find P xs of None \<Rightarrow> find P ys | Some x \<Rightarrow> Some x)" for P :: "step \<Rightarrow> bool" and xs ys
    by (induction xs) auto
  have "st_Name s = n \<Longrightarrow> find (\<lambda>s. st_Name s = n) steps = None"
    using Cons.prems unfolding find_None_iff by (auto simp: image_iff)
  with Cons show ?case by (auto simp: app split: option.splits)
qed simp

lemma children_iff:
  "distinct (map st_Name steps) \<Longrightarrow>
     c \<in> set (children steps d) \<longleftrightarrow> c \<in> set (map st_Name steps) \<and> d \<in> set (deps steps c)"
  by (auto simp: children_def deps_in split: if_splits)

lemma setup_order:
  assumes "setup_ok su"
  shows "distinct (xs_order su)" "set (xs_order su) = set (map st_Name (xs_steps su))"
    "length (xs_order su) = length (xs_steps su)" "distinct (map st_Name (xs_steps su))"
  using assms orderSteps_topological [of "xs_steps su" "xs_order su"] by (auto simp: setup_ok_def)

lemma setup_deps: "setup_ok su \<Longrightarrow> depsByName (xs_steps su) = deps (xs_steps su)"
  by (rule ext) (simp add: depsByName_def deps_def setup_ok_def find_rev_distinct)

lemma setup_pos:
  assumes "setup_ok su"
  shows "n \<in> set (xs_order su) \<Longrightarrow> pos (xs_order su) n < length (xs_order su)"
    "n \<in> set (xs_order su) \<Longrightarrow> xs_order su ! pos (xs_order su) n = n"
    "i < length (xs_order su) \<Longrightarrow> pos (xs_order su) (xs_order su ! i) = i"
  using pos_in pos_nth setup_order(1) [OF assms] by blast+

lemma setup_dep_before:
  assumes ok: "setup_ok su" and n: "n \<in> set (xs_order su)" and d: "d \<in> set (deps (xs_steps su) n)"
  shows "d \<in> set (xs_order su)" "pos (xs_order su) d < pos (xs_order su) n"
proof -
  from ok have topo: "topo_sorted (xs_steps su) (xs_order su)"
    using orderSteps_topological(3) by (auto simp: setup_ok_def)
  note p = setup_pos [OF ok]
  have "d \<in> set (take (pos (xs_order su) n) (xs_order su))"
    using topo p(1,2) [OF n] d by (auto simp: topo_sorted_def)
  then obtain j where j: "j < pos (xs_order su) n" "j < length (xs_order su)" "xs_order su ! j = d"
    by (auto simp: in_set_conv_nth)
  then show "d \<in> set (xs_order su)" by auto
  show "pos (xs_order su) d < pos (xs_order su) n" using j p(3) by metis
qed

lemma setup_child:
  assumes "setup_ok su" "c \<in> set (children (xs_steps su) n)"
  shows "c \<in> set (xs_order su)" "n \<in> set (deps (xs_steps su) c)"
  using assms children_iff setup_order by auto

lemma setup_findStep:
  assumes "setup_ok su" "n \<in> set (xs_order su)"
  shows "st_Name (findStep (xs_steps su) n) = n" "0 \<le> st_Retry (findStep (xs_steps su) n)"
  using findStep_Name [of n "xs_steps su"] setup_order(2) [OF assms(1)] assms by (auto simp: setup_ok_def)

lemma pos_eq_iff:
  "setup_ok su \<Longrightarrow> m \<in> set (xs_order su) \<Longrightarrow> n \<in> set (xs_order su) \<Longrightarrow>
     pos (xs_order su) m = pos (xs_order su) n \<longleftrightarrow> m = n"
  using setup_pos(2) by metis

section \<open>Bookkeeping lemmas\<close>

lemma goroutine_Some: "goroutine s g = Some x \<longleftrightarrow> g < length (x_gos s) \<and> x_gos s ! g = x"
  by (auto simp: goroutine_def)

lemma set_phase_simps [simp]:
  "x_results (set_phase g ph s) = x_results s" "x_statuses (set_phase g ph s) = x_statuses s"
  "x_progress (set_phase g ph s) = x_progress s" "x_failed (set_phase g ph s) = x_failed s"
  "x_canceled (set_phase g ph s) = x_canceled s" "x_ctxDone (set_phase g ph s) = x_ctxDone s"
  "x_main (set_phase g ph s) = x_main s" "x_updates (set_phase g ph s) = x_updates s"
  "status_of su (set_phase g ph s) = status_of su s"
  by (auto simp: set_phase_def status_of_def fun_eq_iff)

lemma launch_simps [simp]:
  "x_results (launch n s) = x_results s" "x_statuses (launch n s) = x_statuses s"
  "x_progress (launch n s) = x_progress s" "x_failed (launch n s) = x_failed s"
  "x_canceled (launch n s) = x_canceled s" "x_ctxDone (launch n s) = x_ctxDone s"
  "x_main (launch n s) = x_main s" "x_gos (launch n s) = x_gos s @ [(n, Waiting)]"
  "status_of su (launch n s) = status_of su s"
  by (auto simp: launch_def status_of_def fun_eq_iff)

lemma status_of_cong [simp]:
  "status_of su (s\<lparr>x_progress := p\<rparr>) = status_of su s"
  "status_of su (s\<lparr>x_updates := u\<rparr>) = status_of su s"
  "status_of su (s\<lparr>x_main := m\<rparr>) = status_of su s"
  "status_of su (s\<lparr>x_ctxDone := c\<rparr>) = status_of su s"
  by (auto simp: status_of_def fun_eq_iff)

text \<open>Changing the phase of one goroutine: its entries before and after.\<close>

lemma set_phase_gos:
  assumes "goroutine s g = Some (n, ph0)"
  shows "x_gos (set_phase g ph s) = (x_gos s)[g := (n, ph)]"
    "(n, ph0) \<in> set (x_gos s)"
    "(n, ph) \<in> set (x_gos (set_phase g ph s))"
    "x \<in> set (x_gos (set_phase g ph s)) \<Longrightarrow> x = (n, ph) \<or> x \<in> set (x_gos s)"
    "x \<in> set (x_gos s) \<Longrightarrow> x = (n, ph0) \<or> x \<in> set (x_gos (set_phase g ph s))"
proof -
  from assms have g: "g < length (x_gos s)" "x_gos s ! g = (n, ph0)" by (auto simp: goroutine_Some)
  show 1: "x_gos (set_phase g ph s) = (x_gos s)[g := (n, ph)]" by (simp add: set_phase_def g)
  show "(n, ph0) \<in> set (x_gos s)" using g nth_mem by metis
  show "(n, ph) \<in> set (x_gos (set_phase g ph s))" unfolding 1 using g by (simp add: set_update_memI)
  show "x \<in> set (x_gos (set_phase g ph s)) \<Longrightarrow> x = (n, ph) \<or> x \<in> set (x_gos s)"
    unfolding 1 using set_update_subset_insert by fastforce
  show "x \<in> set (x_gos s) \<Longrightarrow> x = (n, ph0) \<or> x \<in> set (x_gos (set_phase g ph s))"
    unfolding 1 using g by (metis in_set_conv_nth length_list_update nth_list_update_neq)
qed

lemma in_flight_sum: "in_flight s = sum_list (map (\<lambda>x. if holding (snd x) then 1 else 0) (x_gos s))"
proof -
  have "length (filter (\<lambda>g. holding (snd g)) xs) = sum_list (map (\<lambda>x. if holding (snd x) then 1 else 0) xs)"
    for xs :: "(string \<times> phase) list"
    by (induction xs) auto
  then show ?thesis by (simp add: in_flight_def)
qed

lemma in_flight_set_phase:
  "goroutine s g = Some (n, ph0) \<Longrightarrow>
     in_flight (set_phase g ph s) + (if holding ph0 then 1 else 0) = in_flight s + (if holding ph then 1 else 0)"
  using sum_list_update_nat [of g "x_gos s" "\<lambda>x. if holding (snd x) then 1 else 0" "(n, ph)"]
  by (auto simp: in_flight_sum set_phase_gos goroutine_Some)

lemma in_flight_cong [simp]:
  "in_flight (s\<lparr>x_progress := p\<rparr>) = in_flight s"
  "in_flight (s\<lparr>x_updates := u\<rparr>) = in_flight s"
  "in_flight (s\<lparr>x_main := m\<rparr>) = in_flight s"
  "in_flight (s\<lparr>x_ctxDone := c\<rparr>) = in_flight s"
  "in_flight (launch n s) = in_flight s"
  by (simp_all add: in_flight_def holding_def)

lemma holding_simps [simp]:
  "\<not> holding Waiting" "\<not> holding Exited" "holding Acquired" "holding (Starting p)" "holding Running"
  "holding (Finished r)" "holding (Published p cs)" "holding (Launching cs)"
  by (simp_all add: holding_def)

lemma goroutine_cong [simp]:
  "goroutine (s\<lparr>x_progress := p\<rparr>) g = goroutine s g"
  "goroutine (s\<lparr>x_updates := u\<rparr>) g = goroutine s g"
  by (simp_all add: goroutine_def)

lemma set_phase_update_commute:
  "set_phase g ph (s\<lparr>x_progress := p\<rparr>) = (set_phase g ph s)\<lparr>x_progress := p\<rparr>"
  "set_phase g ph (s\<lparr>x_updates := u\<rparr>) = (set_phase g ph s)\<lparr>x_updates := u\<rparr>"
  by (simp_all add: set_phase_def)

end
