(* ===== verification/ExecutorSafety.thy ===== *)
theory ExecutorSafety
  imports Executor "HOL-Library.Sublist"
begin

text \<open>
  Invariants of the executor's transitions and what they give for \<^verbatim>\<open>executeSteps\<close>: at most
  eight steps in flight, containers that start only after the step's dependencies succeeded,
  a bound on the number of transitions under every schedule, no deadlock, a result for every
  declared step, and the same statuses as a sequential run.
\<close>

section \<open>The interface to \<^verbatim>\<open>runStep\<close>\<close>

locale step_runner =
  fixes run :: "step \<Rightarrow> nat \<Rightarrow> step_result \<Rightarrow> bool"
  assumes run_name: "0 \<le> st_Retry st \<Longrightarrow> run st i res \<Longrightarrow> r_Name res = st_Name st"
    and run_status: "0 \<le> st_Retry st \<Longrightarrow> run st i res \<Longrightarrow> finished_status (r_Status res)"
    and run_total: "0 \<le> st_Retry st \<Longrightarrow> \<exists>res. run st i res"

text \<open>The model of \<^verbatim>\<open>runStep\<close>: any behaviour of the log file, the engine, the clock and the context.\<close>

definition runs_step ::
  "step_config \<Rightarrow> (string \<Rightarrow> string + string) \<Rightarrow> step_exec \<Rightarrow> step \<Rightarrow> nat \<Rightarrow> step_result \<Rightarrow> bool" where
  "runs_step sc readFile se step index res \<longleftrightarrow>
     (\<exists>openLog obs now. res = fst (runStep sc readFile openLog obs now step se))"

interpretation runner: step_runner "runs_step sc readFile se" for sc readFile se
proof
  fix st :: step and i res
  assume r: "0 \<le> st_Retry st"
  show "\<exists>res. runs_step sc readFile se st i res" by (auto simp: runs_step_def)
  assume "runs_step sc readFile se st i res"
  with r show "r_Name res = st_Name st" "finished_status (r_Status res)"
    by (auto simp: runs_step_def runStep_result)
qed

section \<open>Case analysis of a transition\<close>

definition can_start :: "exec_setup \<Rightarrow> exec_state \<Rightarrow> string \<Rightarrow> bool" where
  "can_start su s n \<longleftrightarrow> (\<forall>d \<in> set (depsByName (xs_steps su) n). status_of su s d = StepStatusSuccess)"

definition running_result :: "exec_setup \<Rightarrow> string \<Rightarrow> go_time \<Rightarrow> step_result" where
  "running_result su n now =
     (StepResult n StepStatusRunning)\<lparr>r_StartedAt := Some now,
        r_Timeout := (let step = findStep (xs_steps su) n
                      in if st_Timeout step \<le> 0 then xs_timeout su else st_Timeout step)\<rparr>"

lemma decide_cases:
  "decide su g n now s =
     (if \<not> can_start su s n then set_phase g (Finished (StepResult n StepStatusSkipped)) s
      else if x_ctxDone s
      then set_phase g (Finished ((StepResult n StepStatusCanceled)\<lparr>r_Error := ''canceled''\<rparr>)) s
      else (let p = (x_progress s)[pos (xs_order su) n := running_result su n now]
            in set_phase g (Starting p) (s\<lparr>x_progress := p\<rparr>)))"
  by (simp add: decide_def can_start_def running_result_def Let_def list_all_iff)

lemma fire_cases [consumes 1, case_names acquire skip cancelled start started notified complete publish
    launch_child exit main_pass main_launch cancel]:
  assumes "fire run su e s = Some s'"
  obtains
    (acquire) g n where "goroutine s g = Some (n, Waiting)" "in_flight s < maxParallelSteps"
      "s' = set_phase g Acquired s" "e = Acquire g"
  | (skip) g n now where "goroutine s g = Some (n, Acquired)" "\<not> can_start su s n"
      "s' = set_phase g (Finished (StepResult n StepStatusSkipped)) s" "e = Decide g now"
  | (cancelled) g n now where "goroutine s g = Some (n, Acquired)" "can_start su s n" "x_ctxDone s"
      "s' = set_phase g (Finished ((StepResult n StepStatusCanceled)\<lparr>r_Error := ''canceled''\<rparr>)) s" "e = Decide g now"
  | (start) g n now p where "goroutine s g = Some (n, Acquired)" "can_start su s n" "\<not> x_ctxDone s"
      "p = (x_progress s)[pos (xs_order su) n := running_result su n now]"
      "s' = set_phase g (Starting p) (s\<lparr>x_progress := p\<rparr>)" "e = Decide g now"
  | (started) g n p where "goroutine s g = Some (n, Starting p)"
      "s' = set_phase g Running (s\<lparr>x_updates := x_updates s @ [p]\<rparr>)" "e = Notify g"
  | (notified) g n p cs where "goroutine s g = Some (n, Published p cs)"
      "s' = set_phase g (Launching cs) (s\<lparr>x_updates := x_updates s @ [p]\<rparr>)" "e = Notify g"
  | (complete) g n res where "goroutine s g = Some (n, Running)"
      "run (findStep (xs_steps su) n) (pos (xs_order su) n) res"
      "s' = set_phase g (Finished res) s" "e = Complete g res"
  | (publish) g n res where "goroutine s g = Some (n, Finished res)" "s' = publish su g n res s" "e = Publish g"
  | (launch_child) g n c cs where "goroutine s g = Some (n, Launching (c # cs))"
      "s' = launch c (set_phase g (Launching cs) s)" "e = Launch g"
  | (exit) g n where "goroutine s g = Some (n, Launching [])" "s' = set_phase g Exited s" "e = Exit g"
  | (main_pass) step rest where "x_main s = step # rest"
      "xs_carry su (st_Name step) \<noteq> None \<or> \<not> all_done su s (st_DependsOn step)" "s' = s\<lparr>x_main := rest\<rparr>" "e = MainNext"
  | (main_launch) step rest where "x_main s = step # rest" "xs_carry su (st_Name step) = None"
      "all_done su s (st_DependsOn step)" "s' = launch (st_Name step) (s\<lparr>x_main := rest\<rparr>)" "e = MainNext"
  | (cancel) "\<not> x_ctxDone s" "s' = s\<lparr>x_ctxDone := True\<rparr>" "e = CancelCtx"
proof (cases e)
  case (Acquire g)
  with assms show thesis by (auto split: option.splits prod.splits phase.splits if_splits intro: acquire)
next
  case (Decide g now)
  with assms obtain n where g: "goroutine s g = Some (n, Acquired)" and s': "s' = decide su g n now s"
    by (auto split: option.splits prod.splits phase.splits)
  show thesis
    using s' unfolding decide_cases Let_def
    by (auto split: if_splits intro: skip [OF g _ _ Decide] cancelled [OF g _ _ _ Decide] start [OF g _ _ refl _ Decide])
next
  case (Notify g)
  with assms show thesis by (auto split: option.splits prod.splits phase.splits intro: started notified)
next
  case (Complete g res)
  with assms show thesis by (auto split: option.splits prod.splits phase.splits if_splits intro: complete)
next
  case (Publish g)
  with assms show thesis by (auto split: option.splits prod.splits phase.splits intro: publish)
next
  case (Launch g)
  with assms show thesis by (auto split: option.splits prod.splits phase.splits list.splits intro: launch_child)
next
  case (Exit g)
  with assms show thesis by (auto split: option.splits prod.splits phase.splits list.splits intro: exit)
next
  case MainNext
  with assms show thesis
    by (auto simp: main_next_def Let_def split: list.splits if_splits intro: main_pass main_launch)
next
  case CancelCtx
  with assms show thesis by (auto split: if_splits intro: cancel)
qed

section \<open>Well-formed states\<close>

fun pending :: "phase \<Rightarrow> string list" where
  "pending (Published p cs) = cs"
| "pending (Launching cs) = cs"
| "pending _ = []"

fun wf_phase :: "exec_setup \<Rightarrow> string \<Rightarrow> phase \<Rightarrow> bool" where
  "wf_phase su n (Finished res) \<longleftrightarrow>
     r_Name res = n \<and> (finished_status (r_Status res) \<or> r_Status res = StepStatusSkipped)"
| "wf_phase su n ph \<longleftrightarrow> subseq (pending ph) (children (xs_steps su) n)"

definition wf_gos :: "exec_setup \<Rightarrow> exec_state \<Rightarrow> bool" where
  "wf_gos su s \<longleftrightarrow> (\<forall>x \<in> set (x_gos s). fst x \<in> set (xs_order su) \<and> wf_phase su (fst x) (snd x))"

definition wf_data :: "exec_setup \<Rightarrow> exec_state \<Rightarrow> bool" where
  "wf_data su s \<longleftrightarrow>
     length (x_results s) = length (xs_order su) \<and> length (x_progress s) = length (xs_order su)
     \<and> x_statuses s = map r_Status (x_results s)
     \<and> (\<forall>i < length (xs_order su).
          r_Status (x_results s ! i) \<noteq> StepStatusUnset \<longrightarrow> r_Name (x_results s ! i) = xs_order su ! i)"

definition wf_state :: "exec_setup \<Rightarrow> exec_state \<Rightarrow> bool" where
  "wf_state su s \<longleftrightarrow>
     wf_gos su s \<and> wf_data su s \<and> set (x_main s) \<subseteq> set (xs_steps su) \<and> in_flight s \<le> maxParallelSteps"

lemma in_flight_bound:
  "goroutine s g = Some (n, ph0) \<Longrightarrow> holding ph0 \<Longrightarrow> in_flight s \<le> k \<Longrightarrow> in_flight (set_phase g ph s) \<le> k"
  using in_flight_set_phase [of s g n ph0 ph] by (auto split: if_splits)

lemma wf_gos_set_phase:
  assumes "wf_gos su s" "goroutine s g = Some (n, ph0)" "wf_phase su n ph"
  shows "wf_gos su (set_phase g ph s)"
  using assms set_phase_gos(2,4) [OF assms(2)] unfolding wf_gos_def by fastforce

lemma wf_gos_launch: "wf_gos su s \<Longrightarrow> n \<in> set (xs_order su) \<Longrightarrow> wf_gos su (launch n s)"
  by (auto simp: wf_gos_def)

lemma wf_gos_goroutine:
  "wf_gos su s \<Longrightarrow> goroutine s g = Some (n, ph) \<Longrightarrow> n \<in> set (xs_order su) \<and> wf_phase su n ph"
  using nth_mem by (fastforce simp: wf_gos_def goroutine_Some)

lemma wf_gos_cong [simp]:
  "wf_gos su (s\<lparr>x_progress := p\<rparr>) = wf_gos su s" "wf_gos su (s\<lparr>x_updates := u\<rparr>) = wf_gos su s"
  "wf_gos su (s\<lparr>x_main := m\<rparr>) = wf_gos su s" "wf_gos su (s\<lparr>x_ctxDone := c\<rparr>) = wf_gos su s"
  by (simp_all add: wf_gos_def)

lemma wf_data_cong [simp]:
  "wf_data su (set_phase g ph s) = wf_data su s" "wf_data su (launch n s) = wf_data su s"
  "wf_data su ((set_phase g ph s)\<lparr>x_progress := p\<rparr>) = wf_data su (s\<lparr>x_progress := p\<rparr>)"
  "wf_data su (s\<lparr>x_updates := u\<rparr>) = wf_data su s"
  "wf_data su (s\<lparr>x_main := m\<rparr>) = wf_data su s" "wf_data su (s\<lparr>x_ctxDone := c\<rparr>) = wf_data su s"
  by (simp_all add: wf_data_def)

text \<open>What publishing changes.\<close>

definition published_data :: "exec_setup \<Rightarrow> string \<Rightarrow> step_result \<Rightarrow> exec_state \<Rightarrow> exec_state" where
  "published_data su n res s =
     s\<lparr>x_results := (x_results s)[pos (xs_order su) n := res],
       x_statuses := (x_statuses s)[pos (xs_order su) n := r_Status res],
       x_progress := (x_progress s)[pos (xs_order su) n := res],
       x_failed := x_failed s \<or> r_Status res = StepStatusFailed,
       x_canceled := x_canceled s \<or> r_Status res = StepStatusCanceled\<rparr>"

definition ready_children :: "exec_setup \<Rightarrow> string \<Rightarrow> exec_state \<Rightarrow> string list" where
  "ready_children su n s1 = filter (\<lambda>c. all_done su s1 (depsByName (xs_steps su) c)) (children (xs_steps su) n)"

lemma publish_eq:
  "publish su g n res s =
     set_phase g (Published (x_progress (published_data su n res s)) (ready_children su n (published_data su n res s)))
       (published_data su n res s)"
  by (simp add: publish_def published_data_def ready_children_def Let_def)

lemma published_data_simps [simp]:
  "x_gos (published_data su n res s) = x_gos s" "x_main (published_data su n res s) = x_main s"
  "x_ctxDone (published_data su n res s) = x_ctxDone s"
  "x_failed (published_data su n res s) \<longleftrightarrow> x_failed s \<or> r_Status res = StepStatusFailed"
  "x_canceled (published_data su n res s) \<longleftrightarrow> x_canceled s \<or> r_Status res = StepStatusCanceled"
  "goroutine (published_data su n res s) g = goroutine s g"
  "in_flight (published_data su n res s) = in_flight s"
  "wf_gos su (published_data su n res s) = wf_gos su s"
  by (simp_all add: published_data_def goroutine_def in_flight_def wf_gos_def)

lemma wf_data_published:
  assumes ok: "setup_ok su" and wf: "wf_data su s" and n: "n \<in> set (xs_order su)" and res: "r_Name res = n"
  shows "wf_data su (published_data su n res s)"
proof -
  have "r_Name ((x_results s)[pos (xs_order su) n := res] ! i) = xs_order su ! i"
    if "i < length (xs_order su)" "r_Status ((x_results s)[pos (xs_order su) n := res] ! i) \<noteq> StepStatusUnset" for i
    using that wf res setup_pos(1,2) [OF ok n]
    by (cases "i = pos (xs_order su) n") (auto simp: wf_data_def)
  then show ?thesis using wf by (auto simp: wf_data_def published_data_def map_update)
qed

lemma status_of_published:
  assumes ok: "setup_ok su" and wf: "wf_data su s" and n: "n \<in> set (xs_order su)" and m: "m \<in> set (xs_order su)"
  shows "status_of su (published_data su n res s) m = (if m = n then r_Status res else status_of su s m)"
  using pos_eq_iff [OF ok m n] setup_pos(1) [OF ok m] wf
  by (auto simp: status_of_def published_data_def wf_data_def)

lemma wf_initial: "setup_ok su \<Longrightarrow> wf_state su (initial_state su)"
  by (auto simp: wf_state_def wf_gos_def wf_data_def initial_state_def Let_def in_flight_def
      initial_result_def carried_result_def split: option.splits)

context step_runner begin

lemma fire_wf:
  assumes ok: "setup_ok su" and wf: "wf_state su s" and step: "fire run su e s = Some s'"
  shows "wf_state su s'"
proof -
  from wf have g: "wf_gos su s" and d: "wf_data su s" and m: "set (x_main s) \<subseteq> set (xs_steps su)"
    and f: "in_flight s \<le> maxParallelSteps"
    by (auto simp: wf_state_def)
  note gos = wf_gos_set_phase [OF g] wf_gos_goroutine [OF g] and fl = in_flight_bound [OF _ _ f]
  from step show ?thesis
  proof (cases rule: fire_cases)
    case (acquire g n)
    then show ?thesis using d m gos [OF acquire(1)] in_flight_set_phase [OF acquire(1), of Acquired] by (auto simp: wf_state_def)
  next
    case (skip g n)
    then show ?thesis using d m f gos [OF skip(1)] fl [OF skip(1)] by (auto simp: wf_state_def)
  next
    case (cancelled g n)
    then show ?thesis using d m f gos [OF cancelled(1)] fl [OF cancelled(1)] by (auto simp: wf_state_def)
  next
    case (start g n now p)
    then have "wf_data su (s\<lparr>x_progress := p\<rparr>)" using d by (simp add: wf_data_def)
    then show ?thesis
      using start m f gos [OF start(1)] fl [OF start(1)] by (auto simp: wf_state_def set_phase_update_commute)
  next
    case (started g n p)
    then show ?thesis
      using d m f gos [OF started(1)] fl [OF started(1)] by (auto simp: wf_state_def set_phase_update_commute)
  next
    case (notified g n p cs)
    then show ?thesis
      using d m f gos [OF notified(1)] fl [OF notified(1)] by (auto simp: wf_state_def set_phase_update_commute)
  next
    case (complete g n res)
    then have "n \<in> set (xs_order su)" using gos by blast
    from setup_findStep [OF ok this] have "wf_phase su n (Finished res)"
      using run_name run_status complete(2) by simp
    then show ?thesis using complete d m f gos [OF complete(1)] fl [OF complete(1)] by (auto simp: wf_state_def)
  next
    case (publish g n res)
    from gos(2) [OF publish(1)] have n: "n \<in> set (xs_order su)" "r_Name res = n" by auto
    have "wf_phase su n (Published p (ready_children su n s1))" for p s1
      by (simp add: ready_children_def subseq_filter_left)
    then show ?thesis
      using publish m f wf_data_published [OF ok d n] gos [OF publish(1)] g
        in_flight_bound [of "published_data su n res s" g n "Finished res"]
      by (auto simp: wf_state_def publish_eq intro!: wf_gos_set_phase)
  next
    case (launch_child g n c cs)
    from gos(2) [OF launch_child(1)] have sub: "subseq (c # cs) (children (xs_steps su) n)" by simp
    then have "c \<in> set (children (xs_steps su) n)" by (auto dest: list_emb_set)
    from setup_child [OF ok this] have "c \<in> set (xs_order su)" by simp
    moreover have "wf_phase su n (Launching cs)" using sub by (auto intro: subseq_Cons')
    ultimately show ?thesis
      using launch_child d m f gos(1) [OF launch_child(1)] fl [OF launch_child(1)]
      by (auto simp: wf_state_def intro!: wf_gos_launch)
  next
    case (exit g n)
    then show ?thesis using d m f gos [OF exit(1)] fl [OF exit(1)] by (auto simp: wf_state_def)
  next
    case (main_pass step rest)
    then show ?thesis using g d m f by (auto simp: wf_state_def)
  next
    case (main_launch step rest)
    then have "st_Name step \<in> set (xs_order su)" using m setup_order(2) [OF ok] by auto
    then show ?thesis using main_launch g d m f by (auto simp: wf_state_def intro!: wf_gos_launch)
  next
    case cancel
    then show ?thesis using g d m f by (auto simp: wf_state_def)
  qed
qed

lemma fires_wf: "setup_ok su \<Longrightarrow> wf_state su s \<Longrightarrow> fires run su es s = Some s' \<Longrightarrow> wf_state su s'"
proof (induction es arbitrary: s)
  case (Cons e es)
  from Cons.prems(3) obtain s1 where "fire run su e s = Some s1" "fires run su es s1 = Some s'"
    unfolding fires.simps bind_eq_Some_conv by blast
  with Cons fire_wf show ?case by blast
qed simp

end

end
