(* ===== verification/ExecutorLive.thy ===== *)
theory ExecutorLive
  imports ExecutorSafety
begin

text \<open>
  Termination, progress and completeness of the executor: every schedule ends after a bounded
  number of transitions, no reachable state that is not finished is stuck, and a finished run
  has a result for every declared step.
\<close>

section \<open>Every step is covered\<close>

fun active :: "phase \<Rightarrow> bool" where
  "active (Published p cs) \<longleftrightarrow> False"
| "active (Launching cs) \<longleftrightarrow> False"
| "active Exited \<longleftrightarrow> False"
| "active _ \<longleftrightarrow> True"

definition awaited :: "exec_setup \<Rightarrow> exec_state \<Rightarrow> string \<Rightarrow> bool" where
  "awaited su s n \<longleftrightarrow>
     n \<in> st_Name ` set (x_main s)
     \<or> (\<exists>ph. (n, ph) \<in> set (x_gos s) \<and> active ph)
     \<or> (\<exists>x \<in> set (x_gos s). n \<in> set (pending (snd x)))
     \<or> (\<exists>d \<in> set (deps (xs_steps su) n). status_of su s d = StepStatusUnset)"

definition covered :: "exec_setup \<Rightarrow> exec_state \<Rightarrow> bool" where
  "covered su s \<longleftrightarrow>
     (\<forall>n \<in> set (xs_order su). status_of su s n = StepStatusUnset \<longrightarrow> xs_carry su n = None \<and> awaited su s n)"

lemma awaited_set_phase:
  assumes "awaited su s n" "goroutine s g = Some (m, ph0)" "active ph0 \<Longrightarrow> active ph"
    "set (pending ph0) \<subseteq> set (pending ph)"
  shows "awaited su (set_phase g ph s) n"
proof -
  note keep = set_phase_gos(5) [OF assms(2)] and new = set_phase_gos(3) [OF assms(2)]
  from assms(1) consider "n \<in> st_Name ` set (x_main s)"
    | ph1 where "(n, ph1) \<in> set (x_gos s)" "active ph1"
    | x where "x \<in> set (x_gos s)" "n \<in> set (pending (snd x))"
    | d where "d \<in> set (deps (xs_steps su) n)" "status_of su s d = StepStatusUnset"
    unfolding awaited_def by blast
  then show ?thesis
  proof cases
    case (2 ph1)
    from keep [OF 2(1)] new [of ph] assms(3) 2(2) show ?thesis
      unfolding awaited_def by (metis prod.inject)
  next
    case (3 x)
    from keep [OF 3(1)] new [of ph] assms(4) 3(2) show ?thesis
      unfolding awaited_def by (metis snd_conv subsetD)
  qed (auto simp: awaited_def)
qed

lemma awaited_cong [simp]:
  "awaited su (s\<lparr>x_progress := p\<rparr>) n = awaited su s n" "awaited su (s\<lparr>x_updates := u\<rparr>) n = awaited su s n"
  "awaited su (s\<lparr>x_ctxDone := c\<rparr>) n = awaited su s n"
  by (simp_all add: awaited_def)

lemma covered_set_phase:
  assumes "covered su s" "goroutine s g = Some (m, ph0)" "active ph0 \<Longrightarrow> active ph"
    "set (pending ph0) \<subseteq> set (pending ph)"
  shows "covered su (set_phase g ph s)"
  using assms(1) awaited_set_phase [OF _ assms(2,3,4)] by (auto simp: covered_def)

lemma covered_cong [simp]:
  "covered su (s\<lparr>x_progress := p\<rparr>) = covered su s" "covered su (s\<lparr>x_updates := u\<rparr>) = covered su s"
  "covered su (s\<lparr>x_ctxDone := c\<rparr>) = covered su s"
  by (simp_all add: covered_def)

lemma covered_publish:
  assumes ok: "setup_ok su" and wf: "wf_data su s" and cov: "covered su s"
    and g: "goroutine s g = Some (n, Finished res)" and n: "n \<in> set (xs_order su)"
    and res: "r_Status res \<noteq> StepStatusUnset"
  shows "covered su (publish su g n res s)"
  unfolding covered_def
proof (intro ballI impI)
  let ?s1 = "published_data su n res s" and ?s' = "publish su g n res s"
  note st = status_of_published [OF ok wf n]
  have gp: "goroutine ?s1 g = Some (n, Finished res)" using g by simp
  have st': "status_of su ?s' = status_of su ?s1" by (simp add: publish_eq)
  fix m assume m: "m \<in> set (xs_order su)" and unset: "status_of su ?s' m = StepStatusUnset"
  then have mn: "m \<noteq> n" "status_of su s m = StepStatusUnset"
    using st [OF m] res st' by (auto split: if_splits)
  with cov m have carry: "xs_carry su m = None" and "awaited su s m" by (auto simp: covered_def)
  from this(2) consider "m \<in> st_Name ` set (x_main s)"
    | ph1 where "(m, ph1) \<in> set (x_gos s)" "active ph1"
    | x where "x \<in> set (x_gos s)" "m \<in> set (pending (snd x))"
    | d where "d \<in> set (deps (xs_steps su) m)" "status_of su s d = StepStatusUnset"
    unfolding awaited_def by blast
  then have "awaited su ?s' m"
  proof cases
    case 1
    then show ?thesis by (simp add: awaited_def publish_eq)
  next
    case (2 ph1)
    then have "(m, ph1) \<in> set (x_gos ?s')"
      using set_phase_gos(5) [OF gp, of "(m, ph1)"] mn(1) by (auto simp: publish_eq)
    with 2 show ?thesis by (auto simp: awaited_def)
  next
    case (3 x)
    then have "x \<noteq> (n, Finished res)" by auto
    with 3 have "x \<in> set (x_gos ?s')"
      using set_phase_gos(5) [OF gp, of x] by (auto simp: publish_eq)
    with 3 show ?thesis by (auto simp: awaited_def)
  next
    case (4 d)
    have dorder: "d' \<in> set (xs_order su)" if "d' \<in> set (deps (xs_steps su) m)" for d'
      using setup_dep_before(1) [OF ok m that] .
    show ?thesis
    proof (cases "\<exists>d' \<in> set (deps (xs_steps su) m). status_of su ?s1 d' = StepStatusUnset")
      case True
      then show ?thesis using st' by (auto simp: awaited_def)
    next
      case False
      then have adone: "all_done su ?s1 (depsByName (xs_steps su) m)"
        by (simp add: all_done_def list_all_iff setup_deps [OF ok])
      from 4 False have "d = n"
        using st [OF dorder [OF 4(1)]] by (auto split: if_splits)
      with 4 m have "m \<in> set (children (xs_steps su) n)"
        using children_iff [OF setup_order(4) [OF ok]] setup_order(2) [OF ok] by auto
      with adone have "m \<in> set (ready_children su n ?s1)" by (simp add: ready_children_def)
      then show ?thesis
        using set_phase_gos(3) [OF gp] by (force simp: awaited_def publish_eq)
    qed
  qed
  with carry show "xs_carry su m = None \<and> awaited su ?s' m" by simp
qed

lemma covered_launch: "covered su s \<Longrightarrow> covered su (launch n s)"
  by (auto simp: covered_def awaited_def)

lemma covered_initial: "setup_ok su \<Longrightarrow> covered su (initial_state su)"
proof -
  assume ok: "setup_ok su"
  have "xs_carry su n = None \<and> n \<in> st_Name ` set (xs_steps su)"
    if n: "n \<in> set (xs_order su)" and u: "status_of su (initial_state su) n = StepStatusUnset" for n
  proof -
    from setup_pos(1,2) [OF ok n] have "status_of su (initial_state su) n = r_Status (initial_result su n)"
      by (simp add: status_of_def initial_state_def Let_def)
    with u have "xs_carry su n = None"
      by (auto simp: initial_result_def carried_result_def split: option.splits if_splits)
    then show ?thesis using n setup_order(2) [OF ok] by auto
  qed
  then show ?thesis by (auto simp: covered_def awaited_def initial_state_def Let_def)
qed

context step_runner begin

lemma fire_covered:
  assumes ok: "setup_ok su" and wf: "wf_state su s" and cov: "covered su s" and step: "fire run su e s = Some s'"
  shows "covered su s'"
  using step
proof (cases rule: fire_cases)
  case (acquire g n)
  then show ?thesis using covered_set_phase [OF cov acquire(1)] by simp
next
  case (skip g n)
  then show ?thesis using covered_set_phase [OF cov skip(1)] by simp
next
  case (cancelled g n)
  then show ?thesis using covered_set_phase [OF cov cancelled(1)] by simp
next
  case (start g n now p)
  then show ?thesis using covered_set_phase [OF cov start(1)] by (simp add: set_phase_update_commute)
next
  case (started g n p)
  then show ?thesis using covered_set_phase [OF cov started(1)] by (simp add: set_phase_update_commute)
next
  case (notified g n p cs)
  then show ?thesis using covered_set_phase [OF cov notified(1)] by (simp add: set_phase_update_commute)
next
  case (complete g n res)
  then show ?thesis using covered_set_phase [OF cov complete(1)] by simp
next
  case (publish g n res)
  from wf have "wf_gos su s" "wf_data su s" by (auto simp: wf_state_def)
  with wf_gos_goroutine [OF this(1) publish(1)] show ?thesis
    unfolding publish(2) by (intro covered_publish [OF ok _ cov publish(1)]) (auto simp: finished_status_def)
next
  case (launch_child g n c cs)
  let ?s1 = "set_phase g (Launching cs) s"
  have "awaited su (launch c ?s1) m" if aw: "awaited su s m" for m
  proof (cases "m = c")
    case True
    then show ?thesis by (auto simp: awaited_def)
  next
    case False
    note keep = set_phase_gos(5) [OF launch_child(1)] and new = set_phase_gos(3) [OF launch_child(1)]
    from aw consider "m \<in> st_Name ` set (x_main s)"
      | ph1 where "(m, ph1) \<in> set (x_gos s)" "active ph1"
      | x where "x \<in> set (x_gos s)" "m \<in> set (pending (snd x))"
      | d where "d \<in> set (deps (xs_steps su) m)" "status_of su s d = StepStatusUnset"
      unfolding awaited_def by blast
    then show ?thesis
    proof cases
      case (2 ph1)
      then have "(m, ph1) \<noteq> (n, Launching (c # cs))" by auto
      with 2 have "(m, ph1) \<in> set (x_gos ?s1)" using keep [of "(m, ph1)"] by blast
      with 2 show ?thesis by (auto simp: awaited_def)
    next
      case (3 x)
      then show ?thesis
        using keep [OF 3(1)] new [of "Launching cs"] False by (force simp: awaited_def)
    qed (auto simp: awaited_def)
  qed
  with cov launch_child(2) show ?thesis by (auto simp: covered_def)
next
  case (exit g n)
  then show ?thesis using covered_set_phase [OF cov exit(1)] by simp
next
  case (main_pass st rest)
  have "awaited su s' m" if "m \<in> set (xs_order su)" "status_of su s m = StepStatusUnset" for m
  proof -
    from cov that have carry: "xs_carry su m = None" and aw: "awaited su s m" by (auto simp: covered_def)
    show ?thesis
    proof (cases "m = st_Name st")
      case True
      from wf main_pass(1) have "st \<in> set (xs_steps su)" by (auto simp: wf_state_def)
      with True have "deps (xs_steps su) m = st_DependsOn st"
        using deps_in setup_order(4) [OF ok] by simp
      with True main_pass(2) carry show ?thesis
        by (auto simp: awaited_def main_pass(3) all_done_def list_all_iff)
    next
      case False
      with aw main_pass(1) show ?thesis by (auto simp: awaited_def main_pass(3))
    qed
  qed
  with cov main_pass(3) show ?thesis by (auto simp: covered_def)
next
  case (main_launch st rest)
  have "awaited su s' m" if "awaited su s m" for m
    using that main_launch(1) by (auto simp: awaited_def main_launch(4))
  with cov main_launch(4) show ?thesis by (auto simp: covered_def)
next
  case cancel
  then show ?thesis using cov by simp
qed

lemma fires_invariant:
  assumes "setup_ok su" "fires run su es (initial_state su) = Some s"
  shows "wf_state su s" "covered su s"
proof -
  have "wf_state su s1 \<Longrightarrow> covered su s1 \<Longrightarrow> fires run su es s1 = Some s2 \<Longrightarrow> wf_state su s2 \<and> covered su s2" for s1 s2
  proof (induction es arbitrary: s1)
    case (Cons e es)
    from Cons.prems(3) obtain s3 where "fire run su e s1 = Some s3" "fires run su es s3 = Some s2"
      unfolding fires.simps bind_eq_Some_conv by blast
    with Cons fire_wf [OF assms(1)] fire_covered [OF assms(1)] show ?case by blast
  qed simp
  with assms wf_initial covered_initial show "wf_state su s" "covered su s" by blast+
qed

end

lemma quiescent_complete:
  assumes ok: "setup_ok su" and cov: "covered su s" and q: "quiescent s" and n: "n \<in> set (xs_order su)"
  shows "status_of su s n \<noteq> StepStatusUnset"
  using n
proof (induction "pos (xs_order su) n" arbitrary: n rule: less_induct)
  case less
  show ?case
  proof
    assume u: "status_of su s n = StepStatusUnset"
    with cov less.prems have "awaited su s n" by (simp add: covered_def)
    moreover have "snd x = Exited" if "x \<in> set (x_gos s)" for x
      using q that by (auto simp: quiescent_def list_all_iff)
    then have "\<not> ((n, ph) \<in> set (x_gos s) \<and> active ph)" "x \<in> set (x_gos s) \<Longrightarrow> pending (snd x) = []" for ph x
      by fastforce+
    ultimately obtain d where d: "d \<in> set (deps (xs_steps su) n)" "status_of su s d = StepStatusUnset"
      using q unfolding awaited_def quiescent_def by (auto; fastforce)
    with less.hyps setup_dep_before [OF ok less.prems d(1)] show False by blast
  qed
qed

section \<open>Termination\<close>

definition edge_count :: "step list \<Rightarrow> nat" where
  "edge_count steps = sum_list (map (\<lambda>s. length (st_DependsOn s)) steps)"

definition spawn_base :: "exec_setup \<Rightarrow> nat" where
  "spawn_base su = 10 + 2 * edge_count (xs_steps su)"

definition weight :: "exec_setup \<Rightarrow> string \<Rightarrow> nat" where
  "weight su n = spawn_base su ^ (length (xs_order su) - pos (xs_order su) n)"

definition spawn_cost :: "exec_setup \<Rightarrow> string list \<Rightarrow> nat" where
  "spawn_cost su cs = sum_list (map (\<lambda>c. 1 + weight su c) cs)"

fun phase_cost :: "exec_setup \<Rightarrow> string \<times> phase \<Rightarrow> nat" where
  "phase_cost su (n, Waiting) = weight su n"
| "phase_cost su (n, Acquired) = weight su n - 1"
| "phase_cost su (n, Starting p) = weight su n - 2"
| "phase_cost su (n, Running) = weight su n - 3"
| "phase_cost su (n, Finished res) = weight su n - 4"
| "phase_cost su (n, Published p cs) = 3 + spawn_cost su cs"
| "phase_cost su (n, Launching cs) = 2 + spawn_cost su cs"
| "phase_cost su (n, Exited) = 0"

definition gos_cost :: "exec_setup \<Rightarrow> exec_state \<Rightarrow> nat" where
  "gos_cost su s = sum_list (map (phase_cost su) (x_gos s))"

definition total_cost :: "exec_setup \<Rightarrow> exec_state \<Rightarrow> nat" where
  "total_cost su s = gos_cost su s + spawn_cost su (map st_Name (x_main s)) + (if x_ctxDone s then 0 else 1)"

lemma length_children: "length (children steps d) \<le> edge_count steps"
proof (induction steps)
  case Nil
  then show ?case by (simp add: children_def)
next
  case (Cons s steps)
  have "length (concat (map (\<lambda>x. if x = d then [n] else []) ds)) \<le> length ds" for n :: string and ds
    by (induction ds) auto
  from add_mono [OF this Cons.IH] show ?case by (simp add: children_def edge_count_def)
qed

lemma spawn_cost_subseq: "subseq xs ys \<Longrightarrow> spawn_cost su xs \<le> spawn_cost su ys"
  by (induction rule: list_emb.induct) (auto simp: spawn_cost_def)

lemma spawn_cost_bound: "(\<And>c. c \<in> set cs \<Longrightarrow> weight su c \<le> k) \<Longrightarrow> spawn_cost su cs \<le> length cs * (1 + k)"
proof (induction cs)
  case (Cons c cs)
  then have "spawn_cost su cs \<le> length cs * (1 + k)" "weight su c \<le> k" by simp_all
  then show ?case by (simp add: spawn_cost_def)
qed (simp add: spawn_cost_def)

lemma weight_children:
  assumes ok: "setup_ok su" and n: "n \<in> set (xs_order su)"
  shows "8 + spawn_cost su (children (xs_steps su) n) \<le> weight su n"
proof -
  let ?L = "length (xs_order su)" and ?E = "edge_count (xs_steps su)" and ?M = "spawn_base su"
  let ?k = "?L - Suc (pos (xs_order su) n)"
  have pos: "pos (xs_order su) n < ?L" using setup_pos(1) [OF ok n] .
  have one: "1 \<le> ?M ^ j" for j by (simp add: spawn_base_def)
  have "weight su c \<le> ?M ^ ?k" if "c \<in> set (children (xs_steps su) n)" for c
  proof -
    have "pos (xs_order su) n < pos (xs_order su) c"
      using setup_dep_before(2) [OF ok] setup_child [OF ok that] by blast
    then show ?thesis
      unfolding weight_def by (intro power_increasing) (auto simp: spawn_base_def)
  qed
  then have "spawn_cost su (children (xs_steps su) n) \<le> length (children (xs_steps su) n) * (1 + ?M ^ ?k)"
    by (rule spawn_cost_bound)
  also have "\<dots> \<le> ?E * (1 + ?M ^ ?k)" by (intro mult_right_mono length_children) simp
  also have "\<dots> \<le> ?E * (2 * ?M ^ ?k)" using one [of ?k] by (intro mult_left_mono) auto
  finally have "spawn_cost su (children (xs_steps su) n) \<le> 2 * ?E * ?M ^ ?k" by simp
  moreover have "weight su n = ?M * ?M ^ ?k"
    using pos by (simp add: weight_def Suc_diff_Suc flip: power_Suc)
  moreover have "?M * ?M ^ ?k = 10 * ?M ^ ?k + 2 * ?E * ?M ^ ?k"
    by (simp add: spawn_base_def distrib_right)
  ultimately show ?thesis using one [of ?k] by simp
qed

lemma gos_cost_set_phase:
  "goroutine s g = Some (n, ph0) \<Longrightarrow>
     gos_cost su (set_phase g ph s) + phase_cost su (n, ph0) = gos_cost su s + phase_cost su (n, ph)"
  using sum_list_update_nat [of g "x_gos s" "phase_cost su" "(n, ph)"]
  by (auto simp: gos_cost_def set_phase_gos goroutine_Some)

lemma gos_cost_cong [simp]:
  "gos_cost su (s\<lparr>x_progress := p\<rparr>) = gos_cost su s" "gos_cost su (s\<lparr>x_updates := u\<rparr>) = gos_cost su s"
  "gos_cost su (s\<lparr>x_main := m\<rparr>) = gos_cost su s" "gos_cost su (s\<lparr>x_ctxDone := c\<rparr>) = gos_cost su s"
  "gos_cost su (launch n s) = gos_cost su s + weight su n"
  "gos_cost su (published_data su n res s) = gos_cost su s"
  by (simp_all add: gos_cost_def)

lemma spawn_cost_Cons [simp]: "spawn_cost su (c # cs) = 1 + weight su c + spawn_cost su cs" "spawn_cost su [] = 0"
  by (simp_all add: spawn_cost_def)

lemma fire_decreases:
  assumes ok: "setup_ok su" and wf: "wf_state su s" and step: "fire run su e s = Some s'"
  shows "total_cost su s' < total_cost su s"
proof -
  from wf have gos: "wf_gos su s" by (simp add: wf_state_def)
  have w: "8 + spawn_cost su (children (xs_steps su) n) \<le> weight su n" if "goroutine s g = Some (n, ph)" for g n ph
    using weight_children [OF ok] wf_gos_goroutine [OF gos that] by blast
  note cost = gos_cost_set_phase [of s _ _ _ su]
  from step show ?thesis
  proof (cases rule: fire_cases)
    case (acquire g n)
    then show ?thesis using cost [OF acquire(1), of Acquired] w [OF acquire(1)] by (simp add: total_cost_def)
  next
    case (skip g n)
    then show ?thesis
      using cost [OF skip(1), of "Finished (StepResult n StepStatusSkipped)"] w [OF skip(1)] by (simp add: total_cost_def)
  next
    case (cancelled g n)
    then show ?thesis
      using cost [OF cancelled(1), of "Finished ((StepResult n StepStatusCanceled)\<lparr>r_Error := ''canceled''\<rparr>)"]
        w [OF cancelled(1)] by (simp add: total_cost_def)
  next
    case (start g n now p)
    then show ?thesis
      using cost [OF start(1), of "Starting p"] w [OF start(1)] by (simp add: total_cost_def set_phase_update_commute)
  next
    case (started g n p)
    then show ?thesis
      using cost [OF started(1), of Running] w [OF started(1)] by (simp add: total_cost_def set_phase_update_commute)
  next
    case (notified g n p cs)
    then show ?thesis
      using cost [OF notified(1), of "Launching cs"] by (simp add: total_cost_def set_phase_update_commute)
  next
    case (complete g n res)
    then show ?thesis using cost [OF complete(1), of "Finished res"] w [OF complete(1)] by (simp add: total_cost_def)
  next
    case (publish g n res)
    let ?s1 = "published_data su n res s"
    let ?ph = "Published (x_progress ?s1) (ready_children su n ?s1)"
    have "spawn_cost su (ready_children su n ?s1) \<le> spawn_cost su (children (xs_steps su) n)"
      by (intro spawn_cost_subseq) (simp add: ready_children_def)
    then show ?thesis
      using gos_cost_set_phase [of ?s1 g n "Finished res" su ?ph] publish w [OF publish(1)]
      by (simp add: total_cost_def publish_eq)
  next
    case (launch_child g n c cs)
    then show ?thesis using cost [OF launch_child(1), of "Launching cs"] by (simp add: total_cost_def)
  next
    case (exit g n)
    then show ?thesis using cost [OF exit(1), of Exited] by (simp add: total_cost_def)
  qed (simp_all add: total_cost_def)
qed

text \<open>An explicit bound on the number of transitions of a whole run.\<close>

definition step_budget :: "exec_setup \<Rightarrow> nat" where
  "step_budget su = 1 + spawn_cost su (map st_Name (xs_steps su))"

lemma total_cost_initial: "total_cost su (initial_state su) = step_budget su"
  by (simp add: total_cost_def step_budget_def initial_state_def Let_def gos_cost_def)

context step_runner begin

lemma fires_bounded:
  assumes ok: "setup_ok su"
  shows "wf_state su s \<Longrightarrow> fires run su es s = Some s' \<Longrightarrow> length es + total_cost su s' \<le> total_cost su s"
proof (induction es arbitrary: s)
  case (Cons e es)
  from Cons.prems(2) obtain s3 where s3: "fire run su e s = Some s3" "fires run su es s3 = Some s'"
    unfolding fires.simps bind_eq_Some_conv by blast
  from Cons.IH [OF fire_wf [OF ok Cons.prems(1) s3(1)] s3(2)] fire_decreases [OF ok Cons.prems(1) s3(1)]
  show ?case by simp
qed simp

text \<open>A state that is not finished can always move.\<close>

lemma fire_progress:
  assumes ok: "setup_ok su" and wf: "wf_state su s" and nq: "\<not> quiescent s"
  shows "\<exists>e s'. fire run su e s = Some s'"
proof (cases "x_main s")
  case (Cons st rest)
  then have "\<exists>s'. fire run su MainNext s = Some s'" by (simp add: main_next_def Let_def)
  then show ?thesis by blast
next
  case Nil
  with nq obtain g where g: "g < length (x_gos s)" "snd (x_gos s ! g) \<noteq> Exited"
    by (auto simp: quiescent_def list_all_length)
  show ?thesis
  proof (cases "\<exists>h < length (x_gos s). holding (snd (x_gos s ! h))")
    case True
    then obtain h where h: "h < length (x_gos s)" "holding (snd (x_gos s ! h))" by blast
    obtain n ph where nph: "x_gos s ! h = (n, ph)" by fastforce
    with h have go: "goroutine s h = Some (n, ph)" by (simp add: goroutine_Some)
    have n: "n \<in> set (xs_order su)" using wf_gos_goroutine go wf by (auto simp: wf_state_def)
    show ?thesis
    proof (cases ph)
      case Acquired
      then have "\<exists>s'. fire run su (Decide h 0) s = Some s'" using go by simp
      then show ?thesis by blast
    next
      case (Starting p)
      then have "\<exists>s'. fire run su (Notify h) s = Some s'" using go by simp
      then show ?thesis by blast
    next
      case Running
      from run_total setup_findStep(2) [OF ok n] obtain res where
        "run (findStep (xs_steps su) n) (pos (xs_order su) n) res" by blast
      then have "\<exists>s'. fire run su (Complete h res) s = Some s'" using go Running by simp
      then show ?thesis by blast
    next
      case (Finished res)
      then have "\<exists>s'. fire run su (Publish h) s = Some s'" using go by simp
      then show ?thesis by blast
    next
      case (Published p cs)
      then have "\<exists>s'. fire run su (Notify h) s = Some s'" using go by simp
      then show ?thesis by blast
    next
      case (Launching cs)
      then have "(\<exists>s'. fire run su (Launch h) s = Some s') \<or> (\<exists>s'. fire run su (Exit h) s = Some s')"
        using go by (cases cs) simp_all
      then show ?thesis by blast
    qed (use h nph in auto)
  next
    case False
    then have "\<not> holding (snd x)" if "x \<in> set (x_gos s)" for x
      using that by (metis in_set_conv_nth)
    then have none: "in_flight s = 0"
      by (simp add: in_flight_def filter_empty_conv)
    obtain n ph where nph: "x_gos s ! g = (n, ph)" by fastforce
    with g False have "ph = Waiting" by (auto simp: holding_def)
    then have "\<exists>s'. fire run su (Acquire g) s = Some s'"
      using nph g none by (simp add: goroutine_def maxParallelSteps_def)
    then show ?thesis by blast
  qed
qed

lemma runs_to_end:
  assumes ok: "setup_ok su" and wf: "wf_state su s"
  shows "\<exists>es s'. fires run su es s = Some s' \<and> quiescent s'"
  using wf
proof (induction "total_cost su s" arbitrary: s rule: less_induct)
  case less
  show ?case
  proof (cases "quiescent s")
    case True
    then have "fires run su [] s = Some s \<and> quiescent s" by simp
    then show ?thesis by blast
  next
    case False
    from fire_progress [OF ok less.prems False] obtain e s1 where e: "fire run su e s = Some s1" by blast
    from less.hyps [OF fire_decreases [OF ok less.prems e] fire_wf [OF ok less.prems e]]
    obtain es s' where "fires run su es s1 = Some s'" "quiescent s'" by blast
    with e have "fires run su (e # es) s = Some s' \<and> quiescent s'" by simp
    then show ?thesis by blast
  qed
qed

end

end
