(* ===== verification/ExecutorRefine.thy ===== *)
theory ExecutorRefine
  imports ExecutorLive
begin

text \<open>
  What a complete run of the executor computes. The specification is \<open>seqRun\<close>: the steps one
  after the other in dependency order, each one skipped unless all its dependencies succeeded.
  In an environment where each step has one outcome and nothing is cancelled, every
  interleaving ends with the statuses of the sequential run. The properties of the executor
  close the theory.
\<close>

section \<open>The sequential specification\<close>

definition seq_status :: "exec_setup \<Rightarrow> (step \<Rightarrow> step_status) \<Rightarrow> (string \<Rightarrow> step_status) \<Rightarrow> string \<Rightarrow> step_status" where
  "seq_status su out acc n =
     (case xs_carry su n of
        Some res \<Rightarrow> r_Status (carried_result n res)
      | None \<Rightarrow>
          if list_all (\<lambda>d. acc d = StepStatusSuccess) (deps (xs_steps su) n)
          then out (findStep (xs_steps su) n) else StepStatusSkipped)"

fun seqRun :: "exec_setup \<Rightarrow> (step \<Rightarrow> step_status) \<Rightarrow> string list \<Rightarrow> (string \<Rightarrow> step_status) \<Rightarrow> string \<Rightarrow> step_status" where
  "seqRun su out [] acc = acc"
| "seqRun su out (n # ns) acc = seqRun su out ns (acc(n := seq_status su out acc n))"

definition seq_ref :: "exec_setup \<Rightarrow> (step \<Rightarrow> step_status) \<Rightarrow> string \<Rightarrow> step_status" where
  "seq_ref su out = seqRun su out (xs_order su) (\<lambda>_. StepStatusUnset)"

lemma seqRun_append: "seqRun su out (xs @ ys) acc = seqRun su out ys (seqRun su out xs acc)"
  by (induction xs arbitrary: acc) simp_all

lemma seqRun_other: "n \<notin> set ns \<Longrightarrow> seqRun su out ns acc n = acc n"
  by (induction ns arbitrary: acc) simp_all

lemma seq_ref_eq:
  assumes ok: "setup_ok su" and n: "n \<in> set (xs_order su)"
  shows "seq_ref su out n = seq_status su out (seq_ref su out) n"
proof -
  let ?acc0 = "\<lambda>_. StepStatusUnset"
  obtain xs ys where order: "xs_order su = xs @ n # ys" using split_list [OF n] by blast
  note dist = setup_order(1) [OF ok] and p = setup_pos [OF ok]
  have notin: "n \<notin> set xs" "n \<notin> set ys" using dist order by auto
  have pn: "pos (xs_order su) n = length xs"
    using p(3) [of "length xs"] order by simp
  let ?acc = "seqRun su out xs ?acc0"
  have ref: "seq_ref su out = seqRun su out ys (?acc(n := seq_status su out ?acc n))"
    by (simp add: seq_ref_def order seqRun_append)
  have "seq_ref su out d = ?acc d" if d: "d \<in> set (deps (xs_steps su) n)" for d
  proof -
    have "pos (xs_order su) d < length xs" "d \<in> set (xs_order su)"
      using setup_dep_before [OF ok n d] pn by auto
    with p(2) [of d] order have "d \<in> set xs"
      by (metis nth_append nth_mem)
    with dist order have "d \<notin> set ys" "d \<noteq> n" by auto
    then show ?thesis by (simp add: ref seqRun_other)
  qed
  then have "seq_status su out (seq_ref su out) n = seq_status su out ?acc n"
    by (auto simp: seq_status_def list_all_iff split: option.splits)
  moreover have "seq_ref su out n = seq_status su out ?acc n"
    using notin by (simp add: ref seqRun_other)
  ultimately show ?thesis by simp
qed

section \<open>Deterministic steps\<close>

text \<open>Each step has one outcome, given by \<open>out\<close>.\<close>

locale deterministic_runner = step_runner +
  fixes out :: "step \<Rightarrow> step_status"
  assumes run_out: "0 \<le> st_Retry st \<Longrightarrow> run st i res \<Longrightarrow> r_Status res = out st"

text \<open>
  The model of \<^verbatim>\<open>runStep\<close> in a fixed environment: what the log file, the engine and the
  clock answer depends on the step only.
\<close>

record step_env_fixed =
  fx_openLog :: "string \<Rightarrow> string option"
  fx_obs :: "string \<Rightarrow> nat \<Rightarrow> observation"

definition runs_fixed ::
  "step_config \<Rightarrow> (string \<Rightarrow> string + string) \<Rightarrow> step_exec \<Rightarrow> step_env_fixed \<Rightarrow> step \<Rightarrow> nat \<Rightarrow> step_result \<Rightarrow> bool" where
  "runs_fixed sc readFile se fx step index res \<longleftrightarrow>
     res = fst (runStep sc readFile (fx_openLog fx (st_Name step)) (fx_obs fx (st_Name step)) 0 step se)"

definition fixed_out ::
  "step_config \<Rightarrow> (string \<Rightarrow> string + string) \<Rightarrow> step_exec \<Rightarrow> step_env_fixed \<Rightarrow> step \<Rightarrow> step_status" where
  "fixed_out sc readFile se fx step =
     r_Status (fst (runStep sc readFile (fx_openLog fx (st_Name step)) (fx_obs fx (st_Name step)) 0 step se))"

interpretation fixed: deterministic_runner "runs_fixed sc readFile se fx" "fixed_out sc readFile se fx"
  for sc readFile se fx
  by unfold_locales (auto simp: runs_fixed_def fixed_out_def runStep_result)

text \<open>A carried step has only carried dependencies, as after a retry.\<close>

definition carry_closed :: "exec_setup \<Rightarrow> bool" where
  "carry_closed su \<longleftrightarrow>
     (\<forall>n \<in> set (xs_order su). xs_carry su n \<noteq> None \<longrightarrow> (\<forall>d \<in> set (deps (xs_steps su) n). xs_carry su d \<noteq> None))"

fun phase_ref :: "exec_setup \<Rightarrow> (step \<Rightarrow> step_status) \<Rightarrow> string \<Rightarrow> phase \<Rightarrow> bool" where
  "phase_ref su out n (Starting p) \<longleftrightarrow> seq_ref su out n = out (findStep (xs_steps su) n)"
| "phase_ref su out n Running \<longleftrightarrow> seq_ref su out n = out (findStep (xs_steps su) n)"
| "phase_ref su out n (Finished res) \<longleftrightarrow> r_Status res = seq_ref su out n"
| "phase_ref su out n _ \<longleftrightarrow> True"

definition launchable :: "exec_setup \<Rightarrow> exec_state \<Rightarrow> string \<Rightarrow> bool" where
  "launchable su s n \<longleftrightarrow>
     xs_carry su n = None \<and> (\<forall>d \<in> set (deps (xs_steps su) n). status_of su s d \<noteq> StepStatusUnset)"

definition det_gos :: "exec_setup \<Rightarrow> (step \<Rightarrow> step_status) \<Rightarrow> exec_state \<Rightarrow> bool" where
  "det_gos su out s \<longleftrightarrow>
     (\<forall>x \<in> set (x_gos s). phase_ref su out (fst x) (snd x) \<and> launchable su s (fst x)
        \<and> (\<forall>c \<in> set (pending (snd x)). launchable su s c))"

definition det_data :: "exec_setup \<Rightarrow> (step \<Rightarrow> step_status) \<Rightarrow> exec_state \<Rightarrow> bool" where
  "det_data su out s \<longleftrightarrow>
     (\<forall>n \<in> set (xs_order su). status_of su s n \<noteq> StepStatusUnset \<longrightarrow> status_of su s n = seq_ref su out n)
     \<and> (x_failed s \<longleftrightarrow> (\<exists>n \<in> set (xs_order su). xs_carry su n = None \<and> status_of su s n = StepStatusFailed))
     \<and> (x_canceled s \<longleftrightarrow> (\<exists>n \<in> set (xs_order su). xs_carry su n = None \<and> status_of su s n = StepStatusCanceled))
     \<and> \<not> x_ctxDone s"

lemma launchable_cong [simp]:
  "launchable su (set_phase g ph s) = launchable su s" "launchable su (launch n s) = launchable su s"
  "launchable su (s\<lparr>x_progress := p\<rparr>) = launchable su s" "launchable su (s\<lparr>x_updates := u\<rparr>) = launchable su s"
  "launchable su (s\<lparr>x_main := m\<rparr>) = launchable su s"
  by (auto simp: launchable_def fun_eq_iff)

lemma det_data_cong [simp]:
  "det_data su out (set_phase g ph s) = det_data su out s" "det_data su out (launch n s) = det_data su out s"
  "det_data su out (s\<lparr>x_progress := p\<rparr>) = det_data su out s" "det_data su out (s\<lparr>x_updates := u\<rparr>) = det_data su out s"
  "det_data su out (s\<lparr>x_main := m\<rparr>) = det_data su out s"
  by (simp_all add: det_data_def)

lemma det_gos_cong [simp]:
  "det_gos su out (s\<lparr>x_progress := p\<rparr>) = det_gos su out s" "det_gos su out (s\<lparr>x_updates := u\<rparr>) = det_gos su out s"
  "det_gos su out (s\<lparr>x_main := m\<rparr>) = det_gos su out s"
  by (simp_all add: det_gos_def)

lemma det_gos_set_phase:
  assumes det: "det_gos su out s" and g: "goroutine s g = Some (n, ph0)" and ph: "phase_ref su out n ph"
    and pend: "\<And>c. c \<in> set (pending ph) \<Longrightarrow> launchable su s c"
  shows "det_gos su out (set_phase g ph s)"
  unfolding det_gos_def
proof
  fix x assume x: "x \<in> set (x_gos (set_phase g ph s))"
  have n: "launchable su s n" using det set_phase_gos(2) [OF g] by (force simp: det_gos_def)
  from set_phase_gos(4) [OF g x]
  show "phase_ref su out (fst x) (snd x) \<and> launchable su (set_phase g ph s) (fst x)
      \<and> (\<forall>c \<in> set (pending (snd x)). launchable su (set_phase g ph s) c)"
    using det ph pend n by (auto simp: det_gos_def)
qed

lemma det_gos_goroutine:
  assumes "det_gos su out s" "goroutine s g = Some (n, ph)"
  shows "phase_ref su out n ph" "launchable su s n" "c \<in> set (pending ph) \<Longrightarrow> launchable su s c"
  using assms(1) set_phase_gos(2) [OF assms(2)] by (force simp: det_gos_def)+

lemma det_gos_launch: "det_gos su out s \<Longrightarrow> launchable su s n \<Longrightarrow> det_gos su out (launch n s)"
  by (auto simp: det_gos_def)

text \<open>Which branch a step takes agrees with the reference once its dependencies are decided.\<close>

lemma can_start_ref:
  assumes ok: "setup_ok su" and d: "det_data su out s" and n: "n \<in> set (xs_order su)" and l: "launchable su s n"
  shows "seq_ref su out n = (if can_start su s n then out (findStep (xs_steps su) n) else StepStatusSkipped)"
proof -
  have "status_of su s x = seq_ref su out x" if "x \<in> set (deps (xs_steps su) n)" for x
    using d l that setup_dep_before(1) [OF ok n that] by (auto simp: det_data_def launchable_def)
  then show ?thesis
    using l by (simp add: seq_ref_eq [OF ok n] seq_status_def launchable_def can_start_def setup_deps [OF ok] list_all_iff)
qed

lemma det_publish:
  assumes ok: "setup_ok su" and cl: "carry_closed su" and wf: "wf_data su s" and d: "det_data su out s"
    and gos: "det_gos su out s" and wg: "wf_gos su s" and g: "goroutine s g = Some (n, Finished res)"
    and n: "n \<in> set (xs_order su)" and res: "r_Status res \<noteq> StepStatusUnset"
  shows "det_data su out (publish su g n res s) \<and> det_gos su out (publish su g n res s)"
proof
  let ?s1 = "published_data su n res s"
  note st = status_of_published [OF ok wf n]
  from det_gos_goroutine [OF gos g] have ref: "r_Status res = seq_ref su out n" and l: "launchable su s n" by auto
  have carry: "xs_carry su n = None" using l by (simp add: launchable_def)
  have same: "status_of su s n \<noteq> StepStatusUnset \<Longrightarrow> status_of su s n = r_Status res"
    using d n ref by (simp add: det_data_def)
  have flag: "(\<exists>m \<in> set (xs_order su). xs_carry su m = None \<and> status_of su ?s1 m = v)
      \<longleftrightarrow> (\<exists>m \<in> set (xs_order su). xs_carry su m = None \<and> status_of su s m = v) \<or> r_Status res = v"
    if "v \<noteq> StepStatusUnset" for v
  proof -
    have "status_of su ?s1 m = v \<longleftrightarrow> (if m = n then r_Status res = v else status_of su s m = v)"
      if "m \<in> set (xs_order su)" for m
      using st [OF that, of res] by simp
    with carry n same that show ?thesis by metis
  qed
  have "det_data su out ?s1"
    using d st ref flag by (auto simp: det_data_def)
  then show "det_data su out (publish su g n res s)" by (simp add: publish_eq)
  have mono: "launchable su ?s1 m" if "launchable su s m" "m \<in> set (xs_order su)" for m
    using that st setup_dep_before(1) [OF ok that(2)] res by (auto simp: launchable_def)
  have names: "fst x \<in> set (xs_order su)" "c \<in> set (pending (snd x)) \<Longrightarrow> c \<in> set (xs_order su)"
    if "x \<in> set (x_gos s)" for x c
  proof -
    show "fst x \<in> set (xs_order su)" using that wg by (auto simp: wf_gos_def)
    assume c: "c \<in> set (pending (snd x))"
    then have "subseq (pending (snd x)) (children (xs_steps su) (fst x))"
      using that wg by (cases "snd x") (auto simp: wf_gos_def)
    with c have "c \<in> set (children (xs_steps su) (fst x))" by (auto dest: list_emb_set)
    then show "c \<in> set (xs_order su)" using setup_child(1) [OF ok] by blast
  qed
  have ready: "launchable su ?s1 c" if "c \<in> set (ready_children su n ?s1)" for c
  proof -
    from that have c: "c \<in> set (children (xs_steps su) n)" and "all_done su ?s1 (depsByName (xs_steps su) c)"
      by (auto simp: ready_children_def)
    moreover have "xs_carry su c = None"
      using setup_child [OF ok c] carry cl unfolding carry_closed_def by metis
    ultimately show ?thesis
      by (simp add: launchable_def all_done_def list_all_iff setup_deps [OF ok])
  qed
  have "det_gos su out ?s1"
    using gos names mono by (auto simp: det_gos_def)
  with ready g show "det_gos su out (publish su g n res s)"
    unfolding publish_eq by (intro det_gos_set_phase [of su out ?s1 g n "Finished res"]) auto
qed

context deterministic_runner begin

lemma fire_det:
  assumes ok: "setup_ok su" and cl: "carry_closed su" and wf: "wf_state su s" and step: "fire run su e s = Some s'"
    and d: "det_data su out s" and gos: "det_gos su out s" and e: "e \<noteq> CancelCtx"
  shows "det_data su out s' \<and> det_gos su out s'"
proof -
  from wf have wg: "wf_gos su s" and wd: "wf_data su s" by (auto simp: wf_state_def)
  note move = det_gos_set_phase [OF gos] and at = det_gos_goroutine [OF gos]
    and ref = can_start_ref [OF ok d] and name = wf_gos_goroutine [OF wg]
  from step show ?thesis
  proof (cases rule: fire_cases)
    case (acquire g n)
    then show ?thesis using d by (auto intro: move [OF acquire(1)])
  next
    case (skip g n)
    then have "seq_ref su out n = StepStatusSkipped" using ref name at(2) by simp
    then show ?thesis using d skip by (auto intro: move [OF skip(1)])
  next
    case (cancelled g n)
    then show ?thesis using d by (simp add: det_data_def)
  next
    case (start g n now p)
    then have "seq_ref su out n = out (findStep (xs_steps su) n)" using ref name at(2) by simp
    then show ?thesis
      using start d by (auto simp: set_phase_update_commute intro: move [OF start(1)])
  next
    case (started g n p)
    then show ?thesis
      using d at(1) [OF started(1)] by (auto simp: set_phase_update_commute intro: move [OF started(1)])
  next
    case (notified g n p cs)
    then show ?thesis
      using d at(3) [OF notified(1)] by (auto simp: set_phase_update_commute intro: move [OF notified(1)])
  next
    case (complete g n res)
    have "r_Status res = out (findStep (xs_steps su) n)"
      using run_out [OF _ complete(2)] setup_findStep(2) [OF ok] name [OF complete(1)] by blast
    then show ?thesis
      using complete d at(1) [OF complete(1)] by (auto intro: move [OF complete(1)])
  next
    case (publish g n res)
    from name [OF publish(1)] show ?thesis
      unfolding publish(2)
      by (intro det_publish [OF ok cl wd d gos wg publish(1)]) (auto simp: finished_status_def)
  next
    case (launch_child g n c cs)
    then show ?thesis
      using d at(3) [OF launch_child(1)]
      by (auto intro!: det_gos_launch move [OF launch_child(1)])
  next
    case (exit g n)
    then show ?thesis using d by (auto intro: move [OF exit(1)])
  next
    case (main_pass st rest)
    then show ?thesis using d gos by simp
  next
    case (main_launch st rest)
    from wf main_launch(1) have "st \<in> set (xs_steps su)" by (auto simp: wf_state_def)
    then have "deps (xs_steps su) (st_Name st) = st_DependsOn st"
      using deps_in setup_order(4) [OF ok] by simp
    with main_launch have "launchable su s (st_Name st)"
      by (auto simp: launchable_def all_done_def list_all_iff)
    then show ?thesis using main_launch d gos by (auto intro!: det_gos_launch)
  next
    case cancel
    then show ?thesis using e by simp
  qed
qed

lemma fires_det:
  assumes ok: "setup_ok su" and cl: "carry_closed su"
  shows "wf_state su s \<Longrightarrow> det_data su out s \<Longrightarrow> det_gos su out s \<Longrightarrow> fires run su es s = Some s'
    \<Longrightarrow> CancelCtx \<notin> set es \<Longrightarrow> det_data su out s'"
proof (induction es arbitrary: s)
  case (Cons e es)
  from Cons.prems(4) obtain s1 where s1: "fire run su e s = Some s1" "fires run su es s1 = Some s'"
    unfolding fires.simps bind_eq_Some_conv by blast
  have "e \<noteq> CancelCtx" "CancelCtx \<notin> set es" using Cons.prems(5) by auto
  with fire_det [OF ok cl Cons.prems(1) s1(1) Cons.prems(2,3)] fire_wf [OF ok Cons.prems(1) s1(1)] s1(2)
  show ?case using Cons.IH by blast
qed simp

end

lemma det_initial:
  assumes ok: "setup_ok su"
  shows "det_data su out (initial_state su)" "det_gos su out (initial_state su)"
proof -
  have st: "status_of su (initial_state su) n = r_Status (initial_result su n)" if "n \<in> set (xs_order su)" for n
    using setup_pos(1,2) [OF ok that] by (simp add: status_of_def initial_state_def Let_def)
  have ref: "r_Status (initial_result su n) = (if xs_carry su n = None then StepStatusUnset else seq_ref su out n)"
    if "n \<in> set (xs_order su)" for n
    by (auto simp: initial_result_def seq_ref_eq [OF ok that] seq_status_def split: option.splits)
  show "det_data su out (initial_state su)"
    unfolding det_data_def using st ref by (auto simp: initial_state_def Let_def)
  show "det_gos su out (initial_state su)" by (simp add: det_gos_def initial_state_def Let_def)
qed

section \<open>What happened before\<close>

text \<open>\<open>d\<close> was published as a success within the events \<open>es\<close>, or was carried over as one.\<close>

definition succeeded_before ::
  "(step \<Rightarrow> nat \<Rightarrow> step_result \<Rightarrow> bool) \<Rightarrow> exec_setup \<Rightarrow> sched_event list \<Rightarrow> string \<Rightarrow> bool" where
  "succeeded_before run su es d \<longleftrightarrow>
     (\<exists>res. xs_carry su d = Some res \<and> r_Status (carried_result d res) = StepStatusSuccess)
     \<or> (\<exists>es1 g es2 s1 res. es = es1 @ Publish g # es2 \<and> fires run su es1 (initial_state su) = Some s1
          \<and> goroutine s1 g = Some (d, Finished res) \<and> r_Status res = StepStatusSuccess)"

lemma succeeded_before_append: "succeeded_before run su es d \<Longrightarrow> succeeded_before run su (es @ es') d"
  unfolding succeeded_before_def by (metis append.assoc append_Cons)

lemma fires_append:
  "fires run su (es @ es') s = Option.bind (fires run su es s) (fires run su es')"
proof (induction es arbitrary: s)
  case (Cons e es)
  then show ?case by (cases "fire run su e s") simp_all
qed simp

fun in_container :: "phase \<Rightarrow> bool" where
  "in_container (Starting p) \<longleftrightarrow> True"
| "in_container Running \<longleftrightarrow> True"
| "in_container _ \<longleftrightarrow> False"

definition history ::
  "(step \<Rightarrow> nat \<Rightarrow> step_result \<Rightarrow> bool) \<Rightarrow> exec_setup \<Rightarrow> sched_event list \<Rightarrow> exec_state \<Rightarrow> bool" where
  "history run su es s \<longleftrightarrow>
     (\<forall>n \<in> set (xs_order su). status_of su s n = StepStatusSuccess \<longrightarrow> succeeded_before run su es n)
     \<and> (\<forall>x \<in> set (x_gos s). in_container (snd x) \<longrightarrow>
          (\<forall>d \<in> set (deps (xs_steps su) (fst x)). succeeded_before run su es d))"

lemma history_step:
  assumes h: "history run su es s"
    and st: "\<And>n. n \<in> set (xs_order su) \<Longrightarrow> status_of su s' n = StepStatusSuccess \<Longrightarrow>
        status_of su s n = StepStatusSuccess \<or> succeeded_before run su (es @ [e]) n"
    and gos: "\<And>x. x \<in> set (x_gos s') \<Longrightarrow> in_container (snd x) \<Longrightarrow>
        x \<in> set (x_gos s) \<or> (\<exists>ph. (fst x, ph) \<in> set (x_gos s) \<and> in_container ph)
        \<or> (\<forall>d \<in> set (deps (xs_steps su) (fst x)). d \<in> set (xs_order su) \<and> status_of su s d = StepStatusSuccess)"
  shows "history run su (es @ [e]) s'"
proof -
  have old: "succeeded_before run su es n \<Longrightarrow> succeeded_before run su (es @ [e]) n" for n
    by (rule succeeded_before_append)
  have "succeeded_before run su (es @ [e]) n"
    if "n \<in> set (xs_order su)" "status_of su s' n = StepStatusSuccess" for n
    using st [OF that] h old that(1) unfolding history_def by blast
  moreover have "succeeded_before run su (es @ [e]) d"
    if x: "x \<in> set (x_gos s')" "in_container (snd x)" and d: "d \<in> set (deps (xs_steps su) (fst x))" for x d
    using gos [OF x] h old d x(2) unfolding history_def by fastforce
  ultimately show ?thesis unfolding history_def by blast
qed

lemma set_phase_container:
  assumes "goroutine s g = Some (n, ph0)" "x \<in> set (x_gos (set_phase g ph s))" "in_container (snd x)"
    "in_container ph \<Longrightarrow> in_container ph0"
  shows "x \<in> set (x_gos s) \<or> (\<exists>ph1. (fst x, ph1) \<in> set (x_gos s) \<and> in_container ph1)"
  using set_phase_gos(4) [OF assms(1,2)] set_phase_gos(2) [OF assms(1)] assms(3,4) by auto

lemma fire_history:
  assumes ok: "setup_ok su" and wf: "wf_state su s" and at: "fires run su es (initial_state su) = Some s"
    and step: "fire run su e s = Some s'" and h: "history run su es s"
  shows "history run su (es @ [e]) s'"
proof (rule history_step [OF h])
  from wf have wg: "wf_gos su s" and wd: "wf_data su s" by (auto simp: wf_state_def)
  note name = wf_gos_goroutine [OF wg]
  fix n assume n: "n \<in> set (xs_order su)" and s': "status_of su s' n = StepStatusSuccess"
  show "status_of su s n = StepStatusSuccess \<or> succeeded_before run su (es @ [e]) n"
    using step
  proof (cases rule: fire_cases)
    case (publish g m res)
    have "status_of su s' n = (if n = m then r_Status res else status_of su s n)"
      using status_of_published [OF ok wd _ n, of m res] name [OF publish(1)] by (simp add: publish publish_eq)
    with s' publish at show ?thesis
      unfolding succeeded_before_def by (metis append_Cons append_Nil)
  qed (use s' in \<open>simp_all add: set_phase_update_commute\<close>)
next
  from wf have wg: "wf_gos su s" by (auto simp: wf_state_def)
  note name = wf_gos_goroutine [OF wg]
  fix x assume x: "x \<in> set (x_gos s')" and c: "in_container (snd x)"
  note keep = set_phase_container [OF _ _ c, of s]
  show "x \<in> set (x_gos s) \<or> (\<exists>ph. (fst x, ph) \<in> set (x_gos s) \<and> in_container ph)
      \<or> (\<forall>d \<in> set (deps (xs_steps su) (fst x)). d \<in> set (xs_order su) \<and> status_of su s d = StepStatusSuccess)"
    using step
  proof (cases rule: fire_cases)
    case (acquire g n)
    from keep [OF acquire(1), of Acquired] x show ?thesis unfolding acquire(3) by auto
  next
    case (skip g n)
    from keep [OF skip(1), of "Finished (StepResult n StepStatusSkipped)"] x show ?thesis unfolding skip(3) by auto
  next
    case (cancelled g n)
    from keep [OF cancelled(1) x [unfolded cancelled(4)]] show ?thesis by auto
  next
    case (start g n now p)
    from name [OF start(1)] start(2) have "\<forall>d \<in> set (deps (xs_steps su) n). d \<in> set (xs_order su) \<and> status_of su s d = StepStatusSuccess"
      using setup_dep_before(1) [OF ok] by (auto simp: can_start_def setup_deps [OF ok])
    moreover have "x = (n, Starting p) \<or> x \<in> set (x_gos s)"
      using x set_phase_gos(4) [OF start(1)] unfolding start(5) by (simp add: set_phase_update_commute)
    ultimately show ?thesis by auto
  next
    case (started g n p)
    from keep [OF started(1), of Running] x show ?thesis unfolding started(2) by (auto simp: set_phase_update_commute)
  next
    case (notified g n p cs)
    from keep [OF notified(1), of "Launching cs"] x show ?thesis unfolding notified(2) by (auto simp: set_phase_update_commute)
  next
    case (complete g n res)
    from keep [OF complete(1) x [unfolded complete(3)]] show ?thesis by auto
  next
    case (publish g n res)
    have "goroutine (published_data su n res s) g = Some (n, Finished res)" using publish by simp
    from set_phase_container [OF this x [unfolded publish(2) publish_eq] c] show ?thesis by auto
  next
    case (launch_child g n k cs)
    from x c have "x \<in> set (x_gos (set_phase g (Launching cs) s))" unfolding launch_child(2) by auto
    from keep [OF launch_child(1) this] show ?thesis by auto
  next
    case (exit g n)
    from keep [OF exit(1) x [unfolded exit(2)]] show ?thesis by auto
  next
    case (main_launch st rest)
    then show ?thesis using x c by auto
  qed (use x in auto)
qed

context step_runner begin

lemma fires_history:
  assumes ok: "setup_ok su"
  shows "fires run su es (initial_state su) = Some s \<Longrightarrow> history run su es s"
proof (induction es arbitrary: s rule: rev_induct)
  case Nil
  have "status_of su (initial_state su) n = r_Status (initial_result su n)" if "n \<in> set (xs_order su)" for n
    using setup_pos(1,2) [OF ok that] by (simp add: status_of_def initial_state_def Let_def)
  with Nil show ?case
    by (auto simp: history_def succeeded_before_def initial_result_def initial_state_def Let_def split: option.splits)
next
  case (snoc e es)
  from snoc.prems obtain s1 where s1: "fires run su es (initial_state su) = Some s1" "fire run su e s1 = Some s"
    by (auto simp: fires_append bind_eq_Some_conv)
  with fire_history [OF ok fires_invariant(1) [OF ok s1(1)] s1] snoc.IH show ?case by blast
qed

end

section \<open>Decided results and flags\<close>

definition flags_ok :: "exec_setup \<Rightarrow> exec_state \<Rightarrow> bool" where
  "flags_ok su s \<longleftrightarrow>
     (\<forall>n \<in> set (xs_order su). xs_carry su n = None \<longrightarrow>
        (let st = status_of su s n
         in (st = StepStatusUnset \<or> finished_status st \<or> st = StepStatusSkipped)
            \<and> (st = StepStatusFailed \<longrightarrow> x_failed s) \<and> (st = StepStatusCanceled \<longrightarrow> x_canceled s)))"

lemma flags_ok_cong [simp]:
  "flags_ok su (set_phase g ph s) = flags_ok su s" "flags_ok su (launch n s) = flags_ok su s"
  "flags_ok su (s\<lparr>x_progress := p\<rparr>) = flags_ok su s" "flags_ok su (s\<lparr>x_updates := u\<rparr>) = flags_ok su s"
  "flags_ok su (s\<lparr>x_main := m\<rparr>) = flags_ok su s" "flags_ok su (s\<lparr>x_ctxDone := c\<rparr>) = flags_ok su s"
  by (simp_all add: flags_ok_def)

lemma fire_flags:
  assumes ok: "setup_ok su" and wf: "wf_state su s" and step: "fire run su e s = Some s'" and f: "flags_ok su s"
  shows "flags_ok su s'"
  using step
proof (cases rule: fire_cases)
  case (publish g n res)
  from wf have wg: "wf_gos su s" and wd: "wf_data su s" by (auto simp: wf_state_def)
  from wf_gos_goroutine [OF wg publish(1)] have n: "n \<in> set (xs_order su)"
    and res: "finished_status (r_Status res) \<or> r_Status res = StepStatusSkipped" by auto
  have "flags_ok su (published_data su n res s)"
    using f res unfolding flags_ok_def Let_def by (auto simp: status_of_published [OF ok wd n])
  then show ?thesis by (simp add: publish publish_eq)
qed (use f in \<open>simp_all add: set_phase_update_commute\<close>)

lemma flags_initial: "setup_ok su \<Longrightarrow> flags_ok su (initial_state su)"
proof -
  assume ok: "setup_ok su"
  have "status_of su (initial_state su) n = StepStatusUnset" if "n \<in> set (xs_order su)" "xs_carry su n = None" for n
    using setup_pos(1,2) [OF ok that(1)] that(2)
    by (simp add: status_of_def initial_state_def Let_def initial_result_def)
  then show ?thesis by (simp add: flags_ok_def Let_def)
qed

context step_runner begin

lemma fires_flags:
  assumes ok: "setup_ok su"
  shows "wf_state su s \<Longrightarrow> flags_ok su s \<Longrightarrow> fires run su es s = Some s' \<Longrightarrow> flags_ok su s'"
proof (induction es arbitrary: s)
  case (Cons e es)
  from Cons.prems(3) obtain s1 where s1: "fire run su e s = Some s1" "fires run su es s1 = Some s'"
    unfolding fires.simps bind_eq_Some_conv by blast
  from Cons.IH [OF fire_wf [OF ok Cons.prems(1) s1(1)] fire_flags [OF ok Cons.prems(1) s1(1) Cons.prems(2)] s1(2)]
  show ?case .
qed simp

lemma final_results:
  assumes ok: "setup_ok su" and run: "fires run su es (initial_state su) = Some s" and q: "quiescent s"
  shows "map r_Name (fst (outcome su s)) = xs_order su"
    "map r_Status (fst (outcome su s)) = map (status_of su s) (xs_order su)"
    "\<And>n. n \<in> set (xs_order su) \<Longrightarrow> status_of su s n \<noteq> StepStatusUnset"
    "flags_ok su s"
proof -
  from fires_invariant [OF ok run] have wd: "wf_data su s" and cov: "covered su s" by (auto simp: wf_state_def)
  show adone: "status_of su s n \<noteq> StepStatusUnset" if "n \<in> set (xs_order su)" for n
    using quiescent_complete [OF ok cov q that] .
  show "flags_ok su s" using fires_flags [OF ok wf_initial [OF ok] flags_initial [OF ok] run] .
  have at: "r_Status (x_results s ! pos (xs_order su) n) = status_of su s n" if "n \<in> set (xs_order su)" for n
    using wd setup_pos(1) [OF ok that] by (simp add: wf_data_def status_of_def)
  then show "map r_Status (fst (outcome su s)) = map (status_of su s) (xs_order su)"
    by (simp add: outcome_def)
  have "r_Name (x_results s ! pos (xs_order su) n) = n" if "n \<in> set (xs_order su)" for n
    using wd setup_pos(1,2) [OF ok that] at [OF that] adone [OF that] by (auto simp: wf_data_def)
  then show "map r_Name (fst (outcome su s)) = xs_order su"
    by (simp add: outcome_def map_idI)
qed

end

section \<open>Sample runs\<close>

definition sample_fx :: step_env_fixed where
  "sample_fx = \<lparr>fx_openLog = (\<lambda>_. None),
     fx_obs = (\<lambda>_ _. \<lparr>ob_Started = 1, ob_Finished = 2, ob_Code = 0, ob_Err = None, ob_CtxDone = False, ob_CtxAfter = False\<rparr>)\<rparr>"

abbreviation sample_run :: "step \<Rightarrow> nat \<Rightarrow> step_result \<Rightarrow> bool" where
  "sample_run \<equiv> runs_fixed sample_sc (\<lambda>_. Inl ''none'') sample_se sample_fx"

definition sample_setup :: "step list \<Rightarrow> exec_setup" where
  "sample_setup steps = \<lparr>xs_steps = steps, xs_order = map st_Name steps, xs_carry = (\<lambda>_. None), xs_timeout = minute\<rparr>"

definition sample_result :: "string \<Rightarrow> string list \<Rightarrow> step_result" where
  "sample_result n ds =
     fst (runStep sample_sc (\<lambda>_. Inl ''none'') None (fx_obs sample_fx n) 0 (sample_step n ds) sample_se)"

text \<open>One goroutine from its launch to the end of its container, and the rest of its life.\<close>

definition run_container :: "nat \<Rightarrow> step_result \<Rightarrow> sched_event list" where
  "run_container g res = [Acquire g, Decide g 0, Notify g, Complete g res, Publish g, Notify g]"

definition chain_steps :: "step list" where
  "chain_steps = [sample_step ''a'' [], sample_step ''b'' [''a'']]"

definition chain_events :: "sched_event list" where
  "chain_events = [MainNext, MainNext] @ run_container 0 (sample_result ''a'' []) @ [Launch 0, Exit 0]
     @ run_container 1 (sample_result ''b'' [''a'']) @ [Exit 1]"

definition race_events :: "sched_event list" where
  \<comment> \<open>the main loop looks at the second step only after the first one has been published\<close>
  "race_events = [MainNext] @ run_container 0 (sample_result ''a'' []) @ [Launch 0, Exit 0, MainNext]
     @ run_container 1 (sample_result ''b'' [''a'']) @ [Exit 1]
     @ run_container 2 (sample_result ''b'' [''a'']) @ [Exit 2]"

definition twice_steps :: "step list" where
  "twice_steps = [sample_step ''a'' [], sample_step ''b'' [''a'', ''a'']]"

definition twice_events :: "sched_event list" where
  "twice_events = [MainNext, MainNext] @ run_container 0 (sample_result ''a'' []) @ [Launch 0, Launch 0, Exit 0]
     @ run_container 1 (sample_result ''b'' [''a'', ''a'']) @ [Exit 1]
     @ run_container 2 (sample_result ''b'' [''a'', ''a'']) @ [Exit 2]"

lemma fires_mono:
  assumes "\<And>st i res. run st i res \<Longrightarrow> run' st i res"
  shows "fires run su es s = Some s' \<Longrightarrow> fires run' su es s = Some s'"
proof (induction es arbitrary: s)
  case (Cons e es)
  from Cons.prems obtain s1 where s1: "fire run su e s = Some s1" "fires run su es s1 = Some s'"
    unfolding fires.simps bind_eq_Some_conv by blast
  have "fire run' su e s = Some s1"
    using s1(1) assms by (cases e) (auto split: option.splits prod.splits phase.splits if_splits)
  with s1(2) Cons.IH show ?case by simp
qed simp

lemma runs_fixed_runs_step: "runs_fixed sc rf se fx st i res \<Longrightarrow> runs_step sc rf se st i res"
  by (auto simp: runs_fixed_def runs_step_def)

lemma fires_sample:
  "fires sample_run su es s = Some s' \<Longrightarrow> fires (runs_step sample_sc (\<lambda>_. Inl ''none'') sample_se) su es s = Some s'"
  by (rule fires_mono [OF runs_fixed_runs_step])

lemma chain_ok: "setup_ok (sample_setup chain_steps)"
  by code_simp

lemma twice_ok: "setup_ok (sample_setup twice_steps)"
  by code_simp

lemma chain_fires:
  "\<exists>s. fires sample_run (sample_setup chain_steps) chain_events (initial_state (sample_setup chain_steps)) = Some s
     \<and> quiescent s \<and> map r_Status (x_results s) = [StepStatusSuccess, StepStatusSuccess]"
proof -
  let ?r = "fires sample_run (sample_setup chain_steps) chain_events (initial_state (sample_setup chain_steps))"
  have "case ?r of None \<Rightarrow> False | Some s \<Rightarrow> quiescent s \<and> map r_Status (x_results s) = [StepStatusSuccess, StepStatusSuccess]"
    by code_simp
  then show ?thesis by (cases ?r) simp_all
qed

section \<open>Properties\<close>

text \<open>
  C8. At most eight steps of a workflow are in their container at any moment of any run.
\<close>

theorem executeSteps_parallelism:
  assumes "setup_ok su" "fires (runs_step sc readFile se) su es (initial_state su) = Some s"
  shows "length (filter (\<lambda>g. in_container (snd g)) (x_gos s)) \<le> maxParallelSteps"
proof -
  have "length (filter (\<lambda>g. in_container (snd g)) gs) \<le> length (filter (\<lambda>g. holding (snd g)) gs)"
    for gs :: "(string \<times> phase) list"
  proof (induction gs)
    case (Cons g gs)
    then show ?case by (cases "snd g") auto
  qed simp
  moreover have "in_flight s \<le> maxParallelSteps"
    using runner.fires_invariant(1) [OF assms] by (simp add: wf_state_def)
  ultimately show ?thesis unfolding in_flight_def using le_trans by blast
qed

theorem executeSteps_parallelism_witness:
  "\<exists>s. fires (runs_step sample_sc (\<lambda>_. Inl ''none'') sample_se) (sample_setup chain_steps) chain_events
         (initial_state (sample_setup chain_steps)) = Some s
     \<and> length (filter (\<lambda>g. in_container (snd g)) (x_gos s)) \<le> maxParallelSteps"
  using chain_fires fires_sample executeSteps_parallelism [OF chain_ok] by blast

text \<open>
  C7. A step's container starts only after every step it depends on has been published as a
  success, or was carried over as one from the previous attempt; this holds in every
  interleaving, with any timing of cancellation.
\<close>

theorem executeSteps_waits_for_dependencies:
  assumes "setup_ok su" "fires (runs_step sc readFile se) su es (initial_state su) = Some s"
    and "goroutine s g = Some (n, Running)" "d \<in> set (deps (xs_steps su) n)"
  shows "succeeded_before (runs_step sc readFile se) su es d"
proof -
  have "(n, Running) \<in> set (x_gos s)" using assms(3) nth_mem by (fastforce simp: goroutine_Some)
  with runner.fires_history [OF assms(1,2)] assms(4) show ?thesis
    unfolding history_def by fastforce
qed

definition half_events :: "sched_event list" where
  "half_events = [MainNext, MainNext] @ run_container 0 (sample_result ''a'' [])
     @ [Launch 0, Exit 0, Acquire 1, Decide 1 0, Notify 1]"

theorem executeSteps_waits_for_dependencies_witness:
  "\<exists>s. fires (runs_step sample_sc (\<lambda>_. Inl ''none'') sample_se) (sample_setup chain_steps) half_events
         (initial_state (sample_setup chain_steps)) = Some s \<and> goroutine s 1 = Some (''b'', Running)
     \<and> succeeded_before (runs_step sample_sc (\<lambda>_. Inl ''none'') sample_se) (sample_setup chain_steps) half_events ''a''"
proof -
  let ?r = "fires sample_run (sample_setup chain_steps) half_events (initial_state (sample_setup chain_steps))"
  have "case ?r of None \<Rightarrow> False | Some s \<Rightarrow> goroutine s 1 = Some (''b'', Running)" by code_simp
  then obtain s where s: "?r = Some s" "goroutine s 1 = Some (''b'', Running)" by (cases ?r) auto
  have "''a'' \<in> set (deps (xs_steps (sample_setup chain_steps)) ''b'')" by code_simp
  with executeSteps_waits_for_dependencies [OF chain_ok fires_sample [OF s(1)] s(2)] s fires_sample
  show ?thesis by blast
qed



text \<open>
  \<^verbatim>\<open>executeSteps\<close> always has a result. When the order cannot be computed it is the failed
  pseudo step; otherwise it lists every declared step once, in dependency order, each with a
  status, which is success, failed, skipped or cancelled unless the step was carried over, and the
  two flags are set whenever such a step failed or was cancelled.
\<close>

theorem executeSteps_results:
  assumes "distinct (map st_Name (cf_Steps cfg))" "\<forall>st \<in> set (cf_Steps cfg). 0 \<le> st_Retry st"
  shows "(\<exists>r. executeSteps (runs_step sc readFile se) errText timeout cfg carry r)
    \<and> (\<forall>results failed canceled.
         executeSteps (runs_step sc readFile se) errText timeout cfg carry (results, failed, canceled) \<longrightarrow>
         (case orderSteps (cf_Steps cfg) of
            Inl e \<Rightarrow> results = [(StepResult ''workflow'' StepStatusFailed)\<lparr>r_Error := errText e\<rparr>] \<and> failed \<and> \<not> canceled
          | Inr order \<Rightarrow>
              map r_Name results = order
              \<and> (\<forall>res \<in> set results. r_Status res \<noteq> StepStatusUnset
                   \<and> (carry (r_Name res) = None \<longrightarrow>
                        (finished_status (r_Status res) \<or> r_Status res = StepStatusSkipped)
                        \<and> (r_Status res = StepStatusFailed \<longrightarrow> failed)
                        \<and> (r_Status res = StepStatusCanceled \<longrightarrow> canceled)))))"
proof (cases "orderSteps (cf_Steps cfg)")
  case (Inl e)
  then show ?thesis by (auto elim!: executeSteps_cases intro: executeSteps.order_error)
next
  case (Inr order)
  let ?run = "runs_step sc readFile se"
  let ?su = "\<lparr>xs_steps = cf_Steps cfg, xs_order = order, xs_carry = carry, xs_timeout = timeout\<rparr>"
  have ok: "setup_ok ?su" using assms Inr by (simp add: setup_ok_def)
  obtain es s where "fires ?run ?su es (initial_state ?su) = Some s" "quiescent s"
    using runner.runs_to_end [OF ok wf_initial [OF ok]] by blast
  then have ex: "\<exists>r. executeSteps ?run errText timeout cfg carry r"
    using executeSteps.ran [OF Inr refl] by blast
  have "map r_Name results = order
      \<and> (\<forall>res \<in> set results. r_Status res \<noteq> StepStatusUnset
           \<and> (carry (r_Name res) = None \<longrightarrow>
                (finished_status (r_Status res) \<or> r_Status res = StepStatusSkipped)
                \<and> (r_Status res = StepStatusFailed \<longrightarrow> failed)
                \<and> (r_Status res = StepStatusCanceled \<longrightarrow> canceled)))"
    if r: "executeSteps ?run errText timeout cfg carry (results, failed, canceled)" for results failed canceled
  proof -
    from r Inr obtain es s where f: "fires ?run ?su es (initial_state ?su) = Some s" and q: "quiescent s"
      and out: "(results, failed, canceled) = outcome ?su s"
      by (auto elim!: executeSteps_cases)
    note fin = runner.final_results [OF ok f q]
    from out have res: "results = fst (outcome ?su s)" "failed = x_failed s" "canceled = x_canceled s"
      by (simp_all add: outcome_def)
    have "r_Status x \<noteq> StepStatusUnset \<and> (carry (r_Name x) = None \<longrightarrow>
        (finished_status (r_Status x) \<or> r_Status x = StepStatusSkipped)
        \<and> (r_Status x = StepStatusFailed \<longrightarrow> failed) \<and> (r_Status x = StepStatusCanceled \<longrightarrow> canceled))"
      if "x \<in> set results" for x
    proof -
      from that obtain i where i: "i < length results" "results ! i = x" by (auto simp: in_set_conv_nth)
      have len: "length results = length order" using arg_cong [OF fin(1), of length] res(1) by simp
      have name: "r_Name x = order ! i" and stat: "r_Status x = status_of ?su s (order ! i)"
        using arg_cong [OF fin(1), of "\<lambda>l. l ! i"] arg_cong [OF fin(2), of "\<lambda>l. l ! i"] i len res(1) by simp_all
      have mem: "order ! i \<in> set (xs_order ?su)" using i len by simp
      show ?thesis
        using fin(3) [OF mem] fin(4) mem name stat res(2,3) unfolding flags_ok_def Let_def by auto
    qed
    with fin(1) res(1) show ?thesis by simp
  qed
  with ex show ?thesis unfolding Inr sum.case by blast
qed

definition chain_config :: config where
  "chain_config = \<lparr>cf_Schema = [], cf_Name = ''ci'', cf_Image = ''golang'', cf_Env = [], cf_On = None, cf_Paths = [],
     cf_PathsIgnore = [], cf_Cache = [], cf_Concurrency = [], cf_Steps = chain_steps\<rparr>"

theorem executeSteps_results_witness:
  "\<exists>results failed canceled.
     executeSteps (runs_step sample_sc (\<lambda>_. Inl ''none'') sample_se) (\<lambda>_. ''error'') minute chain_config (\<lambda>_. None)
       (results, failed, canceled)
     \<and> map r_Name results = [''a'', ''b'']"
proof -
  have a: "distinct (map st_Name (cf_Steps chain_config))" "\<forall>st \<in> set (cf_Steps chain_config). 0 \<le> st_Retry st"
    "orderSteps (cf_Steps chain_config) = Inr [''a'', ''b'']"
    by code_simp+
  from executeSteps_results [OF a(1,2), of sample_sc "\<lambda>_. Inl ''none''" sample_se "\<lambda>_. ''error''" minute "\<lambda>_. None"] a(3)
  show ?thesis by fastforce
qed

text \<open>
  C1. Refinement: when every step has one outcome and the run is not cancelled, the final
  statuses are those of the sequential run in dependency order, whatever the interleaving, and
  the flags tell exactly whether a step that was not carried over failed or was cancelled.
\<close>

theorem executeSteps_sequential:
  assumes "setup_ok su" "carry_closed su"
    and "fires (runs_fixed sc readFile se fx) su es (initial_state su) = Some s" "quiescent s" "CancelCtx \<notin> set es"
  shows "map r_Status (fst (outcome su s))
           = map (seqRun su (fixed_out sc readFile se fx) (xs_order su) (\<lambda>_. StepStatusUnset)) (xs_order su)
    \<and> (fst (snd (outcome su s)) \<longleftrightarrow>
         (\<exists>n \<in> set (xs_order su). xs_carry su n = None
            \<and> seqRun su (fixed_out sc readFile se fx) (xs_order su) (\<lambda>_. StepStatusUnset) n = StepStatusFailed))
    \<and> (snd (snd (outcome su s)) \<longleftrightarrow>
         (\<exists>n \<in> set (xs_order su). xs_carry su n = None
            \<and> seqRun su (fixed_out sc readFile se fx) (xs_order su) (\<lambda>_. StepStatusUnset) n = StepStatusCanceled))"
proof -
  note fin = fixed.final_results [OF assms(1,3,4)]
  have d: "det_data su (fixed_out sc readFile se fx) s"
    using fixed.fires_det [OF assms(1,2) wf_initial [OF assms(1)] det_initial [OF assms(1)] assms(3,5)] .
  then have st: "status_of su s n = seqRun su (fixed_out sc readFile se fx) (xs_order su) (\<lambda>_. StepStatusUnset) n"
    if "n \<in> set (xs_order su)" for n
    using fin(3) [OF that] that by (simp add: det_data_def seq_ref_def)
  with fin(2) d show ?thesis by (auto simp: det_data_def outcome_def)
qed

theorem executeSteps_sequential_witness:
  "\<exists>s. fires sample_run (sample_setup chain_steps) chain_events (initial_state (sample_setup chain_steps)) = Some s
     \<and> map r_Status (fst (outcome (sample_setup chain_steps) s)) = [StepStatusSuccess, StepStatusSuccess]"
proof -
  from chain_fires obtain s where s:
    "fires sample_run (sample_setup chain_steps) chain_events (initial_state (sample_setup chain_steps)) = Some s" "quiescent s"
    by blast
  have c: "carry_closed (sample_setup chain_steps)" by (simp add: carry_closed_def sample_setup_def)
  have e: "CancelCtx \<notin> set chain_events" by (simp add: chain_events_def run_container_def)
  have "map (seqRun (sample_setup chain_steps) (fixed_out sample_sc (\<lambda>_. Inl ''none'') sample_se sample_fx)
      (xs_order (sample_setup chain_steps)) (\<lambda>_. StepStatusUnset)) (xs_order (sample_setup chain_steps))
      = [StepStatusSuccess, StepStatusSuccess]" by code_simp
  with executeSteps_sequential [OF chain_ok c s e] s(1) show ?thesis by auto
qed

text \<open>
  A step that names a dependency twice is launched once per mention: here the recorded
  status of \<open>b\<close> goes through running and success two times, so its container, its log and its
  artifacts are produced twice.
\<close>

theorem executeSteps_duplicate_dependency:
  "\<exists>es s. fires (runs_step sample_sc (\<lambda>_. Inl ''none'') sample_se) (sample_setup twice_steps) es
         (initial_state (sample_setup twice_steps)) = Some s
     \<and> quiescent s \<and> map fst (x_gos s) = [''a'', ''b'', ''b'']
     \<and> map (\<lambda>p. r_Status (p ! 1)) (x_updates s)
       = [StepStatusPending, StepStatusPending, StepStatusPending, StepStatusRunning, StepStatusSuccess,
          StepStatusRunning, StepStatusSuccess]"
proof -
  let ?r = "fires sample_run (sample_setup twice_steps) twice_events (initial_state (sample_setup twice_steps))"
  have "case ?r of None \<Rightarrow> False | Some s \<Rightarrow> quiescent s \<and> map fst (x_gos s) = [''a'', ''b'', ''b'']
      \<and> map (\<lambda>p. r_Status (p ! 1)) (x_updates s)
        = [StepStatusPending, StepStatusPending, StepStatusPending, StepStatusRunning, StepStatusSuccess,
           StepStatusRunning, StepStatusSuccess]"
    by code_simp
  then obtain s where s: "?r = Some s" and q: "quiescent s" and g: "map fst (x_gos s) = [''a'', ''b'', ''b'']"
    and u: "map (\<lambda>p. r_Status (p ! 1)) (x_updates s)
        = [StepStatusPending, StepStatusPending, StepStatusPending, StepStatusRunning, StepStatusSuccess,
           StepStatusRunning, StepStatusSuccess]"
    by (cases ?r) (simp_all only: option.case)
  show ?thesis by (intro exI conjI) (rule fires_sample [OF s], rule q, rule g, rule u)
qed

text \<open>
  The loop that launches the first steps reads the statuses while goroutines already run: if
  \<open>a\<close> finishes before the loop reaches its child \<open>b\<close>, both the goroutine of \<open>a\<close> and the loop launch
  \<open>b\<close>, which then runs twice although no name is repeated.
\<close>

theorem executeSteps_launch_race:
  "\<exists>es s. fires (runs_step sample_sc (\<lambda>_. Inl ''none'') sample_se) (sample_setup chain_steps) es
         (initial_state (sample_setup chain_steps)) = Some s
     \<and> quiescent s \<and> map fst (x_gos s) = [''a'', ''b'', ''b'']
     \<and> map (\<lambda>p. r_Status (p ! 1)) (x_updates s)
       = [StepStatusPending, StepStatusPending, StepStatusPending, StepStatusRunning, StepStatusSuccess,
          StepStatusRunning, StepStatusSuccess]"
proof -
  let ?r = "fires sample_run (sample_setup chain_steps) race_events (initial_state (sample_setup chain_steps))"
  have "case ?r of None \<Rightarrow> False | Some s \<Rightarrow> quiescent s \<and> map fst (x_gos s) = [''a'', ''b'', ''b'']
      \<and> map (\<lambda>p. r_Status (p ! 1)) (x_updates s)
        = [StepStatusPending, StepStatusPending, StepStatusPending, StepStatusRunning, StepStatusSuccess,
           StepStatusRunning, StepStatusSuccess]"
    by code_simp
  then obtain s where s: "?r = Some s" and q: "quiescent s" and g: "map fst (x_gos s) = [''a'', ''b'', ''b'']"
    and u: "map (\<lambda>p. r_Status (p ! 1)) (x_updates s)
        = [StepStatusPending, StepStatusPending, StepStatusPending, StepStatusRunning, StepStatusSuccess,
           StepStatusRunning, StepStatusSuccess]"
    by (cases ?r) (simp_all only: option.case)
  show ?thesis by (intro exI conjI) (rule fires_sample [OF s], rule q, rule g, rule u)
qed

end
