(* ===== verification/Secrets.thy ===== *)
theory Secrets
  imports Prelude
begin

text \<open>
  Encryption of stored values: \<^verbatim>\<open>internal/secrets/secrets.go\<close> and the helpers
  \<^verbatim>\<open>encrypt\<close> and \<^verbatim>\<open>decrypt\<close> of \<^verbatim>\<open>internal/stores/store.go\<close>. Base64 and hex
  are modelled on byte strings; AES-GCM is the record \<open>aead\<close> of its two operations, with the law
  \<open>aead_ok\<close> that opening a sealed text gives it back. The random nonce is part of the sealing
  function, so the lemmas hold for each choice of it.
\<close>

section \<open>Base64 and hex\<close>

abbreviation byte :: "char \<Rightarrow> nat" where "byte c \<equiv> of_char c"

definition b64_char :: "nat \<Rightarrow> char" where
  "b64_char n =
     (if n < 26 then char_of (65 + n)
      else if n < 52 then char_of (71 + n)
      else if n < 62 then char_of (n - 4)
      else if n = 62 then CHR ''+'' else CHR ''/'')"

definition b64_val :: "char \<Rightarrow> nat option" where
  "b64_val c =
     (let k = byte c
      in if 65 \<le> k \<and> k \<le> 90 then Some (k - 65)
         else if 97 \<le> k \<and> k \<le> 122 then Some (k - 71)
         else if 48 \<le> k \<and> k \<le> 57 then Some (k + 4)
         else if c = CHR ''+'' then Some 62
         else if c = CHR ''/'' then Some 63 else None)"

fun EncodeToString :: "string \<Rightarrow> string" where
  "EncodeToString [] = []"
| "EncodeToString [a] = [b64_char (byte a div 4), b64_char ((byte a mod 4) * 16), CHR ''='', CHR ''='']"
| "EncodeToString [a, b] =
     [b64_char (byte a div 4), b64_char ((byte a mod 4) * 16 + byte b div 16),
      b64_char ((byte b mod 16) * 4), CHR ''='']"
| "EncodeToString (a # b # c # s) =
     b64_char (byte a div 4) # b64_char ((byte a mod 4) * 16 + byte b div 16)
     # b64_char ((byte b mod 16) * 4 + byte c div 64) # b64_char (byte c mod 64) # EncodeToString s"

text \<open>The decoder, after the line breaks that Go ignores have been dropped.\<close>

fun decode_quanta :: "string \<Rightarrow> string option" where
  "decode_quanta [] = Some []"
| "decode_quanta (a # b # c # d # s) =
     (case (b64_val a, b64_val b) of
        (Some x, Some y) \<Rightarrow>
          if c = CHR ''='' then
            (if d = CHR ''='' \<and> s = [] then Some [char_of (x * 4 + y div 16)] else None)
          else (case b64_val c of
                  None \<Rightarrow> None
                | Some z \<Rightarrow>
                    if d = CHR ''='' then
                      (if s = [] then Some [char_of (x * 4 + y div 16), char_of ((y mod 16) * 16 + z div 4)] else None)
                    else (case (b64_val d, decode_quanta s) of
                            (Some w, Some rest) \<Rightarrow>
                              Some (char_of (x * 4 + y div 16) # char_of ((y mod 16) * 16 + z div 4)
                                    # char_of ((z mod 4) * 64 + w) # rest)
                          | _ \<Rightarrow> None))
      | _ \<Rightarrow> None)"
| "decode_quanta _ = None"

definition DecodeString :: "string \<Rightarrow> string option" where
  "DecodeString s = decode_quanta (filter (\<lambda>c. c \<noteq> CHR 0x0A \<and> c \<noteq> CHR 0x0D) s)"

definition hex_val :: "char \<Rightarrow> nat option" where
  "hex_val c =
     (let k = byte c
      in if 48 \<le> k \<and> k \<le> 57 then Some (k - 48)
         else if 97 \<le> k \<and> k \<le> 102 then Some (k - 87)
         else if 65 \<le> k \<and> k \<le> 70 then Some (k - 55) else None)"

fun hex_DecodeString :: "string \<Rightarrow> string option" where
  "hex_DecodeString [] = Some []"
| "hex_DecodeString (a # b # s) =
     (case (hex_val a, hex_val b, hex_DecodeString s) of
        (Some x, Some y, Some rest) \<Rightarrow> Some (char_of (x * 16 + y) # rest)
      | _ \<Rightarrow> None)"
| "hex_DecodeString _ = None"

section \<open>The cipher\<close>

record aead =
  ae_Seal :: "string \<Rightarrow> string"
  ae_Open :: "string \<Rightarrow> string option"

definition aead_ok :: "aead \<Rightarrow> bool" where
  "aead_ok c \<longleftrightarrow> (\<forall>p. ae_Open c (ae_Seal c p) = Some p)"

definition enc_prefix :: string where "enc_prefix = ''enc:v1:''"

text \<open>\<open>gcm\<close> builds the AEAD from a 32 byte key (\<^verbatim>\<open>aes.NewCipher\<close>, \<^verbatim>\<open>cipher.NewGCMWithRandomNonce\<close>).\<close>

definition secrets_New :: "(string \<Rightarrow> string + aead) \<Rightarrow> string \<Rightarrow> string + aead" where
  "secrets_New gcm key =
     (let bad = Inl ''secret key must be 32 bytes (hex or base64)''
      in case hex_DecodeString key of
           Some k \<Rightarrow>
             if length k = 32 then gcm k
             else (case DecodeString key of
                     Some k \<Rightarrow> if length k = 32 then gcm k else bad
                   | None \<Rightarrow> bad)
         | None \<Rightarrow>
             (case DecodeString key of
                Some k \<Rightarrow> if length k = 32 then gcm k else bad
              | None \<Rightarrow> bad))"

definition Encrypt :: "aead \<Rightarrow> string \<Rightarrow> string + string" where
  "Encrypt c plaintext =
     (if plaintext = [] then Inr [] else Inr (enc_prefix @ EncodeToString (ae_Seal c plaintext)))"

definition Decrypt :: "aead \<Rightarrow> string \<Rightarrow> string + string" where
  "Decrypt c stored =
     (if \<not> HasPrefix stored enc_prefix then Inr stored
      else (case DecodeString (TrimPrefix stored enc_prefix) of
              None \<Rightarrow> Inl ''illegal base64 data''
            | Some data \<Rightarrow>
                (case ae_Open c data of
                   None \<Rightarrow> Inl ''message authentication failed''
                 | Some pt \<Rightarrow> Inr pt)))"

definition encrypt :: "aead option \<Rightarrow> string \<Rightarrow> string" where
  "encrypt cipher value =
     (case cipher of
        None \<Rightarrow> value
      | Some c \<Rightarrow>
          if value = [] then value
          else (case Encrypt c value of Inr encrypted \<Rightarrow> encrypted | Inl _ \<Rightarrow> value))"

definition decrypt :: "aead option \<Rightarrow> string \<Rightarrow> string" where
  "decrypt cipher value =
     (case cipher of
        None \<Rightarrow> value
      | Some c \<Rightarrow>
          if value = [] then value
          else (case Decrypt c value of Inr decrypted \<Rightarrow> decrypted | Inl _ \<Rightarrow> []))"

definition cipher_ok :: "aead option \<Rightarrow> bool" where
  "cipher_ok cipher \<longleftrightarrow> (case cipher of None \<Rightarrow> True | Some c \<Rightarrow> aead_ok c)"

section \<open>Round trips\<close>

lemma byte_less: "byte c < 256"
  by (cases c) simp

lemma b64_val_char [simp]: "n < 64 \<Longrightarrow> b64_val (b64_char n) = Some n"
proof -
  assume n: "n < 64"
  have dec: "m < 256 \<Longrightarrow> byte (char_of m) = m" for m :: nat by (simp add: of_char_of)
  consider "n < 26" | "26 \<le> n" "n < 52" | "52 \<le> n" "n < 62" | "n = 62" | "n = 63"
    using n by linarith
  then show ?thesis
  proof cases
    case 1
    then show ?thesis using dec [of "65 + n"] by (simp add: b64_char_def b64_val_def)
  next
    case 2
    then show ?thesis using dec [of "71 + n"] by (simp add: b64_char_def b64_val_def)
  next
    case 3
    then have "n - 4 < 256" "48 \<le> n - 4" "n - 4 \<le> 57" by auto
    with 3 show ?thesis using dec [of "n - 4"] by (simp add: b64_char_def b64_val_def Let_def)
  qed (simp_all add: b64_char_def b64_val_def)
qed

lemma b64_char_special: "n < 64 \<Longrightarrow> b64_char n \<noteq> CHR ''='' \<and> b64_char n \<noteq> CHR 0x0A \<and> b64_char n \<noteq> CHR 0x0D"
proof -
  assume n: "n < 64"
  have "b64_val (CHR ''='') = None" "b64_val (CHR 0x0A) = None" "b64_val (CHR 0x0D) = None"
    by (simp_all add: b64_val_def)
  with b64_val_char [OF n] show ?thesis by (metis option.distinct(1))
qed

lemma char_of_byte [simp]: "char_of (byte c) = c"
  by simp

lemma six_bits:
  fixes a b c :: nat
  assumes "a < 256" "b < 256" "c < 256"
  shows "a div 4 < 64" "(a mod 4) * 16 < 64" "(a mod 4) * 16 + b div 16 < 64" "(b mod 16) * 4 < 64"
    "(b mod 16) * 4 + c div 64 < 64" "c mod 64 < 64"
  using assms by (simp_all add: less_mult_imp_div_less)

lemma six_bits_back:
  fixes a b c :: nat
  assumes "a < 256" "b < 256" "c < 256"
  shows "a div 4 * 4 + (a mod 4) * 16 div 16 = a"
    "a div 4 * 4 + ((a mod 4) * 16 + b div 16) div 16 = a"
    "((a mod 4) * 16 + b div 16) mod 16 * 16 + (b mod 16) * 4 div 4 = b"
    "((a mod 4) * 16 + b div 16) mod 16 * 16 + ((b mod 16) * 4 + c div 64) div 4 = b"
    "((b mod 16) * 4 + c div 64) mod 4 * 64 + c mod 64 = c"
proof -
  show "a div 4 * 4 + (a mod 4) * 16 div 16 = a" by simp
  show "a div 4 * 4 + ((a mod 4) * 16 + b div 16) div 16 = a"
    using assms by (simp add: less_mult_imp_div_less)
  have b16: "((a mod 4) * 16 + b div 16) mod 16 = b div 16"
    using assms by (simp add: less_mult_imp_div_less)
  then show "((a mod 4) * 16 + b div 16) mod 16 * 16 + (b mod 16) * 4 div 4 = b" by simp
  show "((a mod 4) * 16 + b div 16) mod 16 * 16 + ((b mod 16) * 4 + c div 64) div 4 = b"
    unfolding b16 using assms by (simp add: less_mult_imp_div_less)
  have "((b mod 16) * 4 + c div 64) mod 4 = c div 64"
    using assms by (simp add: less_mult_imp_div_less)
  then show "((b mod 16) * 4 + c div 64) mod 4 * 64 + c mod 64 = c" by simp
qed

lemma decode_quanta_Encode: "decode_quanta (EncodeToString s) = Some s"
proof (induction s rule: EncodeToString.induct)
  case (2 a)
  note b = six_bits [OF byte_less [of a] byte_less [of a] byte_less [of a]]
    and bk = six_bits_back [OF byte_less [of a] byte_less [of a] byte_less [of a]]
  show ?case using b(1,2) bk(1) by simp
next
  case (3 a b)
  note sb = six_bits [OF byte_less [of a] byte_less [of b] byte_less [of b]]
    and bk = six_bits_back [OF byte_less [of a] byte_less [of b] byte_less [of b]]
  show ?case using sb(1,3,4) bk(2,3) b64_char_special [OF sb(4)] by simp
next
  case (4 a b c s)
  note sb = six_bits [OF byte_less [of a] byte_less [of b] byte_less [of c]]
    and bk = six_bits_back [OF byte_less [of a] byte_less [of b] byte_less [of c]]
  show ?case
    using "4.IH" sb(1,3,5,6) bk(2,4,5) b64_char_special [OF sb(5)] b64_char_special [OF sb(6)] by simp
qed simp

lemma Encode_no_breaks: "c \<in> set (EncodeToString s) \<Longrightarrow> c \<noteq> CHR 0x0A \<and> c \<noteq> CHR 0x0D"
proof (induction s rule: EncodeToString.induct)
  case (2 a)
  note b = six_bits [OF byte_less [of a] byte_less [of a] byte_less [of a]]
  show ?case using 2 b64_char_special [OF b(1)] b64_char_special [OF b(2)] by auto
next
  case (3 a b)
  note sb = six_bits [OF byte_less [of a] byte_less [of b] byte_less [of b]]
  show ?case
    using 3 b64_char_special [OF sb(1)] b64_char_special [OF sb(3)] b64_char_special [OF sb(4)] by auto
next
  case (4 a b c s)
  note sb = six_bits [OF byte_less [of a] byte_less [of b] byte_less [of c]]
  show ?case
    using 4 b64_char_special [OF sb(1)] b64_char_special [OF sb(3)] b64_char_special [OF sb(5)]
      b64_char_special [OF sb(6)] by auto
qed simp

lemma DecodeString_Encode [simp]: "DecodeString (EncodeToString s) = Some s"
proof -
  have "filter (\<lambda>c. c \<noteq> CHR 0x0A \<and> c \<noteq> CHR 0x0D) (EncodeToString s) = EncodeToString s"
    using Encode_no_breaks by (intro filter_True) blast
  then show ?thesis by (simp add: DecodeString_def decode_quanta_Encode)
qed

lemma Decrypt_Encrypt:
  assumes "aead_ok c" "Encrypt c p = Inr ct"
  shows "Decrypt c ct = Inr p"
proof (cases "p = []")
  case True
  with assms(2) show ?thesis by (simp add: Encrypt_def Decrypt_def HasPrefix_def enc_prefix_def)
next
  case False
  with assms(2) have "ct = enc_prefix @ EncodeToString (ae_Seal c p)" by (simp add: Encrypt_def)
  with assms(1) show ?thesis by (simp add: Decrypt_def HasPrefix_def TrimPrefix_def aead_ok_def)
qed

lemma decrypt_encrypt [simp]: "cipher_ok cipher \<Longrightarrow> decrypt cipher (encrypt cipher v) = v"
proof (cases cipher)
  case (Some c)
  assume "cipher_ok cipher"
  with Some have ok: "aead_ok c" by (simp add: cipher_ok_def)
  show ?thesis
  proof (cases "v = []")
    case False
    then obtain ct where ct: "Encrypt c v = Inr ct" "ct \<noteq> []"
      by (auto simp: Encrypt_def enc_prefix_def)
    with Some False Decrypt_Encrypt [OF ok ct(1)] show ?thesis
      by (simp add: encrypt_def decrypt_def)
  qed (simp add: Some encrypt_def decrypt_def)
qed (simp add: encrypt_def decrypt_def)

lemma encrypt_Nil [simp]: "encrypt cipher [] = []"
  by (simp add: encrypt_def split: option.splits)

lemma encrypt_Nil_iff [simp]: "encrypt cipher v = [] \<longleftrightarrow> v = []"
  by (simp add: encrypt_def Encrypt_def enc_prefix_def split: option.splits)

section \<open>Properties\<close>

text \<open>
  C12. A value encrypted for the database reads back unchanged, with and without a configured key;
  with a key, what is stored of a non-empty value starts with the version prefix, and values
  stored before the key existed are still readable.
\<close>

theorem encrypt_roundtrip:
  assumes "cipher_ok cipher"
  shows "decrypt cipher (encrypt cipher value) = value
    \<and> (\<forall>c. cipher = Some c \<longrightarrow> value \<noteq> [] \<longrightarrow> HasPrefix (encrypt cipher value) ''enc:v1:'')
    \<and> (\<not> HasPrefix value ''enc:v1:'' \<longrightarrow> decrypt cipher value = value)"
proof (intro conjI allI impI)
  show "decrypt cipher (encrypt cipher value) = value" using assms by simp
  show "HasPrefix (encrypt cipher value) ''enc:v1:''" if "cipher = Some c" "value \<noteq> []" for c
    using that by (simp add: encrypt_def Encrypt_def HasPrefix_def enc_prefix_def)
  show "decrypt cipher value = value" if "\<not> HasPrefix value ''enc:v1:''"
    using that by (simp add: decrypt_def Decrypt_def enc_prefix_def split: option.splits)
qed

definition sample_aead :: aead where
  "sample_aead = \<lparr>ae_Seal = (\<lambda>p. rev p @ ''tag''), ae_Open = (\<lambda>d. Some (rev (take (length d - 3) d)))\<rparr>"

lemma sample_aead_ok: "aead_ok sample_aead"
  by (simp add: aead_ok_def sample_aead_def)

theorem encrypt_roundtrip_witness:
  "decrypt (Some sample_aead) (encrypt (Some sample_aead) ''hunter2'') = ''hunter2''
   \<and> encrypt (Some sample_aead) ''hunter2'' = ''enc:v1:MnJldG51aHRhZw==''"
proof -
  have "cipher_ok (Some sample_aead)" by (simp add: cipher_ok_def sample_aead_ok)
  from encrypt_roundtrip [OF this, of "''hunter2''"]
  have "decrypt (Some sample_aead) (encrypt (Some sample_aead) ''hunter2'') = ''hunter2''" by simp
  moreover have "encrypt (Some sample_aead) ''hunter2'' = ''enc:v1:MnJldG51aHRhZw==''" by code_simp
  ultimately show ?thesis by blast
qed

end
