(* ===== verification/Database.thy ===== *)
theory Database
  imports Models Secrets "HOL-Library.Char_ord" "HOL-Library.List_Lexorder" "HOL-Library.Product_Lexorder"
begin

text \<open>
  The SQLite database of \<^verbatim>\<open>internal/stores\<close> after all migrations: one record per table row and
  the record \<open>db\<close> of the tables, each the list of its rows in insertion order. Timestamps are
  Unix milliseconds, \<open>None\<close> is NULL, booleans are 0 and 1; a UUID column holds the UUID itself, since
  \<^verbatim>\<open>uuid.Parse\<close> inverts \<^verbatim>\<open>UUID.String\<close>. An operation maps a database to a result and the
  next database; a statement that violates a constraint and a transaction that fails change nothing.

  \<open>db_ok\<close> collects the constraints of the schema: primary keys, unique indexes, foreign keys and
  checks. Every operation of the store theories preserves it.
\<close>

section \<open>Rows\<close>

record project_row =
  pw_id :: uuid
  pw_name :: string
  pw_repo_url :: string
  pw_provider :: provider
  pw_auth_type :: auth_type
  pw_auth_user :: string
  pw_auth_secret :: string
  pw_webhook_secret :: string
  pw_default_branch :: string
  pw_created_at :: int
  pw_updated_at :: int
  pw_execution_seq :: int

record variable_row =
  vw_project_id :: "uuid option"
  vw_key :: string
  vw_value :: string
  vw_secret :: int

record execution_row =
  ew_project_id :: uuid
  ew_id :: int
  ew_execution_id :: "int option"
  ew_attempt :: int
  ew_workflow :: string
  ew_ref :: string
  ew_commit_sha :: string
  ew_status :: status
  ew_trigger :: trigger
  ew_steps_json :: "step_result list"
  ew_error :: string
  ew_started_at :: "int option"
  ew_setup_finished_at :: "int option"
  ew_finished_at :: "int option"
  ew_created_at :: int
  ew_claimed_by :: string
  ew_cancel_requested :: int
  ew_concurrency_group :: string
  ew_source :: source
  ew_snapshot_id :: "uuid option"
  ew_parent_id :: "int option"
  ew_workspace_id :: "int option"
  ew_created_by :: "uuid option"
  ew_check_run_id :: int

record schedule_row =
  cw_project_id :: uuid
  cw_workflow :: string
  cw_cron_expr :: string
  cw_next_run_at :: int

record user_row =
  uw_id :: uuid
  uw_provider :: string
  uw_provider_user_id :: string
  uw_login :: string
  uw_name :: string
  uw_avatar_url :: string
  uw_oauth_token :: string
  uw_oauth_refresh_token :: string
  uw_oauth_token_expires_at :: "int option"
  uw_created_at :: int
  uw_last_login_at :: int
  uw_last_org_check_at :: "int option"
  uw_disabled_at :: "int option"

record session_row =
  sw_id :: string
  sw_user_id :: uuid
  sw_csrf_token :: string
  sw_created_at :: int
  sw_last_seen_at :: int
  sw_expires_at :: int
  sw_user_agent :: string

record token_row =
  tw_id :: uuid
  tw_user_id :: uuid
  tw_name :: string
  tw_prefix :: string
  tw_token_hash :: string
  tw_created_at :: int
  tw_last_used_at :: "int option"
  tw_expires_at :: "int option"

record db =
  db_projects :: "project_row list"
  db_variables :: "variable_row list"
  db_executions :: "execution_row list"
  db_schedules :: "schedule_row list"
  db_users :: "user_row list"
  db_sessions :: "session_row list"
  db_api_tokens :: "token_row list"

definition empty_db :: db where
  "empty_db = \<lparr>db_projects = [], db_variables = [], db_executions = [], db_schedules = [], db_users = [],
     db_sessions = [], db_api_tokens = []\<rparr>"

type_synonym 'a store_op = "db \<Rightarrow> (store_error + 'a) \<times> db"

section \<open>Statements\<close>

text \<open>\<^verbatim>\<open>UPDATE ... WHERE\<close> on the rows of a table.\<close>

definition update_rows :: "('r \<Rightarrow> bool) \<Rightarrow> ('r \<Rightarrow> 'r) \<Rightarrow> 'r list \<Rightarrow> 'r list" where
  "update_rows p f rows = map (\<lambda>r. if p r then f r else r) rows"

definition delete_rows :: "('r \<Rightarrow> bool) \<Rightarrow> 'r list \<Rightarrow> 'r list" where
  "delete_rows p rows = filter (\<lambda>r. \<not> p r) rows"

definition opt_milli :: "go_time option \<Rightarrow> int option" where
  "opt_milli t = map_option unix_milli t"

definition opt_from_milli :: "int option \<Rightarrow> go_time option" where
  "opt_from_milli ms = map_option from_unix_milli ms"

lemma opt_from_milli_opt_milli [simp]: "opt_from_milli (opt_milli t) = map_option trunc_ms t"
  by (cases t) (simp_all add: opt_from_milli_def opt_milli_def trunc_ms_def)

lemma from_unix_milli_unix_milli [simp]: "from_unix_milli (unix_milli t) = trunc_ms t"
  by (simp add: trunc_ms_def)

lemma find_update_rows:
  assumes "\<And>r. q (f r) = q r"
  shows "find q (update_rows p f rows) = map_option (\<lambda>r. if p r then f r else r) (find q rows)"
  using assms by (induction rows) (auto simp: update_rows_def)

lemma find_delete_rows:
  "(\<And>r. q r \<Longrightarrow> \<not> p r) \<Longrightarrow> find q (delete_rows p rows) = find q rows"
  by (induction rows) (auto simp: delete_rows_def)

lemma find_delete_rows_None:
  "(\<And>r. q r \<Longrightarrow> p r) \<Longrightarrow> find q (delete_rows p rows) = None"
  by (induction rows) (auto simp: delete_rows_def)

lemma find_append: "find p (xs @ ys) = (case find p xs of None \<Rightarrow> find p ys | Some x \<Rightarrow> Some x)"
  by (induction xs) auto

lemma map_update_rows: "(\<And>r. f r = f (g r)) \<Longrightarrow> map f (update_rows p g rows) = map f rows"
  by (induction rows) (auto simp: update_rows_def)

lemma set_update_rows: "x \<in> set (update_rows p f rows) \<longleftrightarrow> (\<exists>r \<in> set rows. x = (if p r then f r else r))"
  by (auto simp: update_rows_def)

lemma set_delete_rows [simp]: "set (delete_rows p rows) = {r \<in> set rows. \<not> p r}"
  by (auto simp: delete_rows_def)

lemma update_rows_Nil [simp]: "update_rows p f [] = []"
  by (simp add: update_rows_def)

lemma length_update_rows [simp]: "length (update_rows p f rows) = length rows"
  by (simp add: update_rows_def)

lemma distinct_map_delete_rows: "distinct (map f rows) \<Longrightarrow> distinct (map f (delete_rows p rows))"
  by (induction rows) (auto simp: delete_rows_def)

lemma find_distinct:
  "distinct (map f rows) \<Longrightarrow> r \<in> set rows \<Longrightarrow> find (\<lambda>x. f x = f r) rows = Some r"
  by (induction rows) (force)+

section \<open>The schema's constraints\<close>

definition project_ids :: "db \<Rightarrow> uuid list" where "project_ids d = map pw_id (db_projects d)"
definition user_ids :: "db \<Rightarrow> uuid list" where "user_ids d = map uw_id (db_users d)"

definition projects_ok :: "db \<Rightarrow> bool" where
  "projects_ok d \<longleftrightarrow>
     distinct (map pw_id (db_projects d)) \<and> distinct (map pw_name (db_projects d))
     \<and> (\<forall>r \<in> set (db_projects d). provider_IsValid (pw_provider r) \<and> auth_type_IsValid (pw_auth_type r))"

definition variables_ok :: "db \<Rightarrow> bool" where
  "variables_ok d \<longleftrightarrow>
     distinct (map (\<lambda>r. (vw_project_id r, vw_key r)) (db_variables d))
     \<and> (\<forall>r \<in> set (db_variables d). \<forall>p. vw_project_id r = Some p \<longrightarrow> p \<in> set (project_ids d))"

definition execution_key :: "execution_row \<Rightarrow> uuid \<times> int" where
  "execution_key r = (ew_project_id r, ew_id r)"

text \<open>A unique index does not compare rows with a NULL in it.\<close>

definition attempt_keys :: "execution_row list \<Rightarrow> (uuid \<times> int \<times> int) list" where
  "attempt_keys rows =
     concat (map (\<lambda>r. case ew_execution_id r of None \<Rightarrow> [] | Some x \<Rightarrow> [(ew_project_id r, x, ew_attempt r)]) rows)"

definition executions_ok :: "db \<Rightarrow> bool" where
  "executions_ok d \<longleftrightarrow>
     distinct (map execution_key (db_executions d)) \<and> distinct (attempt_keys (db_executions d))
     \<and> (\<forall>r \<in> set (db_executions d).
          ew_project_id r \<in> set (project_ids d) \<and> ew_status r \<noteq> StatusUnset \<and> ew_trigger r \<noteq> TriggerUnset
          \<and> ew_source r \<noteq> SourceUnset
          \<and> (\<forall>u. ew_created_by r = Some u \<longrightarrow> u \<in> set (user_ids d)))"

text \<open>The sequence of a project is ahead of every id handed out.\<close>

definition sequence_ok :: "db \<Rightarrow> bool" where
  "sequence_ok d \<longleftrightarrow>
     (\<forall>r \<in> set (db_executions d). \<forall>p \<in> set (db_projects d).
        ew_project_id r = pw_id p \<longrightarrow> 1 \<le> ew_id r \<and> ew_id r \<le> pw_execution_seq p)
     \<and> (\<forall>p \<in> set (db_projects d). 0 \<le> pw_execution_seq p)"

definition schedules_ok :: "db \<Rightarrow> bool" where
  "schedules_ok d \<longleftrightarrow>
     distinct (map (\<lambda>r. (cw_project_id r, cw_workflow r)) (db_schedules d))
     \<and> (\<forall>r \<in> set (db_schedules d). cw_project_id r \<in> set (project_ids d))"

definition users_ok :: "db \<Rightarrow> bool" where
  "users_ok d \<longleftrightarrow>
     distinct (map uw_id (db_users d)) \<and> distinct (map (\<lambda>r. (uw_provider r, uw_provider_user_id r)) (db_users d))"

definition sessions_ok :: "db \<Rightarrow> bool" where
  "sessions_ok d \<longleftrightarrow>
     distinct (map sw_id (db_sessions d)) \<and> (\<forall>r \<in> set (db_sessions d). sw_user_id r \<in> set (user_ids d))"

definition tokens_ok :: "db \<Rightarrow> bool" where
  "tokens_ok d \<longleftrightarrow>
     distinct (map tw_id (db_api_tokens d)) \<and> distinct (map tw_token_hash (db_api_tokens d))
     \<and> (\<forall>r \<in> set (db_api_tokens d). tw_user_id r \<in> set (user_ids d))"

definition db_ok :: "db \<Rightarrow> bool" where
  "db_ok d \<longleftrightarrow>
     projects_ok d \<and> variables_ok d \<and> executions_ok d \<and> sequence_ok d \<and> schedules_ok d \<and> users_ok d
     \<and> sessions_ok d \<and> tokens_ok d"

lemmas db_ok_defs = db_ok_def projects_ok_def variables_ok_def executions_ok_def sequence_ok_def schedules_ok_def
  users_ok_def sessions_ok_def tokens_ok_def project_ids_def user_ids_def

lemma empty_db_ok: "db_ok empty_db"
  by (simp add: db_ok_defs empty_db_def attempt_keys_def)

lemma attempt_keys_append [simp]: "attempt_keys (xs @ ys) = attempt_keys xs @ attempt_keys ys"
  by (simp add: attempt_keys_def)

lemma attempt_keys_update:
  "(\<And>r. ew_execution_id (f r) = ew_execution_id r) \<Longrightarrow> (\<And>r. ew_project_id (f r) = ew_project_id r) \<Longrightarrow>
   (\<And>r. ew_attempt (f r) = ew_attempt r) \<Longrightarrow> attempt_keys (update_rows p f rows) = attempt_keys rows"
  by (induction rows) (auto simp: attempt_keys_def update_rows_def split: option.split)

lemma attempt_keys_filter: "distinct (attempt_keys rows) \<Longrightarrow> distinct (attempt_keys (filter q rows))"
proof (induction rows)
  case (Cons r rows)
  have "set (attempt_keys (filter q rows)) \<subseteq> set (attempt_keys rows)"
    by (auto simp: attempt_keys_def)
  with Cons show ?case
    by (auto simp: attempt_keys_def split: option.splits)
qed (simp add: attempt_keys_def)

lemma attempt_keys_delete: "distinct (attempt_keys rows) \<Longrightarrow> distinct (attempt_keys (delete_rows p rows))"
  by (simp add: delete_rows_def attempt_keys_filter)

text \<open>Row updates that leave keys and references alone keep the constraints.\<close>

lemma executions_ok_update:
  assumes ok: "executions_ok d"
    and keys: "\<And>r. ew_project_id (f r) = ew_project_id r" "\<And>r. ew_id (f r) = ew_id r"
      "\<And>r. ew_execution_id (f r) = ew_execution_id r" "\<And>r. ew_attempt (f r) = ew_attempt r"
      "\<And>r. ew_trigger (f r) = ew_trigger r" "\<And>r. ew_source (f r) = ew_source r"
      "\<And>r. ew_created_by (f r) = ew_created_by r"
    and st: "\<And>r. p r \<Longrightarrow> r \<in> set (db_executions d) \<Longrightarrow> ew_status (f r) \<noteq> StatusUnset"
  shows "executions_ok (d\<lparr>db_executions := update_rows p f (db_executions d)\<rparr>)"
proof -
  have "map execution_key (update_rows p f (db_executions d)) = map execution_key (db_executions d)"
    using keys by (intro map_update_rows) (simp add: execution_key_def)
  moreover have "attempt_keys (update_rows p f (db_executions d)) = attempt_keys (db_executions d)"
    using keys by (intro attempt_keys_update)
  ultimately show ?thesis
    using ok keys st
    by (auto simp: executions_ok_def set_update_rows project_ids_def user_ids_def split: if_splits)
qed

lemma db_ok_update_executions:
  assumes ok: "db_ok d"
    and keys: "\<And>r. ew_project_id (f r) = ew_project_id r" "\<And>r. ew_id (f r) = ew_id r"
      "\<And>r. ew_execution_id (f r) = ew_execution_id r" "\<And>r. ew_attempt (f r) = ew_attempt r"
      "\<And>r. ew_trigger (f r) = ew_trigger r" "\<And>r. ew_source (f r) = ew_source r"
      "\<And>r. ew_created_by (f r) = ew_created_by r"
    and st: "\<And>r. p r \<Longrightarrow> r \<in> set (db_executions d) \<Longrightarrow> ew_status (f r) \<noteq> StatusUnset"
  shows "db_ok (d\<lparr>db_executions := update_rows p f (db_executions d)\<rparr>)"
proof -
  have "executions_ok (d\<lparr>db_executions := update_rows p f (db_executions d)\<rparr>)"
    using ok by (intro executions_ok_update keys st) (auto simp: db_ok_def)
  moreover have "sequence_ok (d\<lparr>db_executions := update_rows p f (db_executions d)\<rparr>)"
    using ok keys by (auto simp: db_ok_def sequence_ok_def set_update_rows split: if_splits)
  ultimately show ?thesis
    using ok by (simp add: db_ok_def projects_ok_def variables_ok_def schedules_ok_def users_ok_def
        sessions_ok_def tokens_ok_def project_ids_def user_ids_def)
qed

end
