(* ===== verification/SqliteProjects.thy ===== *)
theory SqliteProjects
  imports Database
begin

text \<open>
  Projects, variables and schedules in \<^verbatim>\<open>internal/stores/sqlite.go\<close>. Every operation
  keeps the constraints of the schema.
\<close>

section \<open>Projects\<close>

definition project_of_row :: "aead option \<Rightarrow> project_row \<Rightarrow> project" where
  "project_of_row c r =
     \<lparr>p_ID = pw_id r, p_Name = pw_name r, p_RepoURL = pw_repo_url r, p_Provider = pw_provider r,
      p_AuthType = pw_auth_type r, p_AuthUser = pw_auth_user r, p_AuthSecret = decrypt c (pw_auth_secret r),
      p_WebhookSecret = decrypt c (pw_webhook_secret r), p_DefaultBranch = pw_default_branch r,
      p_CreatedAt = from_unix_milli (pw_created_at r), p_UpdatedAt = from_unix_milli (pw_updated_at r)\<rparr>"

text \<open>The empty provider and authentication type of a Go literal are \<open>ProviderOther []\<close> and \<open>AuthTypeOther []\<close>.\<close>

definition project_defaults :: "project \<Rightarrow> project" where
  "project_defaults p =
     p\<lparr>p_Provider := (if p_Provider p = ProviderOther [] then ProviderGeneric else p_Provider p),
       p_AuthType := (if p_AuthType p = AuthTypeOther [] then AuthTypeNone else p_AuthType p)\<rparr>"

definition CreateProject :: "aead option \<Rightarrow> project \<Rightarrow> project store_op" where
  "CreateProject c p0 d =
     (let p = project_defaults p0;
          authSecret = encrypt c (p_AuthSecret p);
          webhookSecret = encrypt c (p_WebhookSecret p);
          row = \<lparr>pw_id = p_ID p, pw_name = p_Name p, pw_repo_url = p_RepoURL p, pw_provider = p_Provider p,
                 pw_auth_type = p_AuthType p, pw_auth_user = p_AuthUser p, pw_auth_secret = authSecret,
                 pw_webhook_secret = webhookSecret, pw_default_branch = p_DefaultBranch p,
                 pw_created_at = unix_milli (p_CreatedAt p), pw_updated_at = unix_milli (p_UpdatedAt p),
                 pw_execution_seq = 0\<rparr>
      in if \<not> provider_IsValid (p_Provider p) \<or> \<not> auth_type_IsValid (p_AuthType p)
         then (Inl (ErrConstraint ''CHECK constraint failed''), d)
         else if p_ID p \<in> set (map pw_id (db_projects d))
         then (Inl (ErrConstraint ''UNIQUE constraint failed: projects.id''), d)
         else if p_Name p \<in> set (map pw_name (db_projects d))
         then (Inl (ErrConstraint ''UNIQUE constraint failed: projects.name''), d)
         else (Inr (p\<lparr>p_AuthSecret := decrypt c authSecret, p_WebhookSecret := decrypt c webhookSecret\<rparr>),
               d\<lparr>db_projects := db_projects d @ [row]\<rparr>))"

definition ListProjects :: "aead option \<Rightarrow> project list store_op" where
  "ListProjects c d = (Inr (map (project_of_row c) (sort_key pw_name (db_projects d))), d)"

definition GetProject :: "aead option \<Rightarrow> uuid \<Rightarrow> project store_op" where
  "GetProject c i d =
     (case find (\<lambda>r. pw_id r = i) (db_projects d) of
        None \<Rightarrow> (Inl ErrNotFound, d)
      | Some r \<Rightarrow> (Inr (project_of_row c r), d))"

definition GetProjectByName :: "aead option \<Rightarrow> string \<Rightarrow> project store_op" where
  "GetProjectByName c name d =
     (case find (\<lambda>r. pw_name r = name) (db_projects d) of
        None \<Rightarrow> (Inl ErrNotFound, d)
      | Some r \<Rightarrow> (Inr (project_of_row c r), d))"

definition UpdateProject :: "aead option \<Rightarrow> project \<Rightarrow> project store_op" where
  "UpdateProject c p d =
     (let authSecret = encrypt c (p_AuthSecret p);
          webhookSecret = encrypt c (p_WebhookSecret p);
          present = p_ID p \<in> set (map pw_id (db_projects d));
          set_row = (\<lambda>r. r\<lparr>pw_name := p_Name p, pw_repo_url := p_RepoURL p, pw_provider := p_Provider p,
                            pw_auth_type := p_AuthType p, pw_auth_user := p_AuthUser p, pw_auth_secret := authSecret,
                            pw_webhook_secret := webhookSecret, pw_default_branch := p_DefaultBranch p,
                            pw_updated_at := unix_milli (p_UpdatedAt p)\<rparr>)
      in if present \<and> (\<not> provider_IsValid (p_Provider p) \<or> \<not> auth_type_IsValid (p_AuthType p))
         then (Inl (ErrConstraint ''CHECK constraint failed''), d)
         else if present \<and> list_ex (\<lambda>r. pw_name r = p_Name p \<and> pw_id r \<noteq> p_ID p) (db_projects d)
         then (Inl (ErrConstraint ''UNIQUE constraint failed: projects.name''), d)
         else (Inr (p\<lparr>p_AuthSecret := decrypt c authSecret, p_WebhookSecret := decrypt c webhookSecret\<rparr>),
               d\<lparr>db_projects := update_rows (\<lambda>r. pw_id r = p_ID p) set_row (db_projects d)\<rparr>))"

text \<open>Deleting a project deletes its variables, executions and schedules (\<^verbatim>\<open>ON DELETE CASCADE\<close>).\<close>

definition DeleteProject :: "uuid \<Rightarrow> unit store_op" where
  "DeleteProject i d =
     (Inr (), d\<lparr>db_projects := delete_rows (\<lambda>r. pw_id r = i) (db_projects d),
                db_variables := delete_rows (\<lambda>r. vw_project_id r = Some i) (db_variables d),
                db_executions := delete_rows (\<lambda>r. ew_project_id r = i) (db_executions d),
                db_schedules := delete_rows (\<lambda>r. cw_project_id r = i) (db_schedules d)\<rparr>)"

section \<open>Variables\<close>

definition variable_of_row :: "aead option \<Rightarrow> variable_row \<Rightarrow> variable" where
  "variable_of_row c r =
     \<lparr>v_ProjectID = vw_project_id r, v_Key = vw_key r,
      v_Value = (if vw_secret r \<noteq> 0 then decrypt c (vw_value r) else vw_value r), v_Secret = (vw_secret r \<noteq> 0)\<rparr>"

definition SetVariable :: "aead option \<Rightarrow> variable \<Rightarrow> unit store_op" where
  "SetVariable c v d =
     (let value = (if v_Secret v then encrypt c (v_Value v) else v_Value v);
          row = \<lparr>vw_project_id = v_ProjectID v, vw_key = v_Key v, vw_value = value,
                 vw_secret = (if v_Secret v then 1 else 0)\<rparr>;
          kept = delete_rows (\<lambda>r. vw_project_id r = v_ProjectID v \<and> vw_key r = v_Key v) (db_variables d)
      in if (case v_ProjectID v of None \<Rightarrow> False | Some p \<Rightarrow> p \<notin> set (project_ids d))
         then (Inl (ErrConstraint ''FOREIGN KEY constraint failed''), d)
         else (Inr (), d\<lparr>db_variables := kept @ [row]\<rparr>))"

definition ListVariables :: "aead option \<Rightarrow> uuid option \<Rightarrow> variable list store_op" where
  "ListVariables c projectID d =
     (Inr (map (variable_of_row c) (sort_key vw_key (filter (\<lambda>r. vw_project_id r = projectID) (db_variables d)))), d)"

text \<open>A missing variable is reported as the raw \<^verbatim>\<open>sql.ErrNoRows\<close> here, not as \<^verbatim>\<open>ErrNotFound\<close>.\<close>

definition GetVariable :: "aead option \<Rightarrow> uuid option \<Rightarrow> string \<Rightarrow> variable store_op" where
  "GetVariable c projectID key d =
     (case find (\<lambda>r. vw_project_id r = projectID \<and> vw_key r = key) (db_variables d) of
        None \<Rightarrow> (Inl ErrNoRows, d)
      | Some r \<Rightarrow> (Inr (variable_of_row c r), d))"

definition DeleteVariable :: "uuid option \<Rightarrow> string \<Rightarrow> unit store_op" where
  "DeleteVariable projectID key d =
     (Inr (), d\<lparr>db_variables := delete_rows (\<lambda>r. vw_project_id r = projectID \<and> vw_key r = key) (db_variables d)\<rparr>)"

section \<open>Schedules\<close>

definition schedule_of_row :: "schedule_row \<Rightarrow> schedule" where
  "schedule_of_row r =
     \<lparr>c_ProjectID = cw_project_id r, c_Workflow = cw_workflow r, c_CronExpr = cw_cron_expr r,
      c_NextRunAt = from_unix_milli (cw_next_run_at r)\<rparr>"

definition UpsertSchedule :: "schedule \<Rightarrow> unit store_op" where
  "UpsertSchedule sch d =
     (let key = (\<lambda>r. cw_project_id r = c_ProjectID sch \<and> cw_workflow r = c_Workflow sch);
          next_ms = unix_milli (c_NextRunAt sch)
      in if c_ProjectID sch \<notin> set (project_ids d)
         then (Inl (ErrConstraint ''FOREIGN KEY constraint failed''), d)
         else if list_ex key (db_schedules d)
         then (Inr (), d\<lparr>db_schedules := update_rows key
                           (\<lambda>r. r\<lparr>cw_cron_expr := c_CronExpr sch, cw_next_run_at := next_ms\<rparr>) (db_schedules d)\<rparr>)
         else (Inr (), d\<lparr>db_schedules := db_schedules d @
                           [\<lparr>cw_project_id = c_ProjectID sch, cw_workflow = c_Workflow sch,
                             cw_cron_expr = c_CronExpr sch, cw_next_run_at = next_ms\<rparr>]\<rparr>))"

definition DeleteSchedule :: "uuid \<Rightarrow> string \<Rightarrow> unit store_op" where
  "DeleteSchedule projectID workflow d =
     (Inr (), d\<lparr>db_schedules := delete_rows (\<lambda>r. cw_project_id r = projectID \<and> cw_workflow r = workflow) (db_schedules d)\<rparr>)"

definition ListSchedules :: "schedule list store_op" where
  "ListSchedules d = (Inr (map schedule_of_row (db_schedules d)), d)"

definition ListDueSchedules :: "go_time \<Rightarrow> schedule list store_op" where
  "ListDueSchedules now d =
     (Inr (map schedule_of_row (filter (\<lambda>r. cw_next_run_at r \<le> unix_milli now) (db_schedules d))), d)"

section \<open>Constraints are preserved\<close>

lemma project_ids_cong [simp]:
  "project_ids (d\<lparr>db_variables := x1\<rparr>) = project_ids d" "project_ids (d\<lparr>db_executions := x2\<rparr>) = project_ids d"
  "project_ids (d\<lparr>db_schedules := x3\<rparr>) = project_ids d" "project_ids (d\<lparr>db_users := x4\<rparr>) = project_ids d"
  "project_ids (d\<lparr>db_sessions := x5\<rparr>) = project_ids d" "project_ids (d\<lparr>db_api_tokens := x6\<rparr>) = project_ids d"
  by (simp_all add: project_ids_def)

lemma db_ok_add_project:
  assumes ok: "db_ok d" and new: "pw_id row \<notin> set (project_ids d)" "pw_name row \<notin> set (map pw_name (db_projects d))"
    and valid: "provider_IsValid (pw_provider row)" "auth_type_IsValid (pw_auth_type row)" "pw_execution_seq row = 0"
  shows "db_ok (d\<lparr>db_projects := db_projects d @ [row]\<rparr>)"
proof -
  let ?d = "d\<lparr>db_projects := db_projects d @ [row]\<rparr>"
  have ids: "set (project_ids ?d) = insert (pw_id row) (set (project_ids d))" by (auto simp: project_ids_def)
  have "projects_ok ?d" using ok new valid by (auto simp: db_ok_def projects_ok_def project_ids_def)
  moreover have "ew_project_id r \<noteq> pw_id row" if "r \<in> set (db_executions d)" for r
    using ok new(1) that by (auto simp: db_ok_def executions_ok_def)
  then have "sequence_ok ?d" using ok valid by (auto simp: db_ok_def sequence_ok_def)
  moreover have "variables_ok ?d" "executions_ok ?d" "schedules_ok ?d"
    using ok ids by (auto simp: db_ok_def variables_ok_def executions_ok_def schedules_ok_def user_ids_def)
  ultimately show ?thesis
    using ok by (simp add: db_ok_def users_ok_def sessions_ok_def tokens_ok_def user_ids_def)
qed

lemma CreateProject_ok: "db_ok d \<Longrightarrow> db_ok (snd (CreateProject c p d))"
  by (auto simp: CreateProject_def Let_def project_ids_def intro!: db_ok_add_project)

lemma UpdateProject_ok:
  assumes ok: "db_ok d"
  shows "db_ok (snd (UpdateProject c p d))"
proof -
  define set_row :: "project_row \<Rightarrow> project_row" where "set_row = (\<lambda>r. r\<lparr>pw_name := p_Name p, pw_repo_url := p_RepoURL p, pw_provider := p_Provider p,
      pw_auth_type := p_AuthType p, pw_auth_user := p_AuthUser p, pw_auth_secret := encrypt c (p_AuthSecret p),
      pw_webhook_secret := encrypt c (p_WebhookSecret p), pw_default_branch := p_DefaultBranch p,
      pw_updated_at := unix_milli (p_UpdatedAt p)\<rparr>)"
  let ?q = "\<lambda>r. pw_id r = p_ID p" and ?rows = "db_projects d"
  show ?thesis
  proof (cases "p_ID p \<in> set (map pw_id ?rows)
      \<and> (\<not> provider_IsValid (p_Provider p) \<or> \<not> auth_type_IsValid (p_AuthType p)
         \<or> list_ex (\<lambda>r. pw_name r = p_Name p \<and> pw_id r \<noteq> p_ID p) ?rows)")
    case True
    then show ?thesis using ok by (auto simp: UpdateProject_def Let_def)
  next
    case False
    then have eq: "snd (UpdateProject c p d) = d\<lparr>db_projects := update_rows ?q set_row ?rows\<rparr>"
      by (auto simp: UpdateProject_def Let_def set_row_def)
    have ids: "map pw_id (update_rows ?q set_row ?rows) = map pw_id ?rows"
      by (intro map_update_rows) (simp add: set_row_def)
    have dist: "distinct (map pw_id ?rows)" "distinct (map pw_name ?rows)" using ok by (auto simp: db_ok_defs)
    have names: "distinct (map pw_name (update_rows ?q set_row ?rows))"
    proof -
      have "distinct (map pw_name (update_rows ?q set_row rows))"
        if "distinct (map pw_id rows)" "distinct (map pw_name rows)"
          "\<forall>r \<in> set rows. pw_name r = p_Name p \<longrightarrow> pw_id r = p_ID p \<or> p_ID p \<notin> set (map pw_id ?rows)"
          "set rows \<subseteq> set ?rows" for rows
        using that
      proof (induction rows)
        case (Cons r rows)
        then have IH: "distinct (map pw_name (update_rows ?q set_row rows))" by auto
        show ?case
        proof (cases "pw_id r = p_ID p")
          case True
          have "update_rows ?q set_row rows = rows"
            using Cons.prems(1) True unfolding update_rows_def by (intro map_idI) (auto simp: image_iff)
          moreover have "pw_name x \<noteq> p_Name p" if x: "x \<in> set rows" for x
          proof
            assume "pw_name x = p_Name p"
            moreover have "p_ID p \<in> set (map pw_id ?rows)" using True Cons.prems(4) by force
            ultimately have "pw_id x = pw_id r" using Cons.prems(3) True x by auto
            with Cons.prems(1) x show False by (auto simp: image_iff)
          qed
          then have "p_Name p \<notin> pw_name ` set rows" by force
          ultimately show ?thesis using Cons.prems(2) True by (simp add: update_rows_def set_row_def)
        next
          case False
          have "pw_name r \<notin> pw_name ` set (update_rows ?q set_row rows)"
          proof
            assume "pw_name r \<in> pw_name ` set (update_rows ?q set_row rows)"
            then obtain x where x: "x \<in> set rows" "pw_name r = pw_name (if ?q x then set_row x else x)"
              by (auto simp: set_update_rows)
            show False
            proof (cases "?q x")
              case True
              with x have "pw_name r = p_Name p" by (simp add: set_row_def)
              moreover have "p_ID p \<in> set (map pw_id ?rows)" using True x Cons.prems(4) by force
              ultimately show False using Cons.prems(3) False by auto
            next
              case False
              with x Cons.prems(2) show False by auto
            qed
          qed
          moreover have "update_rows ?q set_row (r # rows) = r # update_rows ?q set_row rows"
            using False by (simp add: update_rows_def)
          ultimately show ?thesis using IH by simp
        qed
      qed (simp add: update_rows_def)
      moreover have "\<forall>r \<in> set ?rows. pw_name r = p_Name p \<longrightarrow> pw_id r = p_ID p \<or> p_ID p \<notin> set (map pw_id ?rows)"
        using False unfolding list_ex_iff by blast
      ultimately show ?thesis using dist by blast
    qed
    have valid: "\<forall>r \<in> set (update_rows ?q set_row ?rows). provider_IsValid (pw_provider r) \<and> auth_type_IsValid (pw_auth_type r)"
    proof
      fix r assume "r \<in> set (update_rows ?q set_row ?rows)"
      then obtain r0 where r0: "r0 \<in> set ?rows" "r = (if ?q r0 then set_row r0 else r0)"
        by (auto simp: set_update_rows)
      then have "?q r0 \<Longrightarrow> p_ID p \<in> set (map pw_id ?rows)" by force
      with r0 ok False show "provider_IsValid (pw_provider r) \<and> auth_type_IsValid (pw_auth_type r)"
        by (cases "?q r0") (auto simp: db_ok_def projects_ok_def set_row_def)
    qed
    have seq: "\<exists>r0 \<in> set ?rows. pw_id r = pw_id r0 \<and> pw_execution_seq r = pw_execution_seq r0"
      if "r \<in> set (update_rows ?q set_row ?rows)" for r
    proof -
      from that obtain r0 where "r0 \<in> set ?rows" "r = (if ?q r0 then set_row r0 else r0)"
        by (auto simp: set_update_rows)
      then show ?thesis by (intro bexI [of _ r0]) (simp_all add: set_row_def)
    qed
    have "projects_ok (d\<lparr>db_projects := update_rows ?q set_row ?rows\<rparr>)"
      using dist ids names valid by (simp add: projects_ok_def)
    moreover have "sequence_ok (d\<lparr>db_projects := update_rows ?q set_row ?rows\<rparr>)"
      using ok seq unfolding db_ok_def sequence_ok_def by fastforce
    moreover have "project_ids (d\<lparr>db_projects := update_rows ?q set_row ?rows\<rparr>) = project_ids d"
      using ids by (simp add: project_ids_def)
    ultimately show ?thesis
      using ok unfolding eq
      by (simp add: db_ok_def variables_ok_def executions_ok_def schedules_ok_def users_ok_def sessions_ok_def
          tokens_ok_def user_ids_def)
  qed
qed

lemma DeleteProject_ok: "db_ok d \<Longrightarrow> db_ok (snd (DeleteProject i d))"
proof -
  assume ok: "db_ok d"
  let ?d = "snd (DeleteProject i d)"
  have ids: "set (project_ids ?d) = set (project_ids d) - {i}" by (auto simp: project_ids_def DeleteProject_def)
  have "user_ids ?d = user_ids d" by (simp add: user_ids_def DeleteProject_def)
  moreover have "projects_ok ?d"
    using ok by (auto simp: db_ok_def projects_ok_def DeleteProject_def distinct_map_delete_rows)
  moreover have "variables_ok ?d"
    using ok unfolding variables_ok_def ids by (auto simp: db_ok_def variables_ok_def DeleteProject_def distinct_map_delete_rows)
  moreover have "executions_ok ?d"
    using ok calculation(1) unfolding executions_ok_def ids
    by (auto simp: db_ok_def executions_ok_def DeleteProject_def distinct_map_delete_rows attempt_keys_delete)
  moreover have "schedules_ok ?d"
    using ok unfolding schedules_ok_def ids by (auto simp: db_ok_def schedules_ok_def DeleteProject_def distinct_map_delete_rows)
  moreover have "sequence_ok ?d"
    using ok by (auto simp: db_ok_def sequence_ok_def DeleteProject_def)
  ultimately show ?thesis
    using ok by (simp add: db_ok_def users_ok_def sessions_ok_def tokens_ok_def DeleteProject_def user_ids_def)
qed

lemma SetVariable_ok: "db_ok d \<Longrightarrow> db_ok (snd (SetVariable c v d))"
  by (auto simp: SetVariable_def Let_def db_ok_defs distinct_map_delete_rows split: option.splits)

lemma DeleteVariable_ok: "db_ok d \<Longrightarrow> db_ok (snd (DeleteVariable p k d))"
  by (auto simp: DeleteVariable_def db_ok_defs distinct_map_delete_rows)

lemma DeleteSchedule_ok: "db_ok d \<Longrightarrow> db_ok (snd (DeleteSchedule p w d))"
  by (auto simp: DeleteSchedule_def db_ok_defs distinct_map_delete_rows)

lemma UpsertSchedule_ok: "db_ok d \<Longrightarrow> db_ok (snd (UpsertSchedule sch d))"
proof -
  assume ok: "db_ok d"
  have keys: "map (\<lambda>r. (cw_project_id r, cw_workflow r)) (update_rows q (\<lambda>r. r\<lparr>cw_cron_expr := e, cw_next_run_at := n\<rparr>) rows)
      = map (\<lambda>r. (cw_project_id r, cw_workflow r)) rows" for q e n rows
    by (intro map_update_rows) simp
  show ?thesis
    using ok by (auto simp: UpsertSchedule_def Let_def db_ok_defs keys set_update_rows list_ex_iff split: if_splits)
qed

end
