(* ===== verification/SqliteExecutions.thy ===== *)
theory SqliteExecutions
  imports SqliteProjects
begin

text \<open>
  Executions in \<^verbatim>\<open>internal/stores/sqlite.go\<close>: the numbering of executions and attempts, the
  queue of pending attempts, cancellation requests and workspace retention. The subqueries and joins
  of the SQL text are functions on the rows. \<^verbatim>\<open>ClaimPendingExecution\<close> is a select and a
  guarded update; they are separate definitions so that the claims of two workers can be interleaved.
\<close>

section \<open>Reading rows\<close>

definition user_login :: "db \<Rightarrow> uuid option \<Rightarrow> string" where
  "user_login d created_by =
     (case created_by of
        None \<Rightarrow> []
      | Some u \<Rightarrow> (case find (\<lambda>r. uw_id r = u) (db_users d) of None \<Rightarrow> [] | Some r \<Rightarrow> uw_login r))"

text \<open>The largest attempt among the rows of the same execution, or the row's own attempt.\<close>

definition sibling_attempts :: "db \<Rightarrow> execution_row \<Rightarrow> int list" where
  "sibling_attempts d e =
     map ew_attempt (filter (\<lambda>a. ew_project_id a = ew_project_id e \<and> ew_execution_id e \<noteq> None
                                 \<and> ew_execution_id a = ew_execution_id e) (db_executions d))"

definition attempts_count :: "db \<Rightarrow> execution_row \<Rightarrow> int" where
  "attempts_count d e = (case sibling_attempts d e of [] \<Rightarrow> ew_attempt e | a # as \<Rightarrow> fold max as a)"

definition scanExecution :: "execution_row \<Rightarrow> trigger \<Rightarrow> int \<Rightarrow> int option \<Rightarrow> int option \<Rightarrow> uuid option \<Rightarrow> string
    \<Rightarrow> int \<Rightarrow> int \<Rightarrow> execution" where
  "scanExecution e trg created prev parent created_by login check_run count =
     (let attempt = (if ew_attempt e = 0 then 1 else ew_attempt e)
      in Execution0\<lparr>e_ProjectID := ew_project_id e, e_ID := ew_id e,
           e_ExecutionID := (case ew_execution_id e of None \<Rightarrow> ew_id e | Some x \<Rightarrow> x),
           e_Attempt := attempt, e_Workflow := ew_workflow e, e_Ref := ew_ref e, e_CommitSHA := ew_commit_sha e,
           e_Status := ew_status e, e_Trigger := trg, e_Steps := ew_steps_json e, e_Error := ew_error e,
           e_StartedAt := opt_from_milli (ew_started_at e), e_SetupFinishedAt := opt_from_milli (ew_setup_finished_at e),
           e_FinishedAt := opt_from_milli (ew_finished_at e), e_CreatedAt := from_unix_milli created,
           e_ConcurrencyGroup := ew_concurrency_group e, e_Source := ew_source e, e_SnapshotID := ew_snapshot_id e,
           e_PreviousAttemptID := prev, e_ParentID := parent, e_WorkspaceID := ew_workspace_id e,
           e_CreatedBy := created_by, e_CreatedByLogin := login, e_CheckRunID := check_run,
           e_AttemptsCount := (if count = 0 then attempt else count),
           e_AttemptCreatedAt := from_unix_milli (ew_created_at e)\<rparr>)"

text \<open>\<^verbatim>\<open>sqliteRawExecutionColumns\<close>: the attempt's own trigger, creator and creation time.\<close>

definition raw_execution :: "db \<Rightarrow> execution_row \<Rightarrow> execution" where
  "raw_execution d e =
     scanExecution e (ew_trigger e) (ew_created_at e)
       (if ew_trigger e = TriggerRetry then ew_parent_id e else None)
       (if ew_trigger e = TriggerRebuild then ew_parent_id e else None)
       (ew_created_by e) (user_login d (ew_created_by e)) (ew_check_run_id e) (attempts_count d e)"

text \<open>\<^verbatim>\<open>sqliteJoinedExecutionColumns\<close>: trigger, creator and check run of the first attempt \<open>r\<close>.\<close>

definition joined_execution :: "db \<Rightarrow> execution_row \<Rightarrow> execution_row \<Rightarrow> execution" where
  "joined_execution d e r =
     scanExecution e (ew_trigger r) (ew_created_at r)
       (if ew_trigger e = TriggerRetry then ew_parent_id e else None) (ew_parent_id r)
       (ew_created_by r) (user_login d (ew_created_by r)) (ew_check_run_id r) (attempts_count d e)"

definition root_row :: "db \<Rightarrow> execution_row \<Rightarrow> execution_row option" where
  "root_row d e = find (\<lambda>r. ew_project_id r = ew_project_id e \<and> Some (ew_id r) = ew_execution_id e) (db_executions d)"

definition joined_rows :: "db \<Rightarrow> execution_row list \<Rightarrow> execution list" where
  "joined_rows d rows = concat (map (\<lambda>e. case root_row d e of None \<Rightarrow> [] | Some r \<Rightarrow> [joined_execution d e r]) rows)"

section \<open>Operations\<close>

definition GetAttempt :: "uuid \<Rightarrow> int \<Rightarrow> execution store_op" where
  "GetAttempt projectID i d =
     (case find (\<lambda>r. ew_project_id r = projectID \<and> ew_id r = i) (db_executions d) of
        None \<Rightarrow> (Inl ErrNotFound, d)
      | Some r \<Rightarrow> (Inr (raw_execution d r), d))"

definition GetExecutionAttempt :: "uuid \<Rightarrow> int \<Rightarrow> int \<Rightarrow> execution store_op" where
  "GetExecutionAttempt projectID executionID attempt d =
     (let rows = filter (\<lambda>e. ew_project_id e = projectID \<and> ew_execution_id e = Some executionID) (db_executions d);
          rows = (if 0 < attempt then filter (\<lambda>e. ew_attempt e = attempt) rows
                  else sort_key (\<lambda>e. - ew_attempt e) rows)
      in case joined_rows d rows of
           [] \<Rightarrow> (Inl ErrNotFound, d)
         | e # _ \<Rightarrow> (Inr e, d))"

definition ListExecutions :: "uuid \<Rightarrow> int \<Rightarrow> execution list store_op" where
  "ListExecutions projectID limit d =
     (let limit = (if limit \<le> 0 then 50 else limit);
          rows = filter (\<lambda>e. ew_project_id e = projectID \<and> sibling_attempts d e \<noteq> []
                             \<and> ew_attempt e = attempts_count d e \<and> root_row d e \<noteq> None) (db_executions d)
      in (Inr (take (nat limit) (joined_rows d (sort_key (\<lambda>e. (- ew_created_at e, - ew_id e)) rows))), d))"

definition ListAttempts :: "uuid \<Rightarrow> int \<Rightarrow> execution list store_op" where
  "ListAttempts projectID executionID d =
     (Inr (map (raw_execution d)
        (sort_key ew_attempt
          (filter (\<lambda>e. ew_project_id e = projectID \<and> ew_execution_id e = Some executionID) (db_executions d)))), d)"

text \<open>
  \<^verbatim>\<open>CreateExecution\<close> fills the fields of its argument, which is the result here. A nil
  \<^verbatim>\<open>WorkspaceID\<close> becomes a pointer to \<^verbatim>\<open>e.ID\<close> before the id is assigned, so it is the
  new id.
\<close>

definition execution_defaults :: "execution \<Rightarrow> execution" where
  "execution_defaults e =
     e\<lparr>e_Status := (if e_Status e = StatusUnset then StatusPending else e_Status e),
       e_Trigger := (if e_Trigger e = TriggerUnset then TriggerManual else e_Trigger e),
       e_Source := (if e_Source e = SourceUnset then SourceGit else e_Source e),
       e_Attempt := (if e_Attempt e = 0 then 1 else e_Attempt e)\<rparr>"

definition assign_ids :: "int \<Rightarrow> execution \<Rightarrow> execution" where
  "assign_ids seq e =
     (let e1 = e\<lparr>e_ID := seq, e_WorkspaceID := (case e_WorkspaceID e of None \<Rightarrow> Some seq | Some w \<Rightarrow> Some w)\<rparr>;
          e2 = (if e_ExecutionID e1 = 0 then e1\<lparr>e_ExecutionID := seq, e_Attempt := 1\<rparr> else e1)
      in if e_AttemptsCount e2 = 0 then e2\<lparr>e_AttemptsCount := e_Attempt e2\<rparr> else e2)"

definition row_of_execution :: "execution \<Rightarrow> execution_row" where
  "row_of_execution e =
     \<lparr>ew_project_id = e_ProjectID e, ew_id = e_ID e, ew_execution_id = Some (e_ExecutionID e), ew_attempt = e_Attempt e,
      ew_workflow = e_Workflow e, ew_ref = e_Ref e, ew_commit_sha = e_CommitSHA e, ew_status = e_Status e,
      ew_trigger = e_Trigger e, ew_steps_json = e_Steps e, ew_error = e_Error e,
      ew_started_at = opt_milli (e_StartedAt e), ew_setup_finished_at = opt_milli (e_SetupFinishedAt e),
      ew_finished_at = opt_milli (e_FinishedAt e), ew_created_at = unix_milli (e_CreatedAt e), ew_claimed_by = [],
      ew_cancel_requested = 0, ew_concurrency_group = e_ConcurrencyGroup e, ew_source = e_Source e,
      ew_snapshot_id = e_SnapshotID e,
      ew_parent_id = (if e_PreviousAttemptID e \<noteq> None then e_PreviousAttemptID e else e_ParentID e),
      ew_workspace_id = e_WorkspaceID e, ew_created_by = e_CreatedBy e, ew_check_run_id = e_CheckRunID e\<rparr>"

definition insert_conflict :: "execution \<Rightarrow> db \<Rightarrow> store_error option" where
  "insert_conflict e d =
     (if execution_key (row_of_execution e) \<in> set (map execution_key (db_executions d))
      then Some (ErrConstraint ''UNIQUE constraint failed: executions.project_id, executions.id'')
      else if (e_ProjectID e, e_ExecutionID e, e_Attempt e) \<in> set (attempt_keys (db_executions d))
      then Some (ErrConstraint ''UNIQUE constraint failed: idx_executions_attempt'')
      else (case e_CreatedBy e of
              None \<Rightarrow> None
            | Some u \<Rightarrow> if u \<in> set (user_ids d) then None else Some (ErrConstraint ''FOREIGN KEY constraint failed'')))"

definition bump_sequence :: "uuid \<Rightarrow> project_row list \<Rightarrow> project_row list" where
  "bump_sequence i rows = update_rows (\<lambda>r. pw_id r = i) (\<lambda>r. r\<lparr>pw_execution_seq := pw_execution_seq r + 1\<rparr>) rows"

definition CreateExecution :: "execution \<Rightarrow> execution store_op" where
  "CreateExecution e0 d =
     (case find (\<lambda>p. pw_id p = e_ProjectID e0) (db_projects d) of
        None \<Rightarrow> (Inl ErrNoRows, d)
      | Some p \<Rightarrow>
          (let e = assign_ids (pw_execution_seq p + 1) (execution_defaults e0)
           in case insert_conflict e d of
                Some err \<Rightarrow> (Inl err, d)
              | None \<Rightarrow>
                  (Inr e, d\<lparr>db_projects := bump_sequence (e_ProjectID e0) (db_projects d),
                            db_executions := db_executions d @ [row_of_execution e]\<rparr>)))"

definition at_key :: "uuid \<Rightarrow> int \<Rightarrow> execution_row \<Rightarrow> bool" where
  "at_key projectID i r \<longleftrightarrow> ew_project_id r = projectID \<and> ew_id r = i"

definition update_executions :: "(execution_row \<Rightarrow> bool) \<Rightarrow> (execution_row \<Rightarrow> execution_row) \<Rightarrow> db \<Rightarrow> db" where
  "update_executions p f d = d\<lparr>db_executions := update_rows p f (db_executions d)\<rparr>"

definition UpdateExecution :: "execution \<Rightarrow> unit store_op" where
  "UpdateExecution e d =
     (let key = at_key (e_ProjectID e) (e_ID e)
      in if e_Status e = StatusUnset \<and> list_ex key (db_executions d)
         then (Inl (ErrConstraint ''CHECK constraint failed''), d)
         else (Inr (), update_executions key
                (\<lambda>r. r\<lparr>ew_status := e_Status e, ew_steps_json := e_Steps e, ew_error := e_Error e,
                       ew_started_at := opt_milli (e_StartedAt e),
                       ew_setup_finished_at := opt_milli (e_SetupFinishedAt e),
                       ew_finished_at := opt_milli (e_FinishedAt e), ew_commit_sha := e_CommitSHA e,
                       ew_concurrency_group := e_ConcurrencyGroup e\<rparr>) d))"

definition SetCheckRunID :: "uuid \<Rightarrow> int \<Rightarrow> int \<Rightarrow> unit store_op" where
  "SetCheckRunID projectID executionID checkRunID d =
     (Inr (), update_executions (at_key projectID executionID) (\<lambda>r. r\<lparr>ew_check_run_id := checkRunID\<rparr>) d)"

section \<open>The queue\<close>

definition claim_select :: "db \<Rightarrow> (uuid \<times> int) option" where
  "claim_select d =
     (case sort_key ew_id (filter (\<lambda>r. ew_status r = StatusPending) (db_executions d)) of
        [] \<Rightarrow> None
      | r # _ \<Rightarrow> Some (execution_key r))"

text \<open>The guarded update; the first component is whether a row was affected.\<close>

definition claim_update :: "string \<Rightarrow> go_time \<Rightarrow> uuid \<times> int \<Rightarrow> db \<Rightarrow> bool \<times> db" where
  "claim_update workerID now k d =
     (let p = (\<lambda>r. execution_key r = k \<and> ew_status r = StatusPending)
      in (list_ex p (db_executions d),
          update_executions p
            (\<lambda>r. r\<lparr>ew_status := StatusRunning, ew_claimed_by := workerID, ew_started_at := Some (unix_milli now)\<rparr>) d))"

definition ClaimPendingExecution :: "string \<Rightarrow> go_time \<Rightarrow> execution store_op" where
  "ClaimPendingExecution workerID now d =
     (case claim_select d of
        None \<Rightarrow> (Inl ErrNotFound, d)
      | Some k \<Rightarrow>
          (let r = claim_update workerID now k d
           in if fst r then GetAttempt (fst k) (snd k) (snd r) else (Inl ErrNotFound, d)))"

definition RequeueOrphanedExecutions :: "unit store_op" where
  "RequeueOrphanedExecutions d =
     (Inr (), update_executions (\<lambda>r. ew_status r = StatusRunning)
                (\<lambda>r. r\<lparr>ew_status := StatusPending, ew_claimed_by := []\<rparr>) d)"

definition SetCancelRequested :: "uuid \<Rightarrow> int \<Rightarrow> unit store_op" where
  "SetCancelRequested projectID i d =
     (Inr (), update_executions (at_key projectID i) (\<lambda>r. r\<lparr>ew_cancel_requested := 1\<rparr>) d)"

definition IsCancelRequested :: "uuid \<Rightarrow> int \<Rightarrow> bool store_op" where
  "IsCancelRequested projectID i d =
     (case find (at_key projectID i) (db_executions d) of
        None \<Rightarrow> (Inl ErrNotFound, d)
      | Some r \<Rightarrow> (Inr (ew_cancel_requested r \<noteq> 0), d))"

definition CountPendingExecutions :: "nat store_op" where
  "CountPendingExecutions d = (Inr (length (filter (\<lambda>r. ew_status r = StatusPending) (db_executions d))), d)"

definition CancelRunningInGroup :: "uuid \<Rightarrow> string \<Rightarrow> int \<Rightarrow> unit store_op" where
  "CancelRunningInGroup projectID grp excludeID d =
     (Inr (), update_executions
        (\<lambda>r. ew_project_id r = projectID \<and> ew_concurrency_group r = grp \<and> ew_status r = StatusRunning \<and> ew_id r \<noteq> excludeID)
        (\<lambda>r. r\<lparr>ew_cancel_requested := 1\<rparr>) d)"

definition uses_workspace :: "uuid \<Rightarrow> int \<Rightarrow> execution_row \<Rightarrow> bool" where
  "uses_workspace projectID workspaceID r \<longleftrightarrow> ew_project_id r = projectID \<and> ew_workspace_id r = Some workspaceID"

definition WorkspaceBusy :: "uuid \<Rightarrow> int \<Rightarrow> bool store_op" where
  "WorkspaceBusy projectID workspaceID d =
     (Inr (0 < length (filter (\<lambda>r. uses_workspace projectID workspaceID r
                                   \<and> (ew_status r = StatusPending \<or> ew_status r = StatusRunning)) (db_executions d))), d)"

definition WorkspaceRetained :: "uuid \<Rightarrow> int \<Rightarrow> go_time \<Rightarrow> bool store_op" where
  "WorkspaceRetained projectID workspaceID cutoff d =
     (Inr (0 < length (filter (\<lambda>r. uses_workspace projectID workspaceID r
                \<and> (ew_status r = StatusPending \<or> ew_status r = StatusRunning
                   \<or> (case ew_finished_at r of None \<Rightarrow> True | Some ms \<Rightarrow> unix_milli cutoff \<le> ms))) (db_executions d))), d)"

section \<open>Constraints are preserved\<close>

lemma user_ids_cong [simp]:
  "user_ids (d\<lparr>db_projects := y1\<rparr>) = user_ids d" "user_ids (d\<lparr>db_executions := y2\<rparr>) = user_ids d"
  "user_ids (d\<lparr>db_variables := y3\<rparr>) = user_ids d" "user_ids (d\<lparr>db_schedules := y4\<rparr>) = user_ids d"
  by (simp_all add: user_ids_def)

lemma update_executions_ok:
  assumes "db_ok d"
    and "\<And>r. ew_project_id (f r) = ew_project_id r" "\<And>r. ew_id (f r) = ew_id r"
      "\<And>r. ew_execution_id (f r) = ew_execution_id r" "\<And>r. ew_attempt (f r) = ew_attempt r"
      "\<And>r. ew_trigger (f r) = ew_trigger r" "\<And>r. ew_source (f r) = ew_source r"
      "\<And>r. ew_created_by (f r) = ew_created_by r"
    and "\<And>r. p r \<Longrightarrow> r \<in> set (db_executions d) \<Longrightarrow> ew_status (f r) \<noteq> StatusUnset"
  shows "db_ok (update_executions p f d)"
  unfolding update_executions_def using assms by (rule db_ok_update_executions)

lemma row_status_set: "db_ok d \<Longrightarrow> r \<in> set (db_executions d) \<Longrightarrow> ew_status r \<noteq> StatusUnset"
  by (auto simp: db_ok_def executions_ok_def)

lemma UpdateExecution_ok: "db_ok d \<Longrightarrow> db_ok (snd (UpdateExecution e d))"
  by (auto simp: UpdateExecution_def Let_def list_ex_iff intro!: update_executions_ok)

lemma SetCheckRunID_ok: "db_ok d \<Longrightarrow> db_ok (snd (SetCheckRunID p i c d))"
  by (auto simp: SetCheckRunID_def row_status_set intro!: update_executions_ok)

lemma claim_update_ok: "db_ok d \<Longrightarrow> db_ok (snd (claim_update w now k d))"
  by (auto simp: claim_update_def Let_def intro!: update_executions_ok)

lemma RequeueOrphanedExecutions_ok: "db_ok d \<Longrightarrow> db_ok (snd (RequeueOrphanedExecutions d))"
  by (auto simp: RequeueOrphanedExecutions_def intro!: update_executions_ok)

lemma SetCancelRequested_ok: "db_ok d \<Longrightarrow> db_ok (snd (SetCancelRequested p i d))"
  by (auto simp: SetCancelRequested_def row_status_set intro!: update_executions_ok)

lemma CancelRunningInGroup_ok: "db_ok d \<Longrightarrow> db_ok (snd (CancelRunningInGroup p g x d))"
  by (auto simp: CancelRunningInGroup_def row_status_set intro!: update_executions_ok)

lemma GetAttempt_state [simp]: "snd (GetAttempt p i d) = d"
  by (simp add: GetAttempt_def split: option.splits)

lemma ClaimPendingExecution_ok: "db_ok d \<Longrightarrow> db_ok (snd (ClaimPendingExecution w now d))"
  using claim_update_ok by (auto simp: ClaimPendingExecution_def Let_def split: option.splits)

lemma execution_defaults_simps [simp]:
  "e_ProjectID (execution_defaults e) = e_ProjectID e" "e_ExecutionID (execution_defaults e) = e_ExecutionID e"
  "e_Status (execution_defaults e) \<noteq> StatusUnset" "e_Trigger (execution_defaults e) \<noteq> TriggerUnset"
  "e_Source (execution_defaults e) \<noteq> SourceUnset" "e_CreatedBy (execution_defaults e) = e_CreatedBy e"
  by (simp_all add: execution_defaults_def)

lemma assign_ids_simps [simp]:
  "e_ID (assign_ids seq e) = seq" "e_ProjectID (assign_ids seq e) = e_ProjectID e"
  "e_Status (assign_ids seq e) = e_Status e" "e_Trigger (assign_ids seq e) = e_Trigger e"
  "e_Source (assign_ids seq e) = e_Source e" "e_CreatedBy (assign_ids seq e) = e_CreatedBy e"
  "e_ExecutionID (assign_ids seq e) = (if e_ExecutionID e = 0 then seq else e_ExecutionID e)"
  "e_Attempt (assign_ids seq e) = (if e_ExecutionID e = 0 then 1 else e_Attempt e)"
  "e_WorkspaceID (assign_ids seq e) = Some (case e_WorkspaceID e of None \<Rightarrow> seq | Some w \<Rightarrow> w)"
  by (auto simp: assign_ids_def Let_def split: option.splits)

lemma insert_conflict_None:
  "insert_conflict e d = None \<longleftrightarrow>
     execution_key (row_of_execution e) \<notin> set (map execution_key (db_executions d))
     \<and> (e_ProjectID e, e_ExecutionID e, e_Attempt e) \<notin> set (attempt_keys (db_executions d))
     \<and> (\<forall>u. e_CreatedBy e = Some u \<longrightarrow> u \<in> set (user_ids d))"
  by (auto simp: insert_conflict_def split: option.splits)

lemma CreateExecution_Inr:
  assumes "CreateExecution e0 d = (Inr e, d')"
  obtains p where "p \<in> set (db_projects d)" "pw_id p = e_ProjectID e0"
    "find (\<lambda>p. pw_id p = e_ProjectID e0) (db_projects d) = Some p"
    "e = assign_ids (pw_execution_seq p + 1) (execution_defaults e0)" "insert_conflict e d = None"
    "d' = d\<lparr>db_projects := bump_sequence (e_ProjectID e0) (db_projects d),
             db_executions := db_executions d @ [row_of_execution e]\<rparr>"
proof -
  from assms obtain p where p: "find (\<lambda>p. pw_id p = e_ProjectID e0) (db_projects d) = Some p"
    by (auto simp: CreateExecution_def split: option.splits)
  then have "p \<in> set (db_projects d)" "pw_id p = e_ProjectID e0" by (auto simp: find_Some_iff)
  with p assms show thesis
    by (intro that [of p]) (auto simp: CreateExecution_def Let_def split: option.splits)
qed

lemma CreateExecution_error: "CreateExecution e0 d = (Inl err, d') \<Longrightarrow> d' = d"
  by (auto simp: CreateExecution_def Let_def split: option.splits)

lemma bump_sequence_maps [simp]:
  "map pw_id (bump_sequence i rows) = map pw_id rows" "map pw_name (bump_sequence i rows) = map pw_name rows"
  "map pw_provider (bump_sequence i rows) = map pw_provider rows"
  "map pw_auth_type (bump_sequence i rows) = map pw_auth_type rows"
  unfolding bump_sequence_def by (intro map_update_rows; simp)+

lemma bump_sequence_in:
  "r \<in> set (bump_sequence i rows) \<Longrightarrow>
     \<exists>r0 \<in> set rows. pw_id r = pw_id r0 \<and> pw_provider r = pw_provider r0 \<and> pw_auth_type r = pw_auth_type r0
       \<and> pw_execution_seq r = pw_execution_seq r0 + (if pw_id r0 = i then 1 else 0)"
proof -
  assume "r \<in> set (bump_sequence i rows)"
  then obtain r0 where "r0 \<in> set rows" "r = (if pw_id r0 = i then r0\<lparr>pw_execution_seq := pw_execution_seq r0 + 1\<rparr> else r0)"
    unfolding bump_sequence_def set_update_rows by blast
  then show ?thesis by (intro bexI [of _ r0]) auto
qed

lemma db_ok_insert_execution:
  assumes ok: "db_ok d" and p: "p \<in> set (db_projects d)" "pw_id p = e_ProjectID e"
    and e: "e_ID e = pw_execution_seq p + 1" "e_Status e \<noteq> StatusUnset" "e_Trigger e \<noteq> TriggerUnset" "e_Source e \<noteq> SourceUnset"
    and new: "insert_conflict e d = None"
  shows "db_ok (d\<lparr>db_projects := bump_sequence (e_ProjectID e) (db_projects d),
                   db_executions := db_executions d @ [row_of_execution e]\<rparr>)" (is "db_ok ?d")
proof -
  have ids: "project_ids ?d = project_ids d" by (simp add: project_ids_def)
  have uids: "user_ids ?d = user_ids d" by simp
  from ok have dist: "distinct (map pw_id (db_projects d))" by (simp add: db_ok_def projects_ok_def)
  have "projects_ok ?d"
    using ok bump_sequence_in [of _ "e_ProjectID e" "db_projects d"] by (force simp: db_ok_def projects_ok_def)
  moreover have "executions_ok ?d"
  proof -
    have "attempt_keys [row_of_execution e] = [(e_ProjectID e, e_ExecutionID e, e_Attempt e)]"
      by (simp add: attempt_keys_def row_of_execution_def)
    moreover have "e_ProjectID e \<in> set (project_ids d)" using p by (force simp: project_ids_def)
    ultimately show ?thesis
      using ok new e unfolding executions_ok_def ids uids insert_conflict_None
      by (auto simp: db_ok_def executions_ok_def row_of_execution_def)
  qed
  moreover have "sequence_ok ?d"
  proof -
    have old: "1 \<le> ew_id r \<and> ew_id r \<le> pw_execution_seq p0"
      if "r \<in> set (db_executions d)" "p0 \<in> set (db_projects d)" "ew_project_id r = pw_id p0" for r p0
      using ok that by (auto simp: db_ok_def sequence_ok_def)
    have nonneg: "0 \<le> pw_execution_seq p0" if "p0 \<in> set (db_projects d)" for p0
      using ok that by (auto simp: db_ok_def sequence_ok_def)
    have uniq: "p' = p" if "p' \<in> set (db_projects d)" "pw_id p' = e_ProjectID e" for p'
      using dist p that by (metis distinct_map inj_onD)
    have "1 \<le> ew_id r \<and> ew_id r \<le> pw_execution_seq p'"
      if r: "r \<in> set (db_executions ?d)" and p': "p' \<in> set (db_projects ?d)" and eq: "ew_project_id r = pw_id p'" for r p'
    proof -
      from p' obtain p0 where p0: "p0 \<in> set (db_projects d)" "pw_id p' = pw_id p0"
        "pw_execution_seq p' = pw_execution_seq p0 + (if pw_id p0 = e_ProjectID e then 1 else 0)"
        using bump_sequence_in by fastforce
      from r consider "r \<in> set (db_executions d)" | "r = row_of_execution e" by auto
      then show ?thesis
      proof cases
        case 1
        with old [OF 1 p0(1)] p0(2,3) eq show ?thesis by auto
      next
        case 2
        then have "ew_project_id r = e_ProjectID e" "ew_id r = pw_execution_seq p + 1"
          using e by (simp_all add: row_of_execution_def)
        with p0 eq uniq nonneg show ?thesis by auto
      qed
    qed
    moreover have "0 \<le> pw_execution_seq p'" if "p' \<in> set (db_projects ?d)" for p'
      using bump_sequence_in [of p' "e_ProjectID e" "db_projects d"] that nonneg by force
    ultimately show ?thesis by (auto simp: sequence_ok_def)
  qed
  moreover have "variables_ok ?d" "schedules_ok ?d" "users_ok ?d" "sessions_ok ?d" "tokens_ok ?d"
    using ok unfolding db_ok_def variables_ok_def schedules_ok_def users_ok_def sessions_ok_def tokens_ok_def ids uids
    by simp_all
  ultimately show ?thesis by (simp add: db_ok_def)
qed

lemma CreateExecution_ok:
  assumes ok: "db_ok d"
  shows "db_ok (snd (CreateExecution e0 d))"
proof (cases "CreateExecution e0 d")
  case (Pair r d')
  show ?thesis
  proof (cases r)
    case (Inl err)
    with Pair CreateExecution_error ok show ?thesis by fastforce
  next
    case (Inr e)
    from CreateExecution_Inr [OF Pair [unfolded Inr]] obtain p where p: "p \<in> set (db_projects d)"
      "pw_id p = e_ProjectID e0" and e: "e = assign_ids (pw_execution_seq p + 1) (execution_defaults e0)"
      and new: "insert_conflict e d = None"
      and d': "d' = d\<lparr>db_projects := bump_sequence (e_ProjectID e0) (db_projects d),
             db_executions := db_executions d @ [row_of_execution e]\<rparr>" by metis
    have "e_ProjectID e0 = e_ProjectID e" by (simp add: e)
    then show ?thesis
      using db_ok_insert_execution [OF ok p(1) _ _ _ _ _ new] p(2) d' by (simp add: Pair e)
  qed
qed

end
