(* ===== verification/SqliteQueue.thy ===== *)
theory SqliteQueue
  imports SqliteExecutions
begin

text \<open>
  What the execution tables promise: numbering, reading back a created execution, the order of
  claims, and exclusive claims under interleaving. \<open>queue_step\<close> is the state machine of several
  workers that each run the select and the guarded update of \<^verbatim>\<open>ClaimPendingExecution\<close> as separate
  database statements, next to clients that create executions.
\<close>

section \<open>Lookup lemmas\<close>

lemma find_at_key:
  assumes "db_ok d" "r \<in> set (db_executions d)"
  shows "find (at_key (ew_project_id r) (ew_id r)) (db_executions d) = Some r"
proof -
  have "distinct (map execution_key (db_executions d))" using assms(1) by (simp add: db_ok_def executions_ok_def)
  from find_distinct [OF this assms(2)]
  have "find (\<lambda>x. execution_key x = execution_key r) (db_executions d) = Some r" .
  moreover have "(\<lambda>x. execution_key x = execution_key r) = at_key (ew_project_id r) (ew_id r)"
    by (auto simp: execution_key_def at_key_def fun_eq_iff)
  ultimately show ?thesis by simp
qed

lemma GetAttempt_at_key:
  "GetAttempt p i d = (case find (at_key p i) (db_executions d) of None \<Rightarrow> (Inl ErrNotFound, d)
     | Some r \<Rightarrow> (Inr (raw_execution d r), d))"
proof -
  have "(\<lambda>r. ew_project_id r = p \<and> ew_id r = i) = at_key p i" by (auto simp: at_key_def fun_eq_iff)
  then show ?thesis by (simp add: GetAttempt_def)
qed

lemma GetAttempt_row:
  "db_ok d \<Longrightarrow> r \<in> set (db_executions d) \<Longrightarrow> GetAttempt (ew_project_id r) (ew_id r) d = (Inr (raw_execution d r), d)"
  by (simp add: GetAttempt_at_key find_at_key)

lemma raw_execution_simps [simp]:
  "e_ProjectID (raw_execution d r) = ew_project_id r" "e_ID (raw_execution d r) = ew_id r"
  "e_Status (raw_execution d r) = ew_status r" "e_Steps (raw_execution d r) = ew_steps_json r"
  "e_Workflow (raw_execution d r) = ew_workflow r" "e_Ref (raw_execution d r) = ew_ref r"
  "e_CommitSHA (raw_execution d r) = ew_commit_sha r" "e_Trigger (raw_execution d r) = ew_trigger r"
  "e_Error (raw_execution d r) = ew_error r" "e_Source (raw_execution d r) = ew_source r"
  "e_SnapshotID (raw_execution d r) = ew_snapshot_id r" "e_WorkspaceID (raw_execution d r) = ew_workspace_id r"
  "e_CreatedBy (raw_execution d r) = ew_created_by r" "e_ConcurrencyGroup (raw_execution d r) = ew_concurrency_group r"
  "e_CreatedAt (raw_execution d r) = from_unix_milli (ew_created_at r)"
  "e_StartedAt (raw_execution d r) = opt_from_milli (ew_started_at r)"
  "e_FinishedAt (raw_execution d r) = opt_from_milli (ew_finished_at r)"
  "e_Attempt (raw_execution d r) = (if ew_attempt r = 0 then 1 else ew_attempt r)"
  "e_ExecutionID (raw_execution d r) = (case ew_execution_id r of None \<Rightarrow> ew_id r | Some x \<Rightarrow> x)"
  by (simp_all add: raw_execution_def scanExecution_def Let_def)

lemma in_update_executions:
  "r \<in> set (db_executions (update_executions p f d)) \<longleftrightarrow> (\<exists>r0 \<in> set (db_executions d). r = (if p r0 then f r0 else r0))"
  by (simp add: update_executions_def set_update_rows)

lemma update_executions_other [simp]:
  "db_projects (update_executions p f d) = db_projects d" "db_users (update_executions p f d) = db_users d"
  "db_variables (update_executions p f d) = db_variables d" "db_schedules (update_executions p f d) = db_schedules d"
  "db_sessions (update_executions p f d) = db_sessions d" "db_api_tokens (update_executions p f d) = db_api_tokens d"
  by (simp_all add: update_executions_def)

section \<open>Selecting the next execution\<close>

lemma sort_key_hd_min:
  fixes f :: "'a \<Rightarrow> int"
  assumes "sort_key f xs = y # ys" "x \<in> set xs"
  shows "f y \<le> f x" "y \<in> set xs"
proof -
  have "set (sort_key f xs) = set xs" by simp
  then have "x \<in> set (y # ys)" "y \<in> set xs" using assms by (metis, metis list.set_intros(1))
  moreover have "sorted (map f (y # ys))" using assms(1) sorted_sort_key [of f xs] by simp
  ultimately show "f y \<le> f x" "y \<in> set xs" by auto
qed

lemma claim_select_Some:
  assumes "claim_select d = Some k"
  obtains r where "r \<in> set (db_executions d)" "ew_status r = StatusPending" "k = execution_key r"
    "\<And>r'. r' \<in> set (db_executions d) \<Longrightarrow> ew_status r' = StatusPending \<Longrightarrow> ew_id r \<le> ew_id r'"
proof -
  let ?pending = "filter (\<lambda>r. ew_status r = StatusPending) (db_executions d)"
  from assms obtain r rs where rs: "sort_key ew_id ?pending = r # rs" "k = execution_key r"
    by (auto simp: claim_select_def split: list.splits)
  then have "r \<in> set ?pending" by (metis list.set_intros(1) set_sort)
  with rs sort_key_hd_min(1) [OF rs(1)] show thesis by (intro that [of r]) auto
qed

lemma claim_select_None:
  "claim_select d = None \<longleftrightarrow> (\<forall>r \<in> set (db_executions d). ew_status r \<noteq> StatusPending)"
proof -
  let ?pending = "filter (\<lambda>r. ew_status r = StatusPending) (db_executions d)"
  have "claim_select d = None \<longleftrightarrow> sort_key ew_id ?pending = []"
    by (auto simp: claim_select_def split: list.splits)
  also have "\<dots> \<longleftrightarrow> ?pending = []" by (metis set_empty set_sort)
  finally show ?thesis by (simp add: filter_empty_conv)
qed

lemma claim_update_rows:
  assumes "db_ok d" "r \<in> set (db_executions d)" "ew_status r = StatusPending"
  shows "fst (claim_update w now (execution_key r) d)"
    "r\<lparr>ew_status := StatusRunning, ew_claimed_by := w, ew_started_at := Some (unix_milli now)\<rparr>
       \<in> set (db_executions (snd (claim_update w now (execution_key r) d)))"
    "r' \<in> set (db_executions d) \<Longrightarrow> r' \<noteq> r \<Longrightarrow> r' \<in> set (db_executions (snd (claim_update w now (execution_key r) d)))"
proof -
  have dist: "distinct (map execution_key (db_executions d))" using assms(1) by (simp add: db_ok_def executions_ok_def)
  show "fst (claim_update w now (execution_key r) d)"
    using assms(2,3) by (auto simp: claim_update_def Let_def list_ex_iff)
  show "r\<lparr>ew_status := StatusRunning, ew_claimed_by := w, ew_started_at := Some (unix_milli now)\<rparr>
       \<in> set (db_executions (snd (claim_update w now (execution_key r) d)))"
    using assms(2,3) by (force simp: claim_update_def Let_def in_update_executions)
  assume r': "r' \<in> set (db_executions d)" "r' \<noteq> r"
  then have "execution_key r' \<noteq> execution_key r" using dist assms(2) by (metis distinct_map inj_onD)
  with r'(1) show "r' \<in> set (db_executions (snd (claim_update w now (execution_key r) d)))"
    by (force simp: claim_update_def Let_def in_update_executions)
qed

section \<open>Several workers\<close>

record queue_state =
  q_db :: db
  q_selected :: "string \<Rightarrow> (uuid \<times> int) option"
  q_claims :: "(string \<times> (uuid \<times> int)) list"

inductive queue_step :: "queue_state \<Rightarrow> queue_state \<Rightarrow> bool" where
  select: "queue_step s (s\<lparr>q_selected := (q_selected s)(w := claim_select (q_db s))\<rparr>)"
| update: "q_selected s w = Some k \<Longrightarrow> claim_update w now k (q_db s) = (hit, d) \<Longrightarrow>
    queue_step s (s\<lparr>q_db := d, q_selected := (q_selected s)(w := None),
                    q_claims := (if hit then q_claims s @ [(w, k)] else q_claims s)\<rparr>)"
| create: "CreateExecution e (q_db s) = (r, d) \<Longrightarrow> queue_step s (s\<lparr>q_db := d\<rparr>)"
| finish: "UpdateExecution e (q_db s) = (r, d) \<Longrightarrow> e_Status e \<noteq> StatusPending \<Longrightarrow> queue_step s (s\<lparr>q_db := d\<rparr>)"

inductive queue_reachable :: "db \<Rightarrow> queue_state \<Rightarrow> bool" for d where
  start: "queue_reachable d \<lparr>q_db = d, q_selected = (\<lambda>_. None), q_claims = []\<rparr>"
| step: "queue_reachable d s \<Longrightarrow> queue_step s s' \<Longrightarrow> queue_reachable d s'"

text \<open>A claimed execution is in the table and is not pending.\<close>

definition claimed_key :: "db \<Rightarrow> uuid \<times> int \<Rightarrow> bool" where
  "claimed_key d k \<longleftrightarrow> (\<exists>r \<in> set (db_executions d). execution_key r = k \<and> ew_status r \<noteq> StatusPending)"

definition queue_inv :: "queue_state \<Rightarrow> bool" where
  "queue_inv s \<longleftrightarrow> db_ok (q_db s) \<and> distinct (map snd (q_claims s)) \<and> (\<forall>c \<in> set (q_claims s). claimed_key (q_db s) (snd c))"

lemma claimed_key_unique:
  assumes "db_ok d" "claimed_key d k" "r \<in> set (db_executions d)" "execution_key r = k"
  shows "ew_status r \<noteq> StatusPending"
proof -
  have "distinct (map execution_key (db_executions d))" using assms(1) by (simp add: db_ok_def executions_ok_def)
  with assms show ?thesis unfolding claimed_key_def by (metis distinct_map inj_onD)
qed

lemma claimed_key_update:
  assumes "claimed_key d k" "\<And>r. execution_key (f r) = execution_key r"
    "\<And>r. p r \<Longrightarrow> ew_status (f r) \<noteq> StatusPending"
  shows "claimed_key (update_executions p f d) k"
proof -
  from assms(1) obtain r where r: "r \<in> set (db_executions d)" "execution_key r = k" "ew_status r \<noteq> StatusPending"
    by (auto simp: claimed_key_def)
  let ?r = "if p r then f r else r"
  have "?r \<in> set (db_executions (update_executions p f d))" using r(1) by (auto simp: in_update_executions)
  moreover have "execution_key ?r = k" "ew_status ?r \<noteq> StatusPending" using r assms(2,3) by auto
  ultimately show ?thesis unfolding claimed_key_def by blast
qed

lemma claimed_key_claim:
  assumes "claim_update w now k d = (hit, d')"
  shows "claimed_key d c \<Longrightarrow> claimed_key d' c" "hit \<Longrightarrow> claimed_key d' k"
    "hit \<Longrightarrow> \<exists>r \<in> set (db_executions d). execution_key r = k \<and> ew_status r = StatusPending"
proof -
  let ?p = "\<lambda>r. execution_key r = k \<and> ew_status r = StatusPending"
  let ?f = "\<lambda>r. r\<lparr>ew_status := StatusRunning, ew_claimed_by := w, ew_started_at := Some (unix_milli now)\<rparr>"
  from assms have hit: "hit \<longleftrightarrow> list_ex ?p (db_executions d)" and d: "d' = update_executions ?p ?f d"
    by (auto simp: claim_update_def Let_def)
  have key: "execution_key (?f r) = execution_key r" for r by (simp add: execution_key_def)
  show "claimed_key d c \<Longrightarrow> claimed_key d' c"
    unfolding d by (rule claimed_key_update) (simp_all add: key)
  show ex: "hit \<Longrightarrow> \<exists>r \<in> set (db_executions d). execution_key r = k \<and> ew_status r = StatusPending"
    using hit by (auto simp: list_ex_iff)
  assume hit
  with ex obtain r where r: "r \<in> set (db_executions d)" "?p r" by blast
  then have "?f r \<in> set (db_executions d')" unfolding d in_update_executions by (intro bexI [of _ r]) simp_all
  moreover have "execution_key (?f r) = k" "ew_status (?f r) \<noteq> StatusPending" using r(2) key by simp_all
  ultimately show "claimed_key d' k" unfolding claimed_key_def by blast
qed

lemma claimed_key_finish:
  assumes "UpdateExecution e d = (r, d')" "e_Status e \<noteq> StatusPending" "claimed_key d c"
  shows "claimed_key d' c"
proof (cases "e_Status e = StatusUnset \<and> list_ex (at_key (e_ProjectID e) (e_ID e)) (db_executions d)")
  case True
  with assms show ?thesis by (simp add: UpdateExecution_def Let_def)
next
  case False
  with assms(1) have d': "d' = snd (Inr () :: store_error + unit, update_executions (at_key (e_ProjectID e) (e_ID e))
      (\<lambda>r. r\<lparr>ew_status := e_Status e, ew_steps_json := e_Steps e, ew_error := e_Error e,
             ew_started_at := opt_milli (e_StartedAt e), ew_setup_finished_at := opt_milli (e_SetupFinishedAt e),
             ew_finished_at := opt_milli (e_FinishedAt e), ew_commit_sha := e_CommitSHA e,
             ew_concurrency_group := e_ConcurrencyGroup e\<rparr>) d)"
    by (auto simp: UpdateExecution_def Let_def)
  show ?thesis
    unfolding d' snd_conv using assms(3)
    by (rule claimed_key_update) (simp_all add: execution_key_def assms(2))
qed

lemma claimed_key_create:
  assumes "CreateExecution e d = (r, d')" "claimed_key d c"
  shows "claimed_key d' c"
proof (cases r)
  case (Inl err)
  with assms CreateExecution_error show ?thesis by blast
next
  case (Inr e')
  from CreateExecution_Inr [OF assms(1) [unfolded Inr]]
  have "db_executions d' = db_executions d @ [row_of_execution e']" by (metis db.select_convs(3) db.surjective db.update_convs(1,3))
  with assms(2) show ?thesis by (auto simp: claimed_key_def)
qed

lemma ClaimPendingExecution_claims:
  assumes "db_ok d" "ClaimPendingExecution w now d = (r, d')"
  shows "db_ok d'" "claimed_key d c \<Longrightarrow> claimed_key d' c"
    "r = Inr e \<Longrightarrow> \<not> claimed_key d (e_ProjectID e, e_ID e) \<and> claimed_key d' (e_ProjectID e, e_ID e)"
proof -
  have "db_ok d' \<and> (claimed_key d c \<longrightarrow> claimed_key d' c)
    \<and> (r = Inr e \<longrightarrow> \<not> claimed_key d (e_ProjectID e, e_ID e) \<and> claimed_key d' (e_ProjectID e, e_ID e))"
  proof (cases "claim_select d")
    case None
    with assms show ?thesis by (auto simp: ClaimPendingExecution_def)
  next
    case (Some k)
    obtain hit d1 where u: "claim_update w now k d = (hit, d1)" by fastforce
    have ok: "db_ok d1" using claim_update_ok [OF assms(1), of w now k] u by simp
    note claims = claimed_key_claim [OF u]
    have free: "\<not> claimed_key d k" if hit
      using claims(3) [OF that] claimed_key_unique [OF assms(1), of k] by blast
    show ?thesis
    proof (cases hit)
      case True
      then have g: "GetAttempt (fst k) (snd k) d1 = (r, d')" using assms(2) Some u by (simp add: ClaimPendingExecution_def)
      have "d' = d1" using g by (simp add: GetAttempt_at_key split: option.splits)
      moreover have "(e_ProjectID e, e_ID e) = k" if e: "r = Inr e"
      proof -
        from g e obtain x where x: "find (at_key (fst k) (snd k)) (db_executions d1) = Some x" "e = raw_execution d1 x"
          by (auto simp: GetAttempt_at_key split: option.splits)
        then have "at_key (fst k) (snd k) x" by (auto dest: find_SomeD)
        with x(2) show ?thesis by (cases k) (auto simp: at_key_def)
      qed
      ultimately have "d' = d1 \<and> (r = Inr e \<longrightarrow> (e_ProjectID e, e_ID e) = k)" by blast
      with ok claims(1,2) free True show ?thesis by auto
    next
      case False
      with assms Some u ok show ?thesis by (auto simp: ClaimPendingExecution_def)
    qed
  qed
  then show "db_ok d'" "claimed_key d c \<Longrightarrow> claimed_key d' c"
    "r = Inr e \<Longrightarrow> \<not> claimed_key d (e_ProjectID e, e_ID e) \<and> claimed_key d' (e_ProjectID e, e_ID e)" by auto
qed

lemma queue_inv_step:
  assumes "queue_step s s'" "queue_inv s"
  shows "queue_inv s'"
  using assms
proof (induction rule: queue_step.induct)
  case (select s w)
  then show ?case by (simp add: queue_inv_def)
next
  case (update s w k now hit d)
  note inv = update.prems
  note keep = claimed_key_claim [OF update(2)]
  have ok: "db_ok d" using claim_update_ok [of "q_db s" w now k] inv update(2) by (simp add: queue_inv_def)
  have "k \<notin> set (map snd (q_claims s))" if hit
    using inv claimed_key_unique [of "q_db s" k] keep(3) [OF that] unfolding queue_inv_def by fastforce
  moreover have "claimed_key d (snd c)" if "c \<in> set (q_claims s)" for c
    using inv keep(1) that by (simp add: queue_inv_def)
  ultimately show ?case using keep(2) inv ok by (auto simp: queue_inv_def)
next
  case (create e s r d)
  note inv = create.prems
  have ok: "db_ok d" using CreateExecution_ok [of "q_db s" e] inv create(1) by (simp add: queue_inv_def)
  have "claimed_key (q_db s) c \<Longrightarrow> claimed_key d c" for c using claimed_key_create [OF create(1)] .
  then show ?case using inv ok by (auto simp: queue_inv_def)
next
  case (finish e s r d)
  note inv = finish.prems
  have ok: "db_ok d" using UpdateExecution_ok [of "q_db s" e] inv finish(1) by (simp add: queue_inv_def)
  have "claimed_key (q_db s) c \<Longrightarrow> claimed_key d c" for c
    using claimed_key_finish [OF finish(1,2)] .
  then show ?case using inv ok by (auto simp: queue_inv_def)
qed

lemma queue_reachable_inv: "queue_reachable d s \<Longrightarrow> db_ok d \<Longrightarrow> queue_inv s"
  by (induction rule: queue_reachable.induct) (auto simp: queue_inv_def [of "\<lparr>q_db = _, q_selected = _, q_claims = _\<rparr>"] queue_inv_step)

section \<open>Interfaces\<close>

text \<open>What the runner and the application modules rely on when they create and read attempts.\<close>

locale attempt_store =
  fixes inv :: "'d \<Rightarrow> bool"
    and create :: "execution \<Rightarrow> 'd \<Rightarrow> (store_error + execution) \<times> 'd"
    and get :: "uuid \<Rightarrow> int \<Rightarrow> 'd \<Rightarrow> (store_error + execution) \<times> 'd"
    and cancel :: "uuid \<Rightarrow> int \<Rightarrow> 'd \<Rightarrow> (store_error + unit) \<times> 'd"
    and cancelled :: "uuid \<Rightarrow> int \<Rightarrow> 'd \<Rightarrow> (store_error + bool) \<times> 'd"
  assumes create_inv: "inv d \<Longrightarrow> inv (snd (create e d))"
    and cancel_inv: "inv d \<Longrightarrow> inv (snd (cancel p i d))"
    and create_error: "create e d = (Inl err, d') \<Longrightarrow> d' = d"
    and create_get: "inv d \<Longrightarrow> create e0 d = (Inr e, d') \<Longrightarrow>
        \<exists>x. get (e_ProjectID e) (e_ID e) d' = (Inr x, d') \<and> e_Status x = e_Status e \<and> e_Workflow x = e_Workflow e
          \<and> e_Steps x = e_Steps e \<and> e_ExecutionID x = e_ExecutionID e \<and> e_WorkspaceID x = e_WorkspaceID e
          \<and> e_SnapshotID x = e_SnapshotID e \<and> e_Source x = e_Source e \<and> e_CommitSHA x = e_CommitSHA e"
    and create_fields: "create e0 d = (Inr e, d') \<Longrightarrow>
        e_ProjectID e = e_ProjectID e0 \<and> e_Workflow e = e_Workflow e0 \<and> e_Steps e = e_Steps e0
        \<and> e_Source e = (if e_Source e0 = SourceUnset then SourceGit else e_Source e0) \<and> e_SnapshotID e = e_SnapshotID e0"
    and create_keeps: "inv d \<Longrightarrow> create e0 d = (Inr e, d') \<Longrightarrow> get p i d = (Inr x, d1) \<Longrightarrow>
        (p, i) \<noteq> (e_ProjectID e, e_ID e) \<and> (\<exists>x'. get p i d' = (Inr x', d') \<and> e_Status x' = e_Status x)"
    and cancel_cancelled: "inv d \<Longrightarrow> get p i d = (Inr x, d1) \<Longrightarrow> cancelled p i (snd (cancel p i d)) = (Inr True, snd (cancel p i d))"
begin

text \<open>Ids are never reused while the attempt exists.\<close>

lemma create_twice:
  assumes "inv d" "create e1 d = (Inr a, d1)" "create e2 d1 = (Inr b, d2)"
  shows "(e_ProjectID a, e_ID a) \<noteq> (e_ProjectID b, e_ID b)"
proof -
  from create_get [OF assms(1,2)] obtain x where "get (e_ProjectID a) (e_ID a) d1 = (Inr x, d1)" by blast
  from create_keeps [OF _ assms(3) this] create_inv [OF assms(1), of e1] assms(2) show ?thesis by simp
qed

end

lemma find_at_key_update:
  assumes "\<And>r. ew_project_id (f r) = ew_project_id r" "\<And>r. ew_id (f r) = ew_id r"
  shows "find (at_key p i) (db_executions (update_executions q f d))
    = map_option (\<lambda>r. if q r then f r else r) (find (at_key p i) (db_executions d))"
  unfolding update_executions_def using assms by (simp add: find_update_rows at_key_def)

lemma GetAttempt_Inr_iff:
  "GetAttempt p i d = (Inr x, d') \<longleftrightarrow> d' = d \<and> (\<exists>r. find (at_key p i) (db_executions d) = Some r \<and> x = raw_execution d r)"
  by (auto simp: GetAttempt_at_key split: option.splits)

interpretation sqlite: attempt_store db_ok CreateExecution GetAttempt SetCancelRequested IsCancelRequested
proof
  fix d e0 e d' assume ok: "db_ok d" and c: "CreateExecution e0 d = (Inr e, d')"
  from CreateExecution_Inr [OF c] have d': "db_executions d' = db_executions d @ [row_of_execution e]"
    by (metis db.select_convs(3) db.surjective db.update_convs(1,3))
  have ok': "db_ok d'" using CreateExecution_ok [OF ok, of e0] c by simp
  have "row_of_execution e \<in> set (db_executions d')" by (simp add: d')
  from GetAttempt_row [OF ok' this]
  show "\<exists>x. GetAttempt (e_ProjectID e) (e_ID e) d' = (Inr x, d') \<and> e_Status x = e_Status e \<and> e_Workflow x = e_Workflow e
          \<and> e_Steps x = e_Steps e \<and> e_ExecutionID x = e_ExecutionID e \<and> e_WorkspaceID x = e_WorkspaceID e
          \<and> e_SnapshotID x = e_SnapshotID e \<and> e_Source x = e_Source e \<and> e_CommitSHA x = e_CommitSHA e"
    by (simp add: row_of_execution_def)
  fix p i x d1 assume g: "GetAttempt p i d = (Inr x, d1)"
  then obtain r where r: "find (at_key p i) (db_executions d) = Some r" "x = raw_execution d r"
    by (auto simp: GetAttempt_Inr_iff)
  then have mem: "r \<in> set (db_executions d)" "execution_key r = (p, i)"
    by (auto simp: find_Some_iff at_key_def execution_key_def)
  from CreateExecution_Inr [OF c] have "insert_conflict e d = None" by metis
  then have "execution_key r \<noteq> execution_key (row_of_execution e)" using mem(1)
    by (metis insert_conflict_None image_eqI list.set_map)
  then have "(p, i) \<noteq> (e_ProjectID e, e_ID e)" using mem(2) by (simp add: execution_key_def row_of_execution_def)
  moreover have "find (at_key p i) (db_executions d') = Some r" using r by (simp add: d' find_append)
  ultimately show "(p, i) \<noteq> (e_ProjectID e, e_ID e) \<and> (\<exists>x'. GetAttempt p i d' = (Inr x', d') \<and> e_Status x' = e_Status x)"
    using r(2) by (auto simp: GetAttempt_Inr_iff)
next
  fix d e0 e d' assume c: "CreateExecution e0 d = (Inr e, d')"
  from CreateExecution_Inr [OF c] obtain seq where "e = assign_ids seq (execution_defaults e0)" by metis
  then show "e_ProjectID e = e_ProjectID e0 \<and> e_Workflow e = e_Workflow e0 \<and> e_Steps e = e_Steps e0
        \<and> e_Source e = (if e_Source e0 = SourceUnset then SourceGit else e_Source e0) \<and> e_SnapshotID e = e_SnapshotID e0"
    by (simp add: assign_ids_def execution_defaults_def Let_def)
next
  fix d p i x d1 assume "db_ok d" "GetAttempt p i d = (Inr x, d1)"
  then obtain r where r: "find (at_key p i) (db_executions d) = Some r" by (auto simp: GetAttempt_Inr_iff)
  then have "at_key p i r" by (auto simp: find_Some_iff)
  with r show "IsCancelRequested p i (snd (SetCancelRequested p i d)) = (Inr True, snd (SetCancelRequested p i d))"
    by (simp add: IsCancelRequested_def SetCancelRequested_def find_at_key_update)
qed (simp_all add: CreateExecution_ok SetCancelRequested_ok CreateExecution_error)

section \<open>Properties\<close>

text \<open>
  Numbering: an attempt stored by \<^verbatim>\<open>CreateExecution\<close> gets an id larger than every id of
  its project, starts a new execution as attempt 1 unless it continues one, owns its workspace
  unless it shares one, and reads back as it was stored; the schema's constraints keep holding.
\<close>

theorem CreateExecution_numbering:
  assumes "db_ok d" "CreateExecution e0 d = (Inr e, d')"
  shows "db_ok d' \<and> e_ProjectID e = e_ProjectID e0
    \<and> (\<forall>r \<in> set (db_executions d). ew_project_id r = e_ProjectID e \<longrightarrow> ew_id r < e_ID e)
    \<and> (e_ExecutionID e0 = 0 \<longrightarrow> e_ExecutionID e = e_ID e \<and> e_Attempt e = 1)
    \<and> (e_ExecutionID e0 \<noteq> 0 \<longrightarrow> e_ExecutionID e = e_ExecutionID e0)
    \<and> e_WorkspaceID e = Some (case e_WorkspaceID e0 of None \<Rightarrow> e_ID e | Some w \<Rightarrow> w)
    \<and> (\<exists>x. GetAttempt (e_ProjectID e) (e_ID e) d' = (Inr x, d') \<and> e_Status x = e_Status e \<and> e_Workflow x = e_Workflow e
          \<and> e_Steps x = e_Steps e \<and> e_ExecutionID x = e_ExecutionID e \<and> e_WorkspaceID x = e_WorkspaceID e
          \<and> e_SnapshotID x = e_SnapshotID e \<and> e_Source x = e_Source e \<and> e_CommitSHA x = e_CommitSHA e)"
proof -
  from CreateExecution_Inr [OF assms(2)] obtain p where p: "p \<in> set (db_projects d)" "pw_id p = e_ProjectID e0"
    and e: "e = assign_ids (pw_execution_seq p + 1) (execution_defaults e0)" by metis
  have "ew_id r < e_ID e" if "r \<in> set (db_executions d)" "ew_project_id r = e_ProjectID e" for r
    using assms(1) p that by (force simp: db_ok_def sequence_ok_def e)
  moreover have "db_ok d'" using CreateExecution_ok [OF assms(1), of e0] assms(2) by simp
  moreover have "e_ProjectID e = e_ProjectID e0" by (simp add: e)
  moreover have "e_ExecutionID e0 = 0 \<longrightarrow> e_ExecutionID e = e_ID e \<and> e_Attempt e = 1" by (simp add: e)
  moreover have "e_ExecutionID e0 \<noteq> 0 \<longrightarrow> e_ExecutionID e = e_ExecutionID e0" by (simp add: e)
  moreover have "e_WorkspaceID e = Some (case e_WorkspaceID e0 of None \<Rightarrow> e_ID e | Some w \<Rightarrow> w)"
    by (simp add: e execution_defaults_def split: option.splits)
  ultimately show ?thesis
    using sqlite.create_get [OF assms] by blast
qed

definition sample_project_row :: "uuid \<Rightarrow> string \<Rightarrow> project_row" where
  "sample_project_row i n =
     \<lparr>pw_id = i, pw_name = n, pw_repo_url = ''https://github.com/o/'' @ n, pw_provider = ProviderGithub,
      pw_auth_type = AuthTypeNone, pw_auth_user = [], pw_auth_secret = [], pw_webhook_secret = [],
      pw_default_branch = ''main'', pw_created_at = 0, pw_updated_at = 0, pw_execution_seq = 0\<rparr>"

definition sample_db :: db where
  "sample_db = empty_db\<lparr>db_projects := [sample_project_row 1 ''app'', sample_project_row 2 ''lib'']\<rparr>"

definition sample_pending :: execution where
  "sample_pending = Execution0\<lparr>e_ProjectID := 1, e_Workflow := ''build'', e_Ref := ''main'', e_CreatedAt := 5 * second\<rparr>"

lemma sample_db_ok: "db_ok sample_db"
  by (simp add: db_ok_defs sample_db_def empty_db_def sample_project_row_def attempt_keys_def)

definition sample_queue_db :: db where
  "sample_queue_db = snd (CreateExecution sample_pending sample_db)"

lemma sample_queue_db_ok: "db_ok sample_queue_db"
  unfolding sample_queue_db_def by (rule CreateExecution_ok [OF sample_db_ok])

lemma sample_create: "\<exists>e. CreateExecution sample_pending sample_db = (Inr e, sample_queue_db) \<and> e_ID e = 1"
proof -
  have "case CreateExecution sample_pending sample_db of (Inr e, d) \<Rightarrow> e_ID e = 1 | (Inl _, d) \<Rightarrow> False"
    by code_simp
  then show ?thesis
    unfolding sample_queue_db_def by (cases "CreateExecution sample_pending sample_db") (auto split: sum.splits)
qed

theorem CreateExecution_numbering_witness:
  "\<exists>e. CreateExecution sample_pending sample_db = (Inr e, sample_queue_db) \<and> e_ExecutionID e = 1
     \<and> e_WorkspaceID e = Some 1 \<and> db_ok sample_queue_db"
proof -
  from sample_create obtain e where e: "CreateExecution sample_pending sample_db = (Inr e, sample_queue_db)" "e_ID e = 1"
    by blast
  have "e_ExecutionID sample_pending = 0" "e_WorkspaceID sample_pending = None"
    by (simp_all add: sample_pending_def Execution0_def)
  with CreateExecution_numbering [OF sample_db_ok e(1)] e show ?thesis by simp
qed



text \<open>
  C3. Exclusive claims: however the selects and the guarded updates of any number of workers
  interleave with each other, with new executions and with finishing ones, no attempt is claimed
  twice, and the constraints of the schema hold throughout.
\<close>

theorem claims_are_exclusive:
  assumes "db_ok d" "queue_reachable d s"
  shows "distinct (map snd (q_claims s)) \<and> db_ok (q_db s)"
  using queue_reachable_inv [OF assms(2,1)] by (simp add: queue_inv_def)

text \<open>Two workers select the same attempt; the second update finds it taken.\<close>

definition sample_claimed :: queue_state where
  "sample_claimed =
     (let k = claim_select sample_queue_db;
          d1 = snd (claim_update ''w1'' 0 (the k) sample_queue_db)
      in \<lparr>q_db = snd (claim_update ''w2'' 0 (the k) d1), q_selected = (\<lambda>_. None), q_claims = [(''w1'', the k)]\<rparr>)"

lemma sample_claimed_reachable: "queue_reachable sample_queue_db sample_claimed"
proof -
  let ?d = sample_queue_db
  obtain k where k: "claim_select ?d = Some k" "k = (1, 1)"
  proof -
    have "claim_select ?d = Some (1, 1)" by code_simp
    then show thesis by (rule that) simp
  qed
  obtain d1 where d1: "claim_update ''w1'' 0 k ?d = (True, d1)"
  proof -
    have "fst (claim_update ''w1'' 0 k ?d)" unfolding k(2) by code_simp
    then show thesis by (metis (full_types) prod.collapse that)
  qed
  obtain d2 where d2: "claim_update ''w2'' 0 k d1 = (False, d2)"
  proof -
    have "\<not> fst (claim_update ''w2'' 0 k (snd (claim_update ''w1'' 0 k ?d)))" unfolding k(2) by code_simp
    then show thesis by (metis (full_types) d1 prod.collapse snd_conv that)
  qed
  let ?s0 = "\<lparr>q_db = ?d, q_selected = (\<lambda>_. None), q_claims = []\<rparr>"
  let ?s1 = "?s0\<lparr>q_selected := (q_selected ?s0)(''w1'' := claim_select (q_db ?s0))\<rparr>"
  let ?s2 = "?s1\<lparr>q_selected := (q_selected ?s1)(''w2'' := claim_select (q_db ?s1))\<rparr>"
  let ?s3 = "?s2\<lparr>q_db := d1, q_selected := (q_selected ?s2)(''w1'' := None), q_claims := (if True then q_claims ?s2 @ [(''w1'', k)] else q_claims ?s2)\<rparr>"
  let ?s4 = "?s3\<lparr>q_db := d2, q_selected := (q_selected ?s3)(''w2'' := None), q_claims := (if False then q_claims ?s3 @ [(''w2'', k)] else q_claims ?s3)\<rparr>"
  have "queue_reachable ?d ?s1" by (rule queue_reachable.step [OF queue_reachable.start queue_step.select])
  then have r2: "queue_reachable ?d ?s2" by (rule queue_reachable.step [OF _ queue_step.select])
  have "queue_step ?s2 ?s3" by (rule queue_step.update [where now = 0]) (simp_all add: k(1) d1)
  with r2 have r3: "queue_reachable ?d ?s3" by (rule queue_reachable.step)
  have "queue_step ?s3 ?s4" by (rule queue_step.update [where now = 0]) (simp_all add: k(1) d2)
  with r3 have "queue_reachable ?d ?s4" by (rule queue_reachable.step)
  moreover have "?s4 = sample_claimed"
    by (simp add: sample_claimed_def Let_def k(1) d1 d2 fun_eq_iff)
  ultimately show ?thesis by simp
qed

theorem claims_are_exclusive_witness:
  "distinct (map snd (q_claims sample_claimed)) \<and> db_ok (q_db sample_claimed) \<and> q_claims sample_claimed = [(''w1'', (1, 1))]"
proof -
  have "q_claims sample_claimed = [(''w1'', (1, 1))]" by code_simp
  with claims_are_exclusive [OF sample_queue_db_ok sample_claimed_reachable] show ?thesis by blast
qed

text \<open>
  Retention: a workspace that an active attempt uses is retained whatever the cutoff, and a
  workspace that is not retained is used only by finished attempts that ended before the cutoff
  (compared in milliseconds).
\<close>

theorem workspace_retention:
  shows "(fst (WorkspaceBusy p w d) = Inr True \<longrightarrow> fst (WorkspaceRetained p w cutoff d) = Inr True)
    \<and> (fst (WorkspaceRetained p w cutoff d) = Inr False \<longleftrightarrow>
         (\<forall>r \<in> set (db_executions d). ew_project_id r = p \<and> ew_workspace_id r = Some w \<longrightarrow>
            \<not> status_active (ew_status r) \<and> (\<exists>ms. ew_finished_at r = Some ms \<and> ms < unix_milli cutoff)))"
proof
  show "fst (WorkspaceBusy p w d) = Inr True \<longrightarrow> fst (WorkspaceRetained p w cutoff d) = Inr True"
    by (auto simp: WorkspaceBusy_def WorkspaceRetained_def filter_empty_conv)
  show "fst (WorkspaceRetained p w cutoff d) = Inr False \<longleftrightarrow>
         (\<forall>r \<in> set (db_executions d). ew_project_id r = p \<and> ew_workspace_id r = Some w \<longrightarrow>
            \<not> status_active (ew_status r) \<and> (\<exists>ms. ew_finished_at r = Some ms \<and> ms < unix_milli cutoff))"
    by (force simp: WorkspaceRetained_def filter_empty_conv uses_workspace_def status_active_def split: option.splits)
qed

theorem workspace_retention_witness:
  "fst (WorkspaceRetained 1 1 (10 * hour) sample_queue_db) = Inr True"
proof -
  have "fst (WorkspaceBusy 1 1 sample_queue_db) = Inr True" by code_simp
  with workspace_retention [of 1 1 sample_queue_db] show ?thesis by blast
qed

end
