(* ===== verification/Urls.thy ===== *)
theory Urls
  imports Paths
begin

text \<open>
  What the web interface uses of \<^verbatim>\<open>net/url\<close> and \<^verbatim>\<open>net/http\<close>: \<^verbatim>\<open>url.Parse\<close>, \<^verbatim>\<open>url.QueryEscape\<close> and the location that
  \<^verbatim>\<open>http.Redirect\<close> sends, and \<^verbatim>\<open>safeNext\<close> of \<^verbatim>\<open>internal/web/auth.go\<close>, which rests on them. A parsed URL keeps its scheme,
  its host and its decoded path. The validity of a host that is present is not checked: every caller rejects such an URL or leaves it
  as it is, which is also what it does when the parser fails.

  The lemmas show that a redirect to an accepted target stays on the site.
\<close>

section \<open>Parsing\<close>

definition char_between :: "char \<Rightarrow> char \<Rightarrow> char \<Rightarrow> bool" where
  "char_between lo hi c \<longleftrightarrow> of_char lo \<le> (of_char c :: nat) \<and> of_char c \<le> (of_char hi :: nat)"

definition is_letter :: "char \<Rightarrow> bool" where
  "is_letter c \<longleftrightarrow> char_between (CHR ''a'') (CHR ''z'') c \<or> char_between (CHR ''A'') (CHR ''Z'') c"

definition is_hex :: "char \<Rightarrow> bool" where
  "is_hex c \<longleftrightarrow> is_digit c \<or> char_between (CHR ''a'') (CHR ''f'') c \<or> char_between (CHR ''A'') (CHR ''F'') c"

definition unhex :: "char \<Rightarrow> nat" where
  "unhex c = (if is_digit c then of_char c - 48 else if char_between (CHR ''a'') (CHR ''z'') c then of_char c - 87 else of_char c - 55)"

fun unescape :: "string \<Rightarrow> string option" where
  "unescape [] = Some []"
| "unescape (c # s) =
     (if c = CHR ''%''
      then (case s of
              a # b # t \<Rightarrow>
                (if is_hex a \<and> is_hex b then map_option (Cons (char_of (16 * unhex a + unhex b))) (unescape t) else None)
            | _ \<Rightarrow> None)
      else map_option (Cons c) (unescape s))"

definition has_ctl_byte :: "string \<Rightarrow> bool" where
  "has_ctl_byte s \<longleftrightarrow> list_ex (\<lambda>c. of_char c < (32 :: nat) \<or> of_char c = (127 :: nat)) s"

text \<open>The text before the first occurrence of a byte and the text after it.\<close>

definition cut_at :: "char \<Rightarrow> string \<Rightarrow> string \<times> string" where
  "cut_at c s = (case CutByte s c of None \<Rightarrow> (s, []) | Some r \<Rightarrow> r)"

definition getScheme :: "string \<Rightarrow> (string \<times> string) option" where
  "getScheme raw =
     (let n = takeWhile (\<lambda>c. is_letter c \<or> is_digit c \<or> c \<in> set ''+-.'') raw
      in if n \<noteq> [] \<and> \<not> is_letter (hd n) then Some ([], raw)
         else (case drop (length n) raw of
                 c # rest \<Rightarrow> (if c = CHR '':'' then (if n = [] then None else Some (n, rest)) else Some ([], raw))
               | [] \<Rightarrow> Some ([], raw)))"

definition validUserinfo :: "string \<Rightarrow> bool" where
  "validUserinfo s \<longleftrightarrow> list_all (\<lambda>c. is_letter c \<or> is_digit c \<or> c \<in> set ''-._:~!$&()*+,;=%@'' \<or> c = CHR 0x27) s"

text \<open>The host of an authority; nothing when its user information is malformed.\<close>

definition parseAuthority :: "string \<Rightarrow> string option" where
  "parseAuthority authority =
     (let parts = SplitByte authority (CHR ''@'')
      in if length parts = 1 then Some authority
         else (let userinfo = JoinByte (butlast parts) (CHR ''@''); (user, password) = cut_at (CHR '':'') userinfo
               in if \<not> validUserinfo userinfo \<or> unescape user = None \<or> unescape password = None then None
                  else Some (last parts)))"

record go_url =
  gu_Scheme :: string
  gu_Host :: string
  gu_Path :: string

definition parse_rest :: "string \<Rightarrow> string \<Rightarrow> go_url option" where
  "parse_rest scheme rest =
     (if \<not> HasPrefix rest ''/''
      then (if scheme \<noteq> [] then Some \<lparr>gu_Scheme = ToLower scheme, gu_Host = [], gu_Path = []\<rparr>
            else if CHR '':'' \<in> set (fst (cut_at (CHR ''/'') rest)) then None
            else map_option (\<lambda>p. \<lparr>gu_Scheme = [], gu_Host = [], gu_Path = p\<rparr>) (unescape rest))
      else if (scheme \<noteq> [] \<or> \<not> HasPrefix rest ''///'') \<and> HasPrefix rest ''//''
      then (let authority = takeWhile (\<lambda>c. c \<noteq> CHR ''/'') (drop 2 rest); path = drop (length authority) (drop 2 rest)
            in case parseAuthority authority of
                 None \<Rightarrow> None
               | Some host \<Rightarrow> map_option (\<lambda>p. \<lparr>gu_Scheme = ToLower scheme, gu_Host = host, gu_Path = p\<rparr>) (unescape path))
      else map_option (\<lambda>p. \<lparr>gu_Scheme = ToLower scheme, gu_Host = [], gu_Path = p\<rparr>) (unescape rest))"

definition url_Parse :: "string \<Rightarrow> go_url option" where
  "url_Parse rawURL =
     (let (u, frag) = cut_at (CHR ''#'') rawURL
      in if has_ctl_byte u \<or> unescape frag = None then None
         else if u = ''*'' then Some \<lparr>gu_Scheme = [], gu_Host = [], gu_Path = ''*''\<rparr>
         else (case getScheme u of
                 None \<Rightarrow> None
               | Some (scheme, rest) \<Rightarrow> parse_rest scheme (fst (cut_at (CHR ''?'') rest))))"

section \<open>Escaping\<close>

definition hex_digit :: "nat \<Rightarrow> char" where
  "hex_digit n = (if n < 10 then char_of (n + 48) else char_of (n + 55))"

definition QueryEscape :: "string \<Rightarrow> string" where
  "QueryEscape s =
     concat (map (\<lambda>c. if is_letter c \<or> is_digit c \<or> c \<in> set ''-_.~'' then [c]
                      else if c = CHR '' '' then ''+''
                      else [CHR ''%'', hex_digit (of_char c div 16), hex_digit (of_char c mod 16)]) s)"

section \<open>Redirects\<close>

definition has_host :: "string \<Rightarrow> bool" where
  "has_host url \<longleftrightarrow> (case url_Parse url of None \<Rightarrow> True | Some u \<Rightarrow> gu_Scheme u \<noteq> [] \<or> gu_Host u \<noteq> [])"

definition clean_location :: "string \<Rightarrow> string" where
  "clean_location url =
     (let path = takeWhile (\<lambda>c. c \<noteq> CHR ''?'') url; query = drop (length path) url; cleaned = Clean path
      in (if HasSuffix path ''/'' \<and> \<not> HasSuffix cleaned ''/'' then cleaned @ ''/'' else cleaned) @ query)"

text \<open>The location header for a target that is an URL of another site, or a path below \<open>oldpath\<close>'s directory, or an absolute path.\<close>

definition http_Redirect :: "string \<Rightarrow> string \<Rightarrow> string" where
  "http_Redirect oldpath url =
     (if has_host url then url
      else (let oldpath1 = (if oldpath = [] then ''/'' else oldpath);
                olddir = JoinByte (butlast (SplitByte oldpath1 (CHR ''/'')) @ [[]]) (CHR ''/'')
            in clean_location (if HasPrefix url ''/'' then url else olddir @ url)))"

definition safeNext :: "string \<Rightarrow> string" where
  "safeNext nxt =
     (if nxt = [] \<or> CHR 0x5C \<in> set nxt then []
      else (case url_Parse nxt of
              None \<Rightarrow> []
            | Some u \<Rightarrow>
                (if gu_Scheme u \<noteq> [] \<or> gu_Host u \<noteq> [] then []
                 else if \<not> HasPrefix (gu_Path u) ''/'' \<or> HasPrefix (gu_Path u) ''//'' then []
                 else nxt)))"

lemma safeNext_samples:
  "safeNext ''/projects?x=1#top'' = ''/projects?x=1#top''" "safeNext ''//evil.org/a'' = []" "safeNext ''https://evil.org'' = []"
  "safeNext ''///evil.org'' = []" "safeNext ''/%2Fevil.org'' = []" "safeNext ''projects'' = []" "safeNext ''javascript:alert(1)'' = []"
  "http_Redirect ''/auth/github/callback'' ''//u@/../..//a?b=//c'' = ''/a?b=//c''"
  by code_simp+

section \<open>Redirects stay on the site\<close>

text \<open>A location a browser resolves against the site: an absolute path that no authority can hide in.\<close>

fun local_location :: "string \<Rightarrow> bool" where
  "local_location (c # rest) \<longleftrightarrow> c = CHR ''/'' \<and> (case rest of [] \<Rightarrow> True | d # _ \<Rightarrow> d \<noteq> CHR ''/'' \<and> d \<noteq> CHR 0x5C)"
| "local_location [] \<longleftrightarrow> False"

lemma SplitByte_chars: "w \<in> set (SplitByte s c) \<Longrightarrow> set w \<subseteq> set s"
proof (induction s arbitrary: w)
  case (Cons x s)
  note prems = Cons.prems and IH = Cons.IH
  show ?case
  proof (cases "SplitByte s c")
    case (Cons a list)
    have "set a \<subseteq> set s" "\<And>v. v \<in> set list \<Longrightarrow> set v \<subseteq> set s" using IH Cons by auto
    with Cons prems show ?thesis by (auto split: if_splits)
  qed simp
qed simp

lemma clean_stack_subset: "set (clean_stack True ps ws) \<subseteq> set ps \<union> set ws"
proof -
  have "set (foldl (clean_step True) acc ws) \<subseteq> set acc \<union> set ws" for acc
  proof (induction ws arbitrary: acc)
    case (Cons w ws)
    have "set (clean_step True acc w) \<subseteq> insert w (set acc)" by (auto simp: clean_step_def split: list.splits)
    with Cons.IH [of "clean_step True acc w"] show ?case by auto
  qed simp
  from this [of "rev ps"] show ?thesis by (simp add: clean_stack_def)
qed

lemma Clean_local:
  assumes "HasPrefix p ''/''" "CHR 0x5C \<notin> set p"
  shows "Clean p = ''/'' \<or> (\<exists>d rest. Clean p = CHR ''/'' # d # rest \<and> d \<noteq> CHR ''/'' \<and> d \<noteq> CHR 0x5C)"
proof -
  let ?ps = "clean_stack True [] (path_parts p)"
  have c: "Clean p = CHR ''/'' # JoinByte ?ps (CHR ''/'')"
    using assms(1) by (simp add: Clean_def IsAbs_def HasPrefix_def render_path_def)
  have pl: "\<forall>w \<in> set ?ps. plain w" by (rule clean_stack_rooted_plain) (auto dest: path_parts_no_slash)
  show ?thesis
  proof (cases ?ps)
    case Nil
    then show ?thesis using c by simp
  next
    case (Cons w ws)
    then have "w \<in> set (path_parts p)" using clean_stack_subset [of "[]" "path_parts p"] by auto
    then have "set w \<subseteq> set p" by (auto simp: path_parts_def dest: SplitByte_chars)
    moreover have "plain w" using pl Cons by simp
    then obtain d v where "w = d # v" "d \<noteq> CHR ''/''" by (cases w) (auto simp: plain_def)
    ultimately show ?thesis using c Cons assms(2) by (cases ws) auto
  qed
qed

lemma local_append:
  "b = ''/'' \<or> (\<exists>d rest. b = CHR ''/'' # d # rest \<and> d \<noteq> CHR ''/'' \<and> d \<noteq> CHR 0x5C) \<Longrightarrow> q = [] \<or> hd q = CHR ''?'' \<Longrightarrow>
    local_location (b @ q)"
  by (cases q) auto

lemma clean_location_local:
  assumes "HasPrefix url ''/''" "CHR 0x5C \<notin> set url"
  shows "local_location (clean_location url)"
proof -
  let ?path = "takeWhile (\<lambda>c. c \<noteq> CHR ''?'') url"
  let ?query = "drop (length ?path) url"
  have pre: "HasPrefix ?path ''/''" using assms(1) by (cases url) (auto simp: HasPrefix_def)
  have no: "CHR 0x5C \<notin> set ?path" using assms(2) by (auto dest: set_takeWhileD)
  have q: "?query = [] \<or> hd ?query = CHR ''?''"
    using hd_dropWhile [of "\<lambda>c. c \<noteq> CHR ''?''" url] dropWhile_eq_drop [of "\<lambda>c. c \<noteq> CHR ''?''" url] by auto
  let ?b = "if HasSuffix ?path ''/'' \<and> \<not> HasSuffix (Clean ?path) ''/'' then Clean ?path @ ''/'' else Clean ?path"
  have "?b = ''/'' \<or> (\<exists>d rest. ?b = CHR ''/'' # d # rest \<and> d \<noteq> CHR ''/'' \<and> d \<noteq> CHR 0x5C)"
    using Clean_local [OF pre no] by (auto simp: HasSuffix_def)
  from local_append [OF this q] show ?thesis by (simp add: clean_location_def Let_def)
qed

lemma safeNext_accepts:
  assumes "safeNext nxt \<noteq> []"
  shows "safeNext nxt = nxt" "CHR 0x5C \<notin> set nxt" "\<not> has_host nxt"
  using assms by (auto simp: safeNext_def has_host_def split: if_splits option.splits)

lemma safeNext_redirect_local:
  assumes "safeNext nxt \<noteq> []" "HasPrefix oldpath ''/''" "CHR 0x5C \<notin> set oldpath"
  shows "local_location (http_Redirect oldpath (safeNext nxt))"
proof -
  note n = safeNext_accepts [OF assms(1)]
  let ?parts = "SplitByte oldpath (CHR ''/'')"
  let ?dir = "JoinByte (butlast ?parts @ [[]]) (CHR ''/'')"
  obtain t where t: "oldpath = CHR ''/'' # t" using assms(2) by (cases oldpath) (auto simp: HasPrefix_def)
  have parts: "?parts = [] # SplitByte t (CHR ''/'')" by (simp add: t)
  have chars: "set ?dir \<subseteq> insert (CHR ''/'') (set oldpath)"
  proof -
    have "set (JoinByte ws c) \<subseteq> insert c (\<Union> (set ` set ws))" for ws c by (induction ws c rule: JoinByte.induct) auto
    moreover have "set w \<subseteq> set oldpath" if "w \<in> set (butlast ?parts @ [[]])" for w
      using that SplitByte_chars [of w oldpath "CHR ''/''"] by (auto dest: in_set_butlastD)
    ultimately show ?thesis by blast
  qed
  have dir: "HasPrefix ?dir ''/''"
    unfolding parts by (cases "butlast (SplitByte t (CHR ''/''))") (auto simp: HasPrefix_def)
  have "HasPrefix (if HasPrefix nxt ''/'' then nxt else ?dir @ nxt) ''/''"
    using dir by (auto simp: HasPrefix_def)
  moreover have "CHR 0x5C \<notin> set (if HasPrefix nxt ''/'' then nxt else ?dir @ nxt)"
    using chars n(2) assms(3) by auto
  ultimately have "local_location (clean_location (if HasPrefix nxt ''/'' then nxt else ?dir @ nxt))" by (rule clean_location_local)
  moreover have "http_Redirect oldpath (safeNext nxt) = clean_location (if HasPrefix nxt ''/'' then nxt else ?dir @ nxt)"
    using n(1,3) by (simp only: http_Redirect_def Let_def t) simp
  ultimately show ?thesis by simp
qed

end
