(* ===== verification/SqliteUsers.thy ===== *)
theory SqliteUsers
  imports SqliteExecutions
begin

text \<open>
  Users, browser sessions and API tokens in \<^verbatim>\<open>internal/stores/sqlite.go\<close>, over the tables
  of \<open>Database\<close>. \<^verbatim>\<open>UpsertUser\<close> takes the random identifier and the current time it may need as
  arguments. The last section shows that every operation keeps the schema's constraints.
\<close>

section \<open>Users\<close>

definition scanUser :: "aead option \<Rightarrow> user_row \<Rightarrow> user" where
  "scanUser c r =
     \<lparr>u_ID = uw_id r, u_Provider = uw_provider r, u_ProviderUserID = uw_provider_user_id r,
      u_Login = uw_login r, u_Name = uw_name r, u_AvatarURL = uw_avatar_url r,
      u_OAuthAccessToken = decrypt c (uw_oauth_token r), u_OAuthRefreshToken = decrypt c (uw_oauth_refresh_token r),
      u_OAuthExpiresAt = opt_from_milli (uw_oauth_token_expires_at r),
      u_CreatedAt = from_unix_milli (uw_created_at r), u_LastLoginAt = from_unix_milli (uw_last_login_at r),
      u_LastOrgCheckAt = opt_from_milli (uw_last_org_check_at r), u_DisabledAt = opt_from_milli (uw_disabled_at r)\<rparr>"

text \<open>The inserted row, with the defaults of the two instants.\<close>

definition user_to_row :: "aead option \<Rightarrow> uuid \<Rightarrow> go_time \<Rightarrow> user \<Rightarrow> user_row" where
  "user_to_row c fresh now u =
     (let i = (if u_ID u = uuid_Nil then fresh else u_ID u);
          created0 = (if u_CreatedAt u = zero_time then u_LastLoginAt u else u_CreatedAt u);
          created = (if created0 = zero_time then now else created0);
          lastLogin = (if u_LastLoginAt u = zero_time then created else u_LastLoginAt u)
      in \<lparr>uw_id = i, uw_provider = u_Provider u, uw_provider_user_id = u_ProviderUserID u, uw_login = u_Login u,
          uw_name = u_Name u, uw_avatar_url = u_AvatarURL u, uw_oauth_token = encrypt c (u_OAuthAccessToken u),
          uw_oauth_refresh_token = encrypt c (u_OAuthRefreshToken u),
          uw_oauth_token_expires_at = opt_milli (u_OAuthExpiresAt u), uw_created_at = unix_milli created,
          uw_last_login_at = unix_milli lastLogin, uw_last_org_check_at = opt_milli (u_LastOrgCheckAt u),
          uw_disabled_at = opt_milli (u_DisabledAt u)\<rparr>)"

definition same_account :: "user_row \<Rightarrow> user_row \<Rightarrow> bool" where
  "same_account x r \<longleftrightarrow> uw_provider r = uw_provider x \<and> uw_provider_user_id r = uw_provider_user_id x"

definition merge_user :: "user_row \<Rightarrow> user_row \<Rightarrow> user_row" where
  "merge_user x r =
     r\<lparr>uw_login := uw_login x, uw_name := uw_name x, uw_avatar_url := uw_avatar_url x,
       uw_oauth_token := uw_oauth_token x,
       uw_oauth_refresh_token := (if uw_oauth_refresh_token x = [] then uw_oauth_refresh_token r
                                  else uw_oauth_refresh_token x),
       uw_oauth_token_expires_at := uw_oauth_token_expires_at x, uw_last_login_at := uw_last_login_at x,
       uw_last_org_check_at := uw_last_org_check_at x, uw_disabled_at := None\<rparr>"

definition GetUser :: "aead option \<Rightarrow> uuid \<Rightarrow> user store_op" where
  "GetUser c i d =
     (case find (\<lambda>r. uw_id r = i) (db_users d) of
        None \<Rightarrow> (Inl ErrNotFound, d)
      | Some r \<Rightarrow> (Inr (scanUser c r), d))"

definition UpsertUser :: "aead option \<Rightarrow> uuid \<Rightarrow> go_time \<Rightarrow> user \<Rightarrow> user store_op" where
  "UpsertUser c fresh now u d =
     (let x = user_to_row c fresh now u
      in case find (same_account x) (db_users d) of
           Some r \<Rightarrow>
             GetUser c (uw_id r) (d\<lparr>db_users := update_rows (same_account x) (merge_user x) (db_users d)\<rparr>)
         | None \<Rightarrow>
             (if uw_id x \<in> set (user_ids d)
              then (Inl (ErrConstraint ''UNIQUE constraint failed: users.id''), d)
              else GetUser c (uw_id x) (d\<lparr>db_users := db_users d @ [x]\<rparr>)))"

definition ListActiveUsers :: "aead option \<Rightarrow> user list store_op" where
  "ListActiveUsers c d =
     (Inr (map (scanUser c) (sort_key uw_login (filter (\<lambda>r. uw_disabled_at r = None) (db_users d)))), d)"

definition update_user :: "uuid \<Rightarrow> (user_row \<Rightarrow> user_row) \<Rightarrow> db \<Rightarrow> db" where
  "update_user i f d = d\<lparr>db_users := update_rows (\<lambda>r. uw_id r = i) f (db_users d)\<rparr>"

definition UpdateUserOAuthToken :: "aead option \<Rightarrow> uuid \<Rightarrow> string \<Rightarrow> string \<Rightarrow> go_time option \<Rightarrow> unit store_op" where
  "UpdateUserOAuthToken c i accessToken refreshToken expiresAt d =
     (Inr (), update_user i (\<lambda>r. r\<lparr>uw_oauth_token := encrypt c accessToken,
        uw_oauth_refresh_token := encrypt c refreshToken, uw_oauth_token_expires_at := opt_milli expiresAt\<rparr>) d)"

definition SetUserOrgCheck :: "uuid \<Rightarrow> go_time \<Rightarrow> unit store_op" where
  "SetUserOrgCheck i at d = (Inr (), update_user i (\<lambda>r. r\<lparr>uw_last_org_check_at := Some (unix_milli at)\<rparr>) d)"

definition DisableUser :: "uuid \<Rightarrow> go_time \<Rightarrow> unit store_op" where
  "DisableUser i at d = (Inr (), update_user i (\<lambda>r. r\<lparr>uw_disabled_at := Some (unix_milli at)\<rparr>) d)"

section \<open>Sessions\<close>

definition scanSession :: "session_row \<Rightarrow> session" where
  "scanSession r =
     \<lparr>s_ID = sw_id r, s_UserID = sw_user_id r, s_CSRFToken = sw_csrf_token r,
      s_CreatedAt = from_unix_milli (sw_created_at r), s_LastSeenAt = from_unix_milli (sw_last_seen_at r),
      s_ExpiresAt = from_unix_milli (sw_expires_at r), s_UserAgent = sw_user_agent r\<rparr>"

definition CreateSession :: "session \<Rightarrow> unit store_op" where
  "CreateSession s d =
     (if s_ID s \<in> set (map sw_id (db_sessions d))
      then (Inl (ErrConstraint ''UNIQUE constraint failed: sessions.id''), d)
      else if s_UserID s \<notin> set (user_ids d)
      then (Inl (ErrConstraint ''FOREIGN KEY constraint failed''), d)
      else (Inr (), d\<lparr>db_sessions := db_sessions d @
              [\<lparr>sw_id = s_ID s, sw_user_id = s_UserID s, sw_csrf_token = s_CSRFToken s,
                sw_created_at = unix_milli (s_CreatedAt s), sw_last_seen_at = unix_milli (s_LastSeenAt s),
                sw_expires_at = unix_milli (s_ExpiresAt s), sw_user_agent = s_UserAgent s\<rparr>]\<rparr>))"

definition GetSession :: "string \<Rightarrow> session store_op" where
  "GetSession i d =
     (case find (\<lambda>r. sw_id r = i) (db_sessions d) of
        None \<Rightarrow> (Inl ErrNotFound, d)
      | Some r \<Rightarrow> (Inr (scanSession r), d))"

definition TouchSession :: "string \<Rightarrow> go_time \<Rightarrow> go_time \<Rightarrow> unit store_op" where
  "TouchSession i seen expires d =
     (Inr (), d\<lparr>db_sessions := update_rows (\<lambda>r. sw_id r = i)
        (\<lambda>r. r\<lparr>sw_last_seen_at := unix_milli seen, sw_expires_at := unix_milli expires\<rparr>) (db_sessions d)\<rparr>)"

definition delete_sessions :: "(session_row \<Rightarrow> bool) \<Rightarrow> unit store_op" where
  "delete_sessions p d = (Inr (), d\<lparr>db_sessions := delete_rows p (db_sessions d)\<rparr>)"

definition DeleteSession :: "string \<Rightarrow> unit store_op" where
  "DeleteSession i = delete_sessions (\<lambda>r. sw_id r = i)"

definition DeleteUserSession :: "uuid \<Rightarrow> string \<Rightarrow> unit store_op" where
  "DeleteUserSession userID i = delete_sessions (\<lambda>r. sw_user_id r = userID \<and> sw_id r = i)"

definition DeleteUserSessions :: "uuid \<Rightarrow> unit store_op" where
  "DeleteUserSessions userID = delete_sessions (\<lambda>r. sw_user_id r = userID)"

definition DeleteExpiredSessions :: "go_time \<Rightarrow> unit store_op" where
  "DeleteExpiredSessions before = delete_sessions (\<lambda>r. sw_expires_at r < unix_milli before)"

definition ListUserSessions :: "uuid \<Rightarrow> session list store_op" where
  "ListUserSessions userID d =
     (Inr (map scanSession (sort_key (\<lambda>r. - sw_last_seen_at r) (filter (\<lambda>r. sw_user_id r = userID) (db_sessions d)))), d)"

section \<open>API tokens\<close>

definition scanAPIToken :: "token_row \<Rightarrow> api_token" where
  "scanAPIToken r =
     \<lparr>t_ID = tw_id r, t_UserID = tw_user_id r, t_Name = tw_name r, t_Prefix = tw_prefix r,
      t_TokenHash = tw_token_hash r, t_CreatedAt = from_unix_milli (tw_created_at r),
      t_LastUsedAt = opt_from_milli (tw_last_used_at r), t_ExpiresAt = opt_from_milli (tw_expires_at r)\<rparr>"

definition CreateAPIToken :: "api_token \<Rightarrow> unit store_op" where
  "CreateAPIToken t d =
     (if t_ID t \<in> set (map tw_id (db_api_tokens d))
      then (Inl (ErrConstraint ''UNIQUE constraint failed: api_tokens.id''), d)
      else if t_TokenHash t \<in> set (map tw_token_hash (db_api_tokens d))
      then (Inl (ErrConstraint ''UNIQUE constraint failed: api_tokens.token_hash''), d)
      else if t_UserID t \<notin> set (user_ids d)
      then (Inl (ErrConstraint ''FOREIGN KEY constraint failed''), d)
      else (Inr (), d\<lparr>db_api_tokens := db_api_tokens d @
              [\<lparr>tw_id = t_ID t, tw_user_id = t_UserID t, tw_name = t_Name t, tw_prefix = t_Prefix t,
                tw_token_hash = t_TokenHash t, tw_created_at = unix_milli (t_CreatedAt t),
                tw_last_used_at = opt_milli (t_LastUsedAt t), tw_expires_at = opt_milli (t_ExpiresAt t)\<rparr>]\<rparr>))"

definition GetAPITokenByHash :: "string \<Rightarrow> api_token store_op" where
  "GetAPITokenByHash hash d =
     (case find (\<lambda>r. tw_token_hash r = hash) (db_api_tokens d) of
        None \<Rightarrow> (Inl ErrNotFound, d)
      | Some r \<Rightarrow> (Inr (scanAPIToken r), d))"

definition ListAPITokens :: "uuid \<Rightarrow> api_token list store_op" where
  "ListAPITokens userID d =
     (Inr (map scanAPIToken (sort_key (\<lambda>r. - tw_created_at r) (filter (\<lambda>r. tw_user_id r = userID) (db_api_tokens d)))), d)"

definition RenameAPIToken :: "uuid \<Rightarrow> uuid \<Rightarrow> string \<Rightarrow> unit store_op" where
  "RenameAPIToken userID i name d =
     (Inr (), d\<lparr>db_api_tokens := update_rows (\<lambda>r. tw_user_id r = userID \<and> tw_id r = i)
        (\<lambda>r. r\<lparr>tw_name := name\<rparr>) (db_api_tokens d)\<rparr>)"

definition DeleteAPIToken :: "uuid \<Rightarrow> uuid \<Rightarrow> unit store_op" where
  "DeleteAPIToken userID i d =
     (Inr (), d\<lparr>db_api_tokens := delete_rows (\<lambda>r. tw_user_id r = userID \<and> tw_id r = i) (db_api_tokens d)\<rparr>)"

definition TouchAPIToken :: "uuid \<Rightarrow> go_time \<Rightarrow> unit store_op" where
  "TouchAPIToken i at d =
     (Inr (), d\<lparr>db_api_tokens := update_rows (\<lambda>r. tw_id r = i)
        (\<lambda>r. r\<lparr>tw_last_used_at := Some (unix_milli at)\<rparr>) (db_api_tokens d)\<rparr>)"

section \<open>Constraints are preserved\<close>

lemma GetUser_state [simp]: "snd (GetUser c i d) = d"
  by (simp add: GetUser_def split: option.split)

lemma user_keys_update:
  "(\<And>r. uw_id (f r) = uw_id r) \<Longrightarrow> map uw_id (update_rows p f rows) = map uw_id rows"
  by (rule map_update_rows) simp

lemma db_ok_update_users:
  assumes "db_ok d" "\<And>r. uw_id (f r) = uw_id r" "\<And>r. uw_provider (f r) = uw_provider r"
    "\<And>r. uw_provider_user_id (f r) = uw_provider_user_id r"
  shows "db_ok (d\<lparr>db_users := update_rows p f (db_users d)\<rparr>)"
proof -
  have "map uw_id (update_rows p f (db_users d)) = map uw_id (db_users d)"
    "map (\<lambda>r. (uw_provider r, uw_provider_user_id r)) (update_rows p f (db_users d))
       = map (\<lambda>r. (uw_provider r, uw_provider_user_id r)) (db_users d)"
    by (rule map_update_rows; simp add: assms)+
  with assms(1) show ?thesis by (simp add: db_ok_defs)
qed

lemma db_ok_add_user:
  assumes "db_ok d" "uw_id x \<notin> set (user_ids d)" "find (same_account x) (db_users d) = None"
  shows "db_ok (d\<lparr>db_users := db_users d @ [x]\<rparr>)"
proof -
  have ids: "set (user_ids (d\<lparr>db_users := db_users d @ [x]\<rparr>)) = insert (uw_id x) (set (user_ids d))"
    by (auto simp: user_ids_def)
  have "users_ok (d\<lparr>db_users := db_users d @ [x]\<rparr>)"
    using assms by (auto simp: db_ok_def users_ok_def user_ids_def find_None_iff same_account_def)
  moreover have "executions_ok (d\<lparr>db_users := db_users d @ [x]\<rparr>)" "sessions_ok (d\<lparr>db_users := db_users d @ [x]\<rparr>)"
    "tokens_ok (d\<lparr>db_users := db_users d @ [x]\<rparr>)"
    using assms(1) unfolding executions_ok_def sessions_ok_def tokens_ok_def ids
    by (auto simp: db_ok_def executions_ok_def sessions_ok_def tokens_ok_def)
  ultimately show ?thesis
    using assms(1) by (simp add: db_ok_def projects_ok_def variables_ok_def sequence_ok_def schedules_ok_def)
qed

lemma UpsertUser_ok: "db_ok d \<Longrightarrow> db_ok (snd (UpsertUser c fresh now u d))"
  by (auto simp: UpsertUser_def Let_def merge_user_def split: option.split intro!: db_ok_update_users db_ok_add_user)

lemma update_user_ok:
  assumes "db_ok d" "\<And>r. uw_id (f r) = uw_id r" "\<And>r. uw_provider (f r) = uw_provider r"
    "\<And>r. uw_provider_user_id (f r) = uw_provider_user_id r"
  shows "db_ok (update_user i f d)"
  unfolding update_user_def by (rule db_ok_update_users [OF assms])

lemma user_updates_ok:
  "db_ok d \<Longrightarrow> db_ok (snd (UpdateUserOAuthToken c i a r e d))"
  "db_ok d \<Longrightarrow> db_ok (snd (SetUserOrgCheck i at d))"
  "db_ok d \<Longrightarrow> db_ok (snd (DisableUser i at d))"
  by (auto simp: UpdateUserOAuthToken_def SetUserOrgCheck_def DisableUser_def intro!: update_user_ok)

lemma db_ok_sessions [simp]:
  "db_ok d \<Longrightarrow> db_ok (d\<lparr>db_sessions := rows\<rparr>)
     \<longleftrightarrow> distinct (map sw_id rows) \<and> (\<forall>r \<in> set rows. sw_user_id r \<in> set (user_ids d))"
  by (simp add: db_ok_defs)

lemma db_ok_tokens [simp]:
  "db_ok d \<Longrightarrow> db_ok (d\<lparr>db_api_tokens := rows\<rparr>)
     \<longleftrightarrow> distinct (map tw_id rows) \<and> distinct (map tw_token_hash rows)
       \<and> (\<forall>r \<in> set rows. tw_user_id r \<in> set (user_ids d))"
  by (simp add: db_ok_defs)

lemma db_okD:
  assumes "db_ok d"
  shows "distinct (map sw_id (db_sessions d))" "\<forall>r \<in> set (db_sessions d). sw_user_id r \<in> set (user_ids d)"
    "distinct (map tw_id (db_api_tokens d))" "distinct (map tw_token_hash (db_api_tokens d))"
    "\<forall>r \<in> set (db_api_tokens d). tw_user_id r \<in> set (user_ids d)"
    "distinct (map uw_id (db_users d))"
    "distinct (map (\<lambda>r. (uw_provider r, uw_provider_user_id r)) (db_users d))"
  using assms by (simp_all add: db_ok_defs)

lemma CreateSession_ok: "db_ok d \<Longrightarrow> db_ok (snd (CreateSession s d))"
  using db_okD [of d] by (auto simp: CreateSession_def)

lemma TouchSession_ok: "db_ok d \<Longrightarrow> db_ok (snd (TouchSession i seen expires d))"
proof -
  let ?f = "\<lambda>r::session_row. r\<lparr>sw_last_seen_at := unix_milli seen, sw_expires_at := unix_milli expires\<rparr>"
  assume ok: "db_ok d"
  have "map sw_id (update_rows (\<lambda>r. sw_id r = i) ?f (db_sessions d)) = map sw_id (db_sessions d)"
    by (rule map_update_rows) simp
  with ok db_okD [OF ok] show ?thesis by (auto simp: TouchSession_def set_update_rows)
qed

lemma delete_sessions_ok: "db_ok d \<Longrightarrow> db_ok (snd (delete_sessions p d))"
  using db_okD [of d] by (auto simp: delete_sessions_def distinct_map_delete_rows)

lemma session_deletes_ok:
  "db_ok d \<Longrightarrow> db_ok (snd (DeleteSession i d))"
  "db_ok d \<Longrightarrow> db_ok (snd (DeleteUserSession u i d))"
  "db_ok d \<Longrightarrow> db_ok (snd (DeleteUserSessions u d))"
  "db_ok d \<Longrightarrow> db_ok (snd (DeleteExpiredSessions t d))"
  by (simp_all add: DeleteSession_def DeleteUserSession_def DeleteUserSessions_def DeleteExpiredSessions_def
        delete_sessions_ok)

lemma CreateAPIToken_ok: "db_ok d \<Longrightarrow> db_ok (snd (CreateAPIToken t d))"
  using db_okD [of d] by (auto simp: CreateAPIToken_def)

lemma db_ok_update_tokens:
  assumes "db_ok d" "\<And>r. tw_id (f r) = tw_id r" "\<And>r. tw_token_hash (f r) = tw_token_hash r"
    "\<And>r. tw_user_id (f r) = tw_user_id r"
  shows "db_ok (d\<lparr>db_api_tokens := update_rows p f (db_api_tokens d)\<rparr>)"
proof -
  have "map tw_id (update_rows p f (db_api_tokens d)) = map tw_id (db_api_tokens d)"
    "map tw_token_hash (update_rows p f (db_api_tokens d)) = map tw_token_hash (db_api_tokens d)"
    by (rule map_update_rows; simp add: assms)+
  with assms(1,4) db_okD [OF assms(1)] show ?thesis by (auto simp: set_update_rows)
qed

lemma token_updates_ok:
  "db_ok d \<Longrightarrow> db_ok (snd (RenameAPIToken u i name d))"
  "db_ok d \<Longrightarrow> db_ok (snd (TouchAPIToken i at d))"
  unfolding RenameAPIToken_def TouchAPIToken_def snd_conv by (rule db_ok_update_tokens; simp)+

lemma DeleteAPIToken_ok: "db_ok d \<Longrightarrow> db_ok (snd (DeleteAPIToken u i d))"
  using db_okD [of d] by (auto simp: DeleteAPIToken_def distinct_map_delete_rows)

end
