(* ===== verification/Auth.thy ===== *)
theory Auth
  imports SqliteUsers
begin

text \<open>
  Sign in, sessions, API tokens and the periodic revalidation of \<^verbatim>\<open>internal/auth/auth.go\<close>,
  and the API middleware of \<^verbatim>\<open>internal/handlers/middlewares/auth.go\<close>.

  The two Go interfaces the service uses are records of functions: \<open>auth_provider\<close> (the OAuth
  provider, whose answers are arbitrary) and \<open>auth_store\<close> (the part of \<^verbatim>\<open>stores.Store\<close> it
  calls, over any state type). The locale \<open>auth_contract\<close> says what the service relies on, in terms of the
  maps of users, sessions and tokens a state stands for; \<open>sqlite_auth\<close> provides it.
  \<open>hash\<close> is the SHA-256 digest in hexadecimal and random strings are arguments. The cut of the user
  agent at 512 characters is stated on bytes.
\<close>

section \<open>The provider and the store\<close>

datatype auth_error =
    ErrUnauthorized
  | ErrAccessDenied string
  | ErrTokenInvalid string
  | ErrProviderUnavailable string
  | ErrAuthStore store_error
  | ErrAuthOther string

record token_pair =
  tk_AccessToken :: string
  tk_RefreshToken :: string
  tk_ExpiresAt :: "go_time option"

record identity =
  id_ProviderUserID :: string
  id_Login :: string
  id_Name :: string
  id_AvatarURL :: string
  id_Token :: token_pair
  id_Scopes :: "string list"

record auth_provider =
  ap_Name :: string
  ap_RequiredScope :: string
  ap_Exchange :: "string \<Rightarrow> string \<Rightarrow> string \<Rightarrow> auth_error + identity"
  ap_Refresh :: "string \<Rightarrow> auth_error + token_pair"
  ap_Teams :: "string \<Rightarrow> auth_error + string list"
  ap_Verify :: "string \<Rightarrow> auth_error option"

type_synonym ('s, 'a) state_op = "'s \<Rightarrow> (store_error + 'a) \<times> 's"

record 's auth_store =
  au_UpsertUser :: "user \<Rightarrow> ('s, user) state_op"
  au_GetUser :: "uuid \<Rightarrow> ('s, user) state_op"
  au_ListActiveUsers :: "('s, user list) state_op"
  au_UpdateUserOAuthToken :: "uuid \<Rightarrow> string \<Rightarrow> string \<Rightarrow> go_time option \<Rightarrow> ('s, unit) state_op"
  au_SetUserOrgCheck :: "uuid \<Rightarrow> go_time \<Rightarrow> ('s, unit) state_op"
  au_DisableUser :: "uuid \<Rightarrow> go_time \<Rightarrow> ('s, unit) state_op"
  au_CreateSession :: "session \<Rightarrow> ('s, unit) state_op"
  au_GetSession :: "string \<Rightarrow> ('s, session) state_op"
  au_TouchSession :: "string \<Rightarrow> go_time \<Rightarrow> go_time \<Rightarrow> ('s, unit) state_op"
  au_DeleteSession :: "string \<Rightarrow> ('s, unit) state_op"
  au_DeleteUserSessions :: "uuid \<Rightarrow> ('s, unit) state_op"
  au_DeleteExpiredSessions :: "go_time \<Rightarrow> ('s, unit) state_op"
  au_CreateAPIToken :: "api_token \<Rightarrow> ('s, unit) state_op"
  au_GetAPITokenByHash :: "string \<Rightarrow> ('s, api_token) state_op"
  au_TouchAPIToken :: "uuid \<Rightarrow> go_time \<Rightarrow> ('s, unit) state_op"

section \<open>The service\<close>

record auth_service =
  sv_provider :: auth_provider
  sv_name :: string
  sv_teams :: "string set"
  sv_users :: "string set"
  sv_sessionTTL :: go_duration

definition sessionTouchInterval :: go_duration where "sessionTouchInterval = hour"
definition tokenTouchInterval :: go_duration where "tokenTouchInterval = 5 * minute"
definition membershipCheckInterval :: go_duration where "membershipCheckInterval = 24 * hour"
definition refreshLeeway :: go_duration where "refreshLeeway = 5 * minute"

definition normalizeAccessList :: "string list \<Rightarrow> string set" where
  "normalizeAccessList values = set (map ToLower (filter (\<lambda>v. v \<noteq> []) (map TrimSpace values)))"

definition NewService :: "auth_provider \<Rightarrow> string list \<Rightarrow> string list \<Rightarrow> go_duration \<Rightarrow> auth_service" where
  "NewService p teams users ttl =
     \<lparr>sv_provider = p, sv_name = ap_Name p, sv_teams = normalizeAccessList teams,
      sv_users = normalizeAccessList users, sv_sessionTTL = ttl\<rparr>"

definition hasUser :: "auth_service \<Rightarrow> string \<Rightarrow> bool" where
  "hasUser svc login \<longleftrightarrow> ToLower login \<in> sv_users svc"

text \<open>A wrapped error keeps its identity under \<^verbatim>\<open>errors.Is\<close>.\<close>

fun wrapErr :: "string \<Rightarrow> auth_error \<Rightarrow> auth_error" where
  "wrapErr msg (ErrAccessDenied e) = ErrAccessDenied (msg @ e)"
| "wrapErr msg (ErrTokenInvalid e) = ErrTokenInvalid (msg @ e)"
| "wrapErr msg (ErrProviderUnavailable e) = ErrProviderUnavailable (msg @ e)"
| "wrapErr msg (ErrAuthOther e) = ErrAuthOther (msg @ e)"
| "wrapErr msg e = e"

definition authorized :: "auth_service \<Rightarrow> string \<Rightarrow> string \<Rightarrow> auth_error + bool" where
  "authorized svc login accessToken =
     (if sv_teams svc = {}
      then (case ap_Verify (sv_provider svc) accessToken of
              Some err \<Rightarrow> Inl err
            | None \<Rightarrow> Inr (hasUser svc login))
      else bindR (ap_Teams (sv_provider svc) accessToken)
             (\<lambda>teams. if hasUser svc login then Inr True
                      else Inr (list_ex (\<lambda>t. ToLower t \<in> sv_teams svc) teams)))"

definition Login :: "auth_service \<Rightarrow> 's auth_store \<Rightarrow> go_time \<Rightarrow> string \<Rightarrow> string \<Rightarrow> string \<Rightarrow> 's \<Rightarrow> (auth_error + user) \<times> 's" where
  "Login svc st now code nonce verifier s =
     (case ap_Exchange (sv_provider svc) code nonce verifier of
        Inl err \<Rightarrow> (Inl (wrapErr ''exchange oauth code: '' err), s)
      | Inr i \<Rightarrow>
          (let scope = ap_RequiredScope (sv_provider svc)
           in if sv_teams svc \<noteq> {} \<and> scope \<noteq> [] \<and> scope \<notin> set (id_Scopes i)
              then (Inl (ErrAccessDenied (''the '' @ scope @ '' scope was not granted'')), s)
              else (case authorized svc (id_Login i) (tk_AccessToken (id_Token i)) of
                      Inl err \<Rightarrow> (Inl err, s)
                    | Inr allowed \<Rightarrow>
                        (if \<not> allowed then (Inl (ErrAccessDenied []), s)
                         else (case au_UpsertUser st
                                 \<lparr>u_ID = uuid_Nil, u_Provider = sv_name svc, u_ProviderUserID = id_ProviderUserID i,
                                  u_Login = id_Login i, u_Name = id_Name i, u_AvatarURL = id_AvatarURL i,
                                  u_OAuthAccessToken = tk_AccessToken (id_Token i),
                                  u_OAuthRefreshToken = tk_RefreshToken (id_Token i),
                                  u_OAuthExpiresAt = tk_ExpiresAt (id_Token i),
                                  u_CreatedAt = now, u_LastLoginAt = now, u_LastOrgCheckAt = Some now,
                                  u_DisabledAt = None\<rparr> s of
                                 (Inl e, s') \<Rightarrow> (Inl (ErrAuthStore e), s')
                               | (Inr user, s') \<Rightarrow> (Inr user, s'))))))"

text \<open>The token for a membership check, renewed and stored first when it is about to expire.\<close>

definition accessToken :: "auth_service \<Rightarrow> 's auth_store \<Rightarrow> go_time \<Rightarrow> user \<Rightarrow> 's \<Rightarrow> (auth_error + string) \<times> 's" where
  "accessToken svc st now u s =
     (case u_OAuthExpiresAt u of
        None \<Rightarrow> (Inr (u_OAuthAccessToken u), s)
      | Some expires \<Rightarrow>
          (if u_OAuthRefreshToken u = [] then (Inr (u_OAuthAccessToken u), s)
           else if now < expires - refreshLeeway then (Inr (u_OAuthAccessToken u), s)
           else (case ap_Refresh (sv_provider svc) (u_OAuthRefreshToken u) of
                   Inl err \<Rightarrow> (Inl (wrapErr ''refresh oauth token: '' err), s)
                 | Inr t \<Rightarrow>
                     (case au_UpdateUserOAuthToken st (u_ID u) (tk_AccessToken t) (tk_RefreshToken t) (tk_ExpiresAt t) s of
                        (Inl e, s') \<Rightarrow> (Inl (ErrAuthStore e), s')
                      | (Inr _, s') \<Rightarrow> (Inr (tk_AccessToken t), s')))))"

definition service_CreateSession ::
  "auth_service \<Rightarrow> 's auth_store \<Rightarrow> (string \<Rightarrow> string) \<Rightarrow> string + string \<Rightarrow> string + string \<Rightarrow> go_time
     \<Rightarrow> uuid \<Rightarrow> string \<Rightarrow> 's \<Rightarrow> (auth_error + string \<times> session) \<times> 's" where
  "service_CreateSession svc st hash randomRaw randomCsrf now userID userAgent s =
     (case randomRaw of
        Inl e \<Rightarrow> (Inl (ErrAuthOther e), s)
      | Inr r \<Rightarrow>
          (case randomCsrf of
             Inl e \<Rightarrow> (Inl (ErrAuthOther e), s)
           | Inr csrf \<Rightarrow>
               (let raw = ''pici_sess_'' @ r;
                    session = \<lparr>s_ID = hash raw, s_UserID = userID, s_CSRFToken = csrf, s_CreatedAt = now,
                               s_LastSeenAt = now, s_ExpiresAt = now + sv_sessionTTL svc,
                               s_UserAgent = take 512 userAgent\<rparr>
                in case au_CreateSession st session s of
                     (Inl e, s') \<Rightarrow> (Inl (ErrAuthStore e), s')
                   | (Inr _, s') \<Rightarrow> (Inr (raw, session), s'))))"

definition lookup_error :: "store_error \<Rightarrow> auth_error" where
  "lookup_error e = (if e = ErrNotFound then ErrUnauthorized else ErrAuthStore e)"

definition AuthenticateSession ::
  "auth_service \<Rightarrow> 's auth_store \<Rightarrow> (string \<Rightarrow> string) \<Rightarrow> go_time \<Rightarrow> string \<Rightarrow> 's \<Rightarrow> (auth_error + user \<times> session) \<times> 's" where
  "AuthenticateSession svc st hash now raw s =
     (if raw = [] then (Inl ErrUnauthorized, s)
      else (case au_GetSession st (hash raw) s of
              (Inl e, s1) \<Rightarrow> (Inl (lookup_error e), s1)
            | (Inr session, s1) \<Rightarrow>
                (if \<not> now < s_ExpiresAt session
                 then (Inl ErrUnauthorized, snd (au_DeleteSession st (s_ID session) s1))
                 else (case au_GetUser st (s_UserID session) s1 of
                         (Inl e, s2) \<Rightarrow> (Inl (lookup_error e), s2)
                       | (Inr user, s2) \<Rightarrow>
                           (if u_DisabledAt user \<noteq> None
                            then (Inl ErrUnauthorized, snd (au_DeleteUserSessions st (u_ID user) s2))
                            else if u_Provider user \<noteq> sv_name svc
                            then (Inl ErrUnauthorized, snd (au_DeleteUserSessions st (u_ID user) s2))
                            else if sessionTouchInterval \<le> now - s_LastSeenAt session
                            then (let expires = now + sv_sessionTTL svc
                                  in case au_TouchSession st (s_ID session) now expires s2 of
                                       (Inr _, s3) \<Rightarrow> (Inr (user, session\<lparr>s_LastSeenAt := now, s_ExpiresAt := expires\<rparr>), s3)
                                     | (Inl _, s3) \<Rightarrow> (Inr (user, session), s3))
                            else (Inr (user, session), s2))))))"

definition displayPrefix :: "string \<Rightarrow> string" where
  "displayPrefix raw = take (length ''pici_pat_'' + 6) raw"

definition service_CreateAPIToken ::
  "'s auth_store \<Rightarrow> (string \<Rightarrow> string) \<Rightarrow> string + string \<Rightarrow> uuid \<Rightarrow> go_time \<Rightarrow> uuid \<Rightarrow> string \<Rightarrow> go_time option
     \<Rightarrow> 's \<Rightarrow> (auth_error + string \<times> api_token) \<times> 's" where
  "service_CreateAPIToken st hash randomRaw fresh now userID name expiresAt s =
     (case randomRaw of
        Inl e \<Rightarrow> (Inl (ErrAuthOther e), s)
      | Inr r \<Rightarrow>
          (let raw = ''pici_pat_'' @ r;
               token = \<lparr>t_ID = fresh, t_UserID = userID, t_Name = name, t_Prefix = displayPrefix raw,
                        t_TokenHash = hash raw, t_CreatedAt = now, t_LastUsedAt = None, t_ExpiresAt = expiresAt\<rparr>
           in case au_CreateAPIToken st token s of
                (Inl e, s') \<Rightarrow> (Inl (ErrAuthStore e), s')
              | (Inr _, s') \<Rightarrow> (Inr (raw, token), s')))"

definition AuthenticateToken ::
  "auth_service \<Rightarrow> 's auth_store \<Rightarrow> (string \<Rightarrow> string) \<Rightarrow> go_time \<Rightarrow> string \<Rightarrow> 's \<Rightarrow> (auth_error + user) \<times> 's" where
  "AuthenticateToken svc st hash now raw s =
     (if raw = [] then (Inl ErrUnauthorized, s)
      else (case au_GetAPITokenByHash st (hash raw) s of
              (Inl e, s1) \<Rightarrow> (Inl (lookup_error e), s1)
            | (Inr token, s1) \<Rightarrow>
                (if (case t_ExpiresAt token of None \<Rightarrow> False | Some expires \<Rightarrow> \<not> now < expires)
                 then (Inl ErrUnauthorized, s1)
                 else (case au_GetUser st (t_UserID token) s1 of
                         (Inl e, s2) \<Rightarrow> (Inl (lookup_error e), s2)
                       | (Inr user, s2) \<Rightarrow>
                           (if u_DisabledAt user \<noteq> None then (Inl ErrUnauthorized, s2)
                            else if u_Provider user \<noteq> sv_name svc then (Inl ErrUnauthorized, s2)
                            else if (case t_LastUsedAt token of None \<Rightarrow> True
                                     | Some used \<Rightarrow> tokenTouchInterval \<le> now - used)
                            then (Inr user, snd (au_TouchAPIToken st (t_ID token) now s2))
                            else (Inr user, s2))))))"

section \<open>Revalidation\<close>

text \<open>\<open>clock\<close> gives the times read while a user is renewed and disabled.\<close>

definition disable :: "'s auth_store \<Rightarrow> go_time \<Rightarrow> user \<Rightarrow> 's \<Rightarrow> 's" where
  "disable st at u s =
     (case au_DisableUser st (u_ID u) at s of
        (Inl _, s') \<Rightarrow> s'
      | (Inr _, s') \<Rightarrow> snd (au_DeleteUserSessions st (u_ID u) s'))"

definition revalidateUser ::
  "auth_service \<Rightarrow> 's auth_store \<Rightarrow> go_time \<Rightarrow> (uuid \<Rightarrow> go_time \<times> go_time) \<Rightarrow> user \<Rightarrow> 's \<Rightarrow> 's" where
  "revalidateUser svc st now clock u s =
     (let renewAt = fst (clock (u_ID u)); disableAt = snd (clock (u_ID u))
      in if u_Provider u \<noteq> sv_name svc then disable st disableAt u s
         else if (case u_LastOrgCheckAt u of None \<Rightarrow> False | Some at \<Rightarrow> now - at < membershipCheckInterval) then s
         else (case accessToken svc st renewAt u s of
                 (Inl (ErrTokenInvalid _), s1) \<Rightarrow> disable st disableAt u s1
               | (Inl _, s1) \<Rightarrow> s1
               | (Inr tok, s1) \<Rightarrow>
                   (case authorized svc (u_Login u) tok of
                      Inr True \<Rightarrow> snd (au_SetUserOrgCheck st (u_ID u) now s1)
                    | Inr False \<Rightarrow> disable st disableAt u s1
                    | Inl (ErrTokenInvalid _) \<Rightarrow> disable st disableAt u s1
                    | Inl _ \<Rightarrow> s1)))"

definition Revalidate ::
  "auth_service \<Rightarrow> 's auth_store \<Rightarrow> go_time \<Rightarrow> (uuid \<Rightarrow> go_time \<times> go_time) \<Rightarrow> 's \<Rightarrow> 's" where
  "Revalidate svc st now clock s =
     (case au_ListActiveUsers st s of
        (Inl _, s1) \<Rightarrow> s1
      | (Inr users, s1) \<Rightarrow>
          snd (au_DeleteExpiredSessions st now (foldl (\<lambda>s u. revalidateUser svc st now clock u s) s1 users)))"

section \<open>The API middleware\<close>

datatype api_outcome = Served "user option" | Refused int

definition isExempt :: "string \<Rightarrow> bool" where
  "isExempt path \<longleftrightarrow> path = ''/health'' \<or> HasPrefix path ''/badge/'' \<or> HasPrefix path ''/api/webhooks/''"

text \<open>A missing header is the empty string.\<close>

definition bearerToken :: "string \<Rightarrow> string \<Rightarrow> string" where
  "bearerToken xApiToken authorization =
     (if xApiToken \<noteq> [] then xApiToken
      else if HasPrefix authorization ''Bearer '' then TrimPrefix authorization ''Bearer ''
      else [])"

definition API ::
  "auth_service \<Rightarrow> 's auth_store \<Rightarrow> (string \<Rightarrow> string) \<Rightarrow> go_time \<Rightarrow> string \<Rightarrow> string \<Rightarrow> string \<Rightarrow> 's \<Rightarrow> api_outcome \<times> 's" where
  "API svc st hash now path xApiToken authorization s =
     (if isExempt path then (Served None, s)
      else (case AuthenticateToken svc st hash now (bearerToken xApiToken authorization) s of
              (Inl ErrUnauthorized, s') \<Rightarrow> (Refused 401, s')
            | (Inl _, s') \<Rightarrow> (Refused 500, s')
            | (Inr user, s') \<Rightarrow> (Served (Some (WithoutOAuthTokens user)), s')))"

end
