(* ===== verification/AuthContract.thy ===== *)
theory AuthContract
  imports Auth
begin

text \<open>
  What the authentication service relies on (\<open>auth_contract\<close>, and \<open>reliable_auth\<close> for a store that
  does not fail), the facts of the service that follow, and the proof that the SQLite store provides
  the contract. A store is seen as the maps of users by identifier, sessions by hashed cookie and
  API tokens by hash (\<open>auth_view\<close>).
\<close>

section \<open>Views\<close>

record auth_view =
  av_users :: "uuid \<Rightarrow> user option"
  av_sessions :: "string \<Rightarrow> session option"
  av_tokens :: "string \<Rightarrow> api_token option"

definition keep_if :: "('a \<Rightarrow> bool) \<Rightarrow> 'a option \<Rightarrow> 'a option" where
  "keep_if p x = (case x of None \<Rightarrow> None | Some a \<Rightarrow> if p a then Some a else None)"

lemma keep_if_simps [simp]:
  "keep_if p None = None" "keep_if p (Some a) = (if p a then Some a else None)"
  by (simp_all add: keep_if_def)

lemma keep_if_Some_iff: "keep_if p x = Some a \<longleftrightarrow> x = Some a \<and> p a"
  by (cases x) auto

definition keep_sessions :: "(session \<Rightarrow> bool) \<Rightarrow> auth_view \<Rightarrow> auth_view" where
  "keep_sessions p v = v\<lparr>av_sessions := (\<lambda>i. keep_if p (av_sessions v i))\<rparr>"

definition map_user :: "uuid \<Rightarrow> (user \<Rightarrow> user) \<Rightarrow> auth_view \<Rightarrow> auth_view" where
  "map_user i f v = v\<lparr>av_users := (av_users v)(i := map_option f (av_users v i))\<rparr>"

definition map_session :: "string \<Rightarrow> (session \<Rightarrow> session) \<Rightarrow> auth_view \<Rightarrow> auth_view" where
  "map_session i f v = v\<lparr>av_sessions := (av_sessions v)(i := map_option f (av_sessions v i))\<rparr>"

definition map_token :: "uuid \<Rightarrow> (api_token \<Rightarrow> api_token) \<Rightarrow> auth_view \<Rightarrow> auth_view" where
  "map_token i f v = v\<lparr>av_tokens := (\<lambda>h. map_option (\<lambda>t. if t_ID t = i then f t else t) (av_tokens v h))\<rparr>"

definition stored_session :: "session \<Rightarrow> session" where
  "stored_session x =
     x\<lparr>s_CreatedAt := trunc_ms (s_CreatedAt x), s_LastSeenAt := trunc_ms (s_LastSeenAt x),
       s_ExpiresAt := trunc_ms (s_ExpiresAt x)\<rparr>"

definition stored_token :: "api_token \<Rightarrow> api_token" where
  "stored_token t =
     t\<lparr>t_CreatedAt := trunc_ms (t_CreatedAt t), t_LastUsedAt := map_option trunc_ms (t_LastUsedAt t),
       t_ExpiresAt := map_option trunc_ms (t_ExpiresAt t)\<rparr>"

text \<open>A query answers from the view, or fails; an update applies \<open>f\<close> to the view, or fails and leaves it.\<close>

definition reads :: "('s, 'a) state_op \<Rightarrow> 'a option \<Rightarrow> 's \<Rightarrow> bool" where
  "reads op x s \<longleftrightarrow>
     snd (op s) = s \<and> (case fst (op s) of Inr a \<Rightarrow> x = Some a | Inl e \<Rightarrow> e = ErrNotFound \<longrightarrow> x = None)"

definition writes :: "('s \<Rightarrow> bool) \<Rightarrow> ('s \<Rightarrow> auth_view) \<Rightarrow> ('s, 'a) state_op \<Rightarrow> (auth_view \<Rightarrow> auth_view) \<Rightarrow> 's \<Rightarrow> bool" where
  "writes ok view op f s \<longleftrightarrow>
     ok (snd (op s)) \<and> view (snd (op s)) = (case fst (op s) of Inr _ \<Rightarrow> f (view s) | Inl _ \<Rightarrow> view s)"

lemma reads_cases:
  assumes "reads op x s"
  obtains e where "op s = (Inl e, s)" "e = ErrNotFound \<Longrightarrow> x = None" | a where "op s = (Inr a, s)" "x = Some a"
  using assms unfolding reads_def by (cases "op s"; cases "fst (op s)") auto

lemma writes_cases:
  assumes "writes ok view op f s"
  obtains e s' where "op s = (Inl e, s')" "ok s'" "view s' = view s"
    | a s' where "op s = (Inr a, s')" "ok s'" "view s' = f (view s)"
  using assms unfolding writes_def by (cases "op s"; cases "fst (op s)") auto

section \<open>The contract\<close>

locale auth_contract =
  fixes st :: "'s auth_store" and view :: "'s \<Rightarrow> auth_view" and ok :: "'s \<Rightarrow> bool"
  assumes get_user: "ok s \<Longrightarrow> reads (au_GetUser st i) (av_users (view s) i) s"
    and get_session: "ok s \<Longrightarrow> reads (au_GetSession st k) (av_sessions (view s) k) s"
    and get_token: "ok s \<Longrightarrow> reads (au_GetAPITokenByHash st k) (av_tokens (view s) k) s"
    and user_id: "ok s \<Longrightarrow> av_users (view s) i = Some u \<Longrightarrow> u_ID u = i"
    and session_id: "ok s \<Longrightarrow> av_sessions (view s) k = Some x \<Longrightarrow> s_ID x = k"
    and active_users: "ok s \<Longrightarrow> au_ListActiveUsers st s = (q, s') \<Longrightarrow> s' = s \<and>
          (case q of Inl _ \<Rightarrow> True
           | Inr us \<Rightarrow> distinct (map u_ID us) \<and> set us = {u. \<exists>i. av_users (view s) i = Some u \<and> u_DisabledAt u = None})"
    and upsert_user: "ok s \<Longrightarrow> u_DisabledAt u = None \<Longrightarrow> au_UpsertUser st u s = (r, s') \<Longrightarrow> ok s' \<and>
          (case r of Inl _ \<Rightarrow> view s' = view s
           | Inr u' \<Rightarrow> view s' = (view s)\<lparr>av_users := (av_users (view s))(u_ID u' := Some u')\<rparr>
               \<and> u_Provider u' = u_Provider u \<and> u_ProviderUserID u' = u_ProviderUserID u \<and> u_Login u' = u_Login u
               \<and> u_DisabledAt u' = None \<and> u_OAuthAccessToken u' = u_OAuthAccessToken u
               \<and> (case av_users (view s) (u_ID u') of
                    None \<Rightarrow> u_OAuthRefreshToken u' = u_OAuthRefreshToken u
                  | Some o' \<Rightarrow> u_Provider o' = u_Provider u \<and> u_ProviderUserID o' = u_ProviderUserID u
                      \<and> u_OAuthRefreshToken u' = (if u_OAuthRefreshToken u = [] then u_OAuthRefreshToken o'
                                                  else u_OAuthRefreshToken u)))"
    and set_tokens: "ok s \<Longrightarrow> writes ok view (au_UpdateUserOAuthToken st i a rf e)
          (map_user i (\<lambda>u. u\<lparr>u_OAuthAccessToken := a, u_OAuthRefreshToken := rf,
                             u_OAuthExpiresAt := map_option trunc_ms e\<rparr>)) s"
    and set_check: "ok s \<Longrightarrow> writes ok view (au_SetUserOrgCheck st i at)
          (map_user i (\<lambda>u. u\<lparr>u_LastOrgCheckAt := Some (trunc_ms at)\<rparr>)) s"
    and disable_user: "ok s \<Longrightarrow> writes ok view (au_DisableUser st i at)
          (map_user i (\<lambda>u. u\<lparr>u_DisabledAt := Some (trunc_ms at)\<rparr>)) s"
    and create_session: "ok s \<Longrightarrow> writes ok view (au_CreateSession st x)
          (\<lambda>v. v\<lparr>av_sessions := (av_sessions v)(s_ID x := Some (stored_session x))\<rparr>) s"
    and touch_session: "ok s \<Longrightarrow> writes ok view (au_TouchSession st k seen expires)
          (map_session k (\<lambda>x. x\<lparr>s_LastSeenAt := trunc_ms seen, s_ExpiresAt := trunc_ms expires\<rparr>)) s"
    and delete_session: "ok s \<Longrightarrow> writes ok view (au_DeleteSession st k) (keep_sessions (\<lambda>x. s_ID x \<noteq> k)) s"
    and delete_user_sessions: "ok s \<Longrightarrow>
          writes ok view (au_DeleteUserSessions st i) (keep_sessions (\<lambda>x. s_UserID x \<noteq> i)) s"
    and delete_expired: "ok s \<Longrightarrow> writes ok view (au_DeleteExpiredSessions st at)
          (keep_sessions (\<lambda>x. unix_milli at \<le> unix_milli (s_ExpiresAt x))) s"
    and create_token: "ok s \<Longrightarrow> writes ok view (au_CreateAPIToken st t)
          (\<lambda>v. v\<lparr>av_tokens := (av_tokens v)(t_TokenHash t := Some (stored_token t))\<rparr>) s"
    and touch_token: "ok s \<Longrightarrow> writes ok view (au_TouchAPIToken st i at)
          (map_token i (\<lambda>t. t\<lparr>t_LastUsedAt := Some (trunc_ms at)\<rparr>)) s"

text \<open>The view of the tables, and the SQLite operations as a store.\<close>

definition auth_view_of :: "aead option \<Rightarrow> db \<Rightarrow> auth_view" where
  "auth_view_of c d =
     \<lparr>av_users = (\<lambda>i. map_option (scanUser c) (find (\<lambda>r. uw_id r = i) (db_users d))),
      av_sessions = (\<lambda>k. map_option scanSession (find (\<lambda>r. sw_id r = k) (db_sessions d))),
      av_tokens = (\<lambda>k. map_option scanAPIToken (find (\<lambda>r. tw_token_hash r = k) (db_api_tokens d)))\<rparr>"

definition sqlite_ok :: "aead option \<Rightarrow> db \<Rightarrow> bool" where
  "sqlite_ok c d \<longleftrightarrow> db_ok d \<and> cipher_ok c"

definition sqlite_auth :: "aead option \<Rightarrow> uuid \<Rightarrow> go_time \<Rightarrow> db auth_store" where
  "sqlite_auth c fresh now =
     \<lparr>au_UpsertUser = UpsertUser c fresh now, au_GetUser = GetUser c, au_ListActiveUsers = ListActiveUsers c,
      au_UpdateUserOAuthToken = UpdateUserOAuthToken c, au_SetUserOrgCheck = SetUserOrgCheck,
      au_DisableUser = DisableUser, au_CreateSession = CreateSession, au_GetSession = GetSession,
      au_TouchSession = TouchSession, au_DeleteSession = DeleteSession, au_DeleteUserSessions = DeleteUserSessions,
      au_DeleteExpiredSessions = DeleteExpiredSessions, au_CreateAPIToken = CreateAPIToken,
      au_GetAPITokenByHash = GetAPITokenByHash, au_TouchAPIToken = TouchAPIToken\<rparr>"

lemma sqlite_auth_sel [simp]:
  "au_UpsertUser (sqlite_auth c f n) = UpsertUser c f n" "au_GetUser (sqlite_auth c f n) = GetUser c"
  "au_ListActiveUsers (sqlite_auth c f n) = ListActiveUsers c"
  "au_UpdateUserOAuthToken (sqlite_auth c f n) = UpdateUserOAuthToken c"
  "au_SetUserOrgCheck (sqlite_auth c f n) = SetUserOrgCheck" "au_DisableUser (sqlite_auth c f n) = DisableUser"
  "au_CreateSession (sqlite_auth c f n) = CreateSession" "au_GetSession (sqlite_auth c f n) = GetSession"
  "au_TouchSession (sqlite_auth c f n) = TouchSession" "au_DeleteSession (sqlite_auth c f n) = DeleteSession"
  "au_DeleteUserSessions (sqlite_auth c f n) = DeleteUserSessions"
  "au_DeleteExpiredSessions (sqlite_auth c f n) = DeleteExpiredSessions"
  "au_CreateAPIToken (sqlite_auth c f n) = CreateAPIToken"
  "au_GetAPITokenByHash (sqlite_auth c f n) = GetAPITokenByHash" "au_TouchAPIToken (sqlite_auth c f n) = TouchAPIToken"
  by (simp_all add: sqlite_auth_def)

section \<open>SQLite provides the contract\<close>

lemma find_delete_distinct:
  "distinct (map k rows) \<Longrightarrow>
     find (\<lambda>r. k r = x) (delete_rows p rows) = keep_if (\<lambda>r. \<not> p r) (find (\<lambda>r. k r = x) rows)"
proof (induction rows)
  case (Cons r rows)
  have "find (\<lambda>r'. k r' = k r) (filter (\<lambda>r. \<not> p r) rows) = None" if "k r = x"
    using Cons.prems by (auto simp: find_None_iff image_iff)
  with Cons show ?case by (auto simp: delete_rows_def)
qed (simp add: delete_rows_def)

lemma view_read:
  assumes "find p rows = x" "op d = (case x of None \<Rightarrow> (Inl ErrNotFound, d) | Some r \<Rightarrow> (Inr (g r), d))"
  shows "reads op (map_option g x) d"
  using assms by (auto simp: reads_def split: option.split)

lemma view_update_user:
  assumes "\<And>r. uw_id (f r) = uw_id r" "\<And>r. scanUser c (f r) = g (scanUser c r)"
  shows "auth_view_of c (update_user i f d) = map_user i g (auth_view_of c d)"
proof -
  have "find (\<lambda>r. uw_id r = j) (update_rows (\<lambda>r. uw_id r = i) f (db_users d))
      = map_option (\<lambda>r. if uw_id r = i then f r else r) (find (\<lambda>r. uw_id r = j) (db_users d))" for j
    by (rule find_update_rows) (simp add: assms)
  then show ?thesis
    by (auto simp: auth_view_of_def update_user_def map_user_def fun_eq_iff option.map_comp find_Some_iff assms(2)
          intro!: option.map_cong)
qed

lemma opt_from_milli_simps [simp]:
  "opt_from_milli None = None" "opt_from_milli (Some ms) = Some (from_unix_milli ms)"
  by (simp_all add: opt_from_milli_def)

lemma user_writes:
  assumes "db_ok d" "cipher_ok c"
  shows "writes (sqlite_ok c) (auth_view_of c) (UpdateUserOAuthToken c i a rf e)
          (map_user i (\<lambda>u. u\<lparr>u_OAuthAccessToken := a, u_OAuthRefreshToken := rf,
                             u_OAuthExpiresAt := map_option trunc_ms e\<rparr>)) d"
    "writes (sqlite_ok c) (auth_view_of c) (SetUserOrgCheck i at)
          (map_user i (\<lambda>u. u\<lparr>u_LastOrgCheckAt := Some (trunc_ms at)\<rparr>)) d"
    "writes (sqlite_ok c) (auth_view_of c) (DisableUser i at)
          (map_user i (\<lambda>u. u\<lparr>u_DisabledAt := Some (trunc_ms at)\<rparr>)) d"
  using user_updates_ok [OF assms(1)] assms
  by (simp_all add: writes_def sqlite_ok_def UpdateUserOAuthToken_def SetUserOrgCheck_def DisableUser_def)
     (rule view_update_user; simp add: scanUser_def)+

lemma view_sessions_kept:
  assumes "db_ok d" "\<And>r. q (scanSession r) \<longleftrightarrow> \<not> p r"
  shows "auth_view_of c (snd (delete_sessions p d)) = keep_sessions q (auth_view_of c d)"
proof -
  have "map_option scanSession (keep_if (\<lambda>r. \<not> p r) x) = keep_if q (map_option scanSession x)" for x
    by (cases x) (simp_all add: assms(2))
  then show ?thesis
    using find_delete_distinct [OF db_okD(1) [OF assms(1)], where p = p]
    by (simp add: auth_view_of_def delete_sessions_def keep_sessions_def fun_eq_iff)
qed

lemma session_deletes:
  assumes "db_ok d" "cipher_ok c"
  shows "writes (sqlite_ok c) (auth_view_of c) (DeleteSession k) (keep_sessions (\<lambda>x. s_ID x \<noteq> k)) d"
    "writes (sqlite_ok c) (auth_view_of c) (DeleteUserSessions i) (keep_sessions (\<lambda>x. s_UserID x \<noteq> i)) d"
    "writes (sqlite_ok c) (auth_view_of c) (DeleteExpiredSessions at)
       (keep_sessions (\<lambda>x. unix_milli at \<le> unix_milli (s_ExpiresAt x))) d"
proof -
  have del: "fst (delete_sessions p d) = Inr ()" for p by (simp add: delete_sessions_def)
  show "writes (sqlite_ok c) (auth_view_of c) (DeleteSession k) (keep_sessions (\<lambda>x. s_ID x \<noteq> k)) d"
    "writes (sqlite_ok c) (auth_view_of c) (DeleteUserSessions i) (keep_sessions (\<lambda>x. s_UserID x \<noteq> i)) d"
    "writes (sqlite_ok c) (auth_view_of c) (DeleteExpiredSessions at)
       (keep_sessions (\<lambda>x. unix_milli at \<le> unix_milli (s_ExpiresAt x))) d"
    unfolding writes_def DeleteSession_def DeleteUserSessions_def DeleteExpiredSessions_def del
    using assms delete_sessions_ok [OF assms(1)]
    by (auto intro!: view_sessions_kept simp: scanSession_def sqlite_ok_def)
qed

lemma session_writes:
  assumes "db_ok d" "cipher_ok c"
  shows "writes (sqlite_ok c) (auth_view_of c) (CreateSession x)
          (\<lambda>v. v\<lparr>av_sessions := (av_sessions v)(s_ID x := Some (stored_session x))\<rparr>) d"
    "writes (sqlite_ok c) (auth_view_of c) (TouchSession k seen expires)
          (map_session k (\<lambda>x. x\<lparr>s_LastSeenAt := trunc_ms seen, s_ExpiresAt := trunc_ms expires\<rparr>)) d"
proof -
  have "find (\<lambda>r. sw_id r = s_ID x) (db_sessions d) = None" if "s_ID x \<notin> sw_id ` set (db_sessions d)"
    using that by (auto simp: find_None_iff image_iff)
  then show "writes (sqlite_ok c) (auth_view_of c) (CreateSession x)
          (\<lambda>v. v\<lparr>av_sessions := (av_sessions v)(s_ID x := Some (stored_session x))\<rparr>) d"
    using CreateSession_ok [OF assms(1), of x] assms(2)
    by (auto simp: writes_def sqlite_ok_def CreateSession_def auth_view_of_def find_append fun_eq_iff scanSession_def
          stored_session_def split: option.split)
  let ?f = "\<lambda>r::session_row. r\<lparr>sw_last_seen_at := unix_milli seen, sw_expires_at := unix_milli expires\<rparr>"
  have "find (\<lambda>r. sw_id r = j) (update_rows (\<lambda>r. sw_id r = k) ?f (db_sessions d))
      = map_option (\<lambda>r. if sw_id r = k then ?f r else r) (find (\<lambda>r. sw_id r = j) (db_sessions d))" for j
    by (rule find_update_rows) simp
  then show "writes (sqlite_ok c) (auth_view_of c) (TouchSession k seen expires)
          (map_session k (\<lambda>x. x\<lparr>s_LastSeenAt := trunc_ms seen, s_ExpiresAt := trunc_ms expires\<rparr>)) d"
    using TouchSession_ok [OF assms(1), of k seen expires] assms(2)
    by (auto simp: writes_def sqlite_ok_def TouchSession_def auth_view_of_def map_session_def fun_eq_iff option.map_comp
          find_Some_iff scanSession_def intro!: option.map_cong)
qed

lemma token_writes:
  assumes "db_ok d" "cipher_ok c"
  shows "writes (sqlite_ok c) (auth_view_of c) (CreateAPIToken t)
          (\<lambda>v. v\<lparr>av_tokens := (av_tokens v)(t_TokenHash t := Some (stored_token t))\<rparr>) d"
    "writes (sqlite_ok c) (auth_view_of c) (TouchAPIToken i at)
          (map_token i (\<lambda>t. t\<lparr>t_LastUsedAt := Some (trunc_ms at)\<rparr>)) d"
proof -
  have "find (\<lambda>r. tw_token_hash r = t_TokenHash t) (db_api_tokens d) = None"
    if "t_TokenHash t \<notin> tw_token_hash ` set (db_api_tokens d)"
    using that by (auto simp: find_None_iff image_iff)
  then show "writes (sqlite_ok c) (auth_view_of c) (CreateAPIToken t)
          (\<lambda>v. v\<lparr>av_tokens := (av_tokens v)(t_TokenHash t := Some (stored_token t))\<rparr>) d"
    using CreateAPIToken_ok [OF assms(1), of t] assms(2)
    by (auto simp: writes_def sqlite_ok_def CreateAPIToken_def auth_view_of_def find_append fun_eq_iff scanAPIToken_def
          stored_token_def split: option.split)
  let ?f = "\<lambda>r::token_row. r\<lparr>tw_last_used_at := Some (unix_milli at)\<rparr>"
  have "find (\<lambda>r. tw_token_hash r = j) (update_rows (\<lambda>r. tw_id r = i) ?f (db_api_tokens d))
      = map_option (\<lambda>r. if tw_id r = i then ?f r else r) (find (\<lambda>r. tw_token_hash r = j) (db_api_tokens d))" for j
    by (rule find_update_rows) simp
  then show "writes (sqlite_ok c) (auth_view_of c) (TouchAPIToken i at)
          (map_token i (\<lambda>t. t\<lparr>t_LastUsedAt := Some (trunc_ms at)\<rparr>)) d"
    using token_updates_ok(2) [OF assms(1), of i at] assms(2)
    by (auto simp: writes_def sqlite_ok_def TouchAPIToken_def auth_view_of_def map_token_def fun_eq_iff option.map_comp
          scanAPIToken_def intro!: option.map_cong)
qed

lemma auth_reads:
  "reads (GetUser c i) (av_users (auth_view_of c d) i) d"
  "reads (GetSession k) (av_sessions (auth_view_of c d) k) d"
  "reads (GetAPITokenByHash k) (av_tokens (auth_view_of c d) k) d"
  by (auto simp: auth_view_of_def GetUser_def GetSession_def GetAPITokenByHash_def intro!: view_read)

lemma active_users_view:
  assumes "db_ok d"
  shows "fst (ListActiveUsers c d) = Inr us \<Longrightarrow> distinct (map u_ID us)
     \<and> set us = {u. \<exists>i. av_users (auth_view_of c d) i = Some u \<and> u_DisabledAt u = None}"
proof -
  let ?rows = "sort_key uw_login (filter (\<lambda>r. uw_disabled_at r = None) (db_users d))"
  assume "fst (ListActiveUsers c d) = Inr us"
  then have us: "us = map (scanUser c) ?rows" by (simp add: ListActiveUsers_def)
  have dist: "distinct (map uw_id (db_users d))" using db_okD(6) [OF assms] .
  then have "distinct (map uw_id (filter (\<lambda>r. uw_disabled_at r = None) (db_users d)))"
    by (simp add: distinct_map_filter)
  then have "distinct (map uw_id ?rows)"
    by (simp add: distinct_map distinct_sort)
  moreover have "map u_ID us = map uw_id ?rows" by (simp add: us scanUser_def)
  ultimately have "distinct (map u_ID us)" by metis
  moreover have "(\<exists>i. av_users (auth_view_of c d) i = Some u \<and> u_DisabledAt u = None)
      \<longleftrightarrow> (\<exists>r \<in> set (db_users d). uw_disabled_at r = None \<and> u = scanUser c r)" for u
  proof
    assume "\<exists>i. av_users (auth_view_of c d) i = Some u \<and> u_DisabledAt u = None"
    then show "\<exists>r \<in> set (db_users d). uw_disabled_at r = None \<and> u = scanUser c r"
      by (auto simp: auth_view_of_def scanUser_def opt_from_milli_def find_Some_iff)
  next
    assume "\<exists>r \<in> set (db_users d). uw_disabled_at r = None \<and> u = scanUser c r"
    then obtain r where r: "r \<in> set (db_users d)" "uw_disabled_at r = None" "u = scanUser c r" by blast
    from find_distinct [OF dist r(1)] r(2,3) show "\<exists>i. av_users (auth_view_of c d) i = Some u \<and> u_DisabledAt u = None"
      by (intro exI [of _ "uw_id r"]) (simp add: auth_view_of_def scanUser_def)
  qed
  ultimately show ?thesis by (simp add: us set_eq_iff image_iff) blast
qed

lemma find_merged:
  assumes "db_ok d" "find (same_account x) (db_users d) = Some r"
  shows "find (\<lambda>r'. uw_id r' = j) (update_rows (same_account x) (merge_user x) (db_users d))
    = (if j = uw_id r then Some (merge_user x r) else find (\<lambda>r'. uw_id r' = j) (db_users d))"
proof -
  note dist = db_okD(6,7) [OF assms(1)]
  have r: "r \<in> set (db_users d)" "same_account x r" using assms(2) by (auto simp: find_Some_iff)
  have "same_account x r' \<longleftrightarrow> uw_id r' = uw_id r" if "r' \<in> set (db_users d)" for r'
    using dist that r by (auto simp: same_account_def distinct_map inj_on_def)
  then have rows: "update_rows (same_account x) (merge_user x) (db_users d)
      = update_rows (\<lambda>r'. uw_id r' = uw_id r) (merge_user x) (db_users d)"
    unfolding update_rows_def by (intro map_cong) simp_all
  have "find (\<lambda>r'. uw_id r' = j) (update_rows (\<lambda>r'. uw_id r' = uw_id r) (merge_user x) (db_users d))
      = map_option (\<lambda>r'. if uw_id r' = uw_id r then merge_user x r' else r') (find (\<lambda>r'. uw_id r' = j) (db_users d))"
    by (rule find_update_rows) (simp add: merge_user_def)
  moreover have "find (\<lambda>r'. uw_id r' = uw_id r) (db_users d) = Some r" by (rule find_distinct [OF dist(1) r(1)])
  moreover have "map_option (\<lambda>r'. if uw_id r' = uw_id r then merge_user x r' else r') (find (\<lambda>r'. uw_id r' = j) (db_users d))
      = find (\<lambda>r'. uw_id r' = j) (db_users d)" if "j \<noteq> uw_id r"
  proof (cases "find (\<lambda>r'. uw_id r' = j) (db_users d)")
    case (Some y)
    then have "uw_id y = j" by (auto simp: find_Some_iff)
    with Some that show ?thesis by simp
  qed simp
  ultimately show ?thesis using rows by simp
qed

text \<open>The two outcomes of an upsert that succeeds.\<close>

lemma UpsertUser_cases:
  assumes "db_ok d" "UpsertUser c f n u d = (Inr u', d')"
  obtains r where "find (same_account (user_to_row c f n u)) (db_users d) = Some r"
      "u' = scanUser c (merge_user (user_to_row c f n u) r)"
      "d' = d\<lparr>db_users := update_rows (same_account (user_to_row c f n u)) (merge_user (user_to_row c f n u)) (db_users d)\<rparr>"
    | "find (\<lambda>r. uw_id r = uw_id (user_to_row c f n u)) (db_users d) = None"
      "u' = scanUser c (user_to_row c f n u)" "d' = d\<lparr>db_users := db_users d @ [user_to_row c f n u]\<rparr>"
proof (cases "find (same_account (user_to_row c f n u)) (db_users d)")
  case (Some r)
  with assms(2) find_merged [OF assms(1) Some, of "uw_id r"] that(1) show thesis
    by (simp add: UpsertUser_def Let_def GetUser_def)
next
  case None
  let ?x = "user_to_row c f n u"
  from None assms(2) have new: "uw_id ?x \<notin> set (user_ids d)"
    and get: "GetUser c (uw_id ?x) (d\<lparr>db_users := db_users d @ [?x]\<rparr>) = (Inr u', d')"
    by (simp_all add: UpsertUser_def Let_def split: if_splits)
  from new have none: "find (\<lambda>r. uw_id r = uw_id ?x) (db_users d) = None"
    by (auto simp: user_ids_def find_None_iff image_iff)
  with get that(2) show thesis by (simp add: GetUser_def find_append)
qed

lemma user_to_row_simps:
  "uw_provider (user_to_row c f n u) = u_Provider u" "uw_provider_user_id (user_to_row c f n u) = u_ProviderUserID u"
  "uw_login (user_to_row c f n u) = u_Login u" "uw_disabled_at (user_to_row c f n u) = opt_milli (u_DisabledAt u)"
  "uw_oauth_token (user_to_row c f n u) = encrypt c (u_OAuthAccessToken u)"
  "uw_oauth_refresh_token (user_to_row c f n u) = encrypt c (u_OAuthRefreshToken u)"
  by (simp_all add: user_to_row_def Let_def)

lemma upsert_view:
  assumes "db_ok d" "cipher_ok c" "u_DisabledAt u = None" "UpsertUser c f n u d = (Inr u', d')"
  shows "auth_view_of c d' = (auth_view_of c d)\<lparr>av_users := (av_users (auth_view_of c d))(u_ID u' := Some u')\<rparr>
     \<and> u_Provider u' = u_Provider u \<and> u_ProviderUserID u' = u_ProviderUserID u \<and> u_Login u' = u_Login u
     \<and> u_DisabledAt u' = None \<and> u_OAuthAccessToken u' = u_OAuthAccessToken u
     \<and> (case av_users (auth_view_of c d) (u_ID u') of
          None \<Rightarrow> u_OAuthRefreshToken u' = u_OAuthRefreshToken u
        | Some o' \<Rightarrow> u_Provider o' = u_Provider u \<and> u_ProviderUserID o' = u_ProviderUserID u
            \<and> u_OAuthRefreshToken u' = (if u_OAuthRefreshToken u = [] then u_OAuthRefreshToken o' else u_OAuthRefreshToken u))"
  using assms(1,4)
proof (cases rule: UpsertUser_cases)
  case (1 r)
  let ?x = "user_to_row c f n u"
  have find': "find (\<lambda>r'. uw_id r' = j) (db_users d')
      = (if j = uw_id r then Some (merge_user ?x r) else find (\<lambda>r'. uw_id r' = j) (db_users d))" for j
    using find_merged [OF assms(1) 1(1)] by (simp add: 1(3))
  have r: "r \<in> set (db_users d)" "same_account ?x r" using 1(1) by (auto simp: find_Some_iff)
  have old: "find (\<lambda>r'. uw_id r' = uw_id r) (db_users d) = Some r"
    by (rule find_distinct [OF db_okD(6) [OF assms(1)] r(1)])
  have id: "u_ID u' = uw_id r" by (simp add: 1(2) scanUser_def merge_user_def)
  have "auth_view_of c d' = (auth_view_of c d)\<lparr>av_users := (av_users (auth_view_of c d))(u_ID u' := Some u')\<rparr>"
    by (simp add: auth_view_of_def fun_eq_iff find' id) (simp add: 1(2,3))
  moreover have "av_users (auth_view_of c d) (u_ID u') = Some (scanUser c r)"
    by (simp add: auth_view_of_def id old)
  moreover have "u_OAuthRefreshToken u' = (if u_OAuthRefreshToken u = [] then decrypt c (uw_oauth_refresh_token r)
      else u_OAuthRefreshToken u)"
    using assms(2) by (simp add: 1(2) scanUser_def merge_user_def user_to_row_simps encrypt_Nil_iff)
  ultimately show ?thesis
    using r(2) assms(2) by (simp add: 1(2) scanUser_def merge_user_def user_to_row_simps same_account_def)
next
  case 2
  let ?x = "user_to_row c f n u"
  have id: "u_ID u' = uw_id ?x" by (simp add: 2(2) scanUser_def)
  have "auth_view_of c d' = (auth_view_of c d)\<lparr>av_users := (av_users (auth_view_of c d))(u_ID u' := Some u')\<rparr>"
    using 2(1) unfolding auth_view_of_def fun_eq_iff id
    by (auto simp: 2(2,3) find_append split: option.split)
  moreover have "av_users (auth_view_of c d) (u_ID u') = None" by (simp add: auth_view_of_def id 2(1))
  ultimately show ?thesis
    using assms(2,3) by (simp add: 2(2) scanUser_def user_to_row_simps opt_milli_def)
qed

lemma upsert_error: "UpsertUser c f n u d = (Inl e, d') \<Longrightarrow> db_ok d \<Longrightarrow> d' = d"
proof -
  assume up: "UpsertUser c f n u d = (Inl e, d')" and ok: "db_ok d"
  let ?x = "user_to_row c f n u"
  have "GetUser c (uw_id r) (d\<lparr>db_users := update_rows (same_account ?x) (merge_user ?x) (db_users d)\<rparr>) \<noteq> (Inl e, d')"
    if "find (same_account ?x) (db_users d) = Some r" for r
  proof -
    have "uw_id r \<in> set (map uw_id (update_rows (same_account ?x) (merge_user ?x) (db_users d)))"
      using that by (subst map_update_rows) (auto simp: find_Some_iff merge_user_def)
    then show ?thesis by (auto simp: GetUser_def find_None_iff split: option.split)
  qed
  with up show "d' = d"
    by (auto simp: UpsertUser_def Let_def GetUser_def find_append split: option.splits if_splits)
qed

interpretation sqlite_auth: auth_contract "sqlite_auth c fresh now" "auth_view_of c" "sqlite_ok c" for c fresh now
proof (unfold_locales, goal_cases)
  case (6 s q s')
  then show ?case using active_users_view [of s] by (auto simp: ListActiveUsers_def sqlite_ok_def)
next
  case (7 s u r s')
  then show ?case
    using UpsertUser_ok [of s c fresh now u] upsert_view [of s c u fresh now] upsert_error [of c fresh now u s]
    by (cases r) (auto simp: sqlite_ok_def)
next
  case 4
  then show ?case by (auto simp: auth_view_of_def scanUser_def find_Some_iff)
next
  case 5
  then show ?case by (auto simp: auth_view_of_def scanSession_def find_Some_iff)
qed (simp_all add: auth_reads user_writes session_deletes session_writes token_writes sqlite_ok_def)

end
