(* ===== verification/AuthSafety.thy ===== *)
theory AuthSafety
  imports AuthContract
begin

text \<open>
  What authentication and revalidation guarantee. The lemmas are proved from the store's contract,
  first for a store whose operations may fail at any time, then (\<open>reliable_auth\<close>) for one that only
  reports missing rows; the properties instantiate them with the SQLite store.
\<close>

section \<open>Authentication over any store\<close>

definition slide :: "auth_service \<Rightarrow> go_time \<Rightarrow> session \<Rightarrow> session" where
  "slide svc now x =
     (if sessionTouchInterval \<le> now - s_LastSeenAt x
      then x\<lparr>s_LastSeenAt := now, s_ExpiresAt := now + sv_sessionTTL svc\<rparr> else x)"

definition live_session :: "auth_service \<Rightarrow> go_time \<Rightarrow> auth_view \<Rightarrow> string \<Rightarrow> user \<Rightarrow> session \<Rightarrow> bool" where
  "live_session svc now v k u x \<longleftrightarrow>
     av_sessions v k = Some x \<and> now < s_ExpiresAt x \<and> av_users v (s_UserID x) = Some u
     \<and> u_DisabledAt u = None \<and> u_Provider u = sv_name svc"

definition live_token :: "auth_service \<Rightarrow> go_time \<Rightarrow> auth_view \<Rightarrow> string \<Rightarrow> user \<Rightarrow> bool" where
  "live_token svc now v k u \<longleftrightarrow>
     (\<exists>t. av_tokens v k = Some t \<and> (\<forall>e. t_ExpiresAt t = Some e \<longrightarrow> now < e)
          \<and> av_users v (t_UserID t) = Some u \<and> u_DisabledAt u = None \<and> u_Provider u = sv_name svc)"

lemma returns_iff:
  "(case r of (Inl e, s) \<Rightarrow> False | (Inr a, s) \<Rightarrow> P a s) \<longleftrightarrow> (\<exists>a s. r = (Inr a, s) \<and> P a s)"
  by (cases r; cases "fst r") auto

lemma lookup_error_not [simp]: "lookup_error e = ErrUnauthorized \<longleftrightarrow> e = ErrNotFound"
  by (simp add: lookup_error_def)

context auth_contract
begin

lemma session_sound:
  assumes "ok s" "AuthenticateSession svc st hash now raw s = (Inr (u, x), s')"
  shows "ok s' \<and> raw \<noteq> [] \<and> (\<exists>x0. live_session svc now (view s) (hash raw) u x0 \<and> (x = x0 \<or> x = slide svc now x0))"
proof -
  from assms(2) have raw: "raw \<noteq> []" by (auto simp: AuthenticateSession_def)
  from get_session [OF assms(1), of "hash raw"] show ?thesis
  proof (cases rule: reads_cases)
    case (1 e)
    with assms(2) raw show ?thesis by (simp add: AuthenticateSession_def)
  next
    case (2 x0)
    from get_user [OF assms(1), of "s_UserID x0"] show ?thesis
    proof (cases rule: reads_cases)
      case (1 e)
      with assms(2) raw 2 show ?thesis by (auto simp: AuthenticateSession_def split: if_splits)
    next
      case u: (2 u0)
      from touch_session [OF assms(1), of "s_ID x0" now "now + sv_sessionTTL svc"] show ?thesis
        by (cases rule: writes_cases)
           (use assms raw 2 u in \<open>auto simp: AuthenticateSession_def Let_def live_session_def slide_def split: if_splits\<close>)
    qed
  qed
qed

lemma token_sound:
  assumes "ok s" "AuthenticateToken svc st hash now raw s = (Inr u, s')"
  shows "ok s' \<and> raw \<noteq> [] \<and> live_token svc now (view s) (hash raw) u"
proof -
  from assms(2) have raw: "raw \<noteq> []" by (auto simp: AuthenticateToken_def)
  from get_token [OF assms(1), of "hash raw"] show ?thesis
  proof (cases rule: reads_cases)
    case (1 e)
    with assms(2) raw show ?thesis by (simp add: AuthenticateToken_def)
  next
    case (2 t)
    from get_user [OF assms(1), of "t_UserID t"] show ?thesis
    proof (cases rule: reads_cases)
      case (1 e)
      with assms(2) raw 2 show ?thesis by (auto simp: AuthenticateToken_def split: if_splits)
    next
      case u: (2 u0)
      from touch_token [OF assms(1), of "t_ID t" now] show ?thesis
        by (cases rule: writes_cases)
           (use assms raw 2 u in \<open>auto simp: AuthenticateToken_def live_token_def split: if_splits option.splits\<close>)
    qed
  qed
qed

lemma disabled_session_revoked:
  assumes "ok s" "av_sessions (view s) (hash raw) = Some x" "raw \<noteq> []" "now < s_ExpiresAt x"
    and "av_users (view s) (s_UserID x) = Some u" "u_DisabledAt u \<noteq> None \<or> u_Provider u \<noteq> sv_name svc"
  shows "(\<exists>e. fst (AuthenticateSession svc st hash now raw s) = Inl e)
    \<and> ok (snd (AuthenticateSession svc st hash now raw s))"
proof -
  from get_session [OF assms(1), of "hash raw"] show ?thesis
  proof (cases rule: reads_cases)
    case (1 e)
    with assms show ?thesis by (simp add: AuthenticateSession_def)
  next
    case (2 x0)
    from get_user [OF assms(1), of "s_UserID x0"] show ?thesis
    proof (cases rule: reads_cases)
      case (1 e)
      with assms 2 show ?thesis by (simp add: AuthenticateSession_def)
    next
      case u: (2 u0)
      from delete_user_sessions [OF assms(1), of "u_ID u0"] show ?thesis
        by (cases rule: writes_cases) (use assms 2 u in \<open>auto simp: AuthenticateSession_def\<close>)
    qed
  qed
qed

lemma login_sound:
  assumes "ok s" "Login svc st now code nonce verifier s = (Inr u, s')"
  obtains i where "ap_Exchange (sv_provider svc) code nonce verifier = Inr i"
    "authorized svc (id_Login i) (tk_AccessToken (id_Token i)) = Inr True"
    "ok s'" "view s' = (view s)\<lparr>av_users := (av_users (view s))(u_ID u := Some u)\<rparr>"
    "u_Provider u = sv_name svc" "u_ProviderUserID u = id_ProviderUserID i" "u_Login u = id_Login i"
    "u_DisabledAt u = None"
proof -
  from assms(2) obtain i where i: "ap_Exchange (sv_provider svc) code nonce verifier = Inr i"
    "authorized svc (id_Login i) (tk_AccessToken (id_Token i)) = Inr True"
    by (auto simp: Login_def Let_def split: sum.splits if_splits)
  let ?u = "\<lparr>u_ID = uuid_Nil, u_Provider = sv_name svc, u_ProviderUserID = id_ProviderUserID i,
     u_Login = id_Login i, u_Name = id_Name i, u_AvatarURL = id_AvatarURL i,
     u_OAuthAccessToken = tk_AccessToken (id_Token i), u_OAuthRefreshToken = tk_RefreshToken (id_Token i),
     u_OAuthExpiresAt = tk_ExpiresAt (id_Token i), u_CreatedAt = now, u_LastLoginAt = now,
     u_LastOrgCheckAt = Some now, u_DisabledAt = None\<rparr>"
  have "au_UpsertUser st ?u s = (Inr u, s')"
    using assms(2) i by (auto simp: Login_def Let_def split: sum.splits if_splits prod.splits)
  from upsert_user [OF assms(1) _ this] i that show thesis by simp
qed

lemma login_denied:
  assumes "ok s" "fst (Login svc st now code nonce verifier s) = Inl e"
  shows "view (snd (Login svc st now code nonce verifier s)) = view s"
proof -
  have "view s' = view s" if "au_UpsertUser st u s = (Inl e', s')" "u_DisabledAt u = None" for u e' s'
    using upsert_user [OF assms(1) that(2,1)] by simp
  with assms(2) show ?thesis
    by (auto simp: Login_def Let_def split: sum.splits if_splits prod.splits)
qed

end

section \<open>Revalidation\<close>

text \<open>The verdict on a user, from the user's record and the answers of the provider alone.\<close>

definition renewed :: "auth_service \<Rightarrow> go_time \<Rightarrow> user \<Rightarrow> auth_error + string" where
  "renewed svc at u =
     (case u_OAuthExpiresAt u of
        None \<Rightarrow> Inr (u_OAuthAccessToken u)
      | Some expires \<Rightarrow>
          (if u_OAuthRefreshToken u = [] \<or> at < expires - refreshLeeway then Inr (u_OAuthAccessToken u)
           else (case ap_Refresh (sv_provider svc) (u_OAuthRefreshToken u) of
                   Inl e \<Rightarrow> Inl e | Inr t \<Rightarrow> Inr (tk_AccessToken t))))"

definition check_due :: "go_time \<Rightarrow> user \<Rightarrow> bool" where
  "check_due now u \<longleftrightarrow>
     (case u_LastOrgCheckAt u of None \<Rightarrow> True | Some at \<Rightarrow> membershipCheckInterval \<le> now - at)"

fun refused :: "auth_error + bool \<Rightarrow> bool" where
  "refused (Inr allowed) \<longleftrightarrow> \<not> allowed"
| "refused (Inl (ErrTokenInvalid _)) \<longleftrightarrow> True"
| "refused (Inl _) \<longleftrightarrow> False"

definition access_lost :: "auth_service \<Rightarrow> go_time \<Rightarrow> go_time \<Rightarrow> user \<Rightarrow> bool" where
  "access_lost svc now renewAt u \<longleftrightarrow>
     u_Provider u \<noteq> sv_name svc
     \<or> check_due now u \<and> refused (bindR (renewed svc renewAt u) (authorized svc (u_Login u)))"

lemma wrapErr_refused [simp]: "refused (Inl (wrapErr m e)) = refused (Inl e)"
  by (cases e) simp_all

lemma refused_Inl: "refused (Inl e) \<longleftrightarrow> (\<exists>t. e = ErrTokenInvalid t)"
  by (cases e) simp_all

text \<open>
  How the loop may change a view: only the users in \<open>lost\<close> change whether they are disabled, and only
  their sessions disappear.
\<close>

definition access_change :: "(uuid \<Rightarrow> bool) \<Rightarrow> auth_view \<Rightarrow> auth_view \<Rightarrow> bool" where
  "access_change lost v v' \<longleftrightarrow>
     av_tokens v' = av_tokens v \<and> (\<forall>i. av_users v' i = None \<longleftrightarrow> av_users v i = None)
     \<and> (\<forall>i u u'. av_users v i = Some u \<longrightarrow> av_users v' i = Some u' \<longrightarrow> u_DisabledAt u' = u_DisabledAt u \<or> lost i)
     \<and> (\<forall>k x. av_sessions v' k = Some x \<longrightarrow> av_sessions v k = Some x)
     \<and> (\<forall>k x. av_sessions v k = Some x \<longrightarrow> av_sessions v' k = Some x \<or> lost (s_UserID x))"

lemma access_changeD:
  assumes "access_change lost v v'"
  shows "av_tokens v' = av_tokens v" "av_users v' i = None \<longleftrightarrow> av_users v i = None"
    "av_users v i = Some u \<Longrightarrow> av_users v' i = Some u' \<Longrightarrow> u_DisabledAt u' = u_DisabledAt u \<or> lost i"
    "av_sessions v' k = Some x \<Longrightarrow> av_sessions v k = Some x"
    "av_sessions v k = Some x \<Longrightarrow> av_sessions v' k = Some x \<or> lost (s_UserID x)"
  using assms by (simp_all add: access_change_def)

lemma access_change_refl [simp]: "access_change lost v v"
  by (auto simp: access_change_def)

lemma access_change_trans:
  assumes a: "access_change l1 v v'" and b: "access_change l2 v' v''" and l: "\<And>i. l1 i \<or> l2 i \<Longrightarrow> l3 i"
  shows "access_change l3 v v''"
proof -
  have "u_DisabledAt u'' = u_DisabledAt u \<or> l3 i" if "av_users v i = Some u" "av_users v'' i = Some u''" for i u u''
  proof -
    have "av_users v' i \<noteq> None" using access_changeD(2) [OF a, of i] that(1) by simp
    then obtain u' where "av_users v' i = Some u'" by blast
    with access_changeD(3) [OF a that(1) this] access_changeD(3) [OF b this that(2)] l show ?thesis by auto
  qed
  moreover have "av_sessions v'' k = Some x \<or> l3 (s_UserID x)" if "av_sessions v k = Some x" for k x
    using access_changeD(5) [OF a that] access_changeD(5) [OF b, of k x] l by blast
  moreover have "av_sessions v k = Some x" if "av_sessions v'' k = Some x" for k x
    using access_changeD(4) [OF a access_changeD(4) [OF b that]] .
  ultimately show ?thesis
    unfolding access_change_def using access_changeD(1,2) [OF a] access_changeD(1,2) [OF b] by simp
qed

definition only_user :: "uuid \<Rightarrow> bool \<Rightarrow> auth_view \<Rightarrow> auth_view \<Rightarrow> bool" where
  "only_user i lost = access_change (\<lambda>j. j = i \<and> lost)"

lemma only_user_refl [simp]: "only_user i lost v v"
  by (simp add: only_user_def)

lemma only_user_trans: "only_user i False v v' \<Longrightarrow> only_user i lost v' v'' \<Longrightarrow> only_user i lost v v''"
  unfolding only_user_def by (erule access_change_trans) auto

lemma only_user_trans2: "only_user i lost v v' \<Longrightarrow> only_user i lost v' v'' \<Longrightarrow> only_user i lost v v''"
  unfolding only_user_def by (erule access_change_trans) auto

lemma only_user_map_user: "(\<forall>u. u_DisabledAt (f u) = u_DisabledAt u) \<or> lost \<Longrightarrow> only_user i lost v (map_user i f v)"
  by (auto simp: only_user_def access_change_def map_user_def)

lemma only_user_sessions: "only_user i True v (keep_sessions (\<lambda>x. s_UserID x \<noteq> i) v)"
  by (auto simp: only_user_def access_change_def keep_sessions_def keep_if_def split: option.splits)

definition user_gone :: "uuid \<Rightarrow> auth_view \<Rightarrow> bool" where
  "user_gone i v \<longleftrightarrow> (\<forall>u. av_users v i = Some u \<longrightarrow> u_DisabledAt u \<noteq> None)
     \<and> (\<forall>k x. av_sessions v k = Some x \<longrightarrow> s_UserID x \<noteq> i)"

context auth_contract
begin

lemma disable_step:
  assumes "ok s"
  shows "ok (disable st at u s) \<and> only_user (u_ID u) True (view s) (view (disable st at u s))"
  using disable_user [OF assms, of "u_ID u" at]
proof (cases rule: writes_cases)
  case (1 e s1)
  then show ?thesis by (simp add: disable_def)
next
  case (2 a s1)
  have "only_user (u_ID u) True (view s) (view s1)" by (simp add: 2(3) only_user_map_user)
  with delete_user_sessions [OF 2(2), of "u_ID u"] 2(1) show ?thesis
    by (cases rule: writes_cases)
       (auto simp: disable_def simp flip: 2(3) intro: only_user_trans2 [OF _ only_user_sessions])
qed

lemma accessToken_step:
  assumes "ok s"
  obtains r s1 where "accessToken svc st at u s = (r, s1)" "ok s1" "only_user (u_ID u) False (view s) (view s1)"
    "r = renewed svc at u \<or> (\<exists>e m. r = Inl (wrapErr m e) \<and> renewed svc at u = Inl e)
     \<or> (\<exists>e t. r = Inl (ErrAuthStore e) \<and> renewed svc at u = Inr t)"
proof (cases "\<exists>expires t. u_OAuthExpiresAt u = Some expires \<and> u_OAuthRefreshToken u \<noteq> [] \<and> \<not> at < expires - refreshLeeway
    \<and> ap_Refresh (sv_provider svc) (u_OAuthRefreshToken u) = Inr t")
  case False
  then have "snd (accessToken svc st at u s) = s"
    "fst (accessToken svc st at u s) = renewed svc at u
     \<or> (\<exists>e m. fst (accessToken svc st at u s) = Inl (wrapErr m e) \<and> renewed svc at u = Inl e)"
    by (auto simp: accessToken_def renewed_def split: option.splits sum.splits)
  with that [of "fst (accessToken svc st at u s)" s] assms show thesis by (metis only_user_refl prod.collapse)
next
  case True
  then obtain t expires where t: "u_OAuthExpiresAt u = Some expires" "u_OAuthRefreshToken u \<noteq> []" "\<not> at < expires - refreshLeeway"
    "ap_Refresh (sv_provider svc) (u_OAuthRefreshToken u) = Inr t" by blast
  have r: "renewed svc at u = Inr (tk_AccessToken t)" using t by (simp add: renewed_def)
  from set_tokens [OF assms, of "u_ID u" "tk_AccessToken t" "tk_RefreshToken t" "tk_ExpiresAt t"] show thesis
  proof (cases rule: writes_cases)
    case (1 e s1)
    then show thesis using that [of "Inl (ErrAuthStore e)" s1] t r by (simp add: accessToken_def)
  next
    case (2 a s1)
    then show thesis
      using that [of "Inr (tk_AccessToken t)" s1] t r
      by (simp add: accessToken_def only_user_map_user)
  qed
qed

lemma revalidateUser_step:
  assumes "ok s"
  shows "ok (revalidateUser svc st now clock u s)
    \<and> only_user (u_ID u) (access_lost svc now (fst (clock (u_ID u))) u) (view s) (view (revalidateUser svc st now clock u s))"
proof -
  let ?lost = "access_lost svc now (fst (clock (u_ID u))) u"
  show ?thesis
  proof (cases "u_Provider u = sv_name svc \<and> check_due now u")
    case False
    then show ?thesis
      using disable_step [OF assms, of "snd (clock (u_ID u))" u] assms
      by (auto simp: revalidateUser_def Let_def access_lost_def check_due_def split: option.splits)
  next
    case True
    then have due: "\<not> (case u_LastOrgCheckAt u of None \<Rightarrow> False | Some at \<Rightarrow> now - at < membershipCheckInterval)"
      by (auto simp: check_due_def split: option.splits)
    from accessToken_step [OF assms] obtain r s1 where r: "accessToken svc st (fst (clock (u_ID u))) u s = (r, s1)"
      and s1: "ok s1" "only_user (u_ID u) False (view s) (view s1)"
      and rn: "r = renewed svc (fst (clock (u_ID u))) u
        \<or> (\<exists>e m. r = Inl (wrapErr m e) \<and> renewed svc (fst (clock (u_ID u))) u = Inl e)
        \<or> (\<exists>e t. r = Inl (ErrAuthStore e) \<and> renewed svc (fst (clock (u_ID u))) u = Inr t)" by metis
    note trans = only_user_trans [OF s1(2)]
    note dis = disable_step [OF s1(1), of "snd (clock (u_ID u))" u]
    have dis': "ok (disable st (snd (clock (u_ID u))) u s1)
        \<and> only_user (u_ID u) ?lost (view s) (view (disable st (snd (clock (u_ID u))) u s1))" if ?lost
      using that dis trans by simp
    have keep: "ok s1 \<and> only_user (u_ID u) ?lost (view s) (view s1)" using s1 trans by simp
    show ?thesis
    proof (cases r)
      case (Inl e)
      have lost: ?lost if "e = ErrTokenInvalid t" for t
      proof -
        from rn Inl that have "renewed svc (fst (clock (u_ID u))) u = Inl e
            \<or> (\<exists>e' m. renewed svc (fst (clock (u_ID u))) u = Inl e' \<and> e = wrapErr m e')"
          by (elim disjE) auto
        then obtain e' where "renewed svc (fst (clock (u_ID u))) u = Inl e'" "e' = e \<or> (\<exists>m. e = wrapErr m e')"
          by blast
        moreover from this(2) that have "refused (Inl e')" using wrapErr_refused by (metis refused.simps(2))
        ultimately show ?thesis using True by (simp add: access_lost_def)
      qed
      show ?thesis
      proof (cases e)
        case (ErrTokenInvalid t)
        with r Inl due True dis' lost show ?thesis by (simp add: revalidateUser_def Let_def)
      qed (use r Inl due True keep in \<open>simp_all add: revalidateUser_def Let_def\<close>)
    next
      case (Inr tok)
      then have tok: "renewed svc (fst (clock (u_ID u))) u = Inr tok" using rn by auto
      have chk: "ok (snd (au_SetUserOrgCheck st (u_ID u) now s1))
          \<and> only_user (u_ID u) ?lost (view s) (view (snd (au_SetUserOrgCheck st (u_ID u) now s1)))"
        using set_check [OF s1(1), of "u_ID u" now] trans
        by (cases rule: writes_cases) (auto intro!: trans only_user_map_user)
      show ?thesis
        using r Inr due True tok dis' keep chk
        by (auto simp: revalidateUser_def Let_def access_lost_def split: sum.split bool.split auth_error.split)
    qed
  qed
qed

end

text \<open>The loop and the whole pass.\<close>

definition lost_users :: "auth_service \<Rightarrow> go_time \<Rightarrow> (uuid \<Rightarrow> go_time \<times> go_time) \<Rightarrow> auth_view \<Rightarrow> uuid \<Rightarrow> bool" where
  "lost_users svc now clock v i \<longleftrightarrow>
     (\<exists>u. av_users v i = Some u \<and> u_DisabledAt u = None \<and> access_lost svc now (fst (clock i)) u)"

context auth_contract
begin

lemma revalidate_loop:
  assumes "ok s"
  shows "ok (foldl (\<lambda>s u. revalidateUser svc st now clock u s) s us)
    \<and> access_change (\<lambda>i. \<exists>u \<in> set us. u_ID u = i \<and> access_lost svc now (fst (clock i)) u)
        (view s) (view (foldl (\<lambda>s u. revalidateUser svc st now clock u s) s us))"
  using assms
proof (induction us arbitrary: s)
  case (Cons u us)
  let ?s = "revalidateUser svc st now clock u s"
  have step: "ok ?s" "only_user (u_ID u) (access_lost svc now (fst (clock (u_ID u))) u) (view s) (view ?s)"
    using revalidateUser_step [OF Cons.prems] by simp_all
  from Cons.IH [OF step(1)] access_change_trans [OF step(2) [unfolded only_user_def]] show ?case
    by (auto elim!: access_change_trans [OF step(2) [unfolded only_user_def]])
qed simp

lemma revalidate_safe:
  assumes "ok s"
  shows "ok (Revalidate svc st now clock s)
    \<and> (\<exists>v. access_change (lost_users svc now clock (view s)) (view s) v
         \<and> (view (Revalidate svc st now clock s) = v
            \<or> view (Revalidate svc st now clock s) = keep_sessions (\<lambda>x. unix_milli now \<le> unix_milli (s_ExpiresAt x)) v))"
proof (cases "au_ListActiveUsers st s")
  case (Pair q s1)
  note act = active_users [OF assms Pair]
  show ?thesis
  proof (cases q)
    case (Inl e)
    with Pair act assms show ?thesis by (auto simp: Revalidate_def intro: exI [of _ "view s"])
  next
    case (Inr us)
    let ?s = "foldl (\<lambda>s u. revalidateUser svc st now clock u s) s us"
    have us: "set us = {u. \<exists>i. av_users (view s) i = Some u \<and> u_DisabledAt u = None}" using act Inr by simp
    have "(\<exists>u \<in> set us. u_ID u = i \<and> access_lost svc now (fst (clock i)) u) = lost_users svc now clock (view s) i" for i
      unfolding us lost_users_def using user_id [OF assms] by fastforce
    with revalidate_loop [OF assms, of svc now clock us]
    have loop: "ok ?s" "access_change (lost_users svc now clock (view s)) (view s) (view ?s)" by simp_all
    from delete_expired [OF loop(1), of now] show ?thesis
      by (cases rule: writes_cases) (use Pair Inr act loop in \<open>auto simp: Revalidate_def\<close>)
  qed
qed

end

section \<open>A store that only reports missing rows\<close>

definition succeeds :: "('s, 'a) state_op \<Rightarrow> 's \<Rightarrow> bool" where
  "succeeds op s \<longleftrightarrow> (\<exists>a. fst (op s) = Inr a)"

locale reliable_auth = auth_contract +
  assumes reads_work: "ok s \<Longrightarrow> fst (au_GetSession st k s) = Inl e \<Longrightarrow> e = ErrNotFound"
      "ok s \<Longrightarrow> fst (au_GetUser st i s) = Inl e' \<Longrightarrow> e' = ErrNotFound"
      "ok s \<Longrightarrow> fst (au_GetAPITokenByHash st k s) = Inl e'' \<Longrightarrow> e'' = ErrNotFound"
    and writes_work: "ok s \<Longrightarrow> succeeds (au_ListActiveUsers st) s"
      "ok s \<Longrightarrow> succeeds (au_DisableUser st i at) s"
      "ok s \<Longrightarrow> succeeds (au_DeleteUserSessions st i) s"
      "ok s \<Longrightarrow> succeeds (au_DeleteExpiredSessions st at) s"
      "ok s \<Longrightarrow> succeeds (au_UpdateUserOAuthToken st i a rf x) s"
      "ok s \<Longrightarrow> succeeds (au_TouchSession st k at at') s"
begin

lemma read_values:
  assumes "ok s"
  shows "au_GetSession st k s = (case av_sessions (view s) k of None \<Rightarrow> Inl ErrNotFound | Some x \<Rightarrow> Inr x, s)"
    "au_GetUser st i s = (case av_users (view s) i of None \<Rightarrow> Inl ErrNotFound | Some u \<Rightarrow> Inr u, s)"
    "au_GetAPITokenByHash st k s = (case av_tokens (view s) k of None \<Rightarrow> Inl ErrNotFound | Some t \<Rightarrow> Inr t, s)"
  using get_session [OF assms, of k] reads_work(1) [OF assms, of k] get_user [OF assms, of i]
    reads_work(2) [OF assms, of i] get_token [OF assms, of k] reads_work(3) [OF assms, of k]
  by (auto elim!: reads_cases)

lemma write_value:
  assumes "writes ok view op f s" "succeeds op s"
  shows "ok (snd (op s)) \<and> view (snd (op s)) = f (view s)"
  using assms by (auto simp: writes_def succeeds_def)

lemma session_iff:
  assumes "ok s"
  shows "fst (AuthenticateSession svc st hash now raw s) = Inr (u, x)
    \<longleftrightarrow> raw \<noteq> [] \<and> (\<exists>x0. live_session svc now (view s) (hash raw) u x0 \<and> x = slide svc now x0)"
proof -
  have touch: "\<exists>a. fst (au_TouchSession st k now (now + sv_sessionTTL svc) s) = Inr a" for k
    using writes_work(6) [OF assms] by (simp add: succeeds_def)
  show ?thesis
  proof (cases "av_sessions (view s) (hash raw)")
    case None
    then show ?thesis using read_values [OF assms] by (simp add: AuthenticateSession_def live_session_def)
  next
    case (Some x0)
    obtain a s2 where t: "au_TouchSession st (s_ID x0) now (now + sv_sessionTTL svc) s = (Inr a, s2)"
      using touch [of "s_ID x0"] by (metis prod.collapse)
    show ?thesis
      using read_values [OF assms] Some t
      by (cases "av_users (view s) (s_UserID x0)")
         (auto simp: AuthenticateSession_def Let_def live_session_def slide_def)
  qed
qed

lemma session_error:
  assumes "ok s" "fst (AuthenticateSession svc st hash now raw s) = Inl e"
  shows "e = ErrUnauthorized"
  using assms(2) read_values [OF assms(1)]
  by (auto simp: AuthenticateSession_def Let_def lookup_error_def split: if_splits option.splits sum.splits prod.splits)

lemma token_iff:
  assumes "ok s"
  shows "fst (AuthenticateToken svc st hash now raw s) = Inr u \<longleftrightarrow> raw \<noteq> [] \<and> live_token svc now (view s) (hash raw) u"
proof (cases "av_tokens (view s) (hash raw)")
  case None
  then show ?thesis using read_values [OF assms] by (simp add: AuthenticateToken_def live_token_def)
next
  case (Some t)
  then show ?thesis
    using read_values [OF assms]
    by (cases "av_users (view s) (t_UserID t)") (auto simp: AuthenticateToken_def live_token_def split: option.splits)
qed

lemma token_error:
  assumes "ok s" "fst (AuthenticateToken svc st hash now raw s) = Inl e"
  shows "e = ErrUnauthorized"
  using assms(2) read_values [OF assms(1)]
  by (auto simp: AuthenticateToken_def Let_def lookup_error_def split: if_splits option.splits sum.splits prod.splits)

lemma disable_works:
  assumes "ok s"
  shows "user_gone (u_ID u) (view (disable st at u s))"
proof -
  from writes_work(2) [OF assms, of "u_ID u" at] obtain a s1 where s1: "au_DisableUser st (u_ID u) at s = (Inr a, s1)"
    unfolding succeeds_def by (metis prod.collapse)
  with disable_user [OF assms, of "u_ID u" at] have v1: "ok s1"
    "view s1 = map_user (u_ID u) (\<lambda>u. u\<lparr>u_DisabledAt := Some (trunc_ms at)\<rparr>) (view s)"
    by (auto simp: writes_def)
  with write_value [OF delete_user_sessions [OF v1(1)] writes_work(3) [OF v1(1)], of "u_ID u"] s1 show ?thesis
    by (auto simp: disable_def user_gone_def keep_sessions_def keep_if_Some_iff map_user_def)
qed

lemma revalidateUser_works:
  assumes "ok s" "access_lost svc now (fst (clock (u_ID u))) u"
  shows "user_gone (u_ID u) (view (revalidateUser svc st now clock u s))"
proof (cases "u_Provider u = sv_name svc")
  case False
  then show ?thesis using disable_works [OF assms(1)] by (simp add: revalidateUser_def Let_def)
next
  case True
  then have due: "check_due now u"
    and ref: "refused (bindR (renewed svc (fst (clock (u_ID u))) u) (authorized svc (u_Login u)))"
    using assms(2) by (simp_all add: access_lost_def)
  have due': "\<not> (case u_LastOrgCheckAt u of None \<Rightarrow> False | Some at \<Rightarrow> now - at < membershipCheckInterval)"
    using due by (auto simp: check_due_def split: option.splits)
  obtain r s1 where r: "accessToken svc st (fst (clock (u_ID u))) u s = (r, s1)" and s1: "ok s1"
    and rn: "r = renewed svc (fst (clock (u_ID u))) u
        \<or> (\<exists>e m. r = Inl (wrapErr m e) \<and> renewed svc (fst (clock (u_ID u))) u = Inl e)
        \<or> (\<exists>e t. r = Inl (ErrAuthStore e) \<and> renewed svc (fst (clock (u_ID u))) u = Inr t)"
    using accessToken_step [OF assms(1)] by metis
  have not_store: "r \<noteq> Inl (ErrAuthStore e)" if "renewed svc (fst (clock (u_ID u))) u = Inr t" for e t
  proof
    assume "r = Inl (ErrAuthStore e)"
    with r that obtain a b c s' where "au_UpdateUserOAuthToken st (u_ID u) a b c s = (Inl e, s')"
      by (auto simp: accessToken_def renewed_def split: option.splits if_splits sum.splits prod.splits)
    with writes_work(5) [OF assms(1), of "u_ID u" a b c] show False by (simp add: succeeds_def)
  qed
  show ?thesis
  proof (cases r)
    case (Inl e)
    with rn not_store have "\<exists>e'. renewed svc (fst (clock (u_ID u))) u = Inl e' \<and> refused (Inl e) = refused (Inl e')"
      by (elim disjE exE conjE) auto
    with ref obtain t where "e = ErrTokenInvalid t" by (auto simp: refused_Inl)
    with Inl r due' True disable_works [OF s1] show ?thesis by (simp add: revalidateUser_def Let_def)
  next
    case (Inr tok)
    with rn have "renewed svc (fst (clock (u_ID u))) u = Inr tok" by auto
    with ref have "refused (authorized svc (u_Login u) tok)" by simp
    with Inr r due' True disable_works [OF s1] show ?thesis
      by (cases "authorized svc (u_Login u) tok")
         (auto simp: revalidateUser_def Let_def refused_Inl)
  qed
qed

lemma user_gone_change:
  assumes "user_gone i v" and ch: "access_change lost v v'" and "\<not> lost i"
  shows "user_gone i v'"
proof -
  have "u_DisabledAt u' \<noteq> None" if "av_users v' i = Some u'" for u'
  proof -
    have "av_users v i \<noteq> None" using access_changeD(2) [OF ch, of i] that by simp
    then obtain u where "av_users v i = Some u" by blast
    with access_changeD(3) [OF ch this that] assms(1,3) show ?thesis by (auto simp: user_gone_def)
  qed
  with access_changeD(4) [OF ch] assms(1) show ?thesis by (fastforce simp: user_gone_def)
qed

lemma revalidate_exact:
  assumes "ok s"
  obtains v where "ok (Revalidate svc st now clock s)" "access_change (lost_users svc now clock (view s)) (view s) v"
    "view (Revalidate svc st now clock s) = keep_sessions (\<lambda>x. unix_milli now \<le> unix_milli (s_ExpiresAt x)) v"
    "\<And>i. lost_users svc now clock (view s) i \<Longrightarrow> user_gone i v"
proof -
  from writes_work(1) [OF assms(1)] obtain us s1 where us: "au_ListActiveUsers st s = (Inr us, s1)"
    unfolding succeeds_def by (metis prod.collapse)
  note act = active_users [OF assms(1) us]
  let ?f = "\<lambda>s u. revalidateUser svc st now clock u s"
  note loop = revalidate_loop [OF assms, of svc now clock us]
  have lost: "(\<exists>u \<in> set us. u_ID u = i \<and> access_lost svc now (fst (clock i)) u) = lost_users svc now clock (view s) i" for i
    using act user_id [OF assms] unfolding lost_users_def by fastforce
  have "user_gone i (view (foldl ?f s us))" if "lost_users svc now clock (view s) i" for i
  proof -
    from that lost obtain u where u: "u \<in> set us" "u_ID u = i" "access_lost svc now (fst (clock i)) u" by blast
    then obtain xs ys where split: "us = xs @ u # ys" by (auto dest: split_list)
    have "ok (foldl ?f s xs)" using revalidate_loop [OF assms(1)] by blast
    then have gone: "ok (foldl ?f s (xs @ [u]))" "user_gone i (view (foldl ?f s (xs @ [u])))"
      using revalidateUser_works [of "foldl ?f s xs" svc now clock u] u revalidateUser_step [of "foldl ?f s xs" svc now clock u]
      by simp_all
    have "i \<notin> u_ID ` set ys" using act split u(2) by auto
    with revalidate_loop [OF gone(1), of svc now clock ys] gone(2) show ?thesis
      by (auto simp: split elim!: user_gone_change)
  qed
  with that [of "view (foldl ?f s us)"] write_value [OF delete_expired writes_work(4), of "foldl ?f s us" now]
    loop us act lost show thesis
    by (simp add: Revalidate_def)
qed

end

interpretation sqlite_reliable: reliable_auth "sqlite_auth c fresh now" "auth_view_of c" "sqlite_ok c" for c fresh now
  by (unfold_locales, unfold sqlite_auth_sel succeeds_def)
    (simp_all add: GetUser_def GetSession_def GetAPITokenByHash_def ListActiveUsers_def DisableUser_def
       DeleteUserSessions_def DeleteExpiredSessions_def delete_sessions_def UpdateUserOAuthToken_def TouchSession_def
     split: option.splits)

section \<open>Properties of the SQLite deployment\<close>

text \<open>
  C15. Session authentication: a cookie is accepted exactly when its hash names a stored session
  that has not expired, of an existing user who is not disabled and signed in with the configured
  provider; the user returned is that one, and the session is the stored one, slid forward when it was last
  seen an hour ago or more. Every rejection is \<open>ErrUnauthorized\<close>, and the constraints of the database hold afterwards.
\<close>

theorem session_authentication:
  assumes "sqlite_ok c d"
  shows "(fst (AuthenticateSession svc (sqlite_auth c fresh tick) hash now raw d) = Inr (u, x)
      \<longleftrightarrow> raw \<noteq> [] \<and> (\<exists>x0. live_session svc now (auth_view_of c d) (hash raw) u x0 \<and> x = slide svc now x0))
    \<and> (\<forall>e. fst (AuthenticateSession svc (sqlite_auth c fresh tick) hash now raw d) = Inl e \<longrightarrow> e = ErrUnauthorized)"
  by (intro conjI allI impI sqlite_reliable.session_iff [OF assms]) (rule sqlite_reliable.session_error [OF assms])

definition sample_provider :: auth_provider where
  "sample_provider =
     \<lparr>ap_Name = ''github'', ap_RequiredScope = ''read:org'',
      ap_Exchange = (\<lambda>code nonce verifier.
        if code = ''good''
        then Inr \<lparr>id_ProviderUserID = ''7'', id_Login = ''ada'', id_Name = ''Ada'', id_AvatarURL = [],
                  id_Token = \<lparr>tk_AccessToken = ''tok'', tk_RefreshToken = [], tk_ExpiresAt = None\<rparr>,
                  id_Scopes = [''read:org'']\<rparr>
        else Inl (ErrTokenInvalid ''bad code'')),
      ap_Refresh = (\<lambda>_. Inl (ErrProviderUnavailable ''down'')),
      ap_Teams = (\<lambda>tok. if tok = ''tok'' then Inr [''Org/Team''] else Inl (ErrTokenInvalid ''revoked'')),
      ap_Verify = (\<lambda>_. None)\<rparr>"

definition sample_service :: auth_service where
  "sample_service = NewService sample_provider [''org/team''] [] (168 * hour)"

definition sample_user_row :: "uuid \<Rightarrow> string \<Rightarrow> user_row" where
  "sample_user_row i token =
     \<lparr>uw_id = i, uw_provider = ''github'', uw_provider_user_id = uuid_String i, uw_login = ''ada'', uw_name = ''Ada'',
      uw_avatar_url = [], uw_oauth_token = token, uw_oauth_refresh_token = [], uw_oauth_token_expires_at = None,
      uw_created_at = 0, uw_last_login_at = 0, uw_last_org_check_at = None, uw_disabled_at = None\<rparr>"

definition sample_session_row :: "string \<Rightarrow> uuid \<Rightarrow> int \<Rightarrow> session_row" where
  "sample_session_row k i expires =
     \<lparr>sw_id = k, sw_user_id = i, sw_csrf_token = [], sw_created_at = 0, sw_last_seen_at = 0,
      sw_expires_at = expires, sw_user_agent = []\<rparr>"

definition sample_auth_db :: db where
  "sample_auth_db = empty_db\<lparr>db_users := [sample_user_row 1 ''tok'', sample_user_row 2 ''stale''],
     db_sessions := [sample_session_row ''h-a'' 1 1000, sample_session_row ''h-b'' 2 1000],
     db_api_tokens := [\<lparr>tw_id = 9, tw_user_id = 1, tw_name = ''ci'', tw_prefix = [], tw_token_hash = ''h-t'',
                        tw_created_at = 0, tw_last_used_at = None, tw_expires_at = None\<rparr>]\<rparr>"

definition sample_hash :: "string \<Rightarrow> string" where
  "sample_hash raw = ''h-'' @ raw"

lemma sample_auth_ok: "sqlite_ok None sample_auth_db"
  by (simp add: sqlite_ok_def cipher_ok_def sample_auth_db_def db_ok_defs empty_db_def attempt_keys_def
      sample_user_row_def sample_session_row_def)

lemma sample_auth_view:
  "av_users (auth_view_of None sample_auth_db) 1 = Some (scanUser None (sample_user_row 1 ''tok''))"
  "av_users (auth_view_of None sample_auth_db) 2 = Some (scanUser None (sample_user_row 2 ''stale''))"
  "av_sessions (auth_view_of None sample_auth_db) ''h-a'' = Some (scanSession (sample_session_row ''h-a'' 1 1000))"
  "av_sessions (auth_view_of None sample_auth_db) ''h-b'' = Some (scanSession (sample_session_row ''h-b'' 2 1000))"
  "av_tokens (auth_view_of None sample_auth_db) ''h-t'' \<noteq> None"
  by (simp_all add: auth_view_of_def sample_auth_db_def empty_db_def sample_user_row_def sample_session_row_def)

theorem session_authentication_witness:
  "fst (AuthenticateSession sample_service (sqlite_auth None 5 0) sample_hash 500 ''a'' sample_auth_db)
     = Inr (scanUser None (sample_user_row 1 ''tok''), scanSession (sample_session_row ''h-a'' 1 1000))"
proof -
  have "live_session sample_service 500 (auth_view_of None sample_auth_db) (sample_hash ''a'')
      (scanUser None (sample_user_row 1 ''tok'')) (scanSession (sample_session_row ''h-a'' 1 1000))"
    using sample_auth_view
    by (simp add: live_session_def sample_hash_def scanSession_def sample_session_row_def scanUser_def sample_user_row_def
        from_unix_milli_def millisecond_def sample_service_def NewService_def sample_provider_def)
  moreover have "slide sample_service 500 (scanSession (sample_session_row ''h-a'' 1 1000))
      = scanSession (sample_session_row ''h-a'' 1 1000)"
    by (simp add: slide_def scanSession_def sample_session_row_def from_unix_milli_def sessionTouchInterval_def duration_defs)
  ultimately show ?thesis
    using session_authentication [OF sample_auth_ok, of sample_service 5 0 sample_hash 500 "''a''"] by auto
qed

text \<open>
  C16. The JSON API: a path outside the three exempt ones is served only to the owner of a stored,
  unexpired token who is not disabled, and the principal it is given carries no OAuth credential;
  every other request is answered with 401.
\<close>

theorem API_access:
  assumes "sqlite_ok c d" "\<not> isExempt path"
  shows "case fst (API svc (sqlite_auth c fresh tick) hash now path xApiToken authorization d) of
      Served p \<Rightarrow> (\<exists>u. p = Some (WithoutOAuthTokens u)
        \<and> live_token svc now (auth_view_of c d) (hash (bearerToken xApiToken authorization)) u)
    | Refused code \<Rightarrow> code = 401
        \<and> (bearerToken xApiToken authorization = []
           \<or> (\<forall>u. \<not> live_token svc now (auth_view_of c d) (hash (bearerToken xApiToken authorization)) u))"
proof -
  let ?raw = "bearerToken xApiToken authorization"
  let ?r = "AuthenticateToken svc (sqlite_auth c fresh tick) hash now ?raw d"
  note iff = sqlite_reliable.token_iff [OF assms(1), of svc fresh tick hash now ?raw]
  show ?thesis
  proof (cases "fst ?r")
    case (Inl e)
    with sqlite_reliable.token_error [OF assms(1) Inl] iff assms(2) show ?thesis
      by (cases ?r) (auto simp: API_def)
  next
    case (Inr u)
    then obtain d' where "?r = (Inr u, d')" by (metis prod.collapse)
    moreover have "live_token svc now (auth_view_of c d) (hash ?raw) u" using iff Inr by blast
    ultimately show ?thesis using assms(2) by (auto simp: API_def)
  qed
qed

theorem API_access_witness:
  "fst (API sample_service (sqlite_auth None 5 0) sample_hash 500 ''/api/projects'' [] ''Bearer t'' sample_auth_db)
     = Served (Some (WithoutOAuthTokens (scanUser None (sample_user_row 1 ''tok''))))
   \<and> fst (API sample_service (sqlite_auth None 5 0) sample_hash 500 ''/api/projects'' ''x'' [] sample_auth_db) = Refused 401
   \<and> \<not> live_token sample_service 500 (auth_view_of None sample_auth_db) ''h-x'' (scanUser None (sample_user_row 1 ''tok''))"
proof -
  have path: "\<not> isExempt ''/api/projects''" by (simp add: isExempt_def HasPrefix_def)
  have "fst (API sample_service (sqlite_auth None 5 0) sample_hash 500 ''/api/projects'' ''x'' [] sample_auth_db) = Refused 401"
    by (simp add: API_def path bearerToken_def sample_hash_def AuthenticateToken_def GetAPITokenByHash_def sample_auth_db_def
        empty_db_def lookup_error_def)
  moreover have "fst (API sample_service (sqlite_auth None 5 0) sample_hash 500 ''/api/projects'' [] ''Bearer t'' sample_auth_db)
     = Served (Some (WithoutOAuthTokens (scanUser None (sample_user_row 1 ''tok''))))"
    by (simp add: API_def path bearerToken_def sample_hash_def HasPrefix_def TrimPrefix_def AuthenticateToken_def GetAPITokenByHash_def
        sample_auth_db_def empty_db_def scanAPIToken_def GetUser_def sample_user_row_def scanUser_def
        sample_service_def NewService_def sample_provider_def)
  ultimately show ?thesis
    using API_access [OF sample_auth_ok path, where svc = sample_service and fresh = 5 and tick = 0 and hash = sample_hash
        and now = 500 and xApiToken = "''x''" and authorization = "[]"]
    by (simp add: bearerToken_def sample_hash_def)
qed

text \<open>
  C18. Sign in: a user is returned only when the provider identified the account behind the code and
  that account is on the allowlist or in a configured team. The stored user is then enabled and carries that
  identity, every other user, session and token is as before, and a renewal token that the provider
  did not send again is kept. When sign in fails nothing is stored.
\<close>

theorem Login_access:
  assumes "sqlite_ok c d"
  shows "case Login svc (sqlite_auth c fresh tick) now code nonce verifier d of
      (Inl e, d') \<Rightarrow> auth_view_of c d' = auth_view_of c d
    | (Inr u, d') \<Rightarrow> sqlite_ok c d'
        \<and> (\<exists>i. ap_Exchange (sv_provider svc) code nonce verifier = Inr i
             \<and> authorized svc (id_Login i) (tk_AccessToken (id_Token i)) = Inr True
             \<and> u_Provider u = sv_name svc \<and> u_ProviderUserID u = id_ProviderUserID i \<and> u_DisabledAt u = None)
        \<and> auth_view_of c d' = (auth_view_of c d)\<lparr>av_users := (av_users (auth_view_of c d))(u_ID u := Some u)\<rparr>"
proof (cases "Login svc (sqlite_auth c fresh tick) now code nonce verifier d")
  case (Pair r d')
  show ?thesis
  proof (cases r)
    case (Inl e)
    with Pair sqlite_auth.login_denied [OF assms, of svc fresh tick now code nonce verifier e] show ?thesis by simp
  next
    case (Inr u)
    from sqlite_auth.login_sound [OF assms Pair [unfolded Inr]] Pair Inr show ?thesis by (simp; metis)
  qed
qed

theorem Login_access_witness:
  "\<exists>u d'. Login sample_service (sqlite_auth None 5 0) 500 ''good'' [] [] sample_auth_db = (Inr u, d')
     \<and> u_Login u = ''ada'' \<and> sqlite_ok None d' \<and> authorized sample_service ''ada'' ''tok'' = Inr True"
proof -
  have "case Login sample_service (sqlite_auth None 5 0) 500 ''good'' [] [] sample_auth_db of
      (Inl e, s) \<Rightarrow> False | (Inr u, d') \<Rightarrow> u_Login u = ''ada''"
    by code_simp
  then obtain u d' where l: "Login sample_service (sqlite_auth None 5 0) 500 ''good'' [] [] sample_auth_db = (Inr u, d')"
    and "u_Login u = ''ada''" unfolding returns_iff by blast
  with Login_access [OF sample_auth_ok, where svc = sample_service and fresh = 5 and tick = 0 and now = 500
      and code = "''good''" and nonce = "[]" and verifier = "[]"] show ?thesis
    by (auto simp: sample_service_def NewService_def sample_provider_def)
qed

lemma Revalidate_view:
  assumes "sqlite_ok c d" "d' = Revalidate svc (sqlite_auth c fresh tick) now clock d"
  obtains v where "sqlite_ok c d'" "access_change (lost_users svc now clock (auth_view_of c d)) (auth_view_of c d) v"
    "auth_view_of c d' = keep_sessions (\<lambda>x. unix_milli now \<le> unix_milli (s_ExpiresAt x)) v"
    "\<And>i. lost_users svc now clock (auth_view_of c d) i \<Longrightarrow> user_gone i v"
    "\<And>i u. av_users (auth_view_of c d) i = Some u \<Longrightarrow> u_DisabledAt u = None \<Longrightarrow>
      \<exists>u'. av_users v i = Some u' \<and> (u_DisabledAt u' \<noteq> None \<longleftrightarrow> access_lost svc now (fst (clock i)) u)"
proof -
  let ?lost = "lost_users svc now clock (auth_view_of c d)"
  from sqlite_reliable.revalidate_exact [OF assms(1), of svc fresh tick now clock] obtain v
    where ok: "sqlite_ok c d'" and ch: "access_change ?lost (auth_view_of c d) v"
      and v: "auth_view_of c d' = keep_sessions (\<lambda>x. unix_milli now \<le> unix_milli (s_ExpiresAt x)) v"
      and gone: "\<And>i. ?lost i \<Longrightarrow> user_gone i v"
    unfolding assms(2) by metis
  have "\<exists>u'. av_users v i = Some u' \<and> (u_DisabledAt u' \<noteq> None \<longleftrightarrow> access_lost svc now (fst (clock i)) u)"
    if u: "av_users (auth_view_of c d) i = Some u" "u_DisabledAt u = None" for i u
  proof -
    have "av_users v i \<noteq> None" using access_changeD(2) [OF ch, of i] u(1) by simp
    then obtain u' where u': "av_users v i = Some u'" by blast
    have "?lost i \<longleftrightarrow> access_lost svc now (fst (clock i)) u" using u by (auto simp: lost_users_def)
    with access_changeD(3) [OF ch u(1) u'] gone [of i] u' u(2) show ?thesis
      by (auto simp: user_gone_def)
  qed
  from that [OF ok ch v gone this] show thesis .
qed

lemma Revalidate_users:
  assumes "sqlite_ok c d" "av_users (auth_view_of c d) i = Some u" "u_DisabledAt u = None"
  shows "\<exists>u'. av_users (auth_view_of c (Revalidate svc (sqlite_auth c fresh tick) now clock d)) i = Some u'
    \<and> (u_DisabledAt u' \<noteq> None \<longleftrightarrow> access_lost svc now (fst (clock i)) u)"
  by (rule Revalidate_view [OF assms(1) refl, of svc fresh tick now clock]) (use assms(2,3) in \<open>auto simp: keep_sessions_def\<close>)

text \<open>
  C17. Revalidation: of the enabled users exactly those who lost access are disabled, which is when they
  belong to another provider, or their check is due and the provider rejects their credential or no longer lists them
  (so a provider that is down, or an error of the store, disables nobody). A session survives
  exactly when it has not expired and its user did not lose access.
\<close>

theorem Revalidate_exact:
  assumes "sqlite_ok c d" "d' = Revalidate svc (sqlite_auth c fresh tick) now clock d"
  shows "sqlite_ok c d'
    \<and> (\<forall>i u. av_users (auth_view_of c d) i = Some u \<longrightarrow> u_DisabledAt u = None \<longrightarrow>
         (\<exists>u'. av_users (auth_view_of c d') i = Some u'
            \<and> (u_DisabledAt u' \<noteq> None \<longleftrightarrow> access_lost svc now (fst (clock i)) u)))
    \<and> (\<forall>k x. av_sessions (auth_view_of c d') k = Some x \<longleftrightarrow>
         av_sessions (auth_view_of c d) k = Some x \<and> unix_milli now \<le> unix_milli (s_ExpiresAt x)
         \<and> \<not> lost_users svc now clock (auth_view_of c d) (s_UserID x))"
proof -
  let ?lost = "lost_users svc now clock (auth_view_of c d)"
  from Revalidate_view [OF assms] obtain v where ok: "sqlite_ok c d'" and ch: "access_change ?lost (auth_view_of c d) v"
    and v: "auth_view_of c d' = keep_sessions (\<lambda>x. unix_milli now \<le> unix_milli (s_ExpiresAt x)) v"
    and gone: "\<And>i. ?lost i \<Longrightarrow> user_gone i v"
    and users: "\<And>i u. av_users (auth_view_of c d) i = Some u \<Longrightarrow> u_DisabledAt u = None \<Longrightarrow>
      \<exists>u'. av_users v i = Some u' \<and> (u_DisabledAt u' \<noteq> None \<longleftrightarrow> access_lost svc now (fst (clock i)) u)" by metis
  have "av_sessions v k = Some x \<longleftrightarrow> av_sessions (auth_view_of c d) k = Some x \<and> \<not> ?lost (s_UserID x)" for k x
    using access_changeD(4,5) [OF ch, of k x] gone [of "s_UserID x"] by (auto simp: user_gone_def)
  with ok users show ?thesis by (auto simp: v keep_sessions_def keep_if_Some_iff)
qed

theorem Revalidate_exact_witness:
  "(\<exists>u'. av_users (auth_view_of None (Revalidate sample_service (sqlite_auth None 5 0) 500 (\<lambda>_. (500, 500)) sample_auth_db)) 1
       = Some u' \<and> u_DisabledAt u' = None)
   \<and> (\<exists>u'. av_users (auth_view_of None (Revalidate sample_service (sqlite_auth None 5 0) 500 (\<lambda>_. (500, 500)) sample_auth_db)) 2
       = Some u' \<and> u_DisabledAt u' \<noteq> None)"
proof -
  have acc: "\<not> access_lost sample_service 500 500 (scanUser None (sample_user_row 1 ''tok''))"
    "access_lost sample_service 500 500 (scanUser None (sample_user_row 2 ''stale''))"
    by code_simp+
  have act: "u_DisabledAt (scanUser None (sample_user_row i t)) = None" for i t
    by (simp add: scanUser_def sample_user_row_def)
  note rev = Revalidate_exact [OF sample_auth_ok refl, of sample_service 5 0 500 "\<lambda>_. (500, 500)", THEN conjunct2, THEN conjunct1, rule_format]
  from rev [OF sample_auth_view(1) act] rev [OF sample_auth_view(2) act] acc show ?thesis by simp
qed

text \<open>
  C19. Life of a session: the cookie that a successful sign in hands out authenticates its user until it
  expires (times are stored in milliseconds), and never again once the user's sessions are deleted.
\<close>

theorem session_lifecycle:
  assumes "sqlite_ok c d" "service_CreateSession svc (sqlite_auth c fresh tick) hash randomRaw csrf now i ua d = (Inr (raw, x), d1)"
    and "av_users (auth_view_of c d) i = Some u" "u_DisabledAt u = None" "u_Provider u = sv_name svc"
    and "now' < trunc_ms (now + sv_sessionTTL svc)"
  shows "fst (AuthenticateSession svc (sqlite_auth c fresh tick) hash now' raw d1)
           = Inr (u, slide svc now' (stored_session x))
    \<and> fst (AuthenticateSession svc (sqlite_auth c fresh tick) hash now' raw (snd (DeleteUserSessions i d1))) = Inl ErrUnauthorized"
proof -
  from assms(2) have raw: "raw \<noteq> []" and x: "s_ID x = hash raw" "s_UserID x = i" "s_ExpiresAt x = now + sv_sessionTTL svc"
    and create: "CreateSession x d = (Inr (), d1)"
    by (auto simp: service_CreateSession_def Let_def split: sum.splits prod.splits)
  from sqlite_auth.create_session [OF assms(1), where x = x] create have d1: "sqlite_ok c d1"
    "auth_view_of c d1 = (auth_view_of c d)\<lparr>av_sessions := (av_sessions (auth_view_of c d))(s_ID x := Some (stored_session x))\<rparr>"
    by (simp_all add: writes_def)
  from sqlite_auth.delete_user_sessions [OF d1(1), where i = i] have d2: "sqlite_ok c (snd (DeleteUserSessions i d1))"
    "auth_view_of c (snd (DeleteUserSessions i d1)) = keep_sessions (\<lambda>y. s_UserID y \<noteq> i) (auth_view_of c d1)"
    by (simp_all add: writes_def DeleteUserSessions_def delete_sessions_def)
  have "live_session svc now' (auth_view_of c d1) (hash raw) u (stored_session x)"
    using assms(3-6) x by (simp add: live_session_def d1(2) stored_session_def)
  moreover have "\<not> live_session svc now' (auth_view_of c (snd (DeleteUserSessions i d1))) (hash raw) u' y" for u' y
    using x by (simp add: live_session_def d2(2) d1(2) keep_sessions_def stored_session_def)
  ultimately have "fst (AuthenticateSession svc (sqlite_auth c fresh tick) hash now' raw d1) = Inr (u, slide svc now' (stored_session x))"
    and no: "fst (AuthenticateSession svc (sqlite_auth c fresh tick) hash now' raw (snd (DeleteUserSessions i d1))) \<noteq> Inr (u', y)" for u' y
    using raw by (auto simp: sqlite_reliable.session_iff [OF d1(1)] sqlite_reliable.session_iff [OF d2(1)])
  moreover have "fst (AuthenticateSession svc (sqlite_auth c fresh tick) hash now' raw (snd (DeleteUserSessions i d1))) = Inl ErrUnauthorized"
  proof (cases "fst (AuthenticateSession svc (sqlite_auth c fresh tick) hash now' raw (snd (DeleteUserSessions i d1)))")
    case (Inl e)
    with sqlite_reliable.session_error [OF d2(1) Inl] show ?thesis by simp
  next
    case (Inr a)
    with no [of "fst a" "snd a"] show ?thesis by simp
  qed
  ultimately show ?thesis by blast
qed

theorem session_lifecycle_witness:
  "\<exists>x d1. service_CreateSession sample_service (sqlite_auth None 5 0) sample_hash (Inr ''r'') (Inr ''c'') 0 1 ''curl'' sample_auth_db
       = (Inr (''pici_sess_r'', x), d1)
     \<and> fst (AuthenticateSession sample_service (sqlite_auth None 5 0) sample_hash minute ''pici_sess_r'' d1)
       = Inr (scanUser None (sample_user_row 1 ''tok''), slide sample_service minute (stored_session x))"
proof -
  have "case service_CreateSession sample_service (sqlite_auth None 5 0) sample_hash (Inr ''r'') (Inr ''c'') 0 1 ''curl'' sample_auth_db
      of (Inl e, s) \<Rightarrow> False | (Inr rx, d1) \<Rightarrow> fst rx = ''pici_sess_r''"
    by code_simp
  then obtain x d1 where c: "service_CreateSession sample_service (sqlite_auth None 5 0) sample_hash (Inr ''r'') (Inr ''c'') 0 1 ''curl'' sample_auth_db
       = (Inr (''pici_sess_r'', x), d1)" unfolding returns_iff by auto
  have u: "u_DisabledAt (scanUser None (sample_user_row 1 ''tok'')) = None"
    "u_Provider (scanUser None (sample_user_row 1 ''tok'')) = sv_name sample_service"
    "minute < trunc_ms (0 + sv_sessionTTL sample_service)"
    by code_simp+
  from session_lifecycle [OF sample_auth_ok c sample_auth_view(1) u] c show ?thesis by blast
qed

text \<open>
  Sliding: the expiry of a session is moved only when it was last seen an hour ago or more, so
  with a session lifetime of an hour or less it is never moved: whenever the cookie is accepted, the database
  is left as it is and the session still ends at its first expiry.
\<close>

theorem short_sessions_never_slide:
  assumes "sqlite_ok c d" "service_CreateSession svc (sqlite_auth c fresh tick) hash randomRaw csrf now i ua d = (Inr (raw, x), d1)"
    and "sv_sessionTTL svc \<le> hour"
    and "AuthenticateSession svc (sqlite_auth c fresh tick) hash now' raw d1 = (Inr (u, y), d2)"
  shows "d2 = d1 \<and> s_ExpiresAt y = trunc_ms (now + sv_sessionTTL svc)"
proof -
  from assms(2) have raw: "raw \<noteq> []" and x: "s_ID x = hash raw" "s_ExpiresAt x = now + sv_sessionTTL svc" "s_LastSeenAt x = now"
    and create: "CreateSession x d = (Inr (), d1)"
    by (auto simp: service_CreateSession_def Let_def split: sum.splits prod.splits)
  from sqlite_auth.create_session [OF assms(1), where x = x] create have d1: "sqlite_ok c d1"
    "auth_view_of c d1 = (auth_view_of c d)\<lparr>av_sessions := (av_sessions (auth_view_of c d))(s_ID x := Some (stored_session x))\<rparr>"
    by (simp_all add: writes_def)
  have get: "GetSession (hash raw) d1 = (Inr (stored_session x), d1)"
    using sqlite_reliable.read_values(1) [OF d1(1), of fresh tick "hash raw"] by (simp add: d1(2) x(1))
  have "trunc_ms (now + sv_sessionTTL svc) \<le> trunc_ms now + hour"
  proof -
    have "unix_milli (now + hour) = unix_milli now + 3600000"
      using div_mult_self1 [of 1000000 now 3600000] by (simp add: unix_milli_def duration_defs)
    with unix_milli_mono [of "now + sv_sessionTTL svc" "now + hour"] assms(3)
    have "unix_milli (now + sv_sessionTTL svc) \<le> unix_milli now + 3600000" by simp
    then show ?thesis by (simp add: trunc_ms_def from_unix_milli_def duration_defs)
  qed
  then have "\<not> sessionTouchInterval \<le> now' - trunc_ms now" if "now' < trunc_ms (now + sv_sessionTTL svc)"
    using that by (simp add: sessionTouchInterval_def)
  moreover have "s_ExpiresAt (stored_session x) = trunc_ms (now + sv_sessionTTL svc)"
    "s_LastSeenAt (stored_session x) = trunc_ms now" by (simp_all add: stored_session_def x)
  moreover obtain g where "GetUser c (s_UserID (stored_session x)) d1 = (g, d1)"
    using GetUser_state by (metis prod.collapse)
  ultimately show ?thesis
    using assms(4) raw get by (cases g) (auto simp: AuthenticateSession_def split: if_splits)
qed

theorem short_sessions_never_slide_witness:
  "\<exists>x d1 u y d2. service_CreateSession (sample_service\<lparr>sv_sessionTTL := hour\<rparr>) (sqlite_auth None 5 0) sample_hash (Inr ''r'') (Inr ''c'') 0 1
         ''curl'' sample_auth_db = (Inr (''pici_sess_r'', x), d1)
     \<and> AuthenticateSession (sample_service\<lparr>sv_sessionTTL := hour\<rparr>) (sqlite_auth None 5 0) sample_hash (59 * minute) ''pici_sess_r'' d1
       = (Inr (u, y), d2) \<and> d2 = d1 \<and> s_ExpiresAt y = hour"
proof -
  let ?svc = "sample_service\<lparr>sv_sessionTTL := hour\<rparr>"
  have "case service_CreateSession ?svc (sqlite_auth None 5 0) sample_hash (Inr ''r'') (Inr ''c'') 0 1 ''curl'' sample_auth_db of
      (Inl e, s) \<Rightarrow> False
    | (Inr rx, d1) \<Rightarrow> fst rx = ''pici_sess_r'' \<and>
        (case AuthenticateSession ?svc (sqlite_auth None 5 0) sample_hash (59 * minute) ''pici_sess_r'' d1 of
           (Inl e, s) \<Rightarrow> False | (Inr uy, d2) \<Rightarrow> True)"
    by code_simp
  then obtain x d1 u y d2 where c: "service_CreateSession ?svc (sqlite_auth None 5 0) sample_hash (Inr ''r'') (Inr ''c'') 0 1
         ''curl'' sample_auth_db = (Inr (''pici_sess_r'', x), d1)"
    and a: "AuthenticateSession ?svc (sqlite_auth None 5 0) sample_hash (59 * minute) ''pici_sess_r'' d1 = (Inr (u, y), d2)"
    unfolding returns_iff by auto
  have ttl: "sv_sessionTTL ?svc \<le> hour" and t: "trunc_ms (0 + sv_sessionTTL ?svc) = hour" by code_simp+
  from short_sessions_never_slide [OF sample_auth_ok c ttl a] t c a show ?thesis by auto
qed

end
