(* ===== verification/Providers.thy ===== *)
theory Providers
  imports AuthSafety "HOL-Library.AList"
begin

text \<open>
  The OAuth providers of \<^verbatim>\<open>internal/auth\<close>: the shared flow (\<^verbatim>\<open>flow.go\<close>) and the instances for GitHub, GitLab and OpenID
  Connect. The HTTP client, the \<^verbatim>\<open>oauth2\<close> and \<^verbatim>\<open>go-oidc\<close> packages and the JSON decoders are parameters: \<open>http\<close> answers a
  request for an URL with its headers, \<open>oauth_client\<close> performs the two token requests, and a decoder returns nothing for a
  malformed document. A token without expiry has none. The two listings of teams follow pages until the server names no next
  one, which it may never do: they are partial, and an instance of the interface takes the total function they compute.

  The lemmas show how every HTTP answer is classified, that an outage of the provider disables nobody, that a listing is the
  concatenation of its pages, and what ties the identity of an OpenID Connect sign in to its token.
\<close>

section \<open>The shared flow\<close>

record http_response =
  hs_Status :: int
  hs_Header :: "string \<Rightarrow> string"
  hs_Body :: string

datatype http_outcome =
    BadRequest string
  | Unreachable string
  | Answered http_response

type_synonym http_client = "string \<Rightarrow> (string \<times> string) list \<Rightarrow> http_outcome"

record oauth_token =
  ot_AccessToken :: string
  ot_RefreshToken :: string
  ot_Expiry :: "go_time option"
  ot_Extra :: "string \<Rightarrow> string"

datatype oauth_failure = RetrieveError string | OtherFailure string

datatype auth_code_option = SetAuthURLParam string string | S256ChallengeOption string | VerifierOption string

record oauth_client =
  oc_Exchange :: "string \<Rightarrow> auth_code_option list \<Rightarrow> oauth_failure + oauth_token"
  oc_Refresh :: "string \<Rightarrow> oauth_failure + oauth_token"
  oc_AuthCodeURL :: "string \<Rightarrow> auth_code_option list \<Rightarrow> string"

record httpPolicy =
  hp_NotFoundInvalid :: bool
  hp_Forbidden :: "(http_response \<Rightarrow> auth_error) option"

record flow =
  fl_config :: oauth_client
  fl_client :: http_client
  fl_headers :: "(string \<times> string) list"
  fl_authParams :: "auth_code_option list"
  fl_withNonce :: bool
  fl_policy :: httpPolicy

definition newFlow :: "oauth_client \<Rightarrow> http_client \<Rightarrow> (string \<times> string) list \<Rightarrow> httpPolicy \<Rightarrow> flow" where
  "newFlow config client headers policy =
     \<lparr>fl_config = config, fl_client = client, fl_headers = headers, fl_authParams = [], fl_withNonce = False, fl_policy = policy\<rparr>"

definition flow_AuthCodeURL :: "flow \<Rightarrow> string \<Rightarrow> string \<Rightarrow> string \<Rightarrow> string" where
  "flow_AuthCodeURL f state nonce verifier =
     oc_AuthCodeURL (fl_config f) state
       (fl_authParams f @ (if fl_withNonce f \<and> nonce \<noteq> [] then [SetAuthURLParam ''nonce'' nonce] else [])
         @ (if verifier \<noteq> [] then [S256ChallengeOption verifier] else []))"

text \<open>The text of a failed exchange is not interpreted.\<close>

definition flow_Exchange :: "flow \<Rightarrow> string \<Rightarrow> string \<Rightarrow> auth_error + oauth_token" where
  "flow_Exchange f code verifier =
     (case oc_Exchange (fl_config f) code (if verifier \<noteq> [] then [VerifierOption verifier] else []) of
        Inl (RetrieveError e) \<Rightarrow> Inl (ErrAuthOther e)
      | Inl (OtherFailure e) \<Rightarrow> Inl (ErrAuthOther e)
      | Inr t \<Rightarrow> Inr t)"

definition tokenFromOAuth :: "oauth_token \<Rightarrow> token_pair" where
  "tokenFromOAuth t = \<lparr>tk_AccessToken = ot_AccessToken t, tk_RefreshToken = ot_RefreshToken t, tk_ExpiresAt = ot_Expiry t\<rparr>"

fun refreshError :: "oauth_failure \<Rightarrow> auth_error" where
  "refreshError (RetrieveError e) =
     (if e = ''invalid_grant'' \<or> e = ''bad_refresh_token'' then ErrTokenInvalid e else ErrProviderUnavailable e)"
| "refreshError (OtherFailure e) = ErrProviderUnavailable e"

definition flow_Refresh :: "flow \<Rightarrow> string \<Rightarrow> auth_error + token_pair" where
  "flow_Refresh f refreshToken =
     (case oc_Refresh (fl_config f) refreshToken of Inl e \<Rightarrow> Inl (refreshError e) | Inr t \<Rightarrow> Inr (tokenFromOAuth t))"

text \<open>Setting a header replaces an earlier value.\<close>

definition flow_headers :: "flow \<Rightarrow> string \<Rightarrow> (string \<times> string) list" where
  "flow_headers f atok =
     foldl (\<lambda>hs (k, v). AList.update k v hs) [(''Authorization'', ''Bearer '' @ atok), (''Accept'', ''application/json'')]
       (fl_headers f)"

definition flow_get :: "flow \<Rightarrow> string \<Rightarrow> string \<Rightarrow> auth_error + http_response" where
  "flow_get f atok rawURL =
     (case fl_client f rawURL (flow_headers f atok) of
        BadRequest e \<Rightarrow> Inl (ErrAuthOther e)
      | Unreachable e \<Rightarrow> Inl (ErrProviderUnavailable e)
      | Answered resp \<Rightarrow>
          (if hs_Status resp = 200 then Inr resp
           else if hs_Status resp = 401 \<or> hs_Status resp = 404 \<and> hp_NotFoundInvalid (fl_policy f) then Inl (ErrTokenInvalid [])
           else if hs_Status resp = 403 \<and> hp_Forbidden (fl_policy f) \<noteq> None then Inl (the (hp_Forbidden (fl_policy f)) resp)
           else Inl (ErrProviderUnavailable (''status '' @ itoa (hs_Status resp)))))"

definition flow_getJSON :: "flow \<Rightarrow> (string \<Rightarrow> 'a option) \<Rightarrow> string \<Rightarrow> string \<Rightarrow> auth_error + 'a" where
  "flow_getJSON f decode atok rawURL =
     bindR (flow_get f atok rawURL)
       (\<lambda>resp. case decode (hs_Body resp) of None \<Rightarrow> Inl (ErrAuthOther (''decode '' @ rawURL)) | Some x \<Rightarrow> Inr x)"

definition parseScopes :: "string \<Rightarrow> string list" where
  "parseScopes raw = FieldsFunc raw (\<lambda>r. r = CHR '','' \<or> r = CHR '' '')"

section \<open>GitHub\<close>

record profile =
  pf_ID :: int
  pf_Login :: string
  pf_Name :: string
  pf_AvatarURL :: string

record github_auth =
  ga_flow :: flow
  ga_apiURL :: string
  ga_scopes :: "string list"
  ga_user :: "string \<Rightarrow> profile option"
  ga_page :: "string \<Rightarrow> (string \<times> string) list option"
  ga_object :: "string \<Rightarrow> unit option"

definition github_Forbidden :: "http_response \<Rightarrow> auth_error" where
  "github_Forbidden resp =
     (if hs_Header resp ''X-RateLimit-Remaining'' = ''0'' \<or> hs_Header resp ''Retry-After'' \<noteq> []
      then ErrProviderUnavailable ''rate limited'' else ErrTokenInvalid [])"

definition newGitHubProvider ::
  "oauth_client \<Rightarrow> http_client \<Rightarrow> (string \<Rightarrow> profile option) \<Rightarrow> (string \<Rightarrow> (string \<times> string) list option)
    \<Rightarrow> (string \<Rightarrow> unit option) \<Rightarrow> string \<Rightarrow> bool \<Rightarrow> github_auth" where
  "newGitHubProvider config client user page object apiURL withTeams =
     \<lparr>ga_flow = newFlow config client [(''Accept'', ''application/vnd.github+json''), (''X-GitHub-Api-Version'', ''2022-11-28'')]
        \<lparr>hp_NotFoundInvalid = True, hp_Forbidden = Some github_Forbidden\<rparr>,
      ga_apiURL = TrimRightByte apiURL (CHR ''/''),
      ga_scopes = (if withTeams then [''read:org''] else []),
      ga_user = user, ga_page = page, ga_object = object\<rparr>"

definition github_RequiredScope :: "github_auth \<Rightarrow> string" where
  "github_RequiredScope g = (if ga_scopes g = [] then [] else ''read:org'')"

text \<open>The identity both forges build from a profile.\<close>

definition profile_identity :: "string \<Rightarrow> profile \<Rightarrow> oauth_token \<Rightarrow> auth_error + identity" where
  "profile_identity forge u t =
     (if pf_ID u = 0 \<or> pf_Login u = [] then Inl (ErrProviderUnavailable (''incomplete '' @ forge @ '' user profile''))
      else Inr \<lparr>id_ProviderUserID = itoa (pf_ID u), id_Login = pf_Login u, id_Name = pf_Name u, id_AvatarURL = pf_AvatarURL u,
                id_Token = tokenFromOAuth t, id_Scopes = parseScopes (ot_Extra t ''scope'')\<rparr>)"

definition github_Exchange :: "github_auth \<Rightarrow> string \<Rightarrow> string \<Rightarrow> string \<Rightarrow> auth_error + identity" where
  "github_Exchange g code nonce verifier =
     bindR (flow_Exchange (ga_flow g) code verifier)
       (\<lambda>t. bindR (flow_getJSON (ga_flow g) (ga_user g) (ot_AccessToken t) (ga_apiURL g @ ''/user''))
              (\<lambda>u. profile_identity ''GitHub'' u t))"

definition Trim_angles :: "string \<Rightarrow> string" where
  "Trim_angles s = TrimLeftFunc (\<lambda>c. c = CHR ''<'' \<or> c = CHR ''>'') (TrimRightFunc (\<lambda>c. c = CHR ''<'' \<or> c = CHR ''>'') s)"

fun link_parts :: "string list \<Rightarrow> string" where
  "link_parts [] = []"
| "link_parts (part # parts) =
     (case SplitByte part (CHR '';'') of
        target # rel # _ \<Rightarrow>
          (if TrimSpace rel \<noteq> ''rel=\"next\"'' then link_parts parts else Trim_angles (TrimSpace target))
      | _ \<Rightarrow> link_parts parts)"

definition nextLink :: "string \<Rightarrow> string" where
  "nextLink header = link_parts (SplitByte header (CHR '',''))"

partial_function (option) github_team_pages :: "github_auth \<Rightarrow> string \<Rightarrow> string \<Rightarrow> string list \<Rightarrow> (auth_error + string list) option" where
  "github_team_pages g atok nxt teams =
     (if nxt = [] then Some (Inr teams)
      else (case flow_get (ga_flow g) atok nxt of
              Inl e \<Rightarrow> Some (Inl e)
            | Inr resp \<Rightarrow>
                (case ga_page g (hs_Body resp) of
                   None \<Rightarrow> Some (Inl (ErrAuthOther ''decode GitHub teams''))
                 | Some page \<Rightarrow>
                     github_team_pages g atok (nextLink (hs_Header resp ''Link''))
                       (teams @ map (\<lambda>(org, slug). org @ ''/'' @ slug) page))))"

definition github_Teams :: "github_auth \<Rightarrow> string \<Rightarrow> (auth_error + string list) option" where
  "github_Teams g atok = github_team_pages g atok (ga_apiURL g @ ''/user/teams?per_page=100'') []"

text \<open>GitHub and GitLab ignore the nonce.\<close>

definition github_AuthCodeURL :: "github_auth \<Rightarrow> string \<Rightarrow> string \<Rightarrow> string \<Rightarrow> string" where
  "github_AuthCodeURL g state nonce verifier = flow_AuthCodeURL (ga_flow g) state [] verifier"

definition verify_error :: "auth_error + 'a \<Rightarrow> auth_error option" where
  "verify_error r = (case r of Inl e \<Rightarrow> Some e | Inr _ \<Rightarrow> None)"

definition github_Verify :: "github_auth \<Rightarrow> string \<Rightarrow> auth_error option" where
  "github_Verify g atok = verify_error (flow_getJSON (ga_flow g) (ga_object g) atok (ga_apiURL g @ ''/user''))"

definition github_provider :: "github_auth \<Rightarrow> (string \<Rightarrow> auth_error + string list) \<Rightarrow> auth_provider" where
  "github_provider g teams =
     \<lparr>ap_Name = ''github'', ap_RequiredScope = github_RequiredScope g, ap_Exchange = github_Exchange g,
      ap_Refresh = flow_Refresh (ga_flow g), ap_Teams = teams, ap_Verify = github_Verify g\<rparr>"

section \<open>GitLab\<close>

record gitlab_auth =
  la_flow :: flow
  la_apiURL :: string
  la_user :: "string \<Rightarrow> profile option"
  la_page :: "string \<Rightarrow> string list option"
  la_object :: "string \<Rightarrow> unit option"
  la_escape :: "string \<Rightarrow> string"

definition NewGitLabProvider ::
  "oauth_client \<Rightarrow> http_client \<Rightarrow> (string \<Rightarrow> profile option) \<Rightarrow> (string \<Rightarrow> string list option) \<Rightarrow> (string \<Rightarrow> unit option)
    \<Rightarrow> (string \<Rightarrow> string) \<Rightarrow> string \<Rightarrow> gitlab_auth" where
  "NewGitLabProvider config client user page object escape baseURL =
     \<lparr>la_flow = newFlow config client [] \<lparr>hp_NotFoundInvalid = True, hp_Forbidden = Some (\<lambda>_. ErrAccessDenied [])\<rparr>,
      la_apiURL = TrimRightByte baseURL (CHR ''/'') @ ''/api/v4'', la_user = user, la_page = page, la_object = object, la_escape = escape\<rparr>"

definition gitlab_Exchange :: "gitlab_auth \<Rightarrow> string \<Rightarrow> string \<Rightarrow> string \<Rightarrow> auth_error + identity" where
  "gitlab_Exchange g code nonce verifier =
     bindR (flow_Exchange (la_flow g) code verifier)
       (\<lambda>t. bindR (flow_getJSON (la_flow g) (la_user g) (ot_AccessToken t) (la_apiURL g @ ''/user''))
              (\<lambda>u. profile_identity ''GitLab'' u t))"

partial_function (option) gitlab_team_pages :: "gitlab_auth \<Rightarrow> string \<Rightarrow> string \<Rightarrow> string list \<Rightarrow> (auth_error + string list) option" where
  "gitlab_team_pages g atok page teams =
     (if page = [] then Some (Inr teams)
      else (case flow_get (la_flow g) atok (la_apiURL g @ ''/groups?min_access_level=10&per_page=100&page='' @ la_escape g page) of
              Inl e \<Rightarrow> Some (Inl e)
            | Inr resp \<Rightarrow>
                (case la_page g (hs_Body resp) of
                   None \<Rightarrow> Some (Inl (ErrAuthOther ''decode GitLab groups''))
                 | Some groups \<Rightarrow> gitlab_team_pages g atok (hs_Header resp ''X-Next-Page'') (teams @ groups))))"

definition gitlab_Teams :: "gitlab_auth \<Rightarrow> string \<Rightarrow> (auth_error + string list) option" where
  "gitlab_Teams g atok = gitlab_team_pages g atok ''1'' []"

definition gitlab_AuthCodeURL :: "gitlab_auth \<Rightarrow> string \<Rightarrow> string \<Rightarrow> string \<Rightarrow> string" where
  "gitlab_AuthCodeURL g state nonce verifier = flow_AuthCodeURL (la_flow g) state [] verifier"

definition gitlab_Verify :: "gitlab_auth \<Rightarrow> string \<Rightarrow> auth_error option" where
  "gitlab_Verify g atok = verify_error (flow_getJSON (la_flow g) (la_object g) atok (la_apiURL g @ ''/user''))"

definition gitlab_provider :: "gitlab_auth \<Rightarrow> (string \<Rightarrow> auth_error + string list) \<Rightarrow> auth_provider" where
  "gitlab_provider g teams =
     \<lparr>ap_Name = ''gitlab'', ap_RequiredScope = [], ap_Exchange = gitlab_Exchange g,
      ap_Refresh = flow_Refresh (la_flow g), ap_Teams = teams, ap_Verify = gitlab_Verify g\<rparr>"

section \<open>OpenID Connect\<close>

record oidc_claims =
  cl_Subject :: string
  cl_PreferredUsername :: string
  cl_Name :: string
  cl_Email :: string
  cl_EmailVerified :: bool
  cl_Picture :: string
  cl_Groups :: "string list"

text \<open>A verified token with what its claims decode to.\<close>

record id_token =
  it_Subject :: string
  it_Nonce :: string
  it_Claims :: "oidc_claims option"

record oidc_auth =
  oi_flow :: flow
  oi_verifier :: "string \<Rightarrow> string + id_token"
  oi_userInfoURL :: string
  oi_claims :: "string \<Rightarrow> oidc_claims option"

definition oidc_scopes :: "string list \<Rightarrow> string list" where
  "oidc_scopes scopes = (if scopes = [] then [''openid'', ''profile'', ''email'', ''offline_access''] else scopes)"

definition NewOIDCProvider ::
  "oauth_client \<Rightarrow> http_client \<Rightarrow> (string \<Rightarrow> string + id_token) \<Rightarrow> string \<Rightarrow> (string \<Rightarrow> oidc_claims option) \<Rightarrow> oidc_auth" where
  "NewOIDCProvider config client verifier userInfoURL claims =
     \<lparr>oi_flow = (newFlow config client []
        \<lparr>hp_NotFoundInvalid = False, hp_Forbidden = Some (\<lambda>_. ErrProviderUnavailable ''userinfo forbidden'')\<rparr>)
        \<lparr>fl_withNonce := True, fl_authParams := [SetAuthURLParam ''access_type'' ''offline'']\<rparr>,
      oi_verifier = verifier, oi_userInfoURL = userInfoURL, oi_claims = claims\<rparr>"

definition claims_merge :: "oidc_claims \<Rightarrow> oidc_claims \<Rightarrow> oidc_claims" where
  "claims_merge c other =
     \<lparr>cl_Subject = (if cl_Subject c = [] then cl_Subject other else cl_Subject c),
      cl_PreferredUsername = (if cl_PreferredUsername c = [] then cl_PreferredUsername other else cl_PreferredUsername c),
      cl_Name = (if cl_Name c = [] then cl_Name other else cl_Name c),
      cl_Email = (if cl_Email c = [] then cl_Email other else cl_Email c),
      cl_EmailVerified = (if \<not> cl_EmailVerified c then cl_EmailVerified other else cl_EmailVerified c),
      cl_Picture = (if cl_Picture c = [] then cl_Picture other else cl_Picture c),
      cl_Groups = (if cl_Groups c = [] then cl_Groups other else cl_Groups c)\<rparr>"

definition userInfo :: "oidc_auth \<Rightarrow> string \<Rightarrow> auth_error + oidc_claims" where
  "userInfo p atok =
     (if oi_userInfoURL p = [] then Inl (ErrProviderUnavailable ''the provider has no userinfo endpoint'')
      else flow_getJSON (oi_flow p) (oi_claims p) atok (oi_userInfoURL p))"

definition oidc_login :: "oidc_claims \<Rightarrow> string \<Rightarrow> string" where
  "oidc_login claims subject =
     (let login = cl_PreferredUsername claims;
          login = (if login = [] then cl_Email claims else login)
      in if login = [] then subject else login)"

definition oidc_Exchange :: "oidc_auth \<Rightarrow> string \<Rightarrow> string \<Rightarrow> string \<Rightarrow> auth_error + identity" where
  "oidc_Exchange p code nonce verifier =
     bindR (flow_Exchange (oi_flow p) code verifier) (\<lambda>t.
       let rawIDToken = ot_Extra t ''id_token''
       in if rawIDToken = [] then Inl (ErrProviderUnavailable ''the token response has no id_token'')
          else (case oi_verifier p rawIDToken of
                  Inl e \<Rightarrow> Inl (ErrTokenInvalid (''verify id_token: '' @ e))
                | Inr idToken \<Rightarrow>
                    (if nonce \<noteq> [] \<and> it_Nonce idToken \<noteq> nonce then Inl (ErrTokenInvalid ''id_token nonce mismatch'')
                     else (case it_Claims idToken of
                             None \<Rightarrow> Inl (ErrAuthOther ''decode id_token claims'')
                           | Some claims0 \<Rightarrow>
                               bindR (userInfo p (ot_AccessToken t)) (\<lambda>info.
                                 if cl_Subject info = [] \<or> cl_Subject info \<noteq> it_Subject idToken
                                 then Inl (ErrTokenInvalid ''userinfo subject does not match id_token'')
                                 else (let claims = claims_merge claims0 info;
                                           login = oidc_login claims (it_Subject idToken)
                                       in Inr \<lparr>id_ProviderUserID = it_Subject idToken, id_Login = login,
                                               id_Name = (if cl_Name claims = [] then login else cl_Name claims),
                                               id_AvatarURL = cl_Picture claims, id_Token = tokenFromOAuth t,
                                               id_Scopes = parseScopes (ot_Extra t ''scope'')\<rparr>))))))"

definition oidc_Teams :: "oidc_auth \<Rightarrow> string \<Rightarrow> auth_error + string list" where
  "oidc_Teams p atok = bindR (userInfo p atok) (\<lambda>info. Inr (filter (\<lambda>group. group \<noteq> []) (cl_Groups info)))"

definition oidc_Verify :: "oidc_auth \<Rightarrow> string \<Rightarrow> auth_error option" where
  "oidc_Verify p atok =
     (case userInfo p atok of
        Inl e \<Rightarrow> Some e
      | Inr info \<Rightarrow> (if cl_Subject info = [] then Some (ErrProviderUnavailable ''userinfo has no subject'') else None))"

definition oidc_AuthCodeURL :: "oidc_auth \<Rightarrow> string \<Rightarrow> string \<Rightarrow> string \<Rightarrow> string" where
  "oidc_AuthCodeURL p = flow_AuthCodeURL (oi_flow p)"

definition oidc_provider :: "oidc_auth \<Rightarrow> auth_provider" where
  "oidc_provider p =
     \<lparr>ap_Name = ''oidc'', ap_RequiredScope = [], ap_Exchange = oidc_Exchange p,
      ap_Refresh = flow_Refresh (oi_flow p), ap_Teams = oidc_Teams p, ap_Verify = oidc_Verify p\<rparr>"

section \<open>Outages\<close>

definition rate_limited :: "http_response \<Rightarrow> bool" where
  "rate_limited r \<longleftrightarrow> hs_Header r ''X-RateLimit-Remaining'' = ''0'' \<or> hs_Header r ''Retry-After'' \<noteq> []"

fun outage_answer :: "http_outcome \<Rightarrow> bool" where
  "outage_answer (Answered r) \<longleftrightarrow> hs_Status r = 429 \<or> 500 \<le> hs_Status r \<or> hs_Status r = 403 \<and> rate_limited r"
| "outage_answer _ \<longleftrightarrow> True"

fun outage_refresh :: "oauth_failure + oauth_token \<Rightarrow> bool" where
  "outage_refresh (Inl (RetrieveError e)) \<longleftrightarrow> e \<notin> {''invalid_grant'', ''bad_refresh_token''}"
| "outage_refresh _ \<longleftrightarrow> True"

definition outage :: "oauth_client \<Rightarrow> http_client \<Rightarrow> bool" where
  "outage config client \<longleftrightarrow> (\<forall>url hs. outage_answer (client url hs)) \<and> (\<forall>tok. outage_refresh (oc_Refresh config tok))"

definition transient :: "auth_error \<Rightarrow> bool" where
  "transient e \<longleftrightarrow> (\<forall>m. e \<noteq> ErrTokenInvalid m)"

lemma transient_simps [simp]:
  "transient (ErrProviderUnavailable m)" "transient (ErrAccessDenied m)" "transient (ErrAuthOther m)" "\<not> transient (ErrTokenInvalid m)"
  by (simp_all add: transient_def)

definition patient :: "httpPolicy \<Rightarrow> bool" where
  "patient policy \<longleftrightarrow> (\<forall>F r. hp_Forbidden policy = Some F \<longrightarrow> rate_limited r \<longrightarrow> transient (F r))"

lemma flow_get_outage:
  assumes "outage (fl_config f) (fl_client f)" "patient (fl_policy f)"
  shows "\<exists>e. flow_get f tok url = Inl e \<and> transient e"
proof -
  have "outage_answer (fl_client f url (flow_headers f tok))" using assms(1) by (simp add: outage_def)
  then show ?thesis
    using assms(2) by (cases "fl_client f url (flow_headers f tok)") (auto simp: flow_get_def patient_def)
qed

lemma flow_Refresh_outage:
  assumes "outage (fl_config f) (fl_client f)"
  shows "case flow_Refresh f tok of Inl e \<Rightarrow> transient e | Inr _ \<Rightarrow> True"
proof -
  have "outage_refresh (oc_Refresh (fl_config f) tok)" using assms by (simp add: outage_def)
  moreover have "outage_refresh (Inl e) \<Longrightarrow> transient (refreshError e)" for e by (cases e) auto
  ultimately show ?thesis by (auto simp: flow_Refresh_def split: sum.splits)
qed

text \<open>Whether a provider answers every question of the revalidation with a transient error.\<close>

definition provider_down :: "auth_provider \<Rightarrow> bool" where
  "provider_down pr \<longleftrightarrow>
     (\<forall>tok. case ap_Refresh pr tok of Inl e \<Rightarrow> transient e | Inr _ \<Rightarrow> True)
     \<and> (\<forall>tok. \<exists>e. ap_Teams pr tok = Inl e \<and> transient e) \<and> (\<forall>tok. \<exists>e. ap_Verify pr tok = Some e \<and> transient e)"

lemma provider_down_keeps_access:
  assumes "provider_down pr" "u_Provider u = ap_Name pr"
  shows "\<not> access_lost (NewService pr teams users ttl) now at u"
proof -
  let ?svc = "NewService pr teams users ttl"
  have a: "\<exists>e. authorized ?svc login tok = Inl e \<and> transient e" for login tok
    using assms(1) by (auto simp: authorized_def provider_down_def NewService_def bindR_def)
      (metis option.simps(5) sum.simps(5))+
  have r: "case renewed ?svc at u of Inl e \<Rightarrow> transient e | Inr _ \<Rightarrow> True"
    using assms(1) by (auto simp: renewed_def provider_down_def NewService_def split: option.splits sum.splits)
  have "\<not> refused (bindR (renewed ?svc at u) (authorized ?svc (u_Login u)))"
  proof (cases "renewed ?svc at u")
    case (Inl e)
    with r show ?thesis by (auto simp: refused_Inl transient_def)
  next
    case (Inr tok)
    with a [of "u_Login u" tok] show ?thesis by (auto simp: refused_Inl transient_def)
  qed
  then show ?thesis using assms(2) by (simp add: access_lost_def NewService_def)
qed

lemma getJSON_outage: "\<exists>e. flow_get f tok url = Inl e \<and> transient e \<Longrightarrow> \<exists>e. flow_getJSON f dec tok url = Inl e \<and> transient e"
  by (auto simp: flow_getJSON_def)

lemma github_down:
  assumes "outage config client" and g: "g = newGitHubProvider config client user page object apiURL withTeams"
    and teams: "\<And>tok. github_Teams g tok = Some (teams tok)"
  shows "provider_down (github_provider g teams)"
proof -
  have f: "outage (fl_config (ga_flow g)) (fl_client (ga_flow g))" "patient (fl_policy (ga_flow g))"
    using assms(1) by (auto simp: g newGitHubProvider_def newFlow_def patient_def github_Forbidden_def rate_limited_def)
  note get = flow_get_outage [OF f]
  have "\<exists>e. teams tok = Inl e \<and> transient e" for tok
  proof -
    obtain e where e: "flow_get (ga_flow g) tok (ga_apiURL g @ ''/user/teams?per_page=100'') = Inl e" "transient e" using get by blast
    then have "github_Teams g tok = Some (Inl e)" by (simp add: github_Teams_def github_team_pages.simps)
    then have "teams tok = Inl e" using teams [of tok] by simp
    with e(2) show ?thesis by blast
  qed
  moreover have "\<exists>e. github_Verify g tok = Some e \<and> transient e" for tok
  proof -
    obtain e where "flow_getJSON (ga_flow g) (ga_object g) tok (ga_apiURL g @ ''/user'') = Inl e" "transient e"
      using getJSON_outage [OF get] by blast
    then show ?thesis by (simp add: github_Verify_def verify_error_def)
  qed
  ultimately show ?thesis using flow_Refresh_outage [OF f(1)] by (simp add: provider_down_def github_provider_def)
qed

lemma gitlab_down:
  assumes "outage config client" and g: "g = NewGitLabProvider config client user page object escape baseURL"
    and teams: "\<And>tok. gitlab_Teams g tok = Some (teams tok)"
  shows "provider_down (gitlab_provider g teams)"
proof -
  have f: "outage (fl_config (la_flow g)) (fl_client (la_flow g))" "patient (fl_policy (la_flow g))"
    using assms(1) by (auto simp: g NewGitLabProvider_def newFlow_def patient_def)
  note get = flow_get_outage [OF f]
  have "\<exists>e. teams tok = Inl e \<and> transient e" for tok
  proof -
    obtain e where e: "flow_get (la_flow g) tok (la_apiURL g @ ''/groups?min_access_level=10&per_page=100&page='' @ la_escape g ''1'') = Inl e"
      "transient e" using get by blast
    then have "gitlab_Teams g tok = Some (Inl e)" by (simp add: gitlab_Teams_def gitlab_team_pages.simps)
    then have "teams tok = Inl e" using teams [of tok] by simp
    with e(2) show ?thesis by blast
  qed
  moreover have "\<exists>e. gitlab_Verify g tok = Some e \<and> transient e" for tok
  proof -
    obtain e where "flow_getJSON (la_flow g) (la_object g) tok (la_apiURL g @ ''/user'') = Inl e" "transient e"
      using getJSON_outage [OF get] by blast
    then show ?thesis by (simp add: gitlab_Verify_def verify_error_def)
  qed
  ultimately show ?thesis using flow_Refresh_outage [OF f(1)] by (simp add: provider_down_def gitlab_provider_def)
qed

lemma oidc_down:
  assumes "outage config client"
  shows "provider_down (oidc_provider (NewOIDCProvider config client verifier url claims))"
proof -
  let ?p = "NewOIDCProvider config client verifier url claims"
  have f: "outage (fl_config (oi_flow ?p)) (fl_client (oi_flow ?p))" "patient (fl_policy (oi_flow ?p))"
    using assms by (auto simp: NewOIDCProvider_def newFlow_def patient_def)
  have "\<exists>e. userInfo ?p tok = Inl e \<and> transient e" for tok
    using getJSON_outage [OF flow_get_outage [OF f]] by (auto simp: userInfo_def)
  then have "\<exists>e. oidc_Teams ?p tok = Inl e \<and> transient e" "\<exists>e. oidc_Verify ?p tok = Some e \<and> transient e" for tok
    by (auto simp: oidc_Teams_def oidc_Verify_def bindR_def) (metis sum.simps(5))+
  then show ?thesis using flow_Refresh_outage [OF f(1)] by (simp add: provider_down_def oidc_provider_def)
qed

section \<open>Pages\<close>

text \<open>The pages a server serves from a link on, the last of which names no next one.\<close>

fun github_chain :: "github_auth \<Rightarrow> string \<Rightarrow> string \<Rightarrow> (string \<times> string) list list \<Rightarrow> bool" where
  "github_chain g tok nxt [] \<longleftrightarrow> nxt = []"
| "github_chain g tok nxt (page # pages) \<longleftrightarrow>
     nxt \<noteq> []
     \<and> (case flow_get (ga_flow g) tok nxt of
          Inl _ \<Rightarrow> False
        | Inr resp \<Rightarrow> ga_page g (hs_Body resp) = Some page \<and> github_chain g tok (nextLink (hs_Header resp ''Link'')) pages)"

lemma github_team_pages_chain:
  "github_chain g tok nxt pages \<Longrightarrow>
    github_team_pages g tok nxt teams = Some (Inr (teams @ map (\<lambda>(org, slug). org @ ''/'' @ slug) (concat pages)))"
proof (induction pages arbitrary: nxt teams)
  case (Cons page pages)
  then obtain resp where "flow_get (ga_flow g) tok nxt = Inr resp" "ga_page g (hs_Body resp) = Some page" "nxt \<noteq> []"
    "github_chain g tok (nextLink (hs_Header resp ''Link'')) pages" by (auto split: sum.splits)
  with Cons.IH show ?case by (subst github_team_pages.simps) simp
qed (simp add: github_team_pages.simps)

fun gitlab_chain :: "gitlab_auth \<Rightarrow> string \<Rightarrow> string \<Rightarrow> string list list \<Rightarrow> bool" where
  "gitlab_chain g tok page [] \<longleftrightarrow> page = []"
| "gitlab_chain g tok page (groups # pages) \<longleftrightarrow>
     page \<noteq> []
     \<and> (case flow_get (la_flow g) tok (la_apiURL g @ ''/groups?min_access_level=10&per_page=100&page='' @ la_escape g page) of
          Inl _ \<Rightarrow> False
        | Inr resp \<Rightarrow> la_page g (hs_Body resp) = Some groups \<and> gitlab_chain g tok (hs_Header resp ''X-Next-Page'') pages)"

lemma gitlab_team_pages_chain:
  "gitlab_chain g tok page pages \<Longrightarrow> gitlab_team_pages g tok page teams = Some (Inr (teams @ concat pages))"
proof (induction pages arbitrary: page teams)
  case (Cons groups pages)
  then obtain resp where
    "flow_get (la_flow g) tok (la_apiURL g @ ''/groups?min_access_level=10&per_page=100&page='' @ la_escape g page) = Inr resp"
    "la_page g (hs_Body resp) = Some groups" "page \<noteq> []"
    "gitlab_chain g tok (hs_Header resp ''X-Next-Page'') pages" by (auto split: sum.splits)
  with Cons.IH show ?case by (subst gitlab_team_pages.simps) simp
qed (simp add: gitlab_team_pages.simps)

text \<open>A server that names the page itself as the next one is asked for ever.\<close>

lemma github_Teams_loops:
  assumes "flow_get (ga_flow g) tok nxt = Inr resp" "ga_page g (hs_Body resp) = Some page" "nextLink (hs_Header resp ''Link'') = nxt" "nxt \<noteq> []"
  shows "github_team_pages g tok nxt teams = None"
proof -
  have "x \<noteq> nxt" if some: "github_team_pages g tok x acc = Some r" for x acc r
  proof -
    have "g = g \<longrightarrow> tok = tok \<longrightarrow> x \<noteq> nxt"
      by (rule github_team_pages.raw_induct [where P = "\<lambda>g' tok' x acc r. g' = g \<longrightarrow> tok' = tok \<longrightarrow> x \<noteq> nxt", OF _ some])
        (use assms in \<open>auto split: if_splits\<close>, blast)
    then show ?thesis by simp
  qed
  then show ?thesis by (cases "github_team_pages g tok nxt teams") auto
qed

text \<open>The team of a link header as GitHub sends it.\<close>

lemma nextLink_sample: "nextLink ''<https://api.github.com/a?page=1>; rel=\"prev\", <https://api.github.com/a?page=3>; rel=\"next\"'' = ''https://api.github.com/a?page=3''"
  by code_simp

section \<open>Sign in with OpenID Connect\<close>

text \<open>
  The list of users may hold addresses, but the address of a user is only looked at when there is no user name, and whether
  it is verified never.
\<close>

lemma oidc_email_ignored:
  "cl_PreferredUsername claims \<noteq> [] \<Longrightarrow> oidc_login (claims\<lparr>cl_Email := e\<rparr>) subject = cl_PreferredUsername claims"
  "oidc_login (claims\<lparr>cl_EmailVerified := b\<rparr>) subject = oidc_login claims subject"
  by (simp_all add: oidc_login_def Let_def)

text \<open>A GitLab server that answers 404 everywhere, as behind a wrong base URL, takes the access of every user.\<close>

lemma gitlab_wrong_url_takes_access:
  assumes "\<And>url hs. client url hs = Answered resp" "hs_Status resp = 404" "check_due now u" "u_OAuthExpiresAt u = None"
    and g: "g = NewGitLabProvider config client user page object escape baseURL"
  shows "access_lost (NewService (gitlab_provider g teams) [] users ttl) now at u"
proof -
  have "gitlab_Verify g tok = Some (ErrTokenInvalid [])" for tok
    using assms(1,2) by (simp add: g gitlab_Verify_def verify_error_def flow_getJSON_def flow_get_def NewGitLabProvider_def newFlow_def)
  then show ?thesis
    using assms(3,4) by (simp add: access_lost_def renewed_def authorized_def NewService_def gitlab_provider_def normalizeAccessList_def)
qed

section \<open>Properties\<close>

text \<open>
  C20. An outage disables nobody: while every HTTP answer of the provider is a network error, a 429, a server error or a
  rate limit, and no refresh token is rejected, revalidating on the SQLite store keeps every user of the
  provider enabled, for GitHub, GitLab and OpenID Connect alike.
\<close>

theorem provider_outage_disables_nobody:
  assumes "outage config client"
    and "pr = github_provider g teams \<and> g = newGitHubProvider config client user page object apiURL withTeams
           \<and> (\<lambda>tok. github_Teams g tok) = (\<lambda>tok. Some (teams tok))
       \<or> pr = gitlab_provider l teams \<and> l = NewGitLabProvider config client user groups object escape baseURL
           \<and> (\<lambda>tok. gitlab_Teams l tok) = (\<lambda>tok. Some (teams tok))
       \<or> pr = oidc_provider (NewOIDCProvider config client verifier infoURL claims)"
    and "sqlite_ok c d" "av_users (auth_view_of c d) i = Some u" "u_DisabledAt u = None" "u_Provider u = ap_Name pr"
  shows "\<exists>u'. av_users (auth_view_of c (Revalidate (NewService pr orgs logins ttl) (sqlite_auth c fresh tick) now clock d)) i = Some u'
    \<and> u_DisabledAt u' = None"
proof -
  have "provider_down pr"
    using assms(2) github_down [OF assms(1), where g = g and teams = teams] gitlab_down [OF assms(1), where g = l and teams = teams]
      oidc_down [OF assms(1)] by (metis (no_types, lifting))
  from provider_down_keeps_access [OF this assms(6)] show ?thesis
    using Revalidate_users [OF assms(3-5), of "NewService pr orgs logins ttl" fresh tick now clock] by simp
qed

text \<open>
  C21. Sign in with OpenID Connect: the identity of a successful exchange is the subject of the ID token that came with the
  code and that the verifier accepts; the token carries the nonce of this sign in, the userinfo endpoint answers the
  access token with the same subject, and the login is the user name, else the address, else the subject.
\<close>

theorem oidc_identity_is_verified:
  assumes "oidc_Exchange p code nonce verifier = Inr i" "nonce \<noteq> []"
  shows "\<exists>t idt c0 info. flow_Exchange (oi_flow p) code verifier = Inr t
    \<and> oi_verifier p (ot_Extra t ''id_token'') = Inr idt \<and> it_Nonce idt = nonce \<and> it_Claims idt = Some c0
    \<and> userInfo p (ot_AccessToken t) = Inr info \<and> cl_Subject info = it_Subject idt
    \<and> it_Subject idt \<noteq> [] \<and> id_ProviderUserID i = it_Subject idt
    \<and> id_Token i = tokenFromOAuth t \<and> id_Login i = oidc_login (claims_merge c0 info) (it_Subject idt) \<and> id_Login i \<noteq> []"
proof -
  obtain t where t: "flow_Exchange (oi_flow p) code verifier = Inr t"
    using assms(1) by (cases "flow_Exchange (oi_flow p) code verifier") (simp_all add: oidc_Exchange_def)
  obtain idt where idt: "oi_verifier p (ot_Extra t ''id_token'') = Inr idt"
    using assms(1) t by (cases "oi_verifier p (ot_Extra t ''id_token'')") (simp_all add: oidc_Exchange_def Let_def split: if_splits)
  obtain c0 where c0: "it_Claims idt = Some c0" and n: "it_Nonce idt = nonce"
    using assms t idt by (cases "it_Claims idt") (simp_all add: oidc_Exchange_def Let_def split: if_splits)
  obtain info where info: "userInfo p (ot_AccessToken t) = Inr info"
    using assms t idt c0 n by (cases "userInfo p (ot_AccessToken t)") (simp_all add: oidc_Exchange_def Let_def split: if_splits)
  have "cl_Subject info = it_Subject idt" "it_Subject idt \<noteq> []" "id_ProviderUserID i = it_Subject idt"
    "id_Token i = tokenFromOAuth t" "id_Login i = oidc_login (claims_merge c0 info) (it_Subject idt)"
    using assms(1) t idt c0 n info by (auto simp: oidc_Exchange_def Let_def split: if_splits)
  moreover have "oidc_login c s \<noteq> []" if "s \<noteq> []" for c s using that by (simp add: oidc_login_def Let_def)
  ultimately show ?thesis using t idt c0 n info by auto
qed

definition sample_oauth :: oauth_client where
  "sample_oauth =
     \<lparr>oc_Exchange = (\<lambda>code _. if code = ''good''
        then Inr \<lparr>ot_AccessToken = ''tok'', ot_RefreshToken = ''r1'', ot_Expiry = Some (2 * hour),
                  ot_Extra = (\<lambda>k. if k = ''id_token'' then ''signed'' else [])\<rparr>
        else Inl (RetrieveError ''invalid_grant'')),
      oc_Refresh = (\<lambda>_. Inl (OtherFailure ''timeout'')), oc_AuthCodeURL = (\<lambda>state _. ''https://sso.example.org/?state='' @ state)\<rparr>"

definition sample_claims :: oidc_claims where
  "sample_claims = \<lparr>cl_Subject = ''42'', cl_PreferredUsername = [], cl_Name = ''Ada'', cl_Email = ''ada@example.org'',
     cl_EmailVerified = False, cl_Picture = [], cl_Groups = [''devs'']\<rparr>"

definition sample_oidc :: oidc_auth where
  "sample_oidc = NewOIDCProvider sample_oauth
     (\<lambda>url _. Answered \<lparr>hs_Status = 200, hs_Header = (\<lambda>_. []), hs_Body = ''{}''\<rparr>)
     (\<lambda>raw. if raw = ''signed'' then Inr \<lparr>it_Subject = ''42'', it_Nonce = ''n1'', it_Claims = Some sample_claims\<rparr> else Inl ''signature'')
     ''https://sso.example.org/userinfo'' (\<lambda>_. Some sample_claims)"

definition down_github :: github_auth where
  "down_github = newGitHubProvider sample_oauth (\<lambda>_ _. Unreachable ''connection refused'') (\<lambda>_. None) (\<lambda>_. None) (\<lambda>_. None)
     ''https://api.github.com'' True"

theorem provider_outage_disables_nobody_witness:
  "\<exists>u'. av_users (auth_view_of None (Revalidate
      (NewService (github_provider down_github (\<lambda>_. Inl (ErrProviderUnavailable ''connection refused''))) [''org/team''] [] (168 * hour))
      (sqlite_auth None 5 0) 500 (\<lambda>_. (500, 500)) sample_auth_db)) 1 = Some u' \<and> u_DisabledAt u' = None"
proof -
  have down: "outage sample_oauth (\<lambda>_ _. Unreachable ''connection refused'')" by (simp add: outage_def sample_oauth_def)
  have "github_Teams down_github tok = Some (Inl (ErrProviderUnavailable ''connection refused''))" for tok
    by (simp add: github_Teams_def github_team_pages.simps flow_get_def down_github_def newGitHubProvider_def newFlow_def)
  then have "(\<lambda>tok. github_Teams down_github tok) = (\<lambda>tok. Some (Inl (ErrProviderUnavailable ''connection refused'')))" by blast
  then show ?thesis
    by (intro provider_outage_disables_nobody [OF down _ sample_auth_ok sample_auth_view(1), where g = down_github
          and teams = "\<lambda>_. Inl (ErrProviderUnavailable ''connection refused'')" and user = "\<lambda>_. None" and page = "\<lambda>_. None"
          and object = "\<lambda>_. None" and apiURL = "''https://api.github.com''" and withTeams = True])
      (simp_all add: down_github_def scanUser_def sample_user_row_def github_provider_def)
qed

theorem oidc_identity_is_verified_witness:
  "\<exists>i. oidc_Exchange sample_oidc ''good'' ''n1'' ''v1'' = Inr i \<and> id_Login i = ''ada@example.org'' \<and> id_Login i \<noteq> []"
proof -
  have "case oidc_Exchange sample_oidc ''good'' ''n1'' ''v1'' of Inl _ \<Rightarrow> False | Inr i \<Rightarrow> id_Login i = ''ada@example.org''"
    by code_simp
  then obtain i where i: "oidc_Exchange sample_oidc ''good'' ''n1'' ''v1'' = Inr i" "id_Login i = ''ada@example.org''"
    by (auto split: sum.splits)
  with oidc_identity_is_verified [OF i(1)] show ?thesis by auto
qed

end
