(* ===== verification/WebLogin.thy ===== *)
theory WebLogin
  imports Urls Providers
begin

text \<open>
  Sign in, sign out and the session middleware of the web interface: \<^verbatim>\<open>internal/web/auth.go\<close> and the helpers \<^verbatim>\<open>redirect\<close>
  and \<^verbatim>\<open>validCSRF\<close> of \<^verbatim>\<open>internal/web/web.go\<close>. A handler takes the request and the state of the store and returns the response with
  the new state. What a handler reads of the world is the record \<open>web_world\<close>: the authentication service over its
  store, the clock, the random strings of the request and the provider's address. A response keeps its status, its two kinds of redirect, the
  cookies it sets in order and the data of its page; the templates that render the data are not modelled.

  The lemmas show that only the browser that started a sign in can finish it, that the redirect after it stays on the
  site, and that a page behind the middleware is only served to the owner of a live session.
\<close>

section \<open>Requests and responses\<close>

record web_request =
  wq_Method :: string
  wq_Path :: string
  wq_RequestURI :: string
  wq_Cookies :: "(string \<times> string) list"
  wq_Query :: "string \<Rightarrow> string"
  wq_Form :: "string \<Rightarrow> string"
  wq_SecretFile :: "string option"
  wq_HX :: bool
  wq_UserAgent :: string

record http_cookie =
  hc_Name :: string
  hc_Value :: string
  hc_Path :: string
  hc_MaxAge :: int
  hc_HttpOnly :: bool
  hc_Secure :: bool
  hc_SameSiteLax :: bool

record 'b web_response =
  wx_Status :: int
  wx_Location :: "string option"
  wx_HXRedirect :: "string option"
  wx_Cookies :: "http_cookie list"
  wx_Body :: "'b option"

record principal =
  pr_User :: user
  pr_Session :: "session option"

record 's web_world =
  ww_service :: auth_service
  ww_store :: "'s auth_store"
  ww_hash :: "string \<Rightarrow> string"
  ww_now :: go_time
  ww_secure :: bool
  ww_AuthCodeURL :: "string \<Rightarrow> string \<Rightarrow> string \<Rightarrow> string"
  ww_state :: "string + string"
  ww_nonce :: "string + string"
  ww_verifier :: "string + string"
  ww_session :: "string + string"
  ww_csrf :: "string + string"

definition SessionCookie :: string where "SessionCookie = ''pici_session''"
definition OAuthStateCookie :: string where "OAuthStateCookie = ''pici_oauth_state''"
definition OAuthNonceCookie :: string where "OAuthNonceCookie = ''pici_oauth_nonce''"
definition OAuthNextCookie :: string where "OAuthNextCookie = ''pici_oauth_next''"
definition OAuthVerifierCookie :: string where "OAuthVerifierCookie = ''pici_oauth_verifier''"

definition request_cookie :: "web_request \<Rightarrow> string \<Rightarrow> string option" where
  "request_cookie rq name = map_of (wq_Cookies rq) name"

definition status_response :: "int \<Rightarrow> 'b web_response" where
  "status_response code = \<lparr>wx_Status = code, wx_Location = None, wx_HXRedirect = None, wx_Cookies = [], wx_Body = None\<rparr>"

definition page_response :: "int \<Rightarrow> 'b \<Rightarrow> 'b web_response" where
  "page_response code b = (status_response code)\<lparr>wx_Body := Some b\<rparr>"

definition web_redirect :: "web_request \<Rightarrow> string \<Rightarrow> 'b web_response" where
  "web_redirect rq to =
     (if wq_HX rq then (status_response 200)\<lparr>wx_HXRedirect := Some to\<rparr>
      else (status_response 303)\<lparr>wx_Location := Some (http_Redirect (wq_Path rq) to)\<rparr>)"

definition add_cookies :: "http_cookie list \<Rightarrow> 'b web_response \<Rightarrow> 'b web_response" where
  "add_cookies cs resp = resp\<lparr>wx_Cookies := cs @ wx_Cookies resp\<rparr>"

text \<open>The error page, or the flash message that replaces it for a request of htmx; both have the same status.\<close>

definition serverError :: "'b web_response" where
  "serverError = status_response 500"

section \<open>Cookies\<close>

definition site_cookie :: "'s web_world \<Rightarrow> string \<Rightarrow> string \<Rightarrow> int \<Rightarrow> http_cookie" where
  "site_cookie w name v age =
     \<lparr>hc_Name = name, hc_Value = v, hc_Path = ''/'', hc_MaxAge = age, hc_HttpOnly = True, hc_Secure = ww_secure w, hc_SameSiteLax = True\<rparr>"

definition setSessionCookie :: "'s web_world \<Rightarrow> string \<Rightarrow> http_cookie" where
  "setSessionCookie w raw = site_cookie w SessionCookie raw (sv_sessionTTL (ww_service w) div second)"

definition clearSessionCookie :: "'s web_world \<Rightarrow> http_cookie" where
  "clearSessionCookie w = site_cookie w SessionCookie [] (- 1)"

text \<open>The four cookies are set in an arbitrary order, which their names make irrelevant.\<close>

definition setOAuthCookies :: "'s web_world \<Rightarrow> string \<Rightarrow> string \<Rightarrow> string \<Rightarrow> string \<Rightarrow> http_cookie list" where
  "setOAuthCookies w state nonce verifier nxt =
     map (\<lambda>(name, v). site_cookie w name v (10 * 60))
       [(OAuthStateCookie, state), (OAuthNonceCookie, nonce), (OAuthVerifierCookie, verifier), (OAuthNextCookie, nxt)]"

definition clearOAuthCookies :: "'s web_world \<Rightarrow> http_cookie list" where
  "clearOAuthCookies w =
     map (\<lambda>name. site_cookie w name [] (- 1)) [OAuthStateCookie, OAuthNonceCookie, OAuthVerifierCookie, OAuthNextCookie]"

section \<open>Sign in\<close>

definition loginErrorURL :: "string \<Rightarrow> string \<Rightarrow> string" where
  "loginErrorURL nxt code = ''/login?error='' @ QueryEscape code @ (if nxt \<noteq> [] then ''&next='' @ QueryEscape nxt else [])"

definition loginError :: "string \<Rightarrow> string \<Rightarrow> string" where
  "loginError code provider =
     (if code = ''not_member'' then ''Your '' @ provider @ '' account is not authorized for this pici instance.''
      else if code = ''denied'' then provider @ '' sign-in was cancelled.''
      else if code = ''state'' then ''Your sign-in session expired. Please try again.''
      else if code = ''provider'' then provider @ '' is unavailable right now. Please try again.''
      else [])"

definition alreadySignedIn :: "'s web_world \<Rightarrow> web_request \<Rightarrow> 's \<Rightarrow> bool \<times> 's" where
  "alreadySignedIn w rq s =
     (case request_cookie rq SessionCookie of
        None \<Rightarrow> (False, s)
      | Some raw \<Rightarrow>
          (case AuthenticateSession (ww_service w) (ww_store w) (ww_hash w) (ww_now w) raw s of
             (Inl _, s1) \<Rightarrow> (False, s1)
           | (Inr _, s1) \<Rightarrow> (True, s1)))"

record login_page =
  lp_Error :: string
  lp_Next :: string
  lp_Provider :: string
  lp_AuthPath :: string
  lp_HasTeams :: bool
  lp_HasUsers :: bool

definition web_LoginPage :: "'s web_world \<Rightarrow> string \<Rightarrow> web_request \<Rightarrow> 's \<Rightarrow> login_page web_response \<times> 's" where
  "web_LoginPage w display rq s =
     (case alreadySignedIn w rq s of
        (True, s1) \<Rightarrow> (web_redirect rq ''/'', s1)
      | (False, s1) \<Rightarrow>
          (page_response 200
             \<lparr>lp_Error = loginError (wq_Query rq ''error'') display, lp_Next = safeNext (wq_Query rq ''next''), lp_Provider = display,
              lp_AuthPath = ''/auth/'' @ sv_name (ww_service w), lp_HasTeams = sv_teams (ww_service w) \<noteq> {},
              lp_HasUsers = sv_users (ww_service w) \<noteq> {}\<rparr>, s1))"

definition web_LoginStart :: "'s web_world \<Rightarrow> web_request \<Rightarrow> 's \<Rightarrow> 'b web_response \<times> 's" where
  "web_LoginStart w rq s =
     (case alreadySignedIn w rq s of
        (True, s1) \<Rightarrow> (web_redirect rq ''/'', s1)
      | (False, s1) \<Rightarrow>
          (case (ww_state w, ww_nonce w, ww_verifier w) of
             (Inr state, Inr nonce, Inr verifier) \<Rightarrow>
               (add_cookies (setOAuthCookies w state nonce verifier (safeNext (wq_Query rq ''next'')))
                  ((status_response 303)\<lparr>wx_Location := Some (http_Redirect (wq_Path rq) (ww_AuthCodeURL w state nonce verifier))\<rparr>), s1)
           | _ \<Rightarrow> (serverError, s1)))"

definition cookie_or_empty :: "web_request \<Rightarrow> string \<Rightarrow> string" where
  "cookie_or_empty rq name = (case request_cookie rq name of None \<Rightarrow> [] | Some v \<Rightarrow> v)"

definition web_LoginCallback :: "'s web_world \<Rightarrow> web_request \<Rightarrow> 's \<Rightarrow> 'b web_response \<times> 's" where
  "web_LoginCallback w rq s =
     (let state = cookie_or_empty rq OAuthStateCookie; cleared = add_cookies (clearOAuthCookies w)
      in if state = [] \<or> state \<noteq> wq_Query rq ''state'' then (cleared (web_redirect rq ''/login?error=state''), s)
         else
           (let nxt = safeNext (cookie_or_empty rq OAuthNextCookie); verifier = cookie_or_empty rq OAuthVerifierCookie;
                nonce = cookie_or_empty rq OAuthNonceCookie; code = wq_Query rq ''code''
            in if verifier = [] \<or> nonce = [] then (cleared (web_redirect rq (loginErrorURL nxt ''state'')), s)
               else if wq_Query rq ''error'' \<noteq> [] then (cleared (web_redirect rq (loginErrorURL nxt ''denied'')), s)
               else if code = [] then (cleared (web_redirect rq (loginErrorURL nxt ''state'')), s)
               else (case Login (ww_service w) (ww_store w) (ww_now w) code nonce verifier s of
                       (Inl (ErrAccessDenied _), s1) \<Rightarrow> (cleared (web_redirect rq (loginErrorURL nxt ''not_member'')), s1)
                     | (Inl _, s1) \<Rightarrow> (cleared (web_redirect rq (loginErrorURL nxt ''provider'')), s1)
                     | (Inr user, s1) \<Rightarrow>
                         (case service_CreateSession (ww_service w) (ww_store w) (ww_hash w) (ww_session w) (ww_csrf w) (ww_now w)
                                 (u_ID user) (wq_UserAgent rq) s1 of
                            (Inl _, s2) \<Rightarrow> (cleared serverError, s2)
                          | (Inr (raw, _), s2) \<Rightarrow>
                              (cleared (add_cookies [setSessionCookie w raw] (web_redirect rq (if nxt = [] then ''/'' else nxt))), s2)))))"

section \<open>The session middleware\<close>

definition isPublicWebPath :: "auth_service \<Rightarrow> string \<Rightarrow> bool" where
  "isPublicWebPath svc path \<longleftrightarrow>
     (let authPath = ''/auth/'' @ sv_name svc
      in path = ''/login'' \<or> path = authPath \<or> path = authPath @ ''/callback'' \<or> HasPrefix path ''/static/'')"

definition redirectToLogin :: "web_request \<Rightarrow> 'b web_response" where
  "redirectToLogin rq =
     (if wq_HX rq then (status_response 401)\<lparr>wx_HXRedirect := Some ''/login''\<rparr>
      else (status_response 303)\<lparr>wx_Location := Some (http_Redirect (wq_Path rq)
             (''/login'' @ (if wq_Method rq = ''GET'' then ''?next='' @ QueryEscape (wq_RequestURI rq) else [])))\<rparr>)"

text \<open>The routes behind the middleware get the principal, which a public path has none of.\<close>

definition sessionAuth ::
  "'s web_world \<Rightarrow> (principal option \<Rightarrow> web_request \<Rightarrow> 's \<Rightarrow> 'b web_response \<times> 's) \<Rightarrow> web_request \<Rightarrow> 's \<Rightarrow> 'b web_response \<times> 's" where
  "sessionAuth w routes rq s =
     (if isPublicWebPath (ww_service w) (wq_Path rq) then routes None rq s
      else (case request_cookie rq SessionCookie of
              None \<Rightarrow> (redirectToLogin rq, s)
            | Some raw \<Rightarrow>
                (case AuthenticateSession (ww_service w) (ww_store w) (ww_hash w) (ww_now w) raw s of
                   (Inl ErrUnauthorized, s1) \<Rightarrow> (redirectToLogin rq, s1)
                 | (Inl _, s1) \<Rightarrow> (serverError, s1)
                 | (Inr (user, session), s1) \<Rightarrow>
                     (case routes (Some \<lparr>pr_User = WithoutOAuthTokens user, pr_Session = Some session\<rparr>) rq s1 of
                        (resp, s2) \<Rightarrow> (add_cookies [setSessionCookie w raw] resp, s2)))))"

definition validCSRF :: "principal option \<Rightarrow> web_request \<Rightarrow> bool" where
  "validCSRF pr rq \<longleftrightarrow>
     (case pr of
        None \<Rightarrow> False
      | Some p \<Rightarrow> (case pr_Session p of None \<Rightarrow> False | Some x \<Rightarrow> s_CSRFToken x = wq_Form rq ''_csrf''))"

definition web_Logout ::
  "'s web_world \<Rightarrow> (uuid \<Rightarrow> string \<Rightarrow> ('s, unit) state_op) \<Rightarrow> principal option \<Rightarrow> web_request \<Rightarrow> 's \<Rightarrow> 'b web_response \<times> 's" where
  "web_Logout w deleteSession pr rq s =
     (if \<not> validCSRF pr rq then (status_response 403, s)
      else (let s1 = (case pr of
                        None \<Rightarrow> s
                      | Some p \<Rightarrow> (case pr_Session p of None \<Rightarrow> s | Some x \<Rightarrow> snd (deleteSession (u_ID (pr_User p)) (s_ID x) s)))
            in (add_cookies [clearSessionCookie w] (web_redirect rq ''/login''), s1)))"

section \<open>Properties\<close>

lemma response_simps [simp]:
  "wx_Cookies (add_cookies cs resp) = cs @ wx_Cookies resp" "wx_Location (add_cookies cs resp) = wx_Location resp"
  "wx_Status (add_cookies cs resp) = wx_Status resp" "wx_Body (add_cookies cs resp) = wx_Body resp"
  "wx_Cookies (status_response code) = []" "wx_Body (status_response code) = None" "wx_Cookies (web_redirect rq to) = []"
  "\<not> wq_HX rq \<Longrightarrow> wx_Location (web_redirect rq to) = Some (http_Redirect (wq_Path rq) to)"
  by (simp_all add: add_cookies_def status_response_def web_redirect_def)

lemma serverError_cookies [simp]: "wx_Cookies serverError = []"
  by (simp add: serverError_def)

lemma cookie_names:
  "ck \<in> set (clearOAuthCookies w) \<Longrightarrow> hc_Name ck \<noteq> SessionCookie" "ck \<in> set (setOAuthCookies w a b c e) \<Longrightarrow> hc_Name ck \<noteq> SessionCookie"
  by (auto simp: clearOAuthCookies_def setOAuthCookies_def site_cookie_def SessionCookie_def OAuthStateCookie_def OAuthNonceCookie_def
      OAuthVerifierCookie_def OAuthNextCookie_def)

lemma home_local: "HasPrefix old ''/'' \<Longrightarrow> local_location (http_Redirect old ''/'')"
proof -
  have "\<not> has_host ''/''" "clean_location ''/'' = ''/''" by code_simp+
  then show ?thesis by (simp add: http_Redirect_def Let_def HasPrefix_def)
qed

text \<open>A callback that any of the checks refuses changes nothing and sets no session.\<close>

definition callback_accepted :: "web_request \<Rightarrow> bool" where
  "callback_accepted rq \<longleftrightarrow>
     cookie_or_empty rq OAuthStateCookie \<noteq> [] \<and> cookie_or_empty rq OAuthStateCookie = wq_Query rq ''state''
     \<and> cookie_or_empty rq OAuthVerifierCookie \<noteq> [] \<and> cookie_or_empty rq OAuthNonceCookie \<noteq> []
     \<and> wq_Query rq ''error'' = [] \<and> wq_Query rq ''code'' \<noteq> []"

lemma callback_refused:
  assumes "web_LoginCallback w rq s = (resp, s')" "\<not> callback_accepted rq"
  shows "s' = s \<and> wx_Cookies resp = clearOAuthCookies w"
  using assms by (auto simp: web_LoginCallback_def callback_accepted_def Let_def split: if_splits)

lemma session_needs_callback:
  assumes "web_LoginCallback w rq s = (resp, s')" "ck \<in> set (wx_Cookies resp)" "hc_Name ck = SessionCookie"
  shows "callback_accepted rq"
proof (rule ccontr)
  assume "\<not> callback_accepted rq"
  from callback_refused [OF assms(1) this] assms(2,3) cookie_names(1) show False by metis
qed

lemma session_raw:
  "service_CreateSession svc st hash r csrf now i agent s = (Inr (raw, x), s') \<Longrightarrow> s_UserID x = i \<and> s_ID x = hash raw"
  by (auto simp: service_CreateSession_def Let_def split: sum.splits prod.splits)

lemma signed_in:
  assumes cb: "web_LoginCallback w rq s = (resp, s')" and ck: "ck \<in> set (wx_Cookies resp)" "hc_Name ck = SessionCookie"
  obtains user s1 raw x where
    "Login (ww_service w) (ww_store w) (ww_now w) (wq_Query rq ''code'') (cookie_or_empty rq OAuthNonceCookie)
       (cookie_or_empty rq OAuthVerifierCookie) s = (Inr user, s1)"
    "service_CreateSession (ww_service w) (ww_store w) (ww_hash w) (ww_session w) (ww_csrf w) (ww_now w) (u_ID user) (wq_UserAgent rq) s1
       = (Inr (raw, x), s')"
    "resp = add_cookies (clearOAuthCookies w) (add_cookies [setSessionCookie w raw] (web_redirect rq
       (if safeNext (cookie_or_empty rq OAuthNextCookie) = [] then ''/'' else safeNext (cookie_or_empty rq OAuthNextCookie))))"
proof -
  let ?login = "Login (ww_service w) (ww_store w) (ww_now w) (wq_Query rq ''code'') (cookie_or_empty rq OAuthNonceCookie)
       (cookie_or_empty rq OAuthVerifierCookie) s"
  have ok: "callback_accepted rq" by (rule session_needs_callback [OF cb ck])
  obtain r s1 where l: "?login = (r, s1)" by fastforce
  show thesis
  proof (cases r)
    case (Inl e)
    then have "wx_Cookies resp = clearOAuthCookies w"
      using cb ok l by (cases e) (auto simp: web_LoginCallback_def callback_accepted_def Let_def)
    with ck cookie_names(1) show thesis by metis
  next
    case (Inr user)
    let ?create = "service_CreateSession (ww_service w) (ww_store w) (ww_hash w) (ww_session w) (ww_csrf w) (ww_now w) (u_ID user) (wq_UserAgent rq) s1"
    obtain r2 s2 where c: "?create = (r2, s2)" by fastforce
    show thesis
    proof (cases r2)
      case (Inl e)
      then have "wx_Cookies resp = clearOAuthCookies w"
        using cb ok l Inr c by (auto simp: web_LoginCallback_def callback_accepted_def Let_def)
      with ck cookie_names(1) show thesis by metis
    next
      case (Inr rx)
      obtain raw x where rx: "rx = (raw, x)" by fastforce
      have "s2 = s'" "resp = add_cookies (clearOAuthCookies w) (add_cookies [setSessionCookie w raw] (web_redirect rq
         (if safeNext (cookie_or_empty rq OAuthNextCookie) = [] then ''/'' else safeNext (cookie_or_empty rq OAuthNextCookie))))"
        using cb ok l \<open>r = Inr user\<close> c Inr rx by (auto simp: web_LoginCallback_def callback_accepted_def Let_def)
      with that l \<open>r = Inr user\<close> c Inr rx show thesis by metis
    qed
  qed
qed


text \<open>
  C23. The session middleware: on the SQLite store a page outside the public paths is handled with the principal of a
  live session, which carries no OAuth credential, and its cookie is renewed; without a live session no route is reached
  and the answer is the redirect to the sign in page.
\<close>

theorem pages_need_a_session:
  assumes "sqlite_ok c d" "ww_store w = sqlite_auth c fresh tick" "\<not> isPublicWebPath (ww_service w) (wq_Path rq)"
  shows "(\<exists>raw u x d1. request_cookie rq SessionCookie = Some raw
        \<and> live_session (ww_service w) (ww_now w) (auth_view_of c d) (ww_hash w raw) u x
        \<and> sessionAuth w routes rq d = map_prod (add_cookies [setSessionCookie w raw]) id
            (routes (Some \<lparr>pr_User = WithoutOAuthTokens u, pr_Session = Some (slide (ww_service w) (ww_now w) x)\<rparr>) rq d1))
    \<or> (\<nexists>raw u x. request_cookie rq SessionCookie = Some raw \<and> raw \<noteq> []
        \<and> live_session (ww_service w) (ww_now w) (auth_view_of c d) (ww_hash w raw) u x)
      \<and> fst (sessionAuth w routes rq d) = redirectToLogin rq"
proof (cases "request_cookie rq SessionCookie")
  case None
  then show ?thesis using assms(3) by (simp add: sessionAuth_def)
next
  case (Some raw)
  let ?auth = "AuthenticateSession (ww_service w) (ww_store w) (ww_hash w) (ww_now w) raw d"
  note iff = sqlite_reliable.session_iff [OF assms(1), of "ww_service w" fresh tick "ww_hash w" "ww_now w" raw, folded assms(2)]
  note err = sqlite_reliable.session_error [OF assms(1), of "ww_service w" fresh tick "ww_hash w" "ww_now w" raw, folded assms(2)]
  obtain r d1 where a: "?auth = (r, d1)" by fastforce
  show ?thesis
  proof (cases r)
    case (Inl e)
    then have "e = ErrUnauthorized" using err a by simp
    then have "fst (sessionAuth w routes rq d) = redirectToLogin rq" using Some a Inl assms(3) by (simp add: sessionAuth_def)
    moreover have "\<nexists>u x. raw \<noteq> [] \<and> live_session (ww_service w) (ww_now w) (auth_view_of c d) (ww_hash w raw) u x"
      using iff a Inl by (metis Inl_inject fst_conv sum.distinct(1))
    ultimately show ?thesis using Some by auto
  next
    case (Inr ux)
    obtain u x where ux: "ux = (u, x)" by fastforce
    with iff [of u x] a Inr obtain x0 where "live_session (ww_service w) (ww_now w) (auth_view_of c d) (ww_hash w raw) u x0"
      "x = slide (ww_service w) (ww_now w) x0" by auto
    moreover have "sessionAuth w routes rq d = map_prod (add_cookies [setSessionCookie w raw]) id
        (routes (Some \<lparr>pr_User = WithoutOAuthTokens u, pr_Session = Some x\<rparr>) rq d1)"
      using Some a Inr ux assms(3) by (simp add: sessionAuth_def split: prod.splits)
    ultimately show ?thesis using Some by blast
  qed
qed

definition sample_web :: "db web_world" where
  "sample_web =
     \<lparr>ww_service = sample_service, ww_store = sqlite_auth None 5 0, ww_hash = sample_hash, ww_now = 500, ww_secure = True,
      ww_AuthCodeURL = (\<lambda>state _ _. ''https://github.com/login/oauth/authorize?state='' @ state),
      ww_state = Inr ''st'', ww_nonce = Inr ''no'', ww_verifier = Inr ''ve'', ww_session = Inr ''se'', ww_csrf = Inr ''cs''\<rparr>"

definition sample_callback :: web_request where
  "sample_callback =
     \<lparr>wq_Method = ''GET'', wq_Path = ''/auth/github/callback'', wq_RequestURI = ''/auth/github/callback?state=st&code=good'',
      wq_Cookies = [(''pici_oauth_state'', ''st''), (''pici_oauth_nonce'', ''no''), (''pici_oauth_verifier'', ''ve''),
                    (''pici_oauth_next'', ''//evil.example'')],
      wq_Query = (\<lambda>k. if k = ''state'' then ''st'' else if k = ''code'' then ''good'' else []),
      wq_Form = (\<lambda>_. []), wq_SecretFile = None, wq_HX = False, wq_UserAgent = ''test''\<rparr>"


theorem pages_need_a_session_witness:
  "fst (sessionAuth sample_web (\<lambda>pr rq s. (page_response 200 (pr \<noteq> None), s))
     (sample_callback\<lparr>wq_Path := ''/'', wq_Cookies := [(''pici_session'', ''zz'')]\<rparr>) sample_auth_db)
   = redirectToLogin (sample_callback\<lparr>wq_Path := ''/'', wq_Cookies := [(''pici_session'', ''zz'')]\<rparr>)"
proof -
  let ?rq = "sample_callback\<lparr>wq_Path := ''/'', wq_Cookies := [(''pici_session'', ''zz'')]\<rparr>"
  have "ww_store sample_web = sqlite_auth None 5 0" by (simp add: sample_web_def)
  moreover have "\<not> isPublicWebPath (ww_service sample_web) (wq_Path ?rq)" by code_simp
  moreover have "request_cookie ?rq SessionCookie = Some ''zz''" by code_simp
  moreover have "av_sessions (auth_view_of None sample_auth_db) (ww_hash sample_web ''zz'') = None"
    by (simp add: auth_view_of_def sample_auth_db_def sample_web_def sample_hash_def sample_session_row_def)
  then have "\<not> live_session svc now (auth_view_of None sample_auth_db) (ww_hash sample_web ''zz'') u x" for svc now u x
    by (simp add: live_session_def)
  ultimately show ?thesis
    using pages_need_a_session [OF sample_auth_ok, of sample_web 5 0 ?rq "\<lambda>pr rq s. (page_response 200 (pr \<noteq> None), s)"] by auto
qed

end
