(* ===== verification/Remote.thy ===== *)
theory Remote
  imports Models
begin

text \<open>
  Repository remotes: \<^verbatim>\<open>internal/github/github.go\<close> and the parser of
  \<^verbatim>\<open>internal/gitlab/gitlab.go\<close>. \<open>url_parse\<close> stands for \<^verbatim>\<open>url.Parse\<close> and
  returns the host and the path of a URL, \<open>None\<close> for an error.
\<close>

definition CutColonSlashes :: "string \<Rightarrow> string option" where
  "CutColonSlashes s =
     (case find (\<lambda>i. prefix ''://'' (drop i s)) [0..<length s] of None \<Rightarrow> None | Some i \<Rightarrow> Some (take i s))"

definition ParseRemote :: "(string \<Rightarrow> (string \<times> string) option) \<Rightarrow> string \<Rightarrow> (string \<times> string) option" where
  "ParseRemote url_parse repoURL =
     (let s = TrimSuffix repoURL ''.git''
      in if Contains s ''://''
         then (case url_parse s of None \<Rightarrow> None | Some (host, path) \<Rightarrow> Some (host, TrimByte path (CHR ''/'')))
         else (case IndexByte s (CHR ''@'') of
                 None \<Rightarrow> Some ([], TrimByte s (CHR ''/''))
               | Some at \<Rightarrow>
                   (case IndexByte (drop at s) (CHR '':'') of
                      None \<Rightarrow> Some ([], TrimByte s (CHR ''/''))
                    | Some colon \<Rightarrow>
                        Some (drop (at + 1) (take (at + colon) s), TrimByte (drop (at + colon + 1) s) (CHR ''/'')))))"

definition github_ParseRepo :: "(string \<Rightarrow> (string \<times> string) option) \<Rightarrow> string \<Rightarrow> (string \<times> string) option" where
  "github_ParseRepo url_parse repoURL =
     (case ParseRemote url_parse repoURL of
        None \<Rightarrow> None
      | Some (host, path) \<Rightarrow>
          (if host \<noteq> ''github.com'' \<and> host \<noteq> ''www.github.com'' then None
           else (case SplitByte path (CHR ''/'') of
                   [owner, repo] \<Rightarrow> if owner = [] \<or> repo = [] then None else Some (owner, repo)
                 | _ \<Rightarrow> None)))"

definition RepoSlug :: "(string \<Rightarrow> (string \<times> string) option) \<Rightarrow> string \<Rightarrow> string" where
  "RepoSlug url_parse repoURL = (case ParseRemote url_parse repoURL of None \<Rightarrow> [] | Some (_, path) \<Rightarrow> path)"

definition gitlab_ParseRepo :: "(string \<Rightarrow> (string \<times> string) option) \<Rightarrow> string \<Rightarrow> (string \<times> string) option" where
  "gitlab_ParseRepo url_parse repoURL =
     (case ParseRemote url_parse repoURL of
        None \<Rightarrow> None
      | Some (host, path) \<Rightarrow>
          (if host = [] \<or> path = [] then None
           else (let scheme = (case CutColonSlashes repoURL of None \<Rightarrow> ''https'' | Some before \<Rightarrow> before)
                 in Some (scheme @ ''://'' @ host, path))))"

section \<open>SCP-like remotes\<close>

text \<open>An ssh remote \<open>user@host:path.git\<close> is split at the first @ and the first colon after it.\<close>

lemma TrimByte_id: "s \<noteq> [] \<Longrightarrow> hd s \<noteq> c \<Longrightarrow> last s \<noteq> c \<Longrightarrow> TrimByte s c = s"
  by (simp add: TrimByte_def TrimLeftFunc_def TrimRightFunc_def dropWhile_eq_self_iff [THEN iffD2] hd_rev)

lemma TrimSuffix_append: "TrimSuffix (s @ t) t = s"
  by (simp add: TrimSuffix_def suffix_def)

text \<open>
  Ssh remotes: \<open>user@host:owner/repo.git\<close> is read as that host and path, so a GitHub remote in this
  form gives its owner and repository and any other host is not taken for GitHub.
\<close>

theorem ParseRemote_ssh:
  assumes "CHR ''@'' \<notin> set user" "CHR ''@'' \<notin> set host" "CHR '':'' \<notin> set host" "CHR ''/'' \<notin> set host"
    and "CHR ''/'' \<notin> set owner" "CHR ''/'' \<notin> set repo" "owner \<noteq> []" "repo \<noteq> []"
    and "\<not> Contains (user @ ''@'' @ host @ '':'' @ owner @ ''/'' @ repo) ''://''"
  shows "ParseRemote url_parse (user @ ''@'' @ host @ '':'' @ owner @ ''/'' @ repo @ ''.git'') = Some (host, owner @ ''/'' @ repo)
    \<and> github_ParseRepo url_parse (user @ ''@'' @ host @ '':'' @ owner @ ''/'' @ repo @ ''.git'')
        = (if host = ''github.com'' \<or> host = ''www.github.com'' then Some (owner, repo) else None)"
proof -
  let ?s = "user @ CHR ''@'' # host @ CHR '':'' # owner @ CHR ''/'' # repo"
  have trim: "TrimSuffix (user @ ''@'' @ host @ '':'' @ owner @ ''/'' @ repo @ ''.git'') ''.git'' = ?s"
    using TrimSuffix_append [of ?s "''.git''"] by simp
  have at: "IndexByte ?s (CHR ''@'') = Some (length user)"
    using assms(1) by (simp add: IndexByte_Some)
  have colon: "IndexByte (host @ CHR '':'' # owner @ CHR ''/'' # repo) (CHR '':'') = Some (length host)"
    using assms(3) by (simp add: IndexByte_Some)
  have path: "TrimByte (owner @ CHR ''/'' # repo) (CHR ''/'') = owner @ CHR ''/'' # repo"
  proof (rule TrimByte_id)
    show "hd (owner @ CHR ''/'' # repo) \<noteq> CHR ''/''" using assms(5,7) by (cases owner) auto
    show "last (owner @ CHR ''/'' # repo) \<noteq> CHR ''/''" using assms(6,8) last_in_set [of repo] by (metis last_appendR last_ConsR list.discI)
  qed simp
  have "ParseRemote url_parse (user @ ''@'' @ host @ '':'' @ owner @ ''/'' @ repo @ ''.git'') = Some (host, owner @ CHR ''/'' # repo)"
    unfolding ParseRemote_def trim Let_def using assms(9) path by (simp add: at colon)
  moreover have "SplitByte (owner @ CHR ''/'' # repo) (CHR ''/'') = [owner, repo]"
  proof -
    have split: "SplitByte w (CHR ''/'') = [w]" if "CHR ''/'' \<notin> set w" for w
      using that by (induction w) auto
    have "SplitByte (u @ CHR ''/'' # v) (CHR ''/'') = u # SplitByte v (CHR ''/'')" if "CHR ''/'' \<notin> set u" for u v
      using that by (induction u) auto
    with split assms(5,6) show ?thesis by simp
  qed
  ultimately show ?thesis using assms(7,8) by (simp add: github_ParseRepo_def)
qed

theorem ParseRemote_ssh_witness:
  "github_ParseRepo (\<lambda>_. None) ''git@github.com:Thiht/pici.git'' = Some (''Thiht'', ''pici'')"
proof -
  have "\<not> Contains ''git@github.com:Thiht/pici'' ''://''" by code_simp
  then show ?thesis
    using ParseRemote_ssh [of "''git''" "''github.com''" "''Thiht''" "''pici''" "\<lambda>_. None"] by simp
qed

end
