(* ===== verification/AppProjects.thy ===== *)
theory AppProjects
  imports Remote SqliteProjects
begin

text \<open>
  The project and variable modules: \<^verbatim>\<open>internal/app/app.go\<close>,
  \<^verbatim>\<open>internal/app/projects/projects.go\<close>, \<^verbatim>\<open>internal/app/variables/variables.go\<close>,
  and the HTTP handlers on top of them (\<^verbatim>\<open>internal/handlers/helpers.go\<close>,
  \<^verbatim>\<open>variables.go\<close>, \<^verbatim>\<open>projects.go\<close>). A module takes the store operations it calls as arguments;
  the locales \<open>project_store\<close> and \<open>variable_store\<close> are their contracts, which the SQLite operations
  meet. \<open>uuid_parse\<close> is \<^verbatim>\<open>uuid.Parse\<close>, \<open>listRefs\<close> asks the remote for its default branch.
  A JSON body is given as decoded, \<open>None\<close> when the decoder rejects it.
\<close>

section \<open>Errors and their HTTP status\<close>

datatype app_error =
    AppNotFound
  | AppInvalid string
  | AppConflict string
  | AppNotRetryable string
  | AppWorkspaceGone string
  | AppUnavailable
  | AppStore store_error
  | AppOther string

definition storeError :: "app_error \<Rightarrow> int" where
  "storeError e =
     (case e of
        AppNotFound \<Rightarrow> 404
      | AppStore ErrNotFound \<Rightarrow> 404
      | AppInvalid _ \<Rightarrow> 400
      | AppConflict _ \<Rightarrow> 409
      | AppNotRetryable _ \<Rightarrow> 409
      | AppWorkspaceGone _ \<Rightarrow> 410
      | AppUnavailable \<Rightarrow> 503
      | _ \<Rightarrow> 500)"

type_synonym ('s, 'a) db_op = "'s \<Rightarrow> (store_error + 'a) \<times> 's"
type_synonym ('s, 'a) app_op = "'s \<Rightarrow> (app_error + 'a) \<times> 's"

definition as_app :: "(store_error + 'a) \<times> 's \<Rightarrow> (app_error + 'a) \<times> 's" where
  "as_app r = (case r of (Inl e, s) \<Rightarrow> (Inl (AppStore e), s) | (Inr a, s) \<Rightarrow> (Inr a, s))"

section \<open>Projects\<close>

record git_auth =
  ga_Type :: string
  ga_User :: string
  ga_Secret :: string

definition Auth :: "project \<Rightarrow> git_auth" where
  "Auth p = \<lparr>ga_Type = auth_type_String (p_AuthType p), ga_User = p_AuthUser p, ga_Secret = p_AuthSecret p\<rparr>"

definition providerFor :: "(string \<Rightarrow> (string \<times> string) option) \<Rightarrow> string \<Rightarrow> provider" where
  "providerFor url_parse repoURL =
     (let host = (case ParseRemote url_parse repoURL of None \<Rightarrow> [] | Some (h, _) \<Rightarrow> h)
      in if host = ''github.com'' \<or> host = ''www.github.com'' then ProviderGithub
         else if host = ''gitlab.com'' \<or> Contains host ''gitlab'' then ProviderGitlab
         else ProviderGeneric)"

definition defaultAuthUser :: "auth_type \<Rightarrow> string" where
  "defaultAuthUser t =
     (if t = AuthTypeToken then ''oauth2'' else if t = AuthTypeSsh then ''git'' else [])"

definition trimmed :: "project \<Rightarrow> project" where
  "trimmed p =
     p\<lparr>p_Name := TrimSpace (p_Name p), p_RepoURL := TrimSpace (p_RepoURL p), p_AuthUser := TrimSpace (p_AuthUser p),
       p_DefaultBranch := TrimSpace (p_DefaultBranch p)\<rparr>"

definition fill_branch :: "(string \<Rightarrow> git_auth \<Rightarrow> string option) \<Rightarrow> project \<Rightarrow> project" where
  "fill_branch listRefs p =
     (if p_DefaultBranch p = []
      then (case listRefs (p_RepoURL p) (Auth p) of None \<Rightarrow> p | Some head \<Rightarrow> p\<lparr>p_DefaultBranch := head\<rparr>)
      else p)"

definition projects_Detect ::
  "(string \<Rightarrow> (string \<times> string) option) \<Rightarrow> (string \<Rightarrow> git_auth \<Rightarrow> string option) \<Rightarrow> project \<Rightarrow> project" where
  "projects_Detect url_parse listRefs draft =
     (let p1 = trimmed draft;
          p2 = (if p_RepoURL p1 \<noteq> [] then p1\<lparr>p_Provider := providerFor url_parse (p_RepoURL p1)\<rparr> else p1);
          p3 = (if \<not> auth_type_IsValid (p_AuthType p2) then p2\<lparr>p_AuthType := AuthTypeNone\<rparr> else p2);
          p4 = (if p_AuthUser p3 = [] \<or> p_AuthUser p3 = ''oauth2'' \<or> p_AuthUser p3 = ''git''
                then p3\<lparr>p_AuthUser := defaultAuthUser (p_AuthType p3)\<rparr> else p3)
      in if p_RepoURL p4 \<noteq> [] then fill_branch listRefs p4 else p4)"

definition normalize ::
  "(string \<Rightarrow> (string \<times> string) option) \<Rightarrow> (string \<Rightarrow> git_auth \<Rightarrow> string option) \<Rightarrow> project \<Rightarrow> app_error + project" where
  "normalize url_parse listRefs project =
     (let p1 = trimmed project
      in if p_Name p1 = [] then Inl (AppInvalid ''Name is required.'')
         else if p_RepoURL p1 = [] then Inl (AppInvalid ''Repository URL is required.'')
         else (let p2 = (if \<not> provider_IsValid (p_Provider p1)
                         then p1\<lparr>p_Provider := providerFor url_parse (p_RepoURL p1)\<rparr> else p1);
                   p3 = (if \<not> auth_type_IsValid (p_AuthType p2)
                         then p2\<lparr>p_AuthType := (if p_AuthSecret p2 \<noteq> [] then AuthTypeToken else AuthTypeNone)\<rparr>
                         else p2);
                   p4 = (if p_AuthUser p3 = [] then p3\<lparr>p_AuthUser := defaultAuthUser (p_AuthType p3)\<rparr> else p3)
               in Inr (fill_branch listRefs p4)))"

definition Resolve ::
  "(string \<Rightarrow> uuid option) \<Rightarrow> (uuid \<Rightarrow> ('s, project) db_op) \<Rightarrow> (string \<Rightarrow> ('s, project) db_op) \<Rightarrow> string \<Rightarrow> ('s, project) app_op" where
  "Resolve uuid_parse getProject getByName idOrName s =
     (let by_name = (\<lambda>s. case getByName idOrName s of
                           (Inl e, s') \<Rightarrow> (Inl (if e = ErrNotFound then AppNotFound else AppStore e), s')
                         | (Inr p, s') \<Rightarrow> (Inr p, s'))
      in case uuid_parse idOrName of
           None \<Rightarrow> by_name s
         | Some i \<Rightarrow>
             (case getProject i s of
                (Inr p, s') \<Rightarrow> (Inr p, s')
              | (Inl e, s') \<Rightarrow> if e = ErrNotFound then by_name s' else (Inl (AppStore e), s')))"

definition projects_Create ::
  "(string \<Rightarrow> (string \<times> string) option) \<Rightarrow> (string \<Rightarrow> git_auth \<Rightarrow> string option) \<Rightarrow> (project \<Rightarrow> ('s, project) db_op)
     \<Rightarrow> uuid \<Rightarrow> go_time \<Rightarrow> project \<Rightarrow> ('s, project) app_op" where
  "projects_Create url_parse listRefs createProject fresh now draft s =
     (case normalize url_parse listRefs draft of
        Inl e \<Rightarrow> (Inl e, s)
      | Inr p \<Rightarrow> as_app (createProject (p\<lparr>p_ID := fresh, p_CreatedAt := now, p_UpdatedAt := now\<rparr>) s))"

definition projects_Update ::
  "(string \<Rightarrow> (string \<times> string) option) \<Rightarrow> (string \<Rightarrow> git_auth \<Rightarrow> string option) \<Rightarrow> (project \<Rightarrow> ('s, project) db_op)
     \<Rightarrow> go_time \<Rightarrow> project \<Rightarrow> ('s, project) app_op" where
  "projects_Update url_parse listRefs updateProject now project s =
     (case normalize url_parse listRefs project of
        Inl e \<Rightarrow> (Inl e, s)
      | Inr p \<Rightarrow> as_app (updateProject (p\<lparr>p_UpdatedAt := now\<rparr>) s))"

section \<open>Variables\<close>

definition blank_secret :: "variable \<Rightarrow> variable" where
  "blank_secret v = (if v_Secret v then v\<lparr>v_Value := []\<rparr> else v)"

definition variables_List :: "(uuid option \<Rightarrow> ('s, variable list) db_op) \<Rightarrow> uuid option \<Rightarrow> ('s, variable list) app_op" where
  "variables_List listVariables projectID s =
     (case listVariables projectID s of
        (Inl e, s') \<Rightarrow> (Inl (AppStore e), s')
      | (Inr vs, s') \<Rightarrow> (Inr (map blank_secret vs), s'))"

definition variables_Set :: "(variable \<Rightarrow> ('s, unit) db_op) \<Rightarrow> variable \<Rightarrow> ('s, variable) app_op" where
  "variables_Set setVariable v0 s =
     (let v = v0\<lparr>v_Key := TrimSpace (v_Key v0)\<rparr>
      in if v_Key v = [] then (Inl (AppInvalid ''key is required''), s)
         else (case setVariable v s of
                 (Inl e, s') \<Rightarrow> (Inl (AppStore e), s')
               | (Inr _, s') \<Rightarrow> (Inr (blank_secret v), s')))"

section \<open>Handlers\<close>

text \<open>The answer of a handler: an HTTP status with a body, or a status with an error.\<close>

datatype 'a reply = Reply int 'a | Failure int

definition reply_error :: "app_error + 'a \<Rightarrow> int \<Rightarrow> 'a reply" where
  "reply_error r code = (case r of Inl e \<Rightarrow> Failure (storeError e) | Inr a \<Rightarrow> Reply code a)"

record variable_request =
  vr_Key :: string
  vr_Value :: string
  vr_Secret :: bool

definition handler_set :: "(variable \<Rightarrow> ('s, unit) db_op) \<Rightarrow> variable_request option \<Rightarrow> uuid option \<Rightarrow> 's \<Rightarrow> variable reply \<times> 's" where
  "handler_set setVariable body projectID s =
     (case body of
        None \<Rightarrow> (Failure 400, s)
      | Some req \<Rightarrow>
          (case variables_Set setVariable
                  \<lparr>v_ProjectID = projectID, v_Key = vr_Key req, v_Value = vr_Value req, v_Secret = vr_Secret req\<rparr> s of
             (r, s') \<Rightarrow> (reply_error r 200, s')))"

definition handler_list :: "(uuid option \<Rightarrow> ('s, variable list) db_op) \<Rightarrow> uuid option \<Rightarrow> 's \<Rightarrow> variable list reply \<times> 's" where
  "handler_list listVariables projectID s =
     (case variables_List listVariables projectID s of
        (Inl _, s') \<Rightarrow> (Failure 500, s')
      | (Inr vs, s') \<Rightarrow> (Reply 200 vs, s'))"

definition handler_delete :: "(uuid option \<Rightarrow> string \<Rightarrow> ('s, unit) db_op) \<Rightarrow> uuid option \<Rightarrow> string \<Rightarrow> 's \<Rightarrow> unit reply \<times> 's" where
  "handler_delete deleteVariable projectID key s =
     (case deleteVariable projectID key s of
        (Inl _, s') \<Rightarrow> (Failure 500, s')
      | (Inr _, s') \<Rightarrow> (Reply 204 (), s'))"

text \<open>The handlers below a project resolve it first.\<close>

definition with_project :: "('s, project) app_op \<Rightarrow> (project \<Rightarrow> 's \<Rightarrow> 'a reply \<times> 's) \<Rightarrow> 's \<Rightarrow> 'a reply \<times> 's" where
  "with_project resolve handle s =
     (case resolve s of
        (Inl e, s') \<Rightarrow> (Failure (storeError e), s')
      | (Inr p, s') \<Rightarrow> handle p s')"

definition SetProject :: "('s, project) app_op \<Rightarrow> (variable \<Rightarrow> ('s, unit) db_op) \<Rightarrow> variable_request option \<Rightarrow> 's \<Rightarrow> variable reply \<times> 's" where
  "SetProject resolve setVariable body = with_project resolve (\<lambda>p. handler_set setVariable body (Some (p_ID p)))"

definition ListProject :: "('s, project) app_op \<Rightarrow> (uuid option \<Rightarrow> ('s, variable list) db_op) \<Rightarrow> 's \<Rightarrow> variable list reply \<times> 's" where
  "ListProject resolve listVariables = with_project resolve (\<lambda>p. handler_list listVariables (Some (p_ID p)))"

definition DeleteProjectVariable ::
  "('s, project) app_op \<Rightarrow> (uuid option \<Rightarrow> string \<Rightarrow> ('s, unit) db_op) \<Rightarrow> string \<Rightarrow> 's \<Rightarrow> unit reply \<times> 's" where
  "DeleteProjectVariable resolve deleteVariable key =
     with_project resolve (\<lambda>p. handler_delete deleteVariable (Some (p_ID p)) key)"

record project_request =
  qr_Name :: string
  qr_RepoURL :: string
  qr_Provider :: provider
  qr_AuthType :: auth_type
  qr_AuthUser :: string
  qr_AuthSecret :: string
  qr_WebhookSecret :: string
  qr_DefaultBranch :: string

definition handler_create ::
  "(project \<Rightarrow> ('s, project) app_op) \<Rightarrow> project_request option \<Rightarrow> 's \<Rightarrow> project reply \<times> 's" where
  "handler_create create body s =
     (case body of
        None \<Rightarrow> (Failure 400, s)
      | Some q \<Rightarrow>
          (case create \<lparr>p_ID = uuid_Nil, p_Name = qr_Name q, p_RepoURL = qr_RepoURL q, p_Provider = qr_Provider q,
                        p_AuthType = qr_AuthType q, p_AuthUser = qr_AuthUser q, p_AuthSecret = qr_AuthSecret q,
                        p_WebhookSecret = qr_WebhookSecret q, p_DefaultBranch = qr_DefaultBranch q,
                        p_CreatedAt = zero_time, p_UpdatedAt = zero_time\<rparr> s of
             (r, s') \<Rightarrow> (reply_error r 201, s')))"

text \<open>An update changes only the fields the request gives.\<close>

definition patch :: "project_request \<Rightarrow> project \<Rightarrow> project" where
  "patch q p =
     p\<lparr>p_Name := (if qr_Name q \<noteq> [] then qr_Name q else p_Name p),
       p_RepoURL := (if qr_RepoURL q \<noteq> [] then qr_RepoURL q else p_RepoURL p),
       p_Provider := (if qr_Provider q \<noteq> ProviderOther [] then qr_Provider q else p_Provider p),
       p_AuthType := (if qr_AuthType q \<noteq> AuthTypeOther [] then qr_AuthType q else p_AuthType p),
       p_AuthUser := (if qr_AuthUser q \<noteq> [] then qr_AuthUser q else p_AuthUser p),
       p_AuthSecret := (if qr_AuthSecret q \<noteq> [] then qr_AuthSecret q else p_AuthSecret p),
       p_WebhookSecret := (if qr_WebhookSecret q \<noteq> [] then qr_WebhookSecret q else p_WebhookSecret p),
       p_DefaultBranch := (if qr_DefaultBranch q \<noteq> [] then qr_DefaultBranch q else p_DefaultBranch p)\<rparr>"

definition handler_update ::
  "('s, project) app_op \<Rightarrow> (project \<Rightarrow> ('s, project) app_op) \<Rightarrow> project_request option \<Rightarrow> 's \<Rightarrow> project reply \<times> 's" where
  "handler_update resolve update body =
     with_project resolve (\<lambda>p s.
       case body of
         None \<Rightarrow> (Failure 400, s)
       | Some q \<Rightarrow> (case update (patch q p) s of (r, s') \<Rightarrow> (reply_error r 200, s')))"

definition handler_delete_project :: "('s, project) app_op \<Rightarrow> (uuid \<Rightarrow> ('s, unit) db_op) \<Rightarrow> 's \<Rightarrow> unit reply \<times> 's" where
  "handler_delete_project resolve deleteProject =
     with_project resolve (\<lambda>p s. case as_app (deleteProject (p_ID p) s) of (r, s') \<Rightarrow> (reply_error r 204, s'))"

section \<open>The contracts\<close>

locale project_store =
  fixes getProject :: "uuid \<Rightarrow> ('s, project) db_op" and getByName :: "string \<Rightarrow> ('s, project) db_op"
    and projects :: "'s \<Rightarrow> project set" and ok :: "'s \<Rightarrow> bool"
  assumes get: "ok s \<Longrightarrow> getProject i s = (r, s') \<Longrightarrow> s' = s \<and>
      (case r of Inr p \<Rightarrow> p \<in> projects s \<and> p_ID p = i
       | Inl e \<Rightarrow> e = ErrNotFound \<longrightarrow> (\<forall>p \<in> projects s. p_ID p \<noteq> i))"
    and get_name: "ok s \<Longrightarrow> getByName n s = (r, s') \<Longrightarrow> s' = s \<and>
      (case r of Inr p \<Rightarrow> p \<in> projects s \<and> p_Name p = n
       | Inl e \<Rightarrow> e = ErrNotFound \<longrightarrow> (\<forall>p \<in> projects s. p_Name p \<noteq> n))"
begin

lemma Resolve_state: "ok s \<Longrightarrow> snd (Resolve uuid_parse getProject getByName x s) = s"
  using get get_name
  by (auto simp: Resolve_def Let_def split: option.splits prod.splits sum.splits) metis+

lemma Resolve_found:
  assumes "ok s" "Resolve uuid_parse getProject getByName x s = (Inr p, s')"
  shows "p \<in> projects s \<and> (uuid_parse x = Some (p_ID p)
    \<or> p_Name p = x \<and> (\<forall>i. uuid_parse x = Some i \<longrightarrow> (\<forall>q \<in> projects s. p_ID q \<noteq> i)))"
proof (cases "uuid_parse x")
  case None
  obtain r s1 where n: "getByName x s = (r, s1)" by (metis surj_pair)
  from get_name [OF assms(1) n] assms(2) None n show ?thesis
    by (auto simp: Resolve_def Let_def split: sum.splits)
next
  case (Some i)
  obtain r s1 where g: "getProject i s = (r, s1)" by (metis surj_pair)
  obtain r' s2 where n: "getByName x s = (r', s2)" by (metis surj_pair)
  from get [OF assms(1) g] get_name [OF assms(1) n] assms(2) Some g n show ?thesis
    by (auto simp: Resolve_def Let_def split: sum.splits if_splits)
qed

lemma Resolve_missing:
  assumes "ok s" "Resolve uuid_parse getProject getByName x s = (Inl AppNotFound, s')"
  shows "(\<forall>p \<in> projects s. p_Name p \<noteq> x) \<and> (\<forall>i. uuid_parse x = Some i \<longrightarrow> (\<forall>p \<in> projects s. p_ID p \<noteq> i))"
proof (cases "uuid_parse x")
  case None
  obtain r s1 where n: "getByName x s = (r, s1)" by (metis surj_pair)
  from get_name [OF assms(1) n] assms(2) None n show ?thesis
    by (auto simp: Resolve_def Let_def split: sum.splits if_splits)
next
  case (Some i)
  obtain r s1 where g: "getProject i s = (r, s1)" by (metis surj_pair)
  obtain r' s2 where n: "getByName x s = (r', s2)" by (metis surj_pair)
  from get [OF assms(1) g] get_name [OF assms(1) n] assms(2) Some g n show ?thesis
    by (auto simp: Resolve_def Let_def split: sum.splits if_splits)
qed

end

definition stored_projects :: "aead option \<Rightarrow> db \<Rightarrow> project set" where
  "stored_projects c d = set (map (project_of_row c) (db_projects d))"

lemma project_of_row_key [simp]: "p_ID (project_of_row c r) = pw_id r" "p_Name (project_of_row c r) = pw_name r"
  by (simp_all add: project_of_row_def)

interpretation sqlite_projects: project_store "GetProject c" "GetProjectByName c" "stored_projects c" db_ok for c
  by unfold_locales
    (auto simp: GetProject_def GetProjectByName_def stored_projects_def find_None_iff dest!: find_SomeD split: option.splits)

locale variable_store =
  fixes setVariable :: "variable \<Rightarrow> ('s, unit) db_op" and listVariables :: "uuid option \<Rightarrow> ('s, variable list) db_op"
    and ok :: "'s \<Rightarrow> bool"
  assumes set_list: "ok s \<Longrightarrow> setVariable v s = (Inr (), s') \<Longrightarrow> ok s' \<and>
      (\<exists>vs. listVariables (v_ProjectID v) s' = (Inr vs, s') \<and> v \<in> set vs
        \<and> (\<forall>w \<in> set vs. v_Key w = v_Key v \<longrightarrow> w = v))"
    and set_fails: "ok s \<Longrightarrow> setVariable v s = (Inl e, s') \<Longrightarrow> s' = s"
begin

lemma set_then_list:
  assumes "ok s" "handler_set setVariable (Some req) projectID s = (Reply code v, s')"
  shows "ok s' \<and> code = 200 \<and> v_Key v = TrimSpace (vr_Key req) \<and> (v_Secret v \<longrightarrow> v_Value v = [])
    \<and> (\<exists>vs. handler_list listVariables projectID s' = (Reply 200 vs, s') \<and> v \<in> set vs
         \<and> (\<forall>w \<in> set vs. v_Secret w \<longrightarrow> v_Value w = []))
    \<and> (\<exists>vs. listVariables projectID s' = (Inr vs, s')
         \<and> (\<forall>w \<in> set vs. v_Key w = v_Key v \<longrightarrow> v_Value w = vr_Value req \<and> v_Secret w = vr_Secret req)
         \<and> (\<exists>w \<in> set vs. v_Key w = v_Key v))"
proof -
  let ?v = "\<lparr>v_ProjectID = projectID, v_Key = TrimSpace (vr_Key req), v_Value = vr_Value req, v_Secret = vr_Secret req\<rparr>"
  obtain r t where st: "setVariable ?v s = (r, t)" by (metis surj_pair)
  have "v_Key ?v \<noteq> [] \<and> r = Inr () \<and> t = s' \<and> v = blank_secret ?v \<and> code = 200"
  proof (cases "TrimSpace (vr_Key req) = []")
    case True
    with assms(2) show ?thesis by (simp add: handler_set_def variables_Set_def reply_error_def)
  next
    case False
    with assms(2) st show ?thesis
      by (cases r) (simp_all add: handler_set_def variables_Set_def reply_error_def)
  qed
  with st have set: "setVariable ?v s = (Inr (), s')" and v: "v = blank_secret ?v" "code = 200" by simp_all
  from set_list [OF assms(1) set] obtain vs where vs: "ok s'" "listVariables projectID s' = (Inr vs, s')" "?v \<in> set vs"
    "\<forall>w \<in> set vs. v_Key w = v_Key ?v \<longrightarrow> w = ?v" by auto
  have key: "v_Key v = TrimSpace (vr_Key req)" "v_Secret v \<longrightarrow> v_Value v = []"
    by (simp_all add: v blank_secret_def)
  have "v \<in> set (map blank_secret vs)" using vs(3) v(1) by auto
  moreover have "\<forall>w \<in> set (map blank_secret vs). v_Secret w \<longrightarrow> v_Value w = []" by (auto simp: blank_secret_def)
  ultimately have "\<exists>us. handler_list listVariables projectID s' = (Reply 200 us, s') \<and> v \<in> set us
      \<and> (\<forall>w \<in> set us. v_Secret w \<longrightarrow> v_Value w = [])"
    by (intro exI [of _ "map blank_secret vs"]) (simp add: handler_list_def variables_List_def vs(2))
  moreover have "\<exists>us. listVariables projectID s' = (Inr us, s')
      \<and> (\<forall>w \<in> set us. v_Key w = v_Key v \<longrightarrow> v_Value w = vr_Value req \<and> v_Secret w = vr_Secret req)
      \<and> (\<exists>w \<in> set us. v_Key w = v_Key v)"
  proof (intro exI conjI)
    show "listVariables projectID s' = (Inr vs, s')" by (rule vs(2))
    show "\<forall>w \<in> set vs. v_Key w = v_Key v \<longrightarrow> v_Value w = vr_Value req \<and> v_Secret w = vr_Secret req"
      using vs(4) key(1) by auto
    show "\<exists>w \<in> set vs. v_Key w = v_Key v" by (rule bexI [OF _ vs(3)]) (simp add: key(1))
  qed
  ultimately show ?thesis using vs(1) key v(2) by blast
qed

end

lemma ListVariables_after_set:
  assumes "cipher_ok c" "SetVariable c v d = (Inr (), d')"
  shows "\<exists>vs. ListVariables c (v_ProjectID v) d' = (Inr vs, d') \<and> v \<in> set vs
    \<and> (\<forall>w \<in> set vs. v_Key w = v_Key v \<longrightarrow> w = v)"
proof -
  let ?row = "\<lparr>vw_project_id = v_ProjectID v, vw_key = v_Key v,
      vw_value = (if v_Secret v then encrypt c (v_Value v) else v_Value v), vw_secret = (if v_Secret v then 1 else 0)\<rparr>"
  let ?kept = "delete_rows (\<lambda>r. vw_project_id r = v_ProjectID v \<and> vw_key r = v_Key v) (db_variables d)"
  have d': "db_variables d' = ?kept @ [?row]"
    using assms(2) by (auto simp: SetVariable_def Let_def split: if_splits)
  have row: "variable_of_row c ?row = v"
    using assms(1) by (cases v) (simp add: variable_of_row_def)
  have "w = v" if "r \<in> set (?kept @ [?row])" "vw_project_id r = v_ProjectID v" "w = variable_of_row c r" "v_Key w = v_Key v" for r w
    using that row by (auto simp: variable_of_row_def)
  moreover have "v \<in> variable_of_row c ` {r \<in> set (?kept @ [?row]). vw_project_id r = v_ProjectID v}"
    using row by (auto intro!: image_eqI [where x = ?row])
  ultimately show ?thesis
    by (auto simp: ListVariables_def d')
qed

interpretation sqlite_variables: variable_store "SetVariable c" "ListVariables c" "\<lambda>d. db_ok d \<and> cipher_ok c" for c
proof (unfold_locales, goal_cases)
  case (1 s v s')
  then show ?case
    using ListVariables_after_set [of c v s s'] SetVariable_ok [of s c v] by simp
next
  case (2 s v e s')
  then show ?case by (auto simp: SetVariable_def Let_def split: if_splits)
qed

section \<open>Normalised projects\<close>

lemma TrimSpace_users [simp]: "TrimSpace (defaultAuthUser t) = defaultAuthUser t"
  by (auto simp: defaultAuthUser_def TrimSpace_id is_space_def)

lemma providerFor_valid [simp]: "provider_IsValid (providerFor f u)"
  by (simp add: providerFor_def Let_def)

lemma fill_branch_simps [simp]:
  "p_ID (fill_branch f p) = p_ID p" "p_Name (fill_branch f p) = p_Name p" "p_RepoURL (fill_branch f p) = p_RepoURL p"
  "p_Provider (fill_branch f p) = p_Provider p" "p_AuthType (fill_branch f p) = p_AuthType p"
  "p_AuthUser (fill_branch f p) = p_AuthUser p" "p_AuthSecret (fill_branch f p) = p_AuthSecret p"
  "p_WebhookSecret (fill_branch f p) = p_WebhookSecret p"
  by (simp_all add: fill_branch_def split: option.split)

lemma trimmed_simps [simp]:
  "p_ID (trimmed p) = p_ID p" "p_Name (trimmed p) = TrimSpace (p_Name p)" "p_RepoURL (trimmed p) = TrimSpace (p_RepoURL p)"
  "p_Provider (trimmed p) = p_Provider p" "p_AuthType (trimmed p) = p_AuthType p"
  "p_AuthUser (trimmed p) = TrimSpace (p_AuthUser p)" "p_AuthSecret (trimmed p) = p_AuthSecret p"
  "p_WebhookSecret (trimmed p) = p_WebhookSecret p" "p_DefaultBranch (trimmed p) = TrimSpace (p_DefaultBranch p)"
  by (simp_all add: trimmed_def)

lemma normalize_fields:
  assumes "normalize url_parse listRefs p = Inr q"
  shows "p_Name q = TrimSpace (p_Name p)" "p_Name q \<noteq> []" "p_RepoURL q = TrimSpace (p_RepoURL p)" "p_RepoURL q \<noteq> []"
    "provider_IsValid (p_Provider q)" "auth_type_IsValid (p_AuthType q)"
    "p_AuthSecret q = p_AuthSecret p" "p_WebhookSecret q = p_WebhookSecret p" "p_ID q = p_ID p"
  using assms by (simp_all add: normalize_def Let_def split: if_splits) auto

section \<open>Properties\<close>


lemma find_append_first: "find p xs = None \<Longrightarrow> find p (xs @ [x]) = (if p x then Some x else None)"
  by (induction xs) auto

lemma find_append_found: "find p xs = Some y \<Longrightarrow> find p (xs @ [x]) = Some y"
  by (induction xs) (auto split: if_splits)

lemma find_not_mem: "x \<notin> f ` set xs \<Longrightarrow> find (\<lambda>r. f r = x) xs = None"
  by (auto simp: find_None_iff)

lemma CreateProject_read:
  assumes "cipher_ok c" "CreateProject c p d = (Inr q, d')"
  shows "q = project_defaults p \<and> p_ID p \<notin> pw_id ` set (db_projects d) \<and> p_Name p \<notin> pw_name ` set (db_projects d)"
    "\<exists>row. db_projects d' = db_projects d @ [row] \<and> project_of_row c row
       = (project_defaults p)\<lparr>p_CreatedAt := from_unix_milli (unix_milli (p_CreatedAt p)),
                              p_UpdatedAt := from_unix_milli (unix_milli (p_UpdatedAt p))\<rparr>"
proof -
  have nm: "p_ID (project_defaults p) = p_ID p" "p_Name (project_defaults p) = p_Name p"
    by (simp_all add: project_defaults_def)
  show "q = project_defaults p \<and> p_ID p \<notin> pw_id ` set (db_projects d) \<and> p_Name p \<notin> pw_name ` set (db_projects d)"
    using assms by (auto simp: CreateProject_def Let_def nm split: if_splits)
  show "\<exists>row. db_projects d' = db_projects d @ [row] \<and> project_of_row c row
       = (project_defaults p)\<lparr>p_CreatedAt := from_unix_milli (unix_milli (p_CreatedAt p)),
                              p_UpdatedAt := from_unix_milli (unix_milli (p_UpdatedAt p))\<rparr>"
    using assms by (auto simp: CreateProject_def Let_def project_of_row_def project_defaults_def split: if_splits)
qed

lemma project_defaults_id: "provider_IsValid (p_Provider p) \<Longrightarrow> auth_type_IsValid (p_AuthType p) \<Longrightarrow> project_defaults p = p"
  by (auto simp: project_defaults_def provider_IsValid_def auth_type_IsValid_def)

text \<open>
  C25. Creating a project and finding it again: when \<^verbatim>\<open>POST /projects\<close> succeeds, the created project has
  the trimmed name of the request and valid enumerations, resolves by its id and by its name to the project the
  answer shows (secrets decrypted, time stamps at the precision of the store), and every other identifier that resolved before
  resolves as before. The name is assumed not to be spelt like a UUID.
\<close>
theorem created_project_resolves:
  assumes ok: "db_ok d" "cipher_ok c"
    and parse: "uuid_parse (TrimSpace (p_Name draft)) = None"
    and create: "projects_Create url_parse listRefs (CreateProject c) fresh now draft d = (Inr p, d')"
  shows "db_ok d' \<and> p_ID p = fresh \<and> p_Name p = TrimSpace (p_Name draft) \<and> p_Name p \<noteq> []
    \<and> p_AuthSecret p = p_AuthSecret draft \<and> provider_IsValid (p_Provider p) \<and> auth_type_IsValid (p_AuthType p)
    \<and> (\<forall>x. Resolve uuid_parse (GetProject c) (GetProjectByName c) x d'
         = (if uuid_parse x = Some fresh \<or> x = p_Name p
            then (Inr (p\<lparr>p_CreatedAt := trunc_ms now, p_UpdatedAt := trunc_ms now\<rparr>), d')
            else (fst (Resolve uuid_parse (GetProject c) (GetProjectByName c) x d), d')))"
proof -
  from create obtain n where n: "normalize url_parse listRefs draft = Inr n"
    and cr: "CreateProject c (n\<lparr>p_ID := fresh, p_CreatedAt := now, p_UpdatedAt := now\<rparr>) d = (Inr p, d')"
    by (auto simp: projects_Create_def as_app_def split: sum.splits prod.splits)
  define m where "m = n\<lparr>p_ID := fresh, p_CreatedAt := now, p_UpdatedAt := now\<rparr>"
  define q where "q = m\<lparr>p_CreatedAt := trunc_ms now, p_UpdatedAt := trunc_ms now\<rparr>"
  note f = normalize_fields [OF n]
  have m: "p_ID m = fresh" "p_Name m = TrimSpace (p_Name draft)" "p_Name m \<noteq> []" "p_AuthSecret m = p_AuthSecret draft"
    "provider_IsValid (p_Provider m)" "auth_type_IsValid (p_AuthType m)" "p_CreatedAt m = now" "p_UpdatedAt m = now"
    using f by (simp_all add: m_def)
  have def: "project_defaults m = m" by (rule project_defaults_id) (simp_all add: m)
  note cr = cr [folded m_def]
  note cp = CreateProject_read [OF ok(2) cr, unfolded def m(1) m(7) m(8)]
  from cp(1) have p: "p = m" and new: "fresh \<notin> pw_id ` set (db_projects d)" "p_Name m \<notin> pw_name ` set (db_projects d)" by simp_all
  from cp(2) obtain row where row: "db_projects d' = db_projects d @ [row]" "project_of_row c row = q"
    unfolding q_def trunc_ms_def by blast
  have key: "pw_id row = fresh" "pw_name row = p_Name m"
    using project_of_row_key [of c row] row(2) m(1) by (simp_all add: q_def)
  have get: "GetProject c i d' = (if i = fresh then (Inr q, d') else (fst (GetProject c i d), d'))" for i
    using new(1) row key
    by (cases "find (\<lambda>r. pw_id r = i) (db_projects d)")
      (auto simp: GetProject_def find_append_first find_append_found find_not_mem)
  have getn: "GetProjectByName c x d' = (if x = p_Name m then (Inr q, d') else (fst (GetProjectByName c x d), d'))" for x
    using new(2) row key
    by (cases "find (\<lambda>r. pw_name r = x) (db_projects d)")
      (auto simp: GetProjectByName_def find_append_first find_append_found find_not_mem)
  have st: "snd (GetProject c i d) = d" "snd (GetProjectByName c x d) = d" for i x
    by (simp_all add: GetProject_def GetProjectByName_def split: option.split)
  have "Resolve uuid_parse (GetProject c) (GetProjectByName c) x d'
         = (if uuid_parse x = Some fresh \<or> x = p_Name m then (Inr q, d')
            else (fst (Resolve uuid_parse (GetProject c) (GetProjectByName c) x d), d'))" for x
  proof (cases "uuid_parse x")
    case None
    with st(2) [of x] show ?thesis
      by (auto simp: Resolve_def getn split: sum.splits prod.splits)
  next
    case (Some i)
    with parse m(2) have "x \<noteq> p_Name m" by auto
    with Some st(1) [of i] st(2) [of x] show ?thesis
      by (auto simp: Resolve_def get getn split: sum.splits prod.splits)
  qed
  moreover have "db_ok d'" using CreateProject_ok [OF ok(1)] cr by (metis snd_conv)
  ultimately show ?thesis using m unfolding p q_def by simp
qed


definition sample_parse :: "string \<Rightarrow> uuid option" where
  "sample_parse s = (if s = ''u7'' then Some 7 else None)"

definition sample_draft :: project where
  "sample_draft =
     \<lparr>p_ID = 0, p_Name = '' demo '', p_RepoURL = ''git@github.com:o/r.git'', p_Provider = ProviderOther [],
      p_AuthType = AuthTypeOther [], p_AuthUser = [], p_AuthSecret = ''tok'', p_WebhookSecret = [], p_DefaultBranch = [],
      p_CreatedAt = 0, p_UpdatedAt = 0\<rparr>"

definition sample_created :: project where
  "sample_created =
     \<lparr>p_ID = 7, p_Name = ''demo'', p_RepoURL = ''git@github.com:o/r.git'', p_Provider = ProviderGithub,
      p_AuthType = AuthTypeToken, p_AuthUser = ''oauth2'', p_AuthSecret = ''tok'', p_WebhookSecret = [], p_DefaultBranch = ''main'',
      p_CreatedAt = 5000000, p_UpdatedAt = 5000000\<rparr>"

theorem created_project_resolves_witness:
  "case projects_Create (\<lambda>_. None) (\<lambda>_ _. Some ''main'') (CreateProject None) 7 5000000 sample_draft empty_db of
     (Inl _, _) \<Rightarrow> False
   | (Inr p, d') \<Rightarrow> p = sample_created
       \<and> Resolve sample_parse (GetProject None) (GetProjectByName None) ''u7'' d' = (Inr sample_created, d')
       \<and> Resolve sample_parse (GetProject None) (GetProjectByName None) ''demo'' d' = (Inr sample_created, d')"
proof -
  let ?c = "projects_Create (\<lambda>_. None) (\<lambda>_ _. Some ''main'') (CreateProject None) 7 5000000 sample_draft empty_db"
  have "case ?c of (Inl _, _) \<Rightarrow> False | (Inr p, _) \<Rightarrow> p = sample_created" by code_simp
  then obtain d' where c: "?c = (Inr sample_created, d')" by (cases ?c; cases "fst ?c") auto
  have "sample_parse (TrimSpace (p_Name sample_draft)) = None" by code_simp
  moreover have "cipher_ok None" by (simp add: cipher_ok_def)
  ultimately have r: "Resolve sample_parse (GetProject None) (GetProjectByName None) x d'
         = (if sample_parse x = Some 7 \<or> x = p_Name sample_created
            then (Inr (sample_created\<lparr>p_CreatedAt := trunc_ms 5000000, p_UpdatedAt := trunc_ms 5000000\<rparr>), d')
            else (fst (Resolve sample_parse (GetProject None) (GetProjectByName None) x empty_db), d'))" for x
    using created_project_resolves [where c = None and uuid_parse = sample_parse, OF empty_db_ok _ _ c] by simp
  have t: "sample_created\<lparr>p_CreatedAt := trunc_ms 5000000, p_UpdatedAt := trunc_ms 5000000\<rparr> = sample_created"
    "sample_parse ''u7'' = Some 7" "p_Name sample_created = ''demo''"
    by code_simp+
  show ?thesis using r [of "''u7''"] r [of "''demo''"] t c by simp
qed

text \<open>
  C26. Secret variables never leave the server: after a successful \<^verbatim>\<open>POST\<close> of a variable the answer and every later
  listing of the same scope show secret variables with an empty value, while the store itself returns the value that was
  posted, under the trimmed key, as the only variable of that key.
\<close>
theorem secret_values_stay_in_the_store:
  assumes "db_ok d" "cipher_ok c" "handler_set (SetVariable c) (Some req) projectID d = (Reply code v, d')"
  shows "db_ok d' \<and> code = 200 \<and> v_Key v = TrimSpace (vr_Key req) \<and> (v_Secret v \<longrightarrow> v_Value v = [])
    \<and> (\<exists>vs. handler_list (ListVariables c) projectID d' = (Reply 200 vs, d') \<and> v \<in> set vs
         \<and> (\<forall>w \<in> set vs. v_Secret w \<longrightarrow> v_Value w = []))
    \<and> (\<exists>vs. ListVariables c projectID d' = (Inr vs, d')
         \<and> (\<forall>w \<in> set vs. v_Key w = v_Key v \<longrightarrow> v_Value w = vr_Value req \<and> v_Secret w = vr_Secret req)
         \<and> (\<exists>w \<in> set vs. v_Key w = v_Key v))"
  using sqlite_variables.set_then_list [OF conjI [OF assms(1,2)] assms(3)] by blast

theorem secret_values_stay_in_the_store_witness:
  "case handler_set (SetVariable None) (Some \<lparr>vr_Key = '' TOKEN'', vr_Value = ''s3cret'', vr_Secret = True\<rparr>) None empty_db of
     (Failure _, _) \<Rightarrow> False
   | (Reply code v, d') \<Rightarrow> v = \<lparr>v_ProjectID = None, v_Key = ''TOKEN'', v_Value = [], v_Secret = True\<rparr>
       \<and> handler_list (ListVariables None) None d' = (Reply 200 [v], d')
       \<and> ListVariables None None d' = (Inr [v\<lparr>v_Value := ''s3cret''\<rparr>], d') \<and> db_ok d'"
proof -
  let ?r = "\<lparr>vr_Key = '' TOKEN'', vr_Value = ''s3cret'', vr_Secret = True\<rparr>"
  let ?c = "handler_set (SetVariable None) (Some ?r) None empty_db"
  have c: "case ?c of (Failure _, _) \<Rightarrow> False
   | (Reply code v, d') \<Rightarrow> v = \<lparr>v_ProjectID = None, v_Key = ''TOKEN'', v_Value = [], v_Secret = True\<rparr>
       \<and> handler_list (ListVariables None) None d' = (Reply 200 [v], d')
       \<and> ListVariables None None d' = (Inr [v\<lparr>v_Value := ''s3cret''\<rparr>], d')"
    by code_simp
  obtain x d' where x: "?c = (x, d')" by (metis surj_pair)
  with c obtain code v where v: "x = Reply code v" by (cases x) auto
  from secret_values_stay_in_the_store [OF empty_db_ok _ x [unfolded v]] have "db_ok d'" by (simp add: cipher_ok_def)
  with c show ?thesis unfolding x v by simp
qed

lemma UpdateProject_get:
  assumes "cipher_ok c" "UpdateProject c p d = (Inr q, d')"
  shows "q = p"
    "GetProject c (p_ID p) d = (Inr old, d) \<Longrightarrow>
       GetProject c (p_ID p) d' = (Inr (p\<lparr>p_CreatedAt := p_CreatedAt old, p_UpdatedAt := trunc_ms (p_UpdatedAt p)\<rparr>), d')"
    "j \<noteq> p_ID p \<Longrightarrow> GetProject c j d' = (fst (GetProject c j d), d')"
proof -
  let ?set = "\<lambda>r. r\<lparr>pw_name := p_Name p, pw_repo_url := p_RepoURL p, pw_provider := p_Provider p,
      pw_auth_type := p_AuthType p, pw_auth_user := p_AuthUser p, pw_auth_secret := encrypt c (p_AuthSecret p),
      pw_webhook_secret := encrypt c (p_WebhookSecret p), pw_default_branch := p_DefaultBranch p,
      pw_updated_at := unix_milli (p_UpdatedAt p)\<rparr>"
  from assms have d': "d' = d\<lparr>db_projects := update_rows (\<lambda>r. pw_id r = p_ID p) ?set (db_projects d)\<rparr>" and q: "q = p"
    by (auto simp: UpdateProject_def Let_def split: if_splits)
  show "q = p" by (rule q)
  have find: "find (\<lambda>r. pw_id r = j) (update_rows (\<lambda>r. pw_id r = p_ID p) ?set rows)
      = (if j = p_ID p then map_option ?set (find (\<lambda>r. pw_id r = j) rows) else find (\<lambda>r. pw_id r = j) rows)" for j rows
    by (induction rows) (auto simp: update_rows_def)
  show "GetProject c (p_ID p) d' = (Inr (p\<lparr>p_CreatedAt := p_CreatedAt old, p_UpdatedAt := trunc_ms (p_UpdatedAt p)\<rparr>), d')"
    if "GetProject c (p_ID p) d = (Inr old, d)"
  proof -
    from that obtain row where row: "find (\<lambda>r. pw_id r = p_ID p) (db_projects d) = Some row" "old = project_of_row c row"
      by (auto simp: GetProject_def split: option.splits)
    from find_SomeD [OF row(1)] have "pw_id row = p_ID p" by simp
    then have "project_of_row c (?set row) = p\<lparr>p_CreatedAt := p_CreatedAt old, p_UpdatedAt := trunc_ms (p_UpdatedAt p)\<rparr>"
      by (intro project.equality) (simp_all add: row(2) project_of_row_def decrypt_encrypt [OF assms(1)])
    with row(1) show ?thesis by (simp add: GetProject_def d' find)
  qed
  show "GetProject c j d' = (fst (GetProject c j d), d')" if "j \<noteq> p_ID p"
    using that by (simp add: GetProject_def d' find split: option.split)
qed

text \<open>
  Updating a project: \<^verbatim>\<open>PATCH\<close> replaces the fields the request gives and keeps the ones it leaves
  out, the stored secrets among them; the id and the creation time never change, the enumerations stay valid, and no other
  project is touched. A rejected update changes nothing.
\<close>
theorem updated_project_keeps_omitted_fields:
  assumes ok: "db_ok d" "cipher_ok c" and old: "GetProject c i d = (Inr old, d)"
    and update: "handler_update (\<lambda>s. (Inr old, s)) (projects_Update url_parse listRefs (UpdateProject c) now) (Some q) d = (r, d')"
  shows "db_ok d' \<and> (case r of
      Failure code \<Rightarrow> d' = d
    | Reply code p \<Rightarrow> code = 200 \<and> GetProject c i d' = (Inr (p\<lparr>p_CreatedAt := p_CreatedAt old, p_UpdatedAt := trunc_ms now\<rparr>), d')
        \<and> p_ID p = i
        \<and> p_AuthSecret p = (if qr_AuthSecret q \<noteq> [] then qr_AuthSecret q else p_AuthSecret old)
        \<and> p_WebhookSecret p = (if qr_WebhookSecret q \<noteq> [] then qr_WebhookSecret q else p_WebhookSecret old)
        \<and> p_Name p = TrimSpace (if qr_Name q \<noteq> [] then qr_Name q else p_Name old)
        \<and> p_RepoURL p = TrimSpace (if qr_RepoURL q \<noteq> [] then qr_RepoURL q else p_RepoURL old)
        \<and> provider_IsValid (p_Provider p) \<and> auth_type_IsValid (p_AuthType p)
        \<and> (\<forall>j. j \<noteq> i \<longrightarrow> GetProject c j d' = (fst (GetProject c j d), d')))"
proof -
  from old obtain row where row: "find (\<lambda>r. pw_id r = i) (db_projects d) = Some row" "old = project_of_row c row"
    by (auto simp: GetProject_def split: option.splits)
  from find_SomeD [OF row(1)] have mem: "row \<in> set (db_projects d)" "pw_id row = i" by auto
  show ?thesis
  proof (cases "normalize url_parse listRefs (patch q old)")
    case (Inl e)
    with update have "r = Failure (storeError e) \<and> d' = d"
      by (simp add: handler_update_def with_project_def projects_Update_def reply_error_def)
    with ok show ?thesis by simp
  next
    case (Inr n)
    note f = normalize_fields [OF Inr]
    define m where "m = n\<lparr>p_UpdatedAt := now\<rparr>"
    have id: "p_ID n = i" "p_ID m = i" using f mem row(2) by (simp_all add: m_def patch_def)
    from update Inr have up: "(case as_app (UpdateProject c m d) of (r, s') \<Rightarrow> (reply_error r 200, s')) = (r, d')"
      by (simp add: handler_update_def with_project_def projects_Update_def m_def)
    show ?thesis
    proof (cases "UpdateProject c m d")
      case (Pair x d1)
      show ?thesis
      proof (cases x)
        case (Inl e)
        with Pair have "d1 = d" by (auto simp: UpdateProject_def Let_def split: if_splits)
        with up Pair Inl ok(1) show ?thesis by (auto simp: as_app_def reply_error_def)
      next
        case (Inr p)
        from up Pair Inr have r: "r = Reply 200 p" "d' = d1" by (auto simp: as_app_def reply_error_def)
        note g = UpdateProject_get [OF ok(2) Pair [unfolded Inr] , unfolded id]
        have p: "p = m" by (rule g(1))
        have "GetProject c i d1 = (Inr (p\<lparr>p_CreatedAt := p_CreatedAt old, p_UpdatedAt := trunc_ms now\<rparr>), d1)"
          using g(2) [OF old] by (simp add: p m_def)
        moreover have "db_ok d1" using UpdateProject_ok [OF ok(1), of c m] Pair by simp
        ultimately show ?thesis using f id g(3) unfolding r p by (simp add: m_def patch_def)
      qed
    qed
  qed
qed

theorem updated_project_keeps_omitted_fields_witness:
  "case handler_update (\<lambda>s. (Inr sample_created, s)) (projects_Update (\<lambda>_. None) (\<lambda>_ _. None) (UpdateProject None) 9000000)
          (Some \<lparr>qr_Name = ''renamed'', qr_RepoURL = [], qr_Provider = ProviderOther [], qr_AuthType = AuthTypeOther [],
                 qr_AuthUser = [], qr_AuthSecret = [], qr_WebhookSecret = [], qr_DefaultBranch = []\<rparr>)
          (snd (CreateProject None sample_created empty_db)) of
     (Failure _, _) \<Rightarrow> False
   | (Reply _ p, d') \<Rightarrow> p_Name p = ''renamed'' \<and> p_AuthSecret p = ''tok'' \<and> db_ok d'"
proof -
  let ?q = "\<lparr>qr_Name = ''renamed'', qr_RepoURL = [], qr_Provider = ProviderOther [], qr_AuthType = AuthTypeOther [],
                      qr_AuthUser = [], qr_AuthSecret = [], qr_WebhookSecret = [], qr_DefaultBranch = []\<rparr>"
  let ?d = "snd (CreateProject None sample_created empty_db)"
  let ?u = "handler_update (\<lambda>s. (Inr sample_created, s)) (projects_Update (\<lambda>_. None) (\<lambda>_ _. None) (UpdateProject None) 9000000)
               (Some ?q) ?d"
  have c: "fst (GetProject None 7 ?d) = Inr sample_created"
    "case ?u of (Failure _, _) \<Rightarrow> False
        | (Reply _ p, d') \<Rightarrow> p_Name p = ''renamed'' \<and> p_AuthSecret p = ''tok''"
    by code_simp+
  obtain r d' where u: "?u = (r, d')" by (metis surj_pair)
  have "db_ok ?d" by (rule CreateProject_ok [OF empty_db_ok])
  moreover have "GetProject None 7 ?d = (Inr sample_created, ?d)"
    using c(1) by (simp add: GetProject_def split: option.splits)
  ultimately have "db_ok d'"
    using updated_project_keeps_omitted_fields [where c = None, OF _ _ _ u] by (simp add: cipher_ok_def)
  with c(2) show ?thesis unfolding u by (cases r) simp_all
qed

end
