(* ===== verification/Workspace.thy ===== *)
theory Workspace
  imports Models Paths "HOL-Library.Char_ord" "HOL-Library.List_Lexorder"
begin

text \<open>
  The layout of the two directory trees the server writes to: \<^verbatim>\<open>internal/workspace/workspace.go\<close>.
  The file system is a parameter where the code asks it (\<open>exists\<close>, \<open>readDir\<close>). \<open>Source\<close> works on
  the bytes of a step name: one underscore for a rune that is not allowed, so the continuation bytes of
  UTF-8 produce nothing.

  The lemmas show that distinct objects have distinct paths below the roots, and that the
  source of a log line is recovered from the name of its file.
\<close>

section \<open>Paths\<close>

record workspace =
  ws_root :: string
  ws_logsRoot :: string

text \<open>\<^verbatim>\<open>fmt.Sprintf("%03d", i)\<close>\<close>

definition pad3 :: "int \<Rightarrow> string" where
  "pad3 i =
     (if i < 0 then CHR ''-'' # replicate (2 - length (nat_digits (nat (- i)))) (CHR ''0'') @ nat_digits (nat (- i))
      else replicate (3 - length (nat_digits (nat i))) (CHR ''0'') @ nat_digits (nat i))"

definition RepoDir :: "workspace \<Rightarrow> uuid \<Rightarrow> int \<Rightarrow> string" where
  "RepoDir w projectID workspaceID = Join [ws_root w, uuid_String projectID, itoa workspaceID]"

definition DiscoveryDir :: "workspace \<Rightarrow> uuid \<Rightarrow> string" where
  "DiscoveryDir w projectID = Join [ws_root w, uuid_String projectID, ''_discovery'']"

definition UploadsDir :: "workspace \<Rightarrow> uuid \<Rightarrow> string" where
  "UploadsDir w projectID = Join [ws_root w, ''uploads'', uuid_String projectID]"

definition Snapshot :: "workspace \<Rightarrow> uuid \<Rightarrow> uuid \<Rightarrow> string" where
  "Snapshot w projectID snapshotID = Join [UploadsDir w projectID, uuid_String snapshotID @ ''.tar.gz'']"

definition ArtifactDir :: "workspace \<Rightarrow> uuid \<Rightarrow> int \<Rightarrow> string" where
  "ArtifactDir w projectID execID = Join [ws_root w, ''artifacts'', uuid_String projectID, itoa execID]"

definition StepArtifacts :: "workspace \<Rightarrow> uuid \<Rightarrow> int \<Rightarrow> int \<Rightarrow> string" where
  "StepArtifacts w projectID execID index = Join [ArtifactDir w projectID execID, pad3 index]"

definition StepManifest :: "workspace \<Rightarrow> uuid \<Rightarrow> int \<Rightarrow> int \<Rightarrow> string" where
  "StepManifest w projectID execID index = Join [ArtifactDir w projectID execID, pad3 index @ ''.json'']"

definition LogDir :: "workspace \<Rightarrow> uuid \<Rightarrow> int \<Rightarrow> string" where
  "LogDir w projectID execID = Join [ws_logsRoot w, uuid_String projectID, itoa execID]"

definition SetupLog :: "workspace \<Rightarrow> uuid \<Rightarrow> int \<Rightarrow> string" where
  "SetupLog w projectID execID = Join [LogDir w projectID execID, ''setup.log'']"

definition safe_byte :: "char \<Rightarrow> bool" where
  "safe_byte c \<longleftrightarrow>
     (let n = (of_char c :: nat)
      in 97 \<le> n \<and> n \<le> 122 \<or> 65 \<le> n \<and> n \<le> 90 \<or> 48 \<le> n \<and> n \<le> 57 \<or> n = 45 \<or> n = 95)"

definition Source :: "string \<Rightarrow> string" where
  "Source step =
     concat (map (\<lambda>c. if safe_byte c then [c]
                      else if 128 \<le> (of_char c :: nat) \<and> (of_char c :: nat) < 192 then []
                      else [CHR ''_'']) step)"

definition StepLog :: "workspace \<Rightarrow> uuid \<Rightarrow> int \<Rightarrow> int \<Rightarrow> string \<Rightarrow> string" where
  "StepLog w projectID execID index step =
     Join [LogDir w projectID execID, ''steps'', pad3 index @ ''_'' @ Source step @ ''.log'']"

text \<open>\<open>readDir\<close> lists the names of a directory with whether each is a directory.\<close>

definition LogPaths ::
  "(string \<Rightarrow> bool) \<Rightarrow> (string \<Rightarrow> (string \<times> bool) list option) \<Rightarrow> workspace \<Rightarrow> uuid \<Rightarrow> int \<Rightarrow> string list" where
  "LogPaths exists readDir w projectID execID =
     (let setup = SetupLog w projectID execID;
          out = (if exists setup then [setup] else []);
          stepsDir = Join [LogDir w projectID execID, ''steps'']
      in case readDir stepsDir of
           None \<Rightarrow> out
         | Some entries \<Rightarrow>
             out @ sort (map (\<lambda>e. Join [stepsDir, fst e])
                          (filter (\<lambda>e. \<not> snd e \<and> HasSuffix (fst e) ''.log'') entries)))"

definition LogSource :: "string \<Rightarrow> string" where
  "LogSource path =
     (let base = Base path
      in if base = ''setup.log'' then ''setup''
         else (let name = TrimSuffix base ''.log''
               in case IndexByte name (CHR ''_'') of
                    Some idx \<Rightarrow> drop (idx + 1) name
                  | None \<Rightarrow> name))"

text \<open>Every readable log, one after the other.\<close>

definition ReadLogs ::
  "(string \<Rightarrow> bool) \<Rightarrow> (string \<Rightarrow> (string \<times> bool) list option) \<Rightarrow> (string \<Rightarrow> string option) \<Rightarrow> workspace \<Rightarrow> uuid \<Rightarrow> int \<Rightarrow> string" where
  "ReadLogs exists readDir openFile w projectID execID =
     concat (map (\<lambda>p. case openFile p of None \<Rightarrow> [] | Some content \<Rightarrow> content)
               (LogPaths exists readDir w projectID execID))"

section \<open>Components are plain names\<close>

definition hex_or_dash :: "char \<Rightarrow> bool" where
  "hex_or_dash c \<longleftrightarrow>
     (let n = (of_char c :: nat) in 48 \<le> n \<and> n \<le> 57 \<or> 97 \<le> n \<and> n \<le> 102 \<or> n = 45)"

lemma hex_digit_char: "n < 16 \<Longrightarrow> hex_or_dash (hex_digit n)"
  by (auto simp: hex_or_dash_def hex_digit_def of_char_of)

lemma uuid_String_chars: "c \<in> set (uuid_String u) \<Longrightarrow> hex_or_dash c"
proof -
  have "hex_or_dash c" if "c \<in> set (uuid_hex u)" for c
    using that hex_digit_char nibble_less by (auto simp: uuid_hex_def)
  moreover assume "c \<in> set (uuid_String u)"
  then have "c \<in> set (uuid_hex u) \<or> c = CHR ''-''"
    by (auto simp: uuid_String_def Let_def dest!: in_set_takeD in_set_dropD)
  ultimately show ?thesis by (auto simp: hex_or_dash_def)
qed

lemma uuid_String_not_Nil [simp]: "uuid_String u \<noteq> []"
  using length_uuid_String [of u] by (cases "uuid_String u") simp_all

lemma plain_uuid [simp]: "plain (uuid_String u)"
proof -
  have "CHR ''/'' \<notin> set (uuid_String u)" "CHR ''.'' \<notin> set (uuid_String u)"
    using uuid_String_chars [of "CHR ''/''" u] uuid_String_chars [of "CHR ''.''" u] by (auto simp: hex_or_dash_def)
  then show ?thesis using uuid_String_not_Nil [of u] by (auto simp: plain_def)
qed

lemma itoa_chars: "c \<in> set (itoa i) \<Longrightarrow> c = CHR ''-'' \<or> 48 \<le> (of_char c :: nat) \<and> (of_char c :: nat) \<le> 57"
  using nat_digits_range by (auto simp: itoa_def split: if_splits)

lemma plain_itoa [simp]: "plain (itoa i)"
proof -
  have "CHR ''.'' \<notin> set (itoa i)" using itoa_chars [of "CHR ''.''" i] by auto
  then show ?thesis using itoa_no_slash [of i] itoa_not_Nil [of i] by (auto simp: plain_def)
qed

lemma pad3_chars: "c \<in> set (pad3 i) \<Longrightarrow> c = CHR ''-'' \<or> 48 \<le> (of_char c :: nat) \<and> (of_char c :: nat) \<le> 57"
  using nat_digits_range by (auto simp: pad3_def split: if_splits)

lemma pad3_not: "CHR ''/'' \<notin> set (pad3 i)" "CHR ''.'' \<notin> set (pad3 i)" "CHR ''_'' \<notin> set (pad3 i)"
  using pad3_chars [of "CHR ''/''" i] pad3_chars [of "CHR ''.''" i] pad3_chars [of "CHR ''_''" i] by auto

lemma pad3_not_Nil [simp]: "pad3 i \<noteq> []"
  by (simp add: pad3_def)

lemma Source_chars: "c \<in> set (Source step) \<Longrightarrow> safe_byte c"
  by (auto simp: Source_def safe_byte_def split: if_splits)

lemma plain_log_name: "plain (pad3 i @ CHR ''_'' # Source step @ ''.log'')"
proof -
  have "\<not> safe_byte (CHR ''/'')" by (simp add: safe_byte_def)
  then have "CHR ''/'' \<notin> set (Source step)" using Source_chars by blast
  moreover have "pad3 i @ CHR ''_'' # Source step @ ''.log'' \<noteq> ''.''"
    "pad3 i @ CHR ''_'' # Source step @ ''.log'' \<noteq> ''..''"
    using pad3_not(2) [of i] by (auto simp: append_eq_Cons_conv)
  ultimately show ?thesis using pad3_not [of i] by (simp add: plain_def)
qed

text \<open>A root given as an absolute clean path.\<close>

definition rooted :: "string \<Rightarrow> string list \<Rightarrow> bool" where
  "rooted root ps \<longleftrightarrow> (\<forall>p \<in> set ps. plain p) \<and> root = render_path True ps"

lemma plain_consts [simp]:
  "plain ''uploads''" "plain ''artifacts''" "plain ''steps''" "plain ''setup.log''" "plain ''_discovery''"
  by (simp_all add: plain_def)

lemma plain_suffixed: "plain (uuid_String u @ ''.tar.gz'')" "plain (pad3 i)" "plain (pad3 i @ ''.json'')"
  using plain_uuid [of u] pad3_not [of i] by (auto simp: plain_def append_eq_Cons_conv)

lemma workspace_renders:
  assumes "rooted (ws_root w) ps"
  shows "RepoDir w p i = render_path True (ps @ [uuid_String p, itoa i])"
    "DiscoveryDir w p = render_path True (ps @ [uuid_String p, ''_discovery''])"
    "UploadsDir w p = render_path True (ps @ [''uploads'', uuid_String p])"
    "Snapshot w p s = render_path True (ps @ [''uploads'', uuid_String p, uuid_String s @ ''.tar.gz''])"
    "ArtifactDir w p i = render_path True (ps @ [''artifacts'', uuid_String p, itoa i])"
    "StepArtifacts w p i n = render_path True (ps @ [''artifacts'', uuid_String p, itoa i, pad3 n])"
    "StepManifest w p i n = render_path True (ps @ [''artifacts'', uuid_String p, itoa i, pad3 n @ ''.json''])"
proof -
  have ps: "\<forall>p \<in> set ps. plain p" and root: "ws_root w = render_path True ps" using assms by (auto simp: rooted_def)
  note j = Join_render_plain
  show r: "RepoDir w p i = render_path True (ps @ [uuid_String p, itoa i])"
    "DiscoveryDir w p = render_path True (ps @ [uuid_String p, ''_discovery''])"
    by (simp_all add: RepoDir_def DiscoveryDir_def root j ps)
  show up: "UploadsDir w p = render_path True (ps @ [''uploads'', uuid_String p])"
    and art: "ArtifactDir w p i = render_path True (ps @ [''artifacts'', uuid_String p, itoa i])"
    by (simp_all add: UploadsDir_def ArtifactDir_def root j ps)
  show "Snapshot w p s = render_path True (ps @ [''uploads'', uuid_String p, uuid_String s @ ''.tar.gz''])"
    unfolding Snapshot_def up by (subst j) (use ps in \<open>auto simp: plain_suffixed\<close>)
  show "StepArtifacts w p i n = render_path True (ps @ [''artifacts'', uuid_String p, itoa i, pad3 n])"
    unfolding StepArtifacts_def art by (subst j) (use ps in \<open>auto simp: plain_suffixed\<close>)
  show "StepManifest w p i n = render_path True (ps @ [''artifacts'', uuid_String p, itoa i, pad3 n @ ''.json''])"
    unfolding StepManifest_def art by (subst j) (use ps in \<open>auto simp: plain_suffixed\<close>)
qed

lemma log_renders:
  assumes "rooted (ws_logsRoot w) ps"
  shows "LogDir w p i = render_path True (ps @ [uuid_String p, itoa i])"
    "SetupLog w p i = render_path True (ps @ [uuid_String p, itoa i, ''setup.log''])"
    "StepLog w p i n s = render_path True (ps @ [uuid_String p, itoa i, ''steps'', pad3 n @ CHR ''_'' # Source s @ ''.log''])"
proof -
  have ps: "\<forall>p \<in> set ps. plain p" and root: "ws_logsRoot w = render_path True ps" using assms by (auto simp: rooted_def)
  show l: "LogDir w p i = render_path True (ps @ [uuid_String p, itoa i])"
    by (simp add: LogDir_def root Join_render_plain ps)
  show "SetupLog w p i = render_path True (ps @ [uuid_String p, itoa i, ''setup.log''])"
    unfolding SetupLog_def l by (subst Join_render_plain) (use ps in auto)
  show "StepLog w p i n s = render_path True (ps @ [uuid_String p, itoa i, ''steps'', pad3 n @ CHR ''_'' # Source s @ ''.log''])"
    unfolding StepLog_def l by (subst Join_render_plain) (use ps plain_log_name in auto)
qed

text \<open>Padding loses nothing.\<close>

lemma pad3_inj: "0 \<le> i \<Longrightarrow> 0 \<le> j \<Longrightarrow> pad3 i = pad3 j \<Longrightarrow> i = j"
proof -
  have val: "digits_value 0 (pad3 k) = nat k" if "0 \<le> k" for k
    using that by (simp add: pad3_def digits_value_zeros digits_value_digits)
  assume "0 \<le> i" "0 \<le> j" and eq: "pad3 i = pad3 j"
  with val [of i] val [of j] have "nat i = nat j" by metis
  with \<open>0 \<le> i\<close> \<open>0 \<le> j\<close> show "i = j" by simp
qed

section \<open>Distinct objects, distinct paths\<close>

lemma uuid_not_name [simp]:
  "uuid_String p \<noteq> ''uploads''" "uuid_String p \<noteq> ''artifacts''" "''uploads'' \<noteq> uuid_String p" "''artifacts'' \<noteq> uuid_String p"
proof -
  have "uuid_String p \<noteq> w" if "length w < 36" for w using length_uuid_String [of p] that by auto
  from this [of "''uploads''"] this [of "''artifacts''"]
  show "uuid_String p \<noteq> ''uploads''" "uuid_String p \<noteq> ''artifacts''" "''uploads'' \<noteq> uuid_String p" "''artifacts'' \<noteq> uuid_String p"
    by (auto simp del: length_uuid_String)
qed

lemma itoa_eq_iff [simp]: "itoa i = itoa j \<longleftrightarrow> i = j"
  using itoa_inj by blast

lemma itoa_not_discovery [simp]: "itoa i \<noteq> ''_discovery''" "''_discovery'' \<noteq> itoa i"
proof -
  have "CHR ''_'' \<notin> set (itoa i)" using itoa_chars [of "CHR ''_''" i] by auto
  then have "itoa i \<noteq> ''_discovery''" by (metis list.set_intros(1))
  then show "itoa i \<noteq> ''_discovery''" "''_discovery'' \<noteq> itoa i" by metis+
qed

lemma render_eq_iff:
  "\<forall>w \<in> set us. plain w \<Longrightarrow> \<forall>w \<in> set vs. plain w \<Longrightarrow> render_path True us = render_path True vs \<longleftrightarrow> us = vs"
  using render_path_inj by blast

text \<open>
  Layout: the workspace of an execution is a directory of its own. No other workspace, discovery
  clone, snapshot or artifact directory is equal to it or lies inside it, so removing it removes
  nothing else; and all of them lie below the configured root.
\<close>

theorem workspace_paths_disjoint:
  assumes "rooted (ws_root w) ps" "ps \<noteq> []"
  shows "(\<forall>path \<in> {RepoDir w q j, DiscoveryDir w q, Snapshot w q s, ArtifactDir w q j, StepArtifacts w q j n, StepManifest w q j n}.
           HasPrefix path (ws_root w @ ''/'')
           \<and> (path = RepoDir w p i \<or> HasPrefix path (RepoDir w p i @ ''/'')
              \<longrightarrow> path = RepoDir w q j \<and> p = q \<and> i = j))
    \<and> (ArtifactDir w p i = ArtifactDir w q j \<longleftrightarrow> p = q \<and> i = j)
    \<and> (Snapshot w p r = Snapshot w q s \<longleftrightarrow> p = q \<and> r = s)"
proof -
  have ps: "\<forall>p \<in> set ps. plain p" and root: "ws_root w = render_path True ps" using assms by (auto simp: rooted_def)
  note paths = workspace_renders [OF assms(1)]
  have below: "HasPrefix (render_path True (ps @ qs)) (render_path True ps @ ''/'')" if "\<forall>q \<in> set qs. plain q" "qs \<noteq> []" for qs
    using HasPrefix_render [OF ps assms(2), of "ps @ qs"] ps that by auto
  have inside: "HasPrefix (render_path True (ps @ qs)) (render_path True (ps @ [uuid_String p, itoa i]) @ ''/'')
      \<longleftrightarrow> (\<exists>rs. rs \<noteq> [] \<and> qs = uuid_String p # itoa i # rs)" if "\<forall>q \<in> set qs. plain q" for qs
    using HasPrefix_render [of "ps @ [uuid_String p, itoa i]" "ps @ qs"] ps that by auto
  have eq: "render_path True (ps @ us) = render_path True (ps @ vs) \<longleftrightarrow> us = vs"
    if "\<forall>w \<in> set us. plain w" "\<forall>w \<in> set vs. plain w" for us vs
    using render_eq_iff [of "ps @ us" "ps @ vs"] ps that by auto
  show ?thesis
    unfolding paths root by (auto simp: below inside eq plain_suffixed)
qed

theorem workspace_paths_disjoint_witness:
  "RepoDir \<lparr>ws_root = ''/data'', ws_logsRoot = ''/logs''\<rparr> 1 7 \<noteq> RepoDir \<lparr>ws_root = ''/data'', ws_logsRoot = ''/logs''\<rparr> 1 8
   \<and> HasPrefix (RepoDir \<lparr>ws_root = ''/data'', ws_logsRoot = ''/logs''\<rparr> 1 7) ''/data/''"
proof -
  have "rooted (ws_root \<lparr>ws_root = ''/data'', ws_logsRoot = ''/logs''\<rparr>) [''data'']"
    by (simp add: rooted_def plain_def render_path_def)
  from workspace_paths_disjoint [OF this, where p = 1 and i = 8 and q = 1 and j = 7] show ?thesis by auto
qed

text \<open>
  Log sources: the source under which a log file is streamed is the one its step was logged under, and
  files of different steps of an attempt differ even when their names collapse to the same spelling.
\<close>

theorem LogSource_StepLog:
  assumes "rooted (ws_logsRoot w) ps"
  shows "LogSource (StepLog w p e i step) = Source step \<and> LogSource (SetupLog w p e) = ''setup''
    \<and> (0 \<le> i \<longrightarrow> 0 \<le> j \<longrightarrow> i \<noteq> j \<longrightarrow> StepLog w p e i step \<noteq> StepLog w p e j step')"
proof -
  have ps: "\<forall>p \<in> set ps. plain p" using assms by (auto simp: rooted_def)
  note paths = log_renders [OF assms]
  let ?name = "pad3 i @ CHR ''_'' # Source step @ ''.log''"
  have "Base (StepLog w p e i step) = ?name"
    using Base_render [of "ps @ [uuid_String p, itoa e, ''steps'']" ?name] ps plain_log_name by (simp add: paths(3))
  moreover have "Base (SetupLog w p e) = ''setup.log''"
    using Base_render [of "ps @ [uuid_String p, itoa e]" "''setup.log''"] ps by (simp add: paths(2))
  moreover have "?name \<noteq> ''setup.log''"
  proof
    assume "?name = ''setup.log''"
    then have "CHR ''_'' \<in> set ''setup.log''" by (metis in_set_conv_decomp)
    then show False by simp
  qed
  moreover have "TrimSuffix ?name ''.log'' = pad3 i @ CHR ''_'' # Source step"
    by (simp add: TrimSuffix_def suffix_def)
  moreover have "IndexByte (pad3 i @ CHR ''_'' # Source step) (CHR ''_'') = Some (length (pad3 i))"
    using pad3_not(3) by (simp add: IndexByte_Some)
  moreover have "StepLog w p e i step \<noteq> StepLog w p e j step'" if "pad3 i \<noteq> pad3 j"
  proof
    assume "StepLog w p e i step = StepLog w p e j step'"
    then have "?name = pad3 j @ CHR ''_'' # Source step' @ ''.log''"
      using render_eq_iff [of "ps @ [uuid_String p, itoa e, ''steps'', ?name]"
          "ps @ [uuid_String p, itoa e, ''steps'', pad3 j @ CHR ''_'' # Source step' @ ''.log'']"] ps plain_log_name
      by (auto simp: paths(3))
    then have "takeWhile (\<lambda>c. c \<noteq> CHR ''_'') ?name = takeWhile (\<lambda>c. c \<noteq> CHR ''_'') (pad3 j @ CHR ''_'' # Source step' @ ''.log'')"
      by (rule arg_cong)
    moreover have "takeWhile (\<lambda>c. c \<noteq> CHR ''_'') (pad3 k @ CHR ''_'' # t) = pad3 k" for k t
      by (subst takeWhile_append2) (use pad3_not(3) [of k] in auto)
    ultimately show False using that by simp
  qed
  ultimately show ?thesis using pad3_inj [of i j] by (auto simp: LogSource_def Let_def)
qed

theorem LogSource_StepLog_witness:
  "LogSource (StepLog \<lparr>ws_root = ''/data'', ws_logsRoot = ''/logs''\<rparr> 1 7 0 ''unit tests'') = ''unit_tests''"
proof -
  have "rooted (ws_logsRoot \<lparr>ws_root = ''/data'', ws_logsRoot = ''/logs''\<rparr>) [''logs'']"
    by (simp add: rooted_def plain_def render_path_def)
  moreover have "Source ''unit tests'' = ''unit_tests''" by code_simp
  ultimately show ?thesis using LogSource_StepLog by metis
qed

end
