(* ===== verification/Executions.thy ===== *)
theory Executions
  imports AppProjects SqliteQueue Workspace
begin

text \<open>
  Queuing, retrying and cancelling executions: \<^verbatim>\<open>Enqueue\<close> and its variants in \<^verbatim>\<open>internal/ci/runner.go\<close>, the
  module \<^verbatim>\<open>internal/app/executions/executions.go\<close>, and the handlers of \<^verbatim>\<open>internal/handlers/executions.go\<close> with
  \<^verbatim>\<open>internal/handlers/bind/bind.go\<close>. The store operations are the fields of \<open>execution_store\<close>. The directory test,
  the file operations of an upload and the in-process cancellation are parameters. A JSON body is given as decoded,
  a multipart form as its fields.

  The lemmas give the exact conditions of a retry and what it stores, the numbering of attempts and rebuilds,
  and show that an upload is kept exactly when its run is queued.
\<close>

section \<open>Queuing\<close>

record 's execution_store =
  es_GetExecutionAttempt :: "uuid \<Rightarrow> int \<Rightarrow> int \<Rightarrow> ('s, execution) db_op"
  es_ListAttempts :: "uuid \<Rightarrow> int \<Rightarrow> ('s, execution list) db_op"
  es_ListExecutions :: "uuid \<Rightarrow> int \<Rightarrow> ('s, execution list) db_op"
  es_SetCancelRequested :: "uuid \<Rightarrow> int \<Rightarrow> ('s, unit) db_op"
  es_CreateExecution :: "execution \<Rightarrow> ('s, execution) db_op"
  es_WorkspaceBusy :: "uuid \<Rightarrow> int \<Rightarrow> ('s, bool) db_op"

datatype enqueue_error = EnqNotRetryable string | EnqWorkspaceGone string | EnqStore store_error

type_synonym ('s, 'a) enqueue_op = "'s \<Rightarrow> (enqueue_error + 'a) \<times> 's"

definition enqueue :: "'s execution_store \<Rightarrow> execution \<Rightarrow> ('s, execution) enqueue_op" where
  "enqueue es exec s =
     (case es_CreateExecution es (if e_Status exec = StatusUnset then exec\<lparr>e_Status := StatusPending\<rparr> else exec) s of
        (Inl e, s') \<Rightarrow> (Inl (EnqStore e), s')
      | (Inr created, s') \<Rightarrow> (Inr created, s'))"

definition Enqueue ::
  "'s execution_store \<Rightarrow> go_time \<Rightarrow> project \<Rightarrow> string \<Rightarrow> string \<Rightarrow> string \<Rightarrow> trigger \<Rightarrow> uuid option \<Rightarrow> ('s, execution) enqueue_op" where
  "Enqueue es now project workflow ref commitSHA trig createdBy =
     enqueue es (Execution0\<lparr>e_ProjectID := p_ID project, e_Project := p_Name project, e_Workflow := workflow, e_Ref := ref,
                            e_CommitSHA := commitSHA, e_Trigger := trig, e_Source := SourceGit, e_CreatedAt := now,
                            e_CreatedBy := createdBy\<rparr>)"

definition EnqueueSnapshot ::
  "'s execution_store \<Rightarrow> go_time \<Rightarrow> project \<Rightarrow> string \<Rightarrow> string \<Rightarrow> string \<Rightarrow> uuid \<Rightarrow> uuid option \<Rightarrow> ('s, execution) enqueue_op" where
  "EnqueueSnapshot es now project workflow ref commitSHA snapshotID createdBy =
     enqueue es (Execution0\<lparr>e_ProjectID := p_ID project, e_Project := p_Name project, e_Workflow := workflow, e_Ref := ref,
                            e_CommitSHA := commitSHA, e_Trigger := TriggerManual, e_Source := SourceSnapshot,
                            e_SnapshotID := Some snapshotID, e_CreatedAt := now, e_CreatedBy := createdBy\<rparr>)"

definition EnqueueRebuild ::
  "'s execution_store \<Rightarrow> go_time \<Rightarrow> project \<Rightarrow> execution \<Rightarrow> uuid option \<Rightarrow> ('s, execution) enqueue_op" where
  "EnqueueRebuild es now project previous createdBy =
     enqueue es (Execution0\<lparr>e_ProjectID := p_ID project, e_Project := p_Name project, e_Workflow := e_Workflow previous,
                            e_Ref := e_Ref previous, e_CommitSHA := e_CommitSHA previous, e_Trigger := TriggerRebuild,
                            e_Source := SourceGit, e_ParentID := Some (e_ExecutionID previous), e_CreatedAt := now,
                            e_CreatedBy := createdBy\<rparr>)"

definition hasRetryableSteps :: "step_result list \<Rightarrow> bool" where
  "hasRetryableSteps steps = list_ex (\<lambda>s. r_Status s = StepStatusFailed \<or> r_Status s = StepStatusSkipped) steps"

definition retry_workspace :: "execution \<Rightarrow> int" where
  "retry_workspace previous = (case e_WorkspaceID previous of None \<Rightarrow> e_ID previous | Some w \<Rightarrow> w)"

definition retry_of :: "go_time \<Rightarrow> project \<Rightarrow> execution \<Rightarrow> uuid option \<Rightarrow> execution" where
  "retry_of now project previous createdBy =
     Execution0\<lparr>e_ProjectID := p_ID project, e_Project := p_Name project, e_ExecutionID := e_ExecutionID previous,
                e_Attempt := e_Attempt previous + 1, e_Workflow := e_Workflow previous, e_Ref := e_Ref previous,
                e_CommitSHA := e_CommitSHA previous, e_Trigger := TriggerRetry, e_Source := SourceGit,
                e_PreviousAttemptID := Some (e_ID previous), e_WorkspaceID := Some (retry_workspace previous),
                e_CreatedAt := now, e_CreatedBy := createdBy\<rparr>"

text \<open>\<open>stat\<close> tells whether a path can be examined.\<close>

definition EnqueueRetry ::
  "'s execution_store \<Rightarrow> (string \<Rightarrow> bool) \<Rightarrow> workspace \<Rightarrow> go_time \<Rightarrow> project \<Rightarrow> execution \<Rightarrow> uuid option \<Rightarrow> ('s, execution) enqueue_op" where
  "EnqueueRetry es stat ws now project previous0 createdBy s =
     (case es_GetExecutionAttempt es (p_ID project) (e_ExecutionID previous0) 0 s of
        (Inl e, s1) \<Rightarrow> (Inl (EnqStore e), s1)
      | (Inr previous, s1) \<Rightarrow>
          (if e_ID previous \<noteq> e_ID previous0 then (Inl (EnqNotRetryable ''only the latest attempt can be retried''), s1)
           else if e_Source previous \<noteq> SourceGit then (Inl (EnqNotRetryable ''snapshot executions cannot be retried''), s1)
           else if e_Status previous \<noteq> StatusFailed then (Inl (EnqNotRetryable ''only failed executions can be retried''), s1)
           else if \<not> hasRetryableSteps (e_Steps previous)
           then (Inl (EnqNotRetryable ''execution has no failed or skipped steps''), s1)
           else
             (let workspaceID = retry_workspace previous;
                  dir = RepoDir ws (p_ID project) workspaceID
              in if \<not> stat dir then (Inl (EnqWorkspaceGone dir), s1)
                 else (case es_WorkspaceBusy es (p_ID project) workspaceID s1 of
                         (Inl e, s2) \<Rightarrow> (Inl (EnqStore e), s2)
                       | (Inr busy, s2) \<Rightarrow>
                           (if busy then (Inl (EnqNotRetryable ''another attempt is already running''), s2)
                            else enqueue es (retry_of now project previous createdBy) s2)))))"

section \<open>The module\<close>

record view =
  vw_Execution :: execution
  vw_Attempts :: "execution list"
  vw_Latest :: bool

definition app_enqueue :: "(enqueue_error + 'a) \<times> 's \<Rightarrow> (app_error + 'a) \<times> 's" where
  "app_enqueue r =
     (case r of
        (Inl (EnqNotRetryable t), s) \<Rightarrow> (Inl (AppNotRetryable t), s)
      | (Inl (EnqWorkspaceGone t), s) \<Rightarrow> (Inl (AppWorkspaceGone t), s)
      | (Inl (EnqStore e), s) \<Rightarrow> (Inl (AppStore e), s)
      | (Inr a, s) \<Rightarrow> (Inr a, s))"

definition module_attempt :: "'s execution_store \<Rightarrow> uuid \<Rightarrow> int \<Rightarrow> int \<Rightarrow> ('s, execution) app_op" where
  "module_attempt es projectID executionID attempt s =
     (case es_GetExecutionAttempt es projectID executionID attempt s of
        (Inl e, s') \<Rightarrow> (Inl (if e = ErrNotFound then AppNotFound else AppStore e), s')
      | (Inr e, s') \<Rightarrow> (Inr e, s'))"

definition module_Get :: "'s execution_store \<Rightarrow> uuid \<Rightarrow> int \<Rightarrow> int \<Rightarrow> ('s, view) app_op" where
  "module_Get es projectID executionID attempt s =
     (case module_attempt es projectID executionID attempt s of
        (Inl e, s1) \<Rightarrow> (Inl e, s1)
      | (Inr execution, s1) \<Rightarrow>
          (case es_ListAttempts es projectID (e_ExecutionID execution) s1 of
             (Inl e, s2) \<Rightarrow> (Inl (AppStore e), s2)
           | (Inr attempts, s2) \<Rightarrow>
               (Inr \<lparr>vw_Execution = execution, vw_Attempts = attempts,
                     vw_Latest = (e_Attempt execution = e_AttemptsCount execution)\<rparr>, s2)))"

definition module_Create ::
  "'s execution_store \<Rightarrow> go_time \<Rightarrow> project \<Rightarrow> string \<Rightarrow> string \<Rightarrow> uuid option \<Rightarrow> ('s, execution) app_op" where
  "module_Create es now project workflow0 ref0 createdBy s =
     (let workflow = TrimSpace workflow0; ref = TrimSpace ref0
      in if workflow = [] then (Inl (AppInvalid ''workflow is required''), s)
         else app_enqueue (Enqueue es now project workflow (if ref = [] then p_DefaultBranch project else ref) [] TriggerManual createdBy s))"

text \<open>
  The file operations of an upload answer \<open>None\<close> or an error; the set is the files that exist below the
  project's directory. A rename moves the finished upload to its place.
\<close>

record upload_fs =
  uf_MkdirAll :: "string \<Rightarrow> string option"
  uf_Create :: "string \<Rightarrow> string option"
  uf_Copy :: "string \<Rightarrow> string option"
  uf_Close :: "string \<Rightarrow> string option"
  uf_Rename :: "string \<Rightarrow> string \<Rightarrow> string option"

definition module_CreateSnapshot ::
  "'s execution_store \<Rightarrow> upload_fs \<Rightarrow> workspace \<Rightarrow> go_time \<Rightarrow> uuid \<Rightarrow> project \<Rightarrow> string \<Rightarrow> string \<Rightarrow> string \<Rightarrow> uuid option
     \<Rightarrow> 's \<times> string set \<Rightarrow> (app_error + execution) \<times> ('s \<times> string set)" where
  "module_CreateSnapshot es fs ws now snapshotID project workflow0 ref0 commitSHA createdBy = (\<lambda>(s, files).
     (let workflow = TrimSpace workflow0; ref = TrimSpace ref0
      in if workflow = [] then (Inl (AppInvalid ''workflow is required''), (s, files))
         else
           (let ref = (if ref = [] then p_DefaultBranch project else ref);
                path = Snapshot ws (p_ID project) snapshotID;
                tmp = path @ ''.tmp''
            in case uf_MkdirAll fs (Dir path) of
                 Some e \<Rightarrow> (Inl (AppOther e), (s, files))
               | None \<Rightarrow>
                   (case uf_Create fs tmp of
                      Some e \<Rightarrow> (Inl (AppOther e), (s, files))
                    | None \<Rightarrow>
                        (case uf_Copy fs tmp of
                           Some e \<Rightarrow> (Inl (AppOther e), (s, insert tmp files - {tmp}))
                         | None \<Rightarrow>
                             (case uf_Close fs tmp of
                                Some e \<Rightarrow> (Inl (AppOther e), (s, insert tmp files - {tmp}))
                              | None \<Rightarrow>
                                  (case uf_Rename fs tmp path of
                                     Some e \<Rightarrow> (Inl (AppOther e), (s, insert tmp files - {tmp}))
                                   | None \<Rightarrow>
                                       (let files' = insert path (insert tmp files - {tmp})
                                        in case app_enqueue (EnqueueSnapshot es now project workflow ref commitSHA snapshotID createdBy s) of
                                             (Inl e, s') \<Rightarrow> (Inl e, (s', files' - {path}))
                                           | (Inr execution, s') \<Rightarrow> (Inr execution, (s', files'))))))))))"

text \<open>\<open>cancelRun\<close> is the runner's \<^verbatim>\<open>Cancel\<close>, which reaches only a run of this process.\<close>

definition module_Cancel :: "'s execution_store \<Rightarrow> (uuid \<Rightarrow> int \<Rightarrow> 's \<Rightarrow> 's) \<Rightarrow> uuid \<Rightarrow> int \<Rightarrow> ('s, unit) app_op" where
  "module_Cancel es cancelRun projectID executionID s =
     (case module_attempt es projectID executionID 0 s of
        (Inl e, s1) \<Rightarrow> (Inl e, s1)
      | (Inr execution, s1) \<Rightarrow>
          (case es_SetCancelRequested es projectID (e_ID execution) s1 of
             (Inl e, s2) \<Rightarrow> (Inl (AppStore e), s2)
           | (Inr _, s2) \<Rightarrow> (Inr (), cancelRun projectID (e_ID execution) s2)))"

definition module_Rebuild ::
  "'s execution_store \<Rightarrow> go_time \<Rightarrow> project \<Rightarrow> int \<Rightarrow> uuid option \<Rightarrow> ('s, execution) app_op" where
  "module_Rebuild es now project executionID createdBy s =
     (case module_attempt es (p_ID project) executionID 0 s of
        (Inl e, s1) \<Rightarrow> (Inl e, s1)
      | (Inr previous, s1) \<Rightarrow>
          (if e_Source previous = SourceSnapshot then (Inl (AppConflict ''snapshot executions cannot be rebuilt''), s1)
           else app_enqueue (EnqueueRebuild es now project previous createdBy s1)))"

definition module_Retry ::
  "'s execution_store \<Rightarrow> (string \<Rightarrow> bool) \<Rightarrow> workspace \<Rightarrow> go_time \<Rightarrow> project \<Rightarrow> int \<Rightarrow> int \<Rightarrow> uuid option \<Rightarrow> ('s, execution) app_op" where
  "module_Retry es stat ws now project executionID attempt createdBy s =
     (case module_attempt es (p_ID project) executionID attempt s of
        (Inl e, s1) \<Rightarrow> (Inl e, s1)
      | (Inr previous, s1) \<Rightarrow>
          (case app_enqueue (EnqueueRetry es stat ws now project previous createdBy s1) of
             (Inl e, s2) \<Rightarrow> (Inl e, s2)
           | (Inr _, s2) \<Rightarrow>
               (case module_Get es (p_ID project) executionID 0 s2 of
                  (Inl e, s3) \<Rightarrow> (Inl e, s3)
                | (Inr v, s3) \<Rightarrow> (Inr (vw_Execution v), s3))))"

text \<open>\<open>read\<close> opens a log: \<open>Inl None\<close> when the file does not exist.\<close>

definition module_SetupLog :: "(string \<Rightarrow> string option + string) \<Rightarrow> workspace \<Rightarrow> execution \<Rightarrow> app_error + string" where
  "module_SetupLog read ws execution =
     (case read (SetupLog ws (e_ProjectID execution) (e_ID execution)) of
        Inl None \<Rightarrow> Inl AppNotFound
      | Inl (Some e) \<Rightarrow> Inl (AppOther e)
      | Inr logs \<Rightarrow> Inr logs)"

definition module_StepLog :: "(string \<Rightarrow> string option + string) \<Rightarrow> workspace \<Rightarrow> execution \<Rightarrow> string \<Rightarrow> app_error + string" where
  "module_StepLog read ws execution step =
     (case find (\<lambda>i. r_Name (e_Steps execution ! i) = step) [0..<length (e_Steps execution)] of
        None \<Rightarrow> Inl AppNotFound
      | Some i \<Rightarrow>
          (case read (StepLog ws (e_ProjectID execution) (e_ID execution) (int i) step) of
             Inl None \<Rightarrow> Inl AppNotFound
           | Inl (Some e) \<Rightarrow> Inl (AppOther e)
           | Inr logs \<Rightarrow> Inr logs))"

section \<open>The handlers\<close>

definition bind_Attempt :: "string \<Rightarrow> int option" where
  "bind_Attempt raw =
     (if raw = [] then Some 0
      else (case ParseInt64 raw of None \<Rightarrow> None | Some n \<Rightarrow> if n < 1 then None else Some n))"

text \<open>A path below a project: its project, the number of the execution, and for some the selected attempt.\<close>

definition with_execution ::
  "('s, project) app_op \<Rightarrow> string \<Rightarrow> (project \<Rightarrow> int \<Rightarrow> 's \<Rightarrow> 'a reply \<times> 's) \<Rightarrow> 's \<Rightarrow> 'a reply \<times> 's" where
  "with_execution resolve executionID handle =
     with_project resolve (\<lambda>p s. case ParseInt64 executionID of None \<Rightarrow> (Failure 404, s) | Some i \<Rightarrow> handle p i s)"

definition with_attempt ::
  "('s, project) app_op \<Rightarrow> string \<Rightarrow> string \<Rightarrow> (project \<Rightarrow> int \<Rightarrow> int \<Rightarrow> 's \<Rightarrow> 'a reply \<times> 's) \<Rightarrow> 's \<Rightarrow> 'a reply \<times> 's" where
  "with_attempt resolve executionID attempt handle =
     with_execution resolve executionID (\<lambda>p i s.
       case bind_Attempt attempt of None \<Rightarrow> (Failure 400, s) | Some n \<Rightarrow> handle p i n s)"

definition reply_op :: "int \<Rightarrow> ('s, 'a) app_op \<Rightarrow> 's \<Rightarrow> 'a reply \<times> 's" where
  "reply_op code query s = (case query s of (r, s') \<Rightarrow> (reply_error r code, s'))"

record execution_request =
  xr_Workflow :: string
  xr_Ref :: string

definition handler_Create ::
  "'s execution_store \<Rightarrow> ('s, project) app_op \<Rightarrow> go_time \<Rightarrow> execution_request option \<Rightarrow> uuid option \<Rightarrow> 's \<Rightarrow> execution reply \<times> 's" where
  "handler_Create es resolve now body user =
     with_project resolve (\<lambda>p s.
       case body of
         None \<Rightarrow> (Failure 400, s)
       | Some q \<Rightarrow> reply_op 202 (module_Create es now p (xr_Workflow q) (xr_Ref q) user) s)"

datatype snapshot_form = FormTooLarge | FormInvalid | FormWithoutFile | SnapshotForm string string string

definition createSnapshot ::
  "'s execution_store \<Rightarrow> upload_fs \<Rightarrow> workspace \<Rightarrow> go_time \<Rightarrow> uuid \<Rightarrow> uuid option \<Rightarrow> project \<Rightarrow> snapshot_form \<Rightarrow> 's \<times> string set
     \<Rightarrow> execution reply \<times> ('s \<times> string set)" where
  "createSnapshot es fs ws now snapshotID user p form st =
     (case form of
        FormTooLarge \<Rightarrow> (Failure 413, st)
      | FormInvalid \<Rightarrow> (Failure 400, st)
      | FormWithoutFile \<Rightarrow> (Failure 400, st)
      | SnapshotForm workflow ref sha \<Rightarrow>
          reply_op 202 (module_CreateSnapshot es fs ws now snapshotID p workflow ref sha user) st)"

definition handler_Rebuild :: "'s execution_store \<Rightarrow> ('s, project) app_op \<Rightarrow> go_time \<Rightarrow> string \<Rightarrow> uuid option \<Rightarrow> 's \<Rightarrow> execution reply \<times> 's" where
  "handler_Rebuild es resolve now executionID user =
     with_execution resolve executionID (\<lambda>p i. reply_op 202 (module_Rebuild es now p i user))"

definition handler_Retry ::
  "'s execution_store \<Rightarrow> (string \<Rightarrow> bool) \<Rightarrow> workspace \<Rightarrow> ('s, project) app_op \<Rightarrow> go_time \<Rightarrow> string \<Rightarrow> string \<Rightarrow> uuid option
     \<Rightarrow> 's \<Rightarrow> execution reply \<times> 's" where
  "handler_Retry es stat ws resolve now executionID attempt user =
     with_attempt resolve executionID attempt (\<lambda>p i n. reply_op 202 (module_Retry es stat ws now p i n user))"

text \<open>The number \<^verbatim>\<open>strconv.Atoi\<close> returns beside its error: zero for a text that is no number, the nearest bound when out of range.\<close>

definition Atoi_value :: "string \<Rightarrow> int" where
  "Atoi_value s =
     (let sign = (case s of [] \<Rightarrow> None | c # _ \<Rightarrow> if c = CHR ''+'' \<or> c = CHR ''-'' then Some c else None);
          ds = (if sign = None then s else tl s);
          n = (if sign = Some (CHR ''-'') then - int (digits_value 0 ds) else int (digits_value 0 ds))
      in if ds = [] \<or> \<not> list_all is_digit ds then 0 else max (- (2 ^ 63)) (min (2 ^ 63 - 1) n))"

definition handler_List :: "'s execution_store \<Rightarrow> ('s, project) app_op \<Rightarrow> string \<Rightarrow> 's \<Rightarrow> execution list reply \<times> 's" where
  "handler_List es resolve limit =
     with_project resolve (\<lambda>p s.
       case es_ListExecutions es (p_ID p) (Atoi_value limit) s of
         (Inl _, s') \<Rightarrow> (Failure 500, s')
       | (Inr xs, s') \<Rightarrow> (Reply 200 xs, s'))"

definition handler_ListAttempts :: "'s execution_store \<Rightarrow> ('s, project) app_op \<Rightarrow> string \<Rightarrow> 's \<Rightarrow> attempt list reply \<times> 's" where
  "handler_ListAttempts es resolve executionID =
     with_execution resolve executionID (\<lambda>p i s.
       case es_ListAttempts es (p_ID p) i s of
         (Inl _, s') \<Rightarrow> (Failure 500, s')
       | (Inr xs, s') \<Rightarrow> (if xs = [] then Failure 404 else Reply 200 (map AttemptSummary xs), s'))"

definition handler_Get :: "'s execution_store \<Rightarrow> ('s, project) app_op \<Rightarrow> string \<Rightarrow> string \<Rightarrow> 's \<Rightarrow> execution reply \<times> 's" where
  "handler_Get es resolve executionID attempt =
     with_attempt resolve executionID attempt (\<lambda>p i n s.
       case module_Get es (p_ID p) i n s of
         (Inl e, s') \<Rightarrow> (Failure (storeError e), s')
       | (Inr v, s') \<Rightarrow> (Reply 200 (vw_Execution v), s'))"

definition handler_StepLogs ::
  "'s execution_store \<Rightarrow> (string \<Rightarrow> string option + string) \<Rightarrow> workspace \<Rightarrow> ('s, project) app_op \<Rightarrow> string \<Rightarrow> string \<Rightarrow> string
     \<Rightarrow> 's \<Rightarrow> string reply \<times> 's" where
  "handler_StepLogs es read ws resolve executionID attempt step =
     with_attempt resolve executionID attempt (\<lambda>p i n s.
       case module_Get es (p_ID p) i n s of
         (Inl e, s') \<Rightarrow> (Failure (storeError e), s')
       | (Inr v, s') \<Rightarrow> (reply_error (module_StepLog read ws (vw_Execution v) step) 200, s'))"

definition handler_Logs ::
  "'s execution_store \<Rightarrow> (uuid \<Rightarrow> int \<Rightarrow> string) \<Rightarrow> ('s, project) app_op \<Rightarrow> string \<Rightarrow> string \<Rightarrow> 's \<Rightarrow> string reply \<times> 's" where
  "handler_Logs es readLogs resolve executionID attempt =
     with_attempt resolve executionID attempt (\<lambda>p i n s.
       case module_Get es (p_ID p) i n s of
         (Inl e, s') \<Rightarrow> (Failure (storeError e), s')
       | (Inr v, s') \<Rightarrow> (Reply 200 (readLogs (e_ProjectID (vw_Execution v)) (e_ID (vw_Execution v))), s'))"

definition handler_Cancel ::
  "'s execution_store \<Rightarrow> (uuid \<Rightarrow> int \<Rightarrow> 's \<Rightarrow> 's) \<Rightarrow> ('s, project) app_op \<Rightarrow> string \<Rightarrow> 's \<Rightarrow> string reply \<times> 's" where
  "handler_Cancel es cancelRun resolve executionID =
     with_execution resolve executionID (\<lambda>p i s.
       case module_Cancel es cancelRun (p_ID p) i s of
         (Inl e, s') \<Rightarrow> (Failure (storeError e), s')
       | (Inr _, s') \<Rightarrow> (Reply 200 ''canceling'', s'))"

section \<open>The contract of a retry\<close>

text \<open>What the module relies on: reads change nothing, and an attempt that continues the latest one can be stored and is the latest then.\<close>

locale retry_store =
  fixes es :: "'s execution_store" and inv :: "'s \<Rightarrow> bool" and user_ok :: "'s \<Rightarrow> uuid option \<Rightarrow> bool"
    and busy :: "'s \<Rightarrow> uuid \<Rightarrow> int \<Rightarrow> bool"
  assumes read: "inv s \<Longrightarrow> es_GetExecutionAttempt es p x n s = (r, s') \<Longrightarrow>
      s' = s \<and> (case r of Inl e \<Rightarrow> e = ErrNotFound | Inr e \<Rightarrow> e_ProjectID e = p \<and> e_ExecutionID e = x)"
    and some_latest: "inv s \<Longrightarrow> es_GetExecutionAttempt es p x n s = (Inr e, s') \<Longrightarrow>
      \<exists>latest. es_GetExecutionAttempt es p x 0 s = (Inr latest, s)"
    and attempts: "inv s \<Longrightarrow> \<exists>as. es_ListAttempts es p x s = (Inr as, s)"
    and workspace: "inv s \<Longrightarrow> es_WorkspaceBusy es p wid s = (Inr (busy s p wid), s)"
    and continue: "inv s \<Longrightarrow> es_GetExecutionAttempt es p x 0 s = (Inr latest, s) \<Longrightarrow> user_ok s (e_CreatedBy e) \<Longrightarrow>
      e_ProjectID e = p \<Longrightarrow> e_ExecutionID e = x \<Longrightarrow> e_Attempt e = e_Attempt latest + 1 \<Longrightarrow> e_Status e = StatusPending \<Longrightarrow>
      e_Trigger e = TriggerRetry \<Longrightarrow> e_Source e = SourceGit \<Longrightarrow> e_WorkspaceID e = Some wid \<Longrightarrow> e_PreviousAttemptID e = Some prev \<Longrightarrow>
      \<exists>e1 s' v. es_CreateExecution es e s = (Inr e1, s') \<and> inv s' \<and> es_GetExecutionAttempt es p x 0 s' = (Inr v, s')
        \<and> e_ProjectID v = p \<and> e_ExecutionID v = x \<and> e_Attempt v = e_Attempt e \<and> e_Status v = StatusPending \<and> e_WorkspaceID v = Some wid
        \<and> e_PreviousAttemptID v = Some prev \<and> e_CommitSHA v = e_CommitSHA e \<and> e_Ref v = e_Ref e \<and> e_Workflow v = e_Workflow e"
begin

text \<open>The answer to a retry, decided on the selected attempt \<open>chosen\<close> and the latest one.\<close>

lemma Retry_answer:
  assumes inv: "inv s" and user: "user_ok s createdBy" and chosen: "es_GetExecutionAttempt es (p_ID p) x n s = (Inr chosen, s)"
    and latest: "es_GetExecutionAttempt es (p_ID p) x 0 s = (Inr latest, s)"
  shows "if e_ID latest \<noteq> e_ID chosen \<or> e_Source latest \<noteq> SourceGit \<or> e_Status latest \<noteq> StatusFailed \<or> \<not> hasRetryableSteps (e_Steps latest)
     then \<exists>t. module_Retry es stat ws now p x n createdBy s = (Inl (AppNotRetryable t), s)
     else if \<not> stat (RepoDir ws (p_ID p) (retry_workspace latest))
     then \<exists>t. module_Retry es stat ws now p x n createdBy s = (Inl (AppWorkspaceGone t), s)
     else if busy s (p_ID p) (retry_workspace latest)
     then \<exists>t. module_Retry es stat ws now p x n createdBy s = (Inl (AppNotRetryable t), s)
     else \<exists>e s'. module_Retry es stat ws now p x n createdBy s = (Inr e, s') \<and> inv s'
            \<and> es_GetExecutionAttempt es (p_ID p) x 0 s' = (Inr e, s') \<and> e_ExecutionID e = x \<and> e_Attempt e = e_Attempt latest + 1
            \<and> e_Status e = StatusPending \<and> e_WorkspaceID e = Some (retry_workspace latest)
            \<and> e_PreviousAttemptID e = Some (e_ID latest) \<and> e_CommitSHA e = e_CommitSHA latest \<and> e_Ref e = e_Ref latest
            \<and> e_Workflow e = e_Workflow latest"
proof -
  have at: "module_attempt es (p_ID p) x n s = (Inr chosen, s)" using chosen by (simp add: module_attempt_def)
  have cx: "e_ExecutionID chosen = x" using read [OF inv chosen] by simp
  have lx: "e_ExecutionID latest = x" using read [OF inv latest] by simp
  note retry = module_Retry_def at cx EnqueueRetry_def latest
  show ?thesis
  proof (cases "e_ID latest \<noteq> e_ID chosen \<or> e_Source latest \<noteq> SourceGit \<or> e_Status latest \<noteq> StatusFailed \<or> \<not> hasRetryableSteps (e_Steps latest)")
    case True
    then have "\<exists>t. module_Retry es stat ws now p x n createdBy s = (Inl (AppNotRetryable t), s)"
      by (auto simp: retry app_enqueue_def)
    with True show ?thesis by simp
  next
    case False
    let ?w = "retry_workspace latest" and ?r = "retry_of now p latest createdBy"
    have fresh: "\<exists>e s'. module_Retry es stat ws now p x n createdBy s = (Inr e, s') \<and> inv s'
            \<and> es_GetExecutionAttempt es (p_ID p) x 0 s' = (Inr e, s') \<and> e_ExecutionID e = x \<and> e_Attempt e = e_Attempt latest + 1
            \<and> e_Status e = StatusPending \<and> e_WorkspaceID e = Some (retry_workspace latest)
            \<and> e_PreviousAttemptID e = Some (e_ID latest) \<and> e_CommitSHA e = e_CommitSHA latest \<and> e_Ref e = e_Ref latest
            \<and> e_Workflow e = e_Workflow latest"
      if st: "stat (RepoDir ws (p_ID p) ?w)" and idle: "\<not> busy s (p_ID p) ?w"
    proof -
      let ?e = "?r\<lparr>e_Status := StatusPending\<rparr>"
      have "e_Status ?r = StatusUnset" by (simp add: retry_of_def Execution0_def)
      then have enq: "enqueue es ?r s = (case es_CreateExecution es ?e s of (Inl e, s') \<Rightarrow> (Inl (EnqStore e), s') | (Inr c, s') \<Rightarrow> (Inr c, s'))"
        by (simp add: enqueue_def)
      obtain e1 s' v where c: "es_CreateExecution es ?e s = (Inr e1, s')" "inv s'" "es_GetExecutionAttempt es (p_ID p) x 0 s' = (Inr v, s')"
        and v: "e_ProjectID v = p_ID p" "e_ExecutionID v = x" "e_Attempt v = e_Attempt ?e" "e_Status v = StatusPending"
          "e_WorkspaceID v = Some ?w" "e_PreviousAttemptID v = Some (e_ID latest)" "e_CommitSHA v = e_CommitSHA ?e"
          "e_Ref v = e_Ref ?e" "e_Workflow v = e_Workflow ?e"
        using continue [OF inv latest, of ?e ?w "e_ID latest"] user lx by (auto simp: retry_of_def)
      obtain as where as: "es_ListAttempts es (p_ID p) x s' = (Inr as, s')" using attempts [OF c(2)] by blast
      have "EnqueueRetry es stat ws now p chosen createdBy s = (Inr e1, s')"
        using False st idle by (simp add: EnqueueRetry_def cx latest Let_def workspace [OF inv] enq c(1))
      then have "module_Retry es stat ws now p x n createdBy s = (Inr v, s')"
        by (simp add: module_Retry_def at [unfolded module_attempt_def] app_enqueue_def module_Get_def module_attempt_def c(3) v(2) as)
      with c v show ?thesis by (simp add: retry_of_def)
    qed
    have gone: "\<exists>t. module_Retry es stat ws now p x n createdBy s = (Inl (AppWorkspaceGone t), s)" if "\<not> stat (RepoDir ws (p_ID p) ?w)"
      using False that by (simp add: retry app_enqueue_def)
    have "\<exists>t. module_Retry es stat ws now p x n createdBy s = (Inl (AppNotRetryable t), s)"
      if "stat (RepoDir ws (p_ID p) ?w)" "busy s (p_ID p) ?w"
      using False that by (simp add: retry app_enqueue_def workspace [OF inv])
    with False gone fresh show ?thesis by simp
  qed
qed

end

section \<open>The SQLite store meets it\<close>

definition sqlite_executions :: "db execution_store" where
  "sqlite_executions = \<lparr>es_GetExecutionAttempt = GetExecutionAttempt, es_ListAttempts = ListAttempts, es_ListExecutions = ListExecutions,
     es_SetCancelRequested = SetCancelRequested, es_CreateExecution = CreateExecution, es_WorkspaceBusy = WorkspaceBusy\<rparr>"

definition known_user :: "db \<Rightarrow> uuid option \<Rightarrow> bool" where
  "known_user d u \<longleftrightarrow> (case u of None \<Rightarrow> True | Some i \<Rightarrow> i \<in> set (user_ids d))"

definition workspace_active :: "db \<Rightarrow> uuid \<Rightarrow> int \<Rightarrow> bool" where
  "workspace_active d p wid \<longleftrightarrow>
     list_ex (\<lambda>r. uses_workspace p wid r \<and> (ew_status r = StatusPending \<or> ew_status r = StatusRunning)) (db_executions d)"

definition execution_rows :: "db \<Rightarrow> uuid \<Rightarrow> int \<Rightarrow> execution_row list" where
  "execution_rows d p x = filter (\<lambda>e. ew_project_id e = p \<and> ew_execution_id e = Some x) (db_executions d)"

lemma root_row_key:
  "ew_project_id r = p \<Longrightarrow> ew_execution_id r = Some x \<Longrightarrow> root_row d r = find (at_key p x) (db_executions d)"
  unfolding root_row_def at_key_def by (rule arg_cong [where f = "\<lambda>q. find q (db_executions d)"]) (auto simp: fun_eq_iff)

lemma joined_rows_head:
  assumes "\<forall>r \<in> set rows. ew_project_id r = p \<and> ew_execution_id r = Some x"
  shows "joined_rows d rows = (case find (at_key p x) (db_executions d) of None \<Rightarrow> [] | Some root \<Rightarrow> map (\<lambda>r. joined_execution d r root) rows)"
  using assms by (induction rows) (auto simp: joined_rows_def root_row_key split: option.split)

lemma execution_rows_all: "\<forall>r \<in> set (execution_rows d p x). ew_project_id r = p \<and> ew_execution_id r = Some x"
  by (simp add: execution_rows_def)

lemma GetExecutionAttempt_rows:
  "GetExecutionAttempt p x n d =
     (case find (at_key p x) (db_executions d) of
        None \<Rightarrow> (Inl ErrNotFound, d)
      | Some root \<Rightarrow>
          (case (if 0 < n then filter (\<lambda>e. ew_attempt e = n) (execution_rows d p x) else sort_key (\<lambda>e. - ew_attempt e) (execution_rows d p x)) of
             [] \<Rightarrow> (Inl ErrNotFound, d)
           | r # _ \<Rightarrow> (Inr (joined_execution d r root), d)))"
proof -
  let ?rows = "if 0 < n then filter (\<lambda>e. ew_attempt e = n) (execution_rows d p x) else sort_key (\<lambda>e. - ew_attempt e) (execution_rows d p x)"
  have "\<forall>r \<in> set ?rows. ew_project_id r = p \<and> ew_execution_id r = Some x"
    using execution_rows_all [of d p x] by auto
  note j = joined_rows_head [OF this, of d]
  have "GetExecutionAttempt p x n d = (case joined_rows d ?rows of [] \<Rightarrow> (Inl ErrNotFound, d) | e # _ \<Rightarrow> (Inr e, d))"
    by (simp add: GetExecutionAttempt_def Let_def execution_rows_def)
  then show ?thesis unfolding j by (auto split: option.split list.split)
qed

lemma joined_execution_simps [simp]:
  "e_ProjectID (joined_execution d r root) = ew_project_id r" "e_ID (joined_execution d r root) = ew_id r"
  "e_ExecutionID (joined_execution d r root) = (case ew_execution_id r of None \<Rightarrow> ew_id r | Some x \<Rightarrow> x)"
  "e_Attempt (joined_execution d r root) = (if ew_attempt r = 0 then 1 else ew_attempt r)"
  "e_Status (joined_execution d r root) = ew_status r" "e_WorkspaceID (joined_execution d r root) = ew_workspace_id r"
  "e_CommitSHA (joined_execution d r root) = ew_commit_sha r" "e_Ref (joined_execution d r root) = ew_ref r"
  "e_Workflow (joined_execution d r root) = ew_workflow r" "e_Steps (joined_execution d r root) = ew_steps_json r"
  "e_Source (joined_execution d r root) = ew_source r"
  "e_PreviousAttemptID (joined_execution d r root) = (if ew_trigger r = TriggerRetry then ew_parent_id r else None)"
  by (simp_all add: joined_execution_def scanExecution_def Let_def)

lemma sort_key_new_min:
  fixes f :: "'a \<Rightarrow> int"
  assumes "\<forall>y \<in> set xs. f x < f y"
  shows "\<exists>ys. sort_key f (xs @ [x]) = x # ys"
proof (cases "sort_key f (xs @ [x])")
  case Nil
  then have "set (sort_key f (xs @ [x])) = {}" by simp
  then show ?thesis by simp
next
  case (Cons y ys)
  from sort_key_hd_min [OF Cons, of x] have "f y \<le> f x" "y \<in> set (xs @ [x])" by simp_all
  with assms have "y = x" by force
  with Cons show ?thesis by blast
qed

lemma attempt_keys_mem:
  "(p, x, n) \<in> set (attempt_keys rows) \<longleftrightarrow> (\<exists>r \<in> set rows. ew_project_id r = p \<and> ew_execution_id r = Some x \<and> ew_attempt r = n)"
proof -
  have "(p, x, n) \<in> set (attempt_keys rows) \<longleftrightarrow> (\<exists>r \<in> set rows. (p, x, n) \<in> set (case ew_execution_id r of None \<Rightarrow> [] | Some x \<Rightarrow> [(ew_project_id r, x, ew_attempt r)]))"
    by (auto simp: attempt_keys_def)
  also have "\<dots> \<longleftrightarrow> (\<exists>r \<in> set rows. ew_project_id r = p \<and> ew_execution_id r = Some x \<and> ew_attempt r = n)"
    by (rule bex_cong [OF refl]) (auto split: option.split)
  finally show ?thesis .
qed

text \<open>
  Attempts are counted from one, a zero stands for a row older than the numbering; the first attempt of an execution, whose
  id is the execution's, is in the table.
\<close>

definition rooted_row :: "execution_row list \<Rightarrow> execution_row \<Rightarrow> bool" where
  "rooted_row rows r \<longleftrightarrow> (case ew_execution_id r of None \<Rightarrow> True | Some x \<Rightarrow> list_ex (at_key (ew_project_id r) x) rows)"

definition numbered_ok :: "db \<Rightarrow> bool" where
  "numbered_ok d \<longleftrightarrow> db_ok d \<and> list_all (\<lambda>r. 0 \<le> ew_attempt r \<and> rooted_row (db_executions d) r) (db_executions d)"

lemma rooted_row_append: "rooted_row rows r \<Longrightarrow> rooted_row (rows @ extra) r"
  by (simp add: rooted_row_def split: option.splits)

text \<open>An attempt that continues the latest one is stored and is the latest then.\<close>

lemma continue_execution:
  assumes num: "numbered_ok d" and latest: "GetExecutionAttempt p x 0 d = (Inr latest, d)" and user: "known_user d (e_CreatedBy e)"
    and e: "e_ProjectID e = p" "e_ExecutionID e = x" "e_Attempt e = e_Attempt latest + 1" "e_Status e = StatusPending"
      "e_Trigger e = TriggerRetry" "e_Source e = SourceGit" "e_WorkspaceID e = Some wid" "e_PreviousAttemptID e = Some prev"
  shows "\<exists>e1 d' v. CreateExecution e d = (Inr e1, d') \<and> numbered_ok d' \<and> GetExecutionAttempt p x 0 d' = (Inr v, d')
    \<and> e_ProjectID v = p \<and> e_ExecutionID v = x \<and> e_Attempt v = e_Attempt e \<and> e_Status v = StatusPending \<and> e_WorkspaceID v = Some wid
    \<and> e_PreviousAttemptID v = Some prev \<and> e_CommitSHA v = e_CommitSHA e \<and> e_Ref v = e_Ref e \<and> e_Workflow v = e_Workflow e"
proof -
  have ok: "db_ok d" using num by (simp add: numbered_ok_def)
  let ?rows = "execution_rows d p x"
  from latest obtain root r rs where root: "find (at_key p x) (db_executions d) = Some root"
    and sorted: "sort_key (\<lambda>e. - ew_attempt e) ?rows = r # rs" and lat: "latest = joined_execution d r root"
    by (auto simp: GetExecutionAttempt_rows split: option.splits list.splits)
  have "r \<in> set ?rows" using sorted by (metis list.set_intros(1) set_sort)
  then have r: "r \<in> set (db_executions d)" "ew_project_id r = p" by (auto simp: execution_rows_def)
  have above: "ew_attempt r' < e_Attempt e" if "r' \<in> set ?rows" for r'
    using sort_key_hd_min(1) [OF sorted that] by (auto simp: e lat)
  have roots: "root \<in> set (db_executions d)" "at_key p x root" using find_SomeD [OF root] by auto
  obtain pr where pr: "pr \<in> set (db_projects d)" "pw_id pr = p"
    using ok r by (auto simp: db_ok_def executions_ok_def project_ids_def)
  have "x = ew_id root" "ew_project_id root = p" using roots(2) by (simp_all add: at_key_def)
  then have x: "1 \<le> x" using ok roots(1) pr by (auto simp: db_ok_def sequence_ok_def)
  have find: "find (\<lambda>q. pw_id q = p) (db_projects d) = Some pr"
    using find_distinct [of pw_id "db_projects d" pr] pr ok by (simp add: db_ok_def projects_ok_def)
  define e1 where "e1 = assign_ids (pw_execution_seq pr + 1) (execution_defaults e)"
  have "0 \<le> ew_attempt r" using num r(1) by (simp add: numbered_ok_def list_all_iff)
  then have attempt: "0 < e_Attempt e" by (auto simp: e(3) lat)
  have d1: "e_ProjectID e1 = p" "e_ExecutionID e1 = x" "e_Attempt e1 = e_Attempt e" "e_Status e1 = StatusPending" "e_Trigger e1 = TriggerRetry"
    "e_WorkspaceID e1 = Some wid" "e_PreviousAttemptID e1 = Some prev" "e_CommitSHA e1 = e_CommitSHA e" "e_Ref e1 = e_Ref e"
    "e_Workflow e1 = e_Workflow e" "e_CreatedBy e1 = e_CreatedBy e" "e_ID e1 = pw_execution_seq pr + 1"
    using x attempt by (simp_all add: e1_def e execution_defaults_def assign_ids_def Let_def)
  let ?row = "row_of_execution e1"
  have row: "ew_project_id ?row = p" "ew_execution_id ?row = Some x" "ew_attempt ?row = e_Attempt e" "ew_id ?row = pw_execution_seq pr + 1"
    "ew_status ?row = StatusPending" "ew_trigger ?row = TriggerRetry" "ew_workspace_id ?row = Some wid" "ew_parent_id ?row = Some prev"
    "ew_commit_sha ?row = e_CommitSHA e" "ew_ref ?row = e_Ref e" "ew_workflow ?row = e_Workflow e"
    by (simp_all add: row_of_execution_def d1)
  have free: "insert_conflict e1 d = None"
    unfolding insert_conflict_None
  proof (intro conjI allI impI)
    have "ew_id r' \<le> pw_execution_seq pr" if "r' \<in> set (db_executions d)" "ew_project_id r' = p" for r'
      using ok that pr by (auto simp: db_ok_def sequence_ok_def)
    then show "execution_key ?row \<notin> set (map execution_key (db_executions d))"
      by (auto simp: execution_key_def row) (metis add_le_same_cancel1 not_one_le_zero)
    show "(e_ProjectID e1, e_ExecutionID e1, e_Attempt e1) \<notin> set (attempt_keys (db_executions d))"
      using above by (auto simp: d1 attempt_keys_mem execution_rows_def) (metis order.irrefl)
    show "u \<in> set (user_ids d)" if "e_CreatedBy e1 = Some u" for u
      using user that by (simp add: d1 known_user_def)
  qed
  define d' where "d' = d\<lparr>db_projects := bump_sequence p (db_projects d), db_executions := db_executions d @ [?row]\<rparr>"
  have create: "CreateExecution e d = (Inr e1, d')"
    by (simp add: CreateExecution_def e(1) find Let_def e1_def [symmetric] free d'_def)
  have ok': "numbered_ok d'"
    using CreateExecution_ok [OF ok, of e] num attempt roots
    by (auto simp: create numbered_ok_def d'_def row rooted_row_append list_all_iff)
      (auto simp: rooted_row_def row list_ex_iff)
  have rows': "execution_rows d' p x = ?rows @ [?row]" by (simp add: execution_rows_def d'_def row)
  have root': "find (at_key p x) (db_executions d') = Some root" using root by (simp add: d'_def find_append)
  have "\<forall>y \<in> set ?rows. - ew_attempt ?row < - ew_attempt y" using above row(3) by auto
  from sort_key_new_min [where f = "\<lambda>e. - ew_attempt e", OF this] obtain ys where
    "sort_key (\<lambda>e. - ew_attempt e) (?rows @ [?row]) = ?row # ys" by blast
  then have "GetExecutionAttempt p x 0 d' = (Inr (joined_execution d' ?row root), d')"
    by (simp add: GetExecutionAttempt_rows root' rows')
  with create ok' attempt show ?thesis by (simp add: row)
qed

lemma GetExecutionAttempt_read:
  "case GetExecutionAttempt p x n d of (r, d') \<Rightarrow>
     d' = d \<and> (case r of Inl e \<Rightarrow> e = ErrNotFound | Inr e \<Rightarrow> e_ProjectID e = p \<and> e_ExecutionID e = x)"
proof -
  define rows where "rows = (if 0 < n then filter (\<lambda>e. ew_attempt e = n) (execution_rows d p x) else sort_key (\<lambda>e. - ew_attempt e) (execution_rows d p x))"
  have rows: "\<forall>r \<in> set rows. ew_project_id r = p \<and> ew_execution_id r = Some x"
    using execution_rows_all [of d p x] by (auto simp: rows_def)
  show ?thesis
    unfolding GetExecutionAttempt_rows rows_def [symmetric]
    using rows by (cases "find (at_key p x) (db_executions d)"; cases rows) simp_all
qed

interpretation sqlite_retry: retry_store sqlite_executions numbered_ok known_user workspace_active
proof
  fix p :: uuid and x n wid :: int and d :: db
  show "d' = d \<and> (case r of Inl e \<Rightarrow> e = ErrNotFound | Inr e \<Rightarrow> e_ProjectID e = p \<and> e_ExecutionID e = x)"
    if "es_GetExecutionAttempt sqlite_executions p x n d = (r, d')" for r d'
    using GetExecutionAttempt_read [where p = p and x = x and n = n and d = d] that by (simp add: sqlite_executions_def)
  show "\<exists>latest. es_GetExecutionAttempt sqlite_executions p x 0 d = (Inr latest, d)"
    if "es_GetExecutionAttempt sqlite_executions p x n d = (Inr e, d')" for e d'
  proof -
    have "execution_rows d p x \<noteq> []" "find (at_key p x) (db_executions d) \<noteq> None"
      using that by (auto simp: sqlite_executions_def GetExecutionAttempt_rows split: option.splits list.splits if_splits)
    moreover from this(1) obtain r rs where "sort_key (\<lambda>e. - ew_attempt e) (execution_rows d p x) = r # rs"
      by (metis list.exhaust set_empty set_sort)
    ultimately show ?thesis by (auto simp: sqlite_executions_def GetExecutionAttempt_rows)
  qed
  show "\<exists>as. es_ListAttempts sqlite_executions p x d = (Inr as, d)"
    by (simp add: sqlite_executions_def ListAttempts_def)
  show "es_WorkspaceBusy sqlite_executions p wid d = (Inr (workspace_active d p wid), d)"
    by (auto simp: sqlite_executions_def WorkspaceBusy_def workspace_active_def list_ex_iff filter_empty_conv)
qed (use continue_execution in \<open>simp add: sqlite_executions_def\<close>)

section \<open>Properties\<close>

lemma handler_Retry_module:
  assumes "resolve d = (Inr p, d)" "ParseInt64 executionID = Some x" "bind_Attempt selected = Some n"
  shows "handler_Retry es stat ws resolve now executionID selected user d = reply_op 202 (module_Retry es stat ws now p x n user) d"
  using assms by (simp add: handler_Retry_def with_attempt_def with_execution_def with_project_def)


definition sample_failed :: execution_row where
  "sample_failed = (row_of_execution (sample_pending\<lparr>e_ID := 1, e_ExecutionID := 1, e_Attempt := 1, e_Status := StatusFailed,
     e_Trigger := TriggerManual, e_Source := SourceGit, e_WorkspaceID := Some 1, e_CommitSHA := ''2f8b1c9d0'',
     e_Steps := [StepResult ''build'' StepStatusSuccess, StepResult ''test'' StepStatusFailed]\<rparr>))"

definition sample_failed_db :: db where
  "sample_failed_db = sample_db\<lparr>db_projects := [(sample_project_row 1 ''app'')\<lparr>pw_execution_seq := 1\<rparr>, sample_project_row 2 ''lib''],
     db_executions := [sample_failed]\<rparr>"

lemma sample_failed_ok: "numbered_ok sample_failed_db"
  by (simp add: numbered_ok_def rooted_row_def at_key_def db_ok_defs sample_failed_db_def sample_db_def empty_db_def sample_project_row_def attempt_keys_def
      sample_failed_def row_of_execution_def sample_pending_def Execution0_def execution_key_def)

definition sample_app :: project where
  "sample_app = project_of_row None (sample_project_row 1 ''app'')"


lemma CreateExecution_enqueued:
  assumes "enqueue sqlite_executions x d = (Inr e, d')" "e_Status x = StatusUnset"
  shows "e_Status e = StatusPending \<and> e_ProjectID e = e_ProjectID x \<and> e_Workflow e = e_Workflow x
    \<and> e_Source e = (if e_Source x = SourceUnset then SourceGit else e_Source x) \<and> e_SnapshotID e = e_SnapshotID x
    \<and> e_Ref e = e_Ref x \<and> e_CommitSHA e = e_CommitSHA x"
proof -
  have "CreateExecution (x\<lparr>e_Status := StatusPending\<rparr>) d = (Inr e, d')"
    using assms by (auto simp: enqueue_def sqlite_executions_def split: prod.splits sum.splits)
  then obtain seq where "e = assign_ids seq (execution_defaults (x\<lparr>e_Status := StatusPending\<rparr>))"
    using CreateExecution_Inr by metis
  then show ?thesis by (simp add: assign_ids_def execution_defaults_def Let_def)
qed

lemma enqueue_error_state: "enqueue sqlite_executions x d = (Inl e, d') \<Longrightarrow> d' = d"
  by (auto simp: enqueue_def sqlite_executions_def dest: CreateExecution_error split: prod.splits sum.splits)

text \<open>
  Uploads: an uploaded archive is on disk exactly when its run is queued. If anything fails, from the first directory
  to the insert, the files are those of before and so is the store; otherwise the archive stands at the path the run
  will read, and the run is pending with the given workflow and commit.
\<close>

theorem snapshot_kept_iff_queued:
  assumes "Snapshot ws (p_ID p) i \<notin> files" "Snapshot ws (p_ID p) i @ ''.tmp'' \<notin> files"
  shows "case module_CreateSnapshot sqlite_executions fs ws now i p workflow ref sha user (d, files) of
      (Inl _, (d', files')) \<Rightarrow> d' = d \<and> files' = files
    | (Inr e, (d', files')) \<Rightarrow> files' = insert (Snapshot ws (e_ProjectID e) i) files \<and> e_SnapshotID e = Some i
        \<and> e_Source e = SourceSnapshot \<and> e_Status e = StatusPending \<and> e_ProjectID e = p_ID p
        \<and> e_Workflow e = TrimSpace workflow \<and> e_CommitSHA e = sha
        \<and> e_Ref e = (if TrimSpace ref = [] then p_DefaultBranch p else TrimSpace ref)"
proof -
  let ?path = "Snapshot ws (p_ID p) i"
  define branch where "branch = (if TrimSpace ref = [] then p_DefaultBranch p else TrimSpace ref)"
  let ?new = "Execution0\<lparr>e_ProjectID := p_ID p, e_Project := p_Name p, e_Workflow := TrimSpace workflow, e_Ref := branch,
     e_CommitSHA := sha, e_Trigger := TriggerManual, e_Source := SourceSnapshot, e_SnapshotID := Some i, e_CreatedAt := now,
     e_CreatedBy := user\<rparr>"
  have files: "insert (?path @ ''.tmp'') files - {?path @ ''.tmp''} = files" "insert ?path files - {?path} = files"
    using assms by auto
  obtain q d1 where q: "enqueue sqlite_executions ?new d = (q, d1)" by (metis surj_pair)
  have fields: "e_Status ?new = StatusUnset" "e_Source ?new = SourceSnapshot" by (simp_all add: Execution0_def)
  note upload = module_CreateSnapshot_def EnqueueSnapshot_def Let_def branch_def [symmetric] prod.case q
  show ?thesis
  proof (cases q)
    case (Inl e)
    with q enqueue_error_state have "d1 = d" by blast
    with Inl show ?thesis
      unfolding upload by (simp add: files app_enqueue_def split: option.split enqueue_error.split)
  next
    case (Inr e)
    with CreateExecution_enqueued [of ?new d e d1] q fields show ?thesis
      unfolding upload by (simp add: files app_enqueue_def split: option.split)
  qed
qed

definition working_fs :: upload_fs where
  "working_fs = \<lparr>uf_MkdirAll = (\<lambda>_. None), uf_Create = (\<lambda>_. None), uf_Copy = (\<lambda>_. None), uf_Close = (\<lambda>_. None), uf_Rename = (\<lambda>_ _. None)\<rparr>"

theorem snapshot_kept_iff_queued_witness:
  "case module_CreateSnapshot sqlite_executions working_fs \<lparr>ws_root = ''/w'', ws_logsRoot = ''/l''\<rparr> 9000 7 sample_app '' build '' [] ''2f8b1c9''
      None (sample_db, {}) of (Inl _, _) \<Rightarrow> False
    | (Inr e, (d', files)) \<Rightarrow> files = {Snapshot \<lparr>ws_root = ''/w'', ws_logsRoot = ''/l''\<rparr> 1 7} \<and> e_Workflow e = ''build''"
proof -
  let ?ws = "\<lparr>ws_root = ''/w'', ws_logsRoot = ''/l''\<rparr>"
  let ?r = "module_CreateSnapshot sqlite_executions working_fs ?ws 9000 7 sample_app '' build '' [] ''2f8b1c9'' None (sample_db, {})"
  have trim: "TrimSpace '' build '' = ''build''" by code_simp
  have app: "p_ID sample_app = 1" by (simp add: sample_app_def project_of_row_def sample_project_row_def)
  have "\<exists>e. fst ?r = Inr e"
    by (simp add: module_CreateSnapshot_def Let_def trim working_fs_def EnqueueSnapshot_def app enqueue_def sqlite_executions_def
        CreateExecution_def sample_db_def empty_db_def sample_project_row_def Execution0_def insert_conflict_def attempt_keys_def app_enqueue_def)
  then obtain e d' files where r: "?r = (Inr e, (d', files))" by (metis prod.collapse)
  from snapshot_kept_iff_queued [where ws = ?ws and p = sample_app and i = 7 and files = "{}" and fs = working_fs and now = 9000
      and workflow = "'' build ''" and ref = "[]" and sha = "''2f8b1c9''" and user = None and d = sample_db] r
  show ?thesis by (simp add: app trim)
qed

end
