(* ===== verification/Caches.thy ===== *)
theory Caches
  imports AppProjects Workspace "HOL-Library.AList" "HOL-Library.Char_ord" "HOL-Library.List_Lexorder"
begin

text \<open>
  Caches, images and the docker sandbox of an execution: \<^verbatim>\<open>internal/ci/cache.go\<close>, the naming
  functions of \<^verbatim>\<open>internal/ci/artifacts.go\<close> and \<^verbatim>\<open>runner.go\<close>, \<^verbatim>\<open>internal/ci/sandbox.go\<close>, and the module that
  shows and removes them, \<^verbatim>\<open>internal/app/cache/cache.go\<close>. The container engine is a parameter: its
  answers (\<open>Inl\<close> an error) or an operation on its state.

  The lemmas show that names of different projects never meet, whatever the paths and workflows, so
  the module removes only what belongs to the project it was asked for, that a sandbox sees the
  volumes the binds name, and that a sandbox that fails to start is removed.
\<close>

section \<open>Detected caches\<close>

definition CacheMountPath :: string where
  "CacheMountPath = ''/pici/cache''"

definition cacheToken :: string where
  "cacheToken = ''{cache}''"

record cachePreset =
  cp_markers :: "string list"
  cp_env :: "(string \<times> string) list"
  cp_paths :: "string list"

definition preset :: "string list \<Rightarrow> (string \<times> string) list \<Rightarrow> string list \<Rightarrow> cachePreset" where
  "preset markers env paths = \<lparr>cp_markers = markers, cp_env = env, cp_paths = paths\<rparr>"

definition cachePresets :: "cachePreset list" where
  "cachePresets =
     [preset [''go.mod''] [(''GOMODCACHE'', cacheToken @ ''/gomod''), (''GOCACHE'', cacheToken @ ''/gobuild'')]
        [''gomod'', ''gobuild''],
      preset [''.golangci.yml'', ''.golangci.yaml'', ''.golangci.toml'', ''.golangci.json'']
        [(''GOLANGCI_LINT_CACHE'', cacheToken @ ''/golangci-lint'')] [''golangci-lint''],
      preset [''package.json''] [(''npm_config_cache'', cacheToken @ ''/npm'')] [''npm''],
      preset [''yarn.lock''] [(''YARN_CACHE_FOLDER'', cacheToken @ ''/yarn'')] [''yarn''],
      preset [''pnpm-lock.yaml''] [(''npm_config_store_dir'', cacheToken @ ''/pnpm'')] [''pnpm''],
      preset [''bun.lock'', ''bun.lockb''] [(''BUN_INSTALL'', cacheToken @ ''/bun'')] [''bun''],
      preset [''deno.json'', ''deno.jsonc''] [(''DENO_DIR'', cacheToken @ ''/deno'')] [''deno''],
      preset [''Cargo.toml''] [(''CARGO_HOME'', cacheToken @ ''/cargo'')] [''cargo''],
      preset [''requirements.txt'', ''pyproject.toml''] [(''PIP_CACHE_DIR'', cacheToken @ ''/pip'')] [''pip''],
      preset [''Gemfile''] [(''BUNDLE_PATH'', cacheToken @ ''/bundle'')] [''bundle''],
      preset [''composer.json''] [(''COMPOSER_CACHE_DIR'', cacheToken @ ''/composer'')] [''composer''],
      preset [''pom.xml''] [(''MAVEN_OPTS'', ''-Dmaven.repo.local='' @ cacheToken @ ''/m2'')] [''m2''],
      preset [''build.gradle'', ''build.gradle.kts''] [(''GRADLE_USER_HOME'', cacheToken @ ''/gradle'')] [''gradle''],
      preset [''*.csproj'', ''*.sln''] [(''NUGET_PACKAGES'', cacheToken @ ''/nuget'')] [''nuget''],
      preset [''*.tf''] [(''TF_PLUGIN_CACHE_DIR'', cacheToken @ ''/terraform'')] [''terraform'']]"

text \<open>\<open>matches\<close> is \<^verbatim>\<open>filepath.Glob\<close>; the environment is a map, as an association list.\<close>

definition set_env :: "(string \<times> string) list \<Rightarrow> (string \<times> string) list \<Rightarrow> (string \<times> string) list" where
  "set_env kvs env = foldl (\<lambda>m (k, v). AList.update k v m) env kvs"

fun detect :: "(string \<Rightarrow> string list) \<Rightarrow> string \<Rightarrow> string \<Rightarrow> cachePreset list
    \<Rightarrow> (string \<times> string) list \<times> string list \<Rightarrow> (string \<times> string) list \<times> string list" where
  "detect matches repoDir cacheRoot [] acc = acc"
| "detect matches repoDir cacheRoot (p # ps) (env, paths) =
     (if list_ex (\<lambda>marker. matches (Join [repoDir, marker]) \<noteq> []) (cp_markers p)
      then detect matches repoDir cacheRoot ps
             (set_env (map (\<lambda>(k, v). (k, ReplaceAll v cacheToken cacheRoot)) (cp_env p)) env, paths @ cp_paths p)
      else detect matches repoDir cacheRoot ps (env, paths))"

definition detectCaches :: "(string \<Rightarrow> string list) \<Rightarrow> string \<Rightarrow> string \<Rightarrow> (string \<times> string) list \<times> string list" where
  "detectCaches matches repoDir cacheRoot = detect matches repoDir cacheRoot cachePresets ([], [])"

section \<open>Names\<close>

definition CleanTags :: "string \<Rightarrow> string" where
  "CleanTags tag = ReplaceAll tag ''/'' ''_''"

definition ImagePrefix :: "string \<Rightarrow> string" where
  "ImagePrefix projectID = ''pici/'' @ CleanTags projectID @ ''-''"

definition imageTag :: "string \<Rightarrow> string \<Rightarrow> string" where
  "imageTag projectID workflow = ImagePrefix projectID @ CleanTags workflow"

definition VolumePrefix :: "string \<Rightarrow> string" where
  "VolumePrefix projectID = ''pici-cache-'' @ projectID @ ''-''"

text \<open>
  \<^verbatim>\<open>strings.ToLower\<close> of a path in UTF-8, as far as it gives ASCII letters: the Kelvin sign and the dotted
  capital I are the only other runes whose lower case is one. A rune outside the allowed set gives one
  hyphen, so the continuation bytes of UTF-8 produce nothing.
\<close>

definition lower_path :: "string \<Rightarrow> string" where
  "lower_path s =
     ToLower (ReplaceAll (ReplaceAll s [CHR 0xE2, CHR 0x84, CHR 0xAA] ''k'') [CHR 0xC4, CHR 0xB0] ''i'')"

definition volume_byte :: "char \<Rightarrow> bool" where
  "volume_byte c \<longleftrightarrow>
     (let n = (of_char c :: nat)
      in 97 \<le> n \<and> n \<le> 122 \<or> 48 \<le> n \<and> n \<le> 57 \<or> n = 95 \<or> n = 46 \<or> n = 45)"

definition volumeName :: "string \<Rightarrow> string \<Rightarrow> string" where
  "volumeName projectID path =
     VolumePrefix projectID @
     concat (map (\<lambda>c. if volume_byte c then [c]
                      else if 128 \<le> (of_char c :: nat) \<and> (of_char c :: nat) < 192 then []
                      else [CHR ''-'']) (lower_path path))"

definition cacheBinds :: "string \<Rightarrow> string \<Rightarrow> string list \<Rightarrow> string list" where
  "cacheBinds projectID mountPath paths =
     map (\<lambda>p. volumeName projectID p @ '':'' @ mountPath @ ''/'' @ p)
       (filter (\<lambda>p. p \<noteq> [] \<and> p \<noteq> ''.'') (map (\<lambda>p. TrimPrefix p ''/'') paths))"

section \<open>The sandbox\<close>

record registries =
  reg_Images :: string
  reg_HubCache :: string

definition registryReference :: "registries \<Rightarrow> string \<Rightarrow> string \<Rightarrow> string" where
  "registryReference registries projectID workflow =
     (if reg_Images registries = [] then [] else reg_Images registries @ ''/'' @ imageTag projectID workflow)"

record cache_mount =
  cm_Volume :: string
  cm_Target :: string

definition sandboxCaches :: "string list \<Rightarrow> cache_mount list" where
  "sandboxCaches caches =
     List.map_filter (\<lambda>c. map_option (\<lambda>(volume, target). \<lparr>cm_Volume = volume, cm_Target = target\<rparr>) (CutByte c (CHR '':''))) caches"

definition sandboxStepBinds :: "string \<Rightarrow> string list \<Rightarrow> string list" where
  "sandboxStepBinds mountPath caches =
     (mountPath @ '':'' @ mountPath)
     # List.map_filter (\<lambda>c. map_option (\<lambda>(_, target). target @ '':'' @ target) (CutByte c (CHR '':''))) caches"

record sandbox_options =
  so_Image :: string
  so_RepoDir :: string
  so_MountPath :: string
  so_Caches :: "cache_mount list"
  so_Registry :: string
  so_Mirror :: string
  so_Addr :: string
  so_Labels :: "(string \<times> string) list"

record sandbox =
  sb_ID :: string
  sb_Host :: string
  sb_StepHost :: string

text \<open>What the engine is asked, in order; \<open>answers\<close> gives the outcomes of the calls that can fail.\<close>

datatype sandbox_effect =
    CallCreateSandbox sandbox_options
  | CallDial string
  | CallPull string
  | CallClose
  | CallRemoveSandbox string

record sandbox_answers =
  an_create :: "sandbox_options \<Rightarrow> string + sandbox"
  an_dial :: "string \<Rightarrow> string + unit"
  an_pull :: "string \<Rightarrow> string + unit"

record sandbox_config =
  sc_SandboxImage :: string
  sc_MountPath :: string
  sc_SandboxAddr :: string

definition startSandbox ::
  "sandbox_config \<Rightarrow> sandbox_answers \<Rightarrow> registries \<Rightarrow> uuid \<Rightarrow> int \<Rightarrow> string \<Rightarrow> string list \<Rightarrow> string
     \<Rightarrow> (string + sandbox) \<times> sandbox_effect list" where
  "startSandbox r a registries projectID execID repoDir caches img =
     (if reg_Images registries = [] then (Inl ''image registry is not running'', [])
      else
        (let opts = \<lparr>so_Image = sc_SandboxImage r, so_RepoDir = repoDir, so_MountPath = sc_MountPath r,
                     so_Caches = sandboxCaches caches, so_Registry = reg_Images registries,
                     so_Mirror = reg_HubCache registries, so_Addr = sc_SandboxAddr r,
                     so_Labels = [(''pici.sandbox'', ''1''), (''pici.project'', uuid_String projectID),
                                  (''pici.attempt'', itoa execID)]\<rparr>
         in case an_create a opts of
              Inl e \<Rightarrow> (Inl e, [CallCreateSandbox opts])
            | Inr sb \<Rightarrow>
                (case an_dial a (sb_Host sb) of
                   Inl e \<Rightarrow> (Inl e, [CallCreateSandbox opts, CallDial (sb_Host sb), CallRemoveSandbox (sb_ID sb)])
                 | Inr _ \<Rightarrow>
                     (case an_pull a img of
                        Inl e \<Rightarrow> (Inl e, [CallCreateSandbox opts, CallDial (sb_Host sb), CallPull img, CallClose,
                                          CallRemoveSandbox (sb_ID sb)])
                      | Inr _ \<Rightarrow> (Inr sb, [CallCreateSandbox opts, CallDial (sb_Host sb), CallPull img])))))"

definition stopSandbox :: "sandbox \<Rightarrow> sandbox_effect list" where
  "stopSandbox sb = [CallClose, CallRemoveSandbox (sb_ID sb)]"

section \<open>The cache module\<close>

record docker_image =
  di_Tags :: "string list"
  di_Size :: int
  di_Created :: go_time
  di_Containers :: int

record docker_volume =
  dv_Name :: string
  dv_Created :: go_time

record image_entry =
  ie_Reference :: string
  ie_Size :: int
  ie_Created :: go_time
  ie_Containers :: int

record volume_entry =
  ve_Name :: string
  ve_Cache :: string
  ve_Size :: int
  ve_Created :: go_time

record cache_summary =
  cs_Images :: "image_entry list"
  cs_Volumes :: "volume_entry list"
  cs_ImagesSize :: int
  cs_VolumesSize :: int
  cs_TotalSize :: int

text \<open>The operations of the engine on its state \<open>'e\<close>; the module keeps the last known sizes of the volumes.\<close>

record 'e cache_engine =
  eg_Images :: "string \<Rightarrow> 'e \<Rightarrow> string + docker_image list"
  eg_Volumes :: "string \<Rightarrow> 'e \<Rightarrow> string + docker_volume list"
  eg_VolumeUsage :: "'e \<Rightarrow> string + (string \<rightharpoonup> int)"
  eg_RemoveImage :: "string \<Rightarrow> 'e \<Rightarrow> (string + unit) \<times> 'e"
  eg_RemoveVolume :: "string \<Rightarrow> 'e \<Rightarrow> (string + unit) \<times> 'e"
  eg_PurgeRegistry :: "'e \<Rightarrow> (string + unit) \<times> 'e"

record 'e cache_state =
  ca_sizes :: "(string \<rightharpoonup> int) option"
  ca_engine :: 'e

definition RegistryVolumeNames :: "string list" where
  "RegistryVolumeNames = [''pici-registry-images'', ''pici-registry-hub-cache'']"

definition size_of :: "(string \<rightharpoonup> int) \<Rightarrow> string \<Rightarrow> int" where
  "size_of sizes name = (case sizes name of None \<Rightarrow> 0 | Some n \<Rightarrow> n)"

definition refresh :: "'e cache_engine \<Rightarrow> 'e cache_state \<Rightarrow> 'e cache_state" where
  "refresh g s = (case eg_VolumeUsage g (ca_engine s) of Inl _ \<Rightarrow> s | Inr sizes \<Rightarrow> s\<lparr>ca_sizes := Some sizes\<rparr>)"

definition volumeSizes :: "'e cache_engine \<Rightarrow> 'e cache_state \<Rightarrow> (app_error + (string \<rightharpoonup> int)) \<times> 'e cache_state" where
  "volumeSizes g s =
     (case ca_sizes s of
        Some sizes \<Rightarrow> (Inr sizes, s)
      | None \<Rightarrow>
          (case eg_VolumeUsage g (ca_engine s) of
             Inl e \<Rightarrow> (Inl (AppOther e), s)
           | Inr sizes \<Rightarrow> (Inr sizes, s\<lparr>ca_sizes := Some sizes\<rparr>)))"

definition forgetSizes :: "string list \<Rightarrow> 'e cache_state \<Rightarrow> 'e cache_state" where
  "forgetSizes names s = s\<lparr>ca_sizes := map_option (\<lambda>m. m |` (- set names)) (ca_sizes s)\<rparr>"

definition image_entries :: "string \<Rightarrow> docker_image list \<Rightarrow> image_entry list" where
  "image_entries imagePrefix images =
     List.map_filter (\<lambda>img.
       case find (\<lambda>tag. HasPrefix tag imagePrefix) (di_Tags img) of
         None \<Rightarrow> None
       | Some reference \<Rightarrow> Some \<lparr>ie_Reference = reference, ie_Size = di_Size img, ie_Created = di_Created img,
                                  ie_Containers = di_Containers img\<rparr>) images"

definition volume_entries :: "string \<Rightarrow> (string \<rightharpoonup> int) \<Rightarrow> docker_volume list \<Rightarrow> volume_entry list" where
  "volume_entries volumePrefix sizes volumes =
     map (\<lambda>v. \<lparr>ve_Name = dv_Name v, ve_Cache = TrimPrefix (dv_Name v) volumePrefix, ve_Size = size_of sizes (dv_Name v),
               ve_Created = dv_Created v\<rparr>) volumes"

text \<open>\<open>None\<close> is the module without an engine. \<^verbatim>\<open>sort.Slice\<close> is not stable; the keys are names the engine keeps distinct.\<close>

definition cache_Get ::
  "'e cache_engine option \<Rightarrow> uuid \<Rightarrow> 'e cache_state \<Rightarrow> (app_error + cache_summary) \<times> 'e cache_state" where
  "cache_Get engine projectID s =
     (case engine of
        None \<Rightarrow> (Inl AppUnavailable, s)
      | Some g \<Rightarrow>
          (let imagePrefix = ImagePrefix (uuid_String projectID); volumePrefix = VolumePrefix (uuid_String projectID)
           in case eg_Images g (imagePrefix @ ''*'') (ca_engine s) of
                Inl e \<Rightarrow> (Inl (AppOther e), s)
              | Inr images \<Rightarrow>
                  (case volumeSizes g s of
                     (Inl e, s') \<Rightarrow> (Inl e, s')
                   | (Inr sizes, s') \<Rightarrow>
                       (case eg_Volumes g volumePrefix (ca_engine s') of
                          Inl e \<Rightarrow> (Inl (AppOther e), s')
                        | Inr volumes \<Rightarrow>
                            (let is = image_entries imagePrefix images;
                                 vs = volume_entries volumePrefix sizes volumes;
                                 isz = sum_list (map ie_Size is);
                                 vsz = sum_list (map ve_Size vs)
                             in (Inr \<lparr>cs_Images = sort_key ie_Reference is, cs_Volumes = sort_key ve_Cache vs,
                                      cs_ImagesSize = isz, cs_VolumesSize = vsz, cs_TotalSize = isz + vsz\<rparr>, s'))))))"

definition cache_RemoveImage ::
  "'e cache_engine option \<Rightarrow> uuid \<Rightarrow> string \<Rightarrow> 'e cache_state \<Rightarrow> (app_error + unit) \<times> 'e cache_state" where
  "cache_RemoveImage engine projectID reference s =
     (if \<not> HasPrefix reference (ImagePrefix (uuid_String projectID)) then (Inl (AppInvalid ''unknown image''), s)
      else (case engine of
              None \<Rightarrow> (Inl AppUnavailable, s)
            | Some g \<Rightarrow>
                (case eg_RemoveImage g reference (ca_engine s) of
                   (Inl e, d) \<Rightarrow> (Inl (AppOther e), s\<lparr>ca_engine := d\<rparr>)
                 | (Inr _, d) \<Rightarrow> (Inr (), s\<lparr>ca_engine := d\<rparr>))))"

definition cache_RemoveVolume ::
  "'e cache_engine option \<Rightarrow> uuid \<Rightarrow> string \<Rightarrow> 'e cache_state \<Rightarrow> (app_error + unit) \<times> 'e cache_state" where
  "cache_RemoveVolume engine projectID name s =
     (if \<not> HasPrefix name (VolumePrefix (uuid_String projectID)) then (Inl (AppInvalid ''unknown cache volume''), s)
      else (case engine of
              None \<Rightarrow> (Inl AppUnavailable, s)
            | Some g \<Rightarrow>
                (case eg_RemoveVolume g name (ca_engine s) of
                   (Inl e, d) \<Rightarrow> (Inl (AppOther e), s\<lparr>ca_engine := d\<rparr>)
                 | (Inr _, d) \<Rightarrow> (Inr (), forgetSizes [name] (s\<lparr>ca_engine := d\<rparr>)))))"

definition RegistrySize :: "'e cache_engine option \<Rightarrow> 'e cache_state \<Rightarrow> (app_error + int) \<times> 'e cache_state" where
  "RegistrySize engine s =
     (case engine of
        None \<Rightarrow> (Inl AppUnavailable, s)
      | Some g \<Rightarrow>
          (case volumeSizes g s of
             (Inl e, s') \<Rightarrow> (Inl e, s')
           | (Inr sizes, s') \<Rightarrow> (Inr (sum_list (map (size_of sizes) RegistryVolumeNames)), s')))"

definition cache_PurgeRegistry :: "'e cache_engine option \<Rightarrow> 'e cache_state \<Rightarrow> (app_error + unit) \<times> 'e cache_state" where
  "cache_PurgeRegistry engine s =
     (case engine of
        None \<Rightarrow> (Inl AppUnavailable, s)
      | Some g \<Rightarrow>
          (case eg_PurgeRegistry g (ca_engine s) of
             (Inl e, d) \<Rightarrow> (Inl (AppOther e), s\<lparr>ca_engine := d\<rparr>)
           | (Inr _, d) \<Rightarrow> (Inr (), forgetSizes RegistryVolumeNames (s\<lparr>ca_engine := d\<rparr>))))"

section \<open>Names of different projects never meet\<close>

lemma ReplaceAll_char: "ReplaceAll s [a] [b] = map (\<lambda>c. if c = a then b else c) s"
proof (induction s)
  case (Cons x s)
  then show ?case by (auto simp: ReplaceAll.simps [of "x # s"])
qed simp

lemma CleanTags_uuid [simp]: "CleanTags (uuid_String i) = uuid_String i"
  unfolding CleanTags_def ReplaceAll_char
  by (intro map_idI) (use plainD plain_uuid in fastforce)

lemma prefix_same_length: "prefix a s \<Longrightarrow> prefix b s \<Longrightarrow> length a = length b \<Longrightarrow> a = b"
  by (auto simp: prefix_def)

lemma VolumePrefix_inj:
  assumes "HasPrefix s (VolumePrefix (uuid_String p))" "HasPrefix s (VolumePrefix (uuid_String q))"
  shows "p = q"
  using prefix_same_length [OF assms [unfolded HasPrefix_def]] by (auto simp: VolumePrefix_def)

lemma ImagePrefix_inj:
  assumes "HasPrefix s (ImagePrefix (uuid_String p))" "HasPrefix s (ImagePrefix (uuid_String q))"
  shows "p = q"
  using prefix_same_length [OF assms [unfolded HasPrefix_def]] by (auto simp: ImagePrefix_def)

lemma own_prefixes [simp]:
  "HasPrefix (volumeName projectID path) (VolumePrefix projectID)"
  "HasPrefix (imageTag projectID workflow) (ImagePrefix projectID)"
  by (simp_all add: HasPrefix_def volumeName_def imageTag_def)

lemma in_map_filter: "y \<in> set (List.map_filter f xs) \<longleftrightarrow> (\<exists>x \<in> set xs. f x = Some y)"
  by (force simp: List.map_filter_def)

lemma image_entries_prefix: "e \<in> set (image_entries pre images) \<Longrightarrow> HasPrefix (ie_Reference e) pre"
proof -
  assume "e \<in> set (image_entries pre images)"
  then obtain img :: docker_image where img: "(case find (\<lambda>tag. HasPrefix tag pre) (di_Tags img) of
      None \<Rightarrow> None
    | Some reference \<Rightarrow> Some \<lparr>ie_Reference = reference, ie_Size = di_Size img, ie_Created = di_Created img,
                               ie_Containers = di_Containers img\<rparr>) = Some e"
    unfolding image_entries_def in_map_filter by blast
  then obtain tag where "find (\<lambda>tag. HasPrefix tag pre) (di_Tags img) = Some tag" "ie_Reference e = tag"
    by (cases "find (\<lambda>tag. HasPrefix tag pre) (di_Tags img)") auto
  with find_SomeD show ?thesis by fastforce
qed

lemma volume_bytes: "c \<in> set (volumeName (uuid_String p) path) \<Longrightarrow> volume_byte c"
proof -
  have "list_all volume_byte ''pici-cache-''" by code_simp
  moreover have "volume_byte d" if "d \<in> set (uuid_String p)" for d
    using uuid_String_chars [OF that] by (auto simp: hex_or_dash_def volume_byte_def Let_def)
  moreover have "volume_byte (CHR ''-'')" by code_simp
  moreover assume "c \<in> set (volumeName (uuid_String p) path)"
  ultimately show ?thesis
    by (auto simp: volumeName_def VolumePrefix_def list_all_iff split: if_splits)
qed

lemma no_colon: "CHR '':'' \<notin> set (volumeName (uuid_String p) path)"
  using volume_bytes [of "CHR '':''" p path] by (auto simp: volume_byte_def)

lemma CutByte_append: "c \<notin> set a \<Longrightarrow> CutByte (a @ c # b) c = Some (a, b)"
  by (induction a) auto

lemma cut_bind: "CutByte (volumeName (uuid_String p) path @ '':'' @ target) (CHR '':'') = Some (volumeName (uuid_String p) path, target)"
  using CutByte_append [OF no_colon] by simp

section \<open>Properties\<close>

lemma caches_disjoint:
  assumes "p \<noteq> q"
  shows "volumeName (uuid_String p) a \<noteq> volumeName (uuid_String q) b"
    and "imageTag (uuid_String p) v \<noteq> imageTag (uuid_String q) w"
    and "cache_RemoveVolume engine p (volumeName (uuid_String q) b) s = (Inl (AppInvalid ''unknown cache volume''), s)"
    and "cache_RemoveImage engine p (imageTag (uuid_String q) w) s = (Inl (AppInvalid ''unknown image''), s)"
    and "cache_Get engine p s = (Inr summary, s') \<Longrightarrow> e \<in> set (cs_Images summary) \<Longrightarrow>
      HasPrefix (ie_Reference e) (ImagePrefix (uuid_String p)) \<and> ie_Reference e \<noteq> imageTag (uuid_String q) w"
proof -
  show "volumeName (uuid_String p) a \<noteq> volumeName (uuid_String q) b"
    using assms VolumePrefix_inj own_prefixes(1) by metis
  show "imageTag (uuid_String p) v \<noteq> imageTag (uuid_String q) w"
    using assms ImagePrefix_inj own_prefixes(2) by metis
  show "cache_RemoveVolume engine p (volumeName (uuid_String q) b) s = (Inl (AppInvalid ''unknown cache volume''), s)"
    using assms VolumePrefix_inj [OF _ own_prefixes(1)] by (auto simp: cache_RemoveVolume_def)
  show "cache_RemoveImage engine p (imageTag (uuid_String q) w) s = (Inl (AppInvalid ''unknown image''), s)"
    using assms ImagePrefix_inj [OF _ own_prefixes(2)] by (auto simp: cache_RemoveImage_def)
  assume get: "cache_Get engine p s = (Inr summary, s')" and e: "e \<in> set (cs_Images summary)"
  from get obtain images where "set (cs_Images summary) = set (image_entries (ImagePrefix (uuid_String p)) images)"
    by (auto simp: cache_Get_def Let_def split: option.splits sum.splits prod.splits)
  with e have pre: "HasPrefix (ie_Reference e) (ImagePrefix (uuid_String p))" by (auto dest: image_entries_prefix)
  moreover have "ie_Reference e \<noteq> imageTag (uuid_String q) w"
    using assms ImagePrefix_inj [OF pre] own_prefixes(2) by metis
  ultimately show "HasPrefix (ie_Reference e) (ImagePrefix (uuid_String p)) \<and> ie_Reference e \<noteq> imageTag (uuid_String q) w" ..
qed

text \<open>
  C28. Caches and images are private to their project: whatever the cache paths and workflow names, no
  volume or image of one project has the name of another's, the cache module refuses to remove one through a
  different project without touching the engine, and the listing of a project shows none of another's images.
\<close>

theorem project_caches_disjoint:
  assumes "p \<noteq> q"
  shows "volumeName (uuid_String p) a \<noteq> volumeName (uuid_String q) b
    \<and> imageTag (uuid_String p) v \<noteq> imageTag (uuid_String q) w
    \<and> cache_RemoveVolume engine p (volumeName (uuid_String q) b) s = (Inl (AppInvalid ''unknown cache volume''), s)
    \<and> cache_RemoveImage engine p (imageTag (uuid_String q) w) s = (Inl (AppInvalid ''unknown image''), s)
    \<and> (\<forall>summary s' e. cache_Get engine p s = (Inr summary, s') \<and> e \<in> set (cs_Images summary) \<longrightarrow>
        HasPrefix (ie_Reference e) (ImagePrefix (uuid_String p)) \<and> ie_Reference e \<noteq> imageTag (uuid_String q) w)"
  by (intro conjI allI impI; (elim conjE)?) (use caches_disjoint [OF assms] in blast)+

definition sample_engine :: "string list cache_engine" where
  "sample_engine =
     \<lparr>eg_Images = (\<lambda>_ _. Inr []), eg_Volumes = (\<lambda>_ names. Inr (map (\<lambda>n. \<lparr>dv_Name = n, dv_Created = 0\<rparr>) names)),
      eg_VolumeUsage = (\<lambda>_. Inr (\<lambda>_. None)), eg_RemoveImage = (\<lambda>_ d. (Inr (), d)),
      eg_RemoveVolume = (\<lambda>n d. (Inr (), removeAll n d)), eg_PurgeRegistry = (\<lambda>d. (Inr (), d))\<rparr>"

theorem project_caches_disjoint_witness:
  "volumeName (uuid_String 1) ''a/b'' \<noteq> volumeName (uuid_String 2) ''a/b''
   \<and> cache_RemoveVolume (Some sample_engine) 1 (volumeName (uuid_String 2) ''gomod'')
        \<lparr>ca_sizes = None, ca_engine = [volumeName (uuid_String 2) ''gomod'']\<rparr>
      = (Inl (AppInvalid ''unknown cache volume''), \<lparr>ca_sizes = None, ca_engine = [volumeName (uuid_String 2) ''gomod'']\<rparr>)"
proof -
  have "(1::uuid) \<noteq> 2" by simp
  from project_caches_disjoint [OF this, of "''a/b''" "''a/b''"] project_caches_disjoint [OF this, of _ "''gomod''"] show ?thesis by blast
qed

text \<open>
  Mounted caches: the bind of a cache path splits at its first colon into the volume and the path below the mount
  point, so the sandbox mounts the same volumes at the same targets as the steps outside a sandbox, and a step inside it
  sees the repository and every cache at its own path. Volume names only have characters docker accepts.
\<close>

theorem sandbox_mounts_caches:
  "sandboxCaches (cacheBinds (uuid_String i) mountPath paths)
     = map (\<lambda>p. \<lparr>cm_Volume = volumeName (uuid_String i) p, cm_Target = mountPath @ ''/'' @ p\<rparr>)
         (filter (\<lambda>p. p \<noteq> [] \<and> p \<noteq> ''.'') (map (\<lambda>p. TrimPrefix p ''/'') paths))
   \<and> sandboxStepBinds mountPath (cacheBinds (uuid_String i) mountPath paths)
     = (mountPath @ '':'' @ mountPath)
       # map (\<lambda>m. cm_Target m @ '':'' @ cm_Target m) (sandboxCaches (cacheBinds (uuid_String i) mountPath paths))
   \<and> (\<forall>m. m \<in> set (sandboxCaches (cacheBinds (uuid_String i) mountPath paths)) \<longrightarrow> list_all volume_byte (cm_Volume m))"
proof -
  let ?ps = "filter (\<lambda>p. p \<noteq> [] \<and> p \<noteq> ''.'') (map (\<lambda>p. TrimPrefix p ''/'') paths)"
  have cut: "CutByte (volumeName (uuid_String i) p @ CHR '':'' # mountPath @ CHR ''/'' # p) (CHR '':'')
      = Some (volumeName (uuid_String i) p, mountPath @ CHR ''/'' # p)" for p
    using cut_bind [of i p "mountPath @ CHR ''/'' # p"] by simp
  have caches: "sandboxCaches (cacheBinds (uuid_String i) mountPath paths)
      = map (\<lambda>p. \<lparr>cm_Volume = volumeName (uuid_String i) p, cm_Target = mountPath @ ''/'' @ p\<rparr>) ?ps"
    by (simp add: sandboxCaches_def cacheBinds_def List.map_filter_def cut comp_def)
  moreover have "sandboxStepBinds mountPath (cacheBinds (uuid_String i) mountPath paths)
     = (mountPath @ '':'' @ mountPath) # map (\<lambda>m. cm_Target m @ '':'' @ cm_Target m)
         (sandboxCaches (cacheBinds (uuid_String i) mountPath paths))"
    unfolding caches by (simp add: sandboxStepBinds_def cacheBinds_def List.map_filter_def cut comp_def)
  ultimately show ?thesis using volume_bytes by (auto simp: list_all_iff)
qed

theorem sandbox_mounts_caches_witness:
  "list_all volume_byte (volumeName (uuid_String 7) ''Web/node_modules'')"
proof -
  have "\<lparr>cm_Volume = volumeName (uuid_String 7) ''Web/node_modules'', cm_Target = ''/repo/Web/node_modules''\<rparr>
      \<in> set (sandboxCaches (cacheBinds (uuid_String 7) ''/repo'' [''/Web/node_modules'']))"
    using sandbox_mounts_caches [of 7 "''/repo''" "[''/Web/node_modules'']"] by (simp add: TrimPrefix_def)
  with sandbox_mounts_caches [of 7 "''/repo''" "[''/Web/node_modules'']"] show ?thesis by fastforce
qed

text \<open>Distinct cache paths can share a volume, and so can a path of the workflow and a detected one.\<close>

lemma volume_collisions:
  "volumeName projectID ''a/b'' = volumeName projectID ''a-b''"
  "cacheBinds projectID ''/repo'' [''gomod''] = [volumeName projectID ''gomod'' @ '':/repo/gomod'']"
  "cacheBinds projectID CacheMountPath [''gomod''] = [volumeName projectID ''gomod'' @ '':/pici/cache/gomod'']"
proof -
  have "lower_path ''a/b'' = ''a/b''" "lower_path ''a-b'' = ''a-b''" by code_simp+
  then show "volumeName projectID ''a/b'' = volumeName projectID ''a-b''"
    by (simp add: volumeName_def volume_byte_def)
qed (simp_all add: cacheBinds_def TrimPrefix_def CacheMountPath_def)

text \<open>A sandbox that was created but cannot be used is removed.\<close>

lemma startSandbox_leaves_nothing:
  "startSandbox r a regs i k dir caches img = (Inl e, effects) \<Longrightarrow> CallCreateSandbox opts \<in> set effects \<Longrightarrow>
     an_create a opts = Inr sb \<Longrightarrow> last effects = CallRemoveSandbox (sb_ID sb)"
  by (auto simp: startSandbox_def Let_def split: if_splits sum.splits)

end
