(* ===== verification/WebUi.thy ===== *)
theory WebUi
  imports WebLogin AppProjects Executions Caches "HOL-Library.Char_ord" "HOL-Library.List_Lexorder"
begin

text \<open>
  The pages and forms of the web interface: \<^verbatim>\<open>web.go\<close>, \<^verbatim>\<open>account.go\<close>, \<^verbatim>\<open>projects.go\<close>, \<^verbatim>\<open>variables.go\<close>, \<^verbatim>\<open>executions.go\<close>,
  \<^verbatim>\<open>cache.go\<close> and \<^verbatim>\<open>errors.go\<close> of \<^verbatim>\<open>internal/web\<close>. One function per handler, over the record \<open>ui_modules\<close> of the
  operations of the application modules on a state, and \<open>ui_serve\<close> for the table of routes. A page is kept as the data
  its template gets. \<open>sqlite_modules\<close> instantiates the operations with the models of the modules and of the SQLite store.

  The lemmas show that no request without the token of its session changes anything, but for the page that discovers workflows,
  and what a form shows of the stored secrets.
\<close>

section \<open>Pages\<close>

record ui_base =
  ub_Title :: string
  ub_CSRFToken :: string
  ub_FlashKind :: string
  ub_FlashText :: string
  ub_User :: "user option"

record project_fields =
  uf_RepoURL :: string
  uf_Provider :: provider
  uf_DefaultBranch :: string
  uf_AuthType :: auth_type
  uf_AuthUser :: string
  uf_Secret :: string
  uf_WebhookPayloadURL :: string
  uf_WebhookSetupURL :: string

record step_view =
  uv_Index :: nat
  uv_LogSource :: string
  uv_Result :: step_result
  uv_Logs :: string

record execution_page =
  ep_Execution :: execution
  ep_Project :: project
  ep_Artifacts :: "string list"
  ep_Steps :: "step_view list"
  ep_SetupLog :: string
  ep_Running :: bool
  ep_Attempts :: "execution list"
  ep_IsLatest :: bool

datatype ui_page =
    ErrorPage string
  | FlashPage string
  | SignInPage login_page
  | AccountPage "(api_token \<times> bool) list" "(session \<times> bool) list" string string
  | ProjectsPage "project list"
  | ProjectForm project project_fields bool string
  | ProjectPage project "execution list" "string list" string string
  | WorkflowsPage "string list" string
  | RefsPage "string list" "string list" string string
  | DetectPage project_fields
  | CachePage project "cache_summary option" int
  | VariablesPage "variable list"
  | ProjectVariablesPage project "variable list" "variable list" "string list"
  | ExecutionPage execution_page
  | LogText string
  | EventStream uuid int
  | ArtifactFile string
  | SchemaFile

type_synonym 's ui_result = "(ui_base \<times> ui_page) web_response \<times> 's"
type_synonym 's ui_handler = "principal option \<Rightarrow> web_request \<Rightarrow> 's \<Rightarrow> 's ui_result"

text \<open>The operations of the modules, with what they take from their environment.\<close>

record 's ui_modules =
  um_uuid_parse :: "string \<Rightarrow> uuid option"
  um_publicBaseURL :: string
  um_path_escape :: "string \<Rightarrow> string"
  um_url_parse :: "string \<Rightarrow> (string \<times> string) option"
  um_Resolve :: "string \<Rightarrow> ('s, project) app_op"
  um_ListProjects :: "('s, project list) app_op"
  um_CreateProject :: "project \<Rightarrow> ('s, project) app_op"
  um_UpdateProject :: "project \<Rightarrow> ('s, project) app_op"
  um_DeleteProject :: "uuid \<Rightarrow> ('s, unit) app_op"
  um_Detect :: "project \<Rightarrow> project"
  um_Discover :: "project \<Rightarrow> string \<Rightarrow> string + string list"
  um_SyncSchedules :: "project \<Rightarrow> ('s, unit) app_op"
  um_ListRefs :: "project \<Rightarrow> string + string list \<times> string list"
  um_ListVariables :: "uuid option \<Rightarrow> ('s, variable list) app_op"
  um_SetVariable :: "variable \<Rightarrow> ('s, variable) app_op"
  um_DeleteVariable :: "uuid option \<Rightarrow> string \<Rightarrow> ('s, unit) app_op"
  um_ListExecutions :: "uuid \<Rightarrow> int \<Rightarrow> ('s, execution list) app_op"
  um_Create :: "project \<Rightarrow> string \<Rightarrow> string \<Rightarrow> uuid option \<Rightarrow> ('s, execution) app_op"
  um_Get :: "uuid \<Rightarrow> int \<Rightarrow> int \<Rightarrow> ('s, view) app_op"
  um_Cancel :: "uuid \<Rightarrow> int \<Rightarrow> ('s, unit) app_op"
  um_Rebuild :: "project \<Rightarrow> int \<Rightarrow> uuid option \<Rightarrow> ('s, execution) app_op"
  um_Retry :: "project \<Rightarrow> int \<Rightarrow> int \<Rightarrow> uuid option \<Rightarrow> ('s, execution) app_op"
  um_Logs :: "execution \<Rightarrow> string"
  um_StepLog :: "execution \<Rightarrow> string \<Rightarrow> app_error + string"
  um_SetupLog :: "execution \<Rightarrow> app_error + string"
  um_Artifacts :: "execution \<Rightarrow> string list"
  um_OpenArtifact :: "execution \<Rightarrow> string \<Rightarrow> string \<Rightarrow> app_error + string"
  um_CacheGet :: "project \<Rightarrow> ('s, cache_summary) app_op"
  um_RegistrySize :: "('s, int) app_op"
  um_RemoveImage :: "project \<Rightarrow> string \<Rightarrow> ('s, unit) app_op"
  um_RemoveVolume :: "project \<Rightarrow> string \<Rightarrow> ('s, unit) app_op"
  um_PurgeRegistry :: "('s, unit) app_op"
  um_ListAPITokens :: "uuid \<Rightarrow> ('s, api_token list) app_op"
  um_ListSessions :: "uuid \<Rightarrow> ('s, session list) app_op"
  um_CreateAPIToken :: "uuid \<Rightarrow> string \<Rightarrow> go_time option \<Rightarrow> ('s, string) app_op"
  um_RenameAPIToken :: "uuid \<Rightarrow> uuid \<Rightarrow> string \<Rightarrow> ('s, unit) app_op"
  um_DeleteAPIToken :: "uuid \<Rightarrow> uuid \<Rightarrow> ('s, unit) app_op"
  um_DeleteSession :: "uuid \<Rightarrow> string \<Rightarrow> ('s, unit) app_op"
  um_DeleteAllSessions :: "uuid \<Rightarrow> ('s, unit) app_op"

section \<open>Rendering\<close>

definition flashCookie :: string where "flashCookie = ''pici_flash''"

definition QueryUnescape :: "string \<Rightarrow> string option" where
  "QueryUnescape s = unescape (map (\<lambda>c. if c = CHR ''+'' then CHR '' '' else c) s)"

definition ui_base :: "principal option \<Rightarrow> web_request \<Rightarrow> string \<Rightarrow> ui_base" where
  "ui_base pr rq title =
     (let (kind, text) = (case request_cookie rq flashCookie of
                            None \<Rightarrow> ([], [])
                          | Some v \<Rightarrow>
                              (if v = [] then ([], [])
                               else (let (kind, text) = cut_at (CHR '':'') v
                                     in (kind, case QueryUnescape text of None \<Rightarrow> text | Some t \<Rightarrow> t))))
      in \<lparr>ub_Title = title,
          ub_CSRFToken = (case pr of None \<Rightarrow> [] | Some p \<Rightarrow> (case pr_Session p of None \<Rightarrow> [] | Some x \<Rightarrow> s_CSRFToken x)),
          ub_FlashKind = kind, ub_FlashText = text, ub_User = map_option pr_User pr\<rparr>)"

text \<open>Rendering the flash message clears its cookie.\<close>

definition clear_flash :: "web_request \<Rightarrow> http_cookie list" where
  "clear_flash rq =
     (if request_cookie rq flashCookie = None \<or> request_cookie rq flashCookie = Some [] then []
      else [\<lparr>hc_Name = flashCookie, hc_Value = [], hc_Path = ''/'', hc_MaxAge = - 1, hc_HttpOnly = False, hc_Secure = False, hc_SameSiteLax = False\<rparr>])"

definition ui_render :: "principal option \<Rightarrow> web_request \<Rightarrow> int \<Rightarrow> string \<Rightarrow> ui_page \<Rightarrow> (ui_base \<times> ui_page) web_response" where
  "ui_render pr rq code title page = add_cookies (clear_flash rq) (page_response code (ui_base pr rq title, page))"

definition ui_notFound :: "principal option \<Rightarrow> web_request \<Rightarrow> (ui_base \<times> ui_page) web_response" where
  "ui_notFound pr rq = ui_render pr rq 404 ''Not found'' (ErrorPage ''This page does not exist.'')"

definition ui_serverError :: "principal option \<Rightarrow> web_request \<Rightarrow> (ui_base \<times> ui_page) web_response" where
  "ui_serverError pr rq =
     (if wq_HX rq
      then page_response 500 (\<lparr>ub_Title = [], ub_CSRFToken = [], ub_FlashKind = ''error'', ub_FlashText = ''Something went wrong.'', ub_User = None\<rparr>,
                              FlashPage ''flash'')
      else ui_render pr rq 500 ''Error'' (ErrorPage ''Something went wrong.''))"

definition ui_storeError :: "principal option \<Rightarrow> web_request \<Rightarrow> app_error \<Rightarrow> (ui_base \<times> ui_page) web_response" where
  "ui_storeError pr rq e =
     (if e = AppStore ErrNotFound \<or> e = AppNotFound then ui_notFound pr rq else ui_serverError pr rq)"

definition setFlash :: "string \<Rightarrow> string \<Rightarrow> http_cookie" where
  "setFlash kind text =
     \<lparr>hc_Name = flashCookie, hc_Value = kind @ '':'' @ QueryEscape text, hc_Path = ''/'', hc_MaxAge = 60, hc_HttpOnly = True,
      hc_Secure = False, hc_SameSiteLax = True\<rparr>"

definition flash_redirect :: "web_request \<Rightarrow> string \<Rightarrow> string \<Rightarrow> string \<Rightarrow> 'b web_response" where
  "flash_redirect rq kind text to = add_cookies [setFlash kind text] (web_redirect rq to)"

text \<open>The beginnings the handlers share: the check of the token, the signed in user, the project of the path.\<close>

definition ui_checked :: "principal option \<Rightarrow> web_request \<Rightarrow> ('s \<Rightarrow> 's ui_result) \<Rightarrow> 's \<Rightarrow> 's ui_result" where
  "ui_checked pr rq h s = (if \<not> validCSRF pr rq then (status_response 403, s) else h s)"

definition ui_user :: "principal option \<Rightarrow> web_request \<Rightarrow> (principal \<Rightarrow> 's \<Rightarrow> 's ui_result) \<Rightarrow> 's \<Rightarrow> 's ui_result" where
  "ui_user pr rq h s = (case pr of None \<Rightarrow> (redirectToLogin rq, s) | Some p \<Rightarrow> h p s)"

definition ui_project :: "'s ui_modules \<Rightarrow> principal option \<Rightarrow> web_request \<Rightarrow> string \<Rightarrow> (project \<Rightarrow> 's \<Rightarrow> 's ui_result) \<Rightarrow> 's \<Rightarrow> 's ui_result" where
  "ui_project m pr rq ref h s =
     (case um_Resolve m ref s of (Inl e, s1) \<Rightarrow> (ui_storeError pr rq e, s1) | (Inr p, s1) \<Rightarrow> h p s1)"

definition UserID :: "principal option \<Rightarrow> uuid option" where
  "UserID pr = map_option (\<lambda>p. u_ID (pr_User p)) pr"

definition project_url :: "project \<Rightarrow> string" where
  "project_url p = ''/projects/'' @ uuid_String (p_ID p)"

section \<open>The account\<close>

definition defaultTokenLifetime :: go_duration where "defaultTokenLifetime = 90 * 24 * hour"

definition tokenExpiry :: "go_time \<Rightarrow> string \<Rightarrow> string + go_time option" where
  "tokenExpiry now v =
     (if v = [] \<or> v = ''90d'' then Inr (Some (now + defaultTokenLifetime))
      else if v = ''30d'' then Inr (Some (now + 30 * 24 * hour))
      else if v = ''365d'' then Inr (Some (now + 365 * 24 * hour))
      else if v = ''never'' then Inr None
      else Inl ''invalid token expiration'')"

definition accountData ::
  "'s ui_modules \<Rightarrow> go_time \<Rightarrow> principal \<Rightarrow> string \<Rightarrow> string \<Rightarrow> 's \<Rightarrow> (app_error + ui_page) \<times> 's" where
  "accountData m now p newToken newTokenName s =
     (case um_ListAPITokens m (u_ID (pr_User p)) s of
        (Inl e, s1) \<Rightarrow> (Inl e, s1)
      | (Inr tokens, s1) \<Rightarrow>
          (case um_ListSessions m (u_ID (pr_User p)) s1 of
             (Inl e, s2) \<Rightarrow> (Inl e, s2)
           | (Inr sessions, s2) \<Rightarrow>
               (Inr (AccountPage
                  (map (\<lambda>t. (t, case t_ExpiresAt t of None \<Rightarrow> False | Some e \<Rightarrow> e < now)) tokens)
                  (map (\<lambda>x. (x, case pr_Session p of None \<Rightarrow> False | Some y \<Rightarrow> s_ID x = s_ID y)) sessions)
                  newToken newTokenName), s2)))"

definition account_page ::
  "'s ui_modules \<Rightarrow> go_time \<Rightarrow> string \<Rightarrow> string \<Rightarrow> 's ui_handler" where
  "account_page m now newToken newTokenName pr rq s =
     (case pr of
        None \<Rightarrow> (ui_serverError pr rq, s)
      | Some p \<Rightarrow>
          (case accountData m now p newToken newTokenName s of
             (Inl _, s1) \<Rightarrow> (ui_serverError pr rq, s1)
           | (Inr page, s1) \<Rightarrow> (ui_render pr rq 200 ''Account'' page, s1)))"

definition ui_AccountPage :: "'s ui_modules \<Rightarrow> go_time \<Rightarrow> 's ui_handler" where
  "ui_AccountPage m now = account_page m now [] []"

text \<open>The cut of a name at 100 characters is stated on bytes.\<close>

definition ui_AccountTokenCreate :: "'s ui_modules \<Rightarrow> go_time \<Rightarrow> 's ui_handler" where
  "ui_AccountTokenCreate m now pr rq =
     ui_checked pr rq (ui_user pr rq (\<lambda>p s.
       let name0 = TrimSpace (wq_Form rq ''name''); name = take 100 (if name0 = [] then ''Personal token'' else name0)
       in case tokenExpiry now (wq_Form rq ''expires'') of
            Inl _ \<Rightarrow> (status_response 400, s)
          | Inr expiresAt \<Rightarrow>
              (case um_CreateAPIToken m (u_ID (pr_User p)) name expiresAt s of
                 (Inl _, s1) \<Rightarrow> (ui_serverError pr rq, s1)
               | (Inr raw, s1) \<Rightarrow> account_page m now raw name pr rq s1)))"

text \<open>A form that changes something and leads back with a message; \<open>message\<close> gives the text of an error, or nothing for the error page.\<close>

definition ui_change ::
  "principal option \<Rightarrow> web_request \<Rightarrow> ('s, 'a) app_op \<Rightarrow> string \<Rightarrow> string \<Rightarrow> 's \<Rightarrow> 's ui_result" where
  "ui_change pr rq change text to s =
     (case change s of
        (Inl _, s1) \<Rightarrow> (ui_serverError pr rq, s1)
      | (Inr _, s1) \<Rightarrow> (flash_redirect rq ''success'' text to, s1))"

definition ui_AccountTokenRename :: "'s ui_modules \<Rightarrow> string \<Rightarrow> 's ui_handler" where
  "ui_AccountTokenRename m rawID pr rq =
     ui_checked pr rq (ui_user pr rq (\<lambda>p s.
       case um_uuid_parse m rawID of
         None \<Rightarrow> (ui_notFound pr rq, s)
       | Some i \<Rightarrow>
           (let name = TrimSpace (wq_Form rq ''name'')
            in if name = [] then (status_response 400, s)
               else ui_change pr rq (um_RenameAPIToken m (u_ID (pr_User p)) i (take 100 name)) ''Token renamed.'' ''/account'' s)))"

definition ui_AccountTokenDelete :: "'s ui_modules \<Rightarrow> string \<Rightarrow> 's ui_handler" where
  "ui_AccountTokenDelete m rawID pr rq =
     ui_checked pr rq (ui_user pr rq (\<lambda>p s.
       case um_uuid_parse m rawID of
         None \<Rightarrow> (ui_notFound pr rq, s)
       | Some i \<Rightarrow> ui_change pr rq (um_DeleteAPIToken m (u_ID (pr_User p)) i) ''Token revoked.'' ''/account'' s))"

definition ui_AccountSessionDelete :: "'w web_world \<Rightarrow> 's ui_modules \<Rightarrow> string \<Rightarrow> 's ui_handler" where
  "ui_AccountSessionDelete w m i pr rq =
     ui_checked pr rq (ui_user pr rq (\<lambda>p s.
       case um_DeleteSession m (u_ID (pr_User p)) i s of
         (Inl _, s1) \<Rightarrow> (ui_serverError pr rq, s1)
       | (Inr _, s1) \<Rightarrow>
           (if map_option s_ID (pr_Session p) = Some i then (add_cookies [clearSessionCookie w] (web_redirect rq ''/login''), s1)
            else (flash_redirect rq ''success'' ''Session revoked.'' ''/account'', s1))))"

definition ui_AccountSessionsDeleteAll :: "'w web_world \<Rightarrow> 's ui_modules \<Rightarrow> 's ui_handler" where
  "ui_AccountSessionsDeleteAll w m pr rq =
     ui_checked pr rq (ui_user pr rq (\<lambda>p s.
       case um_DeleteAllSessions m (u_ID (pr_User p)) s of
         (Inl _, s1) \<Rightarrow> (ui_serverError pr rq, s1)
       | (Inr _, s1) \<Rightarrow> (add_cookies [clearSessionCookie w] (web_redirect rq ''/login''), s1)))"

section \<open>Projects\<close>

definition webhookPayloadURL :: "'s ui_modules \<Rightarrow> provider \<Rightarrow> string \<Rightarrow> string" where
  "webhookPayloadURL m provider name =
     (if provider \<noteq> ProviderGithub \<and> provider \<noteq> ProviderGitlab then []
      else um_publicBaseURL m @ ''/api/webhooks/'' @ provider_String provider @ ''/''
             @ (if name \<noteq> [] then um_path_escape m name else ''<project-name>''))"

definition webhookSetupURL :: "'s ui_modules \<Rightarrow> provider \<Rightarrow> string \<Rightarrow> string" where
  "webhookSetupURL m provider repoURL =
     (case ParseRemote (um_url_parse m) repoURL of
        None \<Rightarrow> []
      | Some (host, path) \<Rightarrow>
          (if host = [] \<or> path = [] then []
           else (let scheme = (if HasPrefix (ToLower repoURL) ''http://'' then ''http'' else ''https'')
                 in if provider = ProviderGithub then scheme @ ''://'' @ host @ ''/'' @ path @ ''/settings/hooks/new''
                    else if provider = ProviderGitlab then scheme @ ''://'' @ host @ ''/'' @ path @ ''/-/hooks''
                    else [])))"

definition fieldsFromProject :: "'s ui_modules \<Rightarrow> project \<Rightarrow> project_fields" where
  "fieldsFromProject m p =
     \<lparr>uf_RepoURL = p_RepoURL p, uf_Provider = p_Provider p, uf_DefaultBranch = p_DefaultBranch p, uf_AuthType = p_AuthType p,
      uf_AuthUser = p_AuthUser p, uf_Secret = [], uf_WebhookPayloadURL = webhookPayloadURL m (p_Provider p) (p_Name p),
      uf_WebhookSetupURL = webhookSetupURL m (p_Provider p) (p_RepoURL p)\<rparr>"

definition form_provider :: "string \<Rightarrow> provider" where
  "form_provider v =
     (if v = ''github'' then ProviderGithub else if v = ''gitlab'' then ProviderGitlab else if v = ''generic'' then ProviderGeneric
      else ProviderOther v)"

definition form_auth_type :: "string \<Rightarrow> auth_type" where
  "form_auth_type v =
     (if v = ''none'' then AuthTypeNone else if v = ''token'' then AuthTypeToken else if v = ''ssh'' then AuthTypeSsh else AuthTypeOther v)"

text \<open>Empty secrets keep those of the project the form started from; an uploaded key wins over a typed one.\<close>

definition projectFromForm :: "web_request \<Rightarrow> project \<Rightarrow> project" where
  "projectFromForm rq p =
     (let p1 = p\<lparr>p_Name := TrimSpace (wq_Form rq ''name''), p_RepoURL := TrimSpace (wq_Form rq ''repo_url''),
                 p_Provider := form_provider (wq_Form rq ''provider''), p_AuthType := form_auth_type (wq_Form rq ''auth_type''),
                 p_AuthUser := TrimSpace (wq_Form rq ''auth_user''), p_DefaultBranch := TrimSpace (wq_Form rq ''default_branch'')\<rparr>;
          p2 = (if wq_Form rq ''auth_secret'' \<noteq> [] then p1\<lparr>p_AuthSecret := wq_Form rq ''auth_secret''\<rparr> else p1);
          p3 = (case wq_SecretFile rq of None \<Rightarrow> p2 | Some b \<Rightarrow> if TrimSpace b \<noteq> [] then p2\<lparr>p_AuthSecret := b\<rparr> else p2)
      in if wq_Form rq ''webhook_secret'' \<noteq> [] then p3\<lparr>p_WebhookSecret := wq_Form rq ''webhook_secret''\<rparr> else p3)"

definition zero_project :: project where
  "zero_project =
     \<lparr>p_ID = uuid_Nil, p_Name = [], p_RepoURL = [], p_Provider = ProviderOther [], p_AuthType = AuthTypeOther [], p_AuthUser = [],
      p_AuthSecret = [], p_WebhookSecret = [], p_DefaultBranch = [], p_CreatedAt = zero_time, p_UpdatedAt = zero_time\<rparr>"

text \<open>The form again, with the draft, its secret and what is wrong with it.\<close>

definition rejected_form :: "'s ui_modules \<Rightarrow> principal option \<Rightarrow> web_request \<Rightarrow> string \<Rightarrow> project \<Rightarrow> bool \<Rightarrow> string
    \<Rightarrow> (ui_base \<times> ui_page) web_response" where
  "rejected_form m pr rq title draft editing err =
     ui_render pr rq 400 title (ProjectForm draft ((fieldsFromProject m draft)\<lparr>uf_Secret := p_AuthSecret draft\<rparr>) editing err)"

definition ui_ProjectsList :: "'s ui_modules \<Rightarrow> 's ui_handler" where
  "ui_ProjectsList m pr rq s =
     (case um_ListProjects m s of
        (Inl _, s1) \<Rightarrow> (ui_serverError pr rq, s1)
      | (Inr ps, s1) \<Rightarrow> (ui_render pr rq 200 ''Projects'' (ProjectsPage ps), s1))"

definition ui_ProjectNew :: "'s ui_modules \<Rightarrow> 's ui_handler" where
  "ui_ProjectNew m pr rq s =
     (let project = zero_project\<lparr>p_Provider := ProviderGeneric, p_AuthType := AuthTypeNone\<rparr>
      in (ui_render pr rq 200 ''New project'' (ProjectForm project (fieldsFromProject m project) False []), s))"

definition ui_ProjectCreate :: "'s ui_modules \<Rightarrow> 's ui_handler" where
  "ui_ProjectCreate m pr rq =
     ui_checked pr rq (\<lambda>s.
       let draft = projectFromForm rq zero_project
       in case um_CreateProject m draft s of
            (Inl (AppInvalid err), s1) \<Rightarrow> (rejected_form m pr rq ''New project'' draft False err, s1)
          | (Inl _, s1) \<Rightarrow> (ui_serverError pr rq, s1)
          | (Inr created, s1) \<Rightarrow> (flash_redirect rq ''success'' ''Project created.'' (project_url created), s1))"

definition filterExecutions :: "execution list \<Rightarrow> string \<Rightarrow> string \<Rightarrow> execution list" where
  "filterExecutions es st wfl =
     filter (\<lambda>e. (st = [] \<or> status_String (e_Status e) = st) \<and> (wfl = [] \<or> e_Workflow e = wfl)) es"

definition distinctWorkflows :: "execution list \<Rightarrow> string list" where
  "distinctWorkflows es = sort (remdups (map e_Workflow es))"

definition ui_ProjectShow :: "'s ui_modules \<Rightarrow> string \<Rightarrow> 's ui_handler" where
  "ui_ProjectShow m ref pr rq =
     ui_project m pr rq ref (\<lambda>p s.
       case um_ListExecutions m (p_ID p) 100 s of
         (Inl _, s1) \<Rightarrow> (ui_serverError pr rq, s1)
       | (Inr es, s1) \<Rightarrow>
           (let st = wq_Query rq ''status''; wfl = wq_Query rq ''workflow''
            in (ui_render pr rq 200 (p_Name p) (ProjectPage p (filterExecutions es st wfl) (distinctWorkflows es) st wfl), s1)))"

definition ui_ProjectEdit :: "'s ui_modules \<Rightarrow> string \<Rightarrow> 's ui_handler" where
  "ui_ProjectEdit m ref pr rq =
     ui_project m pr rq ref (\<lambda>p s.
       (ui_render pr rq 200 (''Edit '' @ p_Name p) (ProjectForm p (fieldsFromProject m p) True []), s))"

definition ui_ProjectUpdate :: "'s ui_modules \<Rightarrow> string \<Rightarrow> 's ui_handler" where
  "ui_ProjectUpdate m ref pr rq =
     ui_checked pr rq (ui_project m pr rq ref (\<lambda>p s.
       let draft = projectFromForm rq p
       in case um_UpdateProject m draft s of
            (Inl (AppInvalid err), s1) \<Rightarrow> (rejected_form m pr rq (''Edit '' @ p_Name p) draft True err, s1)
          | (Inl _, s1) \<Rightarrow> (ui_serverError pr rq, s1)
          | (Inr _, s1) \<Rightarrow> (flash_redirect rq ''success'' ''Project updated.'' (project_url p), s1)))"

definition ui_ProjectDelete :: "'s ui_modules \<Rightarrow> string \<Rightarrow> 's ui_handler" where
  "ui_ProjectDelete m ref pr rq =
     ui_checked pr rq (ui_project m pr rq ref (\<lambda>p. ui_change pr rq (um_DeleteProject m (p_ID p)) ''Project deleted.'' ''/''))"

definition ui_ProjectConfigs :: "'s ui_modules \<Rightarrow> string \<Rightarrow> 's ui_handler" where
  "ui_ProjectConfigs m ref pr rq =
     ui_project m pr rq ref (\<lambda>p s.
       let branch0 = TrimSpace (wq_Query rq ''ref''); branch = (if branch0 = [] then p_DefaultBranch p else branch0)
       in case um_Discover m p branch of
            Inl err \<Rightarrow> (ui_render pr rq 200 [] (WorkflowsPage [] err), s)
          | Inr workflows \<Rightarrow>
              (if branch = p_DefaultBranch p
               then (case um_SyncSchedules m p s of
                       (Inl _, s1) \<Rightarrow> (ui_render pr rq 200 [] (WorkflowsPage workflows ''sync schedules''), s1)
                     | (Inr _, s1) \<Rightarrow> (ui_render pr rq 200 [] (WorkflowsPage workflows []), s1))
               else (ui_render pr rq 200 [] (WorkflowsPage workflows []), s)))"

definition ui_ProjectRefs :: "'s ui_modules \<Rightarrow> string \<Rightarrow> 's ui_handler" where
  "ui_ProjectRefs m ref pr rq =
     ui_project m pr rq ref (\<lambda>p s.
       case um_ListRefs m p of
         Inl err \<Rightarrow> (ui_render pr rq 200 [] (RefsPage [] [] (p_DefaultBranch p) err), s)
       | Inr (branches, tags) \<Rightarrow> (ui_render pr rq 200 [] (RefsPage branches tags (p_DefaultBranch p) []), s))"

definition ui_ProjectDetect :: "'s ui_modules \<Rightarrow> 's ui_handler" where
  "ui_ProjectDetect m pr rq s =
     (let detected = um_Detect m (zero_project\<lparr>p_Name := TrimSpace (wq_Form rq ''name''), p_RepoURL := TrimSpace (wq_Form rq ''repo_url''),
            p_Provider := form_provider (wq_Form rq ''provider''), p_AuthType := form_auth_type (wq_Form rq ''auth_type''),
            p_AuthUser := TrimSpace (wq_Form rq ''auth_user''), p_AuthSecret := wq_Form rq ''auth_secret'',
            p_DefaultBranch := TrimSpace (wq_Form rq ''default_branch'')\<rparr>)
      in (ui_render pr rq 200 [] (DetectPage
            \<lparr>uf_RepoURL = TrimSpace (wq_Form rq ''repo_url''), uf_Provider = p_Provider detected, uf_DefaultBranch = p_DefaultBranch detected,
             uf_AuthType = form_auth_type (wq_Form rq ''auth_type''), uf_AuthUser = p_AuthUser detected, uf_Secret = wq_Form rq ''auth_secret'',
             uf_WebhookPayloadURL = webhookPayloadURL m (p_Provider detected) (p_Name detected),
             uf_WebhookSetupURL = webhookSetupURL m (p_Provider detected) (p_RepoURL detected)\<rparr>), s))"

section \<open>Variables\<close>

definition ui_GlobalVariables :: "'s ui_modules \<Rightarrow> 's ui_handler" where
  "ui_GlobalVariables m pr rq s =
     (case um_ListVariables m None s of
        (Inl _, s1) \<Rightarrow> (ui_serverError pr rq, s1)
      | (Inr vs, s1) \<Rightarrow> (ui_render pr rq 200 ''Variables'' (VariablesPage vs), s1))"

definition ui_ProjectVariables :: "'s ui_modules \<Rightarrow> string \<Rightarrow> 's ui_handler" where
  "ui_ProjectVariables m ref pr rq =
     ui_project m pr rq ref (\<lambda>p s.
       case um_ListVariables m (Some (p_ID p)) s of
         (Inl _, s1) \<Rightarrow> (ui_serverError pr rq, s1)
       | (Inr vs, s1) \<Rightarrow>
           (case um_ListVariables m None s1 of
              (Inl _, s2) \<Rightarrow> (ui_serverError pr rq, s2)
            | (Inr global, s2) \<Rightarrow>
                (ui_render pr rq 200 (p_Name p @ '' variables'') (ProjectVariablesPage p vs global (map v_Key vs)), s2)))"

definition ui_setVariable :: "'s ui_modules \<Rightarrow> uuid option \<Rightarrow> string \<Rightarrow> principal option \<Rightarrow> web_request \<Rightarrow> 's \<Rightarrow> 's ui_result" where
  "ui_setVariable m projectID back pr rq s =
     (case um_SetVariable m \<lparr>v_ProjectID = projectID, v_Key = wq_Form rq ''key'', v_Value = wq_Form rq ''value'',
                             v_Secret = wq_Form rq ''secret'' \<noteq> []\<rparr> s of
        (Inl (AppInvalid _), s1) \<Rightarrow> (flash_redirect rq ''error'' ''Key is required.'' back, s1)
      | (Inl _, s1) \<Rightarrow> (ui_serverError pr rq, s1)
      | (Inr _, s1) \<Rightarrow> (flash_redirect rq ''success'' ''Variable saved.'' back, s1))"

definition ui_ProjectVariableSet :: "'s ui_modules \<Rightarrow> string \<Rightarrow> 's ui_handler" where
  "ui_ProjectVariableSet m ref pr rq =
     ui_checked pr rq (ui_project m pr rq ref (\<lambda>p. ui_setVariable m (Some (p_ID p)) (project_url p @ ''/variables'') pr rq))"

definition ui_GlobalVariableSet :: "'s ui_modules \<Rightarrow> 's ui_handler" where
  "ui_GlobalVariableSet m pr rq = ui_checked pr rq (ui_setVariable m None ''/variables'' pr rq)"

definition ui_ProjectVariableDelete :: "'s ui_modules \<Rightarrow> string \<Rightarrow> string \<Rightarrow> 's ui_handler" where
  "ui_ProjectVariableDelete m ref key pr rq =
     ui_checked pr rq (ui_project m pr rq ref (\<lambda>p.
       ui_change pr rq (um_DeleteVariable m (Some (p_ID p)) key) ''Variable deleted.'' (project_url p @ ''/variables'')))"

definition ui_GlobalVariableDelete :: "'s ui_modules \<Rightarrow> string \<Rightarrow> 's ui_handler" where
  "ui_GlobalVariableDelete m key pr rq =
     ui_checked pr rq (ui_change pr rq (um_DeleteVariable m None key) ''Variable deleted.'' ''/variables'')"

section \<open>Caches\<close>

definition ui_ProjectCache :: "'s ui_modules \<Rightarrow> string \<Rightarrow> 's ui_handler" where
  "ui_ProjectCache m ref pr rq =
     ui_project m pr rq ref (\<lambda>p s.
       case um_CacheGet m p s of
         (Inl AppUnavailable, s1) \<Rightarrow> (ui_render pr rq 200 (p_Name p @ '' cache'') (CachePage p None 0), s1)
       | (Inl _, s1) \<Rightarrow> (ui_serverError pr rq, s1)
       | (Inr summary, s1) \<Rightarrow>
           (case um_RegistrySize m s1 of
              (Inl _, s2) \<Rightarrow> (ui_serverError pr rq, s2)
            | (Inr registrySize, s2) \<Rightarrow> (ui_render pr rq 200 (p_Name p @ '' cache'') (CachePage p (Some summary) registrySize), s2)))"

text \<open>A removal leads back in any case; the texts are those of an invalid name, of any other error and of success.\<close>

definition ui_remove ::
  "web_request \<Rightarrow> ('s, unit) app_op \<Rightarrow> string \<Rightarrow> string \<Rightarrow> string \<Rightarrow> string \<Rightarrow> 's \<Rightarrow> 's ui_result" where
  "ui_remove rq remove unknown failed done_text back s =
     (case remove s of
        (Inl (AppInvalid _), s1) \<Rightarrow> (flash_redirect rq ''error'' unknown back, s1)
      | (Inl AppUnavailable, s1) \<Rightarrow> (flash_redirect rq ''error'' ''Docker is unavailable.'' back, s1)
      | (Inl _, s1) \<Rightarrow> (flash_redirect rq ''error'' failed back, s1)
      | (Inr _, s1) \<Rightarrow> (flash_redirect rq ''success'' done_text back, s1))"

definition ui_CacheImageDelete :: "'s ui_modules \<Rightarrow> string \<Rightarrow> 's ui_handler" where
  "ui_CacheImageDelete m ref pr rq =
     ui_checked pr rq (ui_project m pr rq ref (\<lambda>p.
       ui_remove rq (um_RemoveImage m p (wq_Form rq ''reference'')) ''Unknown image.'' ''Could not delete image: '' ''Image deleted.''
         (project_url p @ ''/cache'')))"

definition ui_CacheVolumeDelete :: "'s ui_modules \<Rightarrow> string \<Rightarrow> 's ui_handler" where
  "ui_CacheVolumeDelete m ref pr rq =
     ui_checked pr rq (ui_project m pr rq ref (\<lambda>p.
       ui_remove rq (um_RemoveVolume m p (wq_Form rq ''name'')) ''Unknown cache volume.'' ''Could not delete cache volume: ''
         ''Cache volume deleted.'' (project_url p @ ''/cache'')))"

definition ui_RegistryPurge :: "'s ui_modules \<Rightarrow> 's ui_handler" where
  "ui_RegistryPurge m pr rq =
     ui_checked pr rq (ui_project m pr rq (wq_Form rq ''project'') (\<lambda>p.
       ui_remove rq (um_PurgeRegistry m) ''Could not purge the image cache: '' ''Could not purge the image cache: ''
         ''Image cache purged.'' (project_url p @ ''/cache'')))"

section \<open>Executions\<close>

definition execution_url :: "project \<Rightarrow> int \<Rightarrow> string" where
  "execution_url p i = project_url p @ ''/executions/'' @ itoa i"

definition ui_ExecutionCreate :: "'s ui_modules \<Rightarrow> string \<Rightarrow> 's ui_handler" where
  "ui_ExecutionCreate m ref pr rq =
     ui_checked pr rq (ui_project m pr rq ref (\<lambda>p s.
       case um_Create m p (wq_Form rq ''workflow'') (wq_Form rq ''ref'') (UserID pr) s of
         (Inl (AppInvalid _), s1) \<Rightarrow> (flash_redirect rq ''error'' ''Workflow is required.'' (project_url p), s1)
       | (Inl _, s1) \<Rightarrow> (ui_serverError pr rq, s1)
       | (Inr e, s1) \<Rightarrow> (flash_redirect rq ''success'' ''Execution queued.'' (execution_url p (e_ExecutionID e)), s1)))"

definition ui_attempt ::
  "'s ui_modules \<Rightarrow> principal option \<Rightarrow> web_request \<Rightarrow> string \<Rightarrow> string \<Rightarrow> (project \<Rightarrow> view \<Rightarrow> 's \<Rightarrow> 's ui_result) \<Rightarrow> 's \<Rightarrow> 's ui_result" where
  "ui_attempt m pr rq ref executionID h =
     ui_project m pr rq ref (\<lambda>p s.
       case ParseInt64 executionID of
         None \<Rightarrow> (ui_notFound pr rq, s)
       | Some i \<Rightarrow>
           (case bind_Attempt (wq_Query rq ''attempt'') of
              None \<Rightarrow> (ui_notFound pr rq, s)
            | Some n \<Rightarrow>
                (case um_Get m (p_ID p) i n s of
                   (Inl e, s1) \<Rightarrow> (ui_storeError pr rq e, s1)
                 | (Inr v, s1) \<Rightarrow> h p v s1)))"

definition read_log :: "app_error + string \<Rightarrow> string" where
  "read_log r = (case r of Inl _ \<Rightarrow> [] | Inr text \<Rightarrow> text)"

text \<open>The logs of a finished attempt are part of its page; those of a running one are streamed.\<close>

definition ui_ExecutionShow :: "'s ui_modules \<Rightarrow> string \<Rightarrow> string \<Rightarrow> 's ui_handler" where
  "ui_ExecutionShow m ref executionID pr rq =
     ui_attempt m pr rq ref executionID (\<lambda>p v s.
       let e = vw_Execution v; running = (e_Status e = StatusRunning \<or> e_Status e = StatusPending)
       in (ui_render pr rq 200 (''Execution #'' @ itoa (e_ExecutionID e)) (ExecutionPage
             \<lparr>ep_Execution = e, ep_Project = p, ep_Artifacts = um_Artifacts m e,
              ep_Steps = map (\<lambda>(i, r). \<lparr>uv_Index = i, uv_LogSource = Source (r_Name r), uv_Result = r,
                                        uv_Logs = (if running then [] else read_log (um_StepLog m e (r_Name r)))\<rparr>)
                           (enumerate 0 (e_Steps e)),
              ep_SetupLog = (if running then [] else read_log (um_SetupLog m e)), ep_Running = running,
              ep_Attempts = vw_Attempts v, ep_IsLatest = vw_Latest v\<rparr>), s))"

definition ui_ExecutionLogs :: "'s ui_modules \<Rightarrow> string \<Rightarrow> string \<Rightarrow> 's ui_handler" where
  "ui_ExecutionLogs m ref executionID pr rq =
     ui_attempt m pr rq ref executionID (\<lambda>p v s. (page_response 200 (ui_base pr rq [], LogText (um_Logs m (vw_Execution v))), s))"

definition ui_ExecutionStream :: "'s ui_modules \<Rightarrow> string \<Rightarrow> string \<Rightarrow> 's ui_handler" where
  "ui_ExecutionStream m ref executionID pr rq =
     ui_attempt m pr rq ref executionID (\<lambda>p v s. (page_response 200 (ui_base pr rq [], EventStream (p_ID p) (e_ID (vw_Execution v))), s))"

definition ui_StepLogs :: "'s ui_modules \<Rightarrow> string \<Rightarrow> string \<Rightarrow> string \<Rightarrow> 's ui_handler" where
  "ui_StepLogs m ref executionID step pr rq =
     ui_attempt m pr rq ref executionID (\<lambda>p v s.
       case um_StepLog m (vw_Execution v) step of
         Inl e \<Rightarrow> (ui_storeError pr rq e, s)
       | Inr logs \<Rightarrow> (page_response 200 (ui_base pr rq [], LogText logs), s))"

definition ui_ExecutionCancel :: "'s ui_modules \<Rightarrow> string \<Rightarrow> string \<Rightarrow> 's ui_handler" where
  "ui_ExecutionCancel m ref executionID pr rq =
     ui_checked pr rq (ui_project m pr rq ref (\<lambda>p s.
       case ParseInt64 executionID of
         None \<Rightarrow> (ui_notFound pr rq, s)
       | Some i \<Rightarrow>
           (case um_Cancel m (p_ID p) i s of
              (Inl e, s1) \<Rightarrow> (ui_storeError pr rq e, s1)
            | (Inr _, s1) \<Rightarrow> (flash_redirect rq ''success'' ''Cancellation requested.'' (execution_url p i), s1))))"

definition ui_ExecutionRebuild :: "'s ui_modules \<Rightarrow> string \<Rightarrow> string \<Rightarrow> 's ui_handler" where
  "ui_ExecutionRebuild m ref executionID pr rq =
     ui_checked pr rq (ui_project m pr rq ref (\<lambda>p s.
       case ParseInt64 executionID of
         None \<Rightarrow> (ui_notFound pr rq, s)
       | Some i \<Rightarrow>
           (case um_Rebuild m p i (UserID pr) s of
              (Inl (AppConflict _), s1) \<Rightarrow> (flash_redirect rq ''error'' ''Snapshot executions cannot be rebuilt.'' (execution_url p i), s1)
            | (Inl AppNotFound, s1) \<Rightarrow> (ui_notFound pr rq, s1)
            | (Inl _, s1) \<Rightarrow> (ui_serverError pr rq, s1)
            | (Inr e, s1) \<Rightarrow> (flash_redirect rq ''success'' ''Rebuild queued.'' (execution_url p (e_ExecutionID e)), s1))))"

definition ui_ExecutionRetry :: "'s ui_modules \<Rightarrow> string \<Rightarrow> string \<Rightarrow> 's ui_handler" where
  "ui_ExecutionRetry m ref executionID pr rq =
     ui_checked pr rq (ui_project m pr rq ref (\<lambda>p s.
       case ParseInt64 executionID of
         None \<Rightarrow> (ui_notFound pr rq, s)
       | Some i \<Rightarrow>
           (case bind_Attempt (wq_Query rq ''attempt'') of
              None \<Rightarrow> (ui_notFound pr rq, s)
            | Some n \<Rightarrow>
                (case um_Retry m p i n (UserID pr) s of
                   (Inl (AppWorkspaceGone _), s1) \<Rightarrow> (flash_redirect rq ''error'' ''The workspace is no longer available.'' (execution_url p i), s1)
                 | (Inl (AppNotRetryable _), s1) \<Rightarrow> (flash_redirect rq ''error'' ''This execution cannot be retried.'' (execution_url p i), s1)
                 | (Inl AppNotFound, s1) \<Rightarrow> (ui_notFound pr rq, s1)
                 | (Inl _, s1) \<Rightarrow> (ui_serverError pr rq, s1)
                 | (Inr _, s1) \<Rightarrow> (flash_redirect rq ''success'' ''Retry queued.'' (execution_url p i), s1)))))"

definition ui_ArtifactDownload :: "'s ui_modules \<Rightarrow> string \<Rightarrow> string \<Rightarrow> string \<Rightarrow> string \<Rightarrow> 's ui_handler" where
  "ui_ArtifactDownload m ref executionID step path pr rq =
     ui_attempt m pr rq ref executionID (\<lambda>p v s.
       case um_OpenArtifact m (vw_Execution v) step path of
         Inl (AppInvalid _) \<Rightarrow> (status_response 400, s)
       | Inl _ \<Rightarrow> (ui_notFound pr rq, s)
       | Inr content \<Rightarrow> (page_response 200 (ui_base pr rq [], ArtifactFile content), s))"

section \<open>Routes\<close>

datatype ui_route =
    RLogin | RLoginStart | RLoginCallback | RLogout
  | RAccount | RTokenCreate | RTokenRename string | RTokenDelete string | RSessionDelete string | RSessionsDeleteAll
  | RSchema | RProjects | RProjectNew | RProjectCreate | RProjectDetect | RProject string | RProjectEdit string | RProjectUpdate string
  | RProjectDelete string | RProjectConfigs string | RProjectRefs string
  | RCache string | RCacheImageDelete string | RCacheVolumeDelete string | RRegistryPurge
  | RProjectVariables string | RProjectVariableSet string | RProjectVariableDelete string string
  | RVariables | RVariableSet | RVariableDelete string
  | RExecutionCreate string | RExecution string string | RExecutionLogs string string | RExecutionStream string string
  | RStepLogs string string string | RCancel string string | RRebuild string string | RRetry string string
  | RArtifact string string string string

text \<open>The path is given by its decoded segments; a GET pattern also takes HEAD.\<close>

fun get_route :: "string \<Rightarrow> string list \<Rightarrow> ui_route option" where
  "get_route name [a] =
     (if a = [] then Some RProjects else if a = ''login'' then Some RLogin else if a = ''account'' then Some RAccount
      else if a = ''variables'' then Some RVariables else None)"
| "get_route name [a, b] =
     (if a = ''auth'' \<and> b = name then Some RLoginStart else if a = ''static'' \<and> b = ''ci.schema.json'' then Some RSchema
      else if a = ''projects'' then (if b = ''new'' then Some RProjectNew else if b = [] then None else Some (RProject b)) else None)"
| "get_route name [a, b, c] =
     (if a = ''auth'' \<and> b = name \<and> c = ''callback'' then Some RLoginCallback
      else if a = ''projects'' \<and> b \<noteq> []
      then (if c = ''edit'' then Some (RProjectEdit b) else if c = ''configs'' then Some (RProjectConfigs b)
            else if c = ''refs'' then Some (RProjectRefs b) else if c = ''cache'' then Some (RCache b)
            else if c = ''variables'' then Some (RProjectVariables b) else None)
      else None)"
| "get_route name (a # b # c # d # rest) =
     (if a \<noteq> ''projects'' \<or> b = [] \<or> c \<noteq> ''executions'' \<or> d = [] then None
      else (case rest of
              [] \<Rightarrow> Some (RExecution b d)
            | [e] \<Rightarrow> (if e = ''logs'' then Some (RExecutionLogs b d) else if e = ''stream'' then Some (RExecutionStream b d) else None)
            | e # f # path \<Rightarrow>
                (if e = ''steps'' \<and> f \<noteq> [] \<and> path = [''logs''] then Some (RStepLogs b d f)
                 else if e = ''artifacts'' \<and> f \<noteq> [] \<and> path \<noteq> [] then Some (RArtifact b d f (JoinByte path (CHR ''/'')))
                 else None)))"
| "get_route name [] = None"

fun post_route :: "string list \<Rightarrow> ui_route option" where
  "post_route [a] =
     (if a = ''logout'' then Some RLogout else if a = ''projects'' then Some RProjectCreate else if a = ''variables'' then Some RVariableSet else None)"
| "post_route [a, b] =
     (if a = ''account'' \<and> b = ''tokens'' then Some RTokenCreate
      else if a = ''projects'' then (if b = ''detect'' then Some RProjectDetect else if b = [] then None else Some (RProjectUpdate b)) else None)"
| "post_route [a, b, c] =
     (if a = ''account'' \<and> b = ''sessions'' \<and> c = ''delete-all'' then Some RSessionsDeleteAll
      else if a = ''cache'' \<and> b = ''registry'' \<and> c = ''purge'' then Some RRegistryPurge
      else if a = ''variables'' \<and> b \<noteq> [] \<and> c = ''delete'' then Some (RVariableDelete b)
      else if a = ''projects'' \<and> b \<noteq> []
      then (if c = ''delete'' then Some (RProjectDelete b) else if c = ''variables'' then Some (RProjectVariableSet b)
            else if c = ''executions'' then Some (RExecutionCreate b) else None)
      else None)"
| "post_route [a, b, c, d] =
     (if a = ''account'' \<and> c \<noteq> []
      then (if b = ''tokens'' \<and> d = ''rename'' then Some (RTokenRename c) else if b = ''tokens'' \<and> d = ''delete'' then Some (RTokenDelete c)
            else if b = ''sessions'' \<and> d = ''delete'' then Some (RSessionDelete c) else None)
      else None)"
| "post_route [a, b, c, d, e] =
     (if a \<noteq> ''projects'' \<or> b = [] then None
      else if c = ''cache'' \<and> d = ''images'' \<and> e = ''delete'' then Some (RCacheImageDelete b)
      else if c = ''cache'' \<and> d = ''volumes'' \<and> e = ''delete'' then Some (RCacheVolumeDelete b)
      else if c = ''variables'' \<and> d \<noteq> [] \<and> e = ''delete'' then Some (RProjectVariableDelete b d)
      else if c = ''executions'' \<and> d \<noteq> []
      then (if e = ''cancel'' then Some (RCancel b d) else if e = ''rebuild'' then Some (RRebuild b d) else if e = ''retry'' then Some (RRetry b d) else None)
      else None)"
| "post_route _ = None"

definition ui_mux :: "string \<Rightarrow> string \<Rightarrow> string list \<Rightarrow> ui_route option" where
  "ui_mux name meth segs =
     (if meth = ''GET'' \<or> meth = ''HEAD'' then get_route name segs else if meth = ''POST'' then post_route segs else None)"

definition with_page :: "('b \<Rightarrow> 'c) \<Rightarrow> 'b web_response \<Rightarrow> 'c web_response" where
  "with_page f r =
     \<lparr>wx_Status = wx_Status r, wx_Location = wx_Location r, wx_HXRedirect = wx_HXRedirect r, wx_Cookies = wx_Cookies r,
      wx_Body = map_option f (wx_Body r)\<rparr>"

definition ui_serve :: "'s web_world \<Rightarrow> string \<Rightarrow> 's ui_modules \<Rightarrow> ui_route \<Rightarrow> 's ui_handler" where
  "ui_serve w display m route pr rq =
     (case route of
        RLogin \<Rightarrow> (\<lambda>s. map_prod (with_page (\<lambda>p. (ui_base pr rq ''Sign in'', SignInPage p))) id (web_LoginPage w display rq s))
      | RLoginStart \<Rightarrow> web_LoginStart w rq
      | RLoginCallback \<Rightarrow> web_LoginCallback w rq
      | RLogout \<Rightarrow> web_Logout w (\<lambda>u i s. case um_DeleteSession m u i s of (Inl _, s1) \<Rightarrow> (Inl ErrNotFound, s1) | (Inr _, s1) \<Rightarrow> (Inr (), s1)) pr rq
      | RAccount \<Rightarrow> ui_AccountPage m (ww_now w) pr rq
      | RTokenCreate \<Rightarrow> ui_AccountTokenCreate m (ww_now w) pr rq
      | RTokenRename i \<Rightarrow> ui_AccountTokenRename m i pr rq
      | RTokenDelete i \<Rightarrow> ui_AccountTokenDelete m i pr rq
      | RSessionDelete i \<Rightarrow> ui_AccountSessionDelete w m i pr rq
      | RSessionsDeleteAll \<Rightarrow> ui_AccountSessionsDeleteAll w m pr rq
      | RSchema \<Rightarrow> (\<lambda>s. (page_response 200 (ui_base None rq [], SchemaFile), s))
      | RProjects \<Rightarrow> ui_ProjectsList m pr rq
      | RProjectNew \<Rightarrow> ui_ProjectNew m pr rq
      | RProjectCreate \<Rightarrow> ui_ProjectCreate m pr rq
      | RProjectDetect \<Rightarrow> ui_ProjectDetect m pr rq
      | RProject i \<Rightarrow> ui_ProjectShow m i pr rq
      | RProjectEdit i \<Rightarrow> ui_ProjectEdit m i pr rq
      | RProjectUpdate i \<Rightarrow> ui_ProjectUpdate m i pr rq
      | RProjectDelete i \<Rightarrow> ui_ProjectDelete m i pr rq
      | RProjectConfigs i \<Rightarrow> ui_ProjectConfigs m i pr rq
      | RProjectRefs i \<Rightarrow> ui_ProjectRefs m i pr rq
      | RCache i \<Rightarrow> ui_ProjectCache m i pr rq
      | RCacheImageDelete i \<Rightarrow> ui_CacheImageDelete m i pr rq
      | RCacheVolumeDelete i \<Rightarrow> ui_CacheVolumeDelete m i pr rq
      | RRegistryPurge \<Rightarrow> ui_RegistryPurge m pr rq
      | RProjectVariables i \<Rightarrow> ui_ProjectVariables m i pr rq
      | RProjectVariableSet i \<Rightarrow> ui_ProjectVariableSet m i pr rq
      | RProjectVariableDelete i k \<Rightarrow> ui_ProjectVariableDelete m i k pr rq
      | RVariables \<Rightarrow> ui_GlobalVariables m pr rq
      | RVariableSet \<Rightarrow> ui_GlobalVariableSet m pr rq
      | RVariableDelete k \<Rightarrow> ui_GlobalVariableDelete m k pr rq
      | RExecutionCreate i \<Rightarrow> ui_ExecutionCreate m i pr rq
      | RExecution i e \<Rightarrow> ui_ExecutionShow m i e pr rq
      | RExecutionLogs i e \<Rightarrow> ui_ExecutionLogs m i e pr rq
      | RExecutionStream i e \<Rightarrow> ui_ExecutionStream m i e pr rq
      | RStepLogs i e st \<Rightarrow> ui_StepLogs m i e st pr rq
      | RCancel i e \<Rightarrow> ui_ExecutionCancel m i e pr rq
      | RRebuild i e \<Rightarrow> ui_ExecutionRebuild m i e pr rq
      | RRetry i e \<Rightarrow> ui_ExecutionRetry m i e pr rq
      | RArtifact i e st path \<Rightarrow> ui_ArtifactDownload m i e st path pr rq)"

section \<open>What reading leaves alone\<close>

text \<open>What the handlers rely on: an operation that reads leaves what \<open>obs\<close> shows of the state as it is.\<close>

locale ui_reads =
  fixes obs :: "'s \<Rightarrow> 'o" and m :: "'s ui_modules"
  assumes resolve: "obs (snd (um_Resolve m ref s)) = obs s"
    and list_projects: "obs (snd (um_ListProjects m s)) = obs s"
    and list_variables: "obs (snd (um_ListVariables m po s)) = obs s"
    and list_executions: "obs (snd (um_ListExecutions m i n s)) = obs s"
    and get: "obs (snd (um_Get m i x n s)) = obs s"
    and cache_get: "obs (snd (um_CacheGet m p s)) = obs s"
    and registry_size: "obs (snd (um_RegistrySize m s)) = obs s"
    and list_tokens: "obs (snd (um_ListAPITokens m i s)) = obs s"
    and list_sessions: "obs (snd (um_ListSessions m i s)) = obs s"
begin

lemma reads_return:
  "um_Resolve m ref s = (r, s') \<Longrightarrow> obs s' = obs s" "um_ListProjects m s = (rp, s') \<Longrightarrow> obs s' = obs s"
  "um_ListVariables m po s = (rv, s') \<Longrightarrow> obs s' = obs s" "um_ListExecutions m i n s = (re, s') \<Longrightarrow> obs s' = obs s"
  "um_Get m i x n s = (rg, s') \<Longrightarrow> obs s' = obs s" "um_CacheGet m p s = (rc, s') \<Longrightarrow> obs s' = obs s"
  "um_RegistrySize m s = (rz, s') \<Longrightarrow> obs s' = obs s" "um_ListAPITokens m i s = (rt, s') \<Longrightarrow> obs s' = obs s"
  "um_ListSessions m i s = (rs, s') \<Longrightarrow> obs s' = obs s"
  using resolve [of ref s] list_projects [of s] list_variables [of po s] list_executions [of i n s] get [of i x n s] cache_get [of p s]
    registry_size [of s] list_tokens [of i s] list_sessions [of i s] by simp_all

lemma project_quiet:
  assumes "\<And>p s. obs (snd (h p s)) = obs s"
  shows "obs (snd (ui_project m pr rq ref h s)) = obs s"
  using assms by (auto simp: ui_project_def dest: reads_return split: prod.splits sum.splits)

lemma attempt_quiet:
  assumes "\<And>p v s. obs (snd (h p v s)) = obs s"
  shows "obs (snd (ui_attempt m pr rq ref i h s)) = obs s"
  unfolding ui_attempt_def
  by (rule project_quiet) (auto simp: assms dest: reads_return split: option.splits prod.splits sum.splits)

lemma account_quiet: "obs (snd (ui_AccountPage m now pr rq s)) = obs s"
  by (auto simp: ui_AccountPage_def account_page_def accountData_def dest!: reads_return split: option.splits prod.splits sum.splits)

lemma pages_quiet:
  "obs (snd (ui_ProjectsList m pr rq s)) = obs s" "obs (snd (ui_ProjectNew m pr rq s)) = obs s"
  "obs (snd (ui_ProjectShow m ref pr rq s)) = obs s" "obs (snd (ui_ProjectEdit m ref pr rq s)) = obs s"
  "obs (snd (ui_ProjectRefs m ref pr rq s)) = obs s" "obs (snd (ui_ProjectCache m ref pr rq s)) = obs s"
  "obs (snd (ui_GlobalVariables m pr rq s)) = obs s" "obs (snd (ui_ProjectVariables m ref pr rq s)) = obs s"
  "obs (snd (ui_ProjectDetect m pr rq s)) = obs s"
  unfolding ui_ProjectShow_def ui_ProjectEdit_def ui_ProjectRefs_def ui_ProjectCache_def ui_ProjectVariables_def
  by (auto simp: ui_ProjectsList_def ui_ProjectNew_def ui_GlobalVariables_def ui_ProjectDetect_def Let_def dest!: reads_return intro!: project_quiet
      split: prod.splits sum.splits app_error.splits)

lemma attempts_quiet:
  "obs (snd (ui_ExecutionShow m ref i pr rq s)) = obs s" "obs (snd (ui_ExecutionLogs m ref i pr rq s)) = obs s"
  "obs (snd (ui_ExecutionStream m ref i pr rq s)) = obs s" "obs (snd (ui_StepLogs m ref i step pr rq s)) = obs s"
  "obs (snd (ui_ArtifactDownload m ref i step path pr rq s)) = obs s"
  unfolding ui_ExecutionShow_def ui_ExecutionLogs_def ui_ExecutionStream_def ui_StepLogs_def ui_ArtifactDownload_def
  by (auto simp: Let_def intro!: attempt_quiet split: sum.splits app_error.splits)

end

text \<open>The routes that check the token first.\<close>

fun form_route :: "ui_route \<Rightarrow> bool" where
  "form_route RLogout = True"
| "form_route RTokenCreate = True"
| "form_route (RTokenRename _) = True"
| "form_route (RTokenDelete _) = True"
| "form_route (RSessionDelete _) = True"
| "form_route RSessionsDeleteAll = True"
| "form_route RProjectCreate = True"
| "form_route (RProjectUpdate _) = True"
| "form_route (RProjectDelete _) = True"
| "form_route (RCacheImageDelete _) = True"
| "form_route (RCacheVolumeDelete _) = True"
| "form_route RRegistryPurge = True"
| "form_route (RProjectVariableSet _) = True"
| "form_route (RProjectVariableDelete _ _) = True"
| "form_route RVariableSet = True"
| "form_route (RVariableDelete _) = True"
| "form_route (RExecutionCreate _) = True"
| "form_route (RCancel _ _) = True"
| "form_route (RRebuild _ _) = True"
| "form_route (RRetry _ _) = True"
| "form_route _ = False"

lemma form_refused: "form_route route \<Longrightarrow> \<not> validCSRF pr rq \<Longrightarrow> ui_serve w display m route pr rq s = (status_response 403, s)"
  by (cases route) (simp_all add: ui_serve_def web_Logout_def ui_checked_def ui_AccountTokenCreate_def ui_AccountTokenRename_def
      ui_AccountTokenDelete_def ui_AccountSessionDelete_def ui_AccountSessionsDeleteAll_def ui_ProjectCreate_def ui_ProjectUpdate_def
      ui_ProjectDelete_def ui_CacheImageDelete_def ui_CacheVolumeDelete_def ui_RegistryPurge_def ui_ProjectVariableSet_def
      ui_ProjectVariableDelete_def ui_GlobalVariableSet_def ui_GlobalVariableDelete_def ui_ExecutionCreate_def ui_ExecutionCancel_def
      ui_ExecutionRebuild_def ui_ExecutionRetry_def)

fun may_change :: "ui_route \<Rightarrow> bool" where
  "may_change RLogin = True"
| "may_change RLoginStart = True"
| "may_change RLoginCallback = True"
| "may_change (RProjectConfigs _) = True"
| "may_change _ = False"

context ui_reads
begin

lemma route_quiet:
  assumes "\<not> may_change route" "\<not> form_route route"
  shows "obs (snd (ui_serve w display m route pr rq s)) = obs s"
  using assms by (cases route) (simp_all add: ui_serve_def account_quiet pages_quiet attempts_quiet)

end

lemma get_not_form: "get_route name segs = Some route \<Longrightarrow> \<not> form_route route"
  by (induction name segs rule: get_route.induct) (auto split: if_splits list.splits)

section \<open>The modules over the SQLite store\<close>

text \<open>What the modules take from outside: keys, clock, random values, the git remote, the file system and the engine.\<close>

record 'e ui_env =
  ux_cipher :: "aead option"
  ux_now :: go_time
  ux_fresh :: uuid
  ux_random :: "string + string"
  ux_hash :: "string \<Rightarrow> string"
  ux_uuid_parse :: "string \<Rightarrow> uuid option"
  ux_url_parse :: "string \<Rightarrow> (string \<times> string) option"
  ux_path_escape :: "string \<Rightarrow> string"
  ux_publicBaseURL :: string
  ux_head :: "string \<Rightarrow> git_auth \<Rightarrow> string option"
  ux_refs :: "project \<Rightarrow> string + string list \<times> string list"
  ux_discover :: "project \<Rightarrow> string \<Rightarrow> string + string list"
  ux_sync :: "project \<Rightarrow> (db, unit) app_op"
  ux_workspace :: workspace
  ux_stat :: "string \<Rightarrow> bool"
  ux_read :: "string \<Rightarrow> string option + string"
  ux_logs :: "execution \<Rightarrow> string"
  ux_artifacts :: "execution \<Rightarrow> string list"
  ux_open :: "execution \<Rightarrow> string \<Rightarrow> string \<Rightarrow> app_error + string"
  ux_engine :: "'e cache_engine option"

definition on_db :: "(db, 'a) app_op \<Rightarrow> (db \<times> 'e, 'a) app_op" where
  "on_db f = (\<lambda>(d, c). case f d of (r, d1) \<Rightarrow> (r, (d1, c)))"

definition on_cache :: "('e \<Rightarrow> (app_error + 'a) \<times> 'e) \<Rightarrow> (db \<times> 'e, 'a) app_op" where
  "on_cache f = (\<lambda>(d, c). case f c of (r, c1) \<Rightarrow> (r, (d, c1)))"

definition sqlite_modules :: "'e ui_env \<Rightarrow> (db \<times> 'e cache_state) ui_modules" where
  "sqlite_modules x =
     \<lparr>um_uuid_parse = ux_uuid_parse x, um_publicBaseURL = ux_publicBaseURL x, um_path_escape = ux_path_escape x,
      um_url_parse = ux_url_parse x,
      um_Resolve = (\<lambda>ref. on_db (Resolve (ux_uuid_parse x) (GetProject (ux_cipher x)) (GetProjectByName (ux_cipher x)) ref)),
      um_ListProjects = on_db (\<lambda>d. as_app (ListProjects (ux_cipher x) d)),
      um_CreateProject = (\<lambda>p. on_db (projects_Create (ux_url_parse x) (ux_head x) (CreateProject (ux_cipher x)) (ux_fresh x) (ux_now x) p)),
      um_UpdateProject = (\<lambda>p. on_db (projects_Update (ux_url_parse x) (ux_head x) (UpdateProject (ux_cipher x)) (ux_now x) p)),
      um_DeleteProject = (\<lambda>i. on_db (\<lambda>d. as_app (DeleteProject i d))),
      um_Detect = projects_Detect (ux_url_parse x) (ux_head x),
      um_Discover = ux_discover x, um_SyncSchedules = (\<lambda>p. on_db (ux_sync x p)), um_ListRefs = ux_refs x,
      um_ListVariables = (\<lambda>po. on_db (variables_List (ListVariables (ux_cipher x)) po)),
      um_SetVariable = (\<lambda>v. on_db (variables_Set (SetVariable (ux_cipher x)) v)),
      um_DeleteVariable = (\<lambda>po k. on_db (\<lambda>d. as_app (DeleteVariable po k d))),
      um_ListExecutions = (\<lambda>i n. on_db (\<lambda>d. as_app (ListExecutions i n d))),
      um_Create = (\<lambda>p wfl ref u. on_db (module_Create sqlite_executions (ux_now x) p wfl ref u)),
      um_Get = (\<lambda>i e n. on_db (module_Get sqlite_executions i e n)),
      um_Cancel = (\<lambda>i e. on_db (module_Cancel sqlite_executions (\<lambda>_ _ d. d) i e)),
      um_Rebuild = (\<lambda>p e u. on_db (module_Rebuild sqlite_executions (ux_now x) p e u)),
      um_Retry = (\<lambda>p e n u. on_db (module_Retry sqlite_executions (ux_stat x) (ux_workspace x) (ux_now x) p e n u)),
      um_Logs = ux_logs x, um_StepLog = module_StepLog (ux_read x) (ux_workspace x),
      um_SetupLog = module_SetupLog (ux_read x) (ux_workspace x), um_Artifacts = ux_artifacts x, um_OpenArtifact = ux_open x,
      um_CacheGet = (\<lambda>p. on_cache (cache_Get (ux_engine x) (p_ID p))), um_RegistrySize = on_cache (RegistrySize (ux_engine x)),
      um_RemoveImage = (\<lambda>p r. on_cache (cache_RemoveImage (ux_engine x) (p_ID p) r)),
      um_RemoveVolume = (\<lambda>p n. on_cache (cache_RemoveVolume (ux_engine x) (p_ID p) n)),
      um_PurgeRegistry = on_cache (cache_PurgeRegistry (ux_engine x)),
      um_ListAPITokens = (\<lambda>u. on_db (\<lambda>d. as_app (ListAPITokens u d))),
      um_ListSessions = (\<lambda>u. on_db (\<lambda>d. as_app (ListUserSessions u d))),
      um_CreateAPIToken = (\<lambda>u name expires. on_db (\<lambda>d.
        case service_CreateAPIToken (sqlite_auth (ux_cipher x) (ux_fresh x) (ux_now x)) (ux_hash x) (ux_random x) (ux_fresh x) (ux_now x)
               u name expires d of
          (Inl _, d1) \<Rightarrow> (Inl (AppOther ''create token''), d1) | (Inr (raw, _), d1) \<Rightarrow> (Inr raw, d1))),
      um_RenameAPIToken = (\<lambda>u i name. on_db (\<lambda>d. as_app (RenameAPIToken u i name d))),
      um_DeleteAPIToken = (\<lambda>u i. on_db (\<lambda>d. as_app (DeleteAPIToken u i d))),
      um_DeleteSession = (\<lambda>u i. on_db (\<lambda>d. as_app (DeleteUserSession u i d))),
      um_DeleteAllSessions = (\<lambda>u. on_db (\<lambda>d. as_app (DeleteUserSessions u d)))\<rparr>"

text \<open>Reading may refresh the remembered sizes of the volumes, and nothing else.\<close>

definition stored_state :: "db \<times> 'e cache_state \<Rightarrow> db \<times> 'e" where
  "stored_state s = (fst s, ca_engine (snd s))"

lemma on_db_quiet: "(\<And>d. snd (f d) = d) \<Longrightarrow> stored_state (snd (on_db f s)) = stored_state s"
proof -
  assume q: "\<And>d. snd (f d) = d"
  obtain d c where s: "s = (d, c)" by (cases s)
  show ?thesis using q [of d] by (cases "f d") (simp add: s on_db_def stored_state_def)
qed

lemma on_cache_quiet: "(\<And>c. ca_engine (snd (f c)) = ca_engine c) \<Longrightarrow> stored_state (snd (on_cache f s)) = stored_state s"
proof -
  assume q: "\<And>c. ca_engine (snd (f c)) = ca_engine c"
  obtain d c where s: "s = (d, c)" by (cases s)
  show ?thesis using q [of c] by (cases "f c") (simp add: s on_cache_def stored_state_def)
qed

lemma as_app_quiet: "snd (as_app r) = snd r"
  by (auto simp: as_app_def split: prod.splits sum.splits)

lemma sqlite_reads:
  "snd (GetProject c i d) = d" "snd (GetProjectByName c n d) = d" "snd (ListProjects c d) = d" "snd (ListVariables c po d) = d"
  "snd (ListExecutions i k d) = d" "snd (GetExecutionAttempt i e a d) = d" "snd (ListAttempts i e d) = d" "snd (ListAPITokens u d) = d"
  "snd (ListUserSessions u d) = d"
  by (auto simp: GetProject_def GetProjectByName_def ListProjects_def ListVariables_def ListExecutions_def GetExecutionAttempt_def
      GetAttempt_def ListAttempts_def ListAPITokens_def ListUserSessions_def Let_def split: option.splits list.splits)

lemma Resolve_quiet: "snd (Resolve up (GetProject c) (GetProjectByName c) ref d) = d"
proof -
  have "snd (GetProject c i d) = d" "snd (GetProjectByName c n d) = d" for i n by (simp_all add: sqlite_reads)
  then show ?thesis by (auto simp: Resolve_def Let_def split: option.splits prod.splits sum.splits) (metis snd_conv)+
qed

lemma variables_List_quiet: "snd (variables_List (ListVariables c) po d) = d"
  using sqlite_reads(4) [of c po d] by (auto simp: variables_List_def split: prod.splits sum.splits)

lemma module_Get_quiet: "snd (module_Get sqlite_executions i e n d) = d"
  using sqlite_reads(6) [of i e n d] sqlite_reads(7) [of i _ d]
  by (auto simp: module_Get_def module_attempt_def sqlite_executions_def split: prod.splits sum.splits) (metis snd_conv)+

lemma volumeSizes_quiet: "ca_engine (snd (volumeSizes g s)) = ca_engine s"
  by (auto simp: volumeSizes_def split: option.splits sum.splits)

lemma cache_reads: "ca_engine (snd (cache_Get g i s)) = ca_engine s" "ca_engine (snd (RegistrySize g s)) = ca_engine s"
  using volumeSizes_quiet [of _ s]
  by (auto simp: cache_Get_def RegistrySize_def Let_def split: option.splits sum.splits prod.splits) (metis snd_conv)+

interpretation sqlite_ui: ui_reads stored_state "sqlite_modules x" for x
  by unfold_locales
    (simp_all add: sqlite_modules_def on_db_quiet on_cache_quiet as_app_quiet sqlite_reads Resolve_quiet variables_List_quiet module_Get_quiet cache_reads)

section \<open>Properties\<close>


definition sample_ui :: "unit ui_env" where
  "sample_ui =
     \<lparr>ux_cipher = None, ux_now = 9000000, ux_fresh = 7, ux_random = Inr ''tok'', ux_hash = (\<lambda>s. s), ux_uuid_parse = (\<lambda>_. None),
      ux_url_parse = (\<lambda>_. None), ux_path_escape = (\<lambda>s. s), ux_publicBaseURL = ''https://ci.example'', ux_head = (\<lambda>_ _. None),
      ux_refs = (\<lambda>_. Inr ([''main''], [])), ux_discover = (\<lambda>_ _. Inr []), ux_sync = (\<lambda>_ d. (Inr (), d)),
      ux_workspace = \<lparr>ws_root = ''/data'', ws_logsRoot = ''/logs''\<rparr>, ux_stat = (\<lambda>_. False), ux_read = (\<lambda>_. Inl None), ux_logs = (\<lambda>_. []),
      ux_artifacts = (\<lambda>_. []), ux_open = (\<lambda>_ _ _. Inl (AppOther ''none'')), ux_engine = None\<rparr>"


text \<open>
  The list of workflows is a \<^verbatim>\<open>GET\<close> and asks for no token, and it hands the project to \<^verbatim>\<open>SyncSchedules\<close>.
\<close>

lemma workflows_page_syncs_schedules:
  assumes p: "um_Resolve m ref s = (Inr p, s1)" and found: "um_Discover m p (p_DefaultBranch p) = Inr workflows"
    and ref: "wq_Query rq ''ref'' = []"
  shows "snd (ui_ProjectConfigs m ref pr rq s) = snd (um_SyncSchedules m p s1)"
proof -
  have "TrimSpace [] = []" by code_simp
  then show ?thesis using assms by (simp add: ui_ProjectConfigs_def ui_project_def Let_def split: prod.splits sum.splits)
qed

text \<open>
  A rejected edit sends the stored secret back: with the two fields of the secret left blank the draft keeps the secret
  of the project, and the form is rendered with the secret of the draft.
\<close>

lemma rejected_update_reveals_secret:
  assumes p: "um_Resolve m ref s = (Inr p, s1)" and blank: "wq_Form rq ''auth_secret'' = []" "wq_SecretFile rq = None"
    and invalid: "um_UpdateProject m (projectFromForm rq p) s1 = (Inl (AppInvalid err), s2)"
    and token: "validCSRF pr rq"
  shows "\<exists>b draft fields. wx_Body (fst (ui_ProjectUpdate m ref pr rq s)) = Some (b, ProjectForm draft fields True err)
    \<and> uf_Secret fields = p_AuthSecret p"
proof -
  have "p_AuthSecret (projectFromForm rq p) = p_AuthSecret p" using blank by (simp add: projectFromForm_def Let_def)
  then show ?thesis using p token invalid
    by (simp add: ui_ProjectUpdate_def ui_checked_def ui_project_def rejected_form_def ui_render_def page_response_def Let_def)
qed

end
