(* ===== verification/Gc.thy ===== *)
theory Gc
  imports Caches SqliteQueue
begin

text \<open>
  The garbage collector, \<^verbatim>\<open>internal/gc/gc.go\<close>. One tick is a function of what the directories hold, what
  the store answers and what the engine runs; its result is the list of things it removes, in order,
  and the state of the image cache. \<open>uuid_parse\<close> is \<^verbatim>\<open>uuid.Parse\<close>. The reads of one tick are those of
  the directories at its start: a tick removes nothing that it reads later.

  The lemmas show that a tick never removes what an active run uses, provided the store answers, and
  that a workspace is removed when it does not.
\<close>

section \<open>One tick\<close>

text \<open>\<open>readDir\<close> lists names with whether they are directories, \<open>age\<close> is the time since the modification.\<close>

record gc_fs =
  fs_readDir :: "string \<Rightarrow> (string \<times> bool) list option"
  fs_age :: "string \<Rightarrow> int option"

record gc_store =
  gs_WorkspaceRetained :: "uuid \<Rightarrow> int \<Rightarrow> go_time \<Rightarrow> store_error + bool"
  gs_GetAttempt :: "uuid \<Rightarrow> int \<Rightarrow> store_error + execution"

record sandbox_ref =
  sr_ID :: string
  sr_ProjectID :: string
  sr_Attempt :: int

record collector =
  co_WorkspaceDir :: string
  co_LogsDir :: string
  co_Keep :: int
  co_Interval :: int
  co_RegistryCacheMaxSize :: int

datatype gc_effect = RemovedPath string | RemovedSandbox string | PrunedImages

definition with_defaults :: "collector \<Rightarrow> collector" where
  "with_defaults c =
     c\<lparr>co_Interval := (if co_Interval c \<le> 0 then 10 * minute else co_Interval c),
       co_Keep := (if co_Keep c \<le> 0 then 24 * hour else co_Keep c)\<rparr>"

definition olderThan :: "gc_fs \<Rightarrow> string \<Rightarrow> int \<Rightarrow> bool" where
  "olderThan fs path d = (case fs_age fs path of None \<Rightarrow> False | Some a \<Rightarrow> d < a)"

definition subdirs :: "gc_fs \<Rightarrow> string \<Rightarrow> string list" where
  "subdirs fs dir =
     (case fs_readDir fs dir of None \<Rightarrow> [] | Some entries \<Rightarrow> map fst (filter snd entries))"

text \<open>The directories of projects, with the project each belongs to.\<close>

definition project_dirs :: "(string \<Rightarrow> uuid option) \<Rightarrow> gc_fs \<Rightarrow> string \<Rightarrow> (uuid \<times> string) list" where
  "project_dirs uuid_parse fs root =
     concat (map (\<lambda>name. case uuid_parse name of None \<Rightarrow> [] | Some projectID \<Rightarrow> [(projectID, Join [root, name])])
               (subdirs fs root))"

definition workspace_expired :: "gc_fs \<Rightarrow> gc_store \<Rightarrow> collector \<Rightarrow> go_time \<Rightarrow> uuid \<Rightarrow> string \<Rightarrow> string \<Rightarrow> bool" where
  "workspace_expired fs store c cutoff projectID projPath name =
     (if name = ''_discovery'' then olderThan fs (Join [projPath, name]) (co_Keep c)
      else (case ParseInt64 name of
              None \<Rightarrow> True
            | Some i \<Rightarrow>
                (case gs_WorkspaceRetained store projectID i cutoff of
                   Inl _ \<Rightarrow> True
                 | Inr retained \<Rightarrow> \<not> retained)))"

definition cleanupWorkspaces ::
  "(string \<Rightarrow> uuid option) \<Rightarrow> gc_fs \<Rightarrow> gc_store \<Rightarrow> collector \<Rightarrow> go_time \<Rightarrow> gc_effect list" where
  "cleanupWorkspaces uuid_parse fs store c now =
     (let cutoff = now - co_Keep c
      in concat (map (\<lambda>(projectID, projPath).
           map (\<lambda>name. RemovedPath (Join [projPath, name]))
             (filter (workspace_expired fs store c cutoff projectID projPath) (subdirs fs projPath)))
           (project_dirs uuid_parse fs (co_WorkspaceDir c))))"

definition expired :: "gc_store \<Rightarrow> uuid \<Rightarrow> int \<Rightarrow> go_time \<Rightarrow> bool" where
  "expired store projectID i cutoff =
     (case gs_GetAttempt store projectID i of
        Inl _ \<Rightarrow> True
      | Inr e \<Rightarrow>
          (if e_Status e = StatusSuccess \<or> e_Status e = StatusFailed \<or> e_Status e = StatusCanceled
           then (case e_FinishedAt e of None \<Rightarrow> False | Some t \<Rightarrow> t < cutoff)
           else False))"

definition cleanupLogs :: "(string \<Rightarrow> uuid option) \<Rightarrow> gc_fs \<Rightarrow> gc_store \<Rightarrow> collector \<Rightarrow> go_time \<Rightarrow> gc_effect list" where
  "cleanupLogs uuid_parse fs store c now =
     (let cutoff = now - co_Keep c
      in concat (map (\<lambda>(projectID, projPath).
           map (\<lambda>name. RemovedPath (Join [projPath, name]))
             (filter (\<lambda>name. case ParseInt64 name of None \<Rightarrow> True | Some i \<Rightarrow> expired store projectID i cutoff)
                (subdirs fs projPath)))
           (project_dirs uuid_parse fs (co_LogsDir c))))"

definition cleanupUploads :: "gc_fs \<Rightarrow> collector \<Rightarrow> gc_effect list" where
  "cleanupUploads fs c =
     (let root = Join [co_WorkspaceDir c, ''uploads'']
      in concat (map (\<lambda>proj.
           (let projPath = Join [root, proj]
            in map RemovedPath (filter (\<lambda>path. olderThan fs path (co_Keep c))
                 (map (\<lambda>f. Join [projPath, fst f])
                    (case fs_readDir fs projPath of None \<Rightarrow> [] | Some files \<Rightarrow> files)))))
           (subdirs fs root)))"

definition cleanupSandboxes :: "(string \<Rightarrow> uuid option) \<Rightarrow> gc_store \<Rightarrow> (string + sandbox_ref list) \<Rightarrow> gc_effect list" where
  "cleanupSandboxes uuid_parse store sandboxes =
     (case sandboxes of
        Inl _ \<Rightarrow> []
      | Inr refs \<Rightarrow>
          map (\<lambda>sb. RemovedSandbox (sr_ID sb))
            (filter (\<lambda>sb. case uuid_parse (sr_ProjectID sb) of
                             None \<Rightarrow> False
                           | Some projectID \<Rightarrow>
                               (case gs_GetAttempt store projectID (sr_Attempt sb) of
                                  Inl e \<Rightarrow> e = ErrNotFound
                                | Inr x \<Rightarrow> e_Status x \<noteq> StatusRunning)) refs))"

text \<open>The registry is the cache module of \<open>Caches\<close>.\<close>

definition cleanupRegistryCache :: "'e cache_engine option \<Rightarrow> collector \<Rightarrow> 'e cache_state \<Rightarrow> 'e cache_state" where
  "cleanupRegistryCache engine c s =
     (if co_RegistryCacheMaxSize c \<le> 0 then s
      else (case RegistrySize engine s of
              (Inl _, s') \<Rightarrow> s'
            | (Inr usage, s') \<Rightarrow>
                if usage \<le> co_RegistryCacheMaxSize c then s' else snd (cache_PurgeRegistry engine s')))"

text \<open>\<open>engine\<close> is \<open>None\<close> without a container engine, else what it answers to \<^verbatim>\<open>Sandboxes\<close>.\<close>

definition tick ::
  "(string \<Rightarrow> uuid option) \<Rightarrow> gc_fs \<Rightarrow> gc_store \<Rightarrow> (string + sandbox_ref list) option \<Rightarrow> 'e cache_engine option
     \<Rightarrow> collector \<Rightarrow> go_time \<Rightarrow> 'e cache_state \<Rightarrow> gc_effect list \<times> 'e cache_state" where
  "tick uuid_parse fs store engine registry c now s =
     (cleanupWorkspaces uuid_parse fs store c now
      @ cleanupLogs uuid_parse fs store c now
      @ cleanupUploads fs c
      @ (case engine of None \<Rightarrow> [] | Some sandboxes \<Rightarrow> cleanupSandboxes uuid_parse store sandboxes @ [PrunedImages]),
      cleanupRegistryCache registry c s)"

section \<open>The store of the server\<close>

definition sqlite_gc :: "db \<Rightarrow> gc_store" where
  "sqlite_gc d = \<lparr>gs_WorkspaceRetained = (\<lambda>p w cutoff. fst (WorkspaceRetained p w cutoff d)),
                  gs_GetAttempt = (\<lambda>p i. fst (GetAttempt p i d))\<rparr>"

section \<open>What the collector relies on\<close>

text \<open>Removing a path removes what is at it and below it.\<close>

definition removes :: "string \<Rightarrow> string \<Rightarrow> bool" where
  "removes path target \<longleftrightarrow> target = path \<or> HasPrefix target (path @ ''/'')"

definition plain_names :: "gc_fs \<Rightarrow> bool" where
  "plain_names fs \<longleftrightarrow> (\<forall>dir es. fs_readDir fs dir = Some es \<longrightarrow> (\<forall>e \<in> set es. plain (fst e)))"

text \<open>
  The contract: an attempt in use retains its workspace and is found with an active status, a running one as
  running. The workspace and the attempt are given by their project and number.
\<close>

locale gc_contract =
  fixes store :: gc_store and in_use :: "uuid \<Rightarrow> int \<Rightarrow> bool" and active :: "uuid \<Rightarrow> int \<Rightarrow> bool"
    and running :: "uuid \<Rightarrow> int \<Rightarrow> bool"
  assumes retained: "in_use p w \<Longrightarrow> gs_WorkspaceRetained store p w cutoff = Inr True"
    and attempt: "active p i \<Longrightarrow> \<exists>e. gs_GetAttempt store p i = Inr e \<and> status_active (e_Status e)"
    and attempt_running: "running p i \<Longrightarrow> \<exists>e. gs_GetAttempt store p i = Inr e \<and> e_Status e = StatusRunning"
begin

lemma not_expired: "active p i \<Longrightarrow> \<not> expired store p i cutoff"
  using attempt [of p i] by (auto simp: expired_def status_active_def)

lemma workspace_kept: "in_use p i \<Longrightarrow> int64_range i \<Longrightarrow> \<not> workspace_expired fs store c cutoff p path (itoa i)"
  using retained [of p i cutoff] by (simp add: workspace_expired_def)

lemma sandbox_kept:
  assumes "running p i" "uuid_parse (uuid_String p) = Some p"
    and "\<forall>ref \<in> set refs. sr_ID ref = box \<longrightarrow> sr_ProjectID ref = uuid_String p \<and> sr_Attempt ref = i"
  shows "RemovedSandbox box \<notin> set (cleanupSandboxes uuid_parse store (Inr refs))"
  using attempt_running [OF assms(1)] assms(2,3) by (auto simp: cleanupSandboxes_def)

end

definition attempt_in :: "db \<Rightarrow> uuid \<Rightarrow> int \<Rightarrow> (status \<Rightarrow> bool) \<Rightarrow> bool" where
  "attempt_in d p i st \<longleftrightarrow>
     db_ok d \<and> (\<exists>r \<in> set (db_executions d). ew_project_id r = p \<and> ew_id r = i \<and> st (ew_status r))"

definition workspace_in :: "db \<Rightarrow> uuid \<Rightarrow> int \<Rightarrow> bool" where
  "workspace_in d p w \<longleftrightarrow>
     (\<exists>r \<in> set (db_executions d). ew_project_id r = p \<and> ew_workspace_id r = Some w \<and> status_active (ew_status r))"

lemma GetAttempt_in: "attempt_in d p i st \<Longrightarrow> \<exists>e. gs_GetAttempt (sqlite_gc d) p i = Inr e \<and> st (e_Status e)"
  using GetAttempt_row [of d] by (fastforce simp: attempt_in_def sqlite_gc_def)

interpretation sqlite: gc_contract "sqlite_gc d" "workspace_in d" "\<lambda>p i. attempt_in d p i status_active"
    "\<lambda>p i. attempt_in d p i (\<lambda>st. st = StatusRunning)" for d
proof
  fix p w cutoff assume "workspace_in d p w"
  then show "gs_WorkspaceRetained (sqlite_gc d) p w cutoff = Inr True"
    by (auto simp: workspace_in_def sqlite_gc_def WorkspaceRetained_def filter_empty_conv uses_workspace_def status_active_def)
qed (use GetAttempt_in in blast)+

section \<open>Paths\<close>

lemma subdirs_plain: "plain_names fs \<Longrightarrow> name \<in> set (subdirs fs dir) \<Longrightarrow> plain name"
  by (cases "fs_readDir fs dir") (force simp: plain_names_def subdirs_def)+

lemma project_dirs_render:
  assumes "rooted root ps" "plain_names fs" "(p, path) \<in> set (project_dirs uuid_parse fs root)"
  shows "\<exists>proj. plain proj \<and> uuid_parse proj = Some p \<and> path = render_path True (ps @ [proj])"
proof -
  from assms(3) obtain proj where proj: "proj \<in> set (subdirs fs root)" "uuid_parse proj = Some p" "path = Join [root, proj]"
    by (auto simp: project_dirs_def split: option.splits)
  with assms(1,2) show ?thesis
    using subdirs_plain [of fs proj root] Join_render_plain [of ps "[proj]"] by (auto simp: rooted_def)
qed

lemma Join_below:
  "\<forall>w \<in> set ps. plain w \<Longrightarrow> plain n \<Longrightarrow> Join [render_path True ps, n] = render_path True (ps @ [n])"
  using Join_render_plain [of ps "[n]"] by simp

lemma project_dirsI: "uuid_parse name = Some p \<Longrightarrow> name \<in> set (subdirs fs root) \<Longrightarrow>
    (p, Join [root, name]) \<in> set (project_dirs uuid_parse fs root)"
  by (force simp: project_dirs_def)

lemma cleanupWorkspaces_iff:
  "RemovedPath x \<in> set (cleanupWorkspaces uuid_parse fs store c now) \<longleftrightarrow>
     (\<exists>p path name. (p, path) \<in> set (project_dirs uuid_parse fs (co_WorkspaceDir c)) \<and> name \<in> set (subdirs fs path)
        \<and> workspace_expired fs store c (now - co_Keep c) p path name \<and> x = Join [path, name])"
  by (auto simp: cleanupWorkspaces_def Let_def)

lemma cleanupWorkspaces_render:
  assumes "rooted (co_WorkspaceDir c) ps" "plain_names fs" "RemovedPath x \<in> set (cleanupWorkspaces uuid_parse fs store c now)"
  shows "\<exists>proj name p. plain proj \<and> plain name \<and> uuid_parse proj = Some p \<and> x = render_path True (ps @ [proj, name])
    \<and> workspace_expired fs store c (now - co_Keep c) p (render_path True (ps @ [proj])) name"
proof -
  from assms(3) obtain p path name where pd: "(p, path) \<in> set (project_dirs uuid_parse fs (co_WorkspaceDir c))"
    and name: "name \<in> set (subdirs fs path)" "workspace_expired fs store c (now - co_Keep c) p path name"
      "x = Join [path, name]"
    unfolding cleanupWorkspaces_iff by blast
  from project_dirs_render [OF assms(1,2) pd] obtain proj where proj: "plain proj" "uuid_parse proj = Some p"
    "path = render_path True (ps @ [proj])" by blast
  have "plain name" using subdirs_plain [OF assms(2) name(1)] .
  with proj name(2,3) assms(1) show ?thesis
    using Join_below [of "ps @ [proj]" name] by (auto simp: rooted_def)
qed

lemma cleanupLogs_render:
  assumes "rooted (co_LogsDir c) ps" "plain_names fs" "RemovedPath x \<in> set (cleanupLogs uuid_parse fs store c now)"
  shows "\<exists>proj name p. plain proj \<and> plain name \<and> uuid_parse proj = Some p \<and> x = render_path True (ps @ [proj, name])
    \<and> (\<forall>i. ParseInt64 name = Some i \<longrightarrow> expired store p i (now - co_Keep c))"
proof -
  from assms(3) obtain p path name where pd: "(p, path) \<in> set (project_dirs uuid_parse fs (co_LogsDir c))"
    and name: "name \<in> set (subdirs fs path)" "x = Join [path, name]"
      "\<forall>i. ParseInt64 name = Some i \<longrightarrow> expired store p i (now - co_Keep c)"
    by (auto simp: cleanupLogs_def Let_def split: option.splits)
  from project_dirs_render [OF assms(1,2) pd] obtain proj where proj: "plain proj" "uuid_parse proj = Some p"
    "path = render_path True (ps @ [proj])" by blast
  have "plain name" using subdirs_plain [OF assms(2) name(1)] .
  with proj name(2,3) assms(1) show ?thesis
    using Join_below [of "ps @ [proj]" name] by (auto simp: rooted_def)
qed

lemma cleanupUploads_render:
  assumes "rooted (co_WorkspaceDir c) ps" "plain_names fs" "RemovedPath x \<in> set (cleanupUploads fs c)"
  shows "\<exists>proj name. plain proj \<and> plain name \<and> x = render_path True (ps @ [''uploads'', proj, name])"
proof -
  have ps: "\<forall>w \<in> set ps. plain w" "co_WorkspaceDir c = render_path True ps" using assms(1) by (auto simp: rooted_def)
  have up: "Join [co_WorkspaceDir c, ''uploads''] = render_path True (ps @ [''uploads''])" using ps Join_below by simp
  from assms(3) obtain proj f where pf: "proj \<in> set (subdirs fs (render_path True (ps @ [''uploads''])))"
    "f \<in> set (case fs_readDir fs (Join [render_path True (ps @ [''uploads'']), proj]) of None \<Rightarrow> [] | Some files \<Rightarrow> files)"
    "x = Join [Join [render_path True (ps @ [''uploads'']), proj], fst f]"
    by (auto simp: cleanupUploads_def Let_def up)
  from pf(2) obtain files where "fs_readDir fs (Join [render_path True (ps @ [''uploads'']), proj]) = Some files" "f \<in> set files"
    by (cases "fs_readDir fs (Join [render_path True (ps @ [''uploads'']), proj])") simp_all
  with assms(2) have "plain (fst f)" unfolding plain_names_def by blast
  with subdirs_plain [OF assms(2) pf(1)] have plain: "plain proj" "plain (fst f)" by simp_all
  have "x = render_path True (ps @ [''uploads'', proj, fst f])"
    unfolding pf(3) using ps(1) plain by (simp add: Join_below)
  with plain show ?thesis by blast
qed

lemma removes_render:
  assumes "\<forall>w \<in> set xs. plain w" "xs \<noteq> []" "\<forall>w \<in> set ys. plain w"
  shows "removes (render_path True xs) (render_path True ys) \<longleftrightarrow> prefix xs ys"
  using HasPrefix_render [OF assms] render_eq_iff [OF assms(3,1)] by (auto simp: removes_def prefix_def)

lemma not_below:
  assumes "\<not> prefix ps qs" "\<not> prefix qs ps"
  shows "\<not> prefix (ps @ us) (qs @ vs)"
proof
  assume "prefix (ps @ us) (qs @ vs)"
  then have "prefix ps (qs @ vs)" using append_prefixD by blast
  moreover have "prefix qs (qs @ vs)" by simp
  ultimately show False using assms prefix_same_cases by blast
qed

section \<open>Properties\<close>

lemma gc_removals:
  assumes roots: "rooted (ws_root w) ps" "rooted (ws_logsRoot w) qs" "\<not> prefix ps qs" "\<not> prefix qs ps"
    and dirs: "co_WorkspaceDir c = ws_root w" "co_LogsDir c = ws_logsRoot w"
    and fs: "plain_names fs" "uuid_parse (uuid_String (ew_project_id r)) = Some (ew_project_id r)"
    and row: "db_ok d" "r \<in> set (db_executions d)" "status_active (ew_status r)" "ew_workspace_id r = Some ws"
      "int64_range ws" "int64_range (ew_id r)"
  shows "RemovedPath x \<in> set (fst (tick uuid_parse fs (sqlite_gc d) engine registry c now s)) \<Longrightarrow>
      \<not> removes x (RepoDir w (ew_project_id r) ws) \<and> \<not> removes x (LogDir w (ew_project_id r) (ew_id r))"
    and "ew_status r = StatusRunning \<Longrightarrow>
      \<forall>refs. engine = Some (Inr refs) \<longrightarrow> (\<forall>ref \<in> set refs. sr_ID ref = box \<longrightarrow>
          sr_ProjectID ref = uuid_String (ew_project_id r) \<and> sr_Attempt ref = ew_id r) \<Longrightarrow>
      RemovedSandbox box \<notin> set (fst (tick uuid_parse fs (sqlite_gc d) engine registry c now s))"
proof -
  let ?p = "ew_project_id r" and ?st = "sqlite_gc d"
  have plain: "\<forall>x \<in> set ps. plain x" "\<forall>x \<in> set qs. plain x" using roots by (auto simp: rooted_def)
  have use: "workspace_in d ?p ws" "attempt_in d ?p (ew_id r) status_active"
    using row by (auto simp: workspace_in_def attempt_in_def)
  note targets = workspace_renders(1) [OF roots(1)] log_renders(1) [OF roots(2)]
  have parse: "uuid_parse (uuid_String ?p) = Some q \<longleftrightarrow> q = ?p" for q using fs(2) by auto
  show "\<not> removes x (RepoDir w ?p ws) \<and> \<not> removes x (LogDir w ?p (ew_id r))"
    if x: "RemovedPath x \<in> set (fst (tick uuid_parse fs ?st engine registry c now s))"
  proof -
    consider "RemovedPath x \<in> set (cleanupWorkspaces uuid_parse fs ?st c now)"
      | "RemovedPath x \<in> set (cleanupLogs uuid_parse fs ?st c now)" | "RemovedPath x \<in> set (cleanupUploads fs c)"
      using x by (auto simp: tick_def cleanupSandboxes_def split: option.splits sum.splits)
    then show ?thesis
    proof cases
      case 1
      from cleanupWorkspaces_render [OF _ fs(1) 1, of ps] roots(1) dirs(1) obtain proj name p where
        c: "plain proj" "plain name" "uuid_parse proj = Some p" "x = render_path True (ps @ [proj, name])"
          "workspace_expired fs ?st c (now - co_Keep c) p (render_path True (ps @ [proj])) name" by auto
      have "\<not> (proj = uuid_String ?p \<and> name = itoa ws)"
        using c(3,5) parse sqlite.workspace_kept [OF use(1) row(5)] by auto
      then show ?thesis
        using c(1,2) plain not_below [OF roots(3,4)] by (simp add: targets c(4) removes_render)
    next
      case 2
      from cleanupLogs_render [OF _ fs(1) 2, of qs] roots(2) dirs(2) obtain proj name p where
        c: "plain proj" "plain name" "uuid_parse proj = Some p" "x = render_path True (qs @ [proj, name])"
          "\<forall>i. ParseInt64 name = Some i \<longrightarrow> expired ?st p i (now - co_Keep c)" by auto
      have "\<not> (proj = uuid_String ?p \<and> name = itoa (ew_id r))"
        using c(3,5) parse sqlite.not_expired [OF use(2)] row(6) by auto
      then show ?thesis
        using c(1,2) plain not_below [OF roots(4,3)] by (simp add: targets c(4) removes_render)
    next
      case 3
      from cleanupUploads_render [OF _ fs(1) 3, of ps] roots(1) dirs(1) obtain proj name where
        c: "plain proj" "plain name" "x = render_path True (ps @ [''uploads'', proj, name])" by auto
      then show ?thesis
        using plain not_below [OF roots(3,4)] by (simp add: targets c(3) removes_render)
    qed
  qed
  show "RemovedSandbox box \<notin> set (fst (tick uuid_parse fs ?st engine registry c now s))"
    if run: "ew_status r = StatusRunning" and boxes: "\<forall>refs. engine = Some (Inr refs) \<longrightarrow> (\<forall>ref \<in> set refs. sr_ID ref = box \<longrightarrow>
          sr_ProjectID ref = uuid_String ?p \<and> sr_Attempt ref = ew_id r)"
  proof -
    have "attempt_in d ?p (ew_id r) (\<lambda>st. st = StatusRunning)" using row run by (auto simp: attempt_in_def)
    then have "RemovedSandbox box \<notin> set (cleanupSandboxes uuid_parse ?st (Inr refs))" if "engine = Some (Inr refs)" for refs
      using sqlite.sandbox_kept [where uuid_parse = uuid_parse and refs = refs and box = box] fs(2) boxes that by blast
    then have "RemovedSandbox box \<notin> set (cleanupSandboxes uuid_parse ?st refs)" if "engine = Some refs" for refs
      using that by (cases refs) (auto simp: cleanupSandboxes_def)
    then show ?thesis
      by (auto simp: tick_def cleanupWorkspaces_def cleanupLogs_def cleanupUploads_def Let_def split: option.splits)
  qed
qed

text \<open>A small data directory: one project with the workspaces and logs of the attempts 1 and 2.\<close>

definition sample_fs :: gc_fs where
  "sample_fs =
     \<lparr>fs_readDir = (\<lambda>dir.
        if dir = ''/data'' \<or> dir = ''/logs'' then Some [(uuid_String 1, True)]
        else if dir = ''/data/'' @ uuid_String 1 \<or> dir = ''/logs/'' @ uuid_String 1
        then Some [(itoa 1, True), (itoa 2, True)] else None),
      fs_age = (\<lambda>_. None)\<rparr>"

definition sample_uuid_parse :: "string \<Rightarrow> uuid option" where
  "sample_uuid_parse s = (if s = uuid_String 1 then Some 1 else if s = uuid_String 2 then Some 2 else None)"

definition sample_collector :: collector where
  "sample_collector = \<lparr>co_WorkspaceDir = ''/data'', co_LogsDir = ''/logs'', co_Keep = hour, co_Interval = minute,
     co_RegistryCacheMaxSize = 0\<rparr>"

lemma sample_fs_plain: "plain_names sample_fs"
  by (auto simp: plain_names_def sample_fs_def plain_itoa split: if_splits)

lemma sample_roots: "rooted ''/data'' [''data'']" "rooted ''/logs'' [''logs'']"
  by (simp_all add: rooted_def plain_def render_path_def)

lemma sample_row: "\<exists>r \<in> set (db_executions sample_queue_db).
    ew_project_id r = 1 \<and> ew_id r = 1 \<and> ew_workspace_id r = Some 1 \<and> ew_status r = StatusPending"
proof -
  have "list_ex (\<lambda>r. ew_project_id r = 1 \<and> ew_id r = 1 \<and> ew_workspace_id r = Some 1 \<and> ew_status r = StatusPending)
      (db_executions sample_queue_db)" by code_simp
  then show ?thesis by (simp add: list_ex_iff)
qed



lemma cleanupWorkspaces_decides:
  assumes roots: "rooted (ws_root w) ps" and dirs: "co_WorkspaceDir c = ws_root w"
    and fs: "plain_names fs" "uuid_parse (uuid_String p) = Some p" "int64_range i"
    and listed: "uuid_String p \<in> set (subdirs fs (ws_root w))" "itoa i \<in> set (subdirs fs (Join [ws_root w, uuid_String p]))"
  shows "RemovedPath (RepoDir w p i) \<in> set (cleanupWorkspaces uuid_parse fs store c now)
      \<longleftrightarrow> (case gs_WorkspaceRetained store p i (now - co_Keep c) of Inl _ \<Rightarrow> True | Inr retained \<Rightarrow> \<not> retained)" (is "_ \<longleftrightarrow> ?gone")
proof -
  have plain: "\<forall>x \<in> set ps. plain x" and root: "ws_root w = render_path True ps" using roots by (auto simp: rooted_def)
  note target = workspace_renders(1) [OF roots(1), of p i]
  have decision: "workspace_expired fs store c (now - co_Keep c) p path (itoa i) \<longleftrightarrow> ?gone" for path
    using fs(3) by (simp add: workspace_expired_def)
  show ?thesis
  proof
    assume "RemovedPath (RepoDir w p i) \<in> set (cleanupWorkspaces uuid_parse fs store c now)"
    from cleanupWorkspaces_render [OF _ fs(1) this, of ps] roots(1) dirs(1) obtain proj name q where
      e: "plain proj" "plain name" "uuid_parse proj = Some q" "RepoDir w p i = render_path True (ps @ [proj, name])"
        "workspace_expired fs store c (now - co_Keep c) q (render_path True (ps @ [proj])) name" by auto
    have "ps @ [proj, name] = ps @ [uuid_String p, itoa i]"
      using e(4) [unfolded target] render_eq_iff [of "ps @ [uuid_String p, itoa i]" "ps @ [proj, name]"] plain e(1,2) by auto
    with e(3,5) fs(2) show ?gone using decision by auto
  next
    assume ?gone
    then have "workspace_expired fs store c (now - co_Keep c) p (Join [ws_root w, uuid_String p]) (itoa i)"
      using decision by simp
    moreover have "(p, Join [ws_root w, uuid_String p]) \<in> set (project_dirs uuid_parse fs (co_WorkspaceDir c))"
      unfolding dirs(1) by (rule project_dirsI) (rule fs(2), rule listed(1))
    moreover have "RepoDir w p i = Join [Join [ws_root w, uuid_String p], itoa i]"
      unfolding target root using plain by (simp add: Join_below)
    ultimately show "RemovedPath (RepoDir w p i) \<in> set (cleanupWorkspaces uuid_parse fs store c now)"
      unfolding cleanupWorkspaces_iff using listed(2) by blast
  qed
qed

lemma repo_not_elsewhere:
  assumes roots: "rooted (ws_root w) ps" "rooted (ws_logsRoot w) qs" "\<not> prefix ps qs" "\<not> prefix qs ps"
    and dirs: "co_WorkspaceDir c = ws_root w" "co_LogsDir c = ws_logsRoot w" and fs: "plain_names fs"
  shows "RemovedPath (RepoDir w p i) \<notin> set (cleanupLogs uuid_parse fs store c now)"
    and "RemovedPath (RepoDir w p i) \<notin> set (cleanupUploads fs c)"
proof -
  have plain: "\<forall>x \<in> set ps. plain x" "\<forall>x \<in> set qs. plain x" using roots by (auto simp: rooted_def)
  note target = workspace_renders(1) [OF roots(1), of p i]
  show "RemovedPath (RepoDir w p i) \<notin> set (cleanupLogs uuid_parse fs store c now)"
  proof
    assume "RemovedPath (RepoDir w p i) \<in> set (cleanupLogs uuid_parse fs store c now)"
    from cleanupLogs_render [OF _ fs(1) this, of qs] roots(2) dirs(2) obtain proj name where
      "plain proj" "plain name" "RepoDir w p i = render_path True (qs @ [proj, name])" by auto
    with plain show False
      using render_eq_iff [of "ps @ [uuid_String p, itoa i]" "qs @ [proj, name]"] not_below [OF roots(3,4), of "[uuid_String p, itoa i]" "[proj, name]"]
      by (simp add: target)
  qed
  show "RemovedPath (RepoDir w p i) \<notin> set (cleanupUploads fs c)"
  proof
    assume "RemovedPath (RepoDir w p i) \<in> set (cleanupUploads fs c)"
    from cleanupUploads_render [OF _ fs(1) this, of ps] roots(1) dirs(1) obtain proj name where
      "plain proj" "plain name" "RepoDir w p i = render_path True (ps @ [''uploads'', proj, name])" by auto
    with plain show False
      using render_eq_iff [of "ps @ [uuid_String p, itoa i]" "ps @ [''uploads'', proj, name]"] by (simp add: target)
  qed
qed

text \<open>
  Which workspaces a tick removes: a workspace directory goes exactly when the store says it is not retained or
  fails to answer. With the store of the server that is when every attempt that used it ended before the
  cutoff; when the store fails, the workspace is removed even while a run uses it.
\<close>

theorem gc_workspace_decision:
  assumes roots: "rooted (ws_root w) ps" "rooted (ws_logsRoot w) qs" "\<not> prefix ps qs" "\<not> prefix qs ps"
    and dirs: "co_WorkspaceDir c = ws_root w" "co_LogsDir c = ws_logsRoot w"
    and fs: "plain_names fs" "uuid_parse (uuid_String p) = Some p" "int64_range i"
    and listed: "uuid_String p \<in> set (subdirs fs (ws_root w))" "itoa i \<in> set (subdirs fs (Join [ws_root w, uuid_String p]))"
  shows "(RemovedPath (RepoDir w p i) \<in> set (fst (tick uuid_parse fs store engine registry c now s))
      \<longleftrightarrow> (case gs_WorkspaceRetained store p i (now - co_Keep c) of Inl _ \<Rightarrow> True | Inr retained \<Rightarrow> \<not> retained))
    \<and> (RemovedPath (RepoDir w p i) \<in> set (fst (tick uuid_parse fs (sqlite_gc d) engine registry c now s))
      \<longleftrightarrow> (\<forall>r \<in> set (db_executions d). ew_project_id r = p \<and> ew_workspace_id r = Some i \<longrightarrow>
            \<not> status_active (ew_status r) \<and> (\<exists>ms. ew_finished_at r = Some ms \<and> ms < unix_milli (now - co_Keep c))))"
proof -
  have main: "RemovedPath (RepoDir w p i) \<in> set (fst (tick uuid_parse fs store engine registry c now s))
      \<longleftrightarrow> (case gs_WorkspaceRetained store p i (now - co_Keep c) of Inl _ \<Rightarrow> True | Inr retained \<Rightarrow> \<not> retained)" for store
    using cleanupWorkspaces_decides [where c = c and now = now and store = store and p = p and i = i and fs = fs and w = w and uuid_parse = uuid_parse, OF roots(1) dirs(1) fs listed]
      repo_not_elsewhere [where c = c and fs = fs and w = w, OF roots dirs fs(1)]
    by (auto simp: tick_def cleanupSandboxes_def split: option.splits sum.splits)
  have "RemovedPath (RepoDir w p i) \<in> set (fst (tick uuid_parse fs (sqlite_gc d) engine registry c now s))
      \<longleftrightarrow> (\<forall>r \<in> set (db_executions d). ew_project_id r = p \<and> ew_workspace_id r = Some i \<longrightarrow>
            \<not> status_active (ew_status r) \<and> (\<exists>ms. ew_finished_at r = Some ms \<and> ms < unix_milli (now - co_Keep c)))"
    unfolding main by (auto simp: sqlite_gc_def WorkspaceRetained_def uses_workspace_def status_active_def filter_empty_conv
        not_le split: option.splits)
  with main show ?thesis by (intro conjI)
qed

definition failing_store :: gc_store where
  "failing_store = \<lparr>gs_WorkspaceRetained = (\<lambda>_ _ _. Inl (ErrDatabase ''database is locked'')),
                    gs_GetAttempt = (\<lambda>_ _. Inl (ErrDatabase ''database is locked''))\<rparr>"

theorem gc_workspace_decision_witness:
  "RemovedPath (RepoDir \<lparr>ws_root = ''/data'', ws_logsRoot = ''/logs''\<rparr> 1 1) \<in> set (fst (tick sample_uuid_parse sample_fs failing_store
      None (None :: unit cache_engine option) sample_collector (100 * hour) \<lparr>ca_sizes = None, ca_engine = ()\<rparr>))"
proof -
  let ?w = "\<lparr>ws_root = ''/data'', ws_logsRoot = ''/logs''\<rparr>"
  have roots: "rooted (ws_root ?w) [''data'']" "rooted (ws_logsRoot ?w) [''logs'']" by (simp_all add: sample_roots)
  have "list_ex (\<lambda>x. x = uuid_String 1) (subdirs sample_fs (ws_root ?w))"
    "list_ex (\<lambda>x. x = itoa 1) (subdirs sample_fs (Join [ws_root ?w, uuid_String 1]))" by code_simp+
  then have listed: "uuid_String 1 \<in> set (subdirs sample_fs (ws_root ?w))"
    "itoa 1 \<in> set (subdirs sample_fs (Join [ws_root ?w, uuid_String 1]))" by (simp_all add: list_ex_iff)
  show ?thesis
    using gc_workspace_decision [where c = sample_collector and uuid_parse = sample_uuid_parse and store = failing_store, THEN conjunct1,
        OF roots _ _ _ _ sample_fs_plain _ _ listed]
    by (simp add: sample_collector_def sample_uuid_parse_def int64_range_def failing_store_def)
qed

end
