(* ===== verification/Reporters.thy ===== *)
theory Reporters
  imports AppProjects SqliteQueue
begin

text \<open>
  Reports to GitHub and GitLab: \<^verbatim>\<open>internal/notify/notify.go\<close> and the client of
  \<^verbatim>\<open>internal/gitlab/gitlab.go\<close>. The calls a reporter sends are recorded; their answers, the URL parser and
  the constructors of the API clients are parameters. A call or a query whose context is cancelled fails
  and is not sent. The time stamps of the calls are left out.

  The lemmas show that the attempts of an execution share one check run, and what a finished
  attempt is reported as, in particular that nothing is sent once the context is cancelled.
\<close>

section \<open>Calls and reporters\<close>

record check_run_update =
  cu_Name :: string
  cu_Status :: string
  cu_Conclusion :: "string option"
  cu_DetailsURL :: "string option"
  cu_Title :: string
  cu_Summary :: string
  cu_Text :: "string option"

text \<open>Each call carries the token it is sent with, and the repository it is about.\<close>

datatype forge_call =
    CreateCheckRun string string string string string "string option"
  | UpdateCheckRun string string string int check_run_update
  | SetCommitStatus string string string string string string "string option" "string option"

datatype notify_error = StoreFailed string store_error | CallFailed string string

record 's notify_env =
  ne_url_parse :: "string \<Rightarrow> (string \<times> string) option"
  ne_GetExecutionAttempt :: "uuid \<Rightarrow> int \<Rightarrow> int \<Rightarrow> ('s, execution) db_op"
  ne_SetCheckRunID :: "uuid \<Rightarrow> int \<Rightarrow> int \<Rightarrow> ('s, unit) db_op"
  ne_ListAttempts :: "uuid \<Rightarrow> int \<Rightarrow> ('s, execution list) db_op"
  ne_github_client :: "string \<Rightarrow> string option"
  ne_gitlab_client :: "string \<Rightarrow> string \<Rightarrow> string option"
  ne_call :: "forge_call \<Rightarrow> string + int"
  ne_cancelled :: bool

record github_reporter =
  gr_project :: project
  gr_baseURL :: string
  gr_owner :: string
  gr_repo :: string
  gr_checkRunID :: int

record gitlab_reporter =
  lr_project :: project
  lr_baseURL :: string

datatype reporter = Nop | GithubReporter github_reporter | GitlabReporter gitlab_reporter

record report =
  rp_Execution :: execution
  rp_Status :: status
  rp_Summary :: string
  rp_Logs :: string

type_synonym 's notified = "(notify_error option \<times> forge_call list \<times> reporter) \<times> 's"

definition notify_For :: "(string \<Rightarrow> (string \<times> string) option) \<Rightarrow> project \<Rightarrow> string \<Rightarrow> reporter" where
  "notify_For url_parse project baseURL =
     (if p_AuthSecret project = [] then Nop
      else if p_Provider project = ProviderGithub
      then (case github_ParseRepo url_parse (p_RepoURL project) of
              Some (owner, repo) \<Rightarrow> GithubReporter \<lparr>gr_project = project, gr_baseURL = baseURL, gr_owner = owner,
                                                     gr_repo = repo, gr_checkRunID = 0\<rparr>
            | None \<Rightarrow> Nop)
      else if p_Provider project = ProviderGitlab
      then (case gitlab_ParseRepo url_parse (p_RepoURL project) of
              Some _ \<Rightarrow> GitlabReporter \<lparr>lr_project = project, lr_baseURL = baseURL\<rparr>
            | None \<Rightarrow> Nop)
      else Nop)"

definition detailsURL :: "string \<Rightarrow> execution \<Rightarrow> string option" where
  "detailsURL baseURL e =
     (if baseURL = [] then None
      else Some (TrimRightByte baseURL (CHR ''/'') @ ''/projects/'' @ uuid_String (e_ProjectID e)
                 @ ''/executions/'' @ itoa (e_ExecutionID e)))"

definition ctx_query :: "'s notify_env \<Rightarrow> ('s, 'a) db_op \<Rightarrow> ('s, 'a) db_op" where
  "ctx_query env query s = (if ne_cancelled env then (Inl (ErrDatabase ''context canceled''), s) else query s)"

definition send :: "'s notify_env \<Rightarrow> forge_call \<Rightarrow> (string + int) \<times> forge_call list" where
  "send env call = (if ne_cancelled env then (Inl ''context canceled'', []) else (ne_call env call, [call]))"

section \<open>GitHub\<close>

definition attempts_summary :: "'s notify_env \<Rightarrow> github_reporter \<Rightarrow> execution \<Rightarrow> string \<Rightarrow> 's \<Rightarrow> string \<times> 's" where
  "attempts_summary env r e summary s =
     (case ctx_query env (ne_ListAttempts env (p_ID (gr_project r)) (e_ExecutionID e)) s of
        (Inl _, s') \<Rightarrow> (summary, s')
      | (Inr attempts, s') \<Rightarrow>
          (if attempts = [] then (summary, s')
           else (summary @ [CHR 0x0A, CHR 0x0A] @ ''Attempts:'' @ [CHR 0x0A] @
                 concat (map (\<lambda>a. ''- #'' @ itoa (e_Attempt a) @ '': '' @ status_String (e_Status a) @ '' (''
                                  @ trigger_String (e_Trigger a) @ '')'' @ [CHR 0x0A]) attempts), s')))"

definition github_create :: "'s notify_env \<Rightarrow> github_reporter \<Rightarrow> execution \<Rightarrow> (notify_error + int) \<times> forge_call list" where
  "github_create env r e =
     (case ne_github_client env (p_AuthSecret (gr_project r)) of
        Some err \<Rightarrow> (Inl (CallFailed ''create github check run'' err), [])
      | None \<Rightarrow>
          (case send env (CreateCheckRun (p_AuthSecret (gr_project r)) (gr_owner r) (gr_repo r)
                            (''pici/'' @ e_Workflow e) (e_CommitSHA e) (detailsURL (gr_baseURL r) e)) of
             (Inl err, calls) \<Rightarrow> (Inl (CallFailed ''create github check run'' err), calls)
           | (Inr i, calls) \<Rightarrow> (Inr i, calls)))"

definition github_update ::
  "'s notify_env \<Rightarrow> string \<Rightarrow> github_reporter \<Rightarrow> check_run_update \<Rightarrow> notify_error option \<times> forge_call list" where
  "github_update env what r u =
     (case ne_github_client env (p_AuthSecret (gr_project r)) of
        Some err \<Rightarrow> (Some (CallFailed what err), [])
      | None \<Rightarrow>
          (case send env (UpdateCheckRun (p_AuthSecret (gr_project r)) (gr_owner r) (gr_repo r) (gr_checkRunID r) u) of
             (Inl err, calls) \<Rightarrow> (Some (CallFailed what err), calls)
           | (Inr _, calls) \<Rightarrow> (None, calls)))"

definition github_running :: "'s notify_env \<Rightarrow> github_reporter \<Rightarrow> execution \<Rightarrow> 's \<Rightarrow> (notify_error option \<times> forge_call list) \<times> 's" where
  "github_running env r e s =
     (case ne_github_client env (p_AuthSecret (gr_project r)) of
        Some err \<Rightarrow> ((Some (CallFailed ''mark github check run running'' err), []), s)
      | None \<Rightarrow>
          (case attempts_summary env r e (''Attempt '' @ itoa (e_Attempt e) @ '' of '' @ itoa (e_AttemptsCount e) @ '' is running.'') s of
             (summary, s') \<Rightarrow>
               (github_update env ''mark github check run running'' r
                  \<lparr>cu_Name = ''pici/'' @ e_Workflow e, cu_Status = ''in_progress'', cu_Conclusion = None,
                   cu_DetailsURL = detailsURL (gr_baseURL r) e,
                   cu_Title = ''pici/'' @ e_Workflow e @ '': running (attempt '' @ itoa (e_Attempt e) @ ''/''
                              @ itoa (e_AttemptsCount e) @ '')'',
                   cu_Summary = summary, cu_Text = None\<rparr>, s')))"

definition github_Started :: "'s notify_env \<Rightarrow> github_reporter \<Rightarrow> execution \<Rightarrow> 's \<Rightarrow> 's notified" where
  "github_Started env r e s =
     (if e_Source e = SourceSnapshot \<or> e_CommitSHA e = [] then ((None, [], GithubReporter r), s)
      else
        (let pid = p_ID (gr_project r)
         in case ctx_query env (ne_GetExecutionAttempt env pid (e_ExecutionID e) 1) s of
              (Inl err, s1) \<Rightarrow> ((Some (StoreFailed ''load github check run id'' err), [], GithubReporter r), s1)
            | (Inr root, s1) \<Rightarrow>
                (if e_CheckRunID root \<noteq> 0
                 then (case github_running env (r\<lparr>gr_checkRunID := e_CheckRunID root\<rparr>) e s1 of
                         ((err, calls), s2) \<Rightarrow> ((err, calls, GithubReporter (r\<lparr>gr_checkRunID := e_CheckRunID root\<rparr>)), s2))
                 else (case github_create env r e of
                         (Inl err, calls) \<Rightarrow> ((Some err, calls, GithubReporter r), s1)
                       | (Inr i, calls) \<Rightarrow>
                           (case ctx_query env (ne_SetCheckRunID env pid (e_ExecutionID e) i) s1 of
                              (Inl err, s2) \<Rightarrow>
                                ((Some (StoreFailed ''store github check run id'' err), calls, GithubReporter r), s2)
                            | (Inr _, s2) \<Rightarrow>
                                (case github_running env (r\<lparr>gr_checkRunID := i\<rparr>) e s2 of
                                   ((err, calls'), s3) \<Rightarrow>
                                     ((err, calls @ calls', GithubReporter (r\<lparr>gr_checkRunID := i\<rparr>)), s3)))))))"

definition conclusion_of :: "status \<Rightarrow> string" where
  "conclusion_of st =
     (if st = StatusFailed then ''failure'' else if st = StatusCanceled then ''cancelled'' else ''success'')"

definition github_Finished :: "'s notify_env \<Rightarrow> github_reporter \<Rightarrow> report \<Rightarrow> 's \<Rightarrow> 's notified" where
  "github_Finished env r rep s =
     (if gr_checkRunID r = 0 then ((None, [], GithubReporter r), s)
      else
        (let e = rp_Execution rep;
             conclusion = conclusion_of (rp_Status rep);
             summary = (if rp_Summary rep = [] then ''Workflow completed successfully'' else rp_Summary rep)
         in case attempts_summary env r e summary s of
              (summary', s') \<Rightarrow>
                (case github_update env ''update github check run'' r
                        \<lparr>cu_Name = ''pici/'' @ e_Workflow e, cu_Status = ''completed'', cu_Conclusion = Some conclusion,
                         cu_DetailsURL = detailsURL (gr_baseURL r) e,
                         cu_Title = ''pici/'' @ e_Workflow e @ '': '' @ conclusion @ '' (attempt '' @ itoa (e_Attempt e) @ ''/''
                                    @ itoa (e_AttemptsCount e) @ '')'',
                         cu_Summary = summary', cu_Text = Some (rp_Logs rep)\<rparr> of
                   (err, calls) \<Rightarrow> ((err, calls, GithubReporter r), s'))))"

section \<open>GitLab\<close>

definition gitlabState :: "status \<Rightarrow> string" where
  "gitlabState st =
     (case st of StatusSuccess \<Rightarrow> ''success'' | StatusFailed \<Rightarrow> ''failed'' | StatusCanceled \<Rightarrow> ''canceled'' | _ \<Rightarrow> ''running'')"

definition gitlab_SetCommitStatus ::
  "'s notify_env \<Rightarrow> string \<Rightarrow> string \<Rightarrow> string \<Rightarrow> string \<Rightarrow> string \<Rightarrow> string \<Rightarrow> string \<Rightarrow> string
     \<Rightarrow> string option \<times> forge_call list" where
  "gitlab_SetCommitStatus env base path token sha state name targetURL description =
     (case ne_gitlab_client env base token of
        Some err \<Rightarrow> (Some err, [])
      | None \<Rightarrow>
          (case send env (SetCommitStatus base path token sha state name (if targetURL = [] then None else Some targetURL)
                            (if description = [] then None else Some description)) of
             (Inl err, calls) \<Rightarrow> (Some err, calls)
           | (Inr _, calls) \<Rightarrow> (None, calls)))"

definition gitlab_status :: "'s notify_env \<Rightarrow> gitlab_reporter \<Rightarrow> execution \<Rightarrow> string \<Rightarrow> string \<Rightarrow> notify_error option \<times> forge_call list" where
  "gitlab_status env r e state description =
     (if e_Source e = SourceSnapshot \<or> e_CommitSHA e = [] then (None, [])
      else (case gitlab_ParseRepo (ne_url_parse env) (p_RepoURL (lr_project r)) of
              None \<Rightarrow> (None, [])
            | Some (base, path) \<Rightarrow>
                (case gitlab_SetCommitStatus env base path (p_AuthSecret (lr_project r)) (e_CommitSHA e) state
                        (''pici/'' @ e_Workflow e) (case detailsURL (lr_baseURL r) e of None \<Rightarrow> [] | Some url \<Rightarrow> url) description of
                   (Some err, calls) \<Rightarrow> (Some (CallFailed ''update gitlab status'' err), calls)
                 | (None, calls) \<Rightarrow> (None, calls))))"

section \<open>Reporters\<close>

definition Started :: "'s notify_env \<Rightarrow> reporter \<Rightarrow> execution \<Rightarrow> 's \<Rightarrow> 's notified" where
  "Started env rep e s =
     (case rep of
        Nop \<Rightarrow> ((None, [], Nop), s)
      | GithubReporter r \<Rightarrow> github_Started env r e s
      | GitlabReporter r \<Rightarrow>
          (case gitlab_status env r e ''running'' [] of (err, calls) \<Rightarrow> ((err, calls, GitlabReporter r), s)))"

definition Finished :: "'s notify_env \<Rightarrow> reporter \<Rightarrow> report \<Rightarrow> 's \<Rightarrow> 's notified" where
  "Finished env rep x s =
     (case rep of
        Nop \<Rightarrow> ((None, [], Nop), s)
      | GithubReporter r \<Rightarrow> github_Finished env r x s
      | GitlabReporter r \<Rightarrow>
          (case gitlab_status env r (rp_Execution x) (gitlabState (rp_Status x)) (rp_Summary x) of
             (err, calls) \<Rightarrow> ((err, calls, GitlabReporter r), s)))"

section \<open>One check run per execution\<close>

definition creates :: "forge_call \<Rightarrow> bool" where
  "creates c \<longleftrightarrow> (case c of CreateCheckRun _ _ _ _ _ _ \<Rightarrow> True | _ \<Rightarrow> False)"

definition check_run_of :: "reporter \<Rightarrow> int" where
  "check_run_of rep = (case rep of GithubReporter r \<Rightarrow> gr_checkRunID r | _ \<Rightarrow> 0)"

lemma github_update_calls:
  "github_update env what r u = (err, calls) \<Longrightarrow>
     calls = [] \<or> calls = [UpdateCheckRun (p_AuthSecret (gr_project r)) (gr_owner r) (gr_repo r) (gr_checkRunID r) u]"
  by (auto simp: github_update_def send_def split: option.splits sum.splits if_splits)

definition check_ops :: "'s notify_env \<Rightarrow>
    (uuid \<Rightarrow> int \<Rightarrow> int \<Rightarrow> ('s, execution) db_op) \<times> (uuid \<Rightarrow> int \<Rightarrow> int \<Rightarrow> ('s, unit) db_op) \<times> (uuid \<Rightarrow> int \<Rightarrow> ('s, execution list) db_op)" where
  "check_ops env = (ne_GetExecutionAttempt env, ne_SetCheckRunID env, ne_ListAttempts env)"

lemma github_running_calls:
  "github_running env r e s = ((err, calls), s') \<Longrightarrow>
     calls = [] \<or> (\<exists>u. calls = [UpdateCheckRun (p_AuthSecret (gr_project r)) (gr_owner r) (gr_repo r) (gr_checkRunID r) u])"
  by (auto simp: github_running_def split: option.splits prod.splits dest!: github_update_calls)

lemma github_create_calls:
  "github_create env r e = (res, calls) \<Longrightarrow> length calls \<le> 1"
  by (auto simp: github_create_def send_def split: option.splits sum.splits if_splits)

lemma creates_simps [simp]:
  "creates (CreateCheckRun a b c d e f)" "\<not> creates (UpdateCheckRun a b c i u)" "\<not> creates (SetCommitStatus a b c d e n g h)"
  by (simp_all add: creates_def)

lemma started_creates:
  assumes "github_Started env r e s = ((err, calls, rep), s')"
  shows "length (filter creates calls) \<le> 1"
proof -
  have run: "filter creates c = []" if "github_running env q e t = ((x, c), t')" for q t x c t'
    using github_running_calls [OF that] by auto
  have create: "length (filter creates c) \<le> Suc 0" if "github_create env r e = (x, c)" for x c
    using github_create_calls [OF that] length_filter_le [of creates c] by linarith
  show ?thesis
    using assms by (auto simp: github_Started_def Let_def run intro: create split: if_splits sum.splits prod.splits)
qed

locale check_store =
  fixes getAttempt :: "uuid \<Rightarrow> int \<Rightarrow> int \<Rightarrow> ('s, execution) db_op" and setCheckRun :: "uuid \<Rightarrow> int \<Rightarrow> int \<Rightarrow> ('s, unit) db_op"
    and listAttempts :: "uuid \<Rightarrow> int \<Rightarrow> ('s, execution list) db_op"
  assumes get_state: "snd (getAttempt p x n s) = s"
    and list_state: "snd (listAttempts p x s) = s"
    and set_get: "getAttempt p x 1 s = (Inr root, s1) \<Longrightarrow> setCheckRun p x c s = (Inr u, s') \<Longrightarrow>
      \<exists>root'. getAttempt p x 1 s' = (Inr root', s') \<and> e_CheckRunID root' = c"
begin

lemma running_state:
  assumes "check_ops env = (getAttempt, setCheckRun, listAttempts)" "github_running env r e s = ((err, calls), s')"
  shows "s' = s \<and> (\<forall>c \<in> set calls. \<exists>u. c = UpdateCheckRun (p_AuthSecret (gr_project r)) (gr_owner r) (gr_repo r) (gr_checkRunID r) u)"
proof -
  have st: "snd (attempts_summary env r e t s) = s" for t
    using assms(1) list_state [of "p_ID (gr_project r)" "e_ExecutionID e" s]
    by (auto simp: attempts_summary_def ctx_query_def check_ops_def split: sum.splits prod.splits)
  note github_running_calls [OF assms(2)]
  moreover have "s' = s"
    using assms(2) st by (auto simp: github_running_def split: option.splits prod.splits) (metis snd_conv)+
  ultimately show ?thesis by auto
qed

text \<open>A reporter that knows its check run has it on record.\<close>

lemma started_records:
  assumes ops: "check_ops env = (getAttempt, setCheckRun, listAttempts)"
    and start: "github_Started env r e s = ((err, calls, rep), s')" and run: "check_run_of rep \<noteq> 0" "gr_checkRunID r = 0"
  shows "\<exists>root. getAttempt (p_ID (gr_project r)) (e_ExecutionID e) 1 s' = (Inr root, s') \<and> e_CheckRunID root = check_run_of rep"
proof -
  let ?p = "p_ID (gr_project r)" and ?x = "e_ExecutionID e"
  have env: "ne_GetExecutionAttempt env = getAttempt" "ne_SetCheckRunID env = setCheckRun"
    using ops by (auto simp: check_ops_def)
  have live: "\<not> ne_cancelled env" "\<not> (e_Source e = SourceSnapshot \<or> e_CommitSHA e = [])"
    using start run by (auto simp: github_Started_def ctx_query_def check_run_of_def split: if_splits)
  obtain q s1 where q: "getAttempt ?p ?x 1 s = (q, s1)" by (metis surj_pair)
  with get_state [of ?p ?x 1 s] have s1: "s1 = s" by simp
  from start q live run obtain root where root: "q = Inr root"
    by (cases q) (auto simp: github_Started_def ctx_query_def check_run_of_def env)
  show ?thesis
  proof (cases "e_CheckRunID root = 0")
    case False
    from start live q root s1 False obtain err' calls' where
      g: "github_running env (r\<lparr>gr_checkRunID := e_CheckRunID root\<rparr>) e s = ((err', calls'), s')"
      "check_run_of rep = e_CheckRunID root"
      by (auto simp: github_Started_def ctx_query_def check_run_of_def env split: prod.splits)
    from running_state [OF ops g(1)] have "s' = s" ..
    with g(2) q root s1 show ?thesis by simp
  next
    case True
    obtain c calls1 where c: "github_create env r e = (c, calls1)" by (metis surj_pair)
    from start live q root s1 True c run obtain i where i: "c = Inr i"
      by (cases c) (auto simp: github_Started_def ctx_query_def check_run_of_def env)
    obtain u s2 where u: "setCheckRun ?p ?x i s = (u, s2)" by (metis surj_pair)
    from start live q root s1 True c i u run obtain v where v: "u = Inr v"
      by (cases u) (auto simp: github_Started_def ctx_query_def check_run_of_def env)
    from start live q root s1 True c i u v obtain err' calls' where
      g: "github_running env (r\<lparr>gr_checkRunID := i\<rparr>) e s2 = ((err', calls'), s')" "check_run_of rep = i"
      by (auto simp: github_Started_def ctx_query_def check_run_of_def env split: prod.splits)
    from running_state [OF ops g(1)] have "s' = s2" ..
    with g(2) set_get [of ?p ?x s root s i v s2] q root s1 u v show ?thesis by simp
  qed
qed

text \<open>With a check run on record no other one is created.\<close>

lemma started_reuses:
  assumes ops: "check_ops env = (getAttempt, setCheckRun, listAttempts)"
    and start: "github_Started env r e s = ((err, calls, rep), s')"
    and root: "getAttempt (p_ID (gr_project r)) (e_ExecutionID e) 1 s = (Inr root, s)" "e_CheckRunID root \<noteq> 0"
  shows "s' = s \<and> (\<forall>c \<in> set calls. \<exists>u. c = UpdateCheckRun (p_AuthSecret (gr_project r)) (gr_owner r) (gr_repo r) (e_CheckRunID root) u)"
proof -
  have env: "ne_GetExecutionAttempt env = getAttempt" using ops by (auto simp: check_ops_def)
  show ?thesis
  proof (cases "ne_cancelled env \<or> e_Source e = SourceSnapshot \<or> e_CommitSHA e = []")
    case True
    with start show ?thesis by (auto simp: github_Started_def ctx_query_def split: if_splits)
  next
    case False
    with start root env have "github_running env (r\<lparr>gr_checkRunID := e_CheckRunID root\<rparr>) e s = ((err, calls), s')"
      by (auto simp: github_Started_def ctx_query_def split: prod.splits)
    with running_state [OF ops this] show ?thesis by simp
  qed
qed

end

lemma root_row_update:
  assumes "\<And>r. ew_project_id (f r) = ew_project_id r" "\<And>r. ew_id (f r) = ew_id r" "\<And>r. ew_execution_id (f r) = ew_execution_id r"
  shows "root_row (update_executions q f d) (if q e then f e else e)
    = map_option (\<lambda>r. if q r then f r else r) (root_row d e)"
  unfolding update_executions_def root_row_def using assms
  by (simp add: find_update_rows if_distrib [of ew_project_id] if_distrib [of ew_execution_id])

lemma filter_update_rows: "(\<And>r. p (f r) = p r) \<Longrightarrow>
    filter p (update_rows q f rows) = map (\<lambda>r. if q r then f r else r) (filter p rows)"
  by (induction rows) (auto simp: update_rows_def)

lemma joined_rows_Cons:
  "joined_rows d (e # rows) = (case root_row d e of None \<Rightarrow> [] | Some r \<Rightarrow> [joined_execution d e r]) @ joined_rows d rows"
  by (simp add: joined_rows_def)

lemma check_run_recorded:
  assumes "GetExecutionAttempt p x 1 d = (Inr root, d1)" "SetCheckRunID p x c d = (Inr u, d')"
  shows "\<exists>root'. GetExecutionAttempt p x 1 d' = (Inr root', d') \<and> e_CheckRunID root' = c"
proof -
  let ?f = "\<lambda>r :: execution_row. r\<lparr>ew_check_run_id := c\<rparr>" and ?q = "at_key p x"
  define g where "g = (\<lambda>r. if ?q r then ?f r else r)"
  let ?sel = "\<lambda>rows. filter (\<lambda>e. ew_attempt e = 1) (filter (\<lambda>e. ew_project_id e = p \<and> ew_execution_id e = Some x) rows)"
  have d': "d' = update_executions ?q ?f d" using assms(2) by (simp add: SetCheckRunID_def)
  have sel: "?sel (db_executions d') = map g (?sel (db_executions d))"
    by (simp add: d' g_def update_executions_def filter_update_rows filter_map comp_def if_distrib [of ew_attempt])
  have row: "root_row d' (g e) = map_option g (root_row d e)" for e
    unfolding d' g_def by (rule root_row_update) simp_all
  have joined: "joined_rows d' (map g rows) = [] \<longleftrightarrow> joined_rows d rows = []" for rows
    by (induction rows) (simp_all add: joined_rows_Cons row joined_rows_def [of _ "[]"] split: option.split)
  have run: "\<forall>e \<in> set (joined_rows d' (map g rows)). e_CheckRunID e = c"
    if "\<forall>e \<in> set rows. ew_project_id e = p \<and> ew_execution_id e = Some x" for rows
    using that
  proof (induction rows)
    case (Cons e rows)
    have head: "e_CheckRunID (joined_execution d' (g e) (g r)) = c" if "root_row d e = Some r" for r
    proof -
      from that(1) have "ew_project_id r = ew_project_id e \<and> Some (ew_id r) = ew_execution_id e"
        unfolding root_row_def by (rule find_SomeD [THEN conjunct2])
      with Cons.prems have "?q r" by (simp add: at_key_def)
      then show ?thesis by (simp add: g_def joined_execution_def scanExecution_def Let_def)
    qed
    have tail: "\<forall>e \<in> set (joined_rows d' (map g rows)). e_CheckRunID e = c" by (rule Cons.IH) (use Cons.prems in simp)
    show ?case
    proof (cases "root_row d e")
      case None
      with tail show ?thesis by (simp add: joined_rows_Cons row)
    next
      case (Some r)
      with tail head [OF Some] show ?thesis by (simp add: joined_rows_Cons row)
    qed
  qed (simp add: joined_rows_def)
  have "joined_rows d (?sel (db_executions d)) \<noteq> []"
    using assms(1) by (auto simp: GetExecutionAttempt_def Let_def split: list.splits)
  then obtain y ys where y: "joined_rows d' (?sel (db_executions d')) = y # ys"
    unfolding sel joined [symmetric] by (cases "joined_rows d' (map g (?sel (db_executions d)))") auto
  moreover have "e_CheckRunID y = c" using run [of "?sel (db_executions d)"] y unfolding sel by auto
  ultimately show ?thesis by (simp add: GetExecutionAttempt_def Let_def)
qed

interpretation sqlite_checks: check_store GetExecutionAttempt SetCheckRunID ListAttempts
proof
  fix p x n and d :: db
  show "snd (GetExecutionAttempt p x n d) = d"
    by (auto simp: GetExecutionAttempt_def Let_def split: list.splits)
qed (simp_all add: ListAttempts_def check_run_recorded)

section \<open>Properties\<close>

lemma notify_For_fresh: "notify_For f p base = GithubReporter r \<Longrightarrow> gr_project r = p \<and> gr_checkRunID r = 0"
  by (auto simp: notify_For_def split: if_splits option.splits)

lemma started_by_github:
  "Started env rep0 e s = ((err, calls, rep), s') \<Longrightarrow> check_run_of rep \<noteq> 0 \<Longrightarrow> \<exists>r. rep0 = GithubReporter r"
  by (cases rep0) (auto simp: Started_def check_run_of_def split: prod.splits)

lemma gitlab_status_calls: "gitlab_status env r e st d = (err, calls) \<Longrightarrow> c \<in> set calls \<Longrightarrow> \<not> creates c"
  by (auto simp: gitlab_status_def gitlab_SetCommitStatus_def send_def split: if_splits option.splits prod.splits sum.splits)

lemma cancelled_context_sends_nothing: "ne_cancelled env \<Longrightarrow> fst (snd (fst (Finished env rep x s))) = []"
  by (auto simp: Finished_def github_Finished_def github_update_def gitlab_status_def gitlab_SetCommitStatus_def send_def
      Let_def split: reporter.split option.split prod.split)

lemma finished_github:
  assumes "gr_checkRunID r \<noteq> 0" "\<not> ne_cancelled env" "ne_github_client env (p_AuthSecret (gr_project r)) = None"
  shows "\<exists>u. fst (snd (fst (Finished env (GithubReporter r) x s)))
      = [UpdateCheckRun (p_AuthSecret (gr_project r)) (gr_owner r) (gr_repo r) (gr_checkRunID r) u]
    \<and> cu_Status u = ''completed'' \<and> cu_Conclusion u = Some (conclusion_of (rp_Status x)) \<and> cu_Text u = Some (rp_Logs x)"
  using assms
  by (simp add: Finished_def github_Finished_def github_update_def send_def Let_def split: prod.split sum.split)


definition sample_notify :: "db notify_env" where
  "sample_notify =
     \<lparr>ne_url_parse = (\<lambda>_. None), ne_GetExecutionAttempt = GetExecutionAttempt, ne_SetCheckRunID = SetCheckRunID,
      ne_ListAttempts = ListAttempts, ne_github_client = (\<lambda>_. None), ne_gitlab_client = (\<lambda>_ _. None),
      ne_call = (\<lambda>_. Inr 77), ne_cancelled = False\<rparr>"

definition sample_github_project :: project where
  "sample_github_project =
     \<lparr>p_ID = 1, p_Name = ''app'', p_RepoURL = ''git@github.com:o/r.git'', p_Provider = ProviderGithub,
      p_AuthType = AuthTypeToken, p_AuthUser = ''oauth2'', p_AuthSecret = ''tok'', p_WebhookSecret = [], p_DefaultBranch = ''main'',
      p_CreatedAt = 0, p_UpdatedAt = 0\<rparr>"

definition sample_run :: execution where
  "sample_run = Execution0\<lparr>e_ID := 1, e_ExecutionID := 1, e_Attempt := 1, e_AttemptsCount := 1, e_ProjectID := 1,
     e_CommitSHA := ''abc'', e_Source := SourceGit\<rparr>"


text \<open>
  A project that clones over ssh is reported with its private key as the token, and an \<^verbatim>\<open>ssh://\<close> remote gives the
  GitLab client a base URL of that scheme.
\<close>

lemma ssh_projects_reported:
  "(case Started sample_notify (notify_For (\<lambda>_. None)
          (sample_github_project\<lparr>p_AuthType := AuthTypeSsh, p_AuthSecret := ''PRIVATE KEY''\<rparr>) []) sample_run sample_queue_db of
      ((_, calls, _), _) \<Rightarrow> list_ex (\<lambda>c. case c of CreateCheckRun token _ _ _ _ _ \<Rightarrow> token = ''PRIVATE KEY'' | _ \<Rightarrow> False) calls)
   \<and> gitlab_ParseRepo (\<lambda>_. Some (''gitlab.com'', ''/g/p'')) ''ssh://git@gitlab.com/g/p.git'' = Some (''ssh://gitlab.com'', ''g/p'')"
  by code_simp

end
