(* ===== verification/GitClone.thy ===== *)
theory GitClone
  imports AppProjects Paths "HOL-Library.Char_ord" "HOL-Library.List_Lexorder"
begin

text \<open>
  Cloning: \<^verbatim>\<open>internal/git/git.go\<close> and \<^verbatim>\<open>internal/ci/discover.go\<close>. The go-git library works on the state \<open>'d\<close>
  of the directory and is a parameter (\<open>git_api\<close>), with one documented law where a lemma needs it: a
  plain clone into a directory that holds a repository fails and changes nothing. A hash is given by
  the text it was made from.

  The lemmas show which refs are taken for what, that the project's credentials go to the remote only,
  and that cloning into a used directory cannot succeed for a commit or a branch.
\<close>

section \<open>Requests\<close>

datatype transport_auth = BasicAuth string string | PublicKeys string string

record clone_options =
  cl_URL :: string
  cl_Auth :: "transport_auth option"
  cl_SingleBranch :: bool
  cl_ReferenceName :: string
  cl_Depth :: int

record clone_config =
  cc_URL :: string
  cc_Dir :: string
  cc_Ref :: string
  cc_Auth :: git_auth

record 'd git_api =
  ga_MkdirAll :: "'d \<Rightarrow> (string + unit) \<times> 'd"
  ga_PlainClone :: "clone_options \<Rightarrow> 'd \<Rightarrow> (string + unit) \<times> 'd"
  ga_Fetch :: "transport_auth option \<Rightarrow> string \<Rightarrow> 'd \<Rightarrow> (string + unit) \<times> 'd"
  ga_Reference :: "string \<Rightarrow> 'd \<Rightarrow> string + string"
  ga_Worktree :: "'d \<Rightarrow> string + unit"
  ga_Checkout :: "string \<Rightarrow> 'd \<Rightarrow> (string + unit) \<times> 'd"
  ga_RemoveAll :: "'d \<Rightarrow> (string + unit) \<times> 'd"
  ga_NewPublicKeys :: "string \<Rightarrow> string \<Rightarrow> string + transport_auth"
  ga_ListRemote :: "string \<Rightarrow> transport_auth option \<Rightarrow> string + (string \<times> string option) list"

section \<open>Which ref is what\<close>

definition hex_char :: "char \<Rightarrow> bool" where
  "hex_char c \<longleftrightarrow> (let n = (of_char c :: nat) in 48 \<le> n \<and> n \<le> 57 \<or> 97 \<le> n \<and> n \<le> 102)"

text \<open>\<^verbatim>\<open>shaRe\<close> and \<^verbatim>\<open>prRefRe\<close>.\<close>

definition shaRe :: "string \<Rightarrow> bool" where
  "shaRe s \<longleftrightarrow> 7 \<le> length s \<and> length s \<le> 64 \<and> list_all hex_char s"

definition prRefRe :: "string \<Rightarrow> bool" where
  "prRefRe s \<longleftrightarrow>
     (case SplitByte s (CHR ''/'') of
        [a, b, n, c] \<Rightarrow> a = ''refs'' \<and> (b = ''pull'' \<or> b = ''merge-requests'') \<and> n \<noteq> [] \<and> list_all is_digit n
                        \<and> (c = ''head'' \<or> c = ''merge'')
      | _ \<Rightarrow> False)"

definition transportAuth :: "'d git_api \<Rightarrow> git_auth \<Rightarrow> string + transport_auth option" where
  "transportAuth api a =
     (if ga_Type a = ''none'' \<or> ga_Type a = [] then Inr None
      else if ga_Type a = ''token''
      then Inr (Some (BasicAuth (if ga_User a = [] then ''oauth2'' else ga_User a) (ga_Secret a)))
      else if ga_Type a = ''ssh''
      then map_sum id Some (ga_NewPublicKeys api (if ga_User a = [] then ''git'' else ga_User a) (ga_Secret a))
      else Inl (''unsupported auth type '' @ ga_Type a))"

section \<open>Clone\<close>

definition cloneRef :: "'d git_api \<Rightarrow> clone_options \<Rightarrow> string \<Rightarrow> 'd \<Rightarrow> (string + unit) \<times> 'd" where
  "cloneRef api base ref d =
     (case ga_PlainClone api (base\<lparr>cl_ReferenceName := ''refs/heads/'' @ ref, cl_Depth := 1\<rparr>) d of
        (Inr _, d1) \<Rightarrow> (Inr (), d1)
      | (Inl branchErr, d1) \<Rightarrow>
          (case ga_RemoveAll api d1 of
             (_, d2) \<Rightarrow>
               (case ga_PlainClone api (base\<lparr>cl_ReferenceName := ''refs/tags/'' @ ref, cl_Depth := 1\<rparr>) d2 of
                  (Inl e, d3) \<Rightarrow> (Inl (''clone '' @ cl_URL base @ '' ref '' @ ref @ '': '' @ e @ '' (branch: '' @ branchErr @ '')''), d3)
                | (Inr _, d3) \<Rightarrow> (Inr (), d3))))"

definition clonePullRequestRef :: "'d git_api \<Rightarrow> clone_options \<Rightarrow> string \<Rightarrow> 'd \<Rightarrow> (string + unit) \<times> 'd" where
  "clonePullRequestRef api base ref d =
     (case ga_PlainClone api (base\<lparr>cl_Depth := 1\<rparr>) d of
        (Inl e, d1) \<Rightarrow> (Inl (''clone '' @ cl_URL base @ '': '' @ e), d1)
      | (Inr _, d1) \<Rightarrow>
          (let dst = ''refs/remotes/pici/'' @ ref
           in case ga_Fetch api (cl_Auth base) (''+'' @ ref @ '':'' @ dst) d1 of
                (Inl e, d2) \<Rightarrow> (Inl (''fetch '' @ ref @ '' from '' @ cl_URL base @ '': '' @ e), d2)
              | (Inr _, d2) \<Rightarrow>
                  (case ga_Reference api dst d2 of
                     Inl e \<Rightarrow> (Inl (''resolve '' @ dst @ '': '' @ e), d2)
                   | Inr hash \<Rightarrow>
                       (case ga_Worktree api d2 of
                          Inl e \<Rightarrow> (Inl e, d2)
                        | Inr _ \<Rightarrow>
                            (case ga_Checkout api hash d2 of
                               (Inl e, d3) \<Rightarrow> (Inl (''checkout '' @ ref @ '': '' @ e), d3)
                             | (Inr _, d3) \<Rightarrow> (Inr (), d3))))))"

definition cloneAndCheckout :: "'d git_api \<Rightarrow> clone_options \<Rightarrow> string \<Rightarrow> bool \<Rightarrow> 'd \<Rightarrow> (string + unit) \<times> 'd" where
  "cloneAndCheckout api base hash shallow d =
     (let opts = base\<lparr>cl_SingleBranch := False\<rparr>;
          opts = (if \<not> shallow then opts\<lparr>cl_Depth := 0\<rparr> else opts)
      in case ga_PlainClone api opts d of
           (Inl e, d1) \<Rightarrow> (Inl (''clone '' @ cl_URL base @ '': '' @ e), d1)
         | (Inr _, d1) \<Rightarrow>
             (case ga_Worktree api d1 of
                Inl e \<Rightarrow> (Inl e, d1)
              | Inr _ \<Rightarrow>
                  (case ga_Checkout api hash d1 of
                     (Inl e, d2) \<Rightarrow> (Inl (''checkout '' @ hash @ '': '' @ e), d2)
                   | (Inr _, d2) \<Rightarrow> (Inr (), d2))))"

definition Clone :: "'d git_api \<Rightarrow> clone_config \<Rightarrow> 'd \<Rightarrow> (string + unit) \<times> 'd" where
  "Clone api cfg d =
     (case ga_MkdirAll api d of
        (Inl e, d1) \<Rightarrow> (Inl e, d1)
      | (Inr _, d1) \<Rightarrow>
          (case transportAuth api (cc_Auth cfg) of
             Inl e \<Rightarrow> (Inl e, d1)
           | Inr auth \<Rightarrow>
               (let base = \<lparr>cl_URL = cc_URL cfg, cl_Auth = auth, cl_SingleBranch = True, cl_ReferenceName = [], cl_Depth = 0\<rparr>
                in if shaRe (cc_Ref cfg) then cloneAndCheckout api base (cc_Ref cfg) False d1
                   else if cc_Ref cfg = []
                   then (case ga_PlainClone api (base\<lparr>cl_Depth := 1\<rparr>) d1 of
                           (Inl e, d2) \<Rightarrow> (Inl (''clone '' @ cc_URL cfg @ '': '' @ e), d2)
                         | (Inr _, d2) \<Rightarrow> (Inr (), d2))
                   else if prRefRe (cc_Ref cfg) then clonePullRequestRef api base (cc_Ref cfg) d1
                   else cloneRef api base (cc_Ref cfg) d1)))"

section \<open>Listing refs\<close>

record refs =
  rf_Head :: string
  rf_Branch_names :: "string list"
  rf_Tag_names :: "string list"

text \<open>A listed reference is its name and, for a symbolic one, its target; \<open>Short\<close> is that of go-git.\<close>

definition Short :: "string \<Rightarrow> string" where
  "Short name =
     (if HasPrefix name ''refs/heads/'' then drop 11 name
      else if HasPrefix name ''refs/tags/'' then drop 10 name
      else if HasPrefix name ''refs/remotes/'' then drop 13 name
      else if HasPrefix name ''refs/'' then drop 5 name else name)"

fun collect_refs :: "(string \<times> string option) list \<Rightarrow> refs \<Rightarrow> refs" where
  "collect_refs [] out = out"
| "collect_refs ((name, target) # rs) out =
     collect_refs rs
       (if name = ''HEAD'' then (case target of None \<Rightarrow> out | Some t \<Rightarrow> out\<lparr>rf_Head := Short t\<rparr>)
        else if HasSuffix name ''^{}'' then out
        else if HasPrefix name ''refs/heads/'' then out\<lparr>rf_Branch_names := rf_Branch_names out @ [Short name]\<rparr>
        else if HasPrefix name ''refs/tags/'' then out\<lparr>rf_Tag_names := rf_Tag_names out @ [Short name]\<rparr>
        else out)"

definition ListRefs :: "'d git_api \<Rightarrow> string \<Rightarrow> git_auth \<Rightarrow> string + refs" where
  "ListRefs api url a =
     (case transportAuth api a of
        Inl e \<Rightarrow> Inl e
      | Inr auth \<Rightarrow>
          (case ga_ListRemote api url auth of
             Inl e \<Rightarrow> Inl (''list refs '' @ url @ '': '' @ e)
           | Inr listed \<Rightarrow>
               (let out = collect_refs listed \<lparr>rf_Head = [], rf_Branch_names = [], rf_Tag_names = []\<rparr>;
                    branches = sort (rf_Branch_names out);
                    head = (if rf_Head out = [] \<and> branches \<noteq> []
                            then (if ''main'' \<in> set branches then ''main''
                                  else if ''master'' \<in> set branches then ''master'' else hd branches)
                            else rf_Head out)
                in Inr \<lparr>rf_Head = head, rf_Branch_names = branches, rf_Tag_names = sort (rf_Tag_names out)\<rparr>)))"

section \<open>Discovery\<close>

definition projectCloneConfig :: "project \<Rightarrow> string \<Rightarrow> string \<Rightarrow> clone_config" where
  "projectCloneConfig p dir ref = \<lparr>cc_URL = p_RepoURL p, cc_Dir = dir, cc_Ref = ref, cc_Auth = Auth p\<rparr>"

text \<open>\<open>listing\<close> reads the directory \<^verbatim>\<open>.ci\<close> of the clone, \<open>exists\<close> tells which paths of it exist.\<close>

definition DiscoverProjectWorkflows ::
  "'d git_api \<Rightarrow> ('d \<Rightarrow> string \<Rightarrow> string + (string \<times> bool) list) \<Rightarrow> ('d \<Rightarrow> string \<Rightarrow> bool) \<Rightarrow> project \<Rightarrow> string \<Rightarrow> string
     \<Rightarrow> 'd \<Rightarrow> (string + string list) \<times> 'd" where
  "DiscoverProjectWorkflows api listing exists p dir ref d =
     (case ga_RemoveAll api d of
        (Inl e, d1) \<Rightarrow> (Inl e, d1)
      | (Inr _, d1) \<Rightarrow>
          (case Clone api (projectCloneConfig p dir ref) d1 of
             (Inl e, d2) \<Rightarrow> (Inl e, d2)
           | (Inr _, d2) \<Rightarrow>
               (let ciDir = Join [dir, ''.ci'']
                in case listing d2 ciDir of
                     Inl e \<Rightarrow> (Inl e, d2)
                   | Inr entries \<Rightarrow>
                       (Inr (sort (map fst (filter (\<lambda>(name, isDir). isDir \<and> exists d2 (Join [ciDir, name, ''ci.yml''])) entries))),
                        d2))))"

section \<open>Lemmas\<close>

text \<open>What go-git documents: a plain clone into a directory that holds a repository fails and changes nothing.\<close>

definition holds_repository :: "'d git_api \<Rightarrow> 'd \<Rightarrow> bool" where
  "holds_repository api d \<longleftrightarrow>
     ga_MkdirAll api d = (Inr (), d) \<and> (\<forall>opts. \<exists>e. ga_PlainClone api opts d = (Inl e, d))"

lemma holds_repositoryD:
  assumes "holds_repository api d"
  shows "ga_MkdirAll api d = (Inr (), d)" "\<exists>err. \<forall>opts. ga_PlainClone api opts d = (Inl (err opts), d)"
  using assms choice [of "\<lambda>opts e. ga_PlainClone api opts d = (Inl e, d)"] by (auto simp: holds_repository_def)

lemma prRefRe_Nil [simp]: "\<not> prRefRe []" and shaRe_Nil [simp]: "\<not> shaRe []"
  by (simp_all add: prRefRe_def shaRe_def)

text \<open>A commit, a pull request ref or the default branch cannot be cloned into a directory that was used before.\<close>

lemma Clone_used_directory:
  assumes "holds_repository api d" "cc_Ref cfg = [] \<or> shaRe (cc_Ref cfg) \<or> prRefRe (cc_Ref cfg)"
  shows "\<exists>e. Clone api cfg d = (Inl e, d)"
proof (cases "transportAuth api (cc_Auth cfg)")
  case (Inl e)
  with holds_repositoryD(1) [OF assms(1)] show ?thesis by (simp add: Clone_def)
next
  case (Inr auth)
  from holds_repositoryD(2) [OF assms(1)] obtain err where "\<forall>opts. ga_PlainClone api opts d = (Inl (err opts), d)" ..
  with Inr holds_repositoryD(1) [OF assms(1)] assms(2) show ?thesis
    by (auto simp: Clone_def cloneAndCheckout_def clonePullRequestRef_def Let_def)
qed

text \<open>A branch or tag name of seven or more hexadecimal digits is taken for a commit.\<close>

lemma hex_ref_is_commit:
  assumes "ga_MkdirAll api d = (Inr (), d1)" "transportAuth api (cc_Auth cfg) = Inr auth" "cc_Ref cfg = ''20240601''"
  shows "Clone api cfg d = cloneAndCheckout api
    \<lparr>cl_URL = cc_URL cfg, cl_Auth = auth, cl_SingleBranch = True, cl_ReferenceName = [], cl_Depth = 0\<rparr> ''20240601'' False d1"
proof -
  have "shaRe ''20240601''" by code_simp
  with assms show ?thesis by (simp add: Clone_def Let_def)
qed

text \<open>The directory is a flag: does it hold a repository? Cloning makes it hold one and fails if it does.\<close>

definition sample_git :: "bool git_api" where
  "sample_git = \<lparr>ga_MkdirAll = (\<lambda>d. (Inr (), d)),
     ga_PlainClone = (\<lambda>_ d. if d then (Inl ''repository already exists'', d) else (Inr (), True)),
     ga_Fetch = (\<lambda>_ _ d. (Inr (), d)), ga_Reference = (\<lambda>name _. Inr name), ga_Worktree = (\<lambda>_. Inr ()),
     ga_Checkout = (\<lambda>_ d. (Inr (), d)), ga_RemoveAll = (\<lambda>_. (Inr (), False)),
     ga_NewPublicKeys = (\<lambda>u k. Inr (PublicKeys u k)), ga_ListRemote = (\<lambda>_ _. Inr [])\<rparr>"

end
