(* ===== verification/Runner.thy ===== *)
theory Runner
  imports StepRun Caches Reporters Schedules
begin

text \<open>
  One run of an attempt, from the claim to its final record: \<^verbatim>\<open>run\<close>, \<^verbatim>\<open>finish\<close>, \<^verbatim>\<open>fail\<close>,
  \<^verbatim>\<open>materializeSource\<close> and their helpers in \<^verbatim>\<open>internal/ci/runner.go\<close>.

  The function is cut into the stages of its text. A stage works on the \<open>run_state\<close>: the local variable
  \<^verbatim>\<open>exec\<close>, the store, the content of the workspace directory, the reporter and the trace of what was
  done; it yields a value or the message with which the run is finished as failed. Everything outside (the
  store, git, archives, the file system, the engine, the steps) is in the record \<open>runner_world\<close>. Cancellation is
  an oracle: \<open>rw_done w p\<close> tells whether the context is done when the run reaches the point \<open>p\<close>; a call that takes the
  context fails then. The lines written to the setup log are left out.
\<close>

section \<open>Helpers\<close>

text \<open>\<^verbatim>\<open>strconv.Quote\<close> on ASCII text; bytes of other runes are printed as they are.\<close>

definition quote_char :: "char \<Rightarrow> string" where
  "quote_char c =
     (let n = (of_char c :: nat); hex = (\<lambda>k. if k < 10 then char_of (48 + k) else char_of (87 + k :: nat))
      in if c = CHR 0x22 then [CHR 0x5C, CHR 0x22] else if c = CHR 0x5C then [CHR 0x5C, CHR 0x5C]
         else if n = 7 then [CHR 0x5C, CHR ''a''] else if n = 8 then [CHR 0x5C, CHR ''b'']
         else if n = 9 then [CHR 0x5C, CHR ''t''] else if n = 10 then [CHR 0x5C, CHR ''n'']
         else if n = 11 then [CHR 0x5C, CHR ''v''] else if n = 12 then [CHR 0x5C, CHR ''f'']
         else if n = 13 then [CHR 0x5C, CHR ''r'']
         else if n < 32 \<or> n = 127 then [CHR 0x5C, CHR ''x'', hex (n div 16), hex (n mod 16)]
         else [c])"

definition Quote :: "string \<Rightarrow> string" where
  "Quote s = CHR 0x22 # concat (map quote_char s) @ [CHR 0x22]"

definition collectSecrets :: "variable list \<Rightarrow> project \<Rightarrow> string list" where
  "collectSecrets vars project =
     map v_Value (filter (\<lambda>v. v_Secret v \<and> v_Value v \<noteq> []) vars)
     @ (if p_AuthSecret project \<noteq> [] then [p_AuthSecret project] else [])
     @ (if p_WebhookSecret project \<noteq> [] then [p_WebhookSecret project] else [])"

text \<open>A later step of the same name overwrites an earlier one in the map.\<close>

definition carryOverSteps :: "step_result list \<Rightarrow> string \<Rightarrow> step_result option" where
  "carryOverSteps steps n = find (\<lambda>s. r_Name s = n \<and> r_Status s = StepStatusSuccess) (rev steps)"

definition stepError :: "step_result list \<Rightarrow> string" where
  "stepError steps =
     (case find (\<lambda>s. r_Status s = StepStatusFailed) steps of
        None \<Rightarrow> []
      | Some s \<Rightarrow> ''step '' @ Quote (r_Name s) @ '' failed: '' @ r_Error s)"

definition stepIndexByName :: "step_result list \<Rightarrow> string \<Rightarrow> nat" where
  "stepIndexByName steps name =
     (case find (\<lambda>i. r_Name (steps ! i) = name) [0..<length steps] of Some i \<Rightarrow> i | None \<Rightarrow> 0)"

definition present_SHA :: "string \<Rightarrow> string" where
  "present_SHA sha = (if 7 < length sha then take 7 sha else sha)"

definition resolveVersion :: "bool \<Rightarrow> string \<Rightarrow> string \<Rightarrow> string" where
  "resolveVersion isTag ref sha = (if isTag then ref else present_SHA sha)"

definition truncate_logs :: "string \<Rightarrow> string" where
  "truncate_logs s = (if 60000 < length s then take 60000 s @ CHR 0x0A # ''... (truncated)'' else s)"

definition buildEnv ::
  "(string \<Rightarrow> (string \<times> string) option) \<Rightarrow> project \<Rightarrow> execution \<Rightarrow> string \<Rightarrow> string \<Rightarrow> string \<Rightarrow> string list" where
  "buildEnv url_parse project exec mountPath sha version =
     (let src = (if e_Source exec = SourceUnset then SourceGit else e_Source exec)
      in [''CI=true'', ''PICI=true'',
          ''PICI_SOURCE='' @ source_String src,
          ''PICI_PROJECT='' @ p_Name project,
          ''PICI_PROJECT_ID='' @ uuid_String (p_ID project),
          ''PICI_REPO_URL='' @ p_RepoURL project,
          ''PICI_REPO_SLUG='' @ RepoSlug url_parse (p_RepoURL project),
          ''PICI_WORKFLOW='' @ e_Workflow exec,
          ''PICI_EXECUTION_ID='' @ itoa (e_ExecutionID exec),
          ''PICI_REF='' @ e_Ref exec,
          ''PICI_VERSION='' @ version,
          ''PICI_COMMIT_SHA='' @ sha,
          ''PICI_REPO_DIR='' @ mountPath,
          ''PICI_WORKFLOW_DIR='' @ mountPath @ ''/.ci/'' @ e_Workflow exec,
          ''GIT_CONFIG_COUNT=3'', ''GIT_CONFIG_KEY_0=safe.directory'', ''GIT_CONFIG_VALUE_0=*'',
          ''GIT_CONFIG_KEY_1=user.name'', ''GIT_CONFIG_VALUE_1=pici'',
          ''GIT_CONFIG_KEY_2=user.email'', ''GIT_CONFIG_VALUE_2=pici@localhost''])"

section \<open>The world of a run\<close>

datatype run_point =
    AtProject | AtRunning | AtVariables | AtProjectVariables | AtSource | AtCommit | AtParent | AtPlan | AtSchedule | AtGroup | AtCancelGroup
  | AtStarted | AtRegistries | AtBuild | AtPush | AtSandbox | AtSteps | AtEnd | AtFinish

record ('s, 'd) runner_world =
  rw_GetProject :: "uuid \<Rightarrow> ('s, project) db_op"
  rw_UpdateExecution :: "execution \<Rightarrow> ('s, unit) db_op"
  rw_ListVariables :: "uuid option \<Rightarrow> ('s, variable list) db_op"
  rw_GetAttempt :: "uuid \<Rightarrow> int \<Rightarrow> ('s, execution) db_op"
  rw_DeleteSchedule :: "uuid \<Rightarrow> string \<Rightarrow> ('s, unit) db_op"
  rw_UpsertSchedule :: "schedule \<Rightarrow> ('s, unit) db_op"
  rw_CancelRunningInGroup :: "uuid \<Rightarrow> string \<Rightarrow> int \<Rightarrow> ('s, unit) db_op"
  rw_notify :: "'s notify_env"
  rw_workspace :: workspace
  rw_sandbox :: sandbox_config
  rw_Registries :: registries
  rw_PublicBaseURL :: string
  rw_done :: "run_point \<Rightarrow> bool"
  rw_now :: "run_point \<Rightarrow> go_time"
  rw_mkdirLogs :: "string \<Rightarrow> string + unit"
  rw_openSetup :: "string \<Rightarrow> string + unit"
  rw_engine :: bool
  rw_git :: "'d git_api"
  rw_stat :: "'d \<Rightarrow> string + unit"
  rw_openSnapshot :: "string \<Rightarrow> string + unit"
  rw_mkdirRepo :: "'d \<Rightarrow> (string + unit) \<times> 'd"
  rw_extract :: "'d \<Rightarrow> (string + unit) \<times> 'd"
  rw_mkdirGit :: "'d \<Rightarrow> (string + unit) \<times> 'd"
  rw_writeConfig :: "string \<Rightarrow> 'd \<Rightarrow> (string + unit) \<times> 'd"
  rw_head :: "'d \<Rightarrow> string option"
  rw_isTag :: "'d \<Rightarrow> string \<Rightarrow> bool"
  rw_readFile :: "'d \<Rightarrow> string \<Rightarrow> string + string"
  rw_parse :: "string \<Rightarrow> config_error + config"
  rw_errText :: "config_error \<Rightarrow> string"
  rw_globRef :: "string \<Rightarrow> string \<Rightarrow> bool option"
  rw_glob :: "'d \<Rightarrow> string \<Rightarrow> string list"
  rw_cron_next :: "string \<Rightarrow> go_time \<Rightarrow> string + go_time"
  rw_mkdirSteps :: "string \<Rightarrow> bool"
  rw_ensureRegistries :: "string + registries"
  rw_build :: "string \<Rightarrow> string list \<Rightarrow> string list \<Rightarrow> string + unit"
  rw_push :: "string \<Rightarrow> string + unit"
  rw_sandboxAnswers :: sandbox_answers
  rw_steps :: "config \<Rightarrow> step_exec \<Rightarrow> (string \<Rightarrow> step_result option) \<Rightarrow> step_result list list \<times> step_result list \<times> bool \<times> bool"
  rw_logs :: string

datatype run_effect =
    Persisted execution
  | CopiedLog string string
  | CollectedArtifacts nat "string list"
  | ForgeCalls "forge_call list"
  | BuiltImage string "string list"
  | PushedImage string
  | SandboxCalls "sandbox_effect list"
  | RanSteps step_exec
  | RemovedSnapshot string

record ('s, 'd) run_state =
  rs_exec :: execution
  rs_store :: 's
  rs_dir :: 'd
  rs_reporter :: reporter
  rs_trace :: "run_effect list"

type_synonym ('s, 'd, 'a) run_op = "('s, 'd) run_state \<Rightarrow> (string + 'a) \<times> ('s, 'd) run_state"

definition and_then :: "('s, 'd, 'a) run_op \<Rightarrow> ('a \<Rightarrow> ('s, 'd, 'b) run_op) \<Rightarrow> ('s, 'd, 'b) run_op" where
  "and_then m f st = (case m st of (Inl e, st') \<Rightarrow> (Inl e, st') | (Inr a, st') \<Rightarrow> f a st')"

definition store_text :: "store_error \<Rightarrow> string" where
  "store_text e =
     (case e of ErrNotFound \<Rightarrow> ''not found'' | ErrNoRows \<Rightarrow> ''sql: no rows in result set''
      | ErrConstraint t \<Rightarrow> t | ErrDatabase t \<Rightarrow> t)"

definition in_ctx :: "bool \<Rightarrow> ('s, 'a) db_op \<Rightarrow> ('s, 'a) db_op" where
  "in_ctx done_ctx query s = (if done_ctx then (Inl (ErrDatabase ''context canceled''), s) else query s)"

definition call_ctx :: "bool \<Rightarrow> string + 'a \<Rightarrow> string + 'a" where
  "call_ctx done_ctx answer = (if done_ctx then Inl ''context canceled'' else answer)"

definition trace :: "run_effect \<Rightarrow> ('s, 'd) run_state \<Rightarrow> ('s, 'd) run_state" where
  "trace x st = st\<lparr>rs_trace := rs_trace st @ [x]\<rparr>"

text \<open>\<^verbatim>\<open>UpdateExecution\<close> with the run's context; its error is ignored everywhere.\<close>

definition persist :: "('s, 'd) runner_world \<Rightarrow> bool \<Rightarrow> ('s, 'd) run_state \<Rightarrow> ('s, 'd) run_state" where
  "persist w done_ctx st =
     (if done_ctx then st
      else trace (Persisted (rs_exec st)) (st\<lparr>rs_store := snd (rw_UpdateExecution w (rs_exec st) (rs_store st))\<rparr>))"

section \<open>Finishing\<close>

definition finish ::
  "('s, 'd) runner_world \<Rightarrow> status \<Rightarrow> step_result list \<Rightarrow> string \<Rightarrow> bool \<Rightarrow> ('s, 'd) run_state \<Rightarrow> ('s, 'd) run_state" where
  "finish w st_final steps errMsg setupLog st =
     (let e = rs_exec st;
          finished = (case e_FinishedAt e of None \<Rightarrow> Some (rw_now w AtFinish) | Some t \<Rightarrow> Some t);
          e1 = e\<lparr>e_Status := st_final, e_Steps := steps, e_Error := errMsg, e_FinishedAt := finished,
                 e_SetupFinishedAt := (if e_SetupFinishedAt e = None \<and> setupLog then finished else e_SetupFinishedAt e)\<rparr>;
          st1 = persist w False (st\<lparr>rs_exec := e1\<rparr>);
          r = Finished ((rw_notify w)\<lparr>ne_cancelled := rw_done w AtFinish\<rparr>) (rs_reporter st1)
                \<lparr>rp_Execution = e1, rp_Status = st_final, rp_Summary = errMsg, rp_Logs = truncate_logs (rw_logs w)\<rparr> (rs_store st1);
          st2 = trace (ForgeCalls (fst (snd (fst r)))) (st1\<lparr>rs_store := snd r, rs_reporter := snd (snd (fst r))\<rparr>)
      in if e_Source e1 = SourceSnapshot
         then (case e_SnapshotID e1 of
                 None \<Rightarrow> st2
               | Some i \<Rightarrow> trace (RemovedSnapshot (Snapshot (rw_workspace w) (e_ProjectID e1) i)) st2)
         else st2)"

text \<open>A run that fails before its setup log is open is reported to nobody.\<close>

definition fail_run :: "('s, 'd) runner_world \<Rightarrow> string \<Rightarrow> ('s, 'd) run_state \<Rightarrow> ('s, 'd) run_state" where
  "fail_run w err st = finish w StatusFailed [] err False (st\<lparr>rs_reporter := Nop\<rparr>)"

section \<open>Stages\<close>

definition repo_dir :: "('s, 'd) runner_world \<Rightarrow> project \<Rightarrow> execution \<Rightarrow> string" where
  "repo_dir w project e = RepoDir (rw_workspace w) (p_ID project) (case e_WorkspaceID e of None \<Rightarrow> e_ID e | Some i \<Rightarrow> i)"

definition materializeSource :: "('s, 'd) runner_world \<Rightarrow> project \<Rightarrow> execution \<Rightarrow> string \<Rightarrow> 'd \<Rightarrow> (string + unit) \<times> 'd" where
  "materializeSource w project exec repoDir d =
     (if e_Source exec \<noteq> SourceSnapshot
      then (let cloneRef = (if e_CommitSHA exec \<noteq> [] then e_CommitSHA exec else e_Ref exec)
            in if rw_done w AtSource then (Inl ''context canceled'', d)
               else Clone (rw_git w) (projectCloneConfig project repoDir cloneRef) d)
      else (case e_SnapshotID exec of
              None \<Rightarrow> (Inl ''snapshot execution is missing its snapshot id'', d)
            | Some i \<Rightarrow>
                (case rw_openSnapshot w (Snapshot (rw_workspace w) (p_ID project) i) of
                   Inl e \<Rightarrow> (Inl e, d)
                 | Inr _ \<Rightarrow>
                     (case rw_mkdirRepo w d of
                        (Inl e, d1) \<Rightarrow> (Inl e, d1)
                      | (Inr _, d1) \<Rightarrow>
                          (case rw_extract w d1 of
                             (Inl e, d2) \<Rightarrow> (Inl e, d2)
                           | (Inr _, d2) \<Rightarrow>
                               (case rw_mkdirGit w d2 of
                                  (Inl e, d3) \<Rightarrow> (Inl e, d3)
                                | (Inr _, d3) \<Rightarrow>
                                    rw_writeConfig w
                                      (''[remote '' @ [CHR 0x22] @ ''origin'' @ [CHR 0x22] @ '']'' @ [CHR 0x0A, CHR 0x09] @ ''url = ''
                                       @ Quote (p_RepoURL project) @ [CHR 0x0A, CHR 0x09]
                                       @ ''fetch = +refs/heads/*:refs/remotes/origin/*'' @ [CHR 0x0A]) d3))))))"

definition stage_source :: "('s, 'd) runner_world \<Rightarrow> project \<Rightarrow> ('s, 'd, unit) run_op" where
  "stage_source w project st =
     (if e_Trigger (rs_exec st) = TriggerRetry then (rw_stat w (rs_dir st), st)
      else (case materializeSource w project (rs_exec st) (repo_dir w project (rs_exec st)) (rs_dir st) of
              (r, d) \<Rightarrow> (r, st\<lparr>rs_dir := d\<rparr>)))"

text \<open>The commit, the configuration, and whether a manual run is allowed on the ref.\<close>

definition stage_config :: "('s, 'd) runner_world \<Rightarrow> project \<Rightarrow> ('s, 'd, config) run_op" where
  "stage_config w project st0 =
     (let sha = (case rw_head w (rs_dir st0) of None \<Rightarrow> [] | Some h \<Rightarrow> h);
          st = persist w (rw_done w AtCommit) (st0\<lparr>rs_exec := (rs_exec st0)\<lparr>e_CommitSHA := sha\<rparr>\<rparr>);
          exec = rs_exec st;
          wfDir = Join [repo_dir w project exec, ''.ci'', e_Workflow exec]
      in case rw_readFile w (rs_dir st) (Join [wfDir, ''ci.yml'']) of
           Inl e \<Rightarrow> (Inl e, st)
         | Inr data \<Rightarrow>
             (case rw_parse w data of
                Inl e \<Rightarrow> (Inl (rw_errText w e), st)
              | Inr cfg \<Rightarrow>
                  (if e_Trigger exec = TriggerManual
                      \<and> \<not> MatchesManual (rw_globRef w) cfg (e_Ref exec)
                            (e_Source exec \<noteq> SourceSnapshot \<and> rw_isTag w (rs_dir st) (e_Ref exec))
                   then (Inl (''manual run of '' @ Quote (e_Workflow exec) @ '' is not allowed on ref '' @ Quote (e_Ref exec)), st)
                   else (Inr cfg, st))))"

text \<open>What a retry carries over: the successful steps of the previous attempt, or nothing when it cannot be loaded.\<close>

definition load_carry ::
  "('s, 'd) runner_world \<Rightarrow> project \<Rightarrow> ('s, 'd) run_state \<Rightarrow> (step_result list \<times> (string \<Rightarrow> step_result option)) \<times> ('s, 'd) run_state" where
  "load_carry w project st =
     (let exec = rs_exec st
      in if e_Trigger exec = TriggerRetry
         then (case e_PreviousAttemptID exec of
                 None \<Rightarrow> (([], \<lambda>_. None), st)
               | Some i \<Rightarrow>
                   (case in_ctx (rw_done w AtParent) (rw_GetAttempt w (p_ID project) i) (rs_store st) of
                      (Inl _, s') \<Rightarrow> (([], \<lambda>_. None), st\<lparr>rs_store := s'\<rparr>)
                    | (Inr loaded, s') \<Rightarrow> ((e_Steps loaded, carryOverSteps (e_Steps loaded)), st\<lparr>rs_store := s'\<rparr>)))
         else (([], \<lambda>_. None), st))"

definition planned_steps :: "(string \<Rightarrow> step_result option) \<Rightarrow> string list \<Rightarrow> step_result list" where
  "planned_steps carry order =
     map (\<lambda>n. case carry n of Some res \<Rightarrow> res | None \<Rightarrow> StepResult n StepStatusPending) order"

definition carry_files ::
  "('s, 'd) runner_world \<Rightarrow> project \<Rightarrow> config \<Rightarrow> step_result list \<Rightarrow> (string \<Rightarrow> step_result option) \<Rightarrow> int \<Rightarrow> string list
     \<Rightarrow> execution \<Rightarrow> run_effect list" where
  "carry_files w project cfg parent carry previous order exec =
     concat (map (\<lambda>(i, n).
       if carry n = None then []
       else (let src = StepLog (rw_workspace w) (p_ID project) previous (int (stepIndexByName parent n)) n;
                 dst = StepLog (rw_workspace w) (p_ID project) (e_ID exec) (int i) n
             in (if rw_mkdirSteps w (Dir dst) then [CopiedLog src dst] else [])
                @ (let patterns = st_Artifacts (findStep (cf_Steps cfg) n)
                   in if patterns = [] then [] else [CollectedArtifacts i patterns])))
       (enumerate 0 order))"

definition stage_plan :: "('s, 'd) runner_world \<Rightarrow> project \<Rightarrow> config \<Rightarrow> ('s, 'd, string \<Rightarrow> step_result option) run_op" where
  "stage_plan w project cfg st0 =
     (case load_carry w project st0 of
        ((parent, carry), st) \<Rightarrow>
          (case orderSteps (cf_Steps cfg) of
             Inl _ \<Rightarrow> (Inr carry, st)
           | Inr order \<Rightarrow>
               (let st1 = persist w (rw_done w AtPlan) (st\<lparr>rs_exec := (rs_exec st)\<lparr>e_Steps := planned_steps carry order\<rparr>\<rparr>);
                    exec = rs_exec st1
                in (Inr carry,
                    (if e_Trigger exec = TriggerRetry
                     then (case e_PreviousAttemptID exec of
                             None \<Rightarrow> st1
                           | Some previous \<Rightarrow>
                               st1\<lparr>rs_trace := rs_trace st1 @ carry_files w project cfg parent carry previous order exec\<rparr>)
                     else st1)))))"

text \<open>The schedule of the workflow and its concurrency group; errors are only logged.\<close>

definition stage_group :: "('s, 'd) runner_world \<Rightarrow> project \<Rightarrow> config \<Rightarrow> ('s, 'd) run_state \<Rightarrow> ('s, 'd) run_state" where
  "stage_group w project cfg st =
     (let exec = rs_exec st;
          st1 = (if e_Source exec = SourceSnapshot then st
                 else st\<lparr>rs_store := snd (SyncSchedule (rw_cron_next w)
                          (\<lambda>p wf. in_ctx (rw_done w AtSchedule) (rw_DeleteSchedule w p wf))
                          (\<lambda>sch. in_ctx (rw_done w AtSchedule) (rw_UpsertSchedule w sch))
                          (rw_now w AtSchedule) (p_ID project) (e_Workflow exec) (EffectiveSchedule cfg) (rs_store st))\<rparr>)
      in if cf_Concurrency cfg = [] then st1
         else (let st2 = persist w (rw_done w AtGroup) (st1\<lparr>rs_exec := (rs_exec st1)\<lparr>e_ConcurrencyGroup := cf_Concurrency cfg\<rparr>\<rparr>)
               in st2\<lparr>rs_store := snd (in_ctx (rw_done w AtCancelGroup)
                        (rw_CancelRunningInGroup w (p_ID project) (cf_Concurrency cfg) (e_ID exec)) (rs_store st2))\<rparr>))"

text \<open>Detected cache variables do not override the ones of the workflow.\<close>

definition merge_env :: "(string \<times> string) list \<Rightarrow> (string \<times> string) list \<Rightarrow> (string \<times> string) list" where
  "merge_env auto env = env @ filter (\<lambda>(k, _). k \<notin> fst ` set env) auto"

definition stage_caches :: "('s, 'd) runner_world \<Rightarrow> project \<Rightarrow> config \<Rightarrow> ('s, 'd) run_state \<Rightarrow> config \<times> string list" where
  "stage_caches w project cfg st =
     (let exec = rs_exec st;
          (autoEnv, autoCache) = detectCaches (rw_glob w (rs_dir st)) (repo_dir w project exec) CacheMountPath;
          pid = uuid_String (p_ID project)
      in (cfg\<lparr>cf_Env := merge_env autoEnv (cf_Env cfg)\<rparr>,
          cacheBinds pid (sc_MountPath (rw_sandbox w)) (cf_Cache cfg) @ cacheBinds pid CacheMountPath autoCache))"

definition stage_started :: "('s, 'd) runner_world \<Rightarrow> ('s, 'd) run_state \<Rightarrow> ('s, 'd) run_state" where
  "stage_started w st =
     (let r = Started ((rw_notify w)\<lparr>ne_cancelled := rw_done w AtStarted\<rparr>) (rs_reporter st) (rs_exec st) (rs_store st)
      in trace (ForgeCalls (fst (snd (fst r)))) (st\<lparr>rs_store := snd r, rs_reporter := snd (snd (fst r))\<rparr>))"

definition run_registries :: "('s, 'd) runner_world \<Rightarrow> config \<Rightarrow> registries" where
  "run_registries w cfg =
     (if workflowNeedsSandbox cfg \<and> reg_Images (rw_Registries w) = []
      then (case call_ctx (rw_done w AtRegistries) (rw_ensureRegistries w) of Inl _ \<Rightarrow> rw_Registries w | Inr r \<Rightarrow> r)
      else rw_Registries w)"

text \<open>The image the steps run in: the configured one, or the workflow's own, built and pushed when a sandbox needs it.\<close>

definition stage_image :: "('s, 'd) runner_world \<Rightarrow> project \<Rightarrow> config \<Rightarrow> ('s, 'd, string) run_op" where
  "stage_image w project cfg st =
     (if cf_Image cfg \<noteq> [] then (Inr (cf_Image cfg), st)
      else
        (let exec = rs_exec st;
             pid = uuid_String (p_ID project);
             img = imageTag pid (e_Workflow exec);
             sandboxed = workflowNeedsSandbox cfg;
             registryImage = (if sandboxed then registryReference (run_registries w cfg) pid (e_Workflow exec) else []);
             tags = (if sandboxed then [img, registryImage] else [img]);
             wfDir = Join [repo_dir w project exec, ''.ci'', e_Workflow exec]
         in if sandboxed \<and> registryImage = []
            then (Inl ''docker sandbox unavailable: image registry is not configured'', st)
            else (case call_ctx (rw_done w AtBuild) (rw_build w wfDir tags [img]) of
                    Inl e \<Rightarrow> (Inl e, st)
                  | Inr _ \<Rightarrow>
                      (let st1 = trace (BuiltImage wfDir tags) st
                       in if sandboxed
                          then (case call_ctx (rw_done w AtPush) (rw_push w registryImage) of
                                  Inl e \<Rightarrow> (Inl e, st1)
                                | Inr _ \<Rightarrow> (Inr registryImage, trace (PushedImage registryImage) st1))
                          else (Inr img, st1)))))"

text \<open>What the steps run with: the sandbox if one is needed, the binds and the docker host.\<close>

definition stage_sandbox ::
  "('s, 'd) runner_world \<Rightarrow> project \<Rightarrow> config \<Rightarrow> string list \<Rightarrow> string \<Rightarrow> ('s, 'd, sandbox option \<times> string list \<times> string) run_op" where
  "stage_sandbox w project cfg binds img st =
     (if \<not> workflowNeedsSandbox cfg then (Inr (None, binds, []), st)
      else
        (let exec = rs_exec st;
             a = rw_sandboxAnswers w;
             answers = a\<lparr>an_create := (\<lambda>opts. call_ctx (rw_done w AtSandbox) (an_create a opts)),
                          an_pull := (\<lambda>ref. call_ctx (rw_done w AtSandbox) (an_pull a ref))\<rparr>
         in case startSandbox (rw_sandbox w) answers (run_registries w cfg) (p_ID project) (e_ID exec) (repo_dir w project exec) binds img of
              (Inl e, calls) \<Rightarrow> (Inl e, trace (SandboxCalls calls) st)
            | (Inr sb, calls) \<Rightarrow>
                (Inr (Some sb, sandboxStepBinds (sc_MountPath (rw_sandbox w)) binds, sb_StepHost sb), trace (SandboxCalls calls) st)))"

section \<open>The run\<close>

record run_plan =
  pl_config :: config
  pl_carry :: "string \<Rightarrow> step_result option"
  pl_image :: string
  pl_env :: "string list"
  pl_sandbox :: "sandbox option"
  pl_binds :: "string list"
  pl_dockerHost :: string

definition run_env :: "('s, 'd) runner_world \<Rightarrow> project \<Rightarrow> variable list \<Rightarrow> config \<Rightarrow> ('s, 'd) run_state \<Rightarrow> string list" where
  "run_env w project vars cfg st =
     (let exec = rs_exec st; sha = e_CommitSHA exec
      in buildEnv (ne_url_parse (rw_notify w)) project exec (sc_MountPath (rw_sandbox w)) sha
           (resolveVersion (rw_isTag w (rs_dir st) (e_Ref exec)) (e_Ref exec) sha)
         @ map (\<lambda>v. v_Key v @ ''='' @ v_Value v) vars
         @ map (\<lambda>(k, v). k @ ''='' @ v) (cf_Env cfg))"

text \<open>From the parsed workflow to what the steps run with; the forge hears of the start in between.\<close>

definition stage_ready ::
  "('s, 'd) runner_world \<Rightarrow> project \<Rightarrow> variable list \<Rightarrow> config \<Rightarrow> (string \<Rightarrow> step_result option) \<Rightarrow> ('s, 'd, run_plan) run_op" where
  "stage_ready w project vars cfg0 carry st =
     (let st1 = stage_group w project cfg0 st;
          cfg = fst (stage_caches w project cfg0 st1);
          binds = snd (stage_caches w project cfg0 st1)
      in and_then (stage_image w project cfg) (\<lambda>img.
         and_then (stage_sandbox w project cfg binds img) (\<lambda>(sb, stepBinds, host) st2.
           (Inr \<lparr>pl_config = cfg, pl_carry = carry, pl_image = img, pl_env = run_env w project vars cfg st2,
                 pl_sandbox = sb, pl_binds = stepBinds, pl_dockerHost = host\<rparr>, st2)))
         (stage_started w st1))"

text \<open>Everything up to the start of the steps; an error is the message the run fails with.\<close>

definition run_setup :: "('s, 'd) runner_world \<Rightarrow> project \<Rightarrow> variable list \<Rightarrow> ('s, 'd, run_plan) run_op" where
  "run_setup w project vars =
     and_then (stage_source w project) (\<lambda>_.
     and_then (stage_config w project) (\<lambda>cfg.
     and_then (stage_plan w project cfg) (\<lambda>carry. stage_ready w project vars cfg carry)))"

definition final_status :: "bool \<Rightarrow> bool \<Rightarrow> bool \<Rightarrow> status" where
  "final_status canceled ctxDone failed =
     (if canceled \<or> ctxDone then StatusCanceled else if failed then StatusFailed else StatusSuccess)"

text \<open>The steps, each progress persisted with a context of its own, and the final record.\<close>

definition run_steps :: "('s, 'd) runner_world \<Rightarrow> project \<Rightarrow> string list \<Rightarrow> run_plan \<Rightarrow> ('s, 'd) run_state \<Rightarrow> ('s, 'd) run_state" where
  "run_steps w project secrets pl st =
     (let exec = (rs_exec st)\<lparr>e_SetupFinishedAt := Some (rw_now w AtSteps)\<rparr>;
          repoDir = repo_dir w project exec;
          se = \<lparr>se_image = pl_image pl, se_repoDir = repoDir, se_wfDir = Join [repoDir, ''.ci'', e_Workflow exec],
                se_binds = pl_binds pl, se_env = pl_env pl, se_dockerHost = pl_dockerHost pl, se_secrets = secrets,
                se_projectID = p_ID project, se_execID = e_ID exec\<rparr>;
          (updates, steps, failed, canceled) = rw_steps w (pl_config pl) se (pl_carry pl);
          st1 = foldl (\<lambda>st u. persist w False (st\<lparr>rs_exec := exec\<lparr>e_Steps := u\<rparr>\<rparr>)) (trace (RanSteps se) (st\<lparr>rs_exec := exec\<rparr>)) updates;
          st_final = final_status canceled (rw_done w AtEnd) failed;
          exec1 = exec\<lparr>e_Steps := steps, e_Error := stepError steps, e_FinishedAt := Some (rw_now w AtEnd), e_Status := st_final\<rparr>;
          st2 = finish w st_final steps (e_Error exec1) True (st1\<lparr>rs_exec := exec1\<rparr>)
      in case pl_sandbox pl of
           None \<Rightarrow> st2
         | Some sb \<Rightarrow> trace (SandboxCalls (stopSandbox sb)) st2)"

definition loadVariables :: "('s, 'd) runner_world \<Rightarrow> uuid \<Rightarrow> 's \<Rightarrow> variable list \<times> 's" where
  "loadVariables w projectID s =
     (case in_ctx (rw_done w AtVariables) (rw_ListVariables w None) s of
        (r, s1) \<Rightarrow>
          (case in_ctx (rw_done w AtProjectVariables) (rw_ListVariables w (Some projectID)) s1 of
             (r', s2) \<Rightarrow> ((case r of Inl _ \<Rightarrow> [] | Inr vs \<Rightarrow> vs) @ (case r' of Inl _ \<Rightarrow> [] | Inr vs \<Rightarrow> vs), s2)))"

definition run :: "('s, 'd) runner_world \<Rightarrow> execution \<Rightarrow> 's \<Rightarrow> 'd \<Rightarrow> ('s, 'd) run_state" where
  "run w exec s d =
     (let st = \<lparr>rs_exec = exec, rs_store = s, rs_dir = d, rs_reporter = Nop, rs_trace = []\<rparr>
      in case in_ctx (rw_done w AtProject) (rw_GetProject w (e_ProjectID exec)) s of
           (Inl e, s1) \<Rightarrow> fail_run w (store_text e) (st\<lparr>rs_store := s1\<rparr>)
         | (Inr project, s1) \<Rightarrow>
             (let st1 = persist w (rw_done w AtRunning)
                          (st\<lparr>rs_store := s1, rs_reporter := notify_For (ne_url_parse (rw_notify w)) project (rw_PublicBaseURL w),
                              rs_exec := exec\<lparr>e_Status := StatusRunning\<rparr>\<rparr>);
                  (vars, s2) = loadVariables w (p_ID project) (rs_store st1);
                  secrets = collectSecrets vars project;
                  st2 = st1\<lparr>rs_store := s2\<rparr>
              in case rw_mkdirLogs w (LogDir (rw_workspace w) (p_ID project) (e_ID exec)) of
                   Inl e \<Rightarrow> fail_run w e st2
                 | Inr _ \<Rightarrow>
                     (case rw_openSetup w (SetupLog (rw_workspace w) (p_ID project) (e_ID exec)) of
                        Inl e \<Rightarrow> fail_run w e st2
                      | Inr _ \<Rightarrow>
                          (if \<not> rw_engine w then finish w StatusFailed [] ''container engine is unavailable'' True st2
                           else (case run_setup w project vars st2 of
                                   (Inl e, st3) \<Rightarrow> finish w StatusFailed [] e True st3
                                 | (Inr pl, st3) \<Rightarrow> run_steps w project secrets pl st3)))))"

end
