(* ===== verification/RunnerSafety.thy ===== *)
theory RunnerSafety
  imports Runner
begin

text \<open>
  What a run of \<open>Runner\<close> leaves behind: exactly one final record, whatever happens, with the status the
  steps and the cancellation give.
\<close>

section \<open>Stages keep the run\<close>

definition same_run :: "execution \<Rightarrow> execution \<Rightarrow> bool" where
  "same_run a b \<longleftrightarrow>
     e_ID b = e_ID a \<and> e_ProjectID b = e_ProjectID a \<and> e_ExecutionID b = e_ExecutionID a \<and> e_Attempt b = e_Attempt a
     \<and> e_Trigger b = e_Trigger a \<and> e_Source b = e_Source a \<and> e_SnapshotID b = e_SnapshotID a"

definition run_inv :: "('s \<Rightarrow> bool) \<Rightarrow> execution \<Rightarrow> ('s, 'd) run_state \<Rightarrow> bool" where
  "run_inv P e0 st \<longleftrightarrow>
     P (rs_store st) \<and> same_run e0 (rs_exec st) \<and> e_Status (rs_exec st) = StatusRunning
     \<and> (\<forall>x. Persisted x \<in> set (rs_trace st) \<longrightarrow> same_run e0 x \<and> e_Status x = StatusRunning)
     \<and> (\<forall>se. RanSteps se \<notin> set (rs_trace st))"

lemma same_run_refl [simp]: "same_run e e"
  by (simp add: same_run_def)

lemma trace_simps [simp]:
  "rs_exec (trace x st) = rs_exec st" "rs_store (trace x st) = rs_store st" "rs_dir (trace x st) = rs_dir st"
  "rs_reporter (trace x st) = rs_reporter st" "rs_trace (trace x st) = rs_trace st @ [x]"
  by (simp_all add: trace_def)

lemma persist_simps [simp]:
  "rs_exec (persist w b st) = rs_exec st" "rs_dir (persist w b st) = rs_dir st" "rs_reporter (persist w b st) = rs_reporter st"
  "rs_trace (persist w b st) = (if b then rs_trace st else rs_trace st @ [Persisted (rs_exec st)])"
  by (simp_all add: persist_def)

lemma run_inv_cong:
  "rs_store st' = rs_store st \<Longrightarrow> rs_exec st' = rs_exec st \<Longrightarrow> rs_trace st' = rs_trace st \<Longrightarrow> run_inv P e0 st' = run_inv P e0 st"
  by (simp add: run_inv_def)

lemma run_inv_append:
  "rs_store st' = rs_store st \<Longrightarrow> rs_exec st' = rs_exec st \<Longrightarrow> rs_trace st' = rs_trace st @ xs \<Longrightarrow> (\<forall>x. Persisted x \<notin> set xs) \<Longrightarrow> (\<forall>x. RanSteps x \<notin> set xs) \<Longrightarrow> run_inv P e0 st \<Longrightarrow> run_inv P e0 st'"
  by (auto simp: run_inv_def)

definition keeps :: "('s \<Rightarrow> bool) \<Rightarrow> ('s, 'd, 'a) run_op \<Rightarrow> bool" where
  "keeps P m \<longleftrightarrow> (\<forall>e0 st r st'. run_inv P e0 st \<longrightarrow> m st = (r, st') \<longrightarrow> run_inv P e0 st')"

lemma keepsD: "keeps P m \<Longrightarrow> m st = (r, st') \<Longrightarrow> run_inv P e0 st \<Longrightarrow> run_inv P e0 st'"
  by (simp add: keeps_def)

lemma keeps_and_then: "keeps P m \<Longrightarrow> (\<And>a. keeps P (f a)) \<Longrightarrow> keeps P (and_then m f)"
  unfolding keeps_def
proof (intro allI impI)
  fix e0 st r st' assume m: "\<forall>e0 st r st'. run_inv P e0 st \<longrightarrow> m st = (r, st') \<longrightarrow> run_inv P e0 st'"
    and f: "\<And>a. \<forall>e0 st r st'. run_inv P e0 st \<longrightarrow> f a st = (r, st') \<longrightarrow> run_inv P e0 st'"
    and inv: "run_inv P e0 st" and st: "and_then m f st = (r, st')"
  obtain x st1 where x: "m st = (x, st1)" by (metis surj_pair)
  with m inv have inv1: "run_inv P e0 st1" by blast
  show "run_inv P e0 st'"
  proof (cases x)
    case (Inl e)
    with st x inv1 show ?thesis by (simp add: and_then_def)
  next
    case (Inr a)
    with st x have "f a st1 = (r, st')" by (simp add: and_then_def)
    with f inv1 show ?thesis by blast
  qed
qed

text \<open>The contract of a run with its store: a property of the store that every operation a run uses preserves.\<close>

locale runner_store =
  fixes w :: "('s, 'd) runner_world" and P :: "'s \<Rightarrow> bool"
  assumes get_project: "P s \<Longrightarrow> P (snd (rw_GetProject w i s))"
    and update: "P s \<Longrightarrow> P (snd (rw_UpdateExecution w e s))"
    and list_variables: "P s \<Longrightarrow> P (snd (rw_ListVariables w q s))"
    and get_attempt: "P s \<Longrightarrow> P (snd (rw_GetAttempt w i k s))"
    and delete_schedule: "P s \<Longrightarrow> P (snd (rw_DeleteSchedule w i wname s))"
    and upsert_schedule: "P s \<Longrightarrow> P (snd (rw_UpsertSchedule w sch s))"
    and cancel_group: "P s \<Longrightarrow> P (snd (rw_CancelRunningInGroup w i g k s))"
    and notify_get: "P s \<Longrightarrow> P (snd (ne_GetExecutionAttempt (rw_notify w) i k n s))"
    and notify_set: "P s \<Longrightarrow> P (snd (ne_SetCheckRunID (rw_notify w) i k c s))"
    and notify_list: "P s \<Longrightarrow> P (snd (ne_ListAttempts (rw_notify w) i k s))"
begin

lemmas ops = get_project update list_variables get_attempt delete_schedule upsert_schedule cancel_group

lemma persist_store: "P (rs_store st) \<Longrightarrow> P (rs_store (persist w b st))"
  by (simp add: persist_def update)

lemma run_inv_persist:
  "run_inv P e0 st \<Longrightarrow> same_run e0 e \<Longrightarrow> e_Status e = StatusRunning \<Longrightarrow> run_inv P e0 (persist w b (st\<lparr>rs_exec := e\<rparr>))"
  using persist_store [of "st\<lparr>rs_exec := e\<rparr>" b] by (auto simp: run_inv_def)

lemma in_ctx_store: "(P s \<Longrightarrow> P (snd (query s))) \<Longrightarrow> P s \<Longrightarrow> P (snd (in_ctx b query s))"
  by (simp add: in_ctx_def)

lemma sync_store:
  "P s \<Longrightarrow> P (snd (SyncSchedule cron (\<lambda>p name. in_ctx b (rw_DeleteSchedule w p name)) (\<lambda>sch. in_ctx b (rw_UpsertSchedule w sch)) now i wname expr s))"
  using in_ctx_store [of s "rw_DeleteSchedule w i wname" b] in_ctx_store [of s "rw_UpsertSchedule w sch" b for sch]
  by (auto simp: SyncSchedule_def as_app_def delete_schedule upsert_schedule split: sum.split prod.split) (metis snd_conv)+

lemma summary_store: "P s \<Longrightarrow> P (snd (attempts_summary ((rw_notify w)\<lparr>ne_cancelled := b\<rparr>) r e t s))"
  using notify_list [of s "p_ID (gr_project r)" "e_ExecutionID e"]
  by (auto simp: attempts_summary_def ctx_query_def split: prod.split sum.split)

lemma running_store: "P s \<Longrightarrow> P (snd (github_running ((rw_notify w)\<lparr>ne_cancelled := b\<rparr>) r e s))"
  using summary_store [of s b r e]
  by (auto simp: github_running_def split: prod.split option.split) (metis snd_conv)

lemma github_started_store: "P s \<Longrightarrow> P (snd (github_Started ((rw_notify w)\<lparr>ne_cancelled := b\<rparr>) r e s))"
proof -
  assume s: "P s"
  let ?env = "(rw_notify w)\<lparr>ne_cancelled := b\<rparr>" and ?p = "p_ID (gr_project r)" and ?x = "e_ExecutionID e"
  obtain q s1 where q: "ctx_query ?env (ne_GetExecutionAttempt ?env ?p ?x 1) s = (q, s1)" by (metis surj_pair)
  with s notify_get [of s ?p ?x 1] have s1: "P s1" by (auto simp: ctx_query_def split: if_splits)
  have set_store: "P s2" if "ctx_query ?env (ne_SetCheckRunID (rw_notify w) ?p ?x i) s1 = (u, s2)" for i u s2
    using that s1 notify_set [of s1 ?p ?x i] by (auto simp: ctx_query_def split: if_splits)
  have run_store: "P s3" if "github_running ?env r' e t = (u, s3)" "P t" for r' t u s3
    using running_store [of t b r' e] that by simp
  show ?thesis
    using s s1 q by (auto simp: github_Started_def Let_def dest: set_store run_store split: sum.split prod.split)
qed

lemma started_store: "P s \<Longrightarrow> P (snd (Started ((rw_notify w)\<lparr>ne_cancelled := b\<rparr>) rep e s))"
  by (cases rep) (simp_all add: Started_def github_started_store split: prod.split)

lemma finished_store: "P s \<Longrightarrow> P (snd (Finished ((rw_notify w)\<lparr>ne_cancelled := b\<rparr>) rep x s))"
proof (cases rep)
  case (GithubReporter r)
  assume s: "P s"
  have sum_store: "P s2" if "attempts_summary ((rw_notify w)\<lparr>ne_cancelled := b\<rparr>) r e t s = (u, s2)" for e t u s2
    using summary_store [of s b r e t] s that by simp
  show ?thesis
    using s by (auto simp: GithubReporter Finished_def github_Finished_def Let_def dest: sum_store split: prod.split)
qed (simp_all add: Finished_def split: prod.split)

lemma keeps_source: "keeps P (stage_source w p)"
  by (auto simp: keeps_def stage_source_def run_inv_def split: prod.splits if_splits)

lemma keeps_config: "keeps P (stage_config w p)"
proof -
  have "run_inv P e0 (persist w b (st\<lparr>rs_exec := (rs_exec st)\<lparr>e_CommitSHA := sha\<rparr>\<rparr>))" if "run_inv P e0 st" for e0 st b sha
    using that by (intro run_inv_persist) (auto simp: run_inv_def same_run_def)
  then show ?thesis
    by (auto simp: keeps_def stage_config_def Let_def split: sum.splits if_splits)
qed

lemma carry_files_effects:
  "Persisted x \<notin> set (carry_files w p cfg parent carry previous order exec)"
  "RanSteps se \<notin> set (carry_files w p cfg parent carry previous order exec)"
  by (auto simp: carry_files_def Let_def split: if_splits)

lemma run_inv_store: "run_inv P e0 st \<Longrightarrow> P s \<Longrightarrow> run_inv P e0 (st\<lparr>rs_store := s\<rparr>)"
  by (simp add: run_inv_def)

lemma load_carry_inv: "load_carry w p st = (r, st') \<Longrightarrow> run_inv P e0 st \<Longrightarrow> run_inv P e0 st'"
proof -
  assume l: "load_carry w p st = (r, st')" and inv: "run_inv P e0 st"
  have q: "P (snd (in_ctx b (rw_GetAttempt w (p_ID p) i) (rs_store st)))" for b i
    using inv by (intro in_ctx_store get_attempt) (simp_all add: run_inv_def)
  have "st' = st \<or> (\<exists>b i. st' = st\<lparr>rs_store := snd (in_ctx b (rw_GetAttempt w (p_ID p) i) (rs_store st))\<rparr>)"
    using l by (auto simp: load_carry_def Let_def split: if_splits option.splits prod.splits sum.splits) (metis snd_conv)+
  with inv q show ?thesis by (auto intro: run_inv_store)
qed

lemma keeps_plan: "keeps P (stage_plan w p cfg)"
  unfolding keeps_def
proof (intro allI impI)
  fix e0 st r st' assume inv: "run_inv P e0 st" and st: "stage_plan w p cfg st = (r, st')"
  obtain parent carry st1 where l: "load_carry w p st = ((parent, carry), st1)" by (metis surj_pair)
  with inv have inv1: "run_inv P e0 st1" using load_carry_inv by blast
  have inv2: "run_inv P e0 (persist w b (st1\<lparr>rs_exec := (rs_exec st1)\<lparr>e_Steps := steps\<rparr>\<rparr>))" for b steps
    using inv1 by (intro run_inv_persist) (auto simp: run_inv_def same_run_def)
  have files: "run_inv P e0 (s\<lparr>rs_trace := rs_trace s @ carry_files w p cfg parent carry previous order exec\<rparr>)"
    if "run_inv P e0 s" for s previous order exec
    using that by (rule run_inv_append [rotated 5]) (auto simp: carry_files_effects)
  from st l inv1 show "run_inv P e0 st'"
    by (auto simp: stage_plan_def Let_def simp del: persist_simps(4) intro: files inv2 split: sum.splits if_splits option.splits)
qed

lemma stage_group_inv: "run_inv P e0 st \<Longrightarrow> run_inv P e0 (stage_group w p cfg st)"
proof -
  assume inv: "run_inv P e0 st"
  have store: "run_inv P e0 s \<Longrightarrow> P (rs_store s)" for s by (simp add: run_inv_def)
  define st1 where "st1 = (if e_Source (rs_exec st) = SourceSnapshot then st
    else st\<lparr>rs_store := snd (SyncSchedule (rw_cron_next w)
           (\<lambda>p wf. in_ctx (rw_done w AtSchedule) (rw_DeleteSchedule w p wf))
           (\<lambda>sch. in_ctx (rw_done w AtSchedule) (rw_UpsertSchedule w sch))
           (rw_now w AtSchedule) (p_ID p) (e_Workflow (rs_exec st)) (EffectiveSchedule cfg) (rs_store st))\<rparr>)"
  have inv1: "run_inv P e0 st1"
    using run_inv_store [OF inv sync_store [OF store [OF inv]]] inv by (simp add: st1_def)
  define st2 where "st2 = persist w (rw_done w AtGroup) (st1\<lparr>rs_exec := (rs_exec st1)\<lparr>e_ConcurrencyGroup := cf_Concurrency cfg\<rparr>\<rparr>)"
  have inv2: "run_inv P e0 st2"
    unfolding st2_def using inv1 by (intro run_inv_persist) (auto simp: run_inv_def same_run_def)
  note inv3 = run_inv_store [OF inv2 in_ctx_store [OF cancel_group store [OF inv2]]]
  show ?thesis
    unfolding stage_group_def Let_def st1_def [symmetric] st2_def [symmetric] using inv1 inv3 by simp
qed

lemma stage_started_inv: "run_inv P e0 st \<Longrightarrow> run_inv P e0 (stage_started w st)"
  using started_store [of "rs_store st"] by (auto simp: stage_started_def Let_def run_inv_def)

lemma keeps_image: "keeps P (stage_image w p cfg)"
  by (auto simp: keeps_def stage_image_def Let_def run_inv_def split: if_splits sum.splits)

lemma keeps_sandbox: "keeps P (stage_sandbox w p cfg binds img)"
  by (auto simp: keeps_def stage_sandbox_def Let_def run_inv_def split: if_splits sum.splits prod.splits)

lemma keeps_ready: "keeps P (stage_ready w p vars cfg0 carry)"
  unfolding keeps_def
proof (intro allI impI)
  fix e0 st r st' assume inv: "run_inv P e0 st" and st: "stage_ready w p vars cfg0 carry st = (r, st')"
  have "keeps P (\<lambda>st2. (Inr (f st2), st2))" for f :: "('s, 'd) run_state \<Rightarrow> run_plan" by (simp add: keeps_def)
  then have "keeps P (and_then (stage_image w p cfg) (\<lambda>img.
         and_then (stage_sandbox w p cfg binds img) (\<lambda>(sb, stepBinds, host) st2.
           (Inr \<lparr>pl_config = cfg, pl_carry = carry, pl_image = img, pl_env = run_env w p vars cfg st2,
                 pl_sandbox = sb, pl_binds = stepBinds, pl_dockerHost = host\<rparr>, st2))))" for cfg binds
    by (intro keeps_and_then keeps_image keeps_sandbox) (auto split: prod.splits)
  from keepsD [OF this st [unfolded stage_ready_def Let_def]] inv show "run_inv P e0 st'"
    by (simp add: stage_group_inv stage_started_inv)
qed

lemma keeps_setup: "keeps P (run_setup w p vars)"
  unfolding run_setup_def by (intro keeps_and_then keeps_source keeps_config keeps_plan keeps_ready)

lemma variables_store: "P s \<Longrightarrow> P (snd (loadVariables w i s))"
proof -
  assume s: "P s"
  obtain r s1 where r: "in_ctx (rw_done w AtVariables) (rw_ListVariables w None) s = (r, s1)" by (metis surj_pair)
  with list_variables [of s None] s have s1: "P s1" by (auto simp: in_ctx_def split: if_splits)
  obtain q s2 where q: "in_ctx (rw_done w AtProjectVariables) (rw_ListVariables w (Some i)) s1 = (q, s2)" by (metis surj_pair)
  with list_variables [of s1 "Some i"] s1 have "P s2" by (auto simp: in_ctx_def split: if_splits)
  with r q show ?thesis by (simp add: loadVariables_def)
qed

lemma finish_store: "P (rs_store st) \<Longrightarrow> P (rs_store (finish w f steps msg b st))"
  by (simp add: finish_def Let_def finished_store persist_store split: option.split)

end

section \<open>The final record\<close>

definition run_past :: "('s \<Rightarrow> bool) \<Rightarrow> execution \<Rightarrow> ('s, 'd) run_state \<Rightarrow> bool" where
  "run_past P e0 st \<longleftrightarrow>
     P (rs_store st) \<and> same_run e0 (rs_exec st)
     \<and> (\<forall>x. Persisted x \<in> set (rs_trace st) \<longrightarrow> same_run e0 x \<and> e_Status x = StatusRunning)"

lemma run_past: "run_inv P e0 st \<Longrightarrow> run_past P e0 st"
  by (simp add: run_inv_def run_past_def)

text \<open>What \<open>finish\<close> is called with: the steps' outcome, or a failure before any step ran.\<close>

definition outcome_of :: "('s, 'd) runner_world \<Rightarrow> status \<Rightarrow> step_result list \<Rightarrow> ('s, 'd) run_state \<Rightarrow> bool" where
  "outcome_of w f steps st \<longleftrightarrow>
     (f = StatusFailed \<and> steps = [] \<and> (\<forall>se. RanSteps se \<notin> set (rs_trace st)))
     \<or> (\<exists>se cfg carry updates failed canceled.
          RanSteps se \<in> set (rs_trace st) \<and> rw_steps w cfg se carry = (updates, steps, failed, canceled)
          \<and> f = final_status canceled (rw_done w AtEnd) failed)"

definition finished_by :: "('s, 'd) run_state \<Rightarrow> ('s, 'd) run_state \<Rightarrow> bool" where
  "finished_by st' st \<longleftrightarrow> st' = st \<or> (\<exists>calls. st' = trace (SandboxCalls calls) st)"

lemma persist_False: "rs_store (persist w False st) = snd (rw_UpdateExecution w (rs_exec st) (rs_store st))"
  by (simp add: persist_def)

lemma finish_record:
  "\<exists>e1 calls rest. rs_trace (finish w f steps msg b st) = rs_trace st @ Persisted e1 # ForgeCalls calls # rest
     \<and> (\<forall>x. Persisted x \<notin> set rest) \<and> (\<forall>se. RanSteps se \<notin> set rest) \<and> (\<forall>c. ForgeCalls c \<notin> set rest)
     \<and> rs_exec (finish w f steps msg b st) = e1
     \<and> calls = fst (snd (fst (Finished ((rw_notify w)\<lparr>ne_cancelled := rw_done w AtFinish\<rparr>) (rs_reporter st)
         \<lparr>rp_Execution = e1, rp_Status = f, rp_Summary = msg, rp_Logs = truncate_logs (rw_logs w)\<rparr>
         (snd (rw_UpdateExecution w e1 (rs_store st))))))
     \<and> same_run (rs_exec st) e1 \<and> e_Status e1 = f \<and> e_Steps e1 = steps \<and> e_FinishedAt e1 \<noteq> None"
  by (simp add: finish_def Let_def same_run_def persist_False split: option.split)

lemma final_status_terminal: "final_status c d f \<in> {StatusSuccess, StatusFailed, StatusCanceled}"
  by (simp add: final_status_def)

context runner_store begin

lemma steps_past:
  "run_past P e0 st \<Longrightarrow> same_run e0 exec \<Longrightarrow> e_Status exec = StatusRunning \<Longrightarrow>
     run_past P e0 (foldl (\<lambda>st u. persist w False (st\<lparr>rs_exec := exec\<lparr>e_Steps := u\<rparr>\<rparr>)) st updates)
     \<and> set (rs_trace st) \<subseteq> set (rs_trace (foldl (\<lambda>st u. persist w False (st\<lparr>rs_exec := exec\<lparr>e_Steps := u\<rparr>\<rparr>)) st updates))"
proof (induction updates arbitrary: st)
  case (Cons u updates)
  let ?st = "persist w False (st\<lparr>rs_exec := exec\<lparr>e_Steps := u\<rparr>\<rparr>)"
  have "run_past P e0 ?st"
    using Cons.prems persist_store [of "st\<lparr>rs_exec := exec\<lparr>e_Steps := u\<rparr>\<rparr>" False]
    by (auto simp: run_past_def same_run_def)
  from Cons.IH [OF this Cons.prems(2,3)] show ?case by auto
qed (simp add: run_past_def)

lemma run_steps_outcome:
  assumes "run_inv P e0 st"
  shows "\<exists>f steps msg st1. finished_by (run_steps w p secrets pl st) (finish w f steps msg True st1)
    \<and> run_past P e0 st1 \<and> outcome_of w f steps st1"
proof -
  define exec where "exec = (rs_exec st)\<lparr>e_SetupFinishedAt := Some (rw_now w AtSteps)\<rparr>"
  define se where "se = \<lparr>se_image = pl_image pl, se_repoDir = repo_dir w p exec,
    se_wfDir = Join [repo_dir w p exec, ''.ci'', e_Workflow exec], se_binds = pl_binds pl, se_env = pl_env pl,
    se_dockerHost = pl_dockerHost pl, se_secrets = secrets, se_projectID = p_ID p, se_execID = e_ID exec\<rparr>"
  obtain updates steps failed canceled where r: "rw_steps w (pl_config pl) se (pl_carry pl) = (updates, steps, failed, canceled)"
    by (metis surj_pair)
  define st0 where "st0 = trace (RanSteps se) (st\<lparr>rs_exec := exec\<rparr>)"
  define st1 where "st1 = foldl (\<lambda>st u. persist w False (st\<lparr>rs_exec := exec\<lparr>e_Steps := u\<rparr>\<rparr>)) st0 updates"
  define f where "f = final_status canceled (rw_done w AtEnd) failed"
  define exec1 where "exec1 = exec\<lparr>e_Steps := steps, e_Error := stepError steps, e_FinishedAt := Some (rw_now w AtEnd), e_Status := f\<rparr>"
  have exec: "same_run e0 exec" "e_Status exec = StatusRunning"
    using assms by (simp_all add: exec_def run_inv_def same_run_def)
  have "run_past P e0 st0" using assms exec by (auto simp: st0_def run_inv_def run_past_def)
  from steps_past [OF this exec, of updates, folded st1_def]
  have st1: "run_past P e0 st1" "set (rs_trace st0) \<subseteq> set (rs_trace st1)" by auto
  have past: "run_past P e0 (st1\<lparr>rs_exec := exec1\<rparr>)" using st1(1) exec by (auto simp: run_past_def exec1_def same_run_def)
  have "RanSteps se \<in> set (rs_trace st1)" using st1(2) by (auto simp: st0_def)
  then have "outcome_of w f steps (st1\<lparr>rs_exec := exec1\<rparr>)"
    unfolding outcome_of_def f_def
    by (intro disjI2 exI [of _ se] exI [of _ "pl_config pl"] exI [of _ "pl_carry pl"] exI [of _ updates] exI [of _ failed]
        exI [of _ canceled]) (simp add: r)
  moreover have "finished_by (run_steps w p secrets pl st) (finish w f steps (stepError steps) True (st1\<lparr>rs_exec := exec1\<rparr>))"
    unfolding run_steps_def Let_def exec_def [symmetric] se_def [symmetric] r prod.case st0_def [symmetric] st1_def [symmetric]
      f_def [symmetric] exec1_def [symmetric]
    by (auto simp: finished_by_def exec1_def split: option.split)
  ultimately show ?thesis using past by blast
qed

lemma failed_outcome: "run_inv P e0 st \<Longrightarrow> outcome_of w StatusFailed [] st"
  by (simp add: outcome_of_def run_inv_def)

lemma run_outcome:
  assumes s: "P s"
  shows "\<exists>f steps msg b st1. finished_by (run w exec s d) (finish w f steps msg b st1)
    \<and> run_past P exec st1 \<and> outcome_of w f steps st1"
proof -
  let ?st = "\<lparr>rs_exec = exec, rs_store = s, rs_dir = d, rs_reporter = Nop, rs_trace = []\<rparr>"
  have fin: ?thesis if "run w exec s d = finish w StatusFailed [] msg b st1" "run_inv P exec st1" for msg b st1
    using that failed_outcome run_past unfolding finished_by_def by blast
  obtain r s1 where r: "in_ctx (rw_done w AtProject) (rw_GetProject w (e_ProjectID exec)) s = (r, s1)" by (metis surj_pair)
  with get_project [of s "e_ProjectID exec"] s have s1: "P s1" by (auto simp: in_ctx_def split: if_splits)
  show ?thesis
  proof (cases r)
    case (Inl e)
    let ?st1 = "?st\<lparr>rs_store := s1, rs_reporter := Nop\<rparr>"
    have "run w exec s d = finish w StatusFailed [] (store_text e) False ?st1"
      by (simp add: run_def r Inl fail_run_def)
    moreover have "run_past P exec ?st1" "outcome_of w StatusFailed [] ?st1" using s1 by (simp_all add: run_past_def outcome_of_def)
    ultimately show ?thesis unfolding finished_by_def by blast
  next
    case (Inr p)
    define st1 where "st1 = persist w (rw_done w AtRunning)
      (?st\<lparr>rs_store := s1, rs_reporter := notify_For (ne_url_parse (rw_notify w)) p (rw_PublicBaseURL w),
           rs_exec := exec\<lparr>e_Status := StatusRunning\<rparr>\<rparr>)"
    have "P (rs_store st1)" unfolding st1_def using s1 by (intro persist_store) simp
    then have inv1: "run_inv P exec st1" by (auto simp: st1_def run_inv_def same_run_def)
    obtain vars s2 where v: "loadVariables w (p_ID p) (rs_store st1) = (vars, s2)" by (metis surj_pair)
    define st2 where "st2 = st1\<lparr>rs_store := s2\<rparr>"
    have "P s2" using variables_store [of "rs_store st1" "p_ID p"] v inv1 by (simp add: run_inv_def)
    with inv1 have inv2: "run_inv P exec st2" unfolding st2_def by (rule run_inv_store)
    have inv2': "run_inv P exec (st2\<lparr>rs_reporter := Nop\<rparr>)" using inv2 by (simp add: run_inv_def)
    have run: "run w exec s d =
        (case rw_mkdirLogs w (LogDir (rw_workspace w) (p_ID p) (e_ID exec)) of
           Inl e \<Rightarrow> fail_run w e st2
         | Inr _ \<Rightarrow>
             (case rw_openSetup w (SetupLog (rw_workspace w) (p_ID p) (e_ID exec)) of
                Inl e \<Rightarrow> fail_run w e st2
              | Inr _ \<Rightarrow>
                  (if \<not> rw_engine w then finish w StatusFailed [] ''container engine is unavailable'' True st2
                   else (case run_setup w p vars st2 of
                           (Inl e, st3) \<Rightarrow> finish w StatusFailed [] e True st3
                         | (Inr pl, st3) \<Rightarrow> run_steps w p (collectSecrets vars p) pl st3))))"
      unfolding run_def Let_def r Inr prod.case sum.case st1_def [symmetric] v st2_def [symmetric] ..
    obtain q st3 where q: "run_setup w p vars st2 = (q, st3)" by (metis surj_pair)
    have inv3: "run_inv P exec st3" by (rule keepsD [OF keeps_setup q inv2])
    show ?thesis
    proof (cases "\<exists>u u'. rw_mkdirLogs w (LogDir (rw_workspace w) (p_ID p) (e_ID exec)) = Inr u
        \<and> rw_openSetup w (SetupLog (rw_workspace w) (p_ID p) (e_ID exec)) = Inr u' \<and> rw_engine w")
      case False
      then have "\<exists>msg b st. run w exec s d = finish w StatusFailed [] msg b st \<and> run_inv P exec st"
        using inv2 inv2' unfolding run fail_run_def by (cases "rw_engine w") (force split: sum.split)+
      with fin show ?thesis by blast
    next
      case True
      with run q have run': "run w exec s d = (case q of Inl e \<Rightarrow> finish w StatusFailed [] e True st3
          | Inr pl \<Rightarrow> run_steps w p (collectSecrets vars p) pl st3)" by (auto split: sum.splits)
      show ?thesis
      proof (cases q)
        case (Inl e)
        with run' fin inv3 show ?thesis by simp
      next
        case (Inr pl)
        with run' have "run w exec s d = run_steps w p (collectSecrets vars p) pl st3" by simp
        with run_steps_outcome [OF inv3, of p "collectSecrets vars p" pl] show ?thesis by metis
      qed
    qed
  qed
qed

end

end
