(* ===== verification/RunnerRecord.thy ===== *)
theory RunnerRecord
  imports RunnerSafety
begin

text \<open>
  The properties of a run: its one final record, what of it reaches the SQLite store and the forge, and what becomes of
  a run that is started a second time after the server went down.
\<close>

section \<open>The run on the SQLite store\<close>

definition sqlite_runner :: "aead option \<Rightarrow> (db, 'd) runner_world \<Rightarrow> (db, 'd) runner_world" where
  "sqlite_runner c w = w\<lparr>
     rw_GetProject := GetProject c, rw_UpdateExecution := UpdateExecution, rw_ListVariables := ListVariables c,
     rw_GetAttempt := GetAttempt, rw_DeleteSchedule := DeleteSchedule, rw_UpsertSchedule := UpsertSchedule,
     rw_CancelRunningInGroup := CancelRunningInGroup,
     rw_notify := (rw_notify w)\<lparr>ne_GetExecutionAttempt := GetExecutionAttempt, ne_SetCheckRunID := SetCheckRunID,
                                 ne_ListAttempts := ListAttempts\<rparr>\<rparr>"

definition stored :: "uuid \<Rightarrow> int \<Rightarrow> db \<Rightarrow> bool" where
  "stored p i d \<longleftrightarrow> db_ok d \<and> list_ex (at_key p i) (db_executions d)"

lemma stored_update_executions:
  assumes "stored p i d" "db_ok (update_executions q f d)" "\<And>r. ew_project_id (f r) = ew_project_id r" "\<And>r. ew_id (f r) = ew_id r"
  shows "stored p i (update_executions q f d)"
proof -
  from assms(1) obtain r where r: "r \<in> set (db_executions d)" "at_key p i r" by (auto simp: stored_def list_ex_iff)
  then have "at_key p i (if q r then f r else r)" using assms(3,4) by (simp add: at_key_def)
  moreover have "(if q r then f r else r) \<in> set (db_executions (update_executions q f d))"
    using r(1) unfolding in_update_executions by blast
  ultimately show ?thesis using assms(2) unfolding stored_def list_ex_iff by blast
qed

lemma stored_UpdateExecution: "stored p i d \<Longrightarrow> stored p i (snd (UpdateExecution e d))"
  using UpdateExecution_ok [of d e]
  by (auto simp: UpdateExecution_def Let_def stored_def [of p i d] intro!: stored_update_executions)

lemma stored_SetCheckRunID: "stored p i d \<Longrightarrow> stored p i (snd (SetCheckRunID q x c d))"
  using SetCheckRunID_ok [of d q x c]
  by (auto simp: SetCheckRunID_def stored_def [of p i d] intro!: stored_update_executions)

lemma stored_CancelRunningInGroup: "stored p i d \<Longrightarrow> stored p i (snd (CancelRunningInGroup q g x d))"
  using CancelRunningInGroup_ok [of d q g x]
  by (auto simp: CancelRunningInGroup_def stored_def [of p i d] intro!: stored_update_executions)

lemma stored_DeleteSchedule: "stored p i d \<Longrightarrow> stored p i (snd (DeleteSchedule q n d))"
  using DeleteSchedule_ok [of d q n] by (auto simp: DeleteSchedule_def stored_def)

lemma stored_UpsertSchedule: "stored p i d \<Longrightarrow> stored p i (snd (UpsertSchedule sch d))"
  using UpsertSchedule_ok [of d sch] by (auto simp: UpsertSchedule_def Let_def stored_def)

interpretation any_store: runner_store w "\<lambda>_. True" for w
  by unfold_locales simp_all

interpretation sqlite_store: runner_store "sqlite_runner c w" "stored p i" for c w p i
proof
  fix s q k x n e g sch ci
  assume s: "stored p i s"
  have same: "snd (GetProject c q s) = s" "snd (ListVariables c v s) = s" "snd (GetExecutionAttempt q x n s) = s"
    "snd (ListAttempts q x s) = s" for q v x n
    by (simp_all add: GetProject_def ListVariables_def GetExecutionAttempt_def ListAttempts_def Let_def split: option.split list.split)
  show "stored p i (snd (rw_GetProject (sqlite_runner c w) q s))" using s by (simp add: sqlite_runner_def same)
  show "stored p i (snd (rw_ListVariables (sqlite_runner c w) v s))" for v using s by (simp add: sqlite_runner_def same)
  show "stored p i (snd (rw_UpdateExecution (sqlite_runner c w) e s))" using s by (simp add: sqlite_runner_def stored_UpdateExecution)
  show "stored p i (snd (rw_GetAttempt (sqlite_runner c w) q k s))" using s by (simp add: sqlite_runner_def)
  show "stored p i (snd (rw_DeleteSchedule (sqlite_runner c w) q n s))" for n using s by (simp add: sqlite_runner_def stored_DeleteSchedule)
  show "stored p i (snd (rw_UpsertSchedule (sqlite_runner c w) sch s))" using s by (simp add: sqlite_runner_def stored_UpsertSchedule)
  show "stored p i (snd (rw_CancelRunningInGroup (sqlite_runner c w) q g k s))" using s
    by (simp add: sqlite_runner_def stored_CancelRunningInGroup)
  show "stored p i (snd (ne_GetExecutionAttempt (rw_notify (sqlite_runner c w)) q k n s))" for n using s by (simp add: sqlite_runner_def same)
  show "stored p i (snd (ne_SetCheckRunID (rw_notify (sqlite_runner c w)) q k ci s))" using s by (simp add: sqlite_runner_def stored_SetCheckRunID)
  show "stored p i (snd (ne_ListAttempts (rw_notify (sqlite_runner c w)) q k s))" using s by (simp add: sqlite_runner_def same)
qed

section \<open>The final record\<close>

primrec persisted :: "run_effect list \<Rightarrow> execution list" where
  "persisted [] = []"
| "persisted (x # xs) = (case x of Persisted e \<Rightarrow> e # persisted xs | _ \<Rightarrow> persisted xs)"

lemma persisted_append [simp]: "persisted (xs @ ys) = persisted xs @ persisted ys"
  by (induction xs) (simp_all split: run_effect.split)

lemma persisted_none: "(\<forall>x. Persisted x \<notin> set xs) \<Longrightarrow> persisted xs = []"
  by (induction xs) (auto split: run_effect.split)

lemma set_persisted: "set (persisted xs) = {x. Persisted x \<in> set xs}"
  by (induction xs) (auto split: run_effect.split)

text \<open>How the status came about: a failure before the first step, or the outcome of the steps.\<close>

definition status_explained :: "('s, 'd) runner_world \<Rightarrow> run_effect list \<Rightarrow> execution \<Rightarrow> bool" where
  "status_explained w tr e \<longleftrightarrow>
     (e_Status e = StatusFailed \<and> e_Steps e = [] \<and> (\<forall>se. RanSteps se \<notin> set tr))
     \<or> (\<exists>se cfg carry updates failed canceled.
          RanSteps se \<in> set tr \<and> rw_steps w cfg se carry = (updates, e_Steps e, failed, canceled)
          \<and> e_Status e = final_status canceled (rw_done w AtEnd) failed)"

lemma outcome_terminal: "outcome_of w f steps st \<Longrightarrow> f \<in> {StatusSuccess, StatusFailed, StatusCanceled}"
  using final_status_terminal by (auto simp: outcome_of_def)

lemma finished_record:
  assumes "finished_by st' (finish w f steps msg b st)"
  shows "\<exists>e1 calls rest. rs_trace st' = rs_trace st @ Persisted e1 # ForgeCalls calls # rest
     \<and> (\<forall>x. Persisted x \<notin> set rest) \<and> (\<forall>se. RanSteps se \<notin> set rest) \<and> (\<forall>c. ForgeCalls c \<notin> set rest)
     \<and> same_run (rs_exec st) e1 \<and> e_Status e1 = f \<and> e_Steps e1 = steps \<and> e_FinishedAt e1 \<noteq> None
     \<and> calls = fst (snd (fst (Finished ((rw_notify w)\<lparr>ne_cancelled := rw_done w AtFinish\<rparr>) (rs_reporter st)
         \<lparr>rp_Execution = e1, rp_Status = f, rp_Summary = msg, rp_Logs = truncate_logs (rw_logs w)\<rparr>
         (snd (rw_UpdateExecution w e1 (rs_store st))))))"
proof -
  from finish_record [of w f steps msg b st] obtain e1 calls rest where
    tr: "rs_trace (finish w f steps msg b st) = rs_trace st @ Persisted e1 # ForgeCalls calls # rest"
      "\<forall>x. Persisted x \<notin> set rest" "\<forall>se. RanSteps se \<notin> set rest" "\<forall>c. ForgeCalls c \<notin> set rest"
    and e1: "same_run (rs_exec st) e1" "e_Status e1 = f" "e_Steps e1 = steps" "e_FinishedAt e1 \<noteq> None"
    and calls: "calls = fst (snd (fst (Finished ((rw_notify w)\<lparr>ne_cancelled := rw_done w AtFinish\<rparr>) (rs_reporter st)
         \<lparr>rp_Execution = e1, rp_Status = f, rp_Summary = msg, rp_Logs = truncate_logs (rw_logs w)\<rparr>
         (snd (rw_UpdateExecution w e1 (rs_store st))))))" by blast
  from assms obtain extra where "rs_trace st' = rs_trace st @ Persisted e1 # ForgeCalls calls # rest @ extra"
    "extra = [] \<or> (\<exists>x. extra = [SandboxCalls x])"
    unfolding finished_by_def using tr(1) by (metis append.assoc append_Cons append_Nil2 trace_simps(5))
  with tr e1 calls show ?thesis by (intro exI [of _ e1] exI [of _ calls] exI [of _ "rest @ extra"]) auto
qed

text \<open>
  C29. Every run ends with exactly one final record, whatever the store, the repository, the engine and the steps do:
  the records it persists are those of the run itself, all of them running up to the last one; the last one has a final
  status and a finishing time, and its status and steps are those of a failed setup or of the steps that ran.
\<close>

theorem run_ends_with_final_record:
  "\<exists>es e1. persisted (rs_trace (run w exec s d)) = es @ [e1]
     \<and> list_all (\<lambda>x. same_run exec x \<and> e_Status x = StatusRunning) es
     \<and> same_run exec e1 \<and> e_Status e1 \<in> {StatusSuccess, StatusFailed, StatusCanceled} \<and> e_FinishedAt e1 \<noteq> None
     \<and> status_explained w (rs_trace (run w exec s d)) e1"
proof -
  from any_store.run_outcome [where w = w and s = s and exec = exec and d = d] obtain f steps msg b st where
    fin: "finished_by (run w exec s d) (finish w f steps msg b st)" and past: "run_past (\<lambda>_. True) exec st"
    and out: "outcome_of w f steps st" by blast
  from finished_record [OF fin] obtain e1 calls rest where
    tr: "rs_trace (run w exec s d) = rs_trace st @ Persisted e1 # ForgeCalls calls # rest" "\<forall>x. Persisted x \<notin> set rest" "\<forall>se. RanSteps se \<notin> set rest"
    and e1: "same_run (rs_exec st) e1" "e_Status e1 = f" "e_Steps e1 = steps" "e_FinishedAt e1 \<noteq> None" by blast
  have "persisted (rs_trace (run w exec s d)) = persisted (rs_trace st) @ [e1]"
    using persisted_none [OF tr(2)] tr(1) by simp
  moreover have "list_all (\<lambda>x. same_run exec x \<and> e_Status x = StatusRunning) (persisted (rs_trace st))"
    using past by (auto simp: run_past_def set_persisted list_all_iff)
  moreover have "same_run exec e1" using past e1(1) by (simp add: run_past_def same_run_def)
  moreover have "status_explained w (rs_trace (run w exec s d)) e1"
    unfolding status_explained_def using out tr(1,3) e1(2,3) by (auto simp: outcome_of_def)
  ultimately show ?thesis using e1 outcome_terminal [OF out] by blast
qed

lemma Finished_state: "(\<And>p x s. snd (ne_ListAttempts env p x s) = s) \<Longrightarrow> snd (Finished env rep x s) = s"
proof (cases rep)
  case (GithubReporter r)
  assume l: "\<And>p x s. snd (ne_ListAttempts env p x s) = s"
  have "snd (attempts_summary env r e t s) = s" for e t
    using l [of "p_ID (gr_project r)" "e_ExecutionID e" s] by (auto simp: attempts_summary_def ctx_query_def split: prod.split sum.split)
  then have "s' = s" if "attempts_summary env r e t s = (u, s')" for e t u s' using that by (metis snd_conv)
  then show ?thesis by (auto simp: GithubReporter Finished_def github_Finished_def Let_def split: prod.split)
qed (simp_all add: Finished_def split: prod.split)

lemma UpdateExecution_row:
  assumes "r \<in> set (db_executions (snd (UpdateExecution e d)))" "at_key (e_ProjectID e) (e_ID e) r" "e_Status e \<noteq> StatusUnset"
  shows "ew_status r = e_Status e \<and> ew_steps_json r = e_Steps e \<and> ew_finished_at r = opt_milli (e_FinishedAt e)"
proof -
  from assms obtain r0 g where r0: "r = (if at_key (e_ProjectID e) (e_ID e) r0 then g r0 else r0)"
    and g: "at_key (e_ProjectID e) (e_ID e) (g r0) = at_key (e_ProjectID e) (e_ID e) r0"
      "ew_status (g r0) = e_Status e" "ew_steps_json (g r0) = e_Steps e" "ew_finished_at (g r0) = opt_milli (e_FinishedAt e)"
    unfolding UpdateExecution_def Let_def by (auto simp: in_update_executions at_key_def)
  from assms(2) r0 g(1) have "at_key (e_ProjectID e) (e_ID e) r0" by (auto split: if_splits)
  with r0 g show ?thesis by simp
qed

lemma finished_stored:
  assumes fin: "finished_by st' (finish (sqlite_runner c w) f steps msg b st)" and st: "stored (e_ProjectID (rs_exec st)) (e_ID (rs_exec st)) (rs_store st)"
    and f: "f \<noteq> StatusUnset"
  shows "\<exists>e. GetAttempt (e_ProjectID (rs_exec st)) (e_ID (rs_exec st)) (rs_store st') = (Inr e, rs_store st')
     \<and> e_Status e = f \<and> e_Steps e = steps \<and> e_FinishedAt e \<noteq> None"
proof -
  let ?w = "sqlite_runner c w" and ?p = "e_ProjectID (rs_exec st)" and ?i = "e_ID (rs_exec st)"
  define e1 where "e1 = rs_exec (finish ?w f steps msg b st)"
  have e1: "same_run (rs_exec st) e1" "e_Status e1 = f" "e_Steps e1 = steps" "e_FinishedAt e1 \<noteq> None"
    using finish_record [of ?w f steps msg b st] by (auto simp: e1_def)
  have store: "rs_store st' = snd (UpdateExecution e1 (rs_store st))"
  proof -
    have l: "snd (ne_ListAttempts ((rw_notify ?w)\<lparr>ne_cancelled := x\<rparr>) p k s) = s" for x p k s
      by (simp add: sqlite_runner_def ListAttempts_def)
    have "rs_store st' = rs_store (finish ?w f steps msg b st)" using fin by (auto simp: finished_by_def)
    also have "\<dots> = snd (UpdateExecution e1 (rs_store st))"
      using Finished_state [OF l] by (simp add: e1_def finish_def Let_def persist_False sqlite_runner_def split: option.split)
    finally show ?thesis .
  qed
  have key: "e_ProjectID e1 = ?p" "e_ID e1 = ?i" using e1(1) by (simp_all add: same_run_def)
  have "stored ?p ?i (rs_store st')" using stored_UpdateExecution [OF st] store by simp
  then obtain r where r: "find (at_key ?p ?i) (db_executions (rs_store st')) = Some r"
    by (metis stored_def list_ex_iff find_None_iff option.exhaust)
  from find_SomeD [OF r] have "r \<in> set (db_executions (rs_store st'))" "at_key ?p ?i r" by auto
  then have "ew_status r = f \<and> ew_steps_json r = steps \<and> ew_finished_at r \<noteq> None"
    using UpdateExecution_row [of r e1 "rs_store st"] e1 f key store by (auto simp: opt_milli_def)
  with r show ?thesis by (auto simp: GetAttempt_at_key opt_from_milli_def)
qed


section \<open>What the forge hears, and runs started twice\<close>

text \<open>
  A run whose context is done when it finishes reports its end to no forge: whatever its status, the final
  notification sends no call. So a cancelled run leaves the check run or commit status it opened as running.
\<close>

theorem cancelled_run_not_reported:
  assumes "rw_done w AtFinish"
  shows "\<exists>before e1 after. rs_trace (run w exec s d) = before @ Persisted e1 # ForgeCalls [] # after
     \<and> (\<forall>x. Persisted x \<notin> set after) \<and> (\<forall>calls. ForgeCalls calls \<notin> set after)
     \<and> e_Status e1 \<in> {StatusSuccess, StatusFailed, StatusCanceled}"
proof -
  from any_store.run_outcome [where w = w and s = s and exec = exec and d = d] obtain f steps msg b st where
    fin: "finished_by (run w exec s d) (finish w f steps msg b st)" and out: "outcome_of w f steps st" by blast
  from finished_record [OF fin] obtain e1 calls rest x where
    tr: "rs_trace (run w exec s d) = rs_trace st @ Persisted e1 # ForgeCalls calls # rest" "\<forall>x. Persisted x \<notin> set rest"
      "\<forall>c. ForgeCalls c \<notin> set rest" "e_Status e1 = f"
    and calls: "calls = fst (snd (fst (Finished ((rw_notify w)\<lparr>ne_cancelled := rw_done w AtFinish\<rparr>) (rs_reporter st)
         \<lparr>rp_Execution = e1, rp_Status = f, rp_Summary = msg, rp_Logs = truncate_logs (rw_logs w)\<rparr>
         (snd (rw_UpdateExecution w e1 (rs_store st))))))" by blast
  have "calls = []" unfolding calls using assms by (intro cancelled_context_sends_nothing) simp
  with tr outcome_terminal [OF out] show ?thesis by blast
qed

lemma source_taken:
  assumes "holds_repository (rw_git w) (rs_dir st)" "shaRe (e_CommitSHA (rs_exec st))" "e_Source (rs_exec st) \<noteq> SourceSnapshot"
    "e_Trigger (rs_exec st) \<noteq> TriggerRetry"
  shows "\<exists>e. run_setup w p vars st = (Inl e, st)"
proof -
  let ?cfg = "projectCloneConfig p (repo_dir w p (rs_exec st)) (e_CommitSHA (rs_exec st))"
  have "cc_Ref ?cfg = e_CommitSHA (rs_exec st)" by (simp add: projectCloneConfig_def)
  with assms(2) Clone_used_directory [OF assms(1), of ?cfg] obtain err where "Clone (rw_git w) ?cfg (rs_dir st) = (Inl err, rs_dir st)"
    by auto
  moreover have "e_CommitSHA (rs_exec st) \<noteq> []" using assms(2) by (metis shaRe_Nil)
  ultimately have "\<exists>e. stage_source w p st = (Inl e, st)"
    using assms(3,4) by (auto simp: stage_source_def materializeSource_def Let_def)
  then show ?thesis by (auto simp: run_setup_def and_then_def)
qed

text \<open>
  A run that is claimed a second time, after the server went down once its source was checked out, fails before
  any step: its commit is on record and its workspace directory still holds the repository, into which it cannot
  be cloned again. Its final record is a failure without steps.
\<close>

theorem requeued_run_fails:
  assumes "holds_repository (rw_git w) d" "shaRe (e_CommitSHA exec)" "e_Source exec \<noteq> SourceSnapshot"
    "e_Trigger exec \<noteq> TriggerRetry"
  shows "\<exists>es e1. persisted (rs_trace (run w exec s d)) = es @ [e1] \<and> e_Status e1 = StatusFailed \<and> e_Steps e1 = []
     \<and> (\<forall>se. RanSteps se \<notin> set (rs_trace (run w exec s d)))"
proof -
  let ?st = "\<lparr>rs_exec = exec, rs_store = s, rs_dir = d, rs_reporter = Nop, rs_trace = []\<rparr>"
  have fails: "\<exists>e. run_setup w p vars st = (Inl e, st)"
    if "rs_dir st = d" "rs_exec st = exec\<lparr>e_Status := StatusRunning\<rparr>" for p vars st
    using that assms by (intro source_taken) simp_all
  have "\<exists>msg b st. run w exec s d = finish w StatusFailed [] msg b st \<and> (\<forall>se. RanSteps se \<notin> set (rs_trace st))"
  proof (cases "in_ctx (rw_done w AtProject) (rw_GetProject w (e_ProjectID exec)) s")
    case (Pair r s1)
    show ?thesis
    proof (cases r)
      case (Inl e)
      then have "run w exec s d = finish w StatusFailed [] (store_text e) False (?st\<lparr>rs_store := s1, rs_reporter := Nop\<rparr>)"
        by (simp add: run_def Pair fail_run_def)
      then show ?thesis by (intro exI conjI) (assumption, simp)
    next
      case (Inr p)
      define st1 where "st1 = persist w (rw_done w AtRunning)
        (?st\<lparr>rs_store := s1, rs_reporter := notify_For (ne_url_parse (rw_notify w)) p (rw_PublicBaseURL w),
             rs_exec := exec\<lparr>e_Status := StatusRunning\<rparr>\<rparr>)"
      obtain vars s2 where v: "loadVariables w (p_ID p) (rs_store st1) = (vars, s2)" by (metis surj_pair)
      define st2 where "st2 = st1\<lparr>rs_store := s2\<rparr>"
      have st2: "rs_dir st2 = d" "rs_exec st2 = exec\<lparr>e_Status := StatusRunning\<rparr>" "\<forall>se. RanSteps se \<notin> set (rs_trace st2)"
        by (simp_all add: st2_def st1_def)
      from fails [OF st2(1,2)] obtain e where e: "run_setup w p vars st2 = (Inl e, st2)" by blast
      have "\<exists>msg b st. run w exec s d = finish w StatusFailed [] msg b st \<and> rs_trace st = rs_trace st2"
        unfolding run_def Let_def Pair Inr prod.case sum.case st1_def [symmetric] v st2_def [symmetric] e fail_run_def
        by (cases "rw_engine w") (force split: sum.split)+
      with st2(3) show ?thesis by metis
    qed
  qed
  then obtain msg b st where fin: "run w exec s d = finish w StatusFailed [] msg b st" "\<forall>se. RanSteps se \<notin> set (rs_trace st)" by blast
  from finished_record [of "run w exec s d", unfolded finished_by_def, OF disjI1 [OF fin(1)]] obtain e1 calls rest where
    tr: "rs_trace (run w exec s d) = rs_trace st @ Persisted e1 # ForgeCalls calls # rest" "\<forall>x. Persisted x \<notin> set rest"
      "\<forall>se. RanSteps se \<notin> set rest" "e_Status e1 = StatusFailed" "e_Steps e1 = []" by blast
  have "persisted (rs_trace (run w exec s d)) = persisted (rs_trace st) @ [e1]" using persisted_none [OF tr(2)] tr(1) by simp
  with tr fin(2) show ?thesis by auto
qed

section \<open>A concrete run\<close>

definition sample_workflow :: config where
  "sample_workflow = \<lparr>cf_Schema = [], cf_Name = [], cf_Image = ''alpine'', cf_Env = [], cf_On = None, cf_Paths = [], cf_PathsIgnore = [],
     cf_Cache = [], cf_Concurrency = [], cf_Steps = [sample_step ''test'' []]\<rparr>"

definition sample_surroundings :: "(run_point \<Rightarrow> bool) \<Rightarrow> (db, bool) runner_world" where
  "sample_surroundings stop = \<lparr>
     rw_GetProject = GetProject None, rw_UpdateExecution = UpdateExecution, rw_ListVariables = ListVariables None,
     rw_GetAttempt = GetAttempt, rw_DeleteSchedule = DeleteSchedule, rw_UpsertSchedule = UpsertSchedule,
     rw_CancelRunningInGroup = CancelRunningInGroup, rw_notify = sample_notify,
     rw_workspace = \<lparr>ws_root = ''/w'', ws_logsRoot = ''/l''\<rparr>,
     rw_sandbox = \<lparr>sc_SandboxImage = ''docker:dind'', sc_MountPath = ''/r'', sc_SandboxAddr = []\<rparr>,
     rw_Registries = \<lparr>reg_Images = [], reg_HubCache = []\<rparr>, rw_PublicBaseURL = [], rw_done = stop, rw_now = (\<lambda>_. 7 * second),
     rw_mkdirLogs = (\<lambda>_. Inr ()), rw_openSetup = (\<lambda>_. Inr ()), rw_engine = True, rw_git = sample_git, rw_stat = (\<lambda>_. Inr ()),
     rw_openSnapshot = (\<lambda>_. Inr ()), rw_mkdirRepo = (\<lambda>d. (Inr (), d)), rw_extract = (\<lambda>d. (Inr (), d)),
     rw_mkdirGit = (\<lambda>d. (Inr (), d)), rw_writeConfig = (\<lambda>_ d. (Inr (), d)), rw_head = (\<lambda>_. Some ''2f8b1c9d0''),
     rw_isTag = (\<lambda>_ _. False), rw_readFile = (\<lambda>_ _. Inr []), rw_parse = (\<lambda>_. Inr sample_workflow), rw_errText = (\<lambda>_. []),
     rw_globRef = (\<lambda>_ _. Some True), rw_glob = (\<lambda>_ _. []), rw_cron_next = (\<lambda>_ t. Inr t), rw_mkdirSteps = (\<lambda>_. True),
     rw_ensureRegistries = Inl ''unavailable'', rw_build = (\<lambda>_ _ _. Inr ()), rw_push = (\<lambda>_. Inr ()),
     rw_sandboxAnswers = \<lparr>an_create = (\<lambda>_. Inl ''unavailable''), an_dial = (\<lambda>_. Inr ()), an_pull = (\<lambda>_. Inr ())\<rparr>,
     rw_steps = (\<lambda>_ _ _. ([[StepResult ''test'' StepStatusRunning]], [StepResult ''test'' StepStatusSuccess], False, False)),
     rw_logs = []\<rparr>"

definition sample_world :: "(run_point \<Rightarrow> bool) \<Rightarrow> (db, bool) runner_world" where
  "sample_world stop = sqlite_runner None (sample_surroundings stop)"

lemma sample_world_simps:
  "rw_done (sample_world stop) = stop" "rw_git (sample_world stop) = sample_git"
  by (simp_all add: sample_world_def sample_surroundings_def sqlite_runner_def)

definition sample_exec :: execution where
  "sample_exec = sample_pending\<lparr>e_ID := 1, e_ExecutionID := 1, e_Status := StatusRunning, e_Source := SourceGit, e_Trigger := TriggerCron\<rparr>"

lemma sample_stored: "stored (e_ProjectID sample_exec) (e_ID sample_exec) sample_queue_db"
proof -
  have "list_ex (at_key (e_ProjectID sample_exec) (e_ID sample_exec)) (db_executions sample_queue_db)" by code_simp
  with sample_queue_db_ok show ?thesis by (simp add: stored_def)
qed


theorem cancelled_run_not_reported_witness:
  "\<exists>before e1 after. rs_trace (run (sample_world (\<lambda>p. p = AtFinish)) sample_exec sample_queue_db False)
     = before @ Persisted e1 # ForgeCalls [] # after"
proof -
  have "rw_done (sample_world (\<lambda>p. p = AtFinish)) AtFinish" by (simp add: sample_world_simps)
  from cancelled_run_not_reported [OF this, of sample_exec sample_queue_db False] show ?thesis
    by (elim exE conjE) (intro exI)
qed

theorem requeued_run_fails_witness:
  "\<exists>es e1. persisted (rs_trace (run (sample_world (\<lambda>_. False)) (sample_exec\<lparr>e_CommitSHA := ''2f8b1c9d0''\<rparr>) sample_queue_db True))
     = es @ [e1] \<and> e_Status e1 = StatusFailed"
proof -
  let ?exec = "sample_exec\<lparr>e_CommitSHA := ''2f8b1c9d0''\<rparr>"
  have repo: "holds_repository (rw_git (sample_world (\<lambda>_. False))) True"
    by (simp add: holds_repository_def sample_world_simps sample_git_def)
  have sha: "shaRe (e_CommitSHA ?exec)" by code_simp
  have "e_Source ?exec \<noteq> SourceSnapshot" "e_Trigger ?exec \<noteq> TriggerRetry" by (simp_all add: sample_exec_def)
  from requeued_run_fails [OF repo sha this, of sample_queue_db] show ?thesis
    by (elim exE conjE) (intro exI conjI)
qed

end
