(* ===== verification/Workers.thy ===== *)
theory Workers
  imports SqliteQueue "HOL-Library.AList" "HOL-Library.Multiset"
begin

text \<open>
  The worker pool of \<^verbatim>\<open>internal/ci/runner.go\<close>: \<open>Start\<close>, \<open>workerLoop\<close>, \<open>Drain\<close>, \<open>Cancel\<close> and the map of cancel
  functions. Every worker is at one of the points between two of its shared actions (\<open>worker_phase\<close>); \<open>pool_fire\<close> performs one
  action of one worker, of the drain, of a cancel request or of another client of the store, so that a list of events is one
  interleaving. A claim is the transaction \<open>ClaimPendingExecution\<close> of the store; contexts are numbered in the order of their
  creation. The workers of a runner share its identifier. Deleting the project of a run in progress is left out.

  The invariant of the pool says that no two workers hold the same run, that the wait group counts the workers between
  \<open>wg.Add\<close> and \<open>wg.Done\<close>, and that the map of cancel functions is exactly that of the registered runs. The lemmas on shutdown
  show that the pool stops once it is told to, and which runs it can leave behind.
\<close>

section \<open>Workers\<close>

type_synonym exec_key = "uuid \<times> int"

datatype worker_phase =
    AtTop
  | Claiming
  | Idle
  | Retrying
  | Holding exec_key
  | Counted exec_key
  | Registered exec_key nat
  | RunReturned exec_key nat
  | Unregistered
  | Stopped

datatype drain_phase = NotDraining | WaitingForRuns | RunsCancelled | Drained

record pool =
  pl_workerID :: string
  pl_db :: db
  pl_workers :: "worker_phase list"
  pl_cancels :: "(exec_key \<times> nat) list"
  pl_contexts :: nat
  pl_cancelled :: "nat list"
  pl_stop :: bool
  pl_wg :: int
  pl_drain :: drain_phase

datatype pool_event =
    LoopTop nat
  | ClaimNext nat go_time
  | ClaimBroken nat store_error
  | TimerFired nat
  | StopSeen nat
  | SleepOver nat
  | AddToGroup nat
  | RegisterRun nat
  | RunEnds nat
  | UnregisterRun nat
  | GroupDone nat
  | CancelRun exec_key
  | CloseStop
  | DrainTimeout
  | DrainReturns
  | OtherCreate execution
  | OtherUpdate execution

definition worker_at :: "pool \<Rightarrow> nat \<Rightarrow> worker_phase option" where
  "worker_at s w = (if w < length (pl_workers s) then Some (pl_workers s ! w) else None)"

definition go_to :: "nat \<Rightarrow> worker_phase \<Rightarrow> pool \<Rightarrow> pool" where
  "go_to w ph s = s\<lparr>pl_workers := (pl_workers s)[w := ph]\<rparr>"

definition StartPool :: "string \<Rightarrow> nat \<Rightarrow> db \<Rightarrow> pool" where
  "StartPool workerID workers d =
     \<lparr>pl_workerID = workerID, pl_db = d, pl_workers = replicate workers AtTop, pl_cancels = [], pl_contexts = 0,
      pl_cancelled = [], pl_stop = False, pl_wg = 0, pl_drain = NotDraining\<rparr>"

section \<open>Actions\<close>

definition claim_next :: "nat \<Rightarrow> go_time \<Rightarrow> pool \<Rightarrow> pool" where
  "claim_next w now s =
     (case ClaimPendingExecution (pl_workerID s) now (pl_db s) of
        (Inl ErrNotFound, d) \<Rightarrow> go_to w Idle (s\<lparr>pl_db := d\<rparr>)
      | (Inl e, d) \<Rightarrow> go_to w Retrying (s\<lparr>pl_db := d\<rparr>)
      | (Inr e, d) \<Rightarrow> go_to w (Holding (e_ProjectID e, e_ID e)) (s\<lparr>pl_db := d\<rparr>))"

definition registerCancel :: "exec_key \<Rightarrow> nat \<Rightarrow> pool \<Rightarrow> pool" where
  "registerCancel k c s = s\<lparr>pl_cancels := AList.update k c (pl_cancels s)\<rparr>"

definition unregisterCancel :: "exec_key \<Rightarrow> pool \<Rightarrow> pool" where
  "unregisterCancel k s = s\<lparr>pl_cancels := AList.delete k (pl_cancels s)\<rparr>"

definition cancel_run :: "exec_key \<Rightarrow> pool \<Rightarrow> pool" where
  "cancel_run k s =
     (case map_of (pl_cancels s) k of None \<Rightarrow> s | Some c \<Rightarrow> s\<lparr>pl_cancelled := pl_cancelled s @ [c]\<rparr>)"

definition cancelAll :: "pool \<Rightarrow> pool" where
  "cancelAll s = s\<lparr>pl_cancelled := pl_cancelled s @ map snd (pl_cancels s)\<rparr>"

fun pool_fire :: "pool_event \<Rightarrow> pool \<Rightarrow> pool option" where
  "pool_fire (LoopTop w) s =
     (case worker_at s w of
        Some AtTop \<Rightarrow> Some (go_to w (if pl_stop s then Stopped else Claiming) s) | _ \<Rightarrow> None)"
| "pool_fire (ClaimNext w now) s =
     (case worker_at s w of Some Claiming \<Rightarrow> Some (claim_next w now s) | _ \<Rightarrow> None)"
| "pool_fire (ClaimBroken w e) s =
     (case worker_at s w of
        Some Claiming \<Rightarrow> if e = ErrNotFound then None else Some (go_to w Retrying s) | _ \<Rightarrow> None)"
| "pool_fire (TimerFired w) s = (case worker_at s w of Some Idle \<Rightarrow> Some (go_to w AtTop s) | _ \<Rightarrow> None)"
| "pool_fire (StopSeen w) s =
     (case worker_at s w of Some Idle \<Rightarrow> if pl_stop s then Some (go_to w Stopped s) else None | _ \<Rightarrow> None)"
| "pool_fire (SleepOver w) s = (case worker_at s w of Some Retrying \<Rightarrow> Some (go_to w AtTop s) | _ \<Rightarrow> None)"
| "pool_fire (AddToGroup w) s =
     (case worker_at s w of
        Some (Holding k) \<Rightarrow> Some (go_to w (Counted k) (s\<lparr>pl_wg := pl_wg s + 1\<rparr>)) | _ \<Rightarrow> None)"
| "pool_fire (RegisterRun w) s =
     (case worker_at s w of
        Some (Counted k) \<Rightarrow>
          (let c = pl_contexts s
           in Some (go_to w (Registered k c) (registerCancel k c (s\<lparr>pl_contexts := Suc c\<rparr>))))
      | _ \<Rightarrow> None)"
| "pool_fire (RunEnds w) s =
     (case worker_at s w of
        Some (Registered k c) \<Rightarrow> Some (go_to w (RunReturned k c) (s\<lparr>pl_cancelled := pl_cancelled s @ [c]\<rparr>)) | _ \<Rightarrow> None)"
| "pool_fire (UnregisterRun w) s =
     (case worker_at s w of
        Some (RunReturned k c) \<Rightarrow> Some (go_to w Unregistered (unregisterCancel k s)) | _ \<Rightarrow> None)"
| "pool_fire (GroupDone w) s =
     (case worker_at s w of
        Some Unregistered \<Rightarrow> Some (go_to w AtTop (s\<lparr>pl_wg := pl_wg s - 1\<rparr>)) | _ \<Rightarrow> None)"
| "pool_fire (CancelRun k) s = Some (cancel_run k s)"
| "pool_fire CloseStop s =
     (if pl_drain s = NotDraining then Some (s\<lparr>pl_stop := True, pl_drain := WaitingForRuns\<rparr>) else None)"
| "pool_fire DrainTimeout s =
     (if pl_drain s = WaitingForRuns then Some (cancelAll (s\<lparr>pl_drain := RunsCancelled\<rparr>)) else None)"
| "pool_fire DrainReturns s =
     (if pl_drain s \<in> {WaitingForRuns, RunsCancelled} \<and> pl_wg s = 0 then Some (s\<lparr>pl_drain := Drained\<rparr>) else None)"
| "pool_fire (OtherCreate e) s = Some (s\<lparr>pl_db := snd (CreateExecution e (pl_db s))\<rparr>)"
| "pool_fire (OtherUpdate e) s =
     (if e_Status e = StatusPending then None else Some (s\<lparr>pl_db := snd (UpdateExecution e (pl_db s))\<rparr>))"

fun pool_fires :: "pool_event list \<Rightarrow> pool \<Rightarrow> pool option" where
  "pool_fires [] s = Some s"
| "pool_fires (e # es) s = Option.bind (pool_fire e s) (pool_fires es)"

fun event_worker :: "pool_event \<Rightarrow> nat option" where
  "event_worker (LoopTop w) = Some w"
| "event_worker (ClaimNext w _) = Some w"
| "event_worker (ClaimBroken w _) = Some w"
| "event_worker (TimerFired w) = Some w"
| "event_worker (StopSeen w) = Some w"
| "event_worker (SleepOver w) = Some w"
| "event_worker (AddToGroup w) = Some w"
| "event_worker (RegisterRun w) = Some w"
| "event_worker (RunEnds w) = Some w"
| "event_worker (UnregisterRun w) = Some w"
| "event_worker (GroupDone w) = Some w"
| "event_worker _ = None"

section \<open>Who holds what\<close>

fun held_key :: "worker_phase \<Rightarrow> exec_key list" where
  "held_key (Holding k) = [k]"
| "held_key (Counted k) = [k]"
| "held_key (Registered k _) = [k]"
| "held_key (RunReturned k _) = [k]"
| "held_key _ = []"

fun in_group :: "worker_phase \<Rightarrow> bool" where
  "in_group (Counted _) = True"
| "in_group (Registered _ _) = True"
| "in_group (RunReturned _ _) = True"
| "in_group Unregistered = True"
| "in_group _ = False"

fun registration :: "worker_phase \<Rightarrow> (exec_key \<times> nat) list" where
  "registration (Registered k c) = [(k, c)]"
| "registration (RunReturned k c) = [(k, c)]"
| "registration _ = []"

definition held :: "pool \<Rightarrow> exec_key list" where
  "held s = concat (map held_key (pl_workers s))"

definition registered :: "pool \<Rightarrow> (exec_key \<times> nat) list" where
  "registered s = concat (map registration (pl_workers s))"

definition pool_inv :: "pool \<Rightarrow> bool" where
  "pool_inv s \<longleftrightarrow>
     db_ok (pl_db s)
     \<and> distinct (held s) \<and> (\<forall>k \<in> set (held s). claimed_key (pl_db s) k)
     \<and> pl_wg s = int (length (filter in_group (pl_workers s)))
     \<and> mset (pl_cancels s) = mset (registered s)
     \<and> distinct (map snd (registered s)) \<and> (\<forall>(k, c) \<in> set (registered s). c < pl_contexts s)"

section \<open>The invariant\<close>

lemma concat_map_update:
  assumes "w < length xs"
  shows "mset (concat (map f (xs[w := q])) @ f (xs ! w)) = mset (concat (map f xs) @ f q)"
  by (subst (3) id_take_nth_drop [OF assms]) (simp add: upd_conv_take_nth_drop [OF assms])

lemma filter_update:
  assumes "w < length xs"
  shows "length (filter P (xs[w := q])) + (if P (xs ! w) then 1 else 0) = length (filter P xs) + (if P q then 1 else 0)"
  by (subst (3) id_take_nth_drop [OF assms]) (simp add: upd_conv_take_nth_drop [OF assms])

lemma go_to_simps [simp]:
  "pl_workers (go_to w q s) = (pl_workers s)[w := q]" "pl_db (go_to w q s) = pl_db s" "pl_cancels (go_to w q s) = pl_cancels s"
  "pl_contexts (go_to w q s) = pl_contexts s" "pl_cancelled (go_to w q s) = pl_cancelled s" "pl_stop (go_to w q s) = pl_stop s"
  "pl_wg (go_to w q s) = pl_wg s" "pl_drain (go_to w q s) = pl_drain s" "pl_workerID (go_to w q s) = pl_workerID s"
  by (simp_all add: go_to_def)

lemma worker_at_Some: "worker_at s w = Some p \<longleftrightarrow> w < length (pl_workers s) \<and> pl_workers s ! w = p"
  by (auto simp: worker_at_def)

lemma go_to_moves:
  assumes "worker_at s w = Some p"
  shows "mset (held (go_to w q s) @ held_key p) = mset (held s @ held_key q)"
    "mset (registered (go_to w q s) @ registration p) = mset (registered s @ registration q)"
    "length (filter in_group (pl_workers (go_to w q s))) + (if in_group p then 1 else 0)
      = length (filter in_group (pl_workers s)) + (if in_group q then 1 else 0)"
  using assms concat_map_update [of w "pl_workers s" held_key q] concat_map_update [of w "pl_workers s" registration q]
    filter_update [of w "pl_workers s" in_group q]
  by (simp_all add: worker_at_Some held_def registered_def)

lemma same_mset:
  assumes "mset xs = mset ys"
  shows "distinct xs = distinct ys" "set xs = set ys" "distinct (map f xs) = distinct (map f ys)"
proof -
  have "mset (map f xs) = mset (map f ys)" using assms by simp
  then show "distinct xs = distinct ys" "set xs = set ys" "distinct (map f xs) = distinct (map f ys)"
    using assms by (blast dest: mset_eq_imp_distinct_iff mset_eq_setD)+
qed

text \<open>A move that neither takes nor releases anything keeps the invariant.\<close>

lemma go_to_same:
  assumes "worker_at s w = Some p" "held_key p = held_key q" "registration p = registration q" "in_group p = in_group q" "pool_inv s"
  shows "pool_inv (go_to w q s)"
proof -
  have h: "mset (held (go_to w q s)) = mset (held s)" and r: "mset (registered (go_to w q s)) = mset (registered s)"
    and g: "length (filter in_group (pl_workers (go_to w q s))) = length (filter in_group (pl_workers s))"
    using go_to_moves [OF assms(1), of q] assms(2-4) by (simp_all split: if_splits)
  from same_mset(1,2) [OF h] same_mset(2) [OF r] same_mset(3) [OF r, of snd] g r assms(5) show ?thesis by (simp add: pool_inv_def del: go_to_simps(1))
qed

lemma pool_inv_db:
  assumes "pool_inv s" "db_ok d" "\<And>k. claimed_key (pl_db s) k \<Longrightarrow> claimed_key d k"
  shows "pool_inv (s\<lparr>pl_db := d\<rparr>)"
  using assms by (simp add: pool_inv_def held_def registered_def)

lemma pool_frames [simp]:
  "held (s\<lparr>pl_db := d\<rparr>) = held s" "held (s\<lparr>pl_wg := n\<rparr>) = held s" "held (s\<lparr>pl_cancels := cs\<rparr>) = held s"
  "held (s\<lparr>pl_contexts := c\<rparr>) = held s" "held (s\<lparr>pl_cancelled := xs\<rparr>) = held s" "held (s\<lparr>pl_stop := b\<rparr>) = held s"
  "held (s\<lparr>pl_drain := ph\<rparr>) = held s"
  "registered (s\<lparr>pl_db := d\<rparr>) = registered s" "registered (s\<lparr>pl_wg := n\<rparr>) = registered s" "registered (s\<lparr>pl_cancels := cs\<rparr>) = registered s"
  "registered (s\<lparr>pl_contexts := c\<rparr>) = registered s" "registered (s\<lparr>pl_cancelled := xs\<rparr>) = registered s"
  "registered (s\<lparr>pl_stop := b\<rparr>) = registered s" "registered (s\<lparr>pl_drain := ph\<rparr>) = registered s"
  by (simp_all add: held_def registered_def)

lemma worker_at_frames [simp]:
  "worker_at (s\<lparr>pl_db := d\<rparr>) w = worker_at s w" "worker_at (s\<lparr>pl_wg := n\<rparr>) w = worker_at s w"
  "worker_at (s\<lparr>pl_cancels := cs\<rparr>) w = worker_at s w" "worker_at (s\<lparr>pl_contexts := c\<rparr>) w = worker_at s w"
  "worker_at (s\<lparr>pl_cancelled := xs\<rparr>) w = worker_at s w"
  by (simp_all add: worker_at_def)

lemma pool_inv_frames [simp]:
  "pool_inv (s\<lparr>pl_cancelled := xs\<rparr>) = pool_inv s" "pool_inv (s\<lparr>pl_stop := b\<rparr>) = pool_inv s" "pool_inv (s\<lparr>pl_drain := ph\<rparr>) = pool_inv s"
  "pool_inv (s\<lparr>pl_stop := b, pl_drain := ph\<rparr>) = pool_inv s"
  by (simp_all add: pool_inv_def)

lemma pool_inv_claim:
  assumes "worker_at s w = Some Claiming" "pool_inv s"
  shows "pool_inv (claim_next w now s)"
proof -
  obtain r d where c: "ClaimPendingExecution (pl_workerID s) now (pl_db s) = (r, d)" by fastforce
  have ok: "db_ok (pl_db s)" using assms(2) by (simp add: pool_inv_def)
  note claims = ClaimPendingExecution_claims [OF ok c]
  have inv: "pool_inv (s\<lparr>pl_db := d\<rparr>)" using pool_inv_db [OF assms(2) claims(1,2)] .
  have at: "worker_at (s\<lparr>pl_db := d\<rparr>) w = Some Claiming" using assms(1) by simp
  show ?thesis
  proof (cases r)
    case (Inl e)
    then show ?thesis
      using go_to_same [OF at, of Idle] go_to_same [OF at, of Retrying] inv by (cases e) (simp_all add: claim_next_def c)
  next
    case (Inr e)
    let ?k = "(e_ProjectID e, e_ID e)" and ?s = "s\<lparr>pl_db := d\<rparr>"
    let ?t = "go_to w (Holding ?k) ?s"
    have h: "mset (held ?t) = mset (?k # held s)" and r: "mset (registered ?t) = mset (registered s)"
      and g: "length (filter in_group (pl_workers ?t)) = length (filter in_group (pl_workers s))"
      using go_to_moves [OF at, of "Holding ?k"] by simp_all
    have "?k \<notin> set (held s)" using claims(3) [OF Inr] assms(2) by (auto simp: pool_inv_def)
    then have "distinct (held ?t)" "set (held ?t) = insert ?k (set (held s))"
      using same_mset [OF h] assms(2) by (simp_all add: pool_inv_def)
    with same_mset(2) [OF r] same_mset(3) [OF r, of snd] have "pool_inv ?t"
      using inv claims(3) [OF Inr] r g by (simp add: pool_inv_def del: go_to_simps(1))
    then show ?thesis by (simp add: claim_next_def c Inr)
  qed
qed

fun waiting_key :: "worker_phase \<Rightarrow> exec_key list" where
  "waiting_key (Holding k) = [k]"
| "waiting_key (Counted k) = [k]"
| "waiting_key _ = []"

lemma held_split: "mset (held s) = mset (map fst (registered s) @ concat (map waiting_key (pl_workers s)))"
proof -
  have "mset (held_key p) = mset (map fst (registration p) @ waiting_key p)" for p by (cases p) simp_all
  then have "mset (concat (map held_key ps)) = mset (map fst (concat (map registration ps)) @ concat (map waiting_key ps))" for ps
    by (induction ps) (simp_all del: mset_map add: union_ac)
  then show ?thesis by (simp add: held_def registered_def del: mset_map)
qed

lemma registered_distinct:
  assumes "pool_inv s"
  shows "distinct (map fst (registered s))" "worker_at s w = Some (Counted k) \<Longrightarrow> k \<notin> set (map fst (registered s))"
proof -
  let ?ws = "concat (map waiting_key (pl_workers s))"
  have d: "distinct (map fst (registered s) @ ?ws)"
    using assms same_mset(1) [OF held_split [of s]] by (simp add: pool_inv_def)
  then show "distinct (map fst (registered s))" by simp
  assume "worker_at s w = Some (Counted k)"
  then have "k \<in> set ?ws" by (force simp: worker_at_Some in_set_conv_nth)
  with d show "k \<notin> set (map fst (registered s))" by auto
qed

lemma set_cancels: "pool_inv s \<Longrightarrow> set (pl_cancels s) = set (registered s)"
  unfolding pool_inv_def by (metis mset_eq_setD)

lemma pool_invI:
  "db_ok (pl_db s) \<Longrightarrow> distinct (held s) \<Longrightarrow> (\<And>k. k \<in> set (held s) \<Longrightarrow> claimed_key (pl_db s) k)
    \<Longrightarrow> pl_wg s = int (length (filter in_group (pl_workers s))) \<Longrightarrow> mset (pl_cancels s) = mset (registered s)
    \<Longrightarrow> distinct (map snd (registered s)) \<Longrightarrow> (\<And>k c. (k, c) \<in> set (registered s) \<Longrightarrow> c < pl_contexts s) \<Longrightarrow> pool_inv s"
  by (auto simp: pool_inv_def)

lemma pool_invD:
  assumes "pool_inv s"
  shows "db_ok (pl_db s)" "distinct (held s)" "k \<in> set (held s) \<Longrightarrow> claimed_key (pl_db s) k"
    "pl_wg s = int (length (filter in_group (pl_workers s)))" "mset (pl_cancels s) = mset (registered s)"
    "distinct (map snd (registered s))" "(k, c) \<in> set (registered s) \<Longrightarrow> c < pl_contexts s"
  using assms by (auto simp: pool_inv_def)

lemma AList_update_fresh: "k \<notin> fst ` set al \<Longrightarrow> AList.update k v al = al @ [(k, v)]"
  by (induction al) auto

lemma pool_inv_add:
  assumes "worker_at s w = Some (Holding k)" "pool_inv s"
  shows "pool_inv (go_to w (Counted k) (s\<lparr>pl_wg := pl_wg s + 1\<rparr>))"
proof -
  let ?t = "go_to w (Counted k) (s\<lparr>pl_wg := pl_wg s + 1\<rparr>)"
  have at: "worker_at (s\<lparr>pl_wg := pl_wg s + 1\<rparr>) w = Some (Holding k)" using assms(1) by simp
  have h: "mset (held ?t) = mset (held s)" and r: "mset (registered ?t) = mset (registered s)"
    and g: "length (filter in_group (pl_workers ?t)) = length (filter in_group (pl_workers s)) + 1"
    using go_to_moves [OF at, of "Counted k"] by simp_all
  from same_mset(1,2) [OF h] same_mset(2) [OF r] same_mset(3) [OF r, of snd] g r assms(2) show ?thesis by (simp add: pool_inv_def del: go_to_simps(1))
qed

lemma pool_inv_done:
  assumes "worker_at s w = Some Unregistered" "pool_inv s"
  shows "pool_inv (go_to w AtTop (s\<lparr>pl_wg := pl_wg s - 1\<rparr>))"
proof -
  let ?t = "go_to w AtTop (s\<lparr>pl_wg := pl_wg s - 1\<rparr>)"
  have at: "worker_at (s\<lparr>pl_wg := pl_wg s - 1\<rparr>) w = Some Unregistered" using assms(1) by simp
  have h: "mset (held ?t) = mset (held s)" and r: "mset (registered ?t) = mset (registered s)"
    and g: "length (filter in_group (pl_workers ?t)) + 1 = length (filter in_group (pl_workers s))"
    using go_to_moves [OF at, of AtTop] by simp_all
  from same_mset(1,2) [OF h] same_mset(2) [OF r] same_mset(3) [OF r, of snd] g [symmetric] r assms(2) show ?thesis by (simp add: pool_inv_def del: go_to_simps(1))
qed

lemma pool_inv_register:
  assumes "worker_at s w = Some (Counted k)" "pool_inv s"
  shows "pool_inv (go_to w (Registered k (pl_contexts s)) (registerCancel k (pl_contexts s) (s\<lparr>pl_contexts := Suc (pl_contexts s)\<rparr>)))"
proof -
  let ?c = "pl_contexts s"
  let ?u = "registerCancel k ?c (s\<lparr>pl_contexts := Suc ?c\<rparr>)"
  let ?t = "go_to w (Registered k ?c) ?u"
  have at: "worker_at ?u w = Some (Counted k)" using assms(1) by (simp add: registerCancel_def)
  have h: "mset (held ?t) = mset (held s)" and r: "mset (registered ?t) = mset ((k, ?c) # registered s)"
    and g: "length (filter in_group (pl_workers ?t)) = length (filter in_group (pl_workers s))"
    using go_to_moves [OF at, of "Registered k ?c"] by (simp_all add: registerCancel_def)
  have fresh: "k \<notin> fst ` set (pl_cancels s)"
    using registered_distinct(2) [OF assms(2,1)] set_cancels [OF assms(2)] by simp
  have cs: "pl_cancels ?t = pl_cancels s @ [(k, ?c)]" using AList_update_fresh [OF fresh] by (simp add: registerCancel_def)
  have "distinct (map snd ((k, ?c) # registered s))" using assms(2) by (auto simp: pool_inv_def)
  then have d: "distinct (map snd (registered ?t))" unfolding same_mset(3) [OF r] .
  have st: "set (registered ?t) = insert (k, ?c) (set (registered s))" using same_mset(2) [OF r] by simp
  have u: "pl_db ?t = pl_db s" "pl_wg ?t = pl_wg s" "pl_contexts ?t = Suc ?c" by (simp_all add: registerCancel_def)
  show ?thesis
  proof (rule pool_invI)
    show "c < pl_contexts ?t" if "(k', c) \<in> set (registered ?t)" for k' c
      using that pool_invD(7) [OF assms(2), of k' c] unfolding st u by auto
    show "pl_wg ?t = int (length (filter in_group (pl_workers ?t)))" unfolding u g by (rule pool_invD(4) [OF assms(2)])
    show "mset (pl_cancels ?t) = mset (registered ?t)" unfolding cs r using pool_invD(5) [OF assms(2)] by simp
  qed (use d same_mset [OF h] pool_invD(1-3) [OF assms(2)] in \<open>simp_all only: u\<close>)
qed

lemma pool_inv_unregister:
  assumes "worker_at s w = Some (RunReturned k c)" "pool_inv s"
  shows "pool_inv (go_to w Unregistered (unregisterCancel k s))"
proof -
  let ?t = "go_to w Unregistered (unregisterCancel k s)"
  have at: "worker_at (unregisterCancel k s) w = Some (RunReturned k c)" using assms(1) by (simp add: unregisterCancel_def)
  have h: "mset (k # held ?t) = mset (held s)" and r: "mset ((k, c) # registered ?t) = mset (registered s)"
    and g: "length (filter in_group (pl_workers ?t)) = length (filter in_group (pl_workers s))"
    using go_to_moves [OF at, of Unregistered] by (simp_all add: unregisterCancel_def)
  have d: "distinct (map fst ((k, c) # registered ?t))"
    using same_mset(3) [OF r, of fst] registered_distinct(1) [OF assms(2)] by blast
  have "mset (pl_cancels ?t) = filter_mset (\<lambda>x. fst x \<noteq> k) (mset (pl_cancels s))"
    by (simp add: unregisterCancel_def AList.delete_eq case_prod_beta eq_commute)
  also have "\<dots> = filter_mset (\<lambda>x. fst x \<noteq> k) (mset ((k, c) # registered ?t))" using r assms(2) by (simp add: pool_inv_def)
  also have "\<dots> = mset (registered ?t)" using d by (auto simp: filter_mset_eq_conv)
  finally have cs: "mset (pl_cancels ?t) = mset (registered ?t)" .
  have dh: "distinct (k # held ?t)" "set (held s) = insert k (set (held ?t))"
    using same_mset [OF h] pool_invD(2) [OF assms(2)] by (blast, simp)
  have ds: "distinct (map snd ((k, c) # registered ?t))" using same_mset(3) [OF r, of snd] pool_invD(6) [OF assms(2)] by blast
  have "set (registered s) = insert (k, c) (set (registered ?t))" using same_mset(2) [OF r] by simp
  with pool_invD(7) [OF assms(2)] have ctx: "(k', c') \<in> set (registered ?t) \<Longrightarrow> c' < pl_contexts s" for k' c' by blast
  have u: "pl_db ?t = pl_db s" "pl_wg ?t = pl_wg s" "pl_contexts ?t = pl_contexts s" by (simp_all add: unregisterCancel_def)
  show ?thesis
  proof (rule pool_invI)
    show "pl_wg ?t = int (length (filter in_group (pl_workers ?t)))" unfolding u g by (rule pool_invD(4) [OF assms(2)])
  qed (use dh ds cs ctx pool_invD(1,3) [OF assms(2)] in \<open>simp_all only: u\<close>, auto)
qed

lemma pool_fire_inv:
  assumes "pool_fire e s = Some s'" "pool_inv s"
  shows "pool_inv s'"
proof (cases e)
  case (LoopTop w)
  with assms go_to_same [of s w AtTop] show ?thesis by (auto split: option.splits worker_phase.splits)
next
  case (ClaimNext w now)
  with assms pool_inv_claim show ?thesis by (auto split: option.splits worker_phase.splits)
next
  case (ClaimBroken w err)
  with assms go_to_same [of s w Claiming] show ?thesis by (auto split: option.splits worker_phase.splits if_splits)
next
  case (TimerFired w)
  with assms go_to_same [of s w Idle] show ?thesis by (auto split: option.splits worker_phase.splits)
next
  case (StopSeen w)
  with assms go_to_same [of s w Idle] show ?thesis by (auto split: option.splits worker_phase.splits if_splits)
next
  case (SleepOver w)
  with assms go_to_same [of s w Retrying] show ?thesis by (auto split: option.splits worker_phase.splits)
next
  case (AddToGroup w)
  with assms pool_inv_add show ?thesis by (auto split: option.splits worker_phase.splits)
next
  case (RegisterRun w)
  with assms pool_inv_register show ?thesis by (auto simp: Let_def split: option.splits worker_phase.splits)
next
  case (RunEnds w)
  then obtain k c where w: "worker_at s w = Some (Registered k c)"
    "s' = go_to w (RunReturned k c) (s\<lparr>pl_cancelled := pl_cancelled s @ [c]\<rparr>)"
    using assms(1) by (auto split: option.splits worker_phase.splits)
  then show ?thesis unfolding w(2) by (intro go_to_same [where p = "Registered k c"]) (use assms(2) in simp_all)
next
  case (UnregisterRun w)
  with assms pool_inv_unregister show ?thesis by (auto split: option.splits worker_phase.splits)
next
  case (GroupDone w)
  with assms pool_inv_done show ?thesis by (auto split: option.splits worker_phase.splits)
next
  case (OtherCreate x)
  obtain r d where c: "CreateExecution x (pl_db s) = (r, d)" by fastforce
  have "db_ok d" using CreateExecution_ok [OF pool_invD(1) [OF assms(2)], of x] c by simp
  then show ?thesis using pool_inv_db [OF assms(2) _ claimed_key_create [OF c]] OtherCreate assms(1) c by auto
next
  case (OtherUpdate x)
  obtain r d where u: "UpdateExecution x (pl_db s) = (r, d)" by fastforce
  have "db_ok d" using UpdateExecution_ok [OF pool_invD(1) [OF assms(2)], of x] u by simp
  then show ?thesis using pool_inv_db [OF assms(2) _ claimed_key_finish [OF u]] OtherUpdate assms(1) u by (auto split: if_splits)
qed (use assms in \<open>auto simp: cancel_run_def cancelAll_def split: if_splits option.splits\<close>)

lemma pool_fires_inv: "pool_fires es s = Some s' \<Longrightarrow> pool_inv s \<Longrightarrow> pool_inv s'"
proof (induction es arbitrary: s)
  case (Cons e es)
  then obtain t where t: "pool_fire e s = Some t" "pool_fires es t = Some s'" by (auto simp: bind_eq_Some_conv)
  from Cons.IH [OF t(2) pool_fire_inv [OF t(1) Cons.prems(2)]] show ?case .
qed simp

lemma StartPool_inv: "db_ok d \<Longrightarrow> pool_inv (StartPool i n d)"
  by (induction n) (simp_all add: pool_inv_def StartPool_def held_def registered_def)

section \<open>Shutdown\<close>

text \<open>How many actions a worker has left once the pool is told to stop.\<close>

fun actions_left :: "worker_phase \<Rightarrow> nat" where
  "actions_left Stopped = 0"
| "actions_left AtTop = 1"
| "actions_left Idle = 2"
| "actions_left Retrying = 2"
| "actions_left Unregistered = 2"
| "actions_left (RunReturned _ _) = 3"
| "actions_left (Registered _ _) = 4"
| "actions_left (Counted _) = 5"
| "actions_left (Holding _) = 6"
| "actions_left Claiming = 7"

definition pool_actions_left :: "pool \<Rightarrow> nat" where
  "pool_actions_left s = sum_list (map actions_left (pl_workers s))"

lemma pool_actions_go_to:
  assumes "worker_at s w = Some p" "pl_workers t = pl_workers s"
  shows "pool_actions_left (go_to w q t) + actions_left p = pool_actions_left s + actions_left q"
  using assms sum_list_update_nat [of w "pl_workers s" actions_left q] by (simp add: pool_actions_left_def worker_at_Some)

lemma claim_next_moves:
  obtains q d where "claim_next w now s = go_to w q (s\<lparr>pl_db := d\<rparr>)" "actions_left q < actions_left Claiming" "q \<noteq> Claiming"
proof -
  obtain r d where c: "ClaimPendingExecution (pl_workerID s) now (pl_db s) = (r, d)" by fastforce
  show thesis
  proof (cases r)
    case (Inl e)
    with c that [of Idle d] that [of Retrying d] show thesis by (cases e) (simp_all add: claim_next_def)
  next
    case (Inr e)
    with c that [of "Holding (e_ProjectID e, e_ID e)" d] show thesis by (simp add: claim_next_def)
  qed
qed

lemma worker_move:
  assumes "pool_fire e s = Some s'" "event_worker e = Some w"
  obtains p q t where "worker_at s w = Some p" "s' = go_to w q t" "pl_workers t = pl_workers s" "pl_stop t = pl_stop s"
    "pl_drain t = pl_drain s" "(\<exists>now. e = ClaimNext w now) \<longrightarrow> p = Claiming"
    "pl_stop s \<longrightarrow> actions_left q < actions_left p \<and> q \<noteq> Claiming"
proof -
  have "\<exists>p q t. worker_at s w = Some p \<and> s' = go_to w q t \<and> pl_workers t = pl_workers s \<and> pl_stop t = pl_stop s
    \<and> pl_drain t = pl_drain s \<and> ((\<exists>now. e = ClaimNext w now) \<longrightarrow> p = Claiming)
    \<and> (pl_stop s \<longrightarrow> actions_left q < actions_left p \<and> q \<noteq> Claiming)"
  proof (cases e)
    case (ClaimNext v now)
    with assms have at: "worker_at s w = Some Claiming" and s': "s' = claim_next w now s"
      by (auto split: option.splits worker_phase.splits)
    obtain q d where "claim_next w now s = go_to w q (s\<lparr>pl_db := d\<rparr>)" "actions_left q < actions_left Claiming" "q \<noteq> Claiming"
      by (rule claim_next_moves)
    with at s' show ?thesis by (intro exI [of _ Claiming] exI [of _ q] exI [of _ "s\<lparr>pl_db := d\<rparr>"]) simp
  next
    case (LoopTop v)
    with assms have "worker_at s w = Some AtTop" "s' = go_to w (if pl_stop s then Stopped else Claiming) s"
      by (auto split: option.splits worker_phase.splits)
    with LoopTop show ?thesis by (intro exI [of _ AtTop] exI [of _ "if pl_stop s then Stopped else Claiming"] exI [of _ s]) simp
  next
    case (ClaimBroken v err)
    with assms have "worker_at s w = Some Claiming" "s' = go_to w Retrying s" by (auto split: option.splits worker_phase.splits if_splits)
    with ClaimBroken show ?thesis by (intro exI [of _ Claiming] exI [of _ Retrying] exI [of _ s]) simp
  next
    case (RegisterRun v)
    with assms obtain k where "worker_at s w = Some (Counted k)"
      "s' = go_to w (Registered k (pl_contexts s)) (registerCancel k (pl_contexts s) (s\<lparr>pl_contexts := Suc (pl_contexts s)\<rparr>))"
      by (auto simp: Let_def split: option.splits worker_phase.splits)
    with RegisterRun show ?thesis
      by (intro exI [of _ "Counted k"] exI [of _ "Registered k (pl_contexts s)"]
          exI [of _ "registerCancel k (pl_contexts s) (s\<lparr>pl_contexts := Suc (pl_contexts s)\<rparr>)"]) (simp add: registerCancel_def)
  qed (use assms in \<open>force simp: unregisterCancel_def split: option.splits worker_phase.splits if_splits\<close>)+
  then show thesis using that by metis
qed

lemma other_move:
  "pool_fire e s = Some s' \<Longrightarrow> event_worker e = None \<Longrightarrow> pl_workers s' = pl_workers s \<and> (pl_stop s \<longrightarrow> pl_stop s')"
  by (cases e) (auto simp: cancel_run_def cancelAll_def split: if_splits option.splits)

lemma stop_iff_draining:
  "pool_fire e s = Some s' \<Longrightarrow> pl_stop s = (pl_drain s \<noteq> NotDraining) \<Longrightarrow> pl_stop s' = (pl_drain s' \<noteq> NotDraining)"
proof (cases "event_worker e")
  case None
  assume "pool_fire e s = Some s'" "pl_stop s = (pl_drain s \<noteq> NotDraining)"
  with None show ?thesis by (cases e) (auto simp: cancel_run_def cancelAll_def split: if_splits option.splits)
next
  case (Some w)
  assume "pool_fire e s = Some s'" "pl_stop s = (pl_drain s \<noteq> NotDraining)"
  from worker_move [OF this(1) Some] this(2) show ?thesis by (metis go_to_simps(6,8))
qed

lemma fires_keep:
  "pool_fires es s = Some s' \<Longrightarrow> length (pl_workers s') = length (pl_workers s) \<and> (pl_stop s \<longrightarrow> pl_stop s')
    \<and> (pl_stop s = (pl_drain s \<noteq> NotDraining) \<longrightarrow> pl_stop s' = (pl_drain s' \<noteq> NotDraining))"
proof (induction es arbitrary: s)
  case (Cons e es)
  then obtain t where t: "pool_fire e s = Some t" "pool_fires es t = Some s'" by (auto simp: bind_eq_Some_conv)
  have "length (pl_workers t) = length (pl_workers s) \<and> (pl_stop s \<longrightarrow> pl_stop t)"
  proof (cases "event_worker e")
    case None
    with other_move [OF t(1)] show ?thesis by simp
  next
    case (Some w)
    from worker_move [OF t(1) Some] show ?thesis by (metis go_to_simps(1,6) length_list_update)
  qed
  with Cons.IH [OF t(2)] stop_iff_draining [OF t(1)] show ?case by auto
qed simp

fun claim_of :: "nat \<Rightarrow> pool_event \<Rightarrow> bool" where
  "claim_of w (ClaimNext v _) = (v = w)"
| "claim_of w _ = False"

lemma claim_of_iff: "claim_of w e \<longleftrightarrow> (\<exists>now. e = ClaimNext w now)"
  by (cases e) auto

lemma claims_after_stop:
  "pool_fires es s = Some s' \<Longrightarrow> pl_stop s \<Longrightarrow> length (filter (claim_of w) es) \<le> (if worker_at s w = Some Claiming then 1 else 0)"
proof (induction es arbitrary: s)
  case (Cons e es)
  then obtain t where t: "pool_fire e s = Some t" "pool_fires es t = Some s'" by (auto simp: bind_eq_Some_conv)
  have stop: "pl_stop t" using fires_keep [of "[e]" s t] t(1) Cons.prems(2) by simp
  note IH = Cons.IH [OF t(2) stop]
  show ?case
  proof (cases "event_worker e")
    case None
    then have "\<not> claim_of w e" by (auto simp: claim_of_iff)
    moreover have "worker_at t w = worker_at s w" using other_move [OF t(1) None] by (simp add: worker_at_def)
    ultimately show ?thesis using IH by simp
  next
    case (Some v)
    from worker_move [OF t(1) Some] obtain p q u where m: "worker_at s v = Some p" "t = go_to v q u" "pl_workers u = pl_workers s"
      "(\<exists>now. e = ClaimNext v now) \<longrightarrow> p = Claiming" "q \<noteq> Claiming" using Cons.prems(2) by metis
    show ?thesis
    proof (cases "v = w")
      case True
      then have "worker_at t w \<noteq> Some Claiming" using m by (auto simp: worker_at_Some)
      with IH m(1,4) True show ?thesis by (auto simp: claim_of_iff)
    next
      case False
      then have "\<not> claim_of w e" using Some by (auto simp: claim_of_iff)
      moreover have "worker_at t w = worker_at s w" using m(2,3) False by (simp add: worker_at_def)
      ultimately show ?thesis using IH by simp
    qed
  qed
qed simp

lemma actions_after_stop:
  "pool_fires es s = Some s' \<Longrightarrow> pl_stop s \<Longrightarrow>
    length (filter (\<lambda>e. event_worker e \<noteq> None) es) + pool_actions_left s' \<le> pool_actions_left s"
proof (induction es arbitrary: s)
  case (Cons e es)
  then obtain t where t: "pool_fire e s = Some t" "pool_fires es t = Some s'" by (auto simp: bind_eq_Some_conv)
  have stop: "pl_stop t" using fires_keep [of "[e]" s t] t(1) Cons.prems(2) by simp
  note IH = Cons.IH [OF t(2) stop]
  show ?case
  proof (cases "event_worker e")
    case None
    with IH other_move [OF t(1) None] show ?thesis by (simp add: pool_actions_left_def)
  next
    case (Some v)
    from worker_move [OF t(1) Some] obtain p q u where m: "worker_at s v = Some p" "t = go_to v q u" "pl_workers u = pl_workers s"
      "actions_left q < actions_left p" using Cons.prems(2) by metis
    with pool_actions_go_to [OF m(1,3), of q] IH Some show ?thesis by simp
  qed
qed simp

lemma worker_not_stuck:
  assumes "w < length (pl_workers s)" "pl_workers s ! w \<noteq> Stopped"
  shows "\<exists>e. event_worker e = Some w \<and> pool_fire e s \<noteq> None"
proof -
  have at: "worker_at s w = Some (pl_workers s ! w)" using assms(1) by (simp add: worker_at_def)
  let ?es = "[LoopTop w, ClaimNext w 0, TimerFired w, SleepOver w, AddToGroup w, RegisterRun w, RunEnds w, UnregisterRun w, GroupDone w]"
  have "list_ex (\<lambda>e. event_worker e = Some w \<and> pool_fire e s \<noteq> None) ?es"
    using assms(2) at by (cases "pl_workers s ! w") (simp_all add: Let_def)
  then show ?thesis unfolding list_ex_iff by blast
qed

lemma all_stopped: "\<forall>p \<in> set (pl_workers s). p = Stopped \<Longrightarrow> pool_inv s \<Longrightarrow> pl_wg s = 0"
  using pool_invD(4) [of s] by (auto simp: filter_empty_conv)

lemma pool_actions_bound: "pool_actions_left s \<le> 7 * length (pl_workers s)"
proof -
  have "actions_left p \<le> 7" for p by (cases p) simp_all
  then have "sum_list (map actions_left ps) \<le> 7 * length ps" for ps by (induction ps) (auto intro: add_mono)
  then show ?thesis by (simp add: pool_actions_left_def)
qed

lemma replicate_stopped: "(\<And>w. w < length ps \<Longrightarrow> ps ! w = Stopped) \<Longrightarrow> ps = replicate (length ps) Stopped"
  by (intro nth_equalityI) simp_all

lemma drain_leaves_unstarted:
  assumes "pool_fire DrainReturns s = Some s'" "pool_inv s"
  shows "held s' = concat (map (\<lambda>p. case p of Holding k \<Rightarrow> [k] | _ \<Rightarrow> []) (pl_workers s'))"
proof -
  have "pl_wg s = 0" "s' = s\<lparr>pl_drain := Drained\<rparr>" using assms(1) by (auto split: if_splits)
  with pool_invD(4) [OF assms(2)] have "\<forall>p \<in> set (pl_workers s'). \<not> in_group p" by (auto simp: filter_empty_conv)
  then have "map held_key (pl_workers s') = map (\<lambda>p. case p of Holding k \<Rightarrow> [k] | _ \<Rightarrow> []) (pl_workers s')"
    by (auto split: worker_phase.splits)
  then show ?thesis by (simp only: held_def)
qed

section \<open>Races of the shutdown\<close>

text \<open>
  A worker that has claimed a run counts itself in the wait group only afterwards, so that \<open>Drain\<close> can return in between,
  and the run is left marked as running with nobody to finish it; the next start requeues it. A run that registers after the
  time limit of the drain is not cancelled.
\<close>

lemma one_worker_claims:
  assumes "db_ok d" "claim_select d = Some k"
  shows "\<exists>d1. claimed_key d1 k \<and> claim_next 0 now (go_to 0 Claiming (StartPool i 1 d)) = go_to 0 (Holding k) (StartPool i 1 d1)"
proof -
  from claim_select_Some [OF assms(2)] obtain r where r: "r \<in> set (db_executions d)" "ew_status r = StatusPending" "k = execution_key r"
    by metis
  obtain hit d1 where u: "claim_update i now k d = (hit, d1)" by fastforce
  note rows = claim_update_rows [OF assms(1) r(1,2), where w = i and now = now, folded r(3), unfolded u]
  have ok: "db_ok d1" using claim_update_ok [OF assms(1), of i now k] u by simp
  have "GetAttempt (fst k) (snd k) d1 = (Inr (raw_execution d1 (r\<lparr>ew_status := StatusRunning, ew_claimed_by := i, ew_started_at := Some (unix_milli now)\<rparr>)), d1)"
    using GetAttempt_row [OF ok rows(2) [unfolded snd_conv]] by (simp add: r(3) execution_key_def)
  then have c: "ClaimPendingExecution i now d = (Inr (raw_execution d1 (r\<lparr>ew_status := StatusRunning, ew_claimed_by := i, ew_started_at := Some (unix_milli now)\<rparr>)), d1)"
    using assms(2) u rows(1) by (simp add: ClaimPendingExecution_def)
  have "claimed_key d1 k" using claimed_key_claim(2) [OF u] rows(1) by simp
  moreover have "claim_next 0 now (go_to 0 Claiming (StartPool i 1 d)) = go_to 0 (Holding k) (StartPool i 1 d1)"
    using c r(3) by (simp add: claim_next_def go_to_def StartPool_def execution_key_def)
  ultimately show ?thesis by blast
qed

lemma drain_can_abandon_a_run:
  assumes "db_ok d" "claim_select d = Some k"
  shows "\<exists>es s. pool_fires es (StartPool i 1 d) = Some s \<and> pl_drain s = Drained \<and> held s = [k] \<and> claimed_key (pl_db s) k"
proof -
  obtain d1 where d1: "claimed_key d1 k" "claim_next 0 0 (go_to 0 Claiming (StartPool i 1 d)) = go_to 0 (Holding k) (StartPool i 1 d1)"
    using one_worker_claims [OF assms] by blast
  have at: "worker_at (StartPool i 1 d) 0 = Some AtTop" "\<not> pl_stop (StartPool i 1 d)"
    "worker_at (go_to 0 Claiming (StartPool i 1 d)) 0 = Some Claiming" by (simp_all add: worker_at_def StartPool_def)
  let ?s = "(go_to 0 (Holding k) (StartPool i 1 d1))\<lparr>pl_stop := True, pl_drain := Drained\<rparr>"
  have "pool_fire (LoopTop 0) (StartPool i 1 d) = Some (go_to 0 Claiming (StartPool i 1 d))" using at by simp
  moreover have "pool_fire (ClaimNext 0 0) (go_to 0 Claiming (StartPool i 1 d)) = Some (go_to 0 (Holding k) (StartPool i 1 d1))"
    using at d1(2) by simp
  moreover have "pool_fires [CloseStop, DrainReturns] (go_to 0 (Holding k) (StartPool i 1 d1)) = Some ?s"
    by (simp add: go_to_def StartPool_def)
  ultimately have "pool_fires [LoopTop 0, ClaimNext 0 0, CloseStop, DrainReturns] (StartPool i 1 d) = Some ?s"
    by (simp only: pool_fires.simps Option.bind.bind_lunit)
  moreover have "held ?s = [k]" "claimed_key (pl_db ?s) k" using d1(1) by (simp_all add: held_def StartPool_def)
  ultimately show ?thesis by (intro exI [of _ "[LoopTop 0, ClaimNext 0 0, CloseStop, DrainReturns]"] exI [of _ ?s]) simp
qed

lemma late_run_not_cancelled:
  assumes "db_ok d" "claim_select d = Some k"
  shows "\<exists>es s c. pool_fires es (StartPool i 1 d) = Some s \<and> pl_drain s = RunsCancelled \<and> worker_at s 0 = Some (Registered k c)
    \<and> c \<notin> set (pl_cancelled s)"
proof -
  obtain d1 where d1: "claim_next 0 0 (go_to 0 Claiming (StartPool i 1 d)) = go_to 0 (Holding k) (StartPool i 1 d1)"
    using one_worker_claims [OF assms] by blast
  have at: "worker_at (StartPool i 1 d) 0 = Some AtTop" "\<not> pl_stop (StartPool i 1 d)"
    "worker_at (go_to 0 Claiming (StartPool i 1 d)) 0 = Some Claiming" by (simp_all add: worker_at_def StartPool_def)
  let ?es = "[LoopTop 0, ClaimNext 0 0, CloseStop, DrainTimeout, AddToGroup 0, RegisterRun 0]"
  let ?s = "(go_to 0 (Registered k 0) (StartPool i 1 d1))\<lparr>pl_stop := True, pl_drain := RunsCancelled, pl_wg := 1,
     pl_contexts := 1, pl_cancels := [(k, 0)]\<rparr>"
  have "pool_fire (LoopTop 0) (StartPool i 1 d) = Some (go_to 0 Claiming (StartPool i 1 d))" using at by simp
  moreover have "pool_fire (ClaimNext 0 0) (go_to 0 Claiming (StartPool i 1 d)) = Some (go_to 0 (Holding k) (StartPool i 1 d1))"
    using at d1 by simp
  moreover have "pool_fires [CloseStop, DrainTimeout, AddToGroup 0, RegisterRun 0] (go_to 0 (Holding k) (StartPool i 1 d1)) = Some ?s"
    by (simp add: go_to_def StartPool_def worker_at_def cancelAll_def registerCancel_def Let_def)
  ultimately have "pool_fires ?es (StartPool i 1 d) = Some ?s"
    by (simp only: pool_fires.simps Option.bind.bind_lunit)
  moreover have "worker_at ?s 0 = Some (Registered k 0)" "0 \<notin> set (pl_cancelled ?s)" by (simp_all add: worker_at_def StartPool_def)
  ultimately show ?thesis by (intro exI [of _ ?es] exI [of _ ?s] exI [of _ 0]) simp
qed

section \<open>Properties\<close>

text \<open>
  C4. The worker pool: whatever the interleaving of any number of workers, of cancel requests, of a drain and of other
  clients of the store, no two workers hold the same run, every held run is marked as no longer pending in the store, the
  wait group counts exactly the workers between \<open>wg.Add\<close> and \<open>wg.Done\<close>, and the map of cancel functions holds for a run
  exactly the context of the one worker that runs it.
\<close>

theorem worker_pool_invariant:
  assumes "db_ok d" "pool_fires es (StartPool i n d) = Some s"
  shows "distinct (held s) \<and> (\<forall>k \<in> set (held s). claimed_key (pl_db s) k)
    \<and> pl_wg s = int (length (filter in_group (pl_workers s)))
    \<and> (\<forall>k c. map_of (pl_cancels s) k = Some c \<longleftrightarrow> (\<exists>w. worker_at s w \<in> {Some (Registered k c), Some (RunReturned k c)}))"
proof -
  have inv: "pool_inv s" using pool_fires_inv [OF assms(2) StartPool_inv [OF assms(1)]] .
  have "mset (map fst (pl_cancels s)) = mset (map fst (registered s))" using pool_invD(5) [OF inv] by simp
  then have "distinct (map fst (pl_cancels s))" using registered_distinct(1) [OF inv] same_mset(1) by blast
  then have "map_of (pl_cancels s) k = Some c \<longleftrightarrow> (k, c) \<in> set (registered s)" for k c
    unfolding set_cancels [OF inv, symmetric] by simp
  moreover have "(k, c) \<in> set (registration p) \<longleftrightarrow> p \<in> {Registered k c, RunReturned k c}" for k c p by (cases p) auto
  then have "(k, c) \<in> set (registered s) \<longleftrightarrow> (\<exists>p \<in> set (pl_workers s). p \<in> {Registered k c, RunReturned k c})" for k c
    by (simp add: registered_def)
  moreover have "(\<exists>p \<in> set (pl_workers s). p \<in> {a, b}) \<longleftrightarrow> (\<exists>w. worker_at s w \<in> {Some a, Some b})" for a b
  proof -
    have "(\<exists>p \<in> set (pl_workers s). p \<in> {a, b}) \<longleftrightarrow> a \<in> set (pl_workers s) \<or> b \<in> set (pl_workers s)" by blast
    then show ?thesis by (auto simp: worker_at_Some in_set_conv_nth)
  qed
  ultimately have "map_of (pl_cancels s) k = Some c \<longleftrightarrow> (\<exists>w. worker_at s w \<in> {Some (Registered k c), Some (RunReturned k c)})" for k c
    by blast
  with inv show ?thesis by (simp add: pool_inv_def)
qed


definition sample_schedule :: "pool_event list" where
  "sample_schedule = [LoopTop 0, LoopTop 1, ClaimNext 1 second, ClaimNext 0 second, AddToGroup 1, RegisterRun 1, CancelRun (1, 1), CloseStop]"

definition sample_ending :: "pool_event list" where
  "sample_ending = [RunEnds 1, StopSeen 0, UnregisterRun 1, GroupDone 1, LoopTop 1]"

theorem worker_pool_invariant_witness:
  "case pool_fires sample_schedule (StartPool ''w'' 2 sample_queue_db) of
     None \<Rightarrow> False
   | Some s \<Rightarrow> held s = [(1, 1)] \<and> pl_wg s = 1 \<and> map_of (pl_cancels s) (1, 1) = Some 0 \<and> distinct (held s)"
proof -
  let ?s = "pool_fires sample_schedule (StartPool ''w'' 2 sample_queue_db)"
  have s: "case ?s of None \<Rightarrow> False
    | Some s \<Rightarrow> held s = [(1, 1)] \<and> pl_wg s = 1 \<and> map_of (pl_cancels s) (1, 1) = Some 0" by code_simp
  then obtain t where t: "?s = Some t" by (auto split: option.splits)
  from worker_pool_invariant [OF sample_queue_db_ok t] s show ?thesis unfolding t by simp
qed


end
