(* ===== verification/Webhooks.thy ===== *)
theory Webhooks
  imports Executions GitClone Workflow
begin

text \<open>
  Webhooks: \<^verbatim>\<open>internal/handlers/webhooks.go\<close> with \<^verbatim>\<open>MergeRequestDiffs\<close> of \<^verbatim>\<open>internal/gitlab/gitlab.go\<close>. The signature check and the
  event parsers of the forge libraries, their API calls, git and the file system are the fields of \<open>webhook_world\<close>.
  The state is the store and the discovery directory of the project.

  The lemmas show that an unauthenticated request, a deleted ref and a change from a fork queue nothing, and that an
  accepted event queues exactly the workflows that match it.
\<close>

section \<open>Events\<close>

record commit_files =
  cf_Added :: "string list"
  cf_Modified :: "string list"
  cf_Removed :: "string list"

record github_push =
  gp_Ref :: string
  gp_After :: string
  gp_Deleted :: bool
  gp_Commits :: "commit_files list"

record github_pull_request =
  gq_Action :: string
  gq_Number :: int
  gq_HeadRepo :: string
  gq_BaseRepo :: string
  gq_HeadSHA :: string
  gq_BaseRef :: string

datatype github_event = GithubPush github_push | GithubPullRequest github_pull_request

record gitlab_push =
  lp_Ref :: string
  lp_After :: string
  lp_Commits :: "commit_files list"

record gitlab_merge =
  lm_Action :: string
  lm_IID :: int
  lm_SourceProjectID :: int
  lm_TargetProjectID :: int
  lm_SourceBranch :: string
  lm_TargetBranch :: string
  lm_LastCommit :: string

datatype gitlab_event = GitlabPush gitlab_push | GitlabTag gitlab_push | GitlabMerge gitlab_merge | GitlabOther

text \<open>A request: the body, or none when reading it fails; the signature or token header; the event header.\<close>

record webhook_request =
  wr_Body :: "string option"
  wr_Signature :: string
  wr_Event :: string

record ('s, 'd) webhook_world =
  hw_store :: "'s execution_store"
  hw_now :: "string \<Rightarrow> go_time"
  hw_workspace :: workspace
  hw_url_parse :: "string \<Rightarrow> (string \<times> string) option"
  hw_listRefs :: "string \<Rightarrow> git_auth \<Rightarrow> string option"
  hw_git :: "'d git_api"
  hw_listing :: "'d \<Rightarrow> string \<Rightarrow> string + (string \<times> bool) list"
  hw_exists :: "'d \<Rightarrow> string \<Rightarrow> bool"
  hw_readFile :: "'d \<Rightarrow> string \<Rightarrow> string option"
  hw_parse :: "string \<Rightarrow> config_error + config"
  hw_glob :: "string \<Rightarrow> string \<Rightarrow> bool option"
  hw_ValidateSignature :: "string \<Rightarrow> string \<Rightarrow> string \<Rightarrow> bool"
  hw_ParseGithub :: "string \<Rightarrow> string \<Rightarrow> string + github_event"
  hw_ParseGitlab :: "string \<Rightarrow> string \<Rightarrow> string + gitlab_event"
  hw_github_client :: "string \<Rightarrow> bool"
  hw_ListFiles :: "string \<Rightarrow> string \<Rightarrow> string \<Rightarrow> int \<Rightarrow> string list option"
  hw_gitlab_client :: "string \<Rightarrow> string \<Rightarrow> bool"
  hw_ListDiffs :: "string \<Rightarrow> string \<Rightarrow> string \<Rightarrow> int \<Rightarrow> (string \<times> string) list option"

datatype webhook_answer = Pong | Ignored | IgnoredFork | Accepted "string list"

definition zeroSHA :: string where
  "zeroSHA = replicate 40 (CHR ''0'')"

definition changed_files :: "commit_files list \<Rightarrow> string list" where
  "changed_files commits = concat (map (\<lambda>c. cf_Added c @ cf_Modified c @ cf_Removed c) commits)"

definition normalizeRef :: "string \<Rightarrow> string" where
  "normalizeRef ref =
     (if HasPrefix ref ''refs/heads/'' then TrimPrefix ref ''refs/heads/''
      else if HasPrefix ref ''refs/tags/'' then TrimPrefix ref ''refs/tags/'' else ref)"

section \<open>Triggering\<close>

text \<open>A workflow whose file cannot be read or parsed any more is passed over.\<close>

definition workflow_config :: "('s, 'd) webhook_world \<Rightarrow> string \<Rightarrow> 'd \<Rightarrow> string \<Rightarrow> config option" where
  "workflow_config w dir d wfl =
     (case hw_readFile w d (Join [Join [dir, ''.ci''], wfl, ''ci.yml'']) of
        None \<Rightarrow> None
      | Some data \<Rightarrow> (case hw_parse w data of Inl _ \<Rightarrow> None | Inr cfg \<Rightarrow> Some cfg))"

fun enqueue_matching ::
  "('s, 'd) webhook_world \<Rightarrow> project \<Rightarrow> (config \<Rightarrow> bool) \<Rightarrow> string \<Rightarrow> string \<Rightarrow> 'd \<Rightarrow> string list \<Rightarrow> 's \<Rightarrow> string list \<times> 's" where
  "enqueue_matching w project matches ref sha d [] s = ([], s)"
| "enqueue_matching w project matches ref sha d (wfl # wfs) s =
     (case workflow_config w (DiscoveryDir (hw_workspace w) (p_ID project)) d wfl of
        None \<Rightarrow> enqueue_matching w project matches ref sha d wfs s
      | Some cfg \<Rightarrow>
          (if \<not> matches cfg then enqueue_matching w project matches ref sha d wfs s
           else (case Enqueue (hw_store w) (hw_now w wfl) project wfl ref sha TriggerWebhook None s of
                   (Inl _, s1) \<Rightarrow> enqueue_matching w project matches ref sha d wfs s1
                 | (Inr _, s1) \<Rightarrow>
                     (case enqueue_matching w project matches ref sha d wfs s1 of (names, s2) \<Rightarrow> (wfl # names, s2)))))"

datatype change_event = Push | PullRequest

definition event_matches :: "('s, 'd) webhook_world \<Rightarrow> project \<Rightarrow> change_event \<Rightarrow> string \<Rightarrow> string \<Rightarrow> string list \<Rightarrow> bool \<Rightarrow> config \<Rightarrow> bool" where
  "event_matches w project event ref baseBranch changed isTag cfg =
     (let defaultBranch = p_DefaultBranch (projects_Detect (hw_url_parse w) (hw_listRefs w) project)
      in case event of
           PullRequest \<Rightarrow> MatchesPullRequest (hw_glob w) cfg defaultBranch baseBranch changed
         | Push \<Rightarrow> MatchesPush (hw_glob w) cfg defaultBranch ref isTag changed)"

type_synonym ('s, 'd) webhook_op = "'s \<times> 'd \<Rightarrow> webhook_answer reply \<times> ('s \<times> 'd)"

definition webhook_trigger ::
  "('s, 'd) webhook_world \<Rightarrow> project \<Rightarrow> change_event \<Rightarrow> string \<Rightarrow> string \<Rightarrow> string \<Rightarrow> string list \<Rightarrow> bool \<Rightarrow> ('s, 'd) webhook_op" where
  "webhook_trigger w project event ref sha baseBranch changed isTag = (\<lambda>(s, d).
     (let cloneRef = (if sha \<noteq> [] then sha else ref)
      in case DiscoverProjectWorkflows (hw_git w) (hw_listing w) (hw_exists w) project
                (DiscoveryDir (hw_workspace w) (p_ID project)) cloneRef d of
           (Inl _, d1) \<Rightarrow> (Failure 500, (s, d1))
         | (Inr workflows, d1) \<Rightarrow>
             (case enqueue_matching w project (event_matches w project event ref baseBranch changed isTag) ref sha d1 workflows s of
                (names, s1) \<Rightarrow> (Reply 200 (Accepted names), (s1, d1)))))"

section \<open>GitHub\<close>

definition handlePush :: "('s, 'd) webhook_world \<Rightarrow> project \<Rightarrow> github_push \<Rightarrow> ('s, 'd) webhook_op" where
  "handlePush w project e st =
     (if gp_Deleted e \<or> gp_After e = zeroSHA then (Reply 200 Ignored, st)
      else webhook_trigger w project Push (normalizeRef (gp_Ref e)) (gp_After e) [] (changed_files (gp_Commits e))
             (HasPrefix (gp_Ref e) ''refs/tags/'') st)"

definition pull_request_files :: "('s, 'd) webhook_world \<Rightarrow> project \<Rightarrow> int \<Rightarrow> string list" where
  "pull_request_files w project number =
     (if p_AuthSecret project = [] then []
      else (case github_ParseRepo (hw_url_parse w) (p_RepoURL project) of
              None \<Rightarrow> []
            | Some (owner, repo) \<Rightarrow>
                (if \<not> hw_github_client w (p_AuthSecret project) then []
                 else (case hw_ListFiles w (p_AuthSecret project) owner repo number of None \<Rightarrow> [] | Some files \<Rightarrow> files))))"

definition handlePullRequest :: "('s, 'd) webhook_world \<Rightarrow> project \<Rightarrow> github_pull_request \<Rightarrow> ('s, 'd) webhook_op" where
  "handlePullRequest w project e st =
     (if gq_Action e \<notin> {''opened'', ''synchronize'', ''reopened''} then (Reply 200 Ignored, st)
      else if gq_HeadRepo e = [] \<or> gq_HeadRepo e \<noteq> gq_BaseRepo e then (Reply 200 IgnoredFork, st)
      else webhook_trigger w project PullRequest (''refs/pull/'' @ itoa (gq_Number e) @ ''/head'') (gq_HeadSHA e) (gq_BaseRef e)
             (pull_request_files w project (gq_Number e)) False st)"

definition webhook_project :: "('s, project) app_op \<Rightarrow> (project \<Rightarrow> ('s, 'd) webhook_op) \<Rightarrow> ('s, 'd) webhook_op" where
  "webhook_project resolve handle = (\<lambda>(s, d).
     (case resolve s of
        (Inl e, s1) \<Rightarrow> (Failure (storeError e), (s1, d))
      | (Inr p, s1) \<Rightarrow> handle p (s1, d)))"

definition webhook_GitHub :: "('s, 'd) webhook_world \<Rightarrow> ('s, project) app_op \<Rightarrow> webhook_request \<Rightarrow> ('s, 'd) webhook_op" where
  "webhook_GitHub w resolve rq =
     webhook_project resolve (\<lambda>p st.
       case wr_Body rq of
         None \<Rightarrow> (Failure 400, st)
       | Some body \<Rightarrow>
           (if p_WebhookSecret p \<noteq> [] \<and> \<not> hw_ValidateSignature w (wr_Signature rq) body (p_WebhookSecret p) then (Failure 401, st)
            else if wr_Event rq = ''ping'' then (Reply 200 Pong, st)
            else if wr_Event rq \<notin> {''push'', ''pull_request''} then (Reply 200 Ignored, st)
            else (case hw_ParseGithub w (wr_Event rq) body of
                    Inl _ \<Rightarrow> (Failure 400, st)
                  | Inr (GithubPush e) \<Rightarrow> handlePush w p e st
                  | Inr (GithubPullRequest e) \<Rightarrow> handlePullRequest w p e st)))"

section \<open>GitLab\<close>

definition triggerPush :: "('s, 'd) webhook_world \<Rightarrow> project \<Rightarrow> gitlab_push \<Rightarrow> bool \<Rightarrow> ('s, 'd) webhook_op" where
  "triggerPush w project e isTag st =
     (if lp_After e = zeroSHA then (Reply 200 Ignored, st)
      else webhook_trigger w project Push (normalizeRef (lp_Ref e)) (lp_After e) [] (changed_files (lp_Commits e)) isTag st)"

definition MergeRequestDiffs :: "('s, 'd) webhook_world \<Rightarrow> string \<Rightarrow> string \<Rightarrow> string \<Rightarrow> int \<Rightarrow> string list option" where
  "MergeRequestDiffs w base path token iid =
     (if \<not> hw_gitlab_client w base token then None
      else (case hw_ListDiffs w base path token iid of
              None \<Rightarrow> None
            | Some diffs \<Rightarrow>
                Some (List.map_filter (\<lambda>(newPath, oldPath).
                        if newPath \<noteq> [] then Some newPath else if oldPath \<noteq> [] then Some oldPath else None) diffs)))"

definition merge_request_files :: "('s, 'd) webhook_world \<Rightarrow> project \<Rightarrow> int \<Rightarrow> string list" where
  "merge_request_files w project iid =
     (if p_AuthSecret project = [] then []
      else (case gitlab_ParseRepo (hw_url_parse w) (p_RepoURL project) of
              None \<Rightarrow> []
            | Some (base, path) \<Rightarrow>
                (case MergeRequestDiffs w base path (p_AuthSecret project) iid of None \<Rightarrow> [] | Some files \<Rightarrow> files)))"

definition handleMergeRequest :: "('s, 'd) webhook_world \<Rightarrow> project \<Rightarrow> gitlab_merge \<Rightarrow> ('s, 'd) webhook_op" where
  "handleMergeRequest w project e st =
     (if lm_Action e \<notin> {''open'', ''reopen'', ''update''} then (Reply 200 Ignored, st)
      else if lm_SourceProjectID e = 0 \<or> lm_SourceProjectID e \<noteq> lm_TargetProjectID e then (Reply 200 IgnoredFork, st)
      else webhook_trigger w project PullRequest (lm_SourceBranch e) (lm_LastCommit e) (lm_TargetBranch e)
             (merge_request_files w project (lm_IID e)) False st)"

definition webhook_GitLab :: "('s, 'd) webhook_world \<Rightarrow> ('s, project) app_op \<Rightarrow> webhook_request \<Rightarrow> ('s, 'd) webhook_op" where
  "webhook_GitLab w resolve rq =
     webhook_project resolve (\<lambda>p st.
       case wr_Body rq of
         None \<Rightarrow> (Failure 400, st)
       | Some body \<Rightarrow>
           (if p_WebhookSecret p \<noteq> [] \<and> wr_Signature rq \<noteq> p_WebhookSecret p then (Failure 401, st)
            else if wr_Event rq \<notin> {''Push Hook'', ''Tag Push Hook'', ''Merge Request Hook''} then (Reply 200 Ignored, st)
            else (case hw_ParseGitlab w (wr_Event rq) body of
                    Inl _ \<Rightarrow> (Failure 400, st)
                  | Inr (GitlabPush e) \<Rightarrow> triggerPush w p e False st
                  | Inr (GitlabTag e) \<Rightarrow> triggerPush w p e True st
                  | Inr (GitlabMerge e) \<Rightarrow> handleMergeRequest w p e st
                  | Inr GitlabOther \<Rightarrow> (Reply 200 Ignored, st))))"

section \<open>What is let through\<close>

definition trusted_github :: "github_event \<Rightarrow> bool" where
  "trusted_github e \<longleftrightarrow>
     (case e of
        GithubPush p \<Rightarrow> \<not> gp_Deleted p \<and> gp_After p \<noteq> zeroSHA
      | GithubPullRequest q \<Rightarrow>
          gq_Action q \<in> {''opened'', ''synchronize'', ''reopened''} \<and> gq_HeadRepo q \<noteq> [] \<and> gq_HeadRepo q = gq_BaseRepo q)"

definition trusted_gitlab :: "gitlab_event \<Rightarrow> bool" where
  "trusted_gitlab e \<longleftrightarrow>
     (case e of
        GitlabPush p \<Rightarrow> lp_After p \<noteq> zeroSHA
      | GitlabTag p \<Rightarrow> lp_After p \<noteq> zeroSHA
      | GitlabMerge m \<Rightarrow>
          lm_Action m \<in> {''open'', ''reopen'', ''update''} \<and> lm_SourceProjectID m \<noteq> 0 \<and> lm_SourceProjectID m = lm_TargetProjectID m
      | GitlabOther \<Rightarrow> False)"

lemma github_unchanged:
  assumes "resolve s = (Inr p, s)" "webhook_GitHub w resolve rq (s, d) = (r, st)" "st \<noteq> (s, d)"
  obtains body e where "wr_Body rq = Some body" "p_WebhookSecret p = [] \<or> hw_ValidateSignature w (wr_Signature rq) body (p_WebhookSecret p)"
    "wr_Event rq \<in> {''push'', ''pull_request''}" "hw_ParseGithub w (wr_Event rq) body = Inr e" "trusted_github e"
  using assms
  by (auto simp: webhook_GitHub_def webhook_project_def handlePush_def handlePullRequest_def trusted_github_def
      split: option.splits sum.splits github_event.splits if_splits)

lemma gitlab_unchanged:
  assumes "resolve s = (Inr p, s)" "webhook_GitLab w resolve rq (s, d) = (r, st)" "st \<noteq> (s, d)"
  obtains body e where "wr_Body rq = Some body" "p_WebhookSecret p = [] \<or> wr_Signature rq = p_WebhookSecret p"
    "wr_Event rq \<in> {''Push Hook'', ''Tag Push Hook'', ''Merge Request Hook''}" "hw_ParseGitlab w (wr_Event rq) body = Inr e" "trusted_gitlab e"
  using assms
  by (auto simp: webhook_GitLab_def webhook_project_def triggerPush_def handleMergeRequest_def trusted_gitlab_def
      split: option.splits sum.splits gitlab_event.splits if_splits)

text \<open>
  C33. Webhooks guard the queue: if a request changes the store or clones anything, then it carried the signature (GitHub)
  or the token (GitLab) of the project's webhook secret, unless the project has none, and its event is a push of an existing
  commit or a change opened or updated from the repository itself, never from a fork. A wrong signature is answered with 401.
\<close>

theorem webhook_guards:
  assumes "resolve s = (Inr p, s)"
  shows "(\<forall>r st. webhook_GitHub w resolve rq (s, d) = (r, st) \<and> st \<noteq> (s, d) \<longrightarrow>
        (\<exists>body e. wr_Body rq = Some body \<and> hw_ParseGithub w (wr_Event rq) body = Inr e \<and> trusted_github e
          \<and> (p_WebhookSecret p = [] \<or> hw_ValidateSignature w (wr_Signature rq) body (p_WebhookSecret p))))
    \<and> (\<forall>r st. webhook_GitLab w resolve rq (s, d) = (r, st) \<and> st \<noteq> (s, d) \<longrightarrow>
        (\<exists>body e. wr_Body rq = Some body \<and> hw_ParseGitlab w (wr_Event rq) body = Inr e \<and> trusted_gitlab e
          \<and> (p_WebhookSecret p = [] \<or> wr_Signature rq = p_WebhookSecret p)))
    \<and> (\<forall>body. wr_Body rq = Some body \<and> p_WebhookSecret p \<noteq> [] \<and> \<not> hw_ValidateSignature w (wr_Signature rq) body (p_WebhookSecret p) \<longrightarrow>
        webhook_GitHub w resolve rq (s, d) = (Failure 401, (s, d)))
    \<and> (\<forall>body. wr_Body rq = Some body \<and> p_WebhookSecret p \<noteq> [] \<and> wr_Signature rq \<noteq> p_WebhookSecret p \<longrightarrow>
        webhook_GitLab w resolve rq (s, d) = (Failure 401, (s, d)))"
proof (intro conjI allI impI; elim conjE)
  fix r st assume "webhook_GitHub w resolve rq (s, d) = (r, st)" "st \<noteq> (s, d)"
  from github_unchanged [where p = p and w = w, OF assms this] show "\<exists>body e. wr_Body rq = Some body
      \<and> hw_ParseGithub w (wr_Event rq) body = Inr e \<and> trusted_github e
      \<and> (p_WebhookSecret p = [] \<or> hw_ValidateSignature w (wr_Signature rq) body (p_WebhookSecret p))" by metis
next
  fix r st assume "webhook_GitLab w resolve rq (s, d) = (r, st)" "st \<noteq> (s, d)"
  from gitlab_unchanged [where p = p and w = w, OF assms this] show "\<exists>body e. wr_Body rq = Some body
      \<and> hw_ParseGitlab w (wr_Event rq) body = Inr e \<and> trusted_gitlab e \<and> (p_WebhookSecret p = [] \<or> wr_Signature rq = p_WebhookSecret p)"
    by metis
qed (simp_all add: webhook_GitHub_def webhook_GitLab_def webhook_project_def assms)

section \<open>What is queued\<close>

text \<open>On the SQLite store a new execution of a project can always be queued.\<close>

lemma enqueue_webhook:
  assumes ok: "numbered_ok d" and p: "p_ID p \<in> set (project_ids d)"
  shows "\<exists>e d'. Enqueue sqlite_executions now p wfl ref sha trg None d = (Inr e, d') \<and> numbered_ok d'
    \<and> project_ids d' = project_ids d
    \<and> db_executions d' = db_executions d @ [row_of_execution e] \<and> e_ProjectID e = p_ID p \<and> e_Workflow e = wfl \<and> e_Ref e = ref
    \<and> e_CommitSHA e = sha \<and> e_Status e = StatusPending \<and> e_Trigger e = (if trg = TriggerUnset then TriggerManual else trg)"
proof -
  let ?x = "Execution0\<lparr>e_ProjectID := p_ID p, e_Project := p_Name p, e_Workflow := wfl, e_Ref := ref, e_CommitSHA := sha, e_Trigger := trg,
      e_Source := SourceGit, e_CreatedAt := now, e_CreatedBy := None, e_Status := StatusPending\<rparr>"
  have db: "db_ok d" using ok by (simp add: numbered_ok_def)
  from p obtain pr where pr: "pr \<in> set (db_projects d)" "pw_id pr = p_ID p" by (auto simp: project_ids_def)
  have find: "find (\<lambda>q. pw_id q = p_ID p) (db_projects d) = Some pr"
    using find_distinct [of pw_id "db_projects d" pr] pr db by (simp add: db_ok_def projects_ok_def)
  define e where "e = assign_ids (pw_execution_seq pr + 1) (execution_defaults ?x)"
  have seq: "ew_id r \<le> pw_execution_seq pr" if "r \<in> set (db_executions d)" "ew_project_id r = p_ID p" for r
    using db that pr by (auto simp: db_ok_def sequence_ok_def)
  have e: "e_ProjectID e = p_ID p" "e_Workflow e = wfl" "e_Ref e = ref" "e_CommitSHA e = sha" "e_Status e = StatusPending"
    "e_Trigger e = (if trg = TriggerUnset then TriggerManual else trg)" "e_ExecutionID e = pw_execution_seq pr + 1" "e_Attempt e = 1"
    "e_ID e = pw_execution_seq pr + 1" "e_CreatedBy e = None"
    by (simp_all add: e_def assign_ids_def execution_defaults_def Execution0_def Let_def)
  have free: "insert_conflict e d = None"
    unfolding insert_conflict_None
  proof (intro conjI allI impI)
    show "execution_key (row_of_execution e) \<notin> set (map execution_key (db_executions d))"
      using seq by (auto simp: execution_key_def row_of_execution_def e) (metis add_le_same_cancel1 not_one_le_zero)
    have "x \<le> pw_execution_seq pr" if r: "r \<in> set (db_executions d)" "ew_project_id r = p_ID p" "ew_execution_id r = Some x" for r x
    proof -
      from ok r obtain root where "root \<in> set (db_executions d)" "at_key (p_ID p) x root"
        by (fastforce simp: numbered_ok_def list_all_iff list_ex_iff rooted_row_def)
      with seq show ?thesis by (auto simp: at_key_def)
    qed
    then show "(e_ProjectID e, e_ExecutionID e, e_Attempt e) \<notin> set (attempt_keys (db_executions d))"
      by (auto simp: attempt_keys_mem e) (metis add_le_same_cancel1 not_one_le_zero)
    show "u \<in> set (user_ids d)" if "e_CreatedBy e = Some u" for u using that by (simp add: e)
  qed
  define d' where "d' = d\<lparr>db_projects := bump_sequence (p_ID p) (db_projects d), db_executions := db_executions d @ [row_of_execution e]\<rparr>"
  have "CreateExecution ?x d = (Inr e, d')"
    by (simp add: CreateExecution_def find Let_def e_def [symmetric] free d'_def)
  moreover from this have "db_ok d'" using CreateExecution_ok [OF db, of ?x] by simp
  moreover have "rooted_row (db_executions d') (row_of_execution e)" "0 \<le> ew_attempt (row_of_execution e)"
    by (simp_all add: rooted_row_def d'_def row_of_execution_def e at_key_def)
  then have "list_all (\<lambda>r. 0 \<le> ew_attempt r \<and> rooted_row (db_executions d') r) (db_executions d')"
    using ok by (auto simp: numbered_ok_def d'_def list_all_iff rooted_row_append)
  moreover have "project_ids d' = project_ids d" by (simp add: d'_def project_ids_def)
  ultimately show ?thesis
    by (simp add: Enqueue_def enqueue_def sqlite_executions_def Execution0_def e d'_def numbered_ok_def)
qed

definition workflow_runs ::
  "('s, 'd) webhook_world \<Rightarrow> project \<Rightarrow> (config \<Rightarrow> bool) \<Rightarrow> 'd \<Rightarrow> string \<Rightarrow> bool" where
  "workflow_runs w project matches d wfl \<longleftrightarrow>
     (case workflow_config w (DiscoveryDir (hw_workspace w) (p_ID project)) d wfl of None \<Rightarrow> False | Some cfg \<Rightarrow> matches cfg)"

definition queued_by_webhook :: "project \<Rightarrow> string \<Rightarrow> string \<Rightarrow> execution \<Rightarrow> bool" where
  "queued_by_webhook p ref sha e \<longleftrightarrow> e_ProjectID e = p_ID p \<and> e_Ref e = ref \<and> e_CommitSHA e = sha
     \<and> e_Status e = StatusPending \<and> e_Trigger e = TriggerWebhook"

lemma enqueue_matching_queue:
  assumes "hw_store w = sqlite_executions" "numbered_ok d" "p_ID p \<in> set (project_ids d)"
  shows "\<exists>es d'. enqueue_matching w p matches ref sha disc wfs d = (filter (workflow_runs w p matches disc) wfs, d')
    \<and> numbered_ok d' \<and> db_executions d' = db_executions d @ map row_of_execution es
    \<and> map e_Workflow es = filter (workflow_runs w p matches disc) wfs \<and> list_all (queued_by_webhook p ref sha) es"
  using assms(2,3)
proof (induction wfs arbitrary: d)
  case Nil
  then show ?case by (intro exI [of _ "[]"]) simp
next
  case (Cons wfl wfs)
  show ?case
  proof (cases "workflow_runs w p matches disc wfl")
    case False
    then have "enqueue_matching w p matches ref sha disc (wfl # wfs) d = enqueue_matching w p matches ref sha disc wfs d"
      by (auto simp: workflow_runs_def split: option.splits)
    with Cons.IH [OF Cons.prems] False show ?thesis by simp
  next
    case True
    from enqueue_webhook [OF Cons.prems, of "hw_now w wfl" wfl ref sha TriggerWebhook] obtain e d1 where
      e: "Enqueue (hw_store w) (hw_now w wfl) p wfl ref sha TriggerWebhook None d = (Inr e, d1)"
        "e_Workflow e = wfl" "queued_by_webhook p ref sha e"
      and d1: "numbered_ok d1" "p_ID p \<in> set (project_ids d1)" "db_executions d1 = db_executions d @ [row_of_execution e]"
      using Cons.prems(2) by (auto simp: assms(1) queued_by_webhook_def)
    from Cons.IH [OF d1(1,2)] obtain es d' where
      IH: "enqueue_matching w p matches ref sha disc wfs d1 = (filter (workflow_runs w p matches disc) wfs, d')" "numbered_ok d'"
        "db_executions d' = db_executions d1 @ map row_of_execution es"
        "map e_Workflow es = filter (workflow_runs w p matches disc) wfs" "list_all (queued_by_webhook p ref sha) es" by blast
    from True obtain cfg where "workflow_config w (DiscoveryDir (hw_workspace w) (p_ID p)) disc wfl = Some cfg" "matches cfg"
      by (auto simp: workflow_runs_def split: option.splits)
    then have "enqueue_matching w p matches ref sha disc (wfl # wfs) d = (filter (workflow_runs w p matches disc) (wfl # wfs), d')"
      using True by (simp add: e(1) IH(1))
    with True e(2,3) d1(3) IH(2-5) show ?thesis by (intro exI [of _ "e # es"] exI [of _ d']) simp
  qed
qed

text \<open>
  C34. On the SQLite store an event that reached the trigger queues exactly the workflows of the checkout that match it: the
  answer names them in the order of discovery, and the executions table grows by one pending attempt for each, in the same order
  and with the reference and the commit of the event. Nothing else in the table changes, and the table stays well formed.
\<close>

theorem webhook_enqueues_matching:
  assumes "hw_store w = sqlite_executions" "numbered_ok d" "p_ID p \<in> set (project_ids d)"
    and "DiscoverProjectWorkflows (hw_git w) (hw_listing w) (hw_exists w) p (DiscoveryDir (hw_workspace w) (p_ID p))
           (if sha \<noteq> [] then sha else ref) disc = (Inr wfs, disc1)"
  shows "\<exists>es d'. let runs = filter (workflow_runs w p (event_matches w p event ref base changed isTag) disc1) wfs
     in webhook_trigger w p event ref sha base changed isTag (d, disc) = (Reply 200 (Accepted runs), (d', disc1))
       \<and> map e_Workflow es = runs \<and> list_all (queued_by_webhook p ref sha) es
       \<and> db_executions d' = db_executions d @ map row_of_execution es \<and> numbered_ok d'"
proof -
  from enqueue_matching_queue [OF assms(1-3), of "event_matches w p event ref base changed isTag" ref sha disc1 wfs]
  obtain es d' where "enqueue_matching w p (event_matches w p event ref base changed isTag) ref sha disc1 wfs d
      = (filter (workflow_runs w p (event_matches w p event ref base changed isTag) disc1) wfs, d')"
    "numbered_ok d'" "db_executions d' = db_executions d @ map row_of_execution es"
    "map e_Workflow es = filter (workflow_runs w p (event_matches w p event ref base changed isTag) disc1) wfs"
    "list_all (queued_by_webhook p ref sha) es" by blast
  then show ?thesis by (intro exI [of _ es] exI [of _ d']) (simp add: webhook_trigger_def Let_def assms(4))
qed

section \<open>A concrete webhook\<close>

text \<open>A repository with the workflow \<^verbatim>\<open>build\<close>, run by pushes to the default branch, and \<^verbatim>\<open>docs\<close>, run by pull requests.\<close>

definition sample_hook_config :: "string \<Rightarrow> config" where
  "sample_hook_config data = \<lparr>cf_Schema = [], cf_Name = [], cf_Image = ''alpine'', cf_Env = [],
     cf_On = (if HasSuffix data ''docs/ci.yml'' then Some (On0\<lparr>on_PullRequest := Some PullRequestConfig0\<rparr>) else None),
     cf_Paths = [], cf_PathsIgnore = [], cf_Cache = [], cf_Concurrency = [], cf_Steps = []\<rparr>"

definition sample_push :: github_push where
  "sample_push = \<lparr>gp_Ref = ''refs/heads/main'', gp_After = ''2f8b1c9d0'', gp_Deleted = False, gp_Commits = []\<rparr>"

definition sample_hooks :: "(db, bool) webhook_world" where
  "sample_hooks = \<lparr>hw_store = sqlite_executions, hw_now = (\<lambda>_. 9000), hw_workspace = \<lparr>ws_root = ''/w'', ws_logsRoot = ''/l''\<rparr>,
     hw_url_parse = (\<lambda>_. None), hw_listRefs = (\<lambda>_ _. Some ''main''), hw_git = sample_git,
     hw_listing = (\<lambda>_ _. Inr [(''docs'', True), (''build'', True), (''README.md'', False)]), hw_exists = (\<lambda>_ _. True),
     hw_readFile = (\<lambda>_ path. Some path), hw_parse = (\<lambda>data. Inr (sample_hook_config data)), hw_glob = (\<lambda>_ _. Some True),
     hw_ValidateSignature = (\<lambda>sig _ _. sig = ''sha256=1''), hw_ParseGithub = (\<lambda>_ _. Inr (GithubPush sample_push)),
     hw_ParseGitlab = (\<lambda>_ _. Inr GitlabOther), hw_github_client = (\<lambda>_. True), hw_ListFiles = (\<lambda>_ _ _ _. None),
     hw_gitlab_client = (\<lambda>_ _. True), hw_ListDiffs = (\<lambda>_ _ _ _. None)\<rparr>"

lemma sample_hooks_discovery:
  "DiscoverProjectWorkflows (hw_git sample_hooks) (hw_listing sample_hooks) (hw_exists sample_hooks) sample_app
     (DiscoveryDir (hw_workspace sample_hooks) (p_ID sample_app)) ''2f8b1c9d0'' True = (Inr [''build'', ''docs''], True)"
  by code_simp

lemma sample_hooks_runs:
  "filter (workflow_runs sample_hooks sample_app (event_matches sample_hooks sample_app Push ''main'' [] [] False) True)
     [''build'', ''docs''] = [''build'']"
  by code_simp

theorem webhook_enqueues_matching_witness:
  "\<exists>e d'. webhook_trigger sample_hooks sample_app Push ''main'' ''2f8b1c9d0'' [] [] False (sample_failed_db, True)
       = (Reply 200 (Accepted [''build'']), (d', True))
     \<and> db_executions d' = db_executions sample_failed_db @ [row_of_execution e] \<and> e_Workflow e = ''build'' \<and> e_Status e = StatusPending"
proof -
  have "hw_store sample_hooks = sqlite_executions" by (simp add: sample_hooks_def)
  moreover have "p_ID sample_app \<in> set (project_ids sample_failed_db)" by code_simp
  moreover have "DiscoverProjectWorkflows (hw_git sample_hooks) (hw_listing sample_hooks) (hw_exists sample_hooks) sample_app
     (DiscoveryDir (hw_workspace sample_hooks) (p_ID sample_app)) (if ''2f8b1c9d0'' \<noteq> [] then ''2f8b1c9d0'' else ''main'') True
     = (Inr [''build'', ''docs''], True)" using sample_hooks_discovery by simp
  ultimately obtain es d' where es: "webhook_trigger sample_hooks sample_app Push ''main'' ''2f8b1c9d0'' [] [] False (sample_failed_db, True)
       = (Reply 200 (Accepted [''build'']), (d', True))" "map e_Workflow es = [''build'']"
      "list_all (queued_by_webhook sample_app ''main'' ''2f8b1c9d0'') es"
      "db_executions d' = db_executions sample_failed_db @ map row_of_execution es"
    using webhook_enqueues_matching [OF _ sample_failed_ok, where w = sample_hooks and p = sample_app and sha = "''2f8b1c9d0''"
        and ref = "''main''" and disc = True and event = Push and base = "[]" and changed = "[]" and isTag = False]
    unfolding Let_def sample_hooks_runs by (metis (no_types, lifting) sample_hooks_runs)
  from es(2) obtain e where "es = [e]" by (cases es) auto
  with es show ?thesis by (intro exI [of _ e] exI [of _ d']) (simp add: queued_by_webhook_def)
qed

theorem webhook_guards_witness:
  "webhook_GitHub sample_hooks (\<lambda>d. (Inr (sample_app\<lparr>p_WebhookSecret := ''s''\<rparr>), d))
     \<lparr>wr_Body = Some ''{}'', wr_Signature = ''sha256=0'', wr_Event = ''push''\<rparr> (sample_failed_db, False) = (Failure 401, (sample_failed_db, False))"
proof -
  let ?p = "sample_app\<lparr>p_WebhookSecret := ''s''\<rparr>" and ?rq = "\<lparr>wr_Body = Some ''{}'', wr_Signature = ''sha256=0'', wr_Event = ''push''\<rparr>"
  have "p_WebhookSecret ?p \<noteq> []" "\<not> hw_ValidateSignature sample_hooks (wr_Signature ?rq) ''{}'' (p_WebhookSecret ?p)"
    by (simp_all add: sample_hooks_def)
  with webhook_guards [where resolve = "\<lambda>d. (Inr ?p, d)" and p = ?p and s = sample_failed_db and w = sample_hooks and rq = ?rq and d = False]
  show ?thesis by simp
qed

end
