(* ===== verification/Postgres.thy ===== *)
theory Postgres
  imports SqliteUsers
begin

text \<open>
  The second store, \<^verbatim>\<open>internal/stores/postgres.go\<close>. Its tables are those of \<open>Database\<close> with the time columns
  (\<^verbatim>\<open>timestamptz\<close>) in microseconds; \<^verbatim>\<open>boolean\<close> columns are 0 and 1, \<^verbatim>\<open>uuid\<close> and enum columns hold the value itself.
  The order of text columns is that of the database's collation, the parameter \<open>collate\<close>. A select without
  \<^verbatim>\<open>ORDER BY\<close> lists the rows in the order of the table, which the server does not promise. Statements without a time, a text
  order or an enum are the same SQL text as in \<^verbatim>\<open>sqlite.go\<close>; the helpers on rows are shared.
\<close>

section \<open>Instants\<close>

definition microsecond :: go_duration where "microsecond = 1000"

definition unix_micro :: "go_time \<Rightarrow> int" where
  "unix_micro t = t div microsecond"

definition from_unix_micro :: "int \<Rightarrow> go_time" where
  "from_unix_micro us = us * microsecond"

definition opt_micro :: "go_time option \<Rightarrow> int option" where
  "opt_micro t = map_option unix_micro t"

definition opt_from_micro :: "int option \<Rightarrow> go_time option" where
  "opt_from_micro us = map_option from_unix_micro us"

section \<open>Projects and variables\<close>

definition pg_project_of_row :: "aead option \<Rightarrow> project_row \<Rightarrow> project" where
  "pg_project_of_row c r =
     \<lparr>p_ID = pw_id r, p_Name = pw_name r, p_RepoURL = pw_repo_url r, p_Provider = pw_provider r,
      p_AuthType = pw_auth_type r, p_AuthUser = pw_auth_user r, p_AuthSecret = decrypt c (pw_auth_secret r),
      p_WebhookSecret = decrypt c (pw_webhook_secret r), p_DefaultBranch = pw_default_branch r,
      p_CreatedAt = from_unix_micro (pw_created_at r), p_UpdatedAt = from_unix_micro (pw_updated_at r)\<rparr>"

definition pg_CreateProject :: "aead option \<Rightarrow> project \<Rightarrow> project store_op" where
  "pg_CreateProject c p0 d =
     (let p = project_defaults p0;
          authSecret = encrypt c (p_AuthSecret p);
          webhookSecret = encrypt c (p_WebhookSecret p);
          row = \<lparr>pw_id = p_ID p, pw_name = p_Name p, pw_repo_url = p_RepoURL p, pw_provider = p_Provider p,
                 pw_auth_type = p_AuthType p, pw_auth_user = p_AuthUser p, pw_auth_secret = authSecret,
                 pw_webhook_secret = webhookSecret, pw_default_branch = p_DefaultBranch p,
                 pw_created_at = unix_micro (p_CreatedAt p), pw_updated_at = unix_micro (p_UpdatedAt p),
                 pw_execution_seq = 0\<rparr>
      in if \<not> provider_IsValid (p_Provider p) \<or> \<not> auth_type_IsValid (p_AuthType p)
         then (Inl (ErrConstraint ''invalid input value for enum''), d)
         else if p_ID p \<in> set (map pw_id (db_projects d))
         then (Inl (ErrConstraint ''duplicate key value violates unique constraint''), d)
         else if p_Name p \<in> set (map pw_name (db_projects d))
         then (Inl (ErrConstraint ''duplicate key value violates unique constraint''), d)
         else (Inr (p\<lparr>p_AuthSecret := decrypt c authSecret, p_WebhookSecret := decrypt c webhookSecret\<rparr>),
               d\<lparr>db_projects := db_projects d @ [row]\<rparr>))"

definition pg_ListProjects :: "(string \<Rightarrow> string) \<Rightarrow> aead option \<Rightarrow> project list store_op" where
  "pg_ListProjects collate c d = (Inr (map (pg_project_of_row c) (sort_key (\<lambda>r. collate (pw_name r)) (db_projects d))), d)"

definition pg_GetProject :: "aead option \<Rightarrow> uuid \<Rightarrow> project store_op" where
  "pg_GetProject c i d =
     (case find (\<lambda>r. pw_id r = i) (db_projects d) of
        None \<Rightarrow> (Inl ErrNotFound, d)
      | Some r \<Rightarrow> (Inr (pg_project_of_row c r), d))"

definition pg_GetProjectByName :: "aead option \<Rightarrow> string \<Rightarrow> project store_op" where
  "pg_GetProjectByName c name d =
     (case find (\<lambda>r. pw_name r = name) (db_projects d) of
        None \<Rightarrow> (Inl ErrNotFound, d)
      | Some r \<Rightarrow> (Inr (pg_project_of_row c r), d))"

text \<open>The enum parameters are checked before any row is looked for, unlike a \<^verbatim>\<open>CHECK\<close> of SQLite.\<close>

definition pg_UpdateProject :: "aead option \<Rightarrow> project \<Rightarrow> project store_op" where
  "pg_UpdateProject c p d =
     (let authSecret = encrypt c (p_AuthSecret p);
          webhookSecret = encrypt c (p_WebhookSecret p);
          present = p_ID p \<in> set (map pw_id (db_projects d));
          set_row = (\<lambda>r. r\<lparr>pw_name := p_Name p, pw_repo_url := p_RepoURL p, pw_provider := p_Provider p,
                            pw_auth_type := p_AuthType p, pw_auth_user := p_AuthUser p, pw_auth_secret := authSecret,
                            pw_webhook_secret := webhookSecret, pw_default_branch := p_DefaultBranch p,
                            pw_updated_at := unix_micro (p_UpdatedAt p)\<rparr>)
      in if \<not> provider_IsValid (p_Provider p) \<or> \<not> auth_type_IsValid (p_AuthType p)
         then (Inl (ErrConstraint ''invalid input value for enum''), d)
         else if present \<and> list_ex (\<lambda>r. pw_name r = p_Name p \<and> pw_id r \<noteq> p_ID p) (db_projects d)
         then (Inl (ErrConstraint ''duplicate key value violates unique constraint''), d)
         else (Inr (p\<lparr>p_AuthSecret := decrypt c authSecret, p_WebhookSecret := decrypt c webhookSecret\<rparr>),
               d\<lparr>db_projects := update_rows (\<lambda>r. pw_id r = p_ID p) set_row (db_projects d)\<rparr>))"

definition pg_DeleteProject :: "uuid \<Rightarrow> unit store_op" where
  "pg_DeleteProject i d =
     (Inr (), d\<lparr>db_projects := delete_rows (\<lambda>r. pw_id r = i) (db_projects d),
                db_variables := delete_rows (\<lambda>r. vw_project_id r = Some i) (db_variables d),
                db_executions := delete_rows (\<lambda>r. ew_project_id r = i) (db_executions d),
                db_schedules := delete_rows (\<lambda>r. cw_project_id r = i) (db_schedules d)\<rparr>)"

definition pg_variable_of_row :: "aead option \<Rightarrow> variable_row \<Rightarrow> variable" where
  "pg_variable_of_row c r =
     \<lparr>v_ProjectID = vw_project_id r, v_Key = vw_key r,
      v_Value = (if vw_secret r \<noteq> 0 then decrypt c (vw_value r) else vw_value r), v_Secret = (vw_secret r \<noteq> 0)\<rparr>"

definition pg_SetVariable :: "aead option \<Rightarrow> variable \<Rightarrow> unit store_op" where
  "pg_SetVariable c v d =
     (let value = (if v_Secret v then encrypt c (v_Value v) else v_Value v);
          row = \<lparr>vw_project_id = v_ProjectID v, vw_key = v_Key v, vw_value = value,
                 vw_secret = (if v_Secret v then 1 else 0)\<rparr>;
          kept = delete_rows (\<lambda>r. vw_project_id r = v_ProjectID v \<and> vw_key r = v_Key v) (db_variables d)
      in if (case v_ProjectID v of None \<Rightarrow> False | Some p \<Rightarrow> p \<notin> set (project_ids d))
         then (Inl (ErrConstraint ''violates foreign key constraint''), d)
         else (Inr (), d\<lparr>db_variables := kept @ [row]\<rparr>))"

definition pg_ListVariables :: "(string \<Rightarrow> string) \<Rightarrow> aead option \<Rightarrow> uuid option \<Rightarrow> variable list store_op" where
  "pg_ListVariables collate c projectID d =
     (Inr (map (pg_variable_of_row c) (sort_key (\<lambda>r. collate (vw_key r)) (filter (\<lambda>r. vw_project_id r = projectID) (db_variables d)))), d)"

definition pg_GetVariable :: "aead option \<Rightarrow> uuid option \<Rightarrow> string \<Rightarrow> variable store_op" where
  "pg_GetVariable c projectID key d =
     (case find (\<lambda>r. vw_project_id r = projectID \<and> vw_key r = key) (db_variables d) of
        None \<Rightarrow> (Inl ErrNoRows, d)
      | Some r \<Rightarrow> (Inr (pg_variable_of_row c r), d))"

definition pg_DeleteVariable :: "uuid option \<Rightarrow> string \<Rightarrow> unit store_op" where
  "pg_DeleteVariable projectID key d =
     (Inr (), d\<lparr>db_variables := delete_rows (\<lambda>r. vw_project_id r = projectID \<and> vw_key r = key) (db_variables d)\<rparr>)"

section \<open>Executions\<close>

definition pg_scanExecution :: "execution_row \<Rightarrow> trigger \<Rightarrow> int \<Rightarrow> int option \<Rightarrow> int option \<Rightarrow> uuid option \<Rightarrow> string
    \<Rightarrow> int \<Rightarrow> int \<Rightarrow> execution" where
  "pg_scanExecution e trg created prev parent created_by login check_run count =
     (let attempt = (if ew_attempt e = 0 then 1 else ew_attempt e)
      in Execution0\<lparr>e_ProjectID := ew_project_id e, e_ID := ew_id e,
           e_ExecutionID := (case ew_execution_id e of None \<Rightarrow> ew_id e | Some x \<Rightarrow> x),
           e_Attempt := attempt, e_Workflow := ew_workflow e, e_Ref := ew_ref e, e_CommitSHA := ew_commit_sha e,
           e_Status := ew_status e, e_Trigger := trg, e_Steps := ew_steps_json e, e_Error := ew_error e,
           e_StartedAt := opt_from_micro (ew_started_at e), e_SetupFinishedAt := opt_from_micro (ew_setup_finished_at e),
           e_FinishedAt := opt_from_micro (ew_finished_at e), e_CreatedAt := from_unix_micro created,
           e_ConcurrencyGroup := ew_concurrency_group e, e_Source := ew_source e, e_SnapshotID := ew_snapshot_id e,
           e_PreviousAttemptID := prev, e_ParentID := parent, e_WorkspaceID := ew_workspace_id e,
           e_CreatedBy := created_by, e_CreatedByLogin := login, e_CheckRunID := check_run,
           e_AttemptsCount := (if count = 0 then attempt else count),
           e_AttemptCreatedAt := from_unix_micro (ew_created_at e)\<rparr>)"

definition pg_raw_execution :: "db \<Rightarrow> execution_row \<Rightarrow> execution" where
  "pg_raw_execution d e =
     pg_scanExecution e (ew_trigger e) (ew_created_at e)
       (if ew_trigger e = TriggerRetry then ew_parent_id e else None)
       (if ew_trigger e = TriggerRebuild then ew_parent_id e else None)
       (ew_created_by e) (user_login d (ew_created_by e)) (ew_check_run_id e) (attempts_count d e)"

definition pg_joined_execution :: "db \<Rightarrow> execution_row \<Rightarrow> execution_row \<Rightarrow> execution" where
  "pg_joined_execution d e r =
     pg_scanExecution e (ew_trigger r) (ew_created_at r)
       (if ew_trigger e = TriggerRetry then ew_parent_id e else None) (ew_parent_id r)
       (ew_created_by r) (user_login d (ew_created_by r)) (ew_check_run_id r) (attempts_count d e)"

definition pg_joined_rows :: "db \<Rightarrow> execution_row list \<Rightarrow> execution list" where
  "pg_joined_rows d rows = concat (map (\<lambda>e. case root_row d e of None \<Rightarrow> [] | Some r \<Rightarrow> [pg_joined_execution d e r]) rows)"

definition pg_row_of_execution :: "execution \<Rightarrow> execution_row" where
  "pg_row_of_execution e =
     \<lparr>ew_project_id = e_ProjectID e, ew_id = e_ID e, ew_execution_id = Some (e_ExecutionID e), ew_attempt = e_Attempt e,
      ew_workflow = e_Workflow e, ew_ref = e_Ref e, ew_commit_sha = e_CommitSHA e, ew_status = e_Status e,
      ew_trigger = e_Trigger e, ew_steps_json = e_Steps e, ew_error = e_Error e,
      ew_started_at = opt_micro (e_StartedAt e), ew_setup_finished_at = opt_micro (e_SetupFinishedAt e),
      ew_finished_at = opt_micro (e_FinishedAt e), ew_created_at = unix_micro (e_CreatedAt e), ew_claimed_by = [],
      ew_cancel_requested = 0, ew_concurrency_group = e_ConcurrencyGroup e, ew_source = e_Source e,
      ew_snapshot_id = e_SnapshotID e,
      ew_parent_id = (if e_PreviousAttemptID e \<noteq> None then e_PreviousAttemptID e else e_ParentID e),
      ew_workspace_id = e_WorkspaceID e, ew_created_by = e_CreatedBy e, ew_check_run_id = e_CheckRunID e\<rparr>"

definition pg_insert_conflict :: "execution \<Rightarrow> db \<Rightarrow> store_error option" where
  "pg_insert_conflict e d =
     (if execution_key (pg_row_of_execution e) \<in> set (map execution_key (db_executions d))
      then Some (ErrConstraint ''duplicate key value violates unique constraint'')
      else if (e_ProjectID e, e_ExecutionID e, e_Attempt e) \<in> set (attempt_keys (db_executions d))
      then Some (ErrConstraint ''duplicate key value violates unique constraint'')
      else (case e_CreatedBy e of
              None \<Rightarrow> None
            | Some u \<Rightarrow> if u \<in> set (user_ids d) then None else Some (ErrConstraint ''violates foreign key constraint'')))"

definition pg_CreateExecution :: "execution \<Rightarrow> execution store_op" where
  "pg_CreateExecution e0 d =
     (case find (\<lambda>p. pw_id p = e_ProjectID e0) (db_projects d) of
        None \<Rightarrow> (Inl ErrNoRows, d)
      | Some p \<Rightarrow>
          (let e = assign_ids (pw_execution_seq p + 1) (execution_defaults e0)
           in case pg_insert_conflict e d of
                Some err \<Rightarrow> (Inl err, d)
              | None \<Rightarrow>
                  (Inr e, d\<lparr>db_projects := bump_sequence (e_ProjectID e0) (db_projects d),
                            db_executions := db_executions d @ [pg_row_of_execution e]\<rparr>)))"

definition pg_UpdateExecution :: "execution \<Rightarrow> unit store_op" where
  "pg_UpdateExecution e d =
     (let key = at_key (e_ProjectID e) (e_ID e)
      in if e_Status e = StatusUnset
         then (Inl (ErrConstraint ''invalid input value for enum''), d)
         else (Inr (), update_executions key
                (\<lambda>r. r\<lparr>ew_status := e_Status e, ew_steps_json := e_Steps e, ew_error := e_Error e,
                       ew_started_at := opt_micro (e_StartedAt e),
                       ew_setup_finished_at := opt_micro (e_SetupFinishedAt e),
                       ew_finished_at := opt_micro (e_FinishedAt e), ew_commit_sha := e_CommitSHA e,
                       ew_concurrency_group := e_ConcurrencyGroup e\<rparr>) d))"

definition pg_GetAttempt :: "uuid \<Rightarrow> int \<Rightarrow> execution store_op" where
  "pg_GetAttempt projectID i d =
     (case find (\<lambda>r. ew_project_id r = projectID \<and> ew_id r = i) (db_executions d) of
        None \<Rightarrow> (Inl ErrNotFound, d)
      | Some r \<Rightarrow> (Inr (pg_raw_execution d r), d))"

definition pg_GetExecutionAttempt :: "uuid \<Rightarrow> int \<Rightarrow> int \<Rightarrow> execution store_op" where
  "pg_GetExecutionAttempt projectID executionID attempt d =
     (let rows = filter (\<lambda>e. ew_project_id e = projectID \<and> ew_execution_id e = Some executionID) (db_executions d);
          rows = (if 0 < attempt then filter (\<lambda>e. ew_attempt e = attempt) rows
                  else sort_key (\<lambda>e. - ew_attempt e) rows)
      in case pg_joined_rows d rows of
           [] \<Rightarrow> (Inl ErrNotFound, d)
         | e # _ \<Rightarrow> (Inr e, d))"

definition pg_ListExecutions :: "uuid \<Rightarrow> int \<Rightarrow> execution list store_op" where
  "pg_ListExecutions projectID limit d =
     (let limit = (if limit \<le> 0 then 50 else limit);
          rows = filter (\<lambda>e. ew_project_id e = projectID \<and> sibling_attempts d e \<noteq> []
                             \<and> ew_attempt e = attempts_count d e \<and> root_row d e \<noteq> None) (db_executions d)
      in (Inr (take (nat limit) (pg_joined_rows d (sort_key (\<lambda>e. (- ew_created_at e, - ew_id e)) rows))), d))"

definition pg_ListAttempts :: "uuid \<Rightarrow> int \<Rightarrow> execution list store_op" where
  "pg_ListAttempts projectID executionID d =
     (Inr (map (pg_raw_execution d)
        (sort_key ew_attempt
          (filter (\<lambda>e. ew_project_id e = projectID \<and> ew_execution_id e = Some executionID) (db_executions d)))), d)"

definition pg_SetCheckRunID :: "uuid \<Rightarrow> int \<Rightarrow> int \<Rightarrow> unit store_op" where
  "pg_SetCheckRunID projectID executionID checkRunID d =
     (Inr (), update_executions (at_key projectID executionID) (\<lambda>r. r\<lparr>ew_check_run_id := checkRunID\<rparr>) d)"

section \<open>The queue\<close>

text \<open>\<^verbatim>\<open>FOR UPDATE SKIP LOCKED\<close>: \<open>locked\<close> tells the rows that other transactions hold.\<close>

definition pg_claim_select :: "(uuid \<times> int \<Rightarrow> bool) \<Rightarrow> db \<Rightarrow> (uuid \<times> int) option" where
  "pg_claim_select locked d =
     (case sort_key ew_id (filter (\<lambda>r. ew_status r = StatusPending \<and> \<not> locked (execution_key r)) (db_executions d)) of
        [] \<Rightarrow> None
      | r # _ \<Rightarrow> Some (execution_key r))"

definition pg_claim_update :: "string \<Rightarrow> go_time \<Rightarrow> uuid \<times> int \<Rightarrow> db \<Rightarrow> bool \<times> db" where
  "pg_claim_update workerID now k d =
     (let p = (\<lambda>r. execution_key r = k \<and> ew_status r = StatusPending)
      in (list_ex p (db_executions d),
          update_executions p
            (\<lambda>r. r\<lparr>ew_status := StatusRunning, ew_claimed_by := workerID, ew_started_at := Some (unix_micro now)\<rparr>) d))"

definition pg_ClaimPendingExecution :: "(uuid \<times> int \<Rightarrow> bool) \<Rightarrow> string \<Rightarrow> go_time \<Rightarrow> execution store_op" where
  "pg_ClaimPendingExecution locked workerID now d =
     (case pg_claim_select locked d of
        None \<Rightarrow> (Inl ErrNotFound, d)
      | Some k \<Rightarrow>
          (let r = pg_claim_update workerID now k d
           in if fst r then pg_GetAttempt (fst k) (snd k) (snd r) else (Inl ErrNotFound, d)))"

definition pg_RequeueOrphanedExecutions :: "unit store_op" where
  "pg_RequeueOrphanedExecutions d =
     (Inr (), update_executions (\<lambda>r. ew_status r = StatusRunning)
                (\<lambda>r. r\<lparr>ew_status := StatusPending, ew_claimed_by := []\<rparr>) d)"

definition pg_SetCancelRequested :: "uuid \<Rightarrow> int \<Rightarrow> unit store_op" where
  "pg_SetCancelRequested projectID i d =
     (Inr (), update_executions (at_key projectID i) (\<lambda>r. r\<lparr>ew_cancel_requested := 1\<rparr>) d)"

definition pg_IsCancelRequested :: "uuid \<Rightarrow> int \<Rightarrow> bool store_op" where
  "pg_IsCancelRequested projectID i d =
     (case find (at_key projectID i) (db_executions d) of
        None \<Rightarrow> (Inl ErrNotFound, d)
      | Some r \<Rightarrow> (Inr (ew_cancel_requested r \<noteq> 0), d))"

definition pg_CountPendingExecutions :: "nat store_op" where
  "pg_CountPendingExecutions d = (Inr (length (filter (\<lambda>r. ew_status r = StatusPending) (db_executions d))), d)"

definition pg_CancelRunningInGroup :: "uuid \<Rightarrow> string \<Rightarrow> int \<Rightarrow> unit store_op" where
  "pg_CancelRunningInGroup projectID grp excludeID d =
     (Inr (), update_executions
        (\<lambda>r. ew_project_id r = projectID \<and> ew_concurrency_group r = grp \<and> ew_status r = StatusRunning \<and> ew_id r \<noteq> excludeID)
        (\<lambda>r. r\<lparr>ew_cancel_requested := 1\<rparr>) d)"

definition pg_WorkspaceBusy :: "uuid \<Rightarrow> int \<Rightarrow> bool store_op" where
  "pg_WorkspaceBusy projectID workspaceID d =
     (Inr (0 < length (filter (\<lambda>r. uses_workspace projectID workspaceID r
                                   \<and> (ew_status r = StatusPending \<or> ew_status r = StatusRunning)) (db_executions d))), d)"

definition pg_WorkspaceRetained :: "uuid \<Rightarrow> int \<Rightarrow> go_time \<Rightarrow> bool store_op" where
  "pg_WorkspaceRetained projectID workspaceID cutoff d =
     (Inr (0 < length (filter (\<lambda>r. uses_workspace projectID workspaceID r
                \<and> (ew_status r = StatusPending \<or> ew_status r = StatusRunning
                   \<or> (case ew_finished_at r of None \<Rightarrow> True | Some us \<Rightarrow> unix_micro cutoff \<le> us))) (db_executions d))), d)"

section \<open>Schedules\<close>

definition pg_schedule_of_row :: "schedule_row \<Rightarrow> schedule" where
  "pg_schedule_of_row r =
     \<lparr>c_ProjectID = cw_project_id r, c_Workflow = cw_workflow r, c_CronExpr = cw_cron_expr r,
      c_NextRunAt = from_unix_micro (cw_next_run_at r)\<rparr>"

definition pg_UpsertSchedule :: "schedule \<Rightarrow> unit store_op" where
  "pg_UpsertSchedule sch d =
     (let key = (\<lambda>r. cw_project_id r = c_ProjectID sch \<and> cw_workflow r = c_Workflow sch);
          next_us = unix_micro (c_NextRunAt sch)
      in if c_ProjectID sch \<notin> set (project_ids d)
         then (Inl (ErrConstraint ''violates foreign key constraint''), d)
         else if list_ex key (db_schedules d)
         then (Inr (), d\<lparr>db_schedules := update_rows key
                           (\<lambda>r. r\<lparr>cw_cron_expr := c_CronExpr sch, cw_next_run_at := next_us\<rparr>) (db_schedules d)\<rparr>)
         else (Inr (), d\<lparr>db_schedules := db_schedules d @
                           [\<lparr>cw_project_id = c_ProjectID sch, cw_workflow = c_Workflow sch,
                             cw_cron_expr = c_CronExpr sch, cw_next_run_at = next_us\<rparr>]\<rparr>))"

definition pg_DeleteSchedule :: "uuid \<Rightarrow> string \<Rightarrow> unit store_op" where
  "pg_DeleteSchedule projectID workflow d =
     (Inr (), d\<lparr>db_schedules := delete_rows (\<lambda>r. cw_project_id r = projectID \<and> cw_workflow r = workflow) (db_schedules d)\<rparr>)"

definition pg_ListSchedules :: "schedule list store_op" where
  "pg_ListSchedules d = (Inr (map pg_schedule_of_row (db_schedules d)), d)"

definition pg_ListDueSchedules :: "go_time \<Rightarrow> schedule list store_op" where
  "pg_ListDueSchedules now d =
     (Inr (map pg_schedule_of_row (filter (\<lambda>r. cw_next_run_at r \<le> unix_micro now) (db_schedules d))), d)"

section \<open>Users, sessions and tokens\<close>

definition pg_scanUser :: "aead option \<Rightarrow> user_row \<Rightarrow> user" where
  "pg_scanUser c r =
     \<lparr>u_ID = uw_id r, u_Provider = uw_provider r, u_ProviderUserID = uw_provider_user_id r,
      u_Login = uw_login r, u_Name = uw_name r, u_AvatarURL = uw_avatar_url r,
      u_OAuthAccessToken = decrypt c (uw_oauth_token r), u_OAuthRefreshToken = decrypt c (uw_oauth_refresh_token r),
      u_OAuthExpiresAt = opt_from_micro (uw_oauth_token_expires_at r),
      u_CreatedAt = from_unix_micro (uw_created_at r), u_LastLoginAt = from_unix_micro (uw_last_login_at r),
      u_LastOrgCheckAt = opt_from_micro (uw_last_org_check_at r), u_DisabledAt = opt_from_micro (uw_disabled_at r)\<rparr>"

definition pg_user_to_row :: "aead option \<Rightarrow> uuid \<Rightarrow> go_time \<Rightarrow> user \<Rightarrow> user_row" where
  "pg_user_to_row c fresh now u =
     (let i = (if u_ID u = uuid_Nil then fresh else u_ID u);
          created0 = (if u_CreatedAt u = zero_time then u_LastLoginAt u else u_CreatedAt u);
          created = (if created0 = zero_time then now else created0);
          lastLogin = (if u_LastLoginAt u = zero_time then created else u_LastLoginAt u)
      in \<lparr>uw_id = i, uw_provider = u_Provider u, uw_provider_user_id = u_ProviderUserID u, uw_login = u_Login u,
          uw_name = u_Name u, uw_avatar_url = u_AvatarURL u, uw_oauth_token = encrypt c (u_OAuthAccessToken u),
          uw_oauth_refresh_token = encrypt c (u_OAuthRefreshToken u),
          uw_oauth_token_expires_at = opt_micro (u_OAuthExpiresAt u), uw_created_at = unix_micro created,
          uw_last_login_at = unix_micro lastLogin, uw_last_org_check_at = opt_micro (u_LastOrgCheckAt u),
          uw_disabled_at = opt_micro (u_DisabledAt u)\<rparr>)"

definition pg_GetUser :: "aead option \<Rightarrow> uuid \<Rightarrow> user store_op" where
  "pg_GetUser c i d =
     (case find (\<lambda>r. uw_id r = i) (db_users d) of
        None \<Rightarrow> (Inl ErrNotFound, d)
      | Some r \<Rightarrow> (Inr (pg_scanUser c r), d))"

definition pg_UpsertUser :: "aead option \<Rightarrow> uuid \<Rightarrow> go_time \<Rightarrow> user \<Rightarrow> user store_op" where
  "pg_UpsertUser c fresh now u d =
     (let x = pg_user_to_row c fresh now u
      in case find (same_account x) (db_users d) of
           Some r \<Rightarrow>
             pg_GetUser c (uw_id r) (d\<lparr>db_users := update_rows (same_account x) (merge_user x) (db_users d)\<rparr>)
         | None \<Rightarrow>
             (if uw_id x \<in> set (user_ids d)
              then (Inl (ErrConstraint ''duplicate key value violates unique constraint''), d)
              else pg_GetUser c (uw_id x) (d\<lparr>db_users := db_users d @ [x]\<rparr>)))"

definition pg_ListActiveUsers :: "(string \<Rightarrow> string) \<Rightarrow> aead option \<Rightarrow> user list store_op" where
  "pg_ListActiveUsers collate c d =
     (Inr (map (pg_scanUser c) (sort_key (\<lambda>r. collate (uw_login r)) (filter (\<lambda>r. uw_disabled_at r = None) (db_users d)))), d)"

definition pg_UpdateUserOAuthToken :: "aead option \<Rightarrow> uuid \<Rightarrow> string \<Rightarrow> string \<Rightarrow> go_time option \<Rightarrow> unit store_op" where
  "pg_UpdateUserOAuthToken c i accessToken refreshToken expiresAt d =
     (Inr (), update_user i (\<lambda>r. r\<lparr>uw_oauth_token := encrypt c accessToken,
        uw_oauth_refresh_token := encrypt c refreshToken, uw_oauth_token_expires_at := opt_micro expiresAt\<rparr>) d)"

definition pg_SetUserOrgCheck :: "uuid \<Rightarrow> go_time \<Rightarrow> unit store_op" where
  "pg_SetUserOrgCheck i at d = (Inr (), update_user i (\<lambda>r. r\<lparr>uw_last_org_check_at := Some (unix_micro at)\<rparr>) d)"

definition pg_DisableUser :: "uuid \<Rightarrow> go_time \<Rightarrow> unit store_op" where
  "pg_DisableUser i at d = (Inr (), update_user i (\<lambda>r. r\<lparr>uw_disabled_at := Some (unix_micro at)\<rparr>) d)"

definition pg_scanSession :: "session_row \<Rightarrow> session" where
  "pg_scanSession r =
     \<lparr>s_ID = sw_id r, s_UserID = sw_user_id r, s_CSRFToken = sw_csrf_token r,
      s_CreatedAt = from_unix_micro (sw_created_at r), s_LastSeenAt = from_unix_micro (sw_last_seen_at r),
      s_ExpiresAt = from_unix_micro (sw_expires_at r), s_UserAgent = sw_user_agent r\<rparr>"

definition pg_CreateSession :: "session \<Rightarrow> unit store_op" where
  "pg_CreateSession s d =
     (if s_ID s \<in> set (map sw_id (db_sessions d))
      then (Inl (ErrConstraint ''duplicate key value violates unique constraint''), d)
      else if s_UserID s \<notin> set (user_ids d)
      then (Inl (ErrConstraint ''violates foreign key constraint''), d)
      else (Inr (), d\<lparr>db_sessions := db_sessions d @
              [\<lparr>sw_id = s_ID s, sw_user_id = s_UserID s, sw_csrf_token = s_CSRFToken s,
                sw_created_at = unix_micro (s_CreatedAt s), sw_last_seen_at = unix_micro (s_LastSeenAt s),
                sw_expires_at = unix_micro (s_ExpiresAt s), sw_user_agent = s_UserAgent s\<rparr>]\<rparr>))"

definition pg_GetSession :: "string \<Rightarrow> session store_op" where
  "pg_GetSession i d =
     (case find (\<lambda>r. sw_id r = i) (db_sessions d) of
        None \<Rightarrow> (Inl ErrNotFound, d)
      | Some r \<Rightarrow> (Inr (pg_scanSession r), d))"

definition pg_TouchSession :: "string \<Rightarrow> go_time \<Rightarrow> go_time \<Rightarrow> unit store_op" where
  "pg_TouchSession i seen expires d =
     (Inr (), d\<lparr>db_sessions := update_rows (\<lambda>r. sw_id r = i)
        (\<lambda>r. r\<lparr>sw_last_seen_at := unix_micro seen, sw_expires_at := unix_micro expires\<rparr>) (db_sessions d)\<rparr>)"

definition pg_DeleteSession :: "string \<Rightarrow> unit store_op" where
  "pg_DeleteSession i = delete_sessions (\<lambda>r. sw_id r = i)"

definition pg_DeleteUserSession :: "uuid \<Rightarrow> string \<Rightarrow> unit store_op" where
  "pg_DeleteUserSession userID i = delete_sessions (\<lambda>r. sw_user_id r = userID \<and> sw_id r = i)"

definition pg_DeleteUserSessions :: "uuid \<Rightarrow> unit store_op" where
  "pg_DeleteUserSessions userID = delete_sessions (\<lambda>r. sw_user_id r = userID)"

definition pg_DeleteExpiredSessions :: "go_time \<Rightarrow> unit store_op" where
  "pg_DeleteExpiredSessions before = delete_sessions (\<lambda>r. sw_expires_at r < unix_micro before)"

definition pg_ListUserSessions :: "uuid \<Rightarrow> session list store_op" where
  "pg_ListUserSessions userID d =
     (Inr (map pg_scanSession (sort_key (\<lambda>r. - sw_last_seen_at r) (filter (\<lambda>r. sw_user_id r = userID) (db_sessions d)))), d)"

definition pg_scanAPIToken :: "token_row \<Rightarrow> api_token" where
  "pg_scanAPIToken r =
     \<lparr>t_ID = tw_id r, t_UserID = tw_user_id r, t_Name = tw_name r, t_Prefix = tw_prefix r,
      t_TokenHash = tw_token_hash r, t_CreatedAt = from_unix_micro (tw_created_at r),
      t_LastUsedAt = opt_from_micro (tw_last_used_at r), t_ExpiresAt = opt_from_micro (tw_expires_at r)\<rparr>"

definition pg_CreateAPIToken :: "api_token \<Rightarrow> unit store_op" where
  "pg_CreateAPIToken t d =
     (if t_ID t \<in> set (map tw_id (db_api_tokens d))
      then (Inl (ErrConstraint ''duplicate key value violates unique constraint''), d)
      else if t_TokenHash t \<in> set (map tw_token_hash (db_api_tokens d))
      then (Inl (ErrConstraint ''duplicate key value violates unique constraint''), d)
      else if t_UserID t \<notin> set (user_ids d)
      then (Inl (ErrConstraint ''violates foreign key constraint''), d)
      else (Inr (), d\<lparr>db_api_tokens := db_api_tokens d @
              [\<lparr>tw_id = t_ID t, tw_user_id = t_UserID t, tw_name = t_Name t, tw_prefix = t_Prefix t,
                tw_token_hash = t_TokenHash t, tw_created_at = unix_micro (t_CreatedAt t),
                tw_last_used_at = opt_micro (t_LastUsedAt t), tw_expires_at = opt_micro (t_ExpiresAt t)\<rparr>]\<rparr>))"

definition pg_GetAPITokenByHash :: "string \<Rightarrow> api_token store_op" where
  "pg_GetAPITokenByHash hash d =
     (case find (\<lambda>r. tw_token_hash r = hash) (db_api_tokens d) of
        None \<Rightarrow> (Inl ErrNotFound, d)
      | Some r \<Rightarrow> (Inr (pg_scanAPIToken r), d))"

definition pg_ListAPITokens :: "uuid \<Rightarrow> api_token list store_op" where
  "pg_ListAPITokens userID d =
     (Inr (map pg_scanAPIToken (sort_key (\<lambda>r. - tw_created_at r) (filter (\<lambda>r. tw_user_id r = userID) (db_api_tokens d)))), d)"

definition pg_RenameAPIToken :: "uuid \<Rightarrow> uuid \<Rightarrow> string \<Rightarrow> unit store_op" where
  "pg_RenameAPIToken userID i name d =
     (Inr (), d\<lparr>db_api_tokens := update_rows (\<lambda>r. tw_user_id r = userID \<and> tw_id r = i)
        (\<lambda>r. r\<lparr>tw_name := name\<rparr>) (db_api_tokens d)\<rparr>)"

definition pg_DeleteAPIToken :: "uuid \<Rightarrow> uuid \<Rightarrow> unit store_op" where
  "pg_DeleteAPIToken userID i d =
     (Inr (), d\<lparr>db_api_tokens := delete_rows (\<lambda>r. tw_user_id r = userID \<and> tw_id r = i) (db_api_tokens d)\<rparr>)"

definition pg_TouchAPIToken :: "uuid \<Rightarrow> go_time \<Rightarrow> unit store_op" where
  "pg_TouchAPIToken i at d =
     (Inr (), d\<lparr>db_api_tokens := update_rows (\<lambda>r. tw_id r = i)
        (\<lambda>r. r\<lparr>tw_last_used_at := Some (unix_micro at)\<rparr>) (db_api_tokens d)\<rparr>)"

end
