(* ===== verification/PostgresMirror.thy ===== *)
theory PostgresMirror
  imports Postgres
begin

text \<open>
  The two stores agree: \<open>in_micros\<close> turns the time columns of a SQLite database into microseconds, and every operation of
  \<^verbatim>\<open>postgres.go\<close> on \<open>in_micros d\<close> answers what the operation of \<^verbatim>\<open>sqlite.go\<close> answers on \<open>d\<close> and leaves its database in
  microseconds, when the instants it is given are whole milliseconds. The text of a constraint error is the only difference.
\<close>

section \<open>Rows in microseconds\<close>

definition project_in_micros :: "project_row \<Rightarrow> project_row" where
  "project_in_micros r = r\<lparr>pw_created_at := 1000 * pw_created_at r, pw_updated_at := 1000 * pw_updated_at r\<rparr>"

definition opt_in_micros :: "int option \<Rightarrow> int option" where
  "opt_in_micros t = map_option ((*) 1000) t"

definition execution_in_micros :: "execution_row \<Rightarrow> execution_row" where
  "execution_in_micros r =
     r\<lparr>ew_started_at := opt_in_micros (ew_started_at r), ew_setup_finished_at := opt_in_micros (ew_setup_finished_at r),
       ew_finished_at := opt_in_micros (ew_finished_at r), ew_created_at := 1000 * ew_created_at r\<rparr>"

definition schedule_in_micros :: "schedule_row \<Rightarrow> schedule_row" where
  "schedule_in_micros r = r\<lparr>cw_next_run_at := 1000 * cw_next_run_at r\<rparr>"

definition user_in_micros :: "user_row \<Rightarrow> user_row" where
  "user_in_micros r =
     r\<lparr>uw_oauth_token_expires_at := opt_in_micros (uw_oauth_token_expires_at r), uw_created_at := 1000 * uw_created_at r,
       uw_last_login_at := 1000 * uw_last_login_at r, uw_last_org_check_at := opt_in_micros (uw_last_org_check_at r),
       uw_disabled_at := opt_in_micros (uw_disabled_at r)\<rparr>"

definition session_in_micros :: "session_row \<Rightarrow> session_row" where
  "session_in_micros r =
     r\<lparr>sw_created_at := 1000 * sw_created_at r, sw_last_seen_at := 1000 * sw_last_seen_at r, sw_expires_at := 1000 * sw_expires_at r\<rparr>"

definition token_in_micros :: "token_row \<Rightarrow> token_row" where
  "token_in_micros r =
     r\<lparr>tw_created_at := 1000 * tw_created_at r, tw_last_used_at := opt_in_micros (tw_last_used_at r),
       tw_expires_at := opt_in_micros (tw_expires_at r)\<rparr>"

definition in_micros :: "db \<Rightarrow> db" where
  "in_micros d = \<lparr>db_projects = map project_in_micros (db_projects d), db_variables = db_variables d,
     db_executions = map execution_in_micros (db_executions d), db_schedules = map schedule_in_micros (db_schedules d),
     db_users = map user_in_micros (db_users d), db_sessions = map session_in_micros (db_sessions d),
     db_api_tokens = map token_in_micros (db_api_tokens d)\<rparr>"

named_theorems micros

lemmas row_in_micros_defs = project_in_micros_def execution_in_micros_def schedule_in_micros_def user_in_micros_def
  session_in_micros_def token_in_micros_def

lemma in_micros_tables [micros]:
  "db_projects (in_micros d) = map project_in_micros (db_projects d)" "db_variables (in_micros d) = db_variables d"
  "db_executions (in_micros d) = map execution_in_micros (db_executions d)"
  "db_schedules (in_micros d) = map schedule_in_micros (db_schedules d)" "db_users (in_micros d) = map user_in_micros (db_users d)"
  "db_sessions (in_micros d) = map session_in_micros (db_sessions d)"
  "db_api_tokens (in_micros d) = map token_in_micros (db_api_tokens d)"
  by (simp_all add: in_micros_def)

lemma in_micros_update [micros]:
  "in_micros (d\<lparr>db_projects := ps\<rparr>) = in_micros d\<lparr>db_projects := map project_in_micros ps\<rparr>"
  "in_micros (d\<lparr>db_variables := vs\<rparr>) = in_micros d\<lparr>db_variables := vs\<rparr>"
  "in_micros (d\<lparr>db_executions := es\<rparr>) = in_micros d\<lparr>db_executions := map execution_in_micros es\<rparr>"
  "in_micros (d\<lparr>db_schedules := cs\<rparr>) = in_micros d\<lparr>db_schedules := map schedule_in_micros cs\<rparr>"
  "in_micros (d\<lparr>db_users := us\<rparr>) = in_micros d\<lparr>db_users := map user_in_micros us\<rparr>"
  "in_micros (d\<lparr>db_sessions := ss\<rparr>) = in_micros d\<lparr>db_sessions := map session_in_micros ss\<rparr>"
  "in_micros (d\<lparr>db_api_tokens := ts\<rparr>) = in_micros d\<lparr>db_api_tokens := map token_in_micros ts\<rparr>"
  by (simp_all add: in_micros_def)

lemma columns_in_micros [micros]:
  "pw_id (project_in_micros p) = pw_id p" "pw_name (project_in_micros p) = pw_name p"
  "pw_execution_seq (project_in_micros p) = pw_execution_seq p"
  "ew_project_id (execution_in_micros e) = ew_project_id e" "ew_id (execution_in_micros e) = ew_id e"
  "ew_execution_id (execution_in_micros e) = ew_execution_id e" "ew_attempt (execution_in_micros e) = ew_attempt e"
  "ew_status (execution_in_micros e) = ew_status e" "ew_trigger (execution_in_micros e) = ew_trigger e"
  "ew_cancel_requested (execution_in_micros e) = ew_cancel_requested e"
  "ew_concurrency_group (execution_in_micros e) = ew_concurrency_group e"
  "ew_parent_id (execution_in_micros e) = ew_parent_id e" "ew_workspace_id (execution_in_micros e) = ew_workspace_id e"
  "ew_created_by (execution_in_micros e) = ew_created_by e" "ew_check_run_id (execution_in_micros e) = ew_check_run_id e"
  "ew_finished_at (execution_in_micros e) = opt_in_micros (ew_finished_at e)" "ew_created_at (execution_in_micros e) = 1000 * ew_created_at e"
  "cw_project_id (schedule_in_micros c) = cw_project_id c" "cw_workflow (schedule_in_micros c) = cw_workflow c"
  "cw_next_run_at (schedule_in_micros c) = 1000 * cw_next_run_at c"
  "uw_id (user_in_micros u) = uw_id u" "uw_login (user_in_micros u) = uw_login u"
  "uw_provider (user_in_micros u) = uw_provider u" "uw_provider_user_id (user_in_micros u) = uw_provider_user_id u"
  "uw_disabled_at (user_in_micros u) = opt_in_micros (uw_disabled_at u)"
  "sw_id (session_in_micros s) = sw_id s" "sw_user_id (session_in_micros s) = sw_user_id s"
  "sw_last_seen_at (session_in_micros s) = 1000 * sw_last_seen_at s" "sw_expires_at (session_in_micros s) = 1000 * sw_expires_at s"
  "tw_id (token_in_micros t) = tw_id t" "tw_user_id (token_in_micros t) = tw_user_id t"
  "tw_token_hash (token_in_micros t) = tw_token_hash t" "tw_created_at (token_in_micros t) = 1000 * tw_created_at t"
  by (simp_all add: row_in_micros_defs)

lemma opt_in_micros_None [micros]: "(opt_in_micros t = None) = (t = None)"
  by (simp add: opt_in_micros_def)

lemma ids_in_micros [micros]:
  "project_ids (in_micros d) = project_ids d" "user_ids (in_micros d) = user_ids d"
  "map pw_id (map project_in_micros ps) = map pw_id ps" "map pw_name (map project_in_micros ps) = map pw_name ps"
  "map sw_id (map session_in_micros ss) = map sw_id ss" "map tw_id (map token_in_micros ts) = map tw_id ts"
  "map tw_token_hash (map token_in_micros ts) = map tw_token_hash ts"
  "map execution_key (map execution_in_micros es) = map execution_key es"
  "attempt_keys (map execution_in_micros es) = attempt_keys es"
  by (simp_all add: project_ids_def user_ids_def micros o_def execution_key_def attempt_keys_def cong: option.case_cong)

section \<open>Statements on rows in microseconds\<close>

lemma find_map_rows [micros]: "find p (map f xs) = map_option f (find (\<lambda>x. p (f x)) xs)"
  by (induction xs) auto

lemma filter_map_rows [micros]: "filter p (map f xs) = map f (filter (\<lambda>x. p (f x)) xs)"
  by (simp add: filter_map o_def)

lemma delete_rows_map [micros]: "delete_rows p (map f xs) = map f (delete_rows (\<lambda>x. p (f x)) xs)"
  by (simp add: delete_rows_def filter_map_rows)

lemma update_rows_map:
  assumes "\<And>x. p' x = p (f x)" "\<And>x. g (f x) = f (g' x)"
  shows "update_rows p g (map f xs) = map f (update_rows p' g' xs)"
  by (simp add: update_rows_def assms)

lemma insort_key_map: "insort_key k (f x) (map f xs) = map f (insort_key (\<lambda>x. k (f x)) x xs)"
  by (induction xs) auto

lemma sort_key_map_rows [micros]: "sort_key k (map f xs) = map f (sort_key (\<lambda>x. k (f x)) xs)"
  by (induction xs) (simp_all add: insort_key_map)

lemma insort_key_cong_le:
  "(\<And>y. y \<in> set xs \<Longrightarrow> (k x \<le> k y) = (k' x \<le> k' y)) \<Longrightarrow> insort_key k x xs = insort_key k' x xs"
  by (induction xs) auto

lemma sort_key_cong_le: "(\<And>x y. (k x \<le> k y) = (k' x \<le> k' y)) \<Longrightarrow> sort_key k xs = sort_key k' xs"
proof (induction xs)
  case (Cons x xs)
  then show ?case using insort_key_cong_le [of "sort_key k' xs" k x k'] by simp
qed simp

lemma sort_key_scaled [micros]:
  fixes k :: "'a \<Rightarrow> int"
  shows "sort_key (\<lambda>x. - (1000 * k x)) xs = sort_key (\<lambda>x. - k x) xs"
    "sort_key (\<lambda>x. (- (1000 * k x), - l x)) xs = sort_key (\<lambda>x. (- k x, - l x)) xs"
  by (rule sort_key_cong_le; auto simp: less_eq_prod_def)+

lemma list_ex_map_rows [micros]: "list_ex p (map f xs) = list_ex (\<lambda>x. p (f x)) xs"
  by (simp add: list_ex_iff)

lemma update_executions_micros:
  assumes "\<And>r. p (execution_in_micros r) = p' r" "\<And>r. g (execution_in_micros r) = execution_in_micros (g' r)"
  shows "update_executions p g (in_micros d) = in_micros (update_executions p' g' d)"
  using assms by (simp add: update_executions_def micros update_rows_map [where p' = p' and g' = g'])

lemma update_user_micros:
  assumes "\<And>r. g (user_in_micros r) = user_in_micros (g' r)"
  shows "update_user i g (in_micros d) = in_micros (update_user i g' d)"
  using assms by (simp add: update_user_def micros update_rows_map [where p' = "\<lambda>r. uw_id r = i" and g' = g'])

section \<open>Instants\<close>

definition whole :: "go_time \<Rightarrow> bool" where
  "whole t \<longleftrightarrow> t mod millisecond = 0"

definition whole_opt :: "go_time option \<Rightarrow> bool" where
  "whole_opt t \<longleftrightarrow> (case t of None \<Rightarrow> True | Some t \<Rightarrow> whole t)"

lemma from_unix_micro_scaled [micros]: "from_unix_micro (1000 * ms) = from_unix_milli ms"
  by (simp add: from_unix_micro_def microsecond_def from_unix_milli_def millisecond_def)

lemma opt_from_micro_scaled [micros]: "opt_from_micro (opt_in_micros t) = opt_from_milli t"
  by (cases t) (simp_all add: opt_from_micro_def opt_in_micros_def opt_from_milli_def from_unix_micro_scaled)

lemma unix_micro_whole: "whole t \<Longrightarrow> unix_micro t = 1000 * unix_milli t"
  by (auto simp: whole_def unix_micro_def unix_milli_def microsecond_def millisecond_def dvd_def simp flip: dvd_eq_mod_eq_0)

lemma opt_micro_whole: "whole_opt t \<Longrightarrow> opt_micro t = opt_in_micros (opt_milli t)"
  by (cases t) (simp_all add: whole_opt_def opt_micro_def opt_in_micros_def opt_milli_def unix_micro_whole)

lemma whole_zero_time: "whole zero_time"
  by (simp add: whole_def zero_time_def duration_defs)

section \<open>Operations\<close>

fun without_text :: "store_error \<Rightarrow> store_error" where
  "without_text (ErrConstraint s) = ErrConstraint []"
| "without_text e = e"

definition mirrors :: "'a store_op \<Rightarrow> 'a store_op \<Rightarrow> bool" where
  "mirrors g f \<longleftrightarrow>
     (\<forall>d. map_sum without_text id (fst (g (in_micros d))) = map_sum without_text id (fst (f d)) \<and> snd (g (in_micros d)) = in_micros (snd (f d)))"

lemma mirrorsI:
  "(\<And>d. map_sum without_text id (fst (g (in_micros d))) = map_sum without_text id (fst (f d)) \<and> snd (g (in_micros d)) = in_micros (snd (f d)))
     \<Longrightarrow> mirrors g f"
  by (simp add: mirrors_def)

lemma project_of_row_micros [micros]: "pg_project_of_row c (project_in_micros r) = project_of_row c r"
  by (simp add: pg_project_of_row_def project_of_row_def project_in_micros_def from_unix_micro_scaled)

lemma schedule_of_row_micros [micros]: "pg_schedule_of_row (schedule_in_micros r) = schedule_of_row r"
  by (simp add: pg_schedule_of_row_def schedule_of_row_def schedule_in_micros_def from_unix_micro_scaled)

lemma variable_of_row_micros [micros]: "pg_variable_of_row = variable_of_row"
  by (intro ext) (simp add: pg_variable_of_row_def variable_of_row_def)

lemma scanUser_micros [micros]: "pg_scanUser c (user_in_micros r) = scanUser c r"
  by (simp add: pg_scanUser_def scanUser_def user_in_micros_def micros)

lemma scanSession_micros [micros]: "pg_scanSession (session_in_micros r) = scanSession r"
  by (simp add: pg_scanSession_def scanSession_def session_in_micros_def micros)

lemma scanAPIToken_micros [micros]: "pg_scanAPIToken (token_in_micros r) = scanAPIToken r"
  by (simp add: pg_scanAPIToken_def scanAPIToken_def token_in_micros_def micros)

lemma project_mirrors:
  "mirrors (pg_ListProjects (\<lambda>s. s) c) (ListProjects c)" "mirrors (pg_GetProject c i) (GetProject c i)"
  "mirrors (pg_GetProjectByName c n) (GetProjectByName c n)" "mirrors (pg_DeleteProject i) (DeleteProject i)"
  by (rule mirrorsI, simp add: pg_ListProjects_def ListProjects_def pg_GetProject_def GetProject_def pg_GetProjectByName_def
      GetProjectByName_def pg_DeleteProject_def DeleteProject_def micros o_def split: option.split)+

lemma variable_mirrors:
  "mirrors (pg_SetVariable c v) (SetVariable c v)" "mirrors (pg_ListVariables (\<lambda>s. s) c p) (ListVariables c p)"
  "mirrors (pg_GetVariable c p k) (GetVariable c p k)" "mirrors (pg_DeleteVariable p k) (DeleteVariable p k)"
  by (rule mirrorsI, simp add: pg_SetVariable_def SetVariable_def pg_ListVariables_def ListVariables_def pg_GetVariable_def GetVariable_def
      pg_DeleteVariable_def DeleteVariable_def Let_def micros split: option.split)+

lemma CreateProject_mirror:
  assumes "whole (p_CreatedAt p)" "whole (p_UpdatedAt p)"
  shows "mirrors (pg_CreateProject c p) (CreateProject c p)"
  by (rule mirrorsI) (auto simp: pg_CreateProject_def CreateProject_def Let_def micros project_in_micros_def project_defaults_def
      unix_micro_whole assms)

lemma UpdateProject_mirror:
  assumes "whole (p_UpdatedAt p)" "provider_IsValid (p_Provider p)" "auth_type_IsValid (p_AuthType p)"
  shows "mirrors (pg_UpdateProject c p) (UpdateProject c p)"
proof (rule mirrorsI)
  fix d :: db
  have "update_rows (\<lambda>r. pw_id r = p_ID p) (\<lambda>r. r\<lparr>pw_name := p_Name p, pw_repo_url := p_RepoURL p, pw_provider := p_Provider p,
      pw_auth_type := p_AuthType p, pw_auth_user := p_AuthUser p, pw_auth_secret := encrypt c (p_AuthSecret p),
      pw_webhook_secret := encrypt c (p_WebhookSecret p), pw_default_branch := p_DefaultBranch p,
      pw_updated_at := unix_micro (p_UpdatedAt p)\<rparr>) (map project_in_micros (db_projects d))
    = map project_in_micros (update_rows (\<lambda>r. pw_id r = p_ID p) (\<lambda>r. r\<lparr>pw_name := p_Name p, pw_repo_url := p_RepoURL p,
      pw_provider := p_Provider p, pw_auth_type := p_AuthType p, pw_auth_user := p_AuthUser p, pw_auth_secret := encrypt c (p_AuthSecret p),
      pw_webhook_secret := encrypt c (p_WebhookSecret p), pw_default_branch := p_DefaultBranch p,
      pw_updated_at := unix_milli (p_UpdatedAt p)\<rparr>) (db_projects d))"
    by (rule update_rows_map) (simp_all add: project_in_micros_def unix_micro_whole assms)
  then show "map_sum without_text id (fst (pg_UpdateProject c p (in_micros d))) = map_sum without_text id (fst (UpdateProject c p d))
      \<and> snd (pg_UpdateProject c p (in_micros d)) = in_micros (snd (UpdateProject c p d))"
    by (simp add: pg_UpdateProject_def UpdateProject_def Let_def micros assms)
qed

lemma scanExecution_micros [micros]:
  "pg_scanExecution (execution_in_micros e) trg (1000 * t) prev parent by login check n = scanExecution e trg t prev parent by login check n"
  by (simp add: pg_scanExecution_def scanExecution_def Let_def execution_in_micros_def micros cong: option.case_cong)

lemma helpers_in_micros [micros]:
  "user_login (in_micros d) = user_login d" "sibling_attempts (in_micros d) (execution_in_micros e) = sibling_attempts d e"
  "attempts_count (in_micros d) (execution_in_micros e) = attempts_count d e"
  "root_row (in_micros d) (execution_in_micros e) = map_option execution_in_micros (root_row d e)"
proof -
  show 1: "sibling_attempts (in_micros d) (execution_in_micros e) = sibling_attempts d e"
    by (simp add: sibling_attempts_def micros o_def)
  show "user_login (in_micros d) = user_login d"
    by (intro ext) (simp add: user_login_def micros split: option.split)
  show "attempts_count (in_micros d) (execution_in_micros e) = attempts_count d e"
    by (simp add: attempts_count_def 1 micros cong: list.case_cong)
  show "root_row (in_micros d) (execution_in_micros e) = map_option execution_in_micros (root_row d e)"
    by (simp add: root_row_def micros)
qed

lemma executions_read_in_micros [micros]:
  "pg_raw_execution (in_micros d) (execution_in_micros e) = raw_execution d e"
  "pg_joined_execution (in_micros d) (execution_in_micros e) (execution_in_micros r) = joined_execution d e r"
  by (simp_all add: pg_raw_execution_def raw_execution_def pg_joined_execution_def joined_execution_def micros)

lemma joined_rows_in_micros [micros]:
  "pg_joined_rows (in_micros d) (map execution_in_micros es) = joined_rows d es"
  by (simp add: pg_joined_rows_def joined_rows_def micros o_def option.case_eq_if cong: map_cong)
    (auto intro!: arg_cong [where f = concat] simp: micros option.map_sel)

lemma execution_read_mirrors:
  "mirrors (pg_GetAttempt p i) (GetAttempt p i)" "mirrors (pg_GetExecutionAttempt p i n) (GetExecutionAttempt p i n)"
  "mirrors (pg_ListExecutions p m) (ListExecutions p m)" "mirrors (pg_ListAttempts p i) (ListAttempts p i)"
  by (rule mirrorsI, simp add: pg_GetAttempt_def GetAttempt_def pg_GetExecutionAttempt_def GetExecutionAttempt_def pg_ListExecutions_def
      ListExecutions_def pg_ListAttempts_def ListAttempts_def Let_def micros o_def split: option.split list.split)+

lemma row_of_execution_micros:
  assumes "whole_opt (e_StartedAt e)" "whole_opt (e_SetupFinishedAt e)" "whole_opt (e_FinishedAt e)" "whole (e_CreatedAt e)"
  shows "pg_row_of_execution e = execution_in_micros (row_of_execution e)"
  by (simp add: pg_row_of_execution_def row_of_execution_def execution_in_micros_def opt_micro_whole unix_micro_whole assms)

lemma bump_sequence_micros [micros]:
  "bump_sequence i (map project_in_micros ps) = map project_in_micros (bump_sequence i ps)"
  unfolding bump_sequence_def by (rule update_rows_map) (simp_all add: project_in_micros_def)

lemma insert_conflict_micros:
  "map_option without_text (pg_insert_conflict e (in_micros d)) = map_option without_text (insert_conflict e d)"
  by (simp add: pg_insert_conflict_def insert_conflict_def micros execution_key_def pg_row_of_execution_def row_of_execution_def
      split: option.split)

lemma kept_times [simp]:
  "e_StartedAt (assign_ids n e) = e_StartedAt e" "e_SetupFinishedAt (assign_ids n e) = e_SetupFinishedAt e"
  "e_FinishedAt (assign_ids n e) = e_FinishedAt e" "e_CreatedAt (assign_ids n e) = e_CreatedAt e"
  "e_StartedAt (execution_defaults e) = e_StartedAt e" "e_SetupFinishedAt (execution_defaults e) = e_SetupFinishedAt e"
  "e_FinishedAt (execution_defaults e) = e_FinishedAt e" "e_CreatedAt (execution_defaults e) = e_CreatedAt e"
  by (simp_all add: assign_ids_def execution_defaults_def Let_def)

definition whole_execution :: "execution \<Rightarrow> bool" where
  "whole_execution e \<longleftrightarrow>
     whole_opt (e_StartedAt e) \<and> whole_opt (e_SetupFinishedAt e) \<and> whole_opt (e_FinishedAt e) \<and> whole (e_CreatedAt e)"

lemma CreateExecution_mirror:
  assumes "whole_execution e"
  shows "mirrors (pg_CreateExecution e) (CreateExecution e)"
proof (rule mirrorsI)
  fix d :: db
  define next_e where "next_e n = assign_ids (n + 1) (execution_defaults e)" for n
  have row: "pg_row_of_execution (next_e n) = execution_in_micros (row_of_execution (next_e n))" for n
    using assms by (intro row_of_execution_micros) (simp_all add: next_e_def whole_execution_def)
  have conflict: "pg_insert_conflict (next_e n) (in_micros d) = None \<longleftrightarrow> insert_conflict (next_e n) d = None"
    "pg_insert_conflict (next_e n) (in_micros d) = Some x \<Longrightarrow> insert_conflict (next_e n) d = Some y \<Longrightarrow> without_text x = without_text y" for n x y
    using insert_conflict_micros [of "next_e n" d] by (auto simp: map_option_case split: option.splits)
  show "map_sum without_text id (fst (pg_CreateExecution e (in_micros d))) = map_sum without_text id (fst (CreateExecution e d))
      \<and> snd (pg_CreateExecution e (in_micros d)) = in_micros (snd (CreateExecution e d))"
  proof (cases "find (\<lambda>p. pw_id p = e_ProjectID e) (db_projects d)")
    case None
    then show ?thesis by (simp add: pg_CreateExecution_def CreateExecution_def micros)
  next
    case (Some p)
    show ?thesis
    proof (cases "insert_conflict (next_e (pw_execution_seq p)) d")
      case None
      then have "pg_insert_conflict (next_e (pw_execution_seq p)) (in_micros d) = None" using conflict(1) by simp
      with None Some row show ?thesis
        by (simp add: pg_CreateExecution_def CreateExecution_def micros Let_def next_e_def [symmetric])
    next
      case (Some y)
      then obtain x where "pg_insert_conflict (next_e (pw_execution_seq p)) (in_micros d) = Some x" using conflict(1) by fastforce
      with Some conflict(2) [OF this Some] \<open>find _ _ = Some p\<close> show ?thesis
        by (simp add: pg_CreateExecution_def CreateExecution_def micros Let_def next_e_def [symmetric])
    qed
  qed
qed

lemma UpdateExecution_mirror:
  assumes "whole_opt (e_StartedAt e)" "whole_opt (e_SetupFinishedAt e)" "whole_opt (e_FinishedAt e)" "e_Status e \<noteq> StatusUnset"
  shows "mirrors (pg_UpdateExecution e) (UpdateExecution e)"
  unfolding pg_UpdateExecution_def UpdateExecution_def Let_def
  by (rule mirrorsI) (simp add: assms opt_micro_whole, rule update_executions_micros; simp add: execution_in_micros_def at_key_def)

lemma execution_write_mirrors:
  "mirrors (pg_SetCheckRunID p i n) (SetCheckRunID p i n)" "mirrors pg_RequeueOrphanedExecutions RequeueOrphanedExecutions"
  "mirrors (pg_SetCancelRequested p i) (SetCancelRequested p i)" "mirrors (pg_CancelRunningInGroup p grp i) (CancelRunningInGroup p grp i)"
  unfolding pg_SetCheckRunID_def SetCheckRunID_def pg_RequeueOrphanedExecutions_def RequeueOrphanedExecutions_def pg_SetCancelRequested_def
    SetCancelRequested_def pg_CancelRunningInGroup_def CancelRunningInGroup_def
  by (rule mirrorsI, simp, rule update_executions_micros; simp add: execution_in_micros_def at_key_def)+

lemma at_key_in_micros [micros]: "at_key p i (execution_in_micros r) = at_key p i r"
  "uses_workspace p i (execution_in_micros r) = uses_workspace p i r" "execution_key (execution_in_micros r) = execution_key r"
  by (simp_all add: at_key_def micros uses_workspace_def execution_key_def)

lemma execution_count_mirrors:
  "mirrors (pg_IsCancelRequested p i) (IsCancelRequested p i)" "mirrors pg_CountPendingExecutions CountPendingExecutions"
  "mirrors (pg_WorkspaceBusy p i) (WorkspaceBusy p i)"
  by (rule mirrorsI, simp add: pg_IsCancelRequested_def IsCancelRequested_def pg_CountPendingExecutions_def CountPendingExecutions_def
      pg_WorkspaceBusy_def WorkspaceBusy_def micros split: option.split)+

lemma retained_in_micros:
  "whole c \<Longrightarrow> (case opt_in_micros t of None \<Rightarrow> True | Some us \<Rightarrow> unix_micro c \<le> us)
     \<longleftrightarrow> (case t of None \<Rightarrow> True | Some ms \<Rightarrow> unix_milli c \<le> ms)"
  by (cases t) (simp_all add: opt_in_micros_def unix_micro_whole)

lemma WorkspaceRetained_mirror: "whole cutoff \<Longrightarrow> mirrors (pg_WorkspaceRetained p i cutoff) (WorkspaceRetained p i cutoff)"
  by (rule mirrorsI) (simp add: pg_WorkspaceRetained_def WorkspaceRetained_def micros retained_in_micros)

text \<open>A claim that meets no locked row.\<close>

lemma ClaimPendingExecution_mirror:
  assumes "whole now"
  shows "mirrors (pg_ClaimPendingExecution (\<lambda>_. False) w now) (ClaimPendingExecution w now)"
proof (rule mirrorsI)
  fix d :: db
  have select: "pg_claim_select (\<lambda>_. False) (in_micros d) = claim_select d"
    by (simp add: pg_claim_select_def claim_select_def micros split: list.split)
  have update: "pg_claim_update w now k (in_micros d) = (fst (claim_update w now k d), in_micros (snd (claim_update w now k d)))" for k
    unfolding pg_claim_update_def claim_update_def Let_def fst_conv snd_conv
    by (intro arg_cong2 [where f = Pair] update_executions_micros, simp_all only: at_key_in_micros columns_in_micros micros)
      (simp add: execution_in_micros_def unix_micro_whole assms opt_in_micros_def)
  show "map_sum without_text id (fst (pg_ClaimPendingExecution (\<lambda>_. False) w now (in_micros d)))
        = map_sum without_text id (fst (ClaimPendingExecution w now d))
      \<and> snd (pg_ClaimPendingExecution (\<lambda>_. False) w now (in_micros d)) = in_micros (snd (ClaimPendingExecution w now d))"
    using execution_read_mirrors(1) [unfolded mirrors_def]
    by (simp add: pg_ClaimPendingExecution_def ClaimPendingExecution_def select update Let_def split: option.split)
qed

lemma schedule_mirrors:
  "mirrors (pg_DeleteSchedule p wfl) (DeleteSchedule p wfl)" "mirrors pg_ListSchedules ListSchedules"
  "whole now \<Longrightarrow> mirrors (pg_ListDueSchedules now) (ListDueSchedules now)"
  by (rule mirrorsI, simp add: pg_DeleteSchedule_def DeleteSchedule_def pg_ListSchedules_def ListSchedules_def pg_ListDueSchedules_def
      ListDueSchedules_def micros o_def unix_micro_whole)+

lemma UpsertSchedule_mirror:
  assumes "whole (c_NextRunAt sch)"
  shows "mirrors (pg_UpsertSchedule sch) (UpsertSchedule sch)"
proof -
  have "update_rows (\<lambda>r. cw_project_id r = c_ProjectID sch \<and> cw_workflow r = c_Workflow sch)
      (\<lambda>r. r\<lparr>cw_cron_expr := c_CronExpr sch, cw_next_run_at := unix_micro (c_NextRunAt sch)\<rparr>) (map schedule_in_micros rows)
    = map schedule_in_micros (update_rows (\<lambda>r. cw_project_id r = c_ProjectID sch \<and> cw_workflow r = c_Workflow sch)
      (\<lambda>r. r\<lparr>cw_cron_expr := c_CronExpr sch, cw_next_run_at := unix_milli (c_NextRunAt sch)\<rparr>) rows)" for rows
    by (rule update_rows_map) (simp_all add: schedule_in_micros_def unix_micro_whole assms)
  then show ?thesis
    by (intro mirrorsI) (simp add: pg_UpsertSchedule_def UpsertSchedule_def Let_def micros,
        simp add: schedule_in_micros_def unix_micro_whole assms)
qed

section \<open>Users, sessions and tokens\<close>

lemma user_read_mirrors:
  "mirrors (pg_GetUser c i) (GetUser c i)" "mirrors (pg_ListActiveUsers (\<lambda>s. s) c) (ListActiveUsers c)"
  by (rule mirrorsI, simp add: pg_GetUser_def GetUser_def pg_ListActiveUsers_def ListActiveUsers_def micros o_def split: option.split)+

definition whole_user :: "user \<Rightarrow> bool" where
  "whole_user u \<longleftrightarrow> whole_opt (u_OAuthExpiresAt u) \<and> whole (u_CreatedAt u) \<and> whole (u_LastLoginAt u)
     \<and> whole_opt (u_LastOrgCheckAt u) \<and> whole_opt (u_DisabledAt u)"

lemma user_to_row_micros:
  "whole now \<Longrightarrow> whole_user u \<Longrightarrow> pg_user_to_row c fresh now u = user_in_micros (user_to_row c fresh now u)"
  by (simp add: pg_user_to_row_def user_to_row_def Let_def user_in_micros_def whole_user_def opt_micro_whole unix_micro_whole)

lemma same_account_micros [micros]: "same_account (user_in_micros x) (user_in_micros r) = same_account x r"
  by (simp add: same_account_def micros)

lemma merge_user_micros [micros]: "merge_user (user_in_micros x) (user_in_micros r) = user_in_micros (merge_user x r)"
  by (simp add: merge_user_def user_in_micros_def opt_in_micros_def)

lemma UpsertUser_mirror:
  assumes "whole now" "whole_user u"
  shows "mirrors (pg_UpsertUser c fresh now u) (UpsertUser c fresh now u)"
proof (rule mirrorsI)
  fix d :: db
  define x where "x = user_to_row c fresh now u"
  have row: "pg_user_to_row c fresh now u = user_in_micros x" using assms by (simp add: x_def user_to_row_micros)
  have merged: "in_micros d\<lparr>db_users := update_rows (same_account (user_in_micros x)) (merge_user (user_in_micros x)) (map user_in_micros (db_users d))\<rparr>
      = in_micros (d\<lparr>db_users := update_rows (same_account x) (merge_user x) (db_users d)\<rparr>)"
    by (simp add: micros update_rows_map [where p' = "same_account x" and g' = "merge_user x"])
  have added: "in_micros d\<lparr>db_users := map user_in_micros (db_users d) @ [user_in_micros x]\<rparr> = in_micros (d\<lparr>db_users := db_users d @ [x]\<rparr>)"
    by (simp add: micros)
  note get = user_read_mirrors(1) [of c, unfolded mirrors_def, rule_format]
  show "map_sum without_text id (fst (pg_UpsertUser c fresh now u (in_micros d))) = map_sum without_text id (fst (UpsertUser c fresh now u d))
      \<and> snd (pg_UpsertUser c fresh now u (in_micros d)) = in_micros (snd (UpsertUser c fresh now u d))"
    unfolding pg_UpsertUser_def UpsertUser_def Let_def row x_def [symmetric] in_micros_tables find_map_rows same_account_micros
      merged added ids_in_micros(1,2) columns_in_micros
    by (cases "find (same_account x) (db_users d)") (simp_all add: get columns_in_micros)
qed

lemma user_write_mirrors:
  "whole_opt t \<Longrightarrow> mirrors (pg_UpdateUserOAuthToken c i a r t) (UpdateUserOAuthToken c i a r t)"
  "whole at \<Longrightarrow> mirrors (pg_SetUserOrgCheck i at) (SetUserOrgCheck i at)"
  "whole at \<Longrightarrow> mirrors (pg_DisableUser i at) (DisableUser i at)"
  unfolding pg_UpdateUserOAuthToken_def UpdateUserOAuthToken_def pg_SetUserOrgCheck_def SetUserOrgCheck_def pg_DisableUser_def DisableUser_def
  by (rule mirrorsI, simp, rule update_user_micros,
      simp add: user_in_micros_def opt_micro_whole unix_micro_whole opt_in_micros_def [of "Some _"])+

lemma session_read_mirrors:
  "mirrors (pg_GetSession s) (GetSession s)" "mirrors (pg_ListUserSessions i) (ListUserSessions i)"
  by (rule mirrorsI, simp add: pg_GetSession_def GetSession_def pg_ListUserSessions_def ListUserSessions_def micros o_def
      split: option.split)+

lemma session_delete_mirrors:
  "mirrors (pg_DeleteSession s) (DeleteSession s)" "mirrors (pg_DeleteUserSession i s) (DeleteUserSession i s)"
  "mirrors (pg_DeleteUserSessions i) (DeleteUserSessions i)" "whole t \<Longrightarrow> mirrors (pg_DeleteExpiredSessions t) (DeleteExpiredSessions t)"
  by (rule mirrorsI, simp add: pg_DeleteSession_def DeleteSession_def pg_DeleteUserSession_def DeleteUserSession_def
      pg_DeleteUserSessions_def DeleteUserSessions_def pg_DeleteExpiredSessions_def DeleteExpiredSessions_def delete_sessions_def
      micros unix_micro_whole)+

definition whole_session :: "session \<Rightarrow> bool" where
  "whole_session s \<longleftrightarrow> whole (s_CreatedAt s) \<and> whole (s_LastSeenAt s) \<and> whole (s_ExpiresAt s)"

lemma CreateSession_mirror: "whole_session s \<Longrightarrow> mirrors (pg_CreateSession s) (CreateSession s)"
  by (rule mirrorsI) (auto simp: pg_CreateSession_def CreateSession_def micros session_in_micros_def unix_micro_whole whole_session_def)

lemma TouchSession_mirror:
  assumes "whole seen" "whole expires"
  shows "mirrors (pg_TouchSession s seen expires) (TouchSession s seen expires)"
  unfolding pg_TouchSession_def TouchSession_def
  by (rule mirrorsI) (simp add: micros, subst update_rows_map [where p' = "\<lambda>r. sw_id r = s"
        and g' = "\<lambda>r. r\<lparr>sw_last_seen_at := unix_milli seen, sw_expires_at := unix_milli expires\<rparr>"];
      simp add: session_in_micros_def unix_micro_whole assms)

definition whole_token :: "api_token \<Rightarrow> bool" where
  "whole_token t \<longleftrightarrow> whole (t_CreatedAt t) \<and> whole_opt (t_LastUsedAt t) \<and> whole_opt (t_ExpiresAt t)"

lemma CreateAPIToken_mirror: "whole_token t \<Longrightarrow> mirrors (pg_CreateAPIToken t) (CreateAPIToken t)"
  by (rule mirrorsI) (auto simp: pg_CreateAPIToken_def CreateAPIToken_def micros token_in_micros_def unix_micro_whole opt_micro_whole
      whole_token_def)

lemma token_mirrors:
  "mirrors (pg_GetAPITokenByHash h) (GetAPITokenByHash h)" "mirrors (pg_ListAPITokens i) (ListAPITokens i)"
  "mirrors (pg_DeleteAPIToken i j) (DeleteAPIToken i j)"
  by (rule mirrorsI, simp add: pg_GetAPITokenByHash_def GetAPITokenByHash_def pg_ListAPITokens_def ListAPITokens_def
      pg_DeleteAPIToken_def DeleteAPIToken_def micros o_def split: option.split)+

lemma RenameAPIToken_mirror: "mirrors (pg_RenameAPIToken i j n) (RenameAPIToken i j n)"
  unfolding pg_RenameAPIToken_def RenameAPIToken_def
  by (rule mirrorsI) (simp add: micros, subst update_rows_map [where p' = "\<lambda>r. tw_user_id r = i \<and> tw_id r = j" and g' = "\<lambda>r. r\<lparr>tw_name := n\<rparr>"];
      simp add: token_in_micros_def)

lemma TouchAPIToken_mirror: "whole at \<Longrightarrow> mirrors (pg_TouchAPIToken i at) (TouchAPIToken i at)"
  unfolding pg_TouchAPIToken_def TouchAPIToken_def
  by (rule mirrorsI) (simp add: micros, subst update_rows_map [where p' = "\<lambda>r. tw_id r = i" and g' = "\<lambda>r. r\<lparr>tw_last_used_at := Some (unix_milli at)\<rparr>"];
      simp add: token_in_micros_def unix_micro_whole opt_in_micros_def)

end
