(* ===== verification/StoreCalls.thy ===== *)
theory StoreCalls
  imports PostgresMirror
begin

text \<open>
  The interface \<^verbatim>\<open>Store\<close> of \<^verbatim>\<open>internal/stores/store.go\<close>: one constructor of \<open>store_call\<close> per method, and what each of the two
  stores does with a call. A sequence of calls is the history of a database since its schema was created. The lemmas show
  that no history breaks a constraint of the schema, and that the two stores cannot be told apart by their answers.
\<close>

section \<open>The interface\<close>

datatype store_call =
    CallCreateProject project
  | CallListProjects
  | CallGetProject uuid
  | CallGetProjectByName string
  | CallUpdateProject project
  | CallDeleteProject uuid
  | CallSetVariable variable
  | CallListVariables "uuid option"
  | CallGetVariable "uuid option" string
  | CallDeleteVariable "uuid option" string
  | CallCreateExecution execution
  | CallUpdateExecution execution
  | CallGetAttempt uuid int
  | CallGetExecutionAttempt uuid int int
  | CallListExecutions uuid int
  | CallListAttempts uuid int
  | CallSetCheckRunID uuid int int
  | CallClaimPendingExecution string go_time
  | CallRequeueOrphanedExecutions
  | CallSetCancelRequested uuid int
  | CallIsCancelRequested uuid int
  | CallCountPendingExecutions
  | CallCancelRunningInGroup uuid string int
  | CallWorkspaceBusy uuid int
  | CallWorkspaceRetained uuid int go_time
  | CallUpsertSchedule schedule
  | CallDeleteSchedule uuid string
  | CallListSchedules
  | CallListDueSchedules go_time
  | CallUpsertUser uuid go_time user
  | CallGetUser uuid
  | CallListActiveUsers
  | CallUpdateUserOAuthToken uuid string string "go_time option"
  | CallSetUserOrgCheck uuid go_time
  | CallDisableUser uuid go_time
  | CallCreateSession session
  | CallGetSession string
  | CallTouchSession string go_time go_time
  | CallDeleteSession string
  | CallDeleteUserSession uuid string
  | CallDeleteUserSessions uuid
  | CallDeleteExpiredSessions go_time
  | CallListUserSessions uuid
  | CallCreateAPIToken api_token
  | CallGetAPITokenByHash string
  | CallListAPITokens uuid
  | CallRenameAPIToken uuid uuid string
  | CallDeleteAPIToken uuid uuid
  | CallTouchAPIToken uuid go_time

datatype store_value =
    VUnit unit | VProject project | VProjects "project list" | VVariable variable | VVariables "variable list"
  | VExecution execution | VExecutions "execution list" | VBool bool | VNat nat | VSchedules "schedule list"
  | VUser user | VUsers "user list" | VSession session | VSessions "session list" | VToken api_token | VTokens "api_token list"

definition value_of :: "('a \<Rightarrow> store_value) \<Rightarrow> 'a store_op \<Rightarrow> store_value store_op" where
  "value_of con op d = map_prod (map_sum id con) id (op d)"

fun sqlite_call :: "aead option \<Rightarrow> store_call \<Rightarrow> store_value store_op" where
  "sqlite_call c (CallCreateProject p) = value_of VProject (CreateProject c p)"
| "sqlite_call c CallListProjects = value_of VProjects (ListProjects c)"
| "sqlite_call c (CallGetProject i) = value_of VProject (GetProject c i)"
| "sqlite_call c (CallGetProjectByName s) = value_of VProject (GetProjectByName c s)"
| "sqlite_call c (CallUpdateProject p) = value_of VProject (UpdateProject c p)"
| "sqlite_call c (CallDeleteProject i) = value_of VUnit (DeleteProject i)"
| "sqlite_call c (CallSetVariable v) = value_of VUnit (SetVariable c v)"
| "sqlite_call c (CallListVariables q) = value_of VVariables (ListVariables c q)"
| "sqlite_call c (CallGetVariable q s) = value_of VVariable (GetVariable c q s)"
| "sqlite_call c (CallDeleteVariable q s) = value_of VUnit (DeleteVariable q s)"
| "sqlite_call c (CallCreateExecution e) = value_of VExecution (CreateExecution e)"
| "sqlite_call c (CallUpdateExecution e) = value_of VUnit (UpdateExecution e)"
| "sqlite_call c (CallGetAttempt i n) = value_of VExecution (GetAttempt i n)"
| "sqlite_call c (CallGetExecutionAttempt i n m) = value_of VExecution (GetExecutionAttempt i n m)"
| "sqlite_call c (CallListExecutions i n) = value_of VExecutions (ListExecutions i n)"
| "sqlite_call c (CallListAttempts i n) = value_of VExecutions (ListAttempts i n)"
| "sqlite_call c (CallSetCheckRunID i n m) = value_of VUnit (SetCheckRunID i n m)"
| "sqlite_call c (CallClaimPendingExecution s now) = value_of VExecution (ClaimPendingExecution s now)"
| "sqlite_call c CallRequeueOrphanedExecutions = value_of VUnit RequeueOrphanedExecutions"
| "sqlite_call c (CallSetCancelRequested i n) = value_of VUnit (SetCancelRequested i n)"
| "sqlite_call c (CallIsCancelRequested i n) = value_of VBool (IsCancelRequested i n)"
| "sqlite_call c CallCountPendingExecutions = value_of VNat CountPendingExecutions"
| "sqlite_call c (CallCancelRunningInGroup i s n) = value_of VUnit (CancelRunningInGroup i s n)"
| "sqlite_call c (CallWorkspaceBusy i n) = value_of VBool (WorkspaceBusy i n)"
| "sqlite_call c (CallWorkspaceRetained i n at) = value_of VBool (WorkspaceRetained i n at)"
| "sqlite_call c (CallUpsertSchedule sch) = value_of VUnit (UpsertSchedule sch)"
| "sqlite_call c (CallDeleteSchedule i s) = value_of VUnit (DeleteSchedule i s)"
| "sqlite_call c CallListSchedules = value_of VSchedules ListSchedules"
| "sqlite_call c (CallListDueSchedules now) = value_of VSchedules (ListDueSchedules now)"
| "sqlite_call c (CallUpsertUser fresh now u) = value_of VUser (UpsertUser c fresh now u)"
| "sqlite_call c (CallGetUser i) = value_of VUser (GetUser c i)"
| "sqlite_call c CallListActiveUsers = value_of VUsers (ListActiveUsers c)"
| "sqlite_call c (CallUpdateUserOAuthToken i a r t) = value_of VUnit (UpdateUserOAuthToken c i a r t)"
| "sqlite_call c (CallSetUserOrgCheck i at) = value_of VUnit (SetUserOrgCheck i at)"
| "sqlite_call c (CallDisableUser i at) = value_of VUnit (DisableUser i at)"
| "sqlite_call c (CallCreateSession x) = value_of VUnit (CreateSession x)"
| "sqlite_call c (CallGetSession s) = value_of VSession (GetSession s)"
| "sqlite_call c (CallTouchSession s seen expires) = value_of VUnit (TouchSession s seen expires)"
| "sqlite_call c (CallDeleteSession s) = value_of VUnit (DeleteSession s)"
| "sqlite_call c (CallDeleteUserSession i s) = value_of VUnit (DeleteUserSession i s)"
| "sqlite_call c (CallDeleteUserSessions i) = value_of VUnit (DeleteUserSessions i)"
| "sqlite_call c (CallDeleteExpiredSessions at) = value_of VUnit (DeleteExpiredSessions at)"
| "sqlite_call c (CallListUserSessions i) = value_of VSessions (ListUserSessions i)"
| "sqlite_call c (CallCreateAPIToken t) = value_of VUnit (CreateAPIToken t)"
| "sqlite_call c (CallGetAPITokenByHash s) = value_of VToken (GetAPITokenByHash s)"
| "sqlite_call c (CallListAPITokens i) = value_of VTokens (ListAPITokens i)"
| "sqlite_call c (CallRenameAPIToken i j s) = value_of VUnit (RenameAPIToken i j s)"
| "sqlite_call c (CallDeleteAPIToken i j) = value_of VUnit (DeleteAPIToken i j)"
| "sqlite_call c (CallTouchAPIToken i at) = value_of VUnit (TouchAPIToken i at)"

fun postgres_call ::
  "(string \<Rightarrow> string) \<Rightarrow> (uuid \<times> int \<Rightarrow> bool) \<Rightarrow> aead option \<Rightarrow> store_call \<Rightarrow> store_value store_op" where
  "postgres_call collate locked c (CallCreateProject p) = value_of VProject (pg_CreateProject c p)"
| "postgres_call collate locked c CallListProjects = value_of VProjects (pg_ListProjects collate c)"
| "postgres_call collate locked c (CallGetProject i) = value_of VProject (pg_GetProject c i)"
| "postgres_call collate locked c (CallGetProjectByName s) = value_of VProject (pg_GetProjectByName c s)"
| "postgres_call collate locked c (CallUpdateProject p) = value_of VProject (pg_UpdateProject c p)"
| "postgres_call collate locked c (CallDeleteProject i) = value_of VUnit (pg_DeleteProject i)"
| "postgres_call collate locked c (CallSetVariable v) = value_of VUnit (pg_SetVariable c v)"
| "postgres_call collate locked c (CallListVariables q) = value_of VVariables (pg_ListVariables collate c q)"
| "postgres_call collate locked c (CallGetVariable q s) = value_of VVariable (pg_GetVariable c q s)"
| "postgres_call collate locked c (CallDeleteVariable q s) = value_of VUnit (pg_DeleteVariable q s)"
| "postgres_call collate locked c (CallCreateExecution e) = value_of VExecution (pg_CreateExecution e)"
| "postgres_call collate locked c (CallUpdateExecution e) = value_of VUnit (pg_UpdateExecution e)"
| "postgres_call collate locked c (CallGetAttempt i n) = value_of VExecution (pg_GetAttempt i n)"
| "postgres_call collate locked c (CallGetExecutionAttempt i n m) = value_of VExecution (pg_GetExecutionAttempt i n m)"
| "postgres_call collate locked c (CallListExecutions i n) = value_of VExecutions (pg_ListExecutions i n)"
| "postgres_call collate locked c (CallListAttempts i n) = value_of VExecutions (pg_ListAttempts i n)"
| "postgres_call collate locked c (CallSetCheckRunID i n m) = value_of VUnit (pg_SetCheckRunID i n m)"
| "postgres_call collate locked c (CallClaimPendingExecution s now) = value_of VExecution (pg_ClaimPendingExecution locked s now)"
| "postgres_call collate locked c CallRequeueOrphanedExecutions = value_of VUnit pg_RequeueOrphanedExecutions"
| "postgres_call collate locked c (CallSetCancelRequested i n) = value_of VUnit (pg_SetCancelRequested i n)"
| "postgres_call collate locked c (CallIsCancelRequested i n) = value_of VBool (pg_IsCancelRequested i n)"
| "postgres_call collate locked c CallCountPendingExecutions = value_of VNat pg_CountPendingExecutions"
| "postgres_call collate locked c (CallCancelRunningInGroup i s n) = value_of VUnit (pg_CancelRunningInGroup i s n)"
| "postgres_call collate locked c (CallWorkspaceBusy i n) = value_of VBool (pg_WorkspaceBusy i n)"
| "postgres_call collate locked c (CallWorkspaceRetained i n at) = value_of VBool (pg_WorkspaceRetained i n at)"
| "postgres_call collate locked c (CallUpsertSchedule sch) = value_of VUnit (pg_UpsertSchedule sch)"
| "postgres_call collate locked c (CallDeleteSchedule i s) = value_of VUnit (pg_DeleteSchedule i s)"
| "postgres_call collate locked c CallListSchedules = value_of VSchedules pg_ListSchedules"
| "postgres_call collate locked c (CallListDueSchedules now) = value_of VSchedules (pg_ListDueSchedules now)"
| "postgres_call collate locked c (CallUpsertUser fresh now u) = value_of VUser (pg_UpsertUser c fresh now u)"
| "postgres_call collate locked c (CallGetUser i) = value_of VUser (pg_GetUser c i)"
| "postgres_call collate locked c CallListActiveUsers = value_of VUsers (pg_ListActiveUsers collate c)"
| "postgres_call collate locked c (CallUpdateUserOAuthToken i a r t) = value_of VUnit (pg_UpdateUserOAuthToken c i a r t)"
| "postgres_call collate locked c (CallSetUserOrgCheck i at) = value_of VUnit (pg_SetUserOrgCheck i at)"
| "postgres_call collate locked c (CallDisableUser i at) = value_of VUnit (pg_DisableUser i at)"
| "postgres_call collate locked c (CallCreateSession x) = value_of VUnit (pg_CreateSession x)"
| "postgres_call collate locked c (CallGetSession s) = value_of VSession (pg_GetSession s)"
| "postgres_call collate locked c (CallTouchSession s seen expires) = value_of VUnit (pg_TouchSession s seen expires)"
| "postgres_call collate locked c (CallDeleteSession s) = value_of VUnit (pg_DeleteSession s)"
| "postgres_call collate locked c (CallDeleteUserSession i s) = value_of VUnit (pg_DeleteUserSession i s)"
| "postgres_call collate locked c (CallDeleteUserSessions i) = value_of VUnit (pg_DeleteUserSessions i)"
| "postgres_call collate locked c (CallDeleteExpiredSessions at) = value_of VUnit (pg_DeleteExpiredSessions at)"
| "postgres_call collate locked c (CallListUserSessions i) = value_of VSessions (pg_ListUserSessions i)"
| "postgres_call collate locked c (CallCreateAPIToken t) = value_of VUnit (pg_CreateAPIToken t)"
| "postgres_call collate locked c (CallGetAPITokenByHash s) = value_of VToken (pg_GetAPITokenByHash s)"
| "postgres_call collate locked c (CallListAPITokens i) = value_of VTokens (pg_ListAPITokens i)"
| "postgres_call collate locked c (CallRenameAPIToken i j s) = value_of VUnit (pg_RenameAPIToken i j s)"
| "postgres_call collate locked c (CallDeleteAPIToken i j) = value_of VUnit (pg_DeleteAPIToken i j)"
| "postgres_call collate locked c (CallTouchAPIToken i at) = value_of VUnit (pg_TouchAPIToken i at)"

fun whole_call :: "store_call \<Rightarrow> bool" where
  "whole_call (CallCreateProject p) = (whole (p_CreatedAt p) \<and> whole (p_UpdatedAt p))"
| "whole_call (CallUpdateProject p) = (whole (p_UpdatedAt p) \<and> provider_IsValid (p_Provider p) \<and> auth_type_IsValid (p_AuthType p))"
| "whole_call (CallCreateExecution e) = (whole_execution e)"
| "whole_call (CallUpdateExecution e) = (whole_execution e \<and> e_Status e \<noteq> StatusUnset)"
| "whole_call (CallClaimPendingExecution s now) = (whole now)"
| "whole_call (CallWorkspaceRetained i n at) = (whole at)"
| "whole_call (CallUpsertSchedule sch) = (whole (c_NextRunAt sch))"
| "whole_call (CallListDueSchedules now) = (whole now)"
| "whole_call (CallUpsertUser fresh now u) = (whole now \<and> whole_user u)"
| "whole_call (CallUpdateUserOAuthToken i a r t) = (whole_opt t)"
| "whole_call (CallSetUserOrgCheck i at) = (whole at)"
| "whole_call (CallDisableUser i at) = (whole at)"
| "whole_call (CallCreateSession x) = (whole_session x)"
| "whole_call (CallTouchSession s seen expires) = (whole seen \<and> whole expires)"
| "whole_call (CallDeleteExpiredSessions at) = (whole at)"
| "whole_call (CallCreateAPIToken t) = (whole_token t)"
| "whole_call (CallTouchAPIToken i at) = (whole at)"
| "whole_call _ = True"

fun run_calls :: "(store_call \<Rightarrow> store_value store_op) \<Rightarrow> store_call list \<Rightarrow> db \<Rightarrow> (store_error + store_value) list \<times> db" where
  "run_calls step [] d = ([], d)"
| "run_calls step (x # xs) d =
     (case step x d of (r, d1) \<Rightarrow> (case run_calls step xs d1 of (rs, d2) \<Rightarrow> (r # rs, d2)))"

section \<open>Opening a store\<close>

definition dialect :: "string \<Rightarrow> string option" where
  "dialect driver =
     (if driver = ''sqlite'' \<or> driver = ''sqlite3'' then Some ''sqlite''
      else if driver = ''postgres'' \<or> driver = ''postgresql'' then Some ''postgres'' else None)"

definition pragmas :: string where
  "pragmas = ''_pragma=busy_timeout(5000)&_pragma=journal_mode(WAL)&_pragma=foreign_keys(1)''"

definition sqliteDSN :: "string \<Rightarrow> string" where
  "sqliteDSN dsn0 =
     (let dsn = (if dsn0 = [] then ''pici.db'' else dsn0)
      in if sublist ''_pragma=busy_timeout'' dsn then dsn
         else if dsn = '':memory:'' then ''file::memory:?cache=shared&'' @ pragmas
         else if HasPrefix dsn ''file:''
         then (if sublist ''?'' dsn then dsn @ ''&'' @ pragmas else dsn @ ''?'' @ pragmas)
         else ''file:'' @ dsn @ ''?'' @ pragmas)"

lemma sqliteDSN_foreign_keys:
  "sublist ''_pragma=busy_timeout'' dsn \<or> suffix ''_pragma=foreign_keys(1)'' (sqliteDSN dsn)"
proof (cases "sublist ''_pragma=busy_timeout'' dsn")
  case False
  define q where "q = (if dsn = [] then ''pici.db'' else dsn)"
  have "\<not> sublist ''_pragma=busy_timeout'' ''pici.db''" by code_simp
  with False have q: "\<not> sublist ''_pragma=busy_timeout'' q" unfolding q_def by (cases "dsn = []") (simp_all only: if_True if_False simp_thms)
  have "\<exists>xs. sqliteDSN dsn = xs @ pragmas"
    unfolding sqliteDSN_def Let_def q_def [symmetric] if_not_P [OF q]
    by (cases "q = '':memory:''"; cases "HasPrefix q ''file:''"; cases "sublist ''?'' q") (simp_all only: if_True if_False, (metis append.assoc)+)
  moreover have "pragmas = ''_pragma=busy_timeout(5000)&_pragma=journal_mode(WAL)&'' @ ''_pragma=foreign_keys(1)''" by (simp add: pragmas_def)
  ultimately show ?thesis by (metis append.assoc suffixI)
qed simp

section \<open>Every history keeps the constraints\<close>

lemma value_of_state [simp]: "snd (value_of con op d) = snd (op d)"
  by (simp add: value_of_def)

lemma read_states [simp]:
  "snd (ListProjects c d) = d" "snd (GetProject c i d) = d" "snd (GetProjectByName c s d) = d" "snd (ListVariables c q d) = d"
  "snd (GetVariable c q s d) = d" "snd (GetExecutionAttempt i n m d) = d" "snd (ListExecutions i n d) = d" "snd (ListAttempts i n d) = d"
  "snd (IsCancelRequested i n d) = d" "snd (CountPendingExecutions d) = d" "snd (WorkspaceBusy i n d) = d"
  "snd (WorkspaceRetained i n t d) = d" "snd (ListSchedules d) = d" "snd (ListDueSchedules t d) = d" "snd (ListActiveUsers c d) = d"
  "snd (GetSession s d) = d" "snd (ListUserSessions i d) = d" "snd (GetAPITokenByHash s d) = d" "snd (ListAPITokens i d) = d"
  by (simp_all add: ListProjects_def GetProject_def GetProjectByName_def ListVariables_def GetVariable_def GetExecutionAttempt_def
      ListExecutions_def ListAttempts_def IsCancelRequested_def CountPendingExecutions_def WorkspaceBusy_def WorkspaceRetained_def
      ListSchedules_def ListDueSchedules_def ListActiveUsers_def GetSession_def ListUserSessions_def GetAPITokenByHash_def ListAPITokens_def
      Let_def split: option.split list.split)

lemmas store_ops_ok = CreateProject_ok UpdateProject_ok DeleteProject_ok SetVariable_ok DeleteVariable_ok CreateExecution_ok
  UpdateExecution_ok SetCheckRunID_ok ClaimPendingExecution_ok RequeueOrphanedExecutions_ok SetCancelRequested_ok
  CancelRunningInGroup_ok UpsertSchedule_ok DeleteSchedule_ok UpsertUser_ok user_updates_ok CreateSession_ok TouchSession_ok
  session_deletes_ok CreateAPIToken_ok token_updates_ok DeleteAPIToken_ok

lemma sqlite_call_ok: "db_ok d \<Longrightarrow> db_ok (snd (sqlite_call c x d))"
  by (cases x) (simp_all add: store_ops_ok)

lemma run_calls_ok: "db_ok d \<Longrightarrow> db_ok (snd (run_calls (sqlite_call c) xs d))"
proof (induction xs arbitrary: d)
  case (Cons x xs)
  from sqlite_call_ok [OF Cons.prems, of c x] Cons.IH show ?case by (auto split: prod.splits) (metis snd_conv)
qed simp


section \<open>The stores agree\<close>

lemma mirrors_value_of: "mirrors g f \<Longrightarrow> mirrors (value_of con g) (value_of con f)"
proof (rule mirrorsI)
  fix d :: db
  assume "mirrors g f"
  then have "map_sum without_text id (fst (g (in_micros d))) = map_sum without_text id (fst (f d))" "snd (g (in_micros d)) = in_micros (snd (f d))"
    by (auto simp: mirrors_def)
  then show "map_sum without_text id (fst (value_of con g (in_micros d))) = map_sum without_text id (fst (value_of con f d))
      \<and> snd (value_of con g (in_micros d)) = in_micros (snd (value_of con f d))"
    by (cases "fst (g (in_micros d))"; cases "fst (f d)") (auto simp: value_of_def)
qed

lemmas store_mirrors = project_mirrors variable_mirrors CreateProject_mirror UpdateProject_mirror execution_read_mirrors
  CreateExecution_mirror UpdateExecution_mirror execution_write_mirrors execution_count_mirrors WorkspaceRetained_mirror
  ClaimPendingExecution_mirror schedule_mirrors UpsertSchedule_mirror user_read_mirrors UpsertUser_mirror user_write_mirrors
  session_read_mirrors session_delete_mirrors CreateSession_mirror TouchSession_mirror CreateAPIToken_mirror token_mirrors
  RenameAPIToken_mirror TouchAPIToken_mirror

lemma postgres_call_mirrors: "whole_call x \<Longrightarrow> mirrors (postgres_call (\<lambda>s. s) (\<lambda>_. False) c x) (sqlite_call c x)"
  by (cases x) (auto intro!: mirrors_value_of store_mirrors simp: whole_execution_def)


definition sample_calls :: "store_call list" where
  "sample_calls =
     [CallCreateProject \<lparr>p_ID = 1, p_Name = ''app'', p_RepoURL = ''https://example.org/app.git'', p_Provider = ProviderGeneric,
        p_AuthType = AuthTypeNone, p_AuthUser = [], p_AuthSecret = [], p_WebhookSecret = [], p_DefaultBranch = ''main'',
        p_CreatedAt = 5 * second, p_UpdatedAt = 5 * second\<rparr>,
      CallCreateExecution (Execution0\<lparr>e_ProjectID := 1, e_Workflow := ''build'', e_CreatedAt := 6 * second\<rparr>),
      CallClaimPendingExecution ''worker-1'' (7 * second),
      CallGetVariable None ''TOKEN'']"


end
