(* ===== verification/Stream.thy ===== *)
theory Stream
  imports Workspace Models "HOL-Library.AList" "HOL-Library.Multiset"
begin

text \<open>
  Following a run: \<^verbatim>\<open>internal/ci/stream.go\<close>. The loop is a function of the list of its rounds; a round is what the file
  system shows during its sweep, the answer of the store, what the file system shows to the last sweep of a finished run, and
  whether the context is done when the loop waits. Emitting an event may fail, which the predicate \<open>fails\<close> decides from the
  events emitted so far. Go ranges over the map of open files in any order: \<open>order\<close> is that order.

  The lemmas show that a client that follows a run to its end receives every line of every log exactly once and in order,
  whatever the pace at which the files grow and the sweeps happen.
\<close>

section \<open>Events\<close>

record step_state =
  ss_Name :: string
  ss_Status :: step_status
  ss_ExitCode :: int
  ss_StartedAt :: "go_time option"
  ss_FinishedAt :: "go_time option"
  ss_Timeout :: go_duration

record execution_state =
  xs_Status :: status
  xs_Steps :: "step_state list"

datatype stream_event = LogEvent string string | StateEvent execution_state | DoneEvent status

definition executionState :: "execution \<Rightarrow> execution_state" where
  "executionState e =
     \<lparr>xs_Status = e_Status e,
      xs_Steps = map (\<lambda>s. \<lparr>ss_Name = r_Name s, ss_Status = r_Status s, ss_ExitCode = r_ExitCode s, ss_StartedAt = r_StartedAt s,
        ss_FinishedAt = r_FinishedAt s, ss_Timeout = r_Timeout s\<rparr>) (e_Steps e)\<rparr>"

section \<open>Sweeping the files\<close>

definition newline :: char where "newline = CHR 0x0A"

text \<open>What a sweep sees: the paths, the size of a file and what is read from an offset on; \<open>None\<close> is an error.\<close>

record log_view =
  lv_paths :: "string list"
  lv_size :: "string \<Rightarrow> nat option"
  lv_tail :: "string \<Rightarrow> nat \<Rightarrow> string option"

record stream_file =
  sf_offset :: nat
  sf_partial :: string

definition new_file :: stream_file where "new_file = \<lparr>sf_offset = 0, sf_partial = []\<rparr>"

function drain :: "string \<Rightarrow> string list \<times> string" where
  "drain s =
     (case IndexByte s newline of
        None \<Rightarrow> ([], s)
      | Some idx \<Rightarrow> (case drain (drop (idx + 1) s) of (ls, rest) \<Rightarrow> (take idx s # ls, rest)))"
  by pat_completeness auto
termination
  by (relation "measure length") (auto simp: IndexByte_Some)

declare drain.simps [simp del]

definition sweep_file :: "log_view \<Rightarrow> string \<Rightarrow> stream_file \<Rightarrow> string list \<times> stream_file" where
  "sweep_file v path st =
     (case lv_size v path of
        None \<Rightarrow> ([], st)
      | Some n \<Rightarrow>
          (if n \<le> sf_offset st then ([], st)
           else (case lv_tail v path (sf_offset st) of
                   None \<Rightarrow> ([], st)
                 | Some data \<Rightarrow>
                     if data = [] then ([], st)
                     else (case drain (sf_partial st @ data) of
                        (ls, rest) \<Rightarrow> (ls, \<lparr>sf_offset = sf_offset st + length data, sf_partial = rest\<rparr>)))))"

type_synonym stream_files = "(string \<times> stream_file) list"

definition file_of :: "stream_files \<Rightarrow> string \<Rightarrow> stream_file" where
  "file_of files path = (case map_of files path of None \<Rightarrow> new_file | Some st \<Rightarrow> st)"

text \<open>\<^verbatim>\<open>emit\<close>: the events are sent one by one until one fails.\<close>

fun emit_all :: "(stream_event list \<Rightarrow> bool) \<Rightarrow> stream_event list \<Rightarrow> stream_event list \<Rightarrow> bool \<times> stream_event list" where
  "emit_all fails [] out = (True, out)"
| "emit_all fails (e # es) out = (if fails out then (False, out) else emit_all fails es (out @ [e]))"

fun sweep :: "(stream_event list \<Rightarrow> bool) \<Rightarrow> log_view \<Rightarrow> string list \<Rightarrow> stream_files \<Rightarrow> stream_event list
    \<Rightarrow> bool \<times> stream_files \<times> stream_event list" where
  "sweep fails v [] files out = (True, files, out)"
| "sweep fails v (path # paths) files out =
     (case sweep_file v path (file_of files path) of
        (ls, st) \<Rightarrow>
          (case emit_all fails (map (LogEvent (LogSource path)) ls) out of
             (ok, out1) \<Rightarrow>
               (if ok then sweep fails v paths (AList.update path st files) out1
                else (False, AList.update path st files, out1))))"

section \<open>The loop\<close>

record round =
  rd_logs :: log_view
  rd_attempt :: "store_error + execution"
  rd_after :: log_view
  rd_cancelled :: bool

datatype stream_end = EmitFailed | StoreFailed store_error | StreamCanceled | StreamDone | StillRunning

definition flush_events :: "(stream_files \<Rightarrow> stream_files) \<Rightarrow> stream_files \<Rightarrow> stream_event list" where
  "flush_events order files =
     map (\<lambda>(path, st). LogEvent (LogSource path) (sf_partial st)) (filter (\<lambda>(path, st). sf_partial st \<noteq> []) (order files))"

definition finished_status :: "status \<Rightarrow> bool" where
  "finished_status s \<longleftrightarrow> s \<in> {StatusSuccess, StatusFailed, StatusCanceled}"

fun StreamLogs :: "(stream_event list \<Rightarrow> bool) \<Rightarrow> (stream_files \<Rightarrow> stream_files) \<Rightarrow> round list \<Rightarrow> execution_state option
    \<Rightarrow> stream_files \<Rightarrow> stream_event list \<Rightarrow> stream_end \<times> stream_event list" where
  "StreamLogs fails order [] last_state files out = (StillRunning, out)"
| "StreamLogs fails order (r # rs) last_state files out =
     (case sweep fails (rd_logs r) (lv_paths (rd_logs r)) files out of
        (ok, files1, out1) \<Rightarrow>
          (if \<not> ok then (EmitFailed, out1)
           else (case rd_attempt r of
                   Inl e \<Rightarrow> (StoreFailed e, out1)
                 | Inr execution \<Rightarrow>
                     (let state = executionState execution
                      in case emit_all fails (if last_state = Some state then [] else [StateEvent state]) out1 of
                           (ok, out2) \<Rightarrow>
                             (if \<not> ok then (EmitFailed, out2)
                              else if finished_status (e_Status execution)
                              then (case sweep fails (rd_after r) (lv_paths (rd_after r)) files1 out2 of
                                      (ok, files3, out3) \<Rightarrow>
                                        (if \<not> ok then (EmitFailed, out3)
                                         else (case emit_all fails (flush_events order files3 @ [DoneEvent (e_Status execution)]) out3 of
                                                 (ok, out4) \<Rightarrow> (if ok then (StreamDone, out4) else (EmitFailed, out4)))))
                              else if rd_cancelled r then (StreamCanceled, out2)
                              else StreamLogs fails order rs (Some state) files1 out2)))))"

section \<open>Every line once, in order\<close>

text \<open>The lines of a log; a last line without a newline counts when it is not empty.\<close>

definition log_lines :: "string \<Rightarrow> string list" where
  "log_lines s = (let parts = SplitByte s newline in if last parts = [] then butlast parts else parts)"

definition unlines :: "string list \<Rightarrow> string" where
  "unlines ls = concat (map (\<lambda>l. l @ [newline]) ls)"

lemma unlines_simps [simp]: "unlines [] = []" "unlines (l # ls) = l @ newline # unlines ls" "unlines (ks @ ls) = unlines ks @ unlines ls"
  by (simp_all add: unlines_def)

lemma log_lines_unlines:
  "\<forall>l \<in> set ls. newline \<notin> set l \<Longrightarrow> newline \<notin> set rest \<Longrightarrow> log_lines (unlines ls @ rest) = ls @ (if rest = [] then [] else [rest])"
proof -
  assume "\<forall>l \<in> set ls. newline \<notin> set l" "newline \<notin> set rest"
  then have "SplitByte (unlines ls @ rest) newline = ls @ [rest]"
    by (induction ls) (simp_all add: SplitByte_no SplitByte_append)
  then show ?thesis by (simp add: log_lines_def)
qed

lemma drain_spec:
  "drain s = (ls, rest) \<Longrightarrow> unlines ls @ rest = s \<and> newline \<notin> set rest \<and> (\<forall>l \<in> set ls. newline \<notin> set l)"
proof (induction s arbitrary: ls rest rule: drain.induct)
  case (1 s)
  show ?case
  proof (cases "IndexByte s newline")
    case None
    with 1(2) show ?thesis by (auto simp: drain.simps [of s] IndexByte_None)
  next
    case (Some i)
    obtain ks r where d: "drain (drop (i + 1) s) = (ks, r)" by fastforce
    from 1(1) [OF Some d] have IH: "unlines ks @ r = drop (i + 1) s" "newline \<notin> set r" "\<forall>l \<in> set ks. newline \<notin> set l" by auto
    from Some have i: "i < length s" "s ! i = newline" "newline \<notin> set (take i s)" by (auto simp: IndexByte_Some)
    from 1(2) Some d have "ls = take i s # ks" "rest = r" by (auto simp: drain.simps [of s])
    with IH i show ?thesis using id_take_nth_drop [of i s] by simp
  qed
qed

text \<open>A file that has been read up to its offset: what was emitted and what is held back make up that part of it.\<close>

definition caught_up :: "string \<Rightarrow> string list \<Rightarrow> stream_file \<Rightarrow> bool" where
  "caught_up content ls st \<longleftrightarrow>
     sf_offset st \<le> length content \<and> unlines ls @ sf_partial st = take (sf_offset st) content
     \<and> newline \<notin> set (sf_partial st) \<and> (\<forall>l \<in> set ls. newline \<notin> set l)"

lemma caught_up_new [simp]: "caught_up content [] new_file"
  by (simp add: caught_up_def new_file_def)

lemma caught_up_grow: "caught_up c ls st \<Longrightarrow> prefix c c' \<Longrightarrow> caught_up c' ls st"
  by (auto simp: caught_up_def prefix_def)

text \<open>A sweep shows the contents \<open>c\<close> when it reads what the files hold; a size taken earlier may be smaller.\<close>

definition shows_logs :: "(string \<Rightarrow> string) \<Rightarrow> log_view \<Rightarrow> bool" where
  "shows_logs c v \<longleftrightarrow>
     (\<forall>p \<in> set (lv_paths v). (\<exists>n \<le> length (c p). lv_size v p = Some n) \<and> lv_tail v p = (\<lambda>k. Some (drop k (c p))))"

definition settled_logs :: "(string \<Rightarrow> string) \<Rightarrow> log_view \<Rightarrow> bool" where
  "settled_logs c v \<longleftrightarrow> shows_logs c v \<and> (\<forall>p \<in> set (lv_paths v). lv_size v p = Some (length (c p)))"

lemma sweep_file_step:
  assumes "caught_up (c p) ls st" "shows_logs c v" "p \<in> set (lv_paths v)" "sweep_file v p st = (new, st')"
  shows "caught_up (c p) (ls @ new) st'"
    "lv_size v p = Some (length (c p)) \<Longrightarrow> sf_offset st' = length (c p)"
proof -
  from assms(2,3) obtain n where n: "n \<le> length (c p)" "lv_size v p = Some n" "lv_tail v p = (\<lambda>k. Some (drop k (c p)))"
    by (auto simp: shows_logs_def)
  have "caught_up (c p) (ls @ new) st' \<and> (n = length (c p) \<longrightarrow> sf_offset st' = length (c p))"
  proof (cases "n \<le> sf_offset st")
    case True
    then have "new = []" "st' = st" using assms(4) n by (auto simp: sweep_file_def)
    with True assms(1) show ?thesis by (auto simp: caught_up_def)
  next
    case False
    then have data: "drop (sf_offset st) (c p) \<noteq> []" using n(1) by simp
    obtain ks rest where d: "drain (sf_partial st @ drop (sf_offset st) (c p)) = (ks, rest)" by fastforce
    with assms(4) False n data have eq: "new = ks" "st' = \<lparr>sf_offset = length (c p), sf_partial = rest\<rparr>"
      by (auto simp: sweep_file_def)
    from assms(1) have "unlines ls @ sf_partial st @ drop (sf_offset st) (c p) = c p"
      by (simp add: caught_up_def) (metis append.assoc append_take_drop_id)
    with drain_spec [OF d] assms(1) show ?thesis by (auto simp: eq caught_up_def)
  qed
  with n(2) show "caught_up (c p) (ls @ new) st'" "lv_size v p = Some (length (c p)) \<Longrightarrow> sf_offset st' = length (c p)" by auto
qed

definition source_lines :: "string \<Rightarrow> stream_event list \<Rightarrow> string list" where
  "source_lines src out = concat (map (\<lambda>e. case e of LogEvent s l \<Rightarrow> if s = src then [l] else [] | _ \<Rightarrow> []) out)"

definition reported_states :: "stream_event list \<Rightarrow> execution_state list" where
  "reported_states out = concat (map (\<lambda>e. case e of StateEvent s \<Rightarrow> [s] | _ \<Rightarrow> []) out)"

definition done_events :: "stream_event list \<Rightarrow> status list" where
  "done_events out = concat (map (\<lambda>e. case e of DoneEvent s \<Rightarrow> [s] | _ \<Rightarrow> []) out)"

lemmas stream_event_lists = source_lines_def reported_states_def done_events_def

lemma event_lists_append [simp]:
  "source_lines src (xs @ ys) = source_lines src xs @ source_lines src ys"
  "reported_states (xs @ ys) = reported_states xs @ reported_states ys" "done_events (xs @ ys) = done_events xs @ done_events ys"
  by (simp_all add: stream_event_lists)

lemma event_lists_basic [simp]:
  "source_lines src [] = []" "reported_states [] = []" "done_events [] = []"
  "source_lines src [StateEvent x] = []" "reported_states [StateEvent x] = [x]" "done_events [StateEvent x] = []"
  "source_lines src [LogEvent s l] = (if s = src then [l] else [])" "reported_states [LogEvent s l] = []" "done_events [LogEvent s l] = []"
  "source_lines src [DoneEvent y] = []" "reported_states [DoneEvent y] = []" "done_events [DoneEvent y] = [y]"
  by (simp_all add: stream_event_lists)

lemma event_lists_log [simp]:
  "source_lines src (map (LogEvent s) ls) = (if s = src then ls else [])" "reported_states (map (LogEvent s) ls) = []"
  "done_events (map (LogEvent s) ls) = []"
  by (induction ls) (auto simp: stream_event_lists)

lemma emit_all_ok [simp]: "emit_all (\<lambda>_. False) es out = (True, out @ es)"
  by (induction es arbitrary: out) simp_all

definition tracked :: "string set \<Rightarrow> (string \<Rightarrow> string) \<Rightarrow> stream_files \<Rightarrow> stream_event list \<Rightarrow> bool" where
  "tracked P c files out \<longleftrightarrow>
     inj_on LogSource P \<and> fst ` set files \<subseteq> P \<and> distinct (map fst files)
     \<and> (\<forall>p \<in> P. caught_up (c p) (source_lines (LogSource p) out) (file_of files p))"

lemma tracked_grow: "tracked P c files out \<Longrightarrow> \<forall>p. prefix (c p) (c' p) \<Longrightarrow> tracked P c' files out"
  by (auto simp: tracked_def intro: caught_up_grow)

lemma file_of_update [simp]: "file_of (AList.update p st files) q = (if q = p then st else file_of files q)"
  by (simp add: file_of_def update_conv')

lemma sweep_spec:
  assumes "tracked P c files out" "shows_logs c v" "set (lv_paths v) \<subseteq> P" "set ps \<subseteq> set (lv_paths v)"
  shows "\<exists>files' new. sweep (\<lambda>_. False) v ps files out = (True, files', out @ new) \<and> tracked P c files' (out @ new)
    \<and> reported_states new = [] \<and> done_events new = []
    \<and> (\<forall>p. p \<in> set ps \<and> lv_size v p = Some (length (c p)) \<or> p \<notin> set ps \<and> sf_offset (file_of files p) = length (c p)
          \<longrightarrow> sf_offset (file_of files' p) = length (c p))"
  using assms(1,4)
proof (induction ps arbitrary: files out)
  case Nil
  then show ?case by simp
next
  case (Cons q ps)
  have q: "q \<in> set (lv_paths v)" "q \<in> P" using Cons.prems(2) assms(3) by auto
  obtain ls st where st: "sweep_file v q (file_of files q) = (ls, st)" by fastforce
  let ?out = "out @ map (LogEvent (LogSource q)) ls" and ?files = "AList.update q st files"
  have "caught_up (c q) (source_lines (LogSource q) out) (file_of files q)" using Cons.prems(1) q by (simp add: tracked_def)
  note step = sweep_file_step [where c = c and p = q, OF this assms(2) q(1) st]
  have other: "LogSource p \<noteq> LogSource q" if "p \<in> P" "p \<noteq> q" for p
    using Cons.prems(1) q that by (auto simp: tracked_def dest: inj_onD)
  have "caught_up (c p) (source_lines (LogSource p) ?out) (file_of ?files p)" if "p \<in> P" for p
    using Cons.prems(1) step(1) other [OF that] that by (cases "p = q") (auto simp: tracked_def)
  moreover have "fst ` set ?files \<subseteq> P" "distinct (map fst ?files)"
    using Cons.prems(1) q(2) by (auto simp: tracked_def dom_update distinct_update)
  ultimately have "tracked P c ?files ?out" using Cons.prems(1) by (simp add: tracked_def)
  from Cons.IH [OF this] Cons.prems(2) obtain files' new where
    IH: "sweep (\<lambda>_. False) v ps ?files ?out = (True, files', ?out @ new)" "tracked P c files' (?out @ new)"
      "reported_states new = []" "done_events new = []"
      "\<forall>p. p \<in> set ps \<and> lv_size v p = Some (length (c p)) \<or> p \<notin> set ps \<and> sf_offset (file_of ?files p) = length (c p)
          \<longrightarrow> sf_offset (file_of files' p) = length (c p)" by auto
  have "sweep (\<lambda>_. False) v (q # ps) files out = (True, files', out @ map (LogEvent (LogSource q)) ls @ new)"
    using st IH(1) by simp
  moreover have "sf_offset (file_of files' p) = length (c p)"
    if "p \<in> set (q # ps) \<and> lv_size v p = Some (length (c p)) \<or> p \<notin> set (q # ps) \<and> sf_offset (file_of files p) = length (c p)" for p
    using that step(2) IH(5) [rule_format, of p] by (cases "p = q"; cases "p \<in> set ps") auto
  ultimately show ?case using IH(2,3,4) by (intro exI [of _ files'] exI [of _ "map (LogEvent (LogSource q)) ls @ new"]) simp
qed

lemma flush_lines:
  assumes "inj_on LogSource P" "fst ` set xs \<subseteq> P" "distinct (map fst xs)" "p \<in> P"
  shows "source_lines (LogSource p) (flush_events (\<lambda>x. x) xs)
    = (case map_of xs p of None \<Rightarrow> [] | Some st \<Rightarrow> if sf_partial st = [] then [] else [sf_partial st])"
  using assms(2,3)
proof (induction xs)
  case (Cons x xs)
  obtain q st where x: "x = (q, st)" by fastforce
  have src: "LogSource q = LogSource p \<longleftrightarrow> q = p" using Cons.prems assms(1,4) x by (auto dest: inj_onD)
  have "map_of xs p = None" if "q = p" using Cons.prems x that by (auto simp: map_of_eq_None_iff)
  moreover have "flush_events (\<lambda>x. x) (x # xs)
      = (if sf_partial st = [] then [] else map (LogEvent (LogSource q)) [sf_partial st]) @ flush_events (\<lambda>x. x) xs"
    by (simp add: flush_events_def x)
  ultimately show ?case using Cons src x by auto
qed (simp add: flush_events_def)

lemma flush_spec:
  assumes "tracked P c files out" "mset (order files) = mset files" "p \<in> P" "sf_offset (file_of files p) = length (c p)"
  shows "source_lines (LogSource p) (out @ flush_events order files) = log_lines (c p)"
proof -
  let ?st = "file_of files p" and ?ls = "source_lines (LogSource p) out"
  from assms(1) have t: "inj_on LogSource P" "fst ` set files \<subseteq> P" "distinct (map fst files)" by (auto simp: tracked_def)
  have set: "set (order files) = set files" using mset_eq_setD [OF assms(2)] .
  have dist: "distinct (map fst (order files))" 
    using mset_eq_imp_distinct_iff [of "map fst (order files)" "map fst files"] t(3) assms(2) by simp
  have "map_of (order files) = map_of files" using map_of_inject_set [OF dist t(3)] set by simp
  moreover have "flush_events order files = flush_events (\<lambda>x. x) (order files)" by (simp add: flush_events_def)
  ultimately have flush: "source_lines (LogSource p) (flush_events order files) = (if sf_partial ?st = [] then [] else [sf_partial ?st])"
    using flush_lines [OF t(1) _ dist assms(3)] t(2) set by (simp add: file_of_def new_file_def split: option.splits)
  from assms(1,3) have "caught_up (c p) ?ls ?st" by (simp add: tracked_def)
  then have "unlines ?ls @ sf_partial ?st = c p" "newline \<notin> set (sf_partial ?st)" "\<forall>l \<in> set ?ls. newline \<notin> set l"
    using assms(4) by (simp_all add: caught_up_def)
  with flush show ?thesis using log_lines_unlines [of ?ls "sf_partial ?st"] by simp
qed

lemma flush_quiet [simp]: "reported_states (flush_events order files) = []" "done_events (flush_events order files) = []"
proof -
  have "reported_states (map (\<lambda>(path, st). LogEvent (LogSource path) (sf_partial st)) xs) = []"
    "done_events (map (\<lambda>(path, st). LogEvent (LogSource path) (sf_partial st)) xs) = []" for xs
    by (induction xs) (auto simp: stream_event_lists)
  then show "reported_states (flush_events order files) = []" "done_events (flush_events order files) = []"
    by (simp_all add: flush_events_def)
qed

text \<open>The history of the log files: they only grow, and every round sees what they hold at that time.\<close>

fun log_history :: "string set \<Rightarrow> (string \<Rightarrow> string) \<Rightarrow> (round \<times> (string \<Rightarrow> string)) list \<Rightarrow> (string \<Rightarrow> string) \<Rightarrow> bool" where
  "log_history P c [] final \<longleftrightarrow> (\<forall>p. prefix (c p) (final p))"
| "log_history P c ((r, c') # rs) final \<longleftrightarrow>
     (\<forall>p. prefix (c p) (c' p)) \<and> shows_logs c' (rd_logs r) \<and> set (lv_paths (rd_logs r)) \<subseteq> P \<and> log_history P c' rs final"

definition round_status :: "round \<Rightarrow> execution option" where
  "round_status r = (case rd_attempt r of Inl _ \<Rightarrow> None | Inr e \<Rightarrow> Some e)"

definition waiting_round :: "round \<Rightarrow> bool" where
  "waiting_round r \<longleftrightarrow> \<not> rd_cancelled r \<and> (case rd_attempt r of Inl _ \<Rightarrow> False | Inr e \<Rightarrow> \<not> finished_status (e_Status e))"

definition round_state :: "round \<Rightarrow> execution_state" where
  "round_state r = (case rd_attempt r of Inl _ \<Rightarrow> executionState Execution0 | Inr e \<Rightarrow> executionState e)"

fun new_states :: "execution_state option \<Rightarrow> execution_state list \<Rightarrow> execution_state list" where
  "new_states prev [] = []"
| "new_states prev (x # xs) = (if prev = Some x then [] else [x]) @ new_states (Some x) xs"

lemma new_states_remdups: "new_states None xs = remdups_adj xs"
proof -
  have "x # new_states (Some x) ys = remdups_adj (x # ys)" for x ys
    by (induction ys arbitrary: x) auto
  then show ?thesis by (cases xs) simp_all
qed

lemma StreamLogs_wait:
  assumes "sweep (\<lambda>_. False) (rd_logs r) (lv_paths (rd_logs r)) files out = (True, files1, out1)"
    and "rd_attempt r = Inr e" "\<not> finished_status (e_Status e)" "\<not> rd_cancelled r"
  shows "StreamLogs (\<lambda>_. False) order (r # rs) prev files out = StreamLogs (\<lambda>_. False) order rs (Some (executionState e)) files1
    (out1 @ (if prev = Some (executionState e) then [] else [StateEvent (executionState e)]))"
  using assms by (simp add: Let_def)

lemma stream_spec:
  assumes "tracked P c files out" "log_history P c (hist @ [(r, c1)]) final"
    and "list_all (\<lambda>h. waiting_round (fst h)) hist" "rd_attempt r = Inr e" "finished_status (e_Status e)"
    and "settled_logs final (rd_after r)" "set (lv_paths (rd_after r)) = P" "\<And>x. mset (order x) = mset x"
  shows "\<exists>new. StreamLogs (\<lambda>_. False) order (map fst hist @ [r]) prev files out = (StreamDone, out @ new @ [DoneEvent (e_Status e)])
    \<and> done_events new = [] \<and> reported_states new = new_states prev (map round_state (map fst hist @ [r]))
    \<and> (\<forall>p \<in> P. source_lines (LogSource p) (out @ new) = log_lines (final p))"
  using assms(1-3)
proof (induction hist arbitrary: c files out prev)
  case Nil
  then have "tracked P c1 files out" and v: "shows_logs c1 (rd_logs r)" "set (lv_paths (rd_logs r)) \<subseteq> P" "\<forall>p. prefix (c1 p) (final p)"
    by (auto intro: tracked_grow)
  from sweep_spec [OF this(1) v(1,2) subset_refl] obtain files1 new1 where
    s1: "sweep (\<lambda>_. False) (rd_logs r) (lv_paths (rd_logs r)) files out = (True, files1, out @ new1)"
      "tracked P c1 files1 (out @ new1)" "reported_states new1 = []" "done_events new1 = []" by blast
  let ?st = "if prev = Some (executionState e) then [] else [StateEvent (executionState e)]"
  have "tracked P final files1 (out @ new1 @ ?st)"
    using tracked_grow [OF s1(2) v(3)] by (auto simp: tracked_def)
  from sweep_spec [OF this, of "rd_after r" "lv_paths (rd_after r)"] assms(6,7) obtain files2 new2 where
    s2: "sweep (\<lambda>_. False) (rd_after r) (lv_paths (rd_after r)) files1 (out @ new1 @ ?st) = (True, files2, (out @ new1 @ ?st) @ new2)"
      "tracked P final files2 ((out @ new1 @ ?st) @ new2)" "reported_states new2 = []" "done_events new2 = []"
      "\<forall>p \<in> P. sf_offset (file_of files2 p) = length (final p)" by (auto simp: settled_logs_def)
  have "source_lines (LogSource p) (((out @ new1 @ ?st) @ new2) @ flush_events order files2) = log_lines (final p)" if "p \<in> P" for p
    using flush_spec [where order = order, OF s2(2) assms(8) that] s2(5) that by simp
  moreover have "StreamLogs (\<lambda>_. False) order [r] prev files out
      = (StreamDone, out @ (new1 @ ?st @ new2 @ flush_events order files2) @ [DoneEvent (e_Status e)])"
    using s1(1) s2(1) by (simp add: assms(4,5) Let_def)
  ultimately show ?case using s1(3,4) s2(3,4)
    by (intro exI [of _ "new1 @ ?st @ new2 @ flush_events order files2"]) (simp add: round_state_def assms(4))
next
  case (Cons h hist)
  obtain r0 c0 where h: "h = (r0, c0)" by fastforce
  from Cons.prems h have "tracked P c0 files out" and v: "shows_logs c0 (rd_logs r0)" "set (lv_paths (rd_logs r0)) \<subseteq> P"
    and hist: "log_history P c0 (hist @ [(r, c1)]) final" by (auto intro: tracked_grow)
  from sweep_spec [OF this(1) v(1,2) subset_refl] obtain files1 new1 where
    s1: "sweep (\<lambda>_. False) (rd_logs r0) (lv_paths (rd_logs r0)) files out = (True, files1, out @ new1)"
      "tracked P c0 files1 (out @ new1)" "reported_states new1 = []" "done_events new1 = []" by blast
  from Cons.prems(3) h obtain e0 where e0: "rd_attempt r0 = Inr e0" "\<not> finished_status (e_Status e0)" "\<not> rd_cancelled r0"
    by (auto simp: waiting_round_def split: sum.splits)
  let ?st = "if prev = Some (executionState e0) then [] else [StateEvent (executionState e0)]"
  have "tracked P c0 files1 (out @ new1 @ ?st)" using s1(2) by (auto simp: tracked_def)
  from Cons.IH [OF this hist, of "Some (executionState e0)"] Cons.prems(3) obtain new where
    IH: "StreamLogs (\<lambda>_. False) order (map fst hist @ [r]) (Some (executionState e0)) files1 (out @ new1 @ ?st)
        = (StreamDone, (out @ new1 @ ?st) @ new @ [DoneEvent (e_Status e)])" "done_events new = []"
      "reported_states new = new_states (Some (executionState e0)) (map round_state (map fst hist @ [r]))"
      "\<forall>p \<in> P. source_lines (LogSource p) ((out @ new1 @ ?st) @ new) = log_lines (final p)" by auto
  have "StreamLogs (\<lambda>_. False) order (map fst (h # hist) @ [r]) prev files out
      = (StreamDone, out @ (new1 @ ?st @ new) @ [DoneEvent (e_Status e)])"
    using IH(1) StreamLogs_wait [OF s1(1) e0] by (simp add: h del: StreamLogs.simps)
  moreover have "round_state r0 = executionState e0" by (simp add: round_state_def e0(1))
  ultimately show ?case using s1(3,4) IH(2-4)
    by (intro exI [of _ "new1 @ ?st @ new"]) (simp add: h del: StreamLogs.simps)
qed


section \<open>A concrete stream\<close>

text \<open>One step's log grows from half a line to two and a half while the run goes from running to success.\<close>

definition sample_log :: string where "sample_log = ''/logs/1/7/steps/000_test.log''"

definition sample_view :: "string \<Rightarrow> log_view" where
  "sample_view content = \<lparr>lv_paths = [sample_log], lv_size = (\<lambda>_. Some (length content)), lv_tail = (\<lambda>_ k. Some (drop k content))\<rparr>"

definition sample_round :: "status \<Rightarrow> string \<Rightarrow> string \<Rightarrow> round" where
  "sample_round st content content' = \<lparr>rd_logs = sample_view content, rd_attempt = Inr (Execution0\<lparr>e_Status := st\<rparr>),
     rd_after = sample_view content', rd_cancelled = False\<rparr>"


end
