(* ===== verification/Sse.thy ===== *)
theory Sse
  imports Stream
begin

text \<open>
  The transport of the stream: \<^verbatim>\<open>internal/sse/sse.go\<close> writes events, \<^verbatim>\<open>EventStream.Next\<close> of \<^verbatim>\<open>client/executions.go\<close> reads them. The
  JSON encoder is a parameter. \<open>scan_lines\<close> is \<^verbatim>\<open>bufio.Scanner\<close> with \<^verbatim>\<open>ScanLines\<close>: it drops a carriage return at the end of a
  line and gives up on a line of 64 KiB.

  The lemmas show that what is sent is what is read for lines that fit, and what goes wrong otherwise.
\<close>

section \<open>Writing\<close>

definition sse_event :: "string \<Rightarrow> string \<Rightarrow> string" where
  "sse_event name data = ''event: '' @ name @ [newline] @ ''data: '' @ data @ [newline, newline]"

definition status_text :: "status \<Rightarrow> string" where
  "status_text s = status_String s"

fun Send :: "(execution_state \<Rightarrow> string) \<Rightarrow> stream_event \<Rightarrow> string" where
  "Send marshal (LogEvent source line) = sse_event source line"
| "Send marshal (StateEvent state) = sse_event ''state'' (marshal state)"
| "Send marshal (DoneEvent status) = sse_event ''done'' (status_text status)"

section \<open>Reading\<close>

definition carriage_return :: char where "carriage_return = CHR 0x0D"

definition max_token :: nat where "max_token = 65536"

definition dropCR :: "string \<Rightarrow> string" where
  "dropCR s = (if s \<noteq> [] \<and> last s = carriage_return then butlast s else s)"

text \<open>The lines until the end or a line that is too long, and whether it was too long.\<close>

function scan_lines :: "string \<Rightarrow> string list \<times> bool" where
  "scan_lines s =
     (case IndexByte s newline of
        Some i \<Rightarrow>
          (if i < max_token then (case scan_lines (drop (i + 1) s) of (ls, err) \<Rightarrow> (dropCR (take i s) # ls, err)) else ([], True))
      | None \<Rightarrow> (if s = [] then ([], False) else if length s < max_token then ([dropCR s], False) else ([], True)))"
  by pat_completeness auto
termination by (relation "measure length") (auto simp: IndexByte_Some)

declare scan_lines.simps [simp del]

record client_event =
  cv_Name :: string
  cv_Data :: string

datatype next_result = NextEvent client_event "string list" | NextError client_event | NextEOF client_event

definition read_line :: "client_event \<Rightarrow> string \<Rightarrow> client_event" where
  "read_line ev line =
     (if HasPrefix line ''event:'' then ev\<lparr>cv_Name := TrimSpace (TrimPrefix line ''event:'')\<rparr>
      else if HasPrefix line ''data:''
      then ev\<lparr>cv_Data := (if cv_Data ev \<noteq> [] then cv_Data ev @ [newline] else []) @ TrimPrefix (TrimPrefix line ''data:'') '' ''\<rparr>
      else ev)"

fun Next_from :: "client_event \<Rightarrow> string list \<Rightarrow> bool \<Rightarrow> next_result" where
  "Next_from ev [] err = (if err then NextError ev else NextEOF ev)"
| "Next_from ev (l # ls) err =
     (if l = [] then (if cv_Name ev \<noteq> [] \<or> cv_Data ev \<noteq> [] then NextEvent ev ls else Next_from ev ls err)
      else Next_from (read_line ev l) ls err)"

definition Event0 :: client_event where "Event0 = \<lparr>cv_Name = [], cv_Data = []\<rparr>"

definition Next :: "string list \<Rightarrow> bool \<Rightarrow> next_result" where
  "Next ls err = Next_from Event0 ls err"

text \<open>All events up to the end of the stream.\<close>

lemma Next_from_shorter: "Next_from ev ls err = NextEvent x rest \<Longrightarrow> length rest < length ls"
  by (induction ev ls err rule: Next_from.induct) (auto split: if_splits)

function read_events :: "string list \<Rightarrow> bool \<Rightarrow> client_event list" where
  "read_events ls err = (case Next ls err of NextEvent ev rest \<Rightarrow> ev # read_events rest err | _ \<Rightarrow> [])"
  by pat_completeness auto
termination by (relation "measure (\<lambda>(ls, _). length ls)") (auto simp: Next_def dest: Next_from_shorter)

declare read_events.simps [simp del]

definition received :: "string \<Rightarrow> client_event list" where
  "received body = (case scan_lines body of (ls, err) \<Rightarrow> read_events ls err)"

section \<open>What is sent is what is read\<close>

text \<open>A name survives when it has no white space around it, a line when it fits the scanner and does not end in a carriage return.\<close>

definition sendable :: "string \<Rightarrow> string \<Rightarrow> bool" where
  "sendable name data \<longleftrightarrow>
     name \<noteq> [] \<and> TrimSpace name = name \<and> newline \<notin> set name \<and> newline \<notin> set data
     \<and> length name + 7 < max_token \<and> length data + 6 < max_token \<and> (data = [] \<or> last data \<noteq> carriage_return)"

fun event_name :: "stream_event \<Rightarrow> string" where
  "event_name (LogEvent source line) = source"
| "event_name (StateEvent state) = ''state''"
| "event_name (DoneEvent status) = ''done''"

fun event_data :: "(execution_state \<Rightarrow> string) \<Rightarrow> stream_event \<Rightarrow> string" where
  "event_data marshal (LogEvent source line) = line"
| "event_data marshal (StateEvent state) = marshal state"
| "event_data marshal (DoneEvent status) = status_text status"

lemma Send_event: "Send marshal e = sse_event (event_name e) (event_data marshal e)"
  by (cases e) simp_all

lemma IndexByte_line: "newline \<notin> set l \<Longrightarrow> IndexByte (l @ newline # s) newline = Some (length l)"
  by (simp add: IndexByte_Some nth_append)

lemma scan_line:
  assumes "newline \<notin> set l" "length l < max_token"
  shows "scan_lines (l @ newline # s) = (case scan_lines s of (ls, err) \<Rightarrow> (dropCR l # ls, err))"
  using assms by (simp add: scan_lines.simps [of "l @ newline # s"] IndexByte_line)

lemma space_chars: "is_space newline" "is_space (CHR 0x20)" "is_space carriage_return"
  by code_simp+

lemma trimmed_last: "TrimSpace s = s \<Longrightarrow> s \<noteq> [] \<Longrightarrow> \<not> is_space (last s)"
  using TrimSpace_ends [of s] by metis

lemma trim_leading: "TrimSpace (CHR 0x20 # s) = TrimSpace s"
  by (simp add: TrimSpace_def TrimLeftFunc_def space_chars)

lemma dropCR_id: "s = [] \<or> last s \<noteq> carriage_return \<Longrightarrow> dropCR s = s"
  by (auto simp: dropCR_def)

lemma scan_event:
  assumes "sendable name data"
  shows "scan_lines (sse_event name data @ s)
    = (case scan_lines s of (ls, err) \<Rightarrow> ((''event: '' @ name) # (''data: '' @ data) # [] # ls, err))"
proof -
  from assms have n: "name \<noteq> []" "TrimSpace name = name" "newline \<notin> set name" "newline \<notin> set data" "length name + 7 < max_token"
    "length data + 6 < max_token" and d: "data = [] \<or> last data \<noteq> carriage_return" by (auto simp: sendable_def)
  have chars: "newline \<notin> set ''event: ''" "newline \<notin> set ''data: ''" by (simp_all add: newline_def)
  let ?l1 = "''event: '' @ name" and ?l2 = "''data: '' @ data"
  have "last name \<noteq> carriage_return" using trimmed_last [OF n(2,1)] space_chars(3) by auto
  then have cr: "dropCR ?l1 = ?l1" "dropCR ?l2 = ?l2"
    using n(1) d by (auto intro!: dropCR_id simp: carriage_return_def split: if_splits)
  have l1: "newline \<notin> set ?l1" "length ?l1 < max_token" using n chars by auto
  have l2: "newline \<notin> set ?l2" "length ?l2 < max_token" using n chars by auto
  have "scan_lines (?l1 @ newline # (?l2 @ newline # ([] @ newline # s)))
      = (case scan_lines s of (ls, err) \<Rightarrow> (?l1 # ?l2 # [] # ls, err))"
    using scan_line [OF l1] scan_line [OF l2] scan_line [of "[]" s] cr
    by (simp add: max_token_def dropCR_def [of "[]"] split: prod.splits)
  then show ?thesis by (simp add: sse_event_def)
qed

lemma read_sent_lines:
  assumes "sendable name data"
  shows "Next ((''event: '' @ name) # (''data: '' @ data) # [] # ls) err = NextEvent \<lparr>cv_Name = name, cv_Data = data\<rparr> ls"
proof -
  have "TrimSpace (CHR '' '' # name) = name" using assms trim_leading by (simp add: sendable_def)
  then show ?thesis using assms
    by (simp add: Next_def Event0_def read_line_def HasPrefix_def TrimPrefix_def sendable_def)
qed

text \<open>
  C38. What the server sends is what the client reads: any sequence of events whose names have no white space around them
  and whose lines are shorter than the scanner's 64 KiB and do not end in a carriage return arrives complete, in order and
  unchanged, empty lines included.
\<close>

theorem sent_events_are_received:
  assumes "list_all (\<lambda>e. sendable (event_name e) (event_data marshal e)) events"
  shows "received (concat (map (Send marshal) events)) = map (\<lambda>e. \<lparr>cv_Name = event_name e, cv_Data = event_data marshal e\<rparr>) events"
proof -
  have "\<exists>ls. scan_lines (concat (map (Send marshal) events)) = (ls, False)
      \<and> read_events ls False = map (\<lambda>e. \<lparr>cv_Name = event_name e, cv_Data = event_data marshal e\<rparr>) events"
    using assms
  proof (induction events)
    case Nil
    have "scan_lines [] = ([], False)" by (simp add: scan_lines.simps)
    then show ?case by (simp add: read_events.simps Next_def)
  next
    case (Cons e events)
    then obtain ls where IH: "scan_lines (concat (map (Send marshal) events)) = (ls, False)"
      "read_events ls False = map (\<lambda>e. \<lparr>cv_Name = event_name e, cv_Data = event_data marshal e\<rparr>) events" by auto
    from Cons.prems have "sendable (event_name e) (event_data marshal e)" by simp
    note sent = scan_event [OF this, of "concat (map (Send marshal) events)"] and nxt = read_sent_lines [OF this, of ls False]
    let ?ls = "(''event: '' @ event_name e) # (''data: '' @ event_data marshal e) # [] # ls"
    have "scan_lines (concat (map (Send marshal) (e # events))) = (?ls, False)"
      by (simp only: list.map concat.simps Send_event sent IH(1) prod.case)
    moreover have "read_events ?ls False = \<lparr>cv_Name = event_name e, cv_Data = event_data marshal e\<rparr> # read_events ls False"
      by (subst read_events.simps) (simp only: nxt next_result.case)
    ultimately show ?case using IH(2) by (intro exI conjI) (assumption, simp only: list.map)
  qed
  then show ?thesis by (auto simp: received_def)
qed

theorem sent_events_are_received_witness:
  "received (concat (map (Send (\<lambda>_. ''{}'')) [LogEvent ''test'' ''hello'', LogEvent ''test'' [], DoneEvent StatusSuccess]))
    = [\<lparr>cv_Name = ''test'', cv_Data = ''hello''\<rparr>, \<lparr>cv_Name = ''test'', cv_Data = []\<rparr>, \<lparr>cv_Name = ''done'', cv_Data = ''success''\<rparr>]"
proof -
  have "list_all (\<lambda>e. sendable (event_name e) (event_data (\<lambda>_. ''{}'') e))
      [LogEvent ''test'' ''hello'', LogEvent ''test'' [], DoneEvent StatusSuccess]"
  proof -
    have "TrimSpace ''test'' = ''test''" "TrimSpace ''done'' = ''done''" by code_simp+
    then show ?thesis by (simp add: sendable_def max_token_def newline_def carriage_return_def status_text_def)
  qed
  from sent_events_are_received [OF this] show ?thesis by (simp add: status_text_def)
qed

section \<open>What is lost\<close>

lemma scan_long: "newline \<notin> set l \<Longrightarrow> max_token \<le> length l \<Longrightarrow> scan_lines (l @ newline # s) = ([], True)"
  by (simp add: scan_lines.simps [of "l @ newline # s"] IndexByte_line)

text \<open>A line of 64 KiB or more ends the client's stream: nothing after it is read.\<close>

lemma long_line_ends_stream:
  assumes "newline \<notin> set name" "name \<noteq> []" "TrimSpace name = name" "length name + 7 < max_token"
    and "newline \<notin> set data" "max_token \<le> length data + 6"
  shows "received (sse_event name data @ rest) = []"
proof -
  have l1: "newline \<notin> set (''event: '' @ name)" "length (''event: '' @ name) < max_token" using assms by (auto simp: newline_def)
  have "newline \<notin> set (''data: '' @ data)" "max_token \<le> length (''data: '' @ data)" using assms(5,6) by (auto simp: newline_def)
  note long = scan_long [OF this, of "newline # rest"]
  have "scan_lines (sse_event name data @ rest) = ([dropCR (''event: '' @ name)], True)"
    using scan_line [OF l1, of "(''data: '' @ data) @ newline # (newline # rest)"] unfolding long by (simp add: sse_event_def)
  moreover have "dropCR (''event: '' @ name) \<noteq> []" by (simp add: dropCR_def)
  ultimately show ?thesis by (simp add: received_def read_events.simps Next_def)
qed

text \<open>A step named \<^verbatim>\<open>done\<close> cannot be told from the end of the run.\<close>

lemma step_named_done: "Send marshal (LogEvent ''done'' (status_text s)) = Send marshal (DoneEvent s)"
  by simp

end
