(* ===== verification/Archive.thy ===== *)
theory Archive
  imports Paths "HOL-Library.AList"
begin

text \<open>
  Unpacking uploaded archives: \<^verbatim>\<open>internal/archive/archive.go\<close> over a file system with symbolic links. The file system
  maps real paths, lists of components, to entries; every system call resolves the links in the directory part of its
  path as the kernel does, with at most forty links. A hard link shares the entry it names. Permission bits are left out; the gzip
  and tar readers are the list of what they deliver.

  The lemmas show that unpacking changes nothing outside of its destination, and that the links it creates can nevertheless
  lead out of it.
\<close>

section \<open>A file system with links\<close>

datatype os_entry = OsFile string | OsDir | OsLink string

datatype os_error = ENOENT | ENOTDIR | EEXIST | ENOTEMPTY | ELOOP | EPERM | EBUSY | EISDIR | ENOSPC

type_synonym os_fs = "(string list \<times> os_entry) list"

function walk :: "os_fs \<Rightarrow> nat \<Rightarrow> bool \<Rightarrow> string list \<Rightarrow> string list \<Rightarrow> os_error + string list" where
  "walk fs n follow cur [] = Inr cur"
| "walk fs n follow cur (c # cs) =
     (if c = [] \<or> c = ''.'' then walk fs n follow cur cs
      else if c = ''..'' then walk fs n follow (butlast cur) cs
      else (case map_of fs (cur @ [c]) of
              None \<Rightarrow> (if cs = [] then Inr (cur @ [c]) else Inl ENOENT)
            | Some (OsFile _) \<Rightarrow> (if cs = [] then Inr (cur @ [c]) else Inl ENOTDIR)
            | Some OsDir \<Rightarrow> walk fs n follow (cur @ [c]) cs
            | Some (OsLink target) \<Rightarrow>
                (if cs = [] \<and> \<not> follow then Inr (cur @ [c])
                 else (case n of
                         0 \<Rightarrow> Inl ELOOP
                       | Suc m \<Rightarrow> walk fs m follow (if IsAbs target then [] else cur) (SplitByte target (CHR ''/'') @ cs)))))"
  by pat_completeness auto
termination by (relation "measures [\<lambda>(fs, n, follow, cur, cs). n, \<lambda>(fs, n, follow, cur, cs). length cs]") auto

definition max_links :: nat where "max_links = 40"

text \<open>The real path a name denotes; a link in the last component is not followed.\<close>

definition os_path :: "os_fs \<Rightarrow> string \<Rightarrow> os_error + string list" where
  "os_path fs path = walk fs max_links False [] (SplitByte path (CHR ''/''))"

definition os_Lstat :: "os_fs \<Rightarrow> string \<Rightarrow> os_error + os_entry" where
  "os_Lstat fs path =
     bindR (os_path fs path) (\<lambda>p. if p = [] then Inr OsDir else case map_of fs p of None \<Rightarrow> Inl ENOENT | Some e \<Rightarrow> Inr e)"

definition os_add :: "os_fs \<Rightarrow> string \<Rightarrow> os_entry \<Rightarrow> (os_error + unit) \<times> os_fs" where
  "os_add fs path e =
     (case os_path fs path of
        Inl err \<Rightarrow> (Inl err, fs)
      | Inr p \<Rightarrow> (if p = [] \<or> map_of fs p \<noteq> None then (Inl EEXIST, fs) else (Inr (), AList.update p e fs)))"

definition os_Mkdir :: "os_fs \<Rightarrow> string \<Rightarrow> (os_error + unit) \<times> os_fs" where
  "os_Mkdir fs path = os_add fs path OsDir"

definition os_Symlink :: "os_fs \<Rightarrow> string \<Rightarrow> string \<Rightarrow> (os_error + unit) \<times> os_fs" where
  "os_Symlink fs target path = os_add fs path (OsLink target)"

text \<open>\<^verbatim>\<open>O_CREATE|O_EXCL\<close>; the file holds what could be copied.\<close>

definition os_CreateExcl :: "os_fs \<Rightarrow> string \<Rightarrow> string \<Rightarrow> (os_error + unit) \<times> os_fs" where
  "os_CreateExcl fs path content = os_add fs path (OsFile content)"

definition os_Remove :: "os_fs \<Rightarrow> string \<Rightarrow> (os_error + unit) \<times> os_fs" where
  "os_Remove fs path =
     (case os_path fs path of
        Inl err \<Rightarrow> (Inl err, fs)
      | Inr p \<Rightarrow>
          (if p = [] then (Inl EBUSY, fs)
           else (case map_of fs p of
                   None \<Rightarrow> (Inl ENOENT, fs)
                 | Some e \<Rightarrow>
                     (if e = OsDir \<and> list_ex (\<lambda>(q, _). q \<noteq> [] \<and> butlast q = p) fs then (Inl ENOTEMPTY, fs)
                      else (Inr (), AList.delete p fs)))))"

text \<open>\<^verbatim>\<open>linkat\<close> follows links in the directory part of the old name only, and never links a directory.\<close>

definition os_Link :: "os_fs \<Rightarrow> string \<Rightarrow> string \<Rightarrow> (os_error + unit) \<times> os_fs" where
  "os_Link fs oldname newname =
     (case os_Lstat fs oldname of
        Inl err \<Rightarrow> (Inl err, fs)
      | Inr e \<Rightarrow> (if e = OsDir then (Inl EPERM, fs) else os_add fs newname e))"

section \<open>Entries\<close>

datatype typeflag = TypeDir | TypeReg | TypeSymlink | TypeLink | TypeXGlobalHeader | TypeXHeader | TypeOther nat

record tar_header =
  th_Name :: string
  th_Typeflag :: typeflag
  th_Linkname :: string
  th_Body :: string
  th_CopyFails :: bool

datatype archive_error =
    GzipError string | TarError string | TooManyEntries | TooLarge | InvalidEntryPath | DirOverNonDir
  | UnsupportedType nat | InvalidParent | AbsoluteLink | LinkEscapes | InvalidLinkTarget | CopyError | OsError os_error
  | EntryError string archive_error

type_synonym extract_op = "(archive_error + unit) \<times> os_fs"

definition os_result :: "(os_error + unit) \<times> os_fs \<Rightarrow> extract_op" where
  "os_result r = (map_sum OsError id (fst r), snd r)"

fun secure_parents :: "os_fs \<Rightarrow> string \<Rightarrow> string list \<Rightarrow> (archive_error + string) \<times> os_fs" where
  "secure_parents fs cur [] = (Inr cur, fs)"
| "secure_parents fs cur (part # parts) =
     (let next_dir = Join [cur, part]
      in case os_Lstat fs next_dir of
           Inl ENOENT \<Rightarrow>
             (case os_Mkdir fs next_dir of
                (Inl e, fs1) \<Rightarrow> (Inl (OsError e), fs1)
              | (Inr _, fs1) \<Rightarrow> secure_parents fs1 next_dir parts)
         | Inl e \<Rightarrow> (Inl (OsError e), fs)
         | Inr e \<Rightarrow> (if e \<noteq> OsDir then (Inl InvalidParent, fs) else secure_parents fs next_dir parts))"

definition securePath :: "os_fs \<Rightarrow> string \<Rightarrow> string \<Rightarrow> (archive_error + string) \<times> os_fs" where
  "securePath fs dest name =
     (let parts = SplitByte (Clean name) (CHR ''/'')
      in case secure_parents fs dest (butlast parts) of
           (Inl e, fs1) \<Rightarrow> (Inl e, fs1)
         | (Inr cur, fs1) \<Rightarrow> (Inr (Join [cur, last parts]), fs1))"

definition writeFile :: "tar_header \<Rightarrow> os_fs \<Rightarrow> string \<Rightarrow> extract_op" where
  "writeFile hdr fs path =
     (let fs1 = snd (os_Remove fs path)
      in case os_CreateExcl fs1 path (th_Body hdr) of
           (Inl e, fs2) \<Rightarrow> (Inl (OsError e), fs2)
         | (Inr _, fs2) \<Rightarrow> (if th_CopyFails hdr then Inl CopyError else Inr (), fs2))"

definition inside_dest :: "string \<Rightarrow> string \<Rightarrow> bool" where
  "inside_dest dest path \<longleftrightarrow> path = dest \<or> HasPrefix path (dest @ ''/'')"

definition writeSymlink :: "os_fs \<Rightarrow> string \<Rightarrow> string \<Rightarrow> string \<Rightarrow> extract_op" where
  "writeSymlink fs dest name link =
     (if IsAbs link then (Inl AbsoluteLink, fs)
      else (case securePath fs dest name of
              (Inl e, fs1) \<Rightarrow> (Inl e, fs1)
            | (Inr path, fs1) \<Rightarrow>
                (if \<not> inside_dest dest (Clean (Join [Dir path, link])) then (Inl LinkEscapes, fs1)
                 else os_result (os_Symlink (snd (os_Remove fs1 path)) link path))))"

definition writeHardlink :: "os_fs \<Rightarrow> string \<Rightarrow> string \<Rightarrow> string \<Rightarrow> extract_op" where
  "writeHardlink fs dest name link =
     (if IsAbs link \<or> \<not> IsLocal link then (Inl InvalidLinkTarget, fs)
      else (let target = Join [dest, link]
            in if \<not> inside_dest dest target then (Inl LinkEscapes, fs)
               else (case securePath fs dest name of
                       (Inl e, fs1) \<Rightarrow> (Inl e, fs1)
                     | (Inr path, fs1) \<Rightarrow> os_result (os_Link (snd (os_Remove fs1 path)) target path))))"

definition extractEntry :: "tar_header \<Rightarrow> string \<Rightarrow> os_fs \<Rightarrow> extract_op" where
  "extractEntry hdr dest fs =
     (let name = th_Name hdr
      in if name = [] \<or> name = ''.'' \<or> \<not> IsLocal name then (Inl InvalidEntryPath, fs)
         else (case th_Typeflag hdr of
                 TypeDir \<Rightarrow>
                   (case securePath fs dest name of
                      (Inl e, fs1) \<Rightarrow> (Inl e, fs1)
                    | (Inr path, fs1) \<Rightarrow>
                        (case os_Lstat fs1 path of
                           Inr e \<Rightarrow> (if e \<noteq> OsDir then (Inl DirOverNonDir, fs1) else (Inr (), fs1))
                         | Inl _ \<Rightarrow> os_result (os_Mkdir fs1 path)))
               | TypeReg \<Rightarrow>
                   (case securePath fs dest name of
                      (Inl e, fs1) \<Rightarrow> (Inl e, fs1)
                    | (Inr path, fs1) \<Rightarrow> writeFile hdr fs1 path)
               | TypeSymlink \<Rightarrow> writeSymlink fs dest name (th_Linkname hdr)
               | TypeLink \<Rightarrow> writeHardlink fs dest name (th_Linkname hdr)
               | TypeXGlobalHeader \<Rightarrow> (Inr (), fs)
               | TypeXHeader \<Rightarrow> (Inr (), fs)
               | TypeOther n \<Rightarrow> (Inl (UnsupportedType n), fs)))"

section \<open>Archives\<close>

text \<open>What the readers deliver: an error of the gzip header, the entries up to the end or an error, and what the limit leaves.\<close>

record tar_stream =
  ts_Gzip :: "string + unit"
  ts_Entries :: "tar_header list"
  ts_Error :: "string option"
  ts_Left :: int

definition maxEntries :: nat where "maxEntries = 1000000"

fun extract_entries :: "string \<Rightarrow> nat \<Rightarrow> tar_header list \<Rightarrow> os_fs \<Rightarrow> extract_op" where
  "extract_entries dest entries [] fs = (Inr (), fs)"
| "extract_entries dest entries (hdr # hdrs) fs =
     (if maxEntries < entries + 1 then (Inl TooManyEntries, fs)
      else (case extractEntry hdr dest fs of
              (Inl e, fs1) \<Rightarrow> (Inl (EntryError (th_Name hdr) e), fs1)
            | (Inr _, fs1) \<Rightarrow> extract_entries dest (entries + 1) hdrs fs1))"

definition ExtractTarGz :: "tar_stream \<Rightarrow> string \<Rightarrow> os_fs \<Rightarrow> extract_op" where
  "ExtractTarGz src dest fs =
     (case ts_Gzip src of
        Inl e \<Rightarrow> (Inl (GzipError e), fs)
      | Inr _ \<Rightarrow>
          (case extract_entries dest 0 (ts_Entries src) fs of
             (Inl e, fs1) \<Rightarrow> (Inl e, fs1)
           | (Inr _, fs1) \<Rightarrow>
               (case ts_Error src of
                  Some e \<Rightarrow> (Inl (TarError e), fs1)
                | None \<Rightarrow> (if ts_Left src \<le> 0 then Inl TooLarge else Inr (), fs1))))"

section \<open>Local names\<close>

lemma clean_stack_unrooted:
  assumes "\<forall>w \<in> set ws. plain w \<or> w = ''..''"
  shows "\<exists>k ps. clean_stack False [] ws = replicate k ''..'' @ ps \<and> (\<forall>p \<in> set ps. plain p)"
proof -
  have "\<exists>k ps. foldl (clean_step False) (rev ps0 @ replicate k0 ''..'') ws = rev ps @ replicate k ''..'' \<and> (\<forall>p \<in> set ps. plain p)"
    if "\<forall>p \<in> set ps0. plain p" for k0 ps0
    using assms that
  proof (induction ws arbitrary: k0 ps0)
    case Nil
    then show ?case by auto
  next
    case (Cons w ws)
    have "\<exists>k1 ps1. clean_step False (rev ps0 @ replicate k0 ''..'') w = rev ps1 @ replicate k1 ''..'' \<and> (\<forall>p \<in> set ps1. plain p)"
    proof (cases "w = ''..''")
      case False
      then have "plain w" using Cons.prems(1) by auto
      with False Cons.prems(2) show ?thesis
        by (intro exI [of _ k0] exI [of _ "ps0 @ [w]"]) (auto simp: clean_step_def)
    next
      case True
      show ?thesis
      proof (cases ps0 rule: rev_cases)
        case Nil
        show ?thesis
        proof (cases k0)
          case 0
          with Nil True show ?thesis by (intro exI [of _ 1] exI [of _ "[]"]) (simp add: clean_step_def)
        next
          case (Suc k)
          with Nil True show ?thesis by (intro exI [of _ "k0 + 1"] exI [of _ "[]"]) (simp add: clean_step_def)
        qed
      next
        case (snoc qs q)
        then have "q \<noteq> ''..''" using Cons.prems(2) by (auto simp: plain_def)
        with snoc True Cons.prems(2) show ?thesis by (intro exI [of _ k0] exI [of _ qs]) (simp add: clean_step_def)
      qed
    qed
    then obtain k1 ps1 where "clean_step False (rev ps0 @ replicate k0 ''..'') w = rev ps1 @ replicate k1 ''..''" "\<forall>p \<in> set ps1. plain p"
      by blast
    with Cons.IH [of ps1 k1] Cons.prems(1) show ?case by simp
  qed
  from this [of "[]" 0] show ?thesis by (auto simp: clean_stack_def) (metis rev_append rev_replicate rev_rev_ident)
qed

lemma local_name:
  assumes "IsLocal name"
  obtains ps where "\<forall>p \<in> set ps. plain p" "Clean name = render_path False ps"
proof -
  have abs: "\<not> IsAbs name" "name \<noteq> []" using assms by (auto simp: IsLocal_def)
  from clean_stack_unrooted [of "path_parts name"] obtain k ps where
    ps: "clean_stack False [] (path_parts name) = replicate k ''..'' @ ps" "\<forall>p \<in> set ps. plain p"
    using path_parts_no_slash by blast
  then have clean: "Clean name = render_path False (replicate k ''..'' @ ps)" using abs by (simp add: Clean_def)
  have "k = 0"
  proof (rule ccontr)
    assume "k \<noteq> 0"
    then obtain j where k: "k = Suc j" by (cases k) auto
    have up: "Clean name = ''..'' \<or> HasPrefix (Clean name) ''../''"
      unfolding clean k by (cases "replicate j ''..'' @ ps") (auto simp: render_path_def HasPrefix_def)
    have "\<not> list_ex (\<lambda>w. w = ''.'' \<or> w = ''..'') (SplitByte name (CHR ''/''))" using up assms abs by (auto simp: IsLocal_def Let_def)
    then have "\<forall>w \<in> set (path_parts name). plain w" using path_parts_no_slash by (auto simp: list_ex_iff path_parts_def)
    then have "clean_stack False [] (path_parts name) = path_parts name" by (simp add: clean_stack_plain)
    with ps(1) k \<open>\<forall>w \<in> set (path_parts name). plain w\<close> have "plain ''..''" by (metis append_Cons list.set_intros(1) replicate_Suc)
    then show False by (simp add: plain_def)
  qed
  with ps(2) clean show thesis by (intro that) simp_all
qed

lemma render_parts:
  "\<forall>p \<in> set ps. plain p \<Longrightarrow> ps \<noteq> [] \<Longrightarrow> SplitByte (render_path False ps) (CHR ''/'') = ps"
  using SplitByte_JoinByte [of ps "CHR ''/''"] by (auto simp: render_path_def plain_def)

section \<open>Resolving paths without links\<close>

text \<open>Every non-empty prefix of the path is a directory.\<close>

definition real_dir :: "os_fs \<Rightarrow> string list \<Rightarrow> bool" where
  "real_dir fs q \<longleftrightarrow> (\<forall>p. prefix p q \<and> p \<noteq> [] \<longrightarrow> map_of fs p = Some OsDir)"

lemma real_dir_prefix: "real_dir fs q \<Longrightarrow> prefix p q \<Longrightarrow> real_dir fs p"
  by (auto simp: real_dir_def)

lemma real_dir_snoc: "real_dir fs (q @ [x]) \<longleftrightarrow> real_dir fs q \<and> map_of fs (q @ [x]) = Some OsDir"
  by (auto simp: real_dir_def)

lemma walk_dirs:
  "real_dir fs (cur @ qs) \<Longrightarrow> \<forall>q \<in> set qs. plain q \<Longrightarrow> walk fs n follow cur (qs @ cs) = walk fs n follow (cur @ qs) cs"
proof (induction qs arbitrary: cur)
  case (Cons q qs)
  have "map_of fs (cur @ [q]) = Some OsDir" using Cons.prems(1) by (simp add: real_dir_def)
  with Cons.prems Cons.IH [of "cur @ [q]"] show ?case by (simp add: plain_def)
qed simp

lemma os_path_real:
  assumes "real_dir fs q" "\<forall>p \<in> set q. plain p" "plain x"
  shows "os_path fs (render_path True (q @ [x])) = Inr (q @ [x])"
proof -
  have "SplitByte (render_path True (q @ [x])) (CHR ''/'') = [] # q @ [x]"
    using SplitByte_JoinByte [of "q @ [x]" "CHR ''/''"] assms(2,3) by (auto simp: render_path_def plain_def)
  moreover have "walk fs max_links False [] (q @ [x]) = walk fs max_links False q [x]"
    using walk_dirs [of fs "[]" q max_links False "[x]"] assms by simp
  moreover have "walk fs max_links False q [x] = Inr (q @ [x])"
    using assms(3) by (auto simp: plain_def split: option.split os_entry.split)
  ultimately show ?thesis by (simp add: os_path_def)
qed

text \<open>Two file systems that agree everywhere but strictly below \<open>ds\<close>.\<close>

definition same_outside :: "string list \<Rightarrow> os_fs \<Rightarrow> os_fs \<Rightarrow> bool" where
  "same_outside ds fs fs' \<longleftrightarrow> (\<forall>p. \<not> strict_prefix ds p \<longrightarrow> map_of fs' p = map_of fs p)"

lemma same_outside_refl [simp]: "same_outside ds fs fs"
  by (simp add: same_outside_def)

lemma same_outside_trans: "same_outside ds fs fs1 \<Longrightarrow> same_outside ds fs1 fs2 \<Longrightarrow> same_outside ds fs fs2"
  by (simp add: same_outside_def)

lemma same_outside_dir: "same_outside ds fs fs' \<Longrightarrow> real_dir fs ds \<Longrightarrow> real_dir fs' ds"
  by (auto simp: same_outside_def real_dir_def strict_prefix_def prefix_order.antisym)

text \<open>What one system call at a real path below \<open>ds\<close> may do.\<close>

definition touches :: "string list \<Rightarrow> os_fs \<Rightarrow> os_fs \<Rightarrow> bool" where
  "touches q fs fs' \<longleftrightarrow> (\<forall>p. p \<noteq> q \<longrightarrow> map_of fs' p = map_of fs p)"

lemma touches_outside: "touches (ds @ qs) fs fs' \<Longrightarrow> qs \<noteq> [] \<Longrightarrow> same_outside ds fs fs'"
  by (auto simp: touches_def same_outside_def strict_prefix_def) (metis prefixI)

lemma touches_trans: "touches q fs fs1 \<Longrightarrow> touches q fs1 fs2 \<Longrightarrow> touches q fs fs2"
  by (simp add: touches_def)

lemma touches_dir: "touches (q @ [x]) fs fs' \<Longrightarrow> real_dir fs q \<Longrightarrow> real_dir fs' q"
  by (auto simp: touches_def real_dir_def) (metis length_append_singleton not_less_eq_eq order_refl prefix_length_le)

lemma calls_touch:
  assumes "os_path fs path = Inr q"
  shows "touches q fs (snd (os_add fs path e))" "touches q fs (snd (os_Remove fs path))"
    "touches q fs (snd (os_Mkdir fs path))" "touches q fs (snd (os_Symlink fs target path))"
    "touches q fs (snd (os_CreateExcl fs path content))" "touches q fs (snd (os_Link fs old path))"
proof -
  show add: "touches q fs (snd (os_add fs path e))" for e
    by (auto simp: os_add_def assms touches_def update_conv')
  show "touches q fs (snd (os_Remove fs path))"
    by (auto simp: os_Remove_def assms touches_def delete_conv' split: option.split)
  show "touches q fs (snd (os_Mkdir fs path))" "touches q fs (snd (os_Symlink fs target path))"
    "touches q fs (snd (os_CreateExcl fs path content))" "touches q fs (snd (os_Link fs old path))"
    using add by (auto simp: os_Mkdir_def os_Symlink_def os_CreateExcl_def os_Link_def touches_def split: sum.split)
qed

section \<open>Nothing changes outside\<close>

lemma secure_parents_spec:
  assumes "real_dir fs (ds @ qs)" "\<forall>p \<in> set (ds @ qs @ parts). plain p"
  shows "case secure_parents fs (render_path True (ds @ qs)) parts of (r, fs') \<Rightarrow>
    same_outside ds fs fs' \<and> (\<forall>cur. r = Inr cur \<longrightarrow> cur = render_path True (ds @ qs @ parts) \<and> real_dir fs' (ds @ qs @ parts))"
  using assms
proof (induction parts arbitrary: fs qs)
  case (Cons x parts)
  let ?next = "render_path True (ds @ (qs @ [x]))"
  have nxt: "Join [render_path True (ds @ qs), x] = ?next" using Cons.prems(2) by (subst Join_render_plain) auto
  have path: "os_path fs ?next = Inr (ds @ (qs @ [x]))" using os_path_real [of fs "ds @ qs" x] Cons.prems by auto
  have IH: "real_dir fs' (ds @ (qs @ [x])) \<Longrightarrow> case secure_parents fs' ?next parts of (r, fs'') \<Rightarrow>
      same_outside ds fs' fs'' \<and> (\<forall>cur. r = Inr cur \<longrightarrow> cur = render_path True (ds @ qs @ x # parts) \<and> real_dir fs'' (ds @ qs @ x # parts))" for fs'
    using Cons.IH [of fs' "qs @ [x]"] Cons.prems(2) by simp
  show ?case
  proof (cases "map_of fs (ds @ qs @ [x])")
    case None
    then have lstat: "os_Lstat fs ?next = Inl ENOENT" by (simp add: os_Lstat_def path)
    define fs1 where "fs1 = AList.update (ds @ qs @ [x]) OsDir fs"
    have mk: "os_Mkdir fs ?next = (Inr (), fs1)" using None by (simp add: os_Mkdir_def os_add_def path fs1_def)
    have "touches (ds @ qs @ [x]) fs fs1" using calls_touch(3) [OF path] by (simp add: mk)
    then have out: "same_outside ds fs fs1" and "real_dir fs1 (ds @ qs)"
      using touches_outside [of ds "qs @ [x]"] touches_dir [of "ds @ qs" x] Cons.prems(1) by auto
    then have "real_dir fs1 (ds @ (qs @ [x]))" using real_dir_snoc [of fs1 "ds @ qs" x] by (simp add: fs1_def update_conv')
    from IH [OF this] out show ?thesis
      by (auto simp: nxt lstat mk Let_def split: prod.splits intro: same_outside_trans)
  next
    case (Some e)
    then have lstat: "os_Lstat fs ?next = Inr e" by (simp add: os_Lstat_def path)
    show ?thesis
    proof (cases "e = OsDir")
      case True
      then have "real_dir fs (ds @ (qs @ [x]))" using real_dir_snoc [of fs "ds @ qs" x] Cons.prems(1) Some by simp
      from IH [OF this] True show ?thesis by (simp add: nxt lstat Let_def)
    qed (simp add: nxt lstat Let_def)
  qed
qed simp

text \<open>A path that \<open>securePath\<close> returned: its parent is a real directory below the destination.\<close>

definition secured :: "string list \<Rightarrow> os_fs \<Rightarrow> string \<Rightarrow> bool" where
  "secured ds fs path \<longleftrightarrow>
     (\<exists>qs x. path = render_path True (ds @ qs @ [x]) \<and> (\<forall>p \<in> set (ds @ qs). plain p) \<and> plain x \<and> real_dir fs (ds @ qs))"

lemma dot_name: "\<forall>p \<in> set ps. plain p \<Longrightarrow> render_path False ps = ''.'' \<longleftrightarrow> ps = []"
proof -
  assume ps: "\<forall>p \<in> set ps. plain p"
  have "ps = []" if "render_path False ps = ''.''"
  proof (rule ccontr)
    assume "ps \<noteq> []"
    from render_parts [OF ps this] that have "ps = [''.'']" by simp
    with ps show False by (simp add: plain_def)
  qed
  moreover have "render_path False [] = ''.''" by (simp add: render_path_def)
  ultimately show ?thesis by blast
qed

lemma securePath_spec:
  assumes "IsLocal name" "Clean name \<noteq> ''.''" "real_dir fs ds" "\<forall>p \<in> set ds. plain p"
  shows "case securePath fs (render_path True ds) name of (r, fs') \<Rightarrow>
    same_outside ds fs fs' \<and> (\<forall>path. r = Inr path \<longrightarrow> secured ds fs' path)"
proof -
  from local_name [OF assms(1)] obtain ps where ps: "\<forall>p \<in> set ps. plain p" "Clean name = render_path False ps" by blast
  with assms(2) dot_name [OF ps(1)] have "ps \<noteq> []" by auto
  then obtain qs x where psx: "ps = qs @ [x]" by (cases ps rule: rev_cases) auto
  have parts: "SplitByte (Clean name) (CHR ''/'') = qs @ [x]" using render_parts [OF ps(1)] ps(2) psx by simp
  have plain: "\<forall>p \<in> set (ds @ qs). plain p" "plain x" using ps(1) psx assms(4) by auto
  from secure_parents_spec [of fs ds "[]" qs] assms(3) plain have
    spec: "case secure_parents fs (render_path True ds) qs of (r, fs') \<Rightarrow>
      same_outside ds fs fs' \<and> (\<forall>cur. r = Inr cur \<longrightarrow> cur = render_path True (ds @ qs) \<and> real_dir fs' (ds @ qs))" by simp
  obtain r fs1 where sp: "secure_parents fs (render_path True ds) qs = (r, fs1)" by fastforce
  have "Join [render_path True (ds @ qs), x] = render_path True (ds @ qs @ [x])"
    using Join_render_plain [of "ds @ qs" "[x]"] plain by simp
  with spec sp plain show ?thesis
    by (cases r) (auto simp: securePath_def parts Let_def secured_def intro!: exI [of _ qs] exI [of _ x])
qed

lemma secured_call:
  assumes "secured ds fs path"
    and "\<And>fs q. os_path fs path = Inr q \<Longrightarrow> touches q fs (snd (call fs))"
  shows "same_outside ds fs (snd (call (snd (os_Remove fs path))))" "same_outside ds fs (snd (call fs))"
proof -
  from assms(1) obtain qs x where q: "path = render_path True ((ds @ qs) @ [x])" "\<forall>p \<in> set (ds @ qs). plain p" "plain x" "real_dir fs (ds @ qs)"
    by (auto simp: secured_def)
  note at = os_path_real [OF _ q(2,3)]
  have rm: "touches ((ds @ qs) @ [x]) fs (snd (os_Remove fs path))" using calls_touch(2) at [OF q(4)] q(1) by blast
  then have "real_dir (snd (os_Remove fs path)) (ds @ qs)" using touches_dir q(4) by blast
  from assms(2) [OF at [OF this, folded q(1)]] rm have
    "touches (ds @ qs @ [x]) fs (snd (call (snd (os_Remove fs path))))" by (auto intro: touches_trans)
  then show "same_outside ds fs (snd (call (snd (os_Remove fs path))))" by (rule touches_outside) simp
  have "touches (ds @ qs @ [x]) fs (snd (call fs))" using assms(2) [OF at [OF q(4), folded q(1)]] by simp
  then show "same_outside ds fs (snd (call fs))" by (rule touches_outside) simp
qed

lemma writeFile_outside:
  assumes "secured ds fs path" shows "same_outside ds fs (snd (writeFile hdr fs path))"
proof -
  have "snd (writeFile hdr fs path) = snd (os_CreateExcl (snd (os_Remove fs path)) path (th_Body hdr))"
    by (auto simp: writeFile_def Let_def split: prod.split sum.split)
  then show ?thesis using secured_call(1) [where call = "\<lambda>fs. os_CreateExcl fs path (th_Body hdr)", OF assms calls_touch(5)] by simp
qed

lemma snd_os_result [simp]: "snd (os_result r) = snd r"
  by (simp add: os_result_def)

text \<open>An entry that would replace the destination itself is not an entry below it.\<close>

definition below_dest :: "tar_header \<Rightarrow> bool" where
  "below_dest hdr \<longleftrightarrow> th_Typeflag hdr = TypeDir \<or> Clean (th_Name hdr) \<noteq> ''.''"

lemma dest_dir:
  assumes "real_dir fs ds" "\<forall>p \<in> set ds. plain p" "ds \<noteq> []"
  shows "os_Lstat fs (render_path True ds) = Inr OsDir"
proof -
  obtain q x where ds: "ds = q @ [x]" using assms(3) by (cases ds rule: rev_cases) auto
  have "real_dir fs q" using assms(1) ds by (auto intro: real_dir_prefix)
  from os_path_real [OF this] assms(2) ds have "os_path fs (render_path True ds) = Inr ds" by simp
  moreover have "map_of fs ds = Some OsDir" using assms(1,3) by (simp add: real_dir_def)
  ultimately show ?thesis using assms(3) by (simp add: os_Lstat_def)
qed

lemma extractEntry_outside:
  assumes "real_dir fs ds" "\<forall>p \<in> set ds. plain p" "ds \<noteq> []" "below_dest hdr"
  shows "same_outside ds fs (snd (extractEntry hdr (render_path True ds) fs))"
proof (cases "th_Name hdr = [] \<or> th_Name hdr = ''.'' \<or> \<not> IsLocal (th_Name hdr)")
  case True
  then show ?thesis by (auto simp: extractEntry_def)
next
  case False
  let ?dest = "render_path True ds" and ?name = "th_Name hdr"
  have join_dot: "Join [?dest, ''.''] = ?dest" using assms(2) by (simp add: Join_render path_parts_def)
  show ?thesis
  proof (cases "Clean ?name = ''.''")
    case True
    then have "th_Typeflag hdr = TypeDir" using assms(4) by (simp add: below_dest_def)
    with True False join_dot dest_dir [OF assms(1-3)] show ?thesis
      by (simp add: extractEntry_def Let_def securePath_def)
  next
    case nodot: False
    obtain r fs1 where sp: "securePath fs ?dest ?name = (r, fs1)" by fastforce
    with securePath_spec [OF _ nodot assms(1,2)] False have out: "same_outside ds fs fs1"
      and sec: "\<And>path. r = Inr path \<Longrightarrow> secured ds fs1 path" by auto
    have trans: "same_outside ds fs fs2" if "same_outside ds fs1 fs2" for fs2 using out that by (rule same_outside_trans)
    have dir: "same_outside ds fs1 (snd (os_Mkdir fs1 path))" and wr: "same_outside ds fs1 (snd (writeFile hdr fs1 path))"
      and link: "same_outside ds fs1 (snd (os_Symlink (snd (os_Remove fs1 path)) target path))"
      and hard: "same_outside ds fs1 (snd (os_Link (snd (os_Remove fs1 path)) target path))"
      if "r = Inr path" for path target
      using secured_call [where call = "\<lambda>fs. os_Mkdir fs path", OF sec [OF that] calls_touch(3)] writeFile_outside [OF sec [OF that]]
        secured_call [where call = "\<lambda>fs. os_Symlink fs target path", OF sec [OF that] calls_touch(4)]
        secured_call [where call = "\<lambda>fs. os_Link fs target path", OF sec [OF that] calls_touch(6)] by auto
    have "same_outside ds fs (snd (writeSymlink fs ?dest ?name l))" for l
      using trans link out by (auto simp: writeSymlink_def sp split: sum.split)
    moreover have "same_outside ds fs (snd (writeHardlink fs ?dest ?name l))" for l
      using trans hard out by (auto simp: writeHardlink_def Let_def sp split: sum.split)
    ultimately show ?thesis
      using False trans dir wr out by (auto simp: extractEntry_def Let_def sp split: typeflag.split sum.split)
  qed
qed

lemma extract_entries_outside:
  assumes "\<forall>p \<in> set ds. plain p" "ds \<noteq> []" "list_all below_dest hdrs" "real_dir fs ds"
  shows "same_outside ds fs (snd (extract_entries (render_path True ds) n hdrs fs))"
  using assms(3,4)
proof (induction hdrs arbitrary: n fs)
  case (Cons hdr hdrs)
  obtain r fs1 where e: "extractEntry hdr (render_path True ds) fs = (r, fs1)" by fastforce
  with extractEntry_outside [of fs ds hdr] assms(1,2) Cons.prems have out: "same_outside ds fs fs1" by simp
  with Cons.prems same_outside_dir have "real_dir fs1 ds" by blast
  with Cons.IH [of fs1 "n + 1"] Cons.prems(1) out show ?case
    by (auto simp: e split: sum.split intro: same_outside_trans)
qed simp

text \<open>
  C40. Unpacking is confined: whatever the archive holds and however it fails, nothing of the file system changes outside of the
  destination, when the destination is a real directory and no entry other than a directory is named like the
  destination itself.
\<close>

theorem extraction_is_confined:
  assumes "real_dir fs ds" "\<forall>p \<in> set ds. plain p" "ds \<noteq> []" "list_all below_dest (ts_Entries src)" "\<not> strict_prefix ds p"
  shows "map_of (snd (ExtractTarGz src (render_path True ds) fs)) p = map_of fs p"
proof -
  from extract_entries_outside [OF assms(2,3,4,1), of 0] have
    out: "same_outside ds fs (snd (extract_entries (render_path True ds) 0 (ts_Entries src) fs))" .
  have "snd (ExtractTarGz src (render_path True ds) fs) \<in> {fs, snd (extract_entries (render_path True ds) 0 (ts_Entries src) fs)}"
    by (auto simp: ExtractTarGz_def split: sum.split prod.split option.split)
  with out assms(5) show ?thesis by (auto simp: same_outside_def)
qed

section \<open>Where the links lead\<close>

definition entry :: "typeflag \<Rightarrow> string \<Rightarrow> string \<Rightarrow> string \<Rightarrow> tar_header" where
  "entry t name link body = \<lparr>th_Name = name, th_Typeflag = t, th_Linkname = link, th_Body = body, th_CopyFails = False\<rparr>"

definition sample_host :: os_fs where
  "sample_host = [([''data''], OsDir), ([''data'', ''pici.db''], OsFile ''secrets''), ([''data'', ''ws''], OsDir)]"

definition sample_archive :: "tar_header list \<Rightarrow> tar_stream" where
  "sample_archive hdrs = \<lparr>ts_Gzip = Inr (), ts_Entries = hdrs, ts_Error = None, ts_Left = 1\<rparr>"

theorem extraction_is_confined_witness:
  "map_of (snd (ExtractTarGz (sample_archive [entry TypeDir ''src/'' [] [], entry TypeReg ''src/main.go'' [] ''package main'',
      entry TypeSymlink ''main.go'' ''src/main.go'' []]) ''/data/ws'' sample_host)) [''data'', ''pici.db''] = Some (OsFile ''secrets'')"
proof -
  let ?src = "sample_archive [entry TypeDir ''src/'' [] [], entry TypeReg ''src/main.go'' [] ''package main'', entry TypeSymlink ''main.go'' ''src/main.go'' []]"
  have "real_dir sample_host [''data'', ''ws'']"
    by (auto simp: real_dir_def sample_host_def prefix_Cons)
  moreover have "\<forall>p \<in> set [''data'', ''ws'']. plain p" by (simp add: plain_def)
  moreover have "list_all below_dest (ts_Entries ?src)" by code_simp
  moreover have "\<not> strict_prefix [''data'', ''ws''] [''data'', ''pici.db'']" by simp
  ultimately have "map_of (snd (ExtractTarGz ?src (render_path True [''data'', ''ws'']) sample_host)) [''data'', ''pici.db'']
      = map_of sample_host [''data'', ''pici.db'']" by (intro extraction_is_confined) simp_all
  moreover have "render_path True [''data'', ''ws''] = ''/data/ws''" by code_simp
  ultimately show ?thesis by (simp add: sample_host_def)
qed

text \<open>
  The test of a link's target is lexical: \<^verbatim>\<open>a -> .\<close> is the destination itself, so \<^verbatim>\<open>up -> a/..\<close> passes the test and leads to the
  directory above. A hard link through it brings a file of the host into the workspace.
\<close>

definition leads_to :: "os_fs \<Rightarrow> string \<Rightarrow> os_error + string list" where
  "leads_to fs path = walk fs max_links True [] (SplitByte path (CHR ''/''))"

definition host_a :: os_fs where "host_a = sample_host @ [([''data'', ''ws'', ''a''], OsLink ''.'')]"
definition host_up :: os_fs where "host_up = host_a @ [([''data'', ''ws'', ''up''], OsLink ''a/..'')]"
definition host_stolen :: os_fs where "host_stolen = host_up @ [([''data'', ''ws'', ''stolen''], OsFile ''secrets'')]"

lemma links_escape_steps:
  "extractEntry (entry TypeSymlink ''a'' ''.'' []) ''/data/ws'' sample_host = (Inr (), host_a)"
  "extractEntry (entry TypeSymlink ''up'' ''a/..'' []) ''/data/ws'' host_a = (Inr (), host_up)"
  "extractEntry (entry TypeLink ''stolen'' ''up/pici.db'' []) ''/data/ws'' host_up = (Inr (), host_stolen)"
  by code_simp+

lemma links_escape:
  "let r = ExtractTarGz (sample_archive [entry TypeSymlink ''a'' ''.'' [], entry TypeSymlink ''up'' ''a/..'' [],
      entry TypeLink ''stolen'' ''up/pici.db'' []]) ''/data/ws'' sample_host
   in fst r = Inr () \<and> map_of (snd r) [''data'', ''ws'', ''stolen''] = Some (OsFile ''secrets'')
    \<and> leads_to (snd r) ''/data/ws/up'' = Inr [''data'']"
proof -
  have "leads_to host_stolen ''/data/ws/up'' = Inr [''data'']"
    "map_of host_stolen [''data'', ''ws'', ''stolen''] = Some (OsFile ''secrets'')" by code_simp+
  then show ?thesis by (simp add: ExtractTarGz_def sample_archive_def links_escape_steps maxEntries_def)
qed

end
