(* ===== verification/Artifacts.thy ===== *)
theory Artifacts
  imports Archive Executions Workflow
begin

text \<open>
  Artifacts of a run: \<^verbatim>\<open>collectArtifacts\<close> of \<^verbatim>\<open>internal/ci/artifacts.go\<close>, the module
  \<^verbatim>\<open>internal/app/artifacts/artifacts.go\<close> and its handlers \<^verbatim>\<open>internal/handlers/artifacts.go\<close>, over the file system
  with symbolic links of the theory \<open>Archive\<close>. SHA-256, the glob library, the JSON encoding of a manifest, the random
  part of a temporary name and the files a full disk makes fail are parameters. The names below the repository are
  read once, when the walk starts; modes and modification times are left out.

  The lemmas say what can be downloaded after a collection, exactly: the matching files of the repository with the
  hash of their content, and nothing else, whatever path is asked for. They also show what is read when a matching
  name is a symbolic link.
\<close>

section \<open>More of the file system\<close>

definition entry_at :: "os_fs \<Rightarrow> string list \<Rightarrow> os_entry option" where
  "entry_at fs p = (if p = [] then Some OsDir else map_of fs p)"

text \<open>Here a link in the last component is followed.\<close>

definition os_real :: "os_fs \<Rightarrow> string \<Rightarrow> os_error + string list" where
  "os_real fs path = walk fs max_links True [] (SplitByte path (CHR ''/''))"

definition os_Stat :: "os_fs \<Rightarrow> string \<Rightarrow> os_error + os_entry" where
  "os_Stat fs path = bindR (os_real fs path) (\<lambda>p. case entry_at fs p of None \<Rightarrow> Inl ENOENT | Some e \<Rightarrow> Inr e)"

definition os_ReadFile :: "os_fs \<Rightarrow> string \<Rightarrow> os_error + string" where
  "os_ReadFile fs path = bindR (os_Stat fs path) (\<lambda>e. case e of OsFile content \<Rightarrow> Inr content | _ \<Rightarrow> Inl EISDIR)"

text \<open>\<^verbatim>\<open>O_CREATE|O_TRUNC\<close>, then writing the content.\<close>

definition os_Create :: "os_fs \<Rightarrow> string \<Rightarrow> string \<Rightarrow> (os_error + unit) \<times> os_fs" where
  "os_Create fs path content =
     (case os_real fs path of
        Inl e \<Rightarrow> (Inl e, fs)
      | Inr p \<Rightarrow> (if entry_at fs p = Some OsDir then (Inl EISDIR, fs) else (Inr (), AList.update p (OsFile content) fs)))"

text \<open>\<^verbatim>\<open>os.MkdirAll\<close>, on the components of an absolute clean path in reverse.\<close>

fun mkdir_all :: "os_fs \<Rightarrow> string list \<Rightarrow> (os_error + unit) \<times> os_fs" where
  "mkdir_all fs [] = (Inr (), fs)"
| "mkdir_all fs (c # cs) =
     (let path = render_path True (rev (c # cs))
      in case os_Stat fs path of
           Inr e \<Rightarrow> (if e = OsDir then Inr () else Inl ENOTDIR, fs)
         | Inl _ \<Rightarrow>
             (case mkdir_all fs cs of
                (Inl e, fs1) \<Rightarrow> (Inl e, fs1)
              | (Inr _, fs1) \<Rightarrow>
                  (case os_Mkdir fs1 path of
                     (Inr _, fs2) \<Rightarrow> (Inr (), fs2)
                   | (Inl e, fs2) \<Rightarrow> (if os_Lstat fs2 path = Inr OsDir then Inr () else Inl e, fs2))))"

definition os_MkdirAll :: "os_fs \<Rightarrow> string \<Rightarrow> (os_error + unit) \<times> os_fs" where
  "os_MkdirAll fs path = mkdir_all fs (rev (path_parts path))"

definition os_RemoveAll :: "os_fs \<Rightarrow> string \<Rightarrow> (os_error + unit) \<times> os_fs" where
  "os_RemoveAll fs path =
     (case os_path fs path of
        Inl e \<Rightarrow> (if e = ENOENT then Inr () else Inl e, fs)
      | Inr p \<Rightarrow> (Inr (), filter (\<lambda>(q, _). \<not> prefix p q) fs))"

text \<open>\<^verbatim>\<open>os.Rename\<close> of a file.\<close>

definition os_Rename :: "os_fs \<Rightarrow> string \<Rightarrow> string \<Rightarrow> (os_error + unit) \<times> os_fs" where
  "os_Rename fs old new =
     (case (os_path fs old, os_path fs new) of
        (Inr p, Inr q) \<Rightarrow>
          (case map_of fs p of
             None \<Rightarrow> (Inl ENOENT, fs)
           | Some e \<Rightarrow> (if entry_at fs q = Some OsDir then (Inl EEXIST, fs) else (Inr (), AList.update q e (AList.delete p fs))))
      | (Inl e, _) \<Rightarrow> (Inl e, fs)
      | (_, Inl e) \<Rightarrow> (Inl e, fs))"

text \<open>The names below a directory that are no directories, in the order of \<^verbatim>\<open>filepath.WalkDir\<close>.\<close>

definition walk_below :: "os_fs \<Rightarrow> string list \<Rightarrow> string list list" where
  "walk_below fs d =
     sort (map (drop (length d))
       (filter (\<lambda>q. strict_prefix d q \<and> map_of fs q \<noteq> Some OsDir
                  \<and> list_all (\<lambda>k. map_of fs (take k q) = Some OsDir) [Suc (length d)..<length q])
          (remdups (map fst fs))))"

definition WalkFiles :: "os_fs \<Rightarrow> string \<Rightarrow> string list list" where
  "WalkFiles fs root =
     (case os_path fs root of
        Inl _ \<Rightarrow> []
      | Inr d \<Rightarrow> (case entry_at fs d of None \<Rightarrow> [] | Some e \<Rightarrow> if e = OsDir then walk_below fs d else [[]]))"

text \<open>\<^verbatim>\<open>os.ReadDir\<close>: the names in a directory, sorted.\<close>

definition os_ReadDir :: "os_fs \<Rightarrow> string \<Rightarrow> os_error + string list" where
  "os_ReadDir fs path =
     bindR (os_real fs path) (\<lambda>p.
       if entry_at fs p = Some OsDir then Inr (sort (remdups (map last (filter (\<lambda>q. q \<noteq> [] \<and> butlast q = p) (map fst fs)))))
       else Inl ENOTDIR)"

section \<open>Manifests\<close>

record artifact_hash =
  ah_Algorithm :: string
  ah_Value :: string

record manifest_entry =
  me_Path :: string
  me_Hash :: artifact_hash

record manifest =
  mf_Version :: int
  mf_Artifacts :: "manifest_entry list"

definition manifestVersion :: int where "manifestVersion = 1"

record artifact_env =
  ae_encode :: "manifest \<Rightarrow> string"
  ae_decode :: "string \<Rightarrow> manifest option"
  ae_sha256 :: "string \<Rightarrow> string"
  ae_glob :: "string \<Rightarrow> string \<Rightarrow> bool option"
  ae_temp :: string
  ae_full :: "string \<Rightarrow> bool"

text \<open>A copy that fails, on a full disk or because the source is a directory, is removed again.\<close>

definition HashFile :: "artifact_env \<Rightarrow> string \<Rightarrow> string \<Rightarrow> os_fs \<Rightarrow> (os_error + artifact_hash) \<times> os_fs" where
  "HashFile env src dst fs =
     (case os_Stat fs src of
        Inl e \<Rightarrow> (Inl e, fs)
      | Inr _ \<Rightarrow>
          (case os_Create fs dst [] of
             (Inl e, fs1) \<Rightarrow> (Inl e, fs1)
           | (Inr _, fs1) \<Rightarrow>
               (case os_ReadFile fs1 src of
                  Inl e \<Rightarrow> (Inl e, snd (os_Remove fs1 dst))
                | Inr content \<Rightarrow>
                    (if ae_full env dst then (Inl ENOSPC, snd (os_Remove fs1 dst))
                     else (Inr \<lparr>ah_Algorithm = ''sha256'', ah_Value = ae_sha256 env content\<rparr>, snd (os_Create fs1 dst content))))))"

definition WriteManifest :: "artifact_env \<Rightarrow> string \<Rightarrow> manifest_entry list \<Rightarrow> os_fs \<Rightarrow> (os_error + unit) \<times> os_fs" where
  "WriteManifest env path entries fs =
     (case os_MkdirAll fs (Dir path) of
        (Inl e, fs1) \<Rightarrow> (Inl e, fs1)
      | (Inr _, fs1) \<Rightarrow>
          (let tmpName = Join [Dir path, ''.manifest-'' @ ae_temp env @ ''.json'']
           in case os_CreateExcl fs1 tmpName [] of
                (Inl e, fs2) \<Rightarrow> (Inl e, fs2)
              | (Inr _, fs2) \<Rightarrow>
                  (if ae_full env tmpName then (Inl ENOSPC, snd (os_Remove fs2 tmpName))
                   else (let fs3 = snd (os_Create fs2 tmpName (ae_encode env \<lparr>mf_Version = manifestVersion, mf_Artifacts = entries\<rparr>))
                         in case os_Rename fs3 tmpName path of
                              (Inl e, fs4) \<Rightarrow> (Inl e, snd (os_Remove fs4 tmpName))
                            | (Inr _, fs4) \<Rightarrow> (Inr (), fs4)))))"

text \<open>The last entry of a path counts.\<close>

definition manifest_hashes :: "manifest_entry list \<Rightarrow> string \<Rightarrow> artifact_hash option" where
  "manifest_hashes entries =
     foldl (\<lambda>m e. if ah_Algorithm (me_Hash e) = ''sha256'' \<and> ah_Value (me_Hash e) \<noteq> [] then m(me_Path e \<mapsto> me_Hash e) else m)
       Map.empty entries"

definition readManifest :: "artifact_env \<Rightarrow> string \<Rightarrow> os_fs \<Rightarrow> string \<Rightarrow> artifact_hash option" where
  "readManifest env path fs =
     (case os_ReadFile fs path of
        Inl _ \<Rightarrow> Map.empty
      | Inr data \<Rightarrow>
          (case ae_decode env data of
             None \<Rightarrow> Map.empty
           | Some m \<Rightarrow> if mf_Version m \<noteq> manifestVersion then Map.empty else manifest_hashes (mf_Artifacts m)))"

section \<open>Collecting\<close>

datatype collect_warning = WarnReset | WarnResetManifest | WarnCollect string | WarnManifest

type_synonym collection = "manifest_entry list \<times> collect_warning list \<times> os_fs"

definition collect_file :: "artifact_env \<Rightarrow> string list \<Rightarrow> string \<Rightarrow> string \<Rightarrow> collection \<Rightarrow> string list \<Rightarrow> collection" where
  "collect_file env patterns repoDir root acc rel =
     (case acc of
        (entries, warns, fs) \<Rightarrow>
          (let relSlash = render_path False rel
           in if \<not> matchesAny (ae_glob env) patterns relSlash then acc
              else (let dest = Join [root, relSlash]
                    in case os_MkdirAll fs (Dir dest) of
                         (Inl _, fs1) \<Rightarrow> (entries, warns @ [WarnCollect relSlash], fs1)
                       | (Inr _, fs1) \<Rightarrow>
                           (case HashFile env (Join [repoDir, relSlash]) dest fs1 of
                              (Inl _, fs2) \<Rightarrow> (entries, warns @ [WarnCollect relSlash], fs2)
                            | (Inr h, fs2) \<Rightarrow> (entries @ [\<lparr>me_Path = relSlash, me_Hash = h\<rparr>], warns, fs2)))))"

definition collectArtifacts :: "artifact_env \<Rightarrow> workspace \<Rightarrow> uuid \<Rightarrow> int \<Rightarrow> int \<Rightarrow> string list \<Rightarrow> string \<Rightarrow> os_fs
    \<Rightarrow> collect_warning list \<times> os_fs" where
  "collectArtifacts env ws projectID execID index patterns repoDir fs =
     (if patterns = [] then ([], fs)
      else
        (let root = StepArtifacts ws projectID execID index; manifestPath = StepManifest ws projectID execID index;
             (r1, fs1) = os_RemoveAll fs root;
             warns1 = (case r1 of Inl _ \<Rightarrow> [WarnReset] | Inr _ \<Rightarrow> []);
             (r2, fs2) = os_Remove fs1 manifestPath;
             warns2 = (case r2 of Inl e \<Rightarrow> if e \<noteq> ENOENT then [WarnResetManifest] else [] | Inr _ \<Rightarrow> []);
             (entries, warns3, fs3) = foldl (collect_file env patterns repoDir root) ([], [], fs2) (WalkFiles fs2 repoDir);
             (r4, fs4) = WriteManifest env manifestPath entries fs3
         in (warns1 @ warns2 @ warns3 @ (case r4 of Inl _ \<Rightarrow> [WarnManifest] | Inr _ \<Rightarrow> []), fs4)))"

section \<open>The module and its handlers\<close>

record artifact =
  ar_Step :: string
  ar_Path :: string
  ar_Size :: int
  ar_Hash :: "artifact_hash option"

record artifact_file =
  fl_Content :: string
  fl_ETag :: string

definition entry_size :: "os_entry option \<Rightarrow> int" where
  "entry_size e = (case e of Some (OsFile content) \<Rightarrow> int (length content) | Some (OsLink target) \<Rightarrow> int (length target) | _ \<Rightarrow> 0)"

definition artifacts_of_dir :: "artifact_env \<Rightarrow> workspace \<Rightarrow> execution \<Rightarrow> os_fs \<Rightarrow> string \<Rightarrow> artifact list" where
  "artifacts_of_dir env ws exec fs name =
     (let root = ArtifactDir ws (e_ProjectID exec) (e_ID exec); stepDir = Join [root, name]
      in if os_Lstat fs stepDir \<noteq> Inr OsDir then []
         else (case ParseInt64 name of
                 None \<Rightarrow> []
               | Some index \<Rightarrow>
                   (if index < 0 then []
                    else (let hashes = readManifest env (StepManifest ws (e_ProjectID exec) (e_ID exec) index) fs;
                              step = (if nat index < length (e_Steps exec) then r_Name (e_Steps exec ! nat index) else name)
                          in map (\<lambda>rel. \<lparr>ar_Step = step, ar_Path = render_path False rel,
                                         ar_Size = entry_size (case os_Lstat fs (Join [stepDir, render_path False rel]) of Inl _ \<Rightarrow> None | Inr e \<Rightarrow> Some e),
                                         ar_Hash = hashes (render_path False rel)\<rparr>)
                               (WalkFiles fs stepDir)))))"

definition artifacts_List :: "artifact_env \<Rightarrow> workspace \<Rightarrow> os_fs \<Rightarrow> execution \<Rightarrow> artifact list" where
  "artifacts_List env ws fs exec =
     (case os_ReadDir fs (ArtifactDir ws (e_ProjectID exec) (e_ID exec)) of
        Inl _ \<Rightarrow> []
      | Inr dirs \<Rightarrow> concat (map (artifacts_of_dir env ws exec fs) dirs))"

definition artifacts_Open :: "artifact_env \<Rightarrow> workspace \<Rightarrow> os_fs \<Rightarrow> execution \<Rightarrow> string \<Rightarrow> string \<Rightarrow> app_error + artifact_file" where
  "artifacts_Open env ws fs exec step path =
     (case find (\<lambda>i. r_Name (e_Steps exec ! i) = step) [0..<length (e_Steps exec)] of
        None \<Rightarrow> Inl AppNotFound
      | Some index \<Rightarrow>
          (let dir = StepArtifacts ws (e_ProjectID exec) (e_ID exec) (int index); full = Clean (Join [dir, path])
           in if full \<noteq> dir \<and> \<not> HasPrefix full (dir @ ''/'') then Inl (AppInvalid ''invalid'')
              else (case os_ReadFile fs full of
                      Inl _ \<Rightarrow> Inl AppNotFound
                    | Inr content \<Rightarrow>
                        (let rel = (if full = dir then ''.'' else drop (length dir + 1) full);
                             etag = (case readManifest env (StepManifest ws (e_ProjectID exec) (e_ID exec) (int index)) fs rel of
                                       None \<Rightarrow> []
                                     | Some h \<Rightarrow> if ah_Algorithm h = ''sha256'' then CHR 0x22 # ''sha256-'' @ ah_Value h @ [CHR 0x22] else [])
                         in Inr \<lparr>fl_Content = content, fl_ETag = etag\<rparr>))))"

definition handler_Artifacts ::
  "'s execution_store \<Rightarrow> (execution \<Rightarrow> artifact list) \<Rightarrow> ('s, project) app_op \<Rightarrow> string \<Rightarrow> string \<Rightarrow> 's \<Rightarrow> artifact list reply \<times> 's" where
  "handler_Artifacts es listArtifacts resolve executionID attempt =
     with_attempt resolve executionID attempt (\<lambda>p i n s.
       case module_Get es (p_ID p) i n s of
         (Inl e, s') \<Rightarrow> (Failure (storeError e), s')
       | (Inr v, s') \<Rightarrow> (Reply 200 (listArtifacts (vw_Execution v)), s'))"

definition handler_Download ::
  "'s execution_store \<Rightarrow> (execution \<Rightarrow> string \<Rightarrow> string \<Rightarrow> app_error + artifact_file) \<Rightarrow> ('s, project) app_op
     \<Rightarrow> string \<Rightarrow> string \<Rightarrow> string \<Rightarrow> string \<Rightarrow> 's \<Rightarrow> artifact_file reply \<times> 's" where
  "handler_Download es openArtifact resolve executionID attempt step path =
     with_attempt resolve executionID attempt (\<lambda>p i n s.
       case module_Get es (p_ID p) i n s of
         (Inl e, s') \<Rightarrow> (Failure (storeError e), s')
       | (Inr v, s') \<Rightarrow>
           (case openArtifact (vw_Execution v) step path of
              Inl (AppInvalid _) \<Rightarrow> (Failure 400, s')
            | Inl _ \<Rightarrow> (Failure 404, s')
            | Inr f \<Rightarrow> (Reply 200 f, s')))"

section \<open>File systems that are trees\<close>

definition fs_tree :: "os_fs \<Rightarrow> bool" where
  "fs_tree fs \<longleftrightarrow>
     (\<forall>p e. map_of fs p = Some e \<longrightarrow> p \<noteq> [] \<and> (\<forall>w \<in> set p. plain w) \<and> (butlast p \<noteq> [] \<longrightarrow> map_of fs (butlast p) = Some OsDir))"

lemma tree_parent: "fs_tree fs \<Longrightarrow> map_of fs p = Some e \<Longrightarrow> butlast p \<noteq> [] \<Longrightarrow> map_of fs (butlast p) = Some OsDir"
  by (auto simp: fs_tree_def)

lemma tree_above:
  assumes "fs_tree fs" "map_of fs (q @ r) = Some e" "q \<noteq> []" "r \<noteq> []"
  shows "map_of fs q = Some OsDir"
  using assms(2,4)
proof (induction r arbitrary: e rule: rev_induct)
  case (snoc x r)
  have "butlast (q @ r @ [x]) = q @ r" by (simp add: butlast_append)
  then have "map_of fs (q @ r) = Some OsDir" using tree_parent [OF assms(1) snoc.prems(1)] assms(3) by simp
  with snoc.IH show ?case by (cases "r = []") auto
qed simp

lemma tree_real_dir: "fs_tree fs \<Longrightarrow> map_of fs p = Some OsDir \<Longrightarrow> real_dir fs p"
  unfolding real_dir_def prefix_def using tree_above by (metis append_Nil2)

lemma tree_update:
  assumes "fs_tree fs" "p \<noteq> []" "\<forall>w \<in> set p. plain w" "butlast p \<noteq> [] \<longrightarrow> map_of fs (butlast p) = Some OsDir"
    "e = OsDir \<or> map_of fs p \<noteq> Some OsDir"
  shows "fs_tree (AList.update p e fs)"
  unfolding fs_tree_def update_conv'
proof (intro allI impI)
  fix q x assume q: "((map_of fs)(p \<mapsto> e)) q = Some x"
  have "butlast p \<noteq> p" using assms(2) by (metis length_butlast length_greater_0_conv less_irrefl diff_less zero_less_one)
  have kept: "((map_of fs)(p \<mapsto> e)) r = Some OsDir" if "map_of fs r = Some OsDir" for r using that assms(5) by auto
  show "q \<noteq> [] \<and> (\<forall>w \<in> set q. plain w) \<and> (butlast q \<noteq> [] \<longrightarrow> ((map_of fs)(p \<mapsto> e)) (butlast q) = Some OsDir)"
  proof (cases "q = p")
    case True
    then show ?thesis using assms(2-4) \<open>butlast p \<noteq> p\<close> by simp
  next
    case False
    then have "map_of fs q = Some x" using q by simp
    then have "q \<noteq> []" "\<forall>w \<in> set q. plain w" "butlast q \<noteq> [] \<longrightarrow> map_of fs (butlast q) = Some OsDir"
      using assms(1) by (auto simp: fs_tree_def)
    then show ?thesis using kept by blast
  qed
qed

lemma tree_delete:
  assumes "fs_tree fs" "map_of fs p \<noteq> Some OsDir"
  shows "fs_tree (AList.delete p fs)"
  using assms by (auto simp: fs_tree_def delete_conv' fun_upd_def)

text \<open>A name on whose way there is no link denotes itself, if it denotes anything.\<close>

lemma walk_clear:
  assumes "fs_tree fs" "entry_at fs cur = Some OsDir" "\<forall>w \<in> set cs. plain w"
    "\<And>q t. prefix q cs \<Longrightarrow> q \<noteq> [] \<Longrightarrow> map_of fs (cur @ q) \<noteq> Some (OsLink t)"
  shows "case walk fs n follow cur cs of Inl e \<Rightarrow> entry_at fs (cur @ cs) = None | Inr p \<Rightarrow> p = cur @ cs"
  using assms(2-)
proof (induction cs arbitrary: cur)
  case (Cons c cs)
  have c: "plain c" using Cons.prems(2) by simp
  have nl: "map_of fs (cur @ [c]) \<noteq> Some (OsLink t)" for t using Cons.prems(3) [of "[c]"] by simp
  have gone: "entry_at fs (cur @ c # cs) = None" if "map_of fs (cur @ [c]) \<noteq> Some OsDir" "cs \<noteq> []"
    using tree_above [OF assms(1), of "cur @ [c]" cs] that by (cases "map_of fs (cur @ [c] @ cs)") (auto simp: entry_at_def)
  show ?case
  proof (cases "map_of fs (cur @ [c]) = Some OsDir")
    case True
    have "\<And>q t. prefix q cs \<Longrightarrow> q \<noteq> [] \<Longrightarrow> map_of fs ((cur @ [c]) @ q) \<noteq> Some (OsLink t)"
      using Cons.prems(3) by (metis Cons_prefix_Cons append.assoc append_Cons append_Nil list.distinct(1))
    then have "case walk fs n follow (cur @ [c]) cs of Inl e \<Rightarrow> entry_at fs ((cur @ [c]) @ cs) = None | Inr p \<Rightarrow> p = (cur @ [c]) @ cs"
      using Cons.prems(2) True by (intro Cons.IH) (auto simp: entry_at_def)
    then show ?thesis using c True by (simp add: plain_def split: sum.splits)
  next
    case False
    then show ?thesis using c nl gone by (auto simp: plain_def split: option.split os_entry.split)
  qed
qed simp

lemma SplitByte_render: "\<forall>w \<in> set p. plain w \<Longrightarrow> SplitByte (render_path True p) (CHR ''/'') = [] # (if p = [] then [[]] else p)"
  using SplitByte_JoinByte [of p "CHR ''/''"] by (auto simp: render_path_def plain_def)

definition clear_way :: "os_fs \<Rightarrow> string list \<Rightarrow> bool" where
  "clear_way fs p \<longleftrightarrow> (\<forall>q t. prefix q p \<longrightarrow> q \<noteq> [] \<longrightarrow> map_of fs q \<noteq> Some (OsLink t))"

lemma os_names_clear:
  assumes "fs_tree fs" "\<forall>w \<in> set p. plain w" "clear_way fs p"
  shows "case os_real fs (render_path True p) of Inl e \<Rightarrow> entry_at fs p = None | Inr q \<Rightarrow> q = p"
    "case os_path fs (render_path True p) of Inl e \<Rightarrow> entry_at fs p = None | Inr q \<Rightarrow> q = p"
proof -
  have "case walk fs n f [] ([] # (if p = [] then [[]] else p)) of Inl e \<Rightarrow> entry_at fs p = None | Inr q \<Rightarrow> q = p" for n f
    using walk_clear [OF assms(1), of "[]" p n f] assms(2,3) by (cases "p = []") (auto simp: entry_at_def clear_way_def split: sum.splits)
  then show "case os_real fs (render_path True p) of Inl e \<Rightarrow> entry_at fs p = None | Inr q \<Rightarrow> q = p"
    "case os_path fs (render_path True p) of Inl e \<Rightarrow> entry_at fs p = None | Inr q \<Rightarrow> q = p"
    using assms(2) by (simp_all only: os_real_def os_path_def SplitByte_render)
qed

lemma os_Stat_clear:
  assumes "fs_tree fs" "\<forall>w \<in> set p. plain w" "clear_way fs p"
  shows "os_Stat fs (render_path True p) = Inr e \<longleftrightarrow> entry_at fs p = Some e"
  using os_names_clear(1) [OF assms] by (auto simp: os_Stat_def split: sum.splits option.splits)

lemma os_ReadFile_Inr: "os_ReadFile fs path = Inr c \<longleftrightarrow> os_Stat fs path = Inr (OsFile c)"
  by (cases "os_Stat fs path") (auto simp: os_ReadFile_def split: os_entry.split)

lemma clear_parent:
  assumes "real_dir fs q" "\<And>t. map_of fs (q @ [x]) \<noteq> Some (OsLink t)"
  shows "clear_way fs (q @ [x])"
  unfolding clear_way_def
proof (intro allI impI)
  fix r t assume "prefix r (q @ [x])" "r \<noteq> []"
  then show "map_of fs r \<noteq> Some (OsLink t)"
    using assms by (cases "r = q @ [x]") (auto simp: real_dir_def)
qed

text \<open>The calls on a name whose directory is real.\<close>

lemma calls_real:
  assumes "fs_tree fs" "real_dir fs q" "\<forall>w \<in> set q. plain w" "plain x" "\<And>t. map_of fs (q @ [x]) \<noteq> Some (OsLink t)"
  shows "os_path fs (render_path True (q @ [x])) = Inr (q @ [x])" "os_real fs (render_path True (q @ [x])) = Inr (q @ [x])"
proof -
  show "os_path fs (render_path True (q @ [x])) = Inr (q @ [x])" by (rule os_path_real [OF assms(2-4)])
  have "walk fs max_links True [] (q @ [x]) = walk fs max_links True q [x]"
    using walk_dirs [of fs "[]" q max_links True "[x]"] assms(2,3) by simp
  moreover have "walk fs max_links True q [x] = Inr (q @ [x])"
    using assms(4,5) by (auto simp: plain_def split: option.split os_entry.split)
  ultimately show "os_real fs (render_path True (q @ [x])) = Inr (q @ [x])"
    using assms(3,4) SplitByte_render [of "q @ [x]"] by (simp add: os_real_def)
qed

lemma os_Create_real:
  assumes "fs_tree fs" "real_dir fs q" "\<forall>w \<in> set q. plain w" "plain x" "map_of fs (q @ [x]) = None \<or> (\<exists>c. map_of fs (q @ [x]) = Some (OsFile c))"
  shows "os_Create fs (render_path True (q @ [x])) content = (Inr (), AList.update (q @ [x]) (OsFile content) fs)"
    "fs_tree (AList.update (q @ [x]) (OsFile content) fs)"
proof -
  have "os_real fs (render_path True (q @ [x])) = Inr (q @ [x])" by (rule calls_real [OF assms(1-4)]) (use assms(5) in auto)
  then show "os_Create fs (render_path True (q @ [x])) content = (Inr (), AList.update (q @ [x]) (OsFile content) fs)"
    using assms(5) by (auto simp: os_Create_def entry_at_def)
  show "fs_tree (AList.update (q @ [x]) (OsFile content) fs)"
    by (rule tree_update [OF assms(1)]) (use assms in \<open>auto simp: butlast_append real_dir_def\<close>)
qed

lemma os_Remove_file:
  assumes "fs_tree fs" "real_dir fs q" "\<forall>w \<in> set q. plain w" "plain x" "map_of fs (q @ [x]) = Some (OsFile c)"
  shows "os_Remove fs (render_path True (q @ [x])) = (Inr (), AList.delete (q @ [x]) fs)" "fs_tree (AList.delete (q @ [x]) fs)"
proof -
  have "os_path fs (render_path True (q @ [x])) = Inr (q @ [x])" by (rule calls_real [OF assms(1-4)]) (use assms(5) in auto)
  then show "os_Remove fs (render_path True (q @ [x])) = (Inr (), AList.delete (q @ [x]) fs)"
    using assms(5) by (simp add: os_Remove_def)
  show "fs_tree (AList.delete (q @ [x]) fs)" by (rule tree_delete [OF assms(1)]) (use assms(5) in simp)
qed

text \<open>On the way to \<open>p\<close> there are only directories, as far as there is anything.\<close>

definition dir_way :: "os_fs \<Rightarrow> string list \<Rightarrow> bool" where
  "dir_way fs p \<longleftrightarrow> (\<forall>q. prefix q p \<longrightarrow> q \<noteq> [] \<longrightarrow> map_of fs q = None \<or> map_of fs q = Some OsDir)"

lemma dir_way_clear: "dir_way fs p \<Longrightarrow> clear_way fs p"
  by (auto simp: dir_way_def clear_way_def)

lemma dir_way_prefix: "dir_way fs p \<Longrightarrow> prefix q p \<Longrightarrow> dir_way fs q"
  by (auto simp: dir_way_def)

lemma mkdir_all_way:
  assumes "fs_tree fs" "\<forall>w \<in> set p. plain w" "dir_way fs p"
  shows "\<exists>fs'. mkdir_all fs (rev p) = (Inr (), fs') \<and> fs_tree fs'
    \<and> (\<forall>q. map_of fs' q = (if q \<noteq> [] \<and> prefix q p then Some OsDir else map_of fs q))"
  using assms(2,3)
proof (induction p rule: rev_induct)
  case (snoc x p)
  have stat: "os_Stat fs (render_path True (p @ [x])) = Inr e \<longleftrightarrow> map_of fs (p @ [x]) = Some e" for e
    using os_Stat_clear [OF assms(1) snoc.prems(1) dir_way_clear [OF snoc.prems(2)]] by (simp add: entry_at_def)
  show ?case
  proof (cases "map_of fs (p @ [x])")
    case None
    obtain fs1 where fs1: "mkdir_all fs (rev p) = (Inr (), fs1)" "fs_tree fs1"
      "\<And>q. map_of fs1 q = (if q \<noteq> [] \<and> prefix q p then Some OsDir else map_of fs q)"
      using snoc.IH snoc.prems dir_way_prefix by (metis prefix_snoc butlast_snoc in_set_butlastD prefix_order.refl)
    have real: "real_dir fs1 p" using fs1(3) by (simp add: real_dir_def)
    have none: "map_of fs1 (p @ [x]) = None" using fs1(3) None by (simp add: prefix_def)
    have "os_path fs1 (render_path True (p @ [x])) = Inr (p @ [x])"
      by (rule os_path_real [OF real]) (use snoc.prems(1) in auto)
    then have mk: "os_Mkdir fs1 (render_path True (p @ [x])) = (Inr (), AList.update (p @ [x]) OsDir fs1)"
      using none by (simp add: os_Mkdir_def os_add_def)
    have "\<exists>e. os_Stat fs (render_path True (p @ [x])) = Inl e" using stat None by (cases "os_Stat fs (render_path True (p @ [x]))") auto
    then have "mkdir_all fs (rev (p @ [x])) = (Inr (), AList.update (p @ [x]) OsDir fs1)" using fs1(1) mk by auto
    moreover have "fs_tree (AList.update (p @ [x]) OsDir fs1)"
      by (rule tree_update [OF fs1(2)]) (use snoc.prems(1) real in \<open>auto simp: butlast_append real_dir_def\<close>)
    ultimately show ?thesis using fs1(3) by (auto simp: update_conv')
  next
    case (Some e)
    then have "e = OsDir" using snoc.prems(2) by (fastforce simp: dir_way_def)
    moreover have "map_of fs q = Some OsDir" if "q \<noteq> []" "prefix q (p @ [x])" for q
      using that Some \<open>e = OsDir\<close> tree_above [OF assms(1), of q] by (metis append_Nil2 prefix_def)
    moreover have "os_Stat fs (render_path True (p @ [x])) = Inr OsDir" using stat Some \<open>e = OsDir\<close> by simp
    ultimately have "mkdir_all fs (rev (p @ [x])) = (Inr (), fs)"
      "\<forall>q. map_of fs q = (if q \<noteq> [] \<and> prefix q (p @ [x]) then Some OsDir else map_of fs q)"
      by (auto simp: Let_def)
    then show ?thesis using assms(1) by blast
  qed
qed (use assms(1) in auto)

lemma MkdirAll_way:
  assumes "fs_tree fs" "\<forall>w \<in> set p. plain w" "dir_way fs p"
  obtains fs' where "os_MkdirAll fs (render_path True p) = (Inr (), fs')" "fs_tree fs'"
    "\<And>q. map_of fs' q = (if q \<noteq> [] \<and> prefix q p then Some OsDir else map_of fs q)"
  using mkdir_all_way [OF assms] that assms(2) by (auto simp: os_MkdirAll_def path_parts_render)

section \<open>The names below a directory\<close>

lemma walk_below_set:
  assumes "fs_tree fs"
  shows "r \<in> set (walk_below fs d) \<longleftrightarrow>
    r \<noteq> [] \<and> map_of fs (d @ r) \<noteq> None \<and> map_of fs (d @ r) \<noteq> Some OsDir"
proof -
  have "list_all (\<lambda>k. map_of fs (take k (d @ r)) = Some OsDir) [Suc (length d)..<length (d @ r)]" if "map_of fs (d @ r) = Some e" for e
  proof -
    have "map_of fs (take k (d @ r)) = Some OsDir" if k: "k \<in> set [Suc (length d)..<length (d @ r)]" for k
    proof (rule tree_above [OF assms])
      show "map_of fs (take k (d @ r) @ drop k (d @ r)) = Some e" using \<open>map_of fs (d @ r) = Some e\<close> by (simp only: append_take_drop_id)
    qed (use k in auto)
    then show ?thesis by (simp add: list_all_iff)
  qed
  note way = this
  show ?thesis
  proof
    assume "r \<in> set (walk_below fs d)"
    then obtain q where q: "q \<in> set (map fst fs)" "strict_prefix d q" "map_of fs q \<noteq> Some OsDir" "r = drop (length d) q"
      unfolding walk_below_def set_sort set_map set_filter set_remdups by blast
    then have "q = d @ r" "r \<noteq> []" by (auto simp: strict_prefix_def prefix_def)
    with q(1,3) show "r \<noteq> [] \<and> map_of fs (d @ r) \<noteq> None \<and> map_of fs (d @ r) \<noteq> Some OsDir"
      by (simp add: map_of_eq_None_iff)
  next
    assume r: "r \<noteq> [] \<and> map_of fs (d @ r) \<noteq> None \<and> map_of fs (d @ r) \<noteq> Some OsDir"
    then obtain e where e: "map_of fs (d @ r) = Some e" by blast
    have "d @ r \<in> set (map fst fs)" using r by (simp add: map_of_eq_None_iff)
    moreover have "strict_prefix d (d @ r)" using r by (simp add: strict_prefix_def)
    ultimately have "d @ r \<in> {q \<in> set (map fst fs). strict_prefix d q \<and> map_of fs q \<noteq> Some OsDir
        \<and> list_all (\<lambda>k. map_of fs (take k q) = Some OsDir) [Suc (length d)..<length q]}"
      using r way [OF e] by blast
    then have "drop (length d) (d @ r) \<in> set (walk_below fs d)"
      unfolding walk_below_def set_sort set_map set_filter set_remdups by (rule imageI)
    then show "r \<in> set (walk_below fs d)" by simp
  qed
qed

lemma walk_below_distinct: "distinct (walk_below fs d)"
  by (auto simp: walk_below_def distinct_map inj_on_def strict_prefix_def prefix_def)

lemma walk_below_antichain:
  assumes "fs_tree fs" "d \<noteq> []" "r \<in> set (walk_below fs d)" "r' \<in> set (walk_below fs d)" "prefix r r'"
  shows "r = r'"
proof (rule ccontr)
  assume "r \<noteq> r'"
  then obtain s where s: "r' = r @ s" "s \<noteq> []" using assms(5) by (auto simp: prefix_def)
  obtain e where "map_of fs ((d @ r) @ s) = Some e" using assms(4) s by (auto simp: walk_below_set [OF assms(1)])
  then have "map_of fs (d @ r) = Some OsDir" by (rule tree_above [OF assms(1)]) (use assms(2) s(2) in auto)
  then show False using assms(3) by (simp add: walk_below_set [OF assms(1)])
qed

lemma walk_below_plain: "fs_tree fs \<Longrightarrow> r \<in> set (walk_below fs d) \<Longrightarrow> r \<noteq> [] \<and> (\<forall>w \<in> set r. plain w)"
  by (auto simp: walk_below_set fs_tree_def)

lemma WalkFiles_real:
  assumes "real_dir fs d" "\<forall>w \<in> set d. plain w" "d \<noteq> []"
  shows "WalkFiles fs (render_path True d) = walk_below fs d"
proof -
  obtain q x where d: "d = q @ [x]" using assms(3) by (cases d rule: rev_cases) auto
  then have "os_path fs (render_path True d) = Inr d" using assms(1,2) os_path_real [of fs q x] by (auto simp: real_dir_snoc)
  moreover have "entry_at fs d = Some OsDir" using assms(1,3) by (simp add: entry_at_def real_dir_def)
  ultimately show ?thesis by (simp add: WalkFiles_def)
qed

section \<open>What a collection leaves\<close>

text \<open>Only what lies below \<open>ds\<close> differs, but for directories made on the way to it.\<close>

definition outside_kept :: "string list \<Rightarrow> os_fs \<Rightarrow> os_fs \<Rightarrow> bool" where
  "outside_kept ds fs fs' \<longleftrightarrow>
     (\<forall>q. \<not> strict_prefix ds q \<longrightarrow> map_of fs' q = map_of fs q \<or> prefix q ds \<and> map_of fs q = None \<and> map_of fs' q = Some OsDir)"

lemma outside_kept_refl [simp]: "outside_kept ds fs fs"
  by (simp add: outside_kept_def)

lemma outside_kept_trans: "outside_kept ds fs fs1 \<Longrightarrow> outside_kept ds fs1 fs2 \<Longrightarrow> outside_kept ds fs fs2"
  unfolding outside_kept_def by (metis option.distinct(1))

lemma outside_kept_prefix:
  "prefix as ds \<Longrightarrow> outside_kept ds fs fs' \<Longrightarrow> outside_kept as fs fs'"
  unfolding outside_kept_def
proof (intro allI impI)
  fix q
  assume as: "prefix as ds" and kept: "\<forall>q. \<not> strict_prefix ds q \<longrightarrow> map_of fs' q = map_of fs q
      \<or> prefix q ds \<and> map_of fs q = None \<and> map_of fs' q = Some OsDir" and q: "\<not> strict_prefix as q"
  have "\<not> strict_prefix ds q" using as q by (meson prefix_order.le_less_trans)
  moreover have "prefix q as" if "prefix q ds" using prefix_same_cases [OF that as] q by (auto simp: strict_prefix_def)
  ultimately show "map_of fs' q = map_of fs q \<or> prefix q as \<and> map_of fs q = None \<and> map_of fs' q = Some OsDir"
    using kept by blast
qed

text \<open>A name that is read the same way whatever happens below the artifact directory.\<close>

definition read_apart :: "string list \<Rightarrow> os_fs \<Rightarrow> string \<Rightarrow> bool" where
  "read_apart as fs path \<longleftrightarrow> (\<forall>fs'. outside_kept as fs fs' \<longrightarrow> os_Stat fs' path = os_Stat fs path)"

lemma read_apart_ReadFile: "read_apart as fs path \<Longrightarrow> outside_kept as fs fs' \<Longrightarrow> os_ReadFile fs' path = os_ReadFile fs path"
  unfolding read_apart_def os_ReadFile_def by (metis (no_types))

lemma read_apart_kept: "read_apart as fs path \<Longrightarrow> outside_kept as fs fs1 \<Longrightarrow> read_apart as fs1 path"
  unfolding read_apart_def
proof (intro allI impI)
  fix fs'
  assume apart: "\<forall>fs'. outside_kept as fs fs' \<longrightarrow> os_Stat fs' path = os_Stat fs path" and kept: "outside_kept as fs fs1" "outside_kept as fs1 fs'"
  have "os_Stat fs' path = os_Stat fs path" "os_Stat fs1 path = os_Stat fs path"
    using apart kept(1) outside_kept_trans [OF kept] by blast+
  then show "os_Stat fs' path = os_Stat fs1 path" by (rule trans [OF _ sym])
qed

text \<open>The content a collection keeps of a name: the name matches, can be read and fits on the disk.\<close>

definition kept_content :: "artifact_env \<Rightarrow> string list \<Rightarrow> string \<Rightarrow> string \<Rightarrow> os_fs \<Rightarrow> string list \<Rightarrow> string option" where
  "kept_content env patterns repoDir root fs rel =
     (if matchesAny (ae_glob env) patterns (render_path False rel) \<and> \<not> ae_full env (Join [root, render_path False rel])
      then (case os_ReadFile fs (Join [repoDir, render_path False rel]) of Inl _ \<Rightarrow> None | Inr c \<Rightarrow> Some c)
      else None)"

definition kept_entry :: "artifact_env \<Rightarrow> string list \<Rightarrow> string \<Rightarrow> manifest_entry" where
  "kept_entry env rel c =
     \<lparr>me_Path = render_path False rel, me_Hash = \<lparr>ah_Algorithm = ''sha256'', ah_Value = ae_sha256 env c\<rparr>\<rparr>"

text \<open>The tree of the step after the names \<open>dn\<close>: the kept files and the directories above matching names.\<close>

definition step_tree :: "(string list \<Rightarrow> string option) \<Rightarrow> string list \<Rightarrow> string list set \<Rightarrow> os_fs \<Rightarrow> bool" where
  "step_tree kept ds dn fs \<longleftrightarrow>
     (\<forall>q. q \<noteq> [] \<longrightarrow>
        (case map_of fs (ds @ q) of
           None \<Rightarrow> True
         | Some OsDir \<Rightarrow> \<exists>r \<in> dn. strict_prefix q r
         | Some (OsFile c) \<Rightarrow> q \<in> dn \<and> kept q = Some c
         | Some (OsLink _) \<Rightarrow> False))
     \<and> (\<forall>q \<in> dn. \<forall>c. kept q = Some c \<longrightarrow> map_of fs (ds @ q) = Some (OsFile c))"

lemma step_treeD:
  assumes "step_tree kept ds dn fs" "q \<noteq> []"
  shows "map_of fs (ds @ q) = Some OsDir \<Longrightarrow> \<exists>r \<in> dn. strict_prefix q r"
    "map_of fs (ds @ q) = Some (OsFile c) \<Longrightarrow> q \<in> dn \<and> kept q = Some c" "map_of fs (ds @ q) \<noteq> Some (OsLink t)"
  using assms unfolding step_tree_def by (fastforce split: option.splits os_entry.splits)+

lemma step_tree_file:
  assumes "step_tree kept ds dn fs" "q \<noteq> []"
  shows "map_of fs (ds @ q) = Some (OsFile c) \<longleftrightarrow> q \<in> dn \<and> kept q = Some c"
proof
  assume "q \<in> dn \<and> kept q = Some c"
  then show "map_of fs (ds @ q) = Some (OsFile c)" using assms(1) unfolding step_tree_def by blast
qed (rule step_treeD(2) [OF assms])

text \<open>One more name: the directories above it are made, and the file is written when it is kept.\<close>

lemma step_tree_more:
  assumes tr: "step_tree kept ds dn fs" and r: "r \<noteq> []" "map_of fs (ds @ r) = None"
    and m: "\<And>q. map_of fs' q = (if q = ds @ r then map_option OsFile (kept r)
                 else if q \<noteq> [] \<and> prefix q (ds @ butlast r) then Some OsDir else map_of fs q)"
    and free: "\<And>q. q \<in> dn \<Longrightarrow> \<not> prefix q r"
  shows "step_tree kept ds (insert r dn) fs'"
proof -
  have below: "map_of fs' (ds @ q) = (if q = r then map_option OsFile (kept r)
      else if strict_prefix q r then Some OsDir else map_of fs (ds @ q))" if "q \<noteq> []" for q
  proof -
    have "prefix q (butlast r) \<longleftrightarrow> strict_prefix q r" if "q \<noteq> r"
      using r(1) that by (cases r rule: rev_cases) (auto simp: strict_prefix_def)
    then show ?thesis using m [of "ds @ q"] \<open>q \<noteq> []\<close> by auto
  qed
  have 1: "case map_of fs' (ds @ q) of None \<Rightarrow> True | Some OsDir \<Rightarrow> \<exists>s \<in> insert r dn. strict_prefix q s
      | Some (OsFile c) \<Rightarrow> q \<in> insert r dn \<and> kept q = Some c | Some (OsLink _) \<Rightarrow> False" if "q \<noteq> []" for q
  proof (cases "q = r \<or> strict_prefix q r")
    case True
    then show ?thesis using below [OF that] by (cases "kept r") auto
  next
    case False
    then have "map_of fs' (ds @ q) = map_of fs (ds @ q)" using below [OF that] by simp
    moreover have "case map_of fs (ds @ q) of None \<Rightarrow> True | Some OsDir \<Rightarrow> \<exists>s \<in> dn. strict_prefix q s
      | Some (OsFile c) \<Rightarrow> q \<in> dn \<and> kept q = Some c | Some (OsLink _) \<Rightarrow> False"
      using tr that by (simp add: step_tree_def)
    ultimately show ?thesis by (auto split: option.splits os_entry.splits)
  qed
  have 2: "map_of fs' (ds @ q) = Some (OsFile c)" if "q \<in> insert r dn" "kept q = Some c" for q c
  proof (cases "q = r")
    case True
    then show ?thesis using below [OF r(1)] that by simp
  next
    case False
    then have "q \<in> dn" using that by simp
    then have "map_of fs (ds @ q) = Some (OsFile c)" "\<not> prefix q r" using tr that free by (auto simp: step_tree_def)
    moreover have "q \<noteq> []" using \<open>\<not> prefix q r\<close> by auto
    ultimately show ?thesis using below [of q] False by (simp add: strict_prefix_def)
  qed
  from 1 2 show ?thesis unfolding step_tree_def by blast
qed

section \<open>One name\<close>

lemma Join_relative:
  assumes "\<forall>w \<in> set ds. plain w" "\<forall>w \<in> set r. plain w" "r \<noteq> []"
  shows "Join [render_path True ds, render_path False r] = render_path True (ds @ r)"
proof -
  have "path_parts (render_path False r) = r" using assms(2,3) path_parts_JoinByte [of r] by (auto simp: render_path_def)
  then show ?thesis using assms(2) by (simp add: Join_render [OF assms(1)] clean_stack_plain)
qed

lemma HashFile_spec:
  assumes t: "fs_tree fs" and d: "real_dir fs q" "\<forall>w \<in> set q. plain w" "plain x" and none: "map_of fs (q @ [x]) = None"
    and stable: "os_Stat (AList.update (q @ [x]) (OsFile []) fs) src = os_Stat fs src"
    and content: "content = (if ae_full env (render_path True (q @ [x])) then None
      else (case os_ReadFile fs src of Inl _ \<Rightarrow> None | Inr c \<Rightarrow> Some c))"
  obtains res fs2 where "HashFile env src (render_path True (q @ [x])) fs = (res, fs2)" "fs_tree fs2"
    "\<And>p. map_of fs2 p = (if p = q @ [x] then map_option OsFile content else map_of fs p)"
    "case content of None \<Rightarrow> \<exists>e. res = Inl e | Some c \<Rightarrow> res = Inr \<lparr>ah_Algorithm = ''sha256'', ah_Value = ae_sha256 env c\<rparr>"
proof -
  let ?dst = "render_path True (q @ [x])" and ?fs1 = "AList.update (q @ [x]) (OsFile []) fs"
  have c1: "os_Create fs ?dst [] = (Inr (), ?fs1)" and t1: "fs_tree ?fs1"
    using os_Create_real [OF t d] none by auto
  have d1: "real_dir ?fs1 q" using d(1) by (auto simp: real_dir_def update_conv')
  have f1: "map_of ?fs1 (q @ [x]) = Some (OsFile [])" by (simp add: update_conv')
  have rm: "os_Remove ?fs1 ?dst = (Inr (), AList.delete (q @ [x]) ?fs1)" "fs_tree (AList.delete (q @ [x]) ?fs1)"
    by (rule os_Remove_file [OF t1 d1 d(2,3) f1])+
  have c2: "os_Create ?fs1 ?dst c = (Inr (), AList.update (q @ [x]) (OsFile c) ?fs1)" "fs_tree (AList.update (q @ [x]) (OsFile c) ?fs1)" for c
    using os_Create_real [OF t1 d1 d(2,3)] f1 by auto
  have undone: "map_of (AList.delete (q @ [x]) ?fs1) p = map_of fs p" for p
    using none by (simp add: delete_conv' update_conv')
  show thesis
  proof (cases "os_Stat fs src")
    case (Inl e)
    then have "HashFile env src ?dst fs = (Inl e, fs)" "content = None" by (simp_all add: HashFile_def content os_ReadFile_def)
    then show thesis using that [of "Inl e" fs] t none by simp
  next
    case (Inr e)
    show thesis
    proof (cases "os_ReadFile fs src")
      case err: (Inl er)
      then have "os_ReadFile ?fs1 src = Inl er" using stable by (simp add: os_ReadFile_def)
      then have "HashFile env src ?dst fs = (Inl er, AList.delete (q @ [x]) ?fs1)" "content = None"
        using Inr c1 rm(1) err by (simp_all add: HashFile_def content)
      then show thesis using that [of "Inl er"] rm(2) undone none by simp
    next
      case ok: (Inr c)
      then have "os_ReadFile ?fs1 src = Inr c" using stable by (simp add: os_ReadFile_def)
      then have h: "HashFile env src ?dst fs = (if ae_full env ?dst then (Inl ENOSPC, AList.delete (q @ [x]) ?fs1)
          else (Inr \<lparr>ah_Algorithm = ''sha256'', ah_Value = ae_sha256 env c\<rparr>, AList.update (q @ [x]) (OsFile c) ?fs1))"
        using Inr c1 c2(1) rm(1) by (simp add: HashFile_def)
      show thesis
      proof (cases "ae_full env ?dst")
        case True
        then show thesis using that [of "Inl ENOSPC"] h rm(2) undone none by (simp add: content)
      next
        case False
        then show thesis using that h c2(2) [of c] ok by (simp add: content update_conv')
      qed
    qed
  qed
qed

definition collect_inv :: "artifact_env \<Rightarrow> string list \<Rightarrow> string \<Rightarrow> string list \<Rightarrow> os_fs \<Rightarrow> string list list \<Rightarrow> collection \<Rightarrow> bool" where
  "collect_inv env patterns repoDir ds fs0 dn acc \<longleftrightarrow>
     (case acc of
        (entries, warns, fs) \<Rightarrow>
          fs_tree fs \<and> dir_way fs ds \<and> outside_kept ds fs0 fs
          \<and> step_tree (kept_content env patterns repoDir (render_path True ds) fs0) ds (set dn) fs
          \<and> entries = concat (map (\<lambda>r. case kept_content env patterns repoDir (render_path True ds) fs0 r of
                                          None \<Rightarrow> [] | Some c \<Rightarrow> [kept_entry env r c]) dn))"

lemma step_tree_skip: "step_tree kept ds dn fs \<Longrightarrow> kept r = None \<Longrightarrow> step_tree kept ds (insert r dn) fs"
  unfolding step_tree_def by (fastforce split: option.splits os_entry.splits)

lemma collect_file_inv:
  assumes inv: "collect_inv env patterns repoDir ds fs0 dn acc"
    and ds: "\<forall>w \<in> set ds. plain w" and r: "\<forall>w \<in> set r. plain w" "r \<noteq> []"
    and fresh: "\<And>q. q \<in> set dn \<Longrightarrow> \<not> prefix q r \<and> \<not> prefix r q"
    and apart: "read_apart as fs0 (Join [repoDir, render_path False r])" "prefix as ds"
  shows "collect_inv env patterns repoDir ds fs0 (dn @ [r]) (collect_file env patterns repoDir (render_path True ds) acc r)"
proof -
  let ?root = "render_path True ds" and ?rs = "render_path False r"
  let ?kept = "kept_content env patterns repoDir ?root fs0"
  obtain entries warns fs where acc: "acc = (entries, warns, fs)" by (cases acc) auto
  have t: "fs_tree fs" and way: "dir_way fs ds" and out: "outside_kept ds fs0 fs" and tr: "step_tree ?kept ds (set dn) fs"
    using inv by (simp_all add: collect_inv_def acc)
  obtain q x where qx: "r = q @ [x]" using r(2) by (cases r rule: rev_cases) auto
  show ?thesis
  proof (cases "matchesAny (ae_glob env) patterns ?rs")
    case False
    then have "?kept r = None" by (simp add: kept_content_def)
    with False inv show ?thesis by (simp add: collect_inv_def collect_file_def acc step_tree_skip)
  next
    case True
    have dest: "Join [?root, ?rs] = render_path True ((ds @ q) @ [x])" using Join_relative [OF ds r] qx by simp
    have plain: "\<forall>w \<in> set (ds @ q). plain w" "plain x" using ds r(1) qx by auto
    have way_q: "dir_way fs (ds @ q)"
      unfolding dir_way_def
    proof (intro allI impI)
      fix p assume p: "prefix p (ds @ q)" "p \<noteq> []"
      show "map_of fs p = None \<or> map_of fs p = Some OsDir"
      proof (cases "prefix p ds")
        case True
        with way p(2) show ?thesis by (auto simp: dir_way_def)
      next
        case False
        then obtain p' where p': "p = ds @ p'" "prefix p' q" using p(1) by (auto simp: prefix_append)
        then have "p' \<noteq> []" using False by auto
        moreover have "p' \<notin> set dn" using fresh [of p'] p'(2) qx by auto
        ultimately show ?thesis using step_treeD [OF tr, of p'] p'(1)
          by (cases "map_of fs p"; cases "the (map_of fs p)") auto
      qed
    qed
    obtain fs1 where fs1: "os_MkdirAll fs (render_path True (ds @ q)) = (Inr (), fs1)" "fs_tree fs1"
      "\<And>p. map_of fs1 p = (if p \<noteq> [] \<and> prefix p (ds @ q) then Some OsDir else map_of fs p)"
      using MkdirAll_way [OF t plain(1) way_q] by blast
    have none: "map_of fs (ds @ r) = None"
    proof (rule ccontr)
      assume "map_of fs (ds @ r) \<noteq> None"
      then obtain e where "map_of fs (ds @ r) = Some e" by blast
      then show False using step_treeD [OF tr r(2)] fresh by (cases e) (auto simp: strict_prefix_def)
    qed
    have none1: "map_of fs1 ((ds @ q) @ [x]) = None" using none qx fs1(3) by (auto simp: prefix_def)
    have real: "real_dir fs1 (ds @ q)" using fs1(3) by (simp add: real_dir_def)
    have keep: "outside_kept ds fs fs'" if "\<And>p. p \<noteq> ds @ r \<Longrightarrow> map_of fs' p = (if p \<noteq> [] \<and> prefix p (ds @ q) then Some OsDir else map_of fs p)" for fs'
      unfolding outside_kept_def
    proof (intro allI impI)
      fix p assume p: "\<not> strict_prefix ds p"
      then have "p \<noteq> ds @ r" using r(2) by (auto simp: strict_prefix_def)
      moreover have "prefix p ds" if "prefix p (ds @ q)" using that p by (auto simp: prefix_append strict_prefix_def)
      ultimately show "map_of fs' p = map_of fs p \<or> prefix p ds \<and> map_of fs p = None \<and> map_of fs' p = Some OsDir"
        using that [of p] way by (auto simp: dir_way_def)
    qed
    have out1: "outside_kept as fs0 fs1" "outside_kept as fs0 (AList.update ((ds @ q) @ [x]) (OsFile []) fs1)"
      using outside_kept_prefix [OF apart(2) outside_kept_trans [OF out keep]] fs1(3) qx by (auto simp: update_conv')
    let ?src = "Join [repoDir, ?rs]"
    have stat: "os_Stat fs1 ?src = os_Stat fs0 ?src" "os_Stat (AList.update ((ds @ q) @ [x]) (OsFile []) fs1) ?src = os_Stat fs1 ?src"
      using apart(1) out1 unfolding read_apart_def by metis+
    have k: "?kept r = (if ae_full env (render_path True ((ds @ q) @ [x])) then None
        else (case os_ReadFile fs1 ?src of Inl _ \<Rightarrow> None | Inr c \<Rightarrow> Some c))"
      using True dest stat(1) by (simp add: kept_content_def os_ReadFile_def)
    obtain res fs2 where h: "HashFile env ?src (render_path True ((ds @ q) @ [x])) fs1 = (res, fs2)" "fs_tree fs2"
      "\<And>p. map_of fs2 p = (if p = (ds @ q) @ [x] then map_option OsFile (?kept r) else map_of fs1 p)"
      "case ?kept r of None \<Rightarrow> \<exists>e. res = Inl e | Some c \<Rightarrow> res = Inr \<lparr>ah_Algorithm = ''sha256'', ah_Value = ae_sha256 env c\<rparr>"
      by (rule HashFile_spec [OF fs1(2) real plain none1 stat(2) k]) (rule that)
    have m: "map_of fs2 p = (if p = ds @ r then map_option OsFile (?kept r)
        else if p \<noteq> [] \<and> prefix p (ds @ butlast r) then Some OsDir else map_of fs p)" for p
      using h(3) fs1(3) qx by simp
    have "step_tree ?kept ds (insert r (set dn)) fs2"
      by (rule step_tree_more [OF tr r(2) none m]) (use fresh in blast)
    moreover have "outside_kept ds fs0 fs2" using outside_kept_trans [OF out keep] m qx by simp
    moreover have "dir_way fs2 ds" using m r(2) by (auto simp: dir_way_def prefix_def)
    moreover have "collect_file env patterns repoDir ?root acc r =
        (case res of Inl _ \<Rightarrow> (entries, warns @ [WarnCollect ?rs], fs2) | Inr hs \<Rightarrow> (entries @ [\<lparr>me_Path = ?rs, me_Hash = hs\<rparr>], warns, fs2))"
      using True fs1(1) h(1) dest Dir_render [OF plain] by (simp add: collect_file_def acc Let_def split: sum.split)
    moreover have "entries = concat (map (\<lambda>r. case ?kept r of None \<Rightarrow> [] | Some c \<Rightarrow> [kept_entry env r c]) dn)"
      using inv by (simp add: collect_inv_def acc)
    ultimately show ?thesis using h(2,4) by (cases "?kept r") (auto simp: collect_inv_def kept_entry_def)
  qed
qed

section \<open>The whole collection\<close>

lemma collect_fold_inv:
  assumes "collect_inv env patterns repoDir ds fs0 dn acc" "\<forall>w \<in> set ds. plain w" "prefix as ds"
    and "distinct (dn @ rels)" "\<And>q r. q \<in> set (dn @ rels) \<Longrightarrow> r \<in> set (dn @ rels) \<Longrightarrow> prefix q r \<Longrightarrow> q = r"
    and "\<forall>r \<in> set rels. r \<noteq> [] \<and> (\<forall>w \<in> set r. plain w) \<and> read_apart as fs0 (Join [repoDir, render_path False r])"
  shows "collect_inv env patterns repoDir ds fs0 (dn @ rels) (foldl (collect_file env patterns repoDir (render_path True ds)) acc rels)"
  using assms
proof (induction rels arbitrary: dn acc)
  case (Cons r rels)
  have fresh: "\<not> prefix q r \<and> \<not> prefix r q" if "q \<in> set dn" for q
    using Cons.prems(4) Cons.prems(5) [of q r] Cons.prems(5) [of r q] that by auto
  have "collect_inv env patterns repoDir ds fs0 (dn @ [r]) (collect_file env patterns repoDir (render_path True ds) acc r)"
    by (rule collect_file_inv [OF Cons.prems(1,2) _ _ fresh _ Cons.prems(3)]) (use Cons.prems(6) in auto)
  from Cons.IH [OF this] Cons.prems show ?case by simp
qed simp

lemma map_of_filter_keys: "map_of (filter (\<lambda>(q, _). P q) xs) q = (if P q then map_of xs q else None)"
  by (induction xs) auto

text \<open>Where the artifacts of a step go: a directory of their own, apart from the repository and without links on the way.\<close>

definition artifact_slot :: "string list \<Rightarrow> uuid \<Rightarrow> int \<Rightarrow> string list" where
  "artifact_slot ps projectID execID = ps @ [''artifacts'', uuid_String projectID, itoa execID]"

definition artifact_site :: "artifact_env \<Rightarrow> workspace \<Rightarrow> string list \<Rightarrow> uuid \<Rightarrow> int \<Rightarrow> int \<Rightarrow> string list \<Rightarrow> os_fs \<Rightarrow> bool" where
  "artifact_site env ws ps projectID execID index rp fs \<longleftrightarrow>
     (let as = artifact_slot ps projectID execID; m = as @ [pad3 index @ ''.json'']
      in rooted (ws_root ws) ps \<and> fs_tree fs \<and> real_dir fs rp \<and> rp \<noteq> [] \<and> \<not> prefix as rp \<and> \<not> prefix rp as \<and> 0 \<le> index
         \<and> dir_way fs (as @ [pad3 index]) \<and> (\<forall>e. map_of fs m = Some e \<longrightarrow> (\<exists>c. e = OsFile c))
         \<and> CHR ''/'' \<notin> set (ae_temp env) \<and> map_of fs (as @ [''.manifest-'' @ ae_temp env @ ''.json'']) = None
         \<and> \<not> ae_full env (render_path True (as @ [''.manifest-'' @ ae_temp env @ ''.json''])))"

lemma RemoveAll_way:
  assumes "fs_tree fs" "\<forall>w \<in> set p. plain w" "dir_way fs p" "p \<noteq> []"
  obtains r fs1 where "os_RemoveAll fs (render_path True p) = (r, fs1)" "fs_tree fs1"
    "\<And>q. map_of fs1 q = (if prefix p q then None else map_of fs q)"
proof (cases "os_path fs (render_path True p)")
  case (Inl e)
  then have "map_of fs p = None" using os_names_clear(2) [OF assms(1,2) dir_way_clear [OF assms(3)]] assms(4) by (simp add: entry_at_def)
  then have "map_of fs q = None" if "prefix p q" for q
    using tree_above [OF assms(1), of p] that assms(4) by (metis append_Nil2 not_None_eq option.distinct(1) prefix_def)
  then show thesis using that [of _ fs] Inl assms(1) by (auto simp: os_RemoveAll_def)
next
  case (Inr q)
  then have q: "q = p" using os_names_clear(2) [OF assms(1,2) dir_way_clear [OF assms(3)]] by simp
  let ?fs1 = "filter (\<lambda>(q, _). \<not> prefix p q) fs"
  have m: "map_of ?fs1 q = (if prefix p q then None else map_of fs q)" for q by (simp add: map_of_filter_keys)
  have "\<not> prefix p (butlast r)" if "\<not> prefix p r" for r
    using that by (metis append_butlast_last_id butlast.simps(1) prefix_order.trans prefixI)
  then have "fs_tree ?fs1" using assms(1) unfolding fs_tree_def m by auto
  then show thesis using that [of _ ?fs1] m Inr q by (simp add: os_RemoveAll_def)
qed

lemma Remove_slot:
  assumes "fs_tree fs" "\<forall>w \<in> set p. plain w" "clear_way fs p" "p \<noteq> []" "map_of fs p \<noteq> Some OsDir"
  obtains r fs1 where "os_Remove fs (render_path True p) = (r, fs1)" "fs_tree fs1" "\<And>q. map_of fs1 q = (if q = p then None else map_of fs q)"
proof (cases "os_path fs (render_path True p)")
  case (Inl e)
  then have "map_of fs p = None" using os_names_clear(2) [OF assms(1-3)] assms(4) by (simp add: entry_at_def)
  then show thesis using that [of _ fs] Inl assms(1) by (simp add: os_Remove_def)
next
  case (Inr q)
  then have q: "q = p" using os_names_clear(2) [OF assms(1-3)] by simp
  show thesis
  proof (cases "map_of fs p")
    case None
    then show thesis using that [of _ fs] Inr q assms(1,4) by (simp add: os_Remove_def)
  next
    case (Some e)
    then have "os_Remove fs (render_path True p) = (Inr (), AList.delete p fs)" using assms(4,5) Inr q by (simp add: os_Remove_def)
    then show thesis using that tree_delete [OF assms(1,5)] by (simp add: delete_conv' fun_upd_def)
  qed
qed

lemma WriteManifest_way:
  assumes t: "fs_tree fs" and as: "\<forall>w \<in> set as. plain w" "dir_way fs as" and m: "plain m" "map_of fs (as @ [m]) = None"
    and tmp: "plain (''.manifest-'' @ ae_temp env @ ''.json'')" "map_of fs (as @ [''.manifest-'' @ ae_temp env @ ''.json'']) = None"
      "\<not> ae_full env (render_path True (as @ [''.manifest-'' @ ae_temp env @ ''.json'']))" "m \<noteq> ''.manifest-'' @ ae_temp env @ ''.json''"
  obtains fs' where "WriteManifest env (render_path True (as @ [m])) entries fs = (Inr (), fs')" "fs_tree fs'"
    "\<And>q. map_of fs' q = (if q = as @ [m] then Some (OsFile (ae_encode env \<lparr>mf_Version = 1, mf_Artifacts = entries\<rparr>))
        else if q \<noteq> [] \<and> prefix q as then Some OsDir else map_of fs q)"
proof -
  let ?t = "''.manifest-'' @ ae_temp env @ ''.json''" and ?c = "ae_encode env \<lparr>mf_Version = 1, mf_Artifacts = entries\<rparr>"
  let ?tmp = "render_path True (as @ [?t])" and ?path = "render_path True (as @ [m])"
  obtain fs1 where fs1: "os_MkdirAll fs (render_path True as) = (Inr (), fs1)" "fs_tree fs1"
    "\<And>q. map_of fs1 q = (if q \<noteq> [] \<and> prefix q as then Some OsDir else map_of fs q)"
    using MkdirAll_way [OF t as] by blast
  have real: "real_dir fs1 as" using fs1(3) by (simp add: real_dir_def)
  have free: "map_of fs1 (as @ [m]) = None" "map_of fs1 (as @ [?t]) = None" using fs1(3) m(2) tmp(2) by (auto simp: prefix_def)
  let ?fs2 = "AList.update (as @ [?t]) (OsFile []) fs1"
  have c2: "os_CreateExcl fs1 ?tmp [] = (Inr (), ?fs2)"
    using os_path_real [OF real as(1) tmp(1)] free(2) by (simp add: os_CreateExcl_def os_add_def)
  have t2: "fs_tree ?fs2" using os_Create_real(2) [OF fs1(2) real as(1) tmp(1)] free(2) by auto
  have real2: "real_dir ?fs2 as" using real by (auto simp: real_dir_def update_conv')
  let ?fs3 = "AList.update (as @ [?t]) (OsFile ?c) ?fs2"
  have c3: "os_Create ?fs2 ?tmp ?c = (Inr (), ?fs3)" "fs_tree ?fs3"
    using os_Create_real [OF t2 real2 as(1) tmp(1)] by (auto simp: update_conv')
  have real3: "real_dir ?fs3 as" using real by (auto simp: real_dir_def update_conv')
  have at3: "map_of ?fs3 (as @ [?t]) = Some (OsFile ?c)" "map_of ?fs3 (as @ [m]) = None"
    using free tmp(4) by (auto simp: update_conv')
  let ?fs4 = "AList.delete (as @ [?t]) ?fs3"
  have c4: "os_Rename ?fs3 ?tmp ?path = (Inr (), AList.update (as @ [m]) (OsFile ?c) ?fs4)"
    using os_path_real [OF real3 as(1) tmp(1)] os_path_real [OF real3 as(1) m(1)] at3 by (simp add: os_Rename_def entry_at_def)
  have t4: "fs_tree ?fs4" by (rule tree_delete [OF c3(2)]) (use at3(1) in simp)
  have real4: "real_dir ?fs4 as" using real3 by (auto simp: real_dir_def delete_conv')
  have "fs_tree (AList.update (as @ [m]) (OsFile ?c) ?fs4)"
    by (rule tree_update [OF t4]) (use as(1) m(1) real4 at3(2) in \<open>auto simp: butlast_append real_dir_def delete_conv'\<close>)
  moreover have "WriteManifest env ?path entries fs = (Inr (), AList.update (as @ [m]) (OsFile ?c) ?fs4)"
    using fs1(1) c2 c3(1) c4 tmp(3) Dir_render [OF as(1) m(1)] Join_render_plain [OF as(1), of "[?t]"] tmp(1)
    by (simp add: WriteManifest_def manifestVersion_def Let_def)
  moreover have "map_of (AList.update (as @ [m]) (OsFile ?c) ?fs4) q = (if q = as @ [m] then Some (OsFile ?c)
      else if q \<noteq> [] \<and> prefix q as then Some OsDir else map_of fs q)" for q
    using fs1(3) tmp(2) by (auto simp: update_conv' delete_conv' prefix_def)
  ultimately show thesis using that by blast
qed

lemma kept_content_apart:
  assumes "read_apart as fs (Join [repoDir, render_path False r])" "outside_kept as fs fs'"
  shows "kept_content env patterns repoDir root fs' r = kept_content env patterns repoDir root fs r"
  unfolding kept_content_def read_apart_ReadFile [OF assms] ..

lemma step_tree_cong: "(\<And>q. q \<in> dn \<Longrightarrow> kept q = kept' q) \<Longrightarrow> step_tree kept ds dn fs \<longleftrightarrow> step_tree kept' ds dn fs"
  unfolding step_tree_def by (intro conj_cong all_cong ball_cong refl imp_cong) (auto split: option.split os_entry.split)

text \<open>
  After a collection the tree of the step holds the kept files, the manifest lists them, and nothing changed outside of
  the directory of the run.
\<close>

lemma collect_result:
  fixes ws ps pid eid index rp fs env patterns
  defines "as \<equiv> artifact_slot ps pid eid" and "ds \<equiv> artifact_slot ps pid eid @ [pad3 index]"
  assumes site: "artifact_site env ws ps pid eid index rp fs" and some: "patterns \<noteq> []"
    and reads: "\<forall>r \<in> set (walk_below fs rp). read_apart as fs (Join [render_path True rp, render_path False r])"
  defines "kept \<equiv> kept_content env patterns (render_path True rp) (render_path True ds) fs"
  obtains warns fs' names where "collectArtifacts env ws pid eid index patterns (render_path True rp) fs = (warns, fs')"
    "fs_tree fs'" "dir_way fs' ds" "outside_kept as fs fs'" "distinct names" "set names = set (walk_below fs rp)"
    "step_tree kept ds (set names) fs'"
    "map_of fs' (as @ [pad3 index @ ''.json'']) = Some (OsFile (ae_encode env \<lparr>mf_Version = 1,
       mf_Artifacts = concat (map (\<lambda>r. case kept r of None \<Rightarrow> [] | Some c \<Rightarrow> [kept_entry env r c]) names)\<rparr>))"
proof -
  let ?repo = "render_path True rp" and ?m = "pad3 index @ ''.json''" and ?t = "''.manifest-'' @ ae_temp env @ ''.json''"
  have root: "rooted (ws_root ws) ps" and t: "fs_tree fs" and rp: "real_dir fs rp" "rp \<noteq> []"
    and apart: "\<not> prefix as rp" "\<not> prefix rp as" and way: "dir_way fs ds" and slot: "\<And>e. map_of fs (as @ [?m]) = Some e \<Longrightarrow> \<exists>c. e = OsFile c"
    and temp: "CHR ''/'' \<notin> set (ae_temp env)" "map_of fs (as @ [?t]) = None" "\<not> ae_full env (render_path True (as @ [?t]))"
    using site by (auto simp: artifact_site_def as_def ds_def Let_def)
  have ds: "ds = as @ [pad3 index]" by (simp add: as_def ds_def)
  have plain_as: "\<forall>w \<in> set as. plain w" using root by (auto simp: as_def artifact_slot_def rooted_def)
  have plain_ds: "\<forall>w \<in> set ds. plain w" using plain_as by (auto simp: ds plain_suffixed)
  have plain_t: "plain ?t" using temp(1) by (auto simp: plain_def)
  have plain_rp: "\<forall>w \<in> set rp. plain w" using t rp by (auto simp: fs_tree_def real_dir_def)
  have mt: "?m \<noteq> ?t" using pad3_not(2) [of index] pad3_not_Nil [of index] by (cases "pad3 index") auto
  have paths: "StepArtifacts ws pid eid index = render_path True ds" "StepManifest ws pid eid index = render_path True (as @ [?m])"
    using workspace_renders [OF root] by (simp_all add: as_def ds_def artifact_slot_def)
  have md: "?m \<noteq> pad3 index" by simp
  obtain r1 fs1 where fs1: "os_RemoveAll fs (render_path True ds) = (r1, fs1)" "fs_tree fs1"
    "\<And>q. map_of fs1 q = (if prefix ds q then None else map_of fs q)"
    using RemoveAll_way [OF t plain_ds way] by (auto simp: ds)
  have way1: "dir_way fs1 ds" using way fs1(3) by (auto simp: dir_way_def)
  have at1: "map_of fs1 (as @ [?m]) = map_of fs (as @ [?m])" using md fs1(3) by (simp add: ds)
  have "clear_way fs1 (as @ [?m])"
    unfolding clear_way_def
  proof (intro allI impI)
    fix q l assume "prefix q (as @ [?m])" "q \<noteq> []"
    then show "map_of fs1 q \<noteq> Some (OsLink l)"
      using way1 at1 slot by (cases "q = as @ [?m]") (auto simp: dir_way_def ds prefix_snoc)
  qed
  moreover have "map_of fs1 (as @ [?m]) \<noteq> Some OsDir" using at1 slot [of OsDir] by auto
  ultimately obtain r2 fs2 where fs2: "os_Remove fs1 (render_path True (as @ [?m])) = (r2, fs2)" "fs_tree fs2"
    "\<And>q. map_of fs2 q = (if q = as @ [?m] then None else map_of fs1 q)"
    using Remove_slot [OF fs1(2), of "as @ [?m]"] plain_as plain_suffixed(3) by auto
  have m2: "map_of fs2 q = (if q = as @ [?m] \<or> prefix ds q then None else map_of fs q)" for q using fs1(3) fs2(3) by simp
  have way2: "dir_way fs2 ds" using way m2 by (auto simp: dir_way_def)
  have above: "strict_prefix as q" if "prefix ds q" for q using that by (auto simp: ds strict_prefix_def prefix_def)
  have out2: "outside_kept as fs fs2"
    unfolding outside_kept_def using m2 above by (auto simp: strict_prefix_def)
  have rp_as: "\<not> prefix as (rp @ q)" for q using apart by (metis prefix_append prefix_same_cases prefixI)
  have same_rp: "map_of fs2 (rp @ q) = map_of fs (rp @ q)" for q
  proof -
    have "rp @ q \<noteq> as @ [?m]" "\<not> prefix ds (rp @ q)" using rp_as [of q] by (auto simp: ds intro: append_prefixD)
    then show ?thesis by (simp add: m2)
  qed
  have rp2: "real_dir fs2 rp"
    unfolding real_dir_def
  proof (intro allI impI)
    fix q assume q: "prefix q rp \<and> q \<noteq> []"
    then have "\<not> prefix as q" using apart(1) by (meson prefix_order.trans)
    then have "q \<noteq> as @ [?m]" "\<not> prefix ds q" by (auto simp: ds intro: append_prefixD)
    then show "map_of fs2 q = Some OsDir" using m2 rp(1) q by (simp add: real_dir_def)
  qed
  let ?names = "walk_below fs2 rp"
  have names: "set ?names = set (walk_below fs rp)"
    using walk_below_set [OF t] walk_below_set [OF fs2(2)] same_rp by auto
  let ?kept2 = "kept_content env patterns ?repo (render_path True ds) fs2"
  have kept2: "?kept2 r = kept r" if "r \<in> set ?names" for r
    unfolding kept_def using reads that names out2 by (intro kept_content_apart) auto
  have init: "collect_inv env patterns ?repo ds fs2 [] ([], [], fs2)"
    using fs2(2) way2 m2 by (simp add: collect_inv_def step_tree_def ds)
  have "collect_inv env patterns ?repo ds fs2 ([] @ ?names)
      (foldl (collect_file env patterns ?repo (render_path True ds)) ([], [], fs2) ?names)"
  proof (rule collect_fold_inv [OF init plain_ds])
    show "prefix as ds" by (simp add: ds)
    show "distinct ([] @ ?names)" by (simp add: walk_below_distinct)
    show "q = r" if "q \<in> set ([] @ ?names)" "r \<in> set ([] @ ?names)" "prefix q r" for q r
      using walk_below_antichain [OF fs2(2) rp(2)] that by simp
    show "\<forall>r \<in> set ?names. r \<noteq> [] \<and> (\<forall>w \<in> set r. plain w) \<and> read_apart as fs2 (Join [?repo, render_path False r])"
      using walk_below_plain [OF fs2(2)] reads names read_apart_kept [OF _ out2] by blast
  qed
  then obtain entries warns3 fs3 where f: "foldl (collect_file env patterns ?repo (render_path True ds)) ([], [], fs2) ?names = (entries, warns3, fs3)"
    and inv: "collect_inv env patterns ?repo ds fs2 ?names (entries, warns3, fs3)"
    by (metis append_Nil prod_cases3)
  have t3: "fs_tree fs3" and way3: "dir_way fs3 ds" and out3: "outside_kept ds fs2 fs3" and tr3: "step_tree ?kept2 ds (set ?names) fs3"
    and es: "entries = concat (map (\<lambda>r. case ?kept2 r of None \<Rightarrow> [] | Some c \<Rightarrow> [kept_entry env r c]) ?names)"
    using inv by (simp_all add: collect_inv_def)
  have free3: "map_of fs3 (as @ [?m]) = None" "map_of fs3 (as @ [?t]) = None"
  proof -
    have "?t \<noteq> pad3 index" using pad3_not(2) [of index] pad3_not_Nil [of index] by (cases "pad3 index") auto
    then have "\<not> prefix (as @ [?m]) ds" "\<not> strict_prefix ds (as @ [?m])" "\<not> prefix (as @ [?t]) ds" "\<not> strict_prefix ds (as @ [?t])"
      using md by (auto simp: ds strict_prefix_def)
    then show "map_of fs3 (as @ [?m]) = None" "map_of fs3 (as @ [?t]) = None"
      using out3 m2 temp(2) unfolding outside_kept_def by (metis (no_types))+
  qed
  obtain fs4 where fs4: "WriteManifest env (render_path True (as @ [?m])) entries fs3 = (Inr (), fs4)" "fs_tree fs4"
    "\<And>q. map_of fs4 q = (if q = as @ [?m] then Some (OsFile (ae_encode env \<lparr>mf_Version = 1, mf_Artifacts = entries\<rparr>))
        else if q \<noteq> [] \<and> prefix q as then Some OsDir else map_of fs3 q)"
    by (rule WriteManifest_way [OF t3 plain_as dir_way_prefix [OF way3] plain_suffixed(3) free3(1) plain_t free3(2) temp(3) mt])
      (auto simp: ds)
  have below: "map_of fs4 (ds @ q) = map_of fs3 (ds @ q)" for q using fs4(3) md by (simp add: ds)
  show thesis
  proof (rule that)
    show "collectArtifacts env ws pid eid index patterns ?repo fs =
        ((case r1 of Inl _ \<Rightarrow> [WarnReset] | Inr _ \<Rightarrow> []) @ (case r2 of Inl e \<Rightarrow> if e \<noteq> ENOENT then [WarnResetManifest] else [] | Inr _ \<Rightarrow> []) @ warns3, fs4)"
      using some fs1(1) fs2(1) f fs4(1) WalkFiles_real [OF rp2 plain_rp rp(2)]
      by (simp add: collectArtifacts_def paths Let_def split: prod.split)
    show "fs_tree fs4" by (rule fs4(2))
    show "dir_way fs4 ds" using way3 fs4(3) by (auto simp: dir_way_def ds)
    show "distinct ?names" by (rule walk_below_distinct)
    show "set ?names = set (walk_below fs rp)" by (rule names)
    show "step_tree kept ds (set ?names) fs4"
      using tr3 below step_tree_cong [OF kept2, of "set ?names"] unfolding step_tree_def by simp
    show "map_of fs4 (as @ [?m]) = Some (OsFile (ae_encode env \<lparr>mf_Version = 1,
        mf_Artifacts = concat (map (\<lambda>r. case kept r of None \<Rightarrow> [] | Some c \<Rightarrow> [kept_entry env r c]) ?names)\<rparr>))"
      using fs4(3) es kept2 by (simp cong: map_cong)
    have "outside_kept as fs3 fs4"
      using fs4(3) way3 unfolding outside_kept_def by (auto simp: strict_prefix_def dir_way_def ds)
    then show "outside_kept as fs fs4"
      using outside_kept_trans [OF outside_kept_trans [OF out2 outside_kept_prefix [OF _ out3]]] by (simp add: ds)
  qed
qed

section \<open>Downloads\<close>

lemma manifest_hashes_map:
  assumes "\<forall>e \<in> set es. ah_Algorithm (me_Hash e) = ''sha256'' \<and> ah_Value (me_Hash e) \<noteq> []" "distinct (map me_Path es)" "e \<in> set es"
  shows "manifest_hashes es (me_Path e) = Some (me_Hash e)"
  using assms
proof (induction es rule: rev_induct)
  case (snoc x es)
  then have "e \<noteq> x \<Longrightarrow> me_Path e \<noteq> me_Path x" by (auto simp: image_iff)
  with snoc show ?case by (cases "e = x") (auto simp: manifest_hashes_def)
qed simp

lemma render_rel_inj:
  "r \<noteq> [] \<Longrightarrow> \<forall>w \<in> set r. plain w \<Longrightarrow> q \<noteq> [] \<Longrightarrow> \<forall>w \<in> set q. plain w \<Longrightarrow> render_path False r = render_path False q \<Longrightarrow> r = q"
  by (simp add: render_path_def JoinByte_inj)

text \<open>The name below \<open>ds\<close> that a requested path comes to, if it stays there.\<close>

definition requested :: "string list \<Rightarrow> string \<Rightarrow> string list option" where
  "requested ds path =
     (let xs = clean_stack True ds (path_parts path) in if take (length ds) xs = ds then Some (drop (length ds) xs) else None)"

definition step_index :: "execution \<Rightarrow> string \<Rightarrow> nat option" where
  "step_index exec step = find (\<lambda>i. r_Name (e_Steps exec ! i) = step) [0..<length (e_Steps exec)]"

definition etag_of :: "string \<Rightarrow> string" where
  "etag_of h = CHR 0x22 # ''sha256-'' @ h @ [CHR 0x22]"

lemma requested_path:
  fixes path
  assumes ds: "\<forall>w \<in> set ds. plain w" "ds \<noteq> []"
  defines "full \<equiv> Clean (Join [render_path True ds, path])"
  shows "case requested ds path of
      None \<Rightarrow> full \<noteq> render_path True ds \<and> \<not> HasPrefix full (render_path True ds @ ''/'')
    | Some r \<Rightarrow> full = render_path True (ds @ r) \<and> (\<forall>w \<in> set r. plain w) \<and> (r = [] \<or> HasPrefix full (render_path True ds @ ''/''))"
proof -
  let ?xs = "clean_stack True ds (path_parts path)"
  have xs: "\<forall>w \<in> set ?xs. plain w" using clean_stack_rooted_plain [OF ds(1)] path_parts_no_slash by blast
  have full: "full = render_path True ?xs" using Join_render [OF ds(1), of "[path]"] Clean_render [OF xs] by (simp add: full_def)
  have pre: "HasPrefix full (render_path True ds @ ''/'') \<longleftrightarrow> (\<exists>qs. qs \<noteq> [] \<and> ?xs = ds @ qs)"
    unfolding full by (rule HasPrefix_render [OF ds xs])
  have eq: "full = render_path True ds \<longleftrightarrow> ?xs = ds" unfolding full using render_path_inj [OF xs ds(1)] by auto
  show ?thesis
  proof (cases "take (length ds) ?xs = ds")
    case True
    then obtain r where r: "?xs = ds @ r" by (metis append_take_drop_id)
    then have "requested ds path = Some r" by (simp add: requested_def)
    then show ?thesis using r xs full pre by auto
  next
    case False
    then have "requested ds path = None" "?xs \<noteq> ds @ qs" for qs by (auto simp: requested_def Let_def)
    moreover from this(2) [of "[]"] have "?xs \<noteq> ds" by simp
    ultimately show ?thesis using pre eq by auto
  qed
qed

text \<open>The manifest of kept files gives each its hash.\<close>

lemma kept_hash:
  assumes names: "distinct names" "\<forall>r \<in> set names. r \<noteq> [] \<and> (\<forall>w \<in> set r. plain w)" and r: "r \<in> set names" "kept r = Some c"
    and sha: "\<And>c. ae_sha256 env c \<noteq> []"
  shows "manifest_hashes (concat (map (\<lambda>r. case kept r of None \<Rightarrow> [] | Some c \<Rightarrow> [kept_entry env r c]) names)) (render_path False r)
    = Some \<lparr>ah_Algorithm = ''sha256'', ah_Value = ae_sha256 env c\<rparr>"
proof -
  let ?es = "concat (map (\<lambda>r. case kept r of None \<Rightarrow> [] | Some c \<Rightarrow> [kept_entry env r c]) names)"
  have "map me_Path ?es = map (render_path False) (filter (\<lambda>r. kept r \<noteq> None) names)"
    by (induction names) (auto simp: kept_entry_def split: option.split)
  moreover have "inj_on (render_path False) (set (filter (\<lambda>r. kept r \<noteq> None) names))"
    using names(2) by (auto intro!: inj_onI render_rel_inj)
  ultimately have "distinct (map me_Path ?es)" using names(1) by (simp add: distinct_map)
  moreover have "\<forall>e \<in> set ?es. ah_Algorithm (me_Hash e) = ''sha256'' \<and> ah_Value (me_Hash e) \<noteq> []"
    using sha by (auto simp: kept_entry_def split: option.splits)
  moreover have "kept_entry env r c \<in> set ?es" using r by (auto intro!: bexI [of _ r])
  ultimately have "manifest_hashes ?es (me_Path (kept_entry env r c)) = Some (me_Hash (kept_entry env r c))"
    by (intro manifest_hashes_map)
  then show ?thesis by (simp add: kept_entry_def)
qed

lemma Open_collected:
  fixes printable :: "string \<Rightarrow> bool"
  assumes step: "step_index exec step = Some i" and some: "patterns \<noteq> []"
    and site: "artifact_site env ws ps (e_ProjectID exec) (e_ID exec) (int i) rp fs"
    and reads: "\<forall>r \<in> set (walk_below fs rp).
      read_apart (artifact_slot ps (e_ProjectID exec) (e_ID exec)) fs (Join [render_path True rp, render_path False r])"
    and json: "\<And>m. mf_Version m = 1 \<Longrightarrow> \<forall>e \<in> set (mf_Artifacts m). printable (me_Path e) \<and> printable (ah_Algorithm (me_Hash e)) \<and> printable (ah_Value (me_Hash e))
      \<Longrightarrow> ae_decode env (ae_encode env m) = Some m"
    and printables: "\<forall>r \<in> set (walk_below fs rp). printable (render_path False r)" "printable ''sha256''"
    and sha: "\<And>c. ae_sha256 env c \<noteq> [] \<and> printable (ae_sha256 env c)"
  defines "ds \<equiv> artifact_slot ps (e_ProjectID exec) (e_ID exec) @ [pad3 (int i)]"
  shows "artifacts_Open env ws
      (snd (collectArtifacts env ws (e_ProjectID exec) (e_ID exec) (int i) patterns (render_path True rp) fs)) exec step path =
    (case requested ds path of
       None \<Rightarrow> Inl (AppInvalid ''invalid'')
     | Some r \<Rightarrow>
         (case if r \<in> set (walk_below fs rp) then kept_content env patterns (render_path True rp) (render_path True ds) fs r else None of
            None \<Rightarrow> Inl AppNotFound
          | Some c \<Rightarrow> Inr \<lparr>fl_Content = c, fl_ETag = etag_of (ae_sha256 env c)\<rparr>))"
proof -
  let ?as = "artifact_slot ps (e_ProjectID exec) (e_ID exec)" and ?m = "pad3 (int i) @ ''.json''"
  let ?kept = "kept_content env patterns (render_path True rp) (render_path True ds) fs"
  let ?es = "\<lambda>names. concat (map (\<lambda>r. case ?kept r of None \<Rightarrow> [] | Some c \<Rightarrow> [kept_entry env r c]) names)"
  obtain warns fs' names where c: "collectArtifacts env ws (e_ProjectID exec) (e_ID exec) (int i) patterns (render_path True rp) fs = (warns, fs')"
    and t: "fs_tree fs'" and way: "dir_way fs' ds" and names: "distinct names" "set names = set (walk_below fs rp)"
    and tr: "step_tree ?kept ds (set names) fs'"
    and mf: "map_of fs' (?as @ [?m]) = Some (OsFile (ae_encode env \<lparr>mf_Version = 1, mf_Artifacts = ?es names\<rparr>))"
    by (rule collect_result [OF site some reads, folded ds_def]) (rule that)
  have root: "rooted (ws_root ws) ps" and t0: "fs_tree fs" using site by (auto simp: artifact_site_def Let_def)
  have plain_as: "\<forall>w \<in> set ?as. plain w" using root by (auto simp: artifact_slot_def rooted_def)
  have plain_ds: "\<forall>w \<in> set ds. plain w" "ds \<noteq> []" using plain_as by (auto simp: ds_def plain_suffixed)
  have paths: "StepArtifacts ws (e_ProjectID exec) (e_ID exec) (int i) = render_path True ds"
    "StepManifest ws (e_ProjectID exec) (e_ID exec) (int i) = render_path True (?as @ [?m])"
    using workspace_renders [OF root] by (simp_all add: ds_def artifact_slot_def)
  have plain_names: "\<forall>r \<in> set names. r \<noteq> [] \<and> (\<forall>w \<in> set r. plain w)" using names(2) walk_below_plain [OF t0] by simp
  have manifest: "readManifest env (render_path True (?as @ [?m])) fs' = manifest_hashes (?es names)"
  proof -
    have "butlast (?as @ [?m]) = ?as" "?as \<noteq> []" by (simp_all add: butlast_append) (simp add: artifact_slot_def)
    then have "map_of fs' ?as = Some OsDir" using tree_parent [OF t mf] by simp
    then have "real_dir fs' ?as" by (rule tree_real_dir [OF t])
    then have "clear_way fs' (?as @ [?m])" using mf by (intro clear_parent) auto
    then have "os_Stat fs' (render_path True (?as @ [?m])) = Inr (OsFile (ae_encode env \<lparr>mf_Version = 1, mf_Artifacts = ?es names\<rparr>))"
      using os_Stat_clear [OF t _] plain_as plain_suffixed(3) mf by (simp add: entry_at_def)
    moreover have "ae_decode env (ae_encode env \<lparr>mf_Version = 1, mf_Artifacts = ?es names\<rparr>) = Some \<lparr>mf_Version = 1, mf_Artifacts = ?es names\<rparr>"
      using printables sha names(2) by (intro json) (auto simp: kept_entry_def split: option.splits)
    ultimately show ?thesis by (simp add: readManifest_def os_ReadFile_def manifestVersion_def)
  qed
  have kept_iff: "os_ReadFile fs' (render_path True (ds @ r)) = Inr c \<longleftrightarrow> r \<in> set names \<and> ?kept r = Some c"
    if r: "\<forall>w \<in> set r. plain w" for r c
  proof -
    have links: "map_of fs' (ds @ q) \<noteq> Some (OsLink l)" if "q \<noteq> []" for q l using step_treeD(3) [OF tr that] .
    have "clear_way fs' (ds @ r)"
      unfolding clear_way_def
    proof (intro allI impI)
      fix q l assume q: "prefix q (ds @ r)" "q \<noteq> []"
      then consider "prefix q ds" | q' where "q = ds @ q'" "q' \<noteq> []" by (metis append_Nil2 prefix_append prefix_order.refl)
      then show "map_of fs' q \<noteq> Some (OsLink l)" using way links q(2) by cases (auto simp: dir_way_def)
    qed
    then have stat: "os_Stat fs' (render_path True (ds @ r)) = Inr e \<longleftrightarrow> map_of fs' (ds @ r) = Some e" for e
      using os_Stat_clear [OF t, of "ds @ r"] plain_ds r by (auto simp: entry_at_def)
    have "os_ReadFile fs' (render_path True (ds @ r)) = Inr c \<longleftrightarrow> map_of fs' (ds @ r) = Some (OsFile c)"
      by (simp add: os_ReadFile_Inr stat)
    also have "\<dots> \<longleftrightarrow> r \<in> set names \<and> ?kept r = Some c"
    proof (cases "r = []")
      case True
      then show ?thesis using way plain_ds(2) plain_names by (auto simp: dir_way_def)
    next
      case False
      then show ?thesis by (rule step_tree_file [OF tr])
    qed
    finally show ?thesis .
  qed
  let ?full = "Clean (Join [render_path True ds, path])"
  note rq = requested_path [OF plain_ds, of path]
  have find: "find (\<lambda>i. r_Name (e_Steps exec ! i) = step) [0..<length (e_Steps exec)] = Some i" using step by (simp add: step_index_def)
  show ?thesis
  proof (cases "requested ds path")
    case None
    then show ?thesis using rq find by (simp add: artifacts_Open_def paths c Let_def)
  next
    case (Some r)
    then have full: "?full = render_path True (ds @ r)" and r: "\<forall>w \<in> set r. plain w"
      and guard: "\<not> (?full \<noteq> render_path True ds \<and> \<not> HasPrefix ?full (render_path True ds @ ''/''))" using rq by auto
    show ?thesis
    proof (cases "os_ReadFile fs' (render_path True (ds @ r))")
      case (Inl e)
      then have "\<not> (r \<in> set names \<and> ?kept r = Some c)" for c using kept_iff [OF r] by (metis Inl_Inr_False)
      then have "(if r \<in> set (walk_below fs rp) then ?kept r else None) = None" using names(2) by (cases "?kept r") auto
      then show ?thesis using Some Inl guard full find by (simp add: artifacts_Open_def paths c Let_def)
    next
      case (Inr content)
      then have k: "r \<in> set names" "?kept r = Some content" using kept_iff [OF r] by auto
      then have "r \<noteq> []" using plain_names by blast
      then have "render_path True (ds @ r) = render_path True ds @ CHR ''/'' # render_path False r"
        using plain_ds(2) by (simp add: render_path_def JoinByte_append)
      moreover have "readManifest env (render_path True (?as @ [?m])) fs' (render_path False r)
          = Some \<lparr>ah_Algorithm = ''sha256'', ah_Value = ae_sha256 env content\<rparr>"
        unfolding manifest by (rule kept_hash [where kept = ?kept, OF names(1) plain_names k]) (use sha in blast)
      ultimately show ?thesis using Some Inr guard full find k names(2)
        by (simp add: artifacts_Open_def paths c Let_def etag_of_def)
    qed
  qed
qed

text \<open>
  C39. What can be downloaded after the artifacts of a step were collected, exactly: for every path that is asked for, a
  path that leaves the directory of the step is refused, one that comes to a matching file of the repository is answered
  with the content that file had and its SHA-256 as the tag, and everything else is not found. Files of an earlier
  attempt in the directory are gone. The names of the manifest must be texts the JSON encoding keeps, and what the
  links among the matching names lead to must lie outside of the directory of the run.
\<close>
theorem artifact_downloads_exact:
  fixes printable :: "string \<Rightarrow> bool"
  assumes "step_index exec step = Some i" "patterns \<noteq> []"
    and "artifact_site env ws ps (e_ProjectID exec) (e_ID exec) (int i) rp fs"
    and "\<forall>r \<in> set (walk_below fs rp).
      read_apart (artifact_slot ps (e_ProjectID exec) (e_ID exec)) fs (Join [render_path True rp, render_path False r])"
    and "\<And>m. mf_Version m = 1 \<Longrightarrow> \<forall>e \<in> set (mf_Artifacts m). printable (me_Path e) \<and> printable (ah_Algorithm (me_Hash e)) \<and> printable (ah_Value (me_Hash e))
      \<Longrightarrow> ae_decode env (ae_encode env m) = Some m"
    and "\<forall>r \<in> set (walk_below fs rp). printable (render_path False r)" "printable ''sha256''"
    and "\<And>c. ae_sha256 env c \<noteq> [] \<and> printable (ae_sha256 env c)"
  shows "artifacts_Open env ws
      (snd (collectArtifacts env ws (e_ProjectID exec) (e_ID exec) (int i) patterns (render_path True rp) fs)) exec step path =
    (case requested (artifact_slot ps (e_ProjectID exec) (e_ID exec) @ [pad3 (int i)]) path of
       None \<Rightarrow> Inl (AppInvalid ''invalid'')
     | Some r \<Rightarrow>
         (case if r \<in> set (walk_below fs rp)
               then kept_content env patterns (render_path True rp)
                      (render_path True (artifact_slot ps (e_ProjectID exec) (e_ID exec) @ [pad3 (int i)])) fs r
               else None of
            None \<Rightarrow> Inl AppNotFound
          | Some c \<Rightarrow> Inr \<lparr>fl_Content = c, fl_ETag = etag_of (ae_sha256 env c)\<rparr>))"
  by (rule Open_collected [OF assms])

text \<open>
  Collecting the artifacts of a step changes nothing outside of the artifact directory of its run, whatever the
  repository and the directory of an earlier attempt hold; at most the directories on the way to it are made.
\<close>
theorem collection_is_confined:
  assumes "artifact_site env ws ps projectID execID index rp fs"
    and "\<forall>r \<in> set (walk_below fs rp).
      read_apart (artifact_slot ps projectID execID) fs (Join [render_path True rp, render_path False r])"
  shows "outside_kept (artifact_slot ps projectID execID) fs
    (snd (collectArtifacts env ws projectID execID index patterns (render_path True rp) fs))"
proof (cases "patterns = []")
  case True
  then show ?thesis by (simp add: collectArtifacts_def)
next
  case False
  then show ?thesis using collect_result [OF assms(1) False assms(2)] by (metis snd_conv)
qed

section \<open>A repository with a link\<close>

text \<open>A codec for the example, and a repository whose step has made a link to a file of the host.\<close>

definition sample_encode :: "manifest \<Rightarrow> string" where
  "sample_encode m =
     JoinByte (concat (map (\<lambda>e. [me_Path e, ah_Algorithm (me_Hash e), ah_Value (me_Hash e)]) (mf_Artifacts m))) (CHR 0x0A)"

fun sample_entries :: "string list \<Rightarrow> manifest_entry list" where
  "sample_entries (p # a # v # ws) = \<lparr>me_Path = p, me_Hash = \<lparr>ah_Algorithm = a, ah_Value = v\<rparr>\<rparr> # sample_entries ws"
| "sample_entries _ = []"

definition sample_decode :: "string \<Rightarrow> manifest option" where
  "sample_decode s = Some \<lparr>mf_Version = 1, mf_Artifacts = sample_entries (SplitByte s (CHR 0x0A))\<rparr>"

lemma sample_codec:
  assumes "mf_Version m = 1"
    "\<forall>e \<in> set (mf_Artifacts m). CHR 0x0A \<notin> set (me_Path e) \<and> CHR 0x0A \<notin> set (ah_Algorithm (me_Hash e)) \<and> CHR 0x0A \<notin> set (ah_Value (me_Hash e))"
  shows "sample_decode (sample_encode m) = Some m"
proof -
  let ?ws = "\<lambda>es. concat (map (\<lambda>e. [me_Path e, ah_Algorithm (me_Hash e), ah_Value (me_Hash e)]) es)"
  have es: "sample_entries (?ws es) = es" for es by (induction es) auto
  show ?thesis
  proof (cases "mf_Artifacts m = []")
    case True
    then show ?thesis using assms(1) by (simp add: sample_decode_def sample_encode_def)
  next
    case False
    then have "SplitByte (sample_encode m) (CHR 0x0A) = ?ws (mf_Artifacts m)"
      unfolding sample_encode_def using assms(2) by (intro SplitByte_JoinByte) auto
    then show ?thesis using assms(1) by (simp add: sample_decode_def es)
  qed
qed

definition sample_artifact_env :: artifact_env where
  "sample_artifact_env =
     \<lparr>ae_encode = sample_encode, ae_decode = sample_decode, ae_sha256 = (\<lambda>c. ''h'' @ nat_digits (length c)), ae_glob = (\<lambda>p s. Some True),
      ae_temp = ''1'', ae_full = (\<lambda>_. False)\<rparr>"

definition sample_artifact_fs :: os_fs where
  "sample_artifact_fs =
     [([''repo''], OsDir), ([''repo'', ''out''], OsFile ''hi''), ([''repo'', ''leak''], OsLink ''/secret''), ([''secret''], OsFile ''key'')]"

definition sample_ws :: workspace where
  "sample_ws = \<lparr>ws_root = ''/data'', ws_logsRoot = ''/logs''\<rparr>"

definition sample_artifact_exec :: execution where
  "sample_artifact_exec = Execution0\<lparr>e_ID := 3, e_ProjectID := 1, e_Steps := [StepResult ''build'' StepStatusSuccess]\<rparr>"

lemma sample_artifact_site: "artifact_site sample_artifact_env sample_ws [''data''] 1 3 0 [''repo''] sample_artifact_fs"
proof -
  have "fs_tree sample_artifact_fs" by (auto simp: fs_tree_def sample_artifact_fs_def plain_def split: if_splits)
  moreover have "real_dir sample_artifact_fs [''repo'']"
    by (auto simp: real_dir_def sample_artifact_fs_def prefix_Cons)
  moreover have "map_of sample_artifact_fs (''data'' # q) = None" for q by (simp add: sample_artifact_fs_def)
  then have "dir_way sample_artifact_fs (''data'' # q)" for q by (auto simp: dir_way_def prefix_Cons)
  ultimately show ?thesis
    using \<open>\<And>q. map_of sample_artifact_fs (''data'' # q) = None\<close>
    by (simp add: artifact_site_def artifact_slot_def rooted_def sample_ws_def plain_def render_path_def sample_artifact_env_def)
qed

lemma sample_walk: "set (walk_below sample_artifact_fs [''repo'']) = {[''out''], [''leak'']}"
proof -
  have t: "fs_tree sample_artifact_fs" using sample_artifact_site by (simp add: artifact_site_def Let_def)
  have "r \<in> set (walk_below sample_artifact_fs [''repo'']) \<longleftrightarrow> r \<in> {[''out''], [''leak'']}" for r
    unfolding walk_below_set [OF t] by (auto simp: sample_artifact_fs_def)
  then show ?thesis by blast
qed

lemma outside_keptD: "outside_kept as fs fs' \<Longrightarrow> map_of fs q = Some e \<Longrightarrow> \<not> strict_prefix as q \<Longrightarrow> map_of fs' q = Some e"
  unfolding outside_kept_def by (metis option.distinct(1))

lemma sample_reads:
  "\<forall>r \<in> set (walk_below sample_artifact_fs [''repo'']).
     read_apart (artifact_slot [''data''] 1 3) sample_artifact_fs (Join [render_path True [''repo''], render_path False r])"
proof -
  have links: "max_links = Suc 39" by (simp add: max_links_def)
  have join: "Join [render_path True [''repo''], render_path False [''out'']] = ''/repo/out''"
    "Join [render_path True [''repo''], render_path False [''leak'']] = ''/repo/leak''" by code_simp+
  have st: "os_Stat fs ''/repo/out'' = Inr (OsFile ''hi'')" "os_Stat fs ''/repo/leak'' = Inr (OsFile ''key'')"
    if "map_of fs [''repo''] = Some OsDir" "map_of fs [''repo'', ''out''] = Some (OsFile ''hi'')"
      "map_of fs [''repo'', ''leak''] = Some (OsLink ''/secret'')" "map_of fs [''secret''] = Some (OsFile ''key'')" for fs
    using that by (simp_all add: os_Stat_def os_real_def links IsAbs_def entry_at_def)
  have fs: "map_of sample_artifact_fs [''repo''] = Some OsDir" "map_of sample_artifact_fs [''repo'', ''out''] = Some (OsFile ''hi'')"
    "map_of sample_artifact_fs [''repo'', ''leak''] = Some (OsLink ''/secret'')" "map_of sample_artifact_fs [''secret''] = Some (OsFile ''key'')"
    by (simp_all add: sample_artifact_fs_def)
  have "os_Stat fs' ''/repo/out'' = os_Stat sample_artifact_fs ''/repo/out'' \<and> os_Stat fs' ''/repo/leak'' = os_Stat sample_artifact_fs ''/repo/leak''"
    if k: "outside_kept (artifact_slot [''data''] 1 3) sample_artifact_fs fs'" for fs'
  proof -
    have "map_of fs' q = Some e" if "map_of sample_artifact_fs q = Some e" for q e
      using outside_keptD [OF k that] that by (auto simp: artifact_slot_def strict_prefix_def prefix_Cons sample_artifact_fs_def split: if_splits)
    from st [OF this [OF fs(1)] this [OF fs(2)] this [OF fs(3)] this [OF fs(4)]] st [OF fs] show ?thesis by simp
  qed
  then have "read_apart (artifact_slot [''data''] 1 3) sample_artifact_fs ''/repo/out''"
    "read_apart (artifact_slot [''data''] 1 3) sample_artifact_fs ''/repo/leak''"
    unfolding read_apart_def by blast+
  then show ?thesis unfolding sample_walk using join by simp
qed

lemma linked_file_is_kept:
  "kept_content sample_artifact_env [''*''] (render_path True [''repo'']) root sample_artifact_fs [''leak''] = Some ''key''"
proof -
  have "matchesAny (ae_glob sample_artifact_env) [''*''] (render_path False [''leak''])"
    by (simp add: matchesAny_def sample_artifact_env_def)
  moreover have "os_ReadFile sample_artifact_fs (Join [render_path True [''repo''], render_path False [''leak'']]) = Inr ''key''"
    by code_simp
  ultimately show ?thesis by (simp add: kept_content_def sample_artifact_env_def)
qed

lemma sample_requested: "requested (artifact_slot [''data''] 1 3 @ [pad3 0]) ''leak'' = Some [''leak'']"
proof -
  have "path_parts ''leak'' = [''leak'']" by (rule path_parts_plain) (simp add: plain_def)
  then show ?thesis by (simp add: requested_def clean_stack_plain plain_def)
qed

text \<open>The download of \<^verbatim>\<open>leak\<close> is the content of \<^verbatim>\<open>/secret\<close>, a file of the host.\<close>

theorem artifact_downloads_exact_witness:
  "artifacts_Open sample_artifact_env sample_ws
     (snd (collectArtifacts sample_artifact_env sample_ws 1 3 0 [''*''] (render_path True [''repo'']) sample_artifact_fs))
     sample_artifact_exec ''build'' ''leak''
   = Inr \<lparr>fl_Content = ''key'', fl_ETag = etag_of ''h3''\<rparr>"
proof -
  have ids: "e_ProjectID sample_artifact_exec = 1" "e_ID sample_artifact_exec = 3" by (simp_all add: sample_artifact_exec_def)
  have step: "step_index sample_artifact_exec ''build'' = Some 0" by (simp add: step_index_def sample_artifact_exec_def)
  have digits: "CHR 0x0A \<notin> set (nat_digits n)" for n using nat_digits_range [of "CHR 0x0A" n] by auto
  note ok = artifact_downloads_exact [where env = sample_artifact_env and ws = sample_ws and ps = "[''data'']"
      and exec = sample_artifact_exec and rp = "[''repo'']" and fs = sample_artifact_fs and patterns = "[''*'']"
      and path = "''leak''" and printable = "\<lambda>s. CHR 0x0A \<notin> set s", unfolded ids, OF step]
  have "artifacts_Open sample_artifact_env sample_ws
     (snd (collectArtifacts sample_artifact_env sample_ws 1 3 (int 0) [''*''] (render_path True [''repo'']) sample_artifact_fs))
     sample_artifact_exec ''build'' ''leak'' = Inr \<lparr>fl_Content = ''key'', fl_ETag = etag_of (ae_sha256 sample_artifact_env ''key'')\<rparr>"
  proof (subst ok)
    show "artifact_site sample_artifact_env sample_ws [''data''] 1 3 (int 0) [''repo''] sample_artifact_fs" using sample_artifact_site by simp
    show "\<forall>r \<in> set (walk_below sample_artifact_fs [''repo'']).
      read_apart (artifact_slot [''data''] 1 3) sample_artifact_fs (Join [render_path True [''repo''], render_path False r])" by (rule sample_reads)
    show "ae_decode sample_artifact_env (ae_encode sample_artifact_env m) = Some m"
      if "mf_Version m = 1" "\<forall>e \<in> set (mf_Artifacts m). CHR 0x0A \<notin> set (me_Path e) \<and> CHR 0x0A \<notin> set (ah_Algorithm (me_Hash e))
        \<and> CHR 0x0A \<notin> set (ah_Value (me_Hash e))" for m
      using sample_codec [OF that] by (simp add: sample_artifact_env_def)
    show "\<forall>r \<in> set (walk_below sample_artifact_fs [''repo'']). CHR 0x0A \<notin> set (render_path False r)"
      by (simp add: sample_walk render_path_def)
    show "ae_sha256 sample_artifact_env c \<noteq> [] \<and> CHR 0x0A \<notin> set (ae_sha256 sample_artifact_env c)" for c
      using digits by (simp add: sample_artifact_env_def)
  qed (simp_all add: sample_requested sample_walk linked_file_is_kept)
  moreover have "ae_sha256 sample_artifact_env ''key'' = ''h3''" by code_simp
  ultimately show ?thesis by simp
qed

theorem collection_is_confined_witness:
  "outside_kept (artifact_slot [''data''] 1 3) sample_artifact_fs
     (snd (collectArtifacts sample_artifact_env sample_ws 1 3 0 [''*''] (render_path True [''repo'']) sample_artifact_fs))"
  by (rule collection_is_confined [OF sample_artifact_site sample_reads])

end
