(* ===== verification/Spec2Isabelle.thy ===== *)
theory Spec2Isabelle
  imports ExecutorRefine Mask SqliteQueue SqliteProjects Paths WebUi AppProjects Workspace Gc
    RunnerRecord Workers Webhooks StoreCalls Sse Artifacts
begin

text \<open>
  pici, a self-hosted continuous integration server.
\<close>

end
